(* ===== verification/Prelude.thy ===== *)
theory Prelude
  imports Main "HOL-Library.Word" "HOL-Library.Product_Lexorder" "HOL-Library.List_Lexorder"
begin

text \<open>
  Shared vocabulary of the EzOpenPN control-plane model.

  \<^item> Python text is a list of Unicode code points (\<open>ustr\<close>), Python \<^verbatim>\<open>bytes\<close> a list of
    8-bit words, \<^verbatim>\<open>uuid.UUID\<close> a 128-bit word, and an instant or a \<^verbatim>\<open>timedelta\<close> an integer
    number of microseconds.
  \<^item> An operation of the program is a \<open>prog\<close>: it takes the state and yields an \<open>outcome\<close>
    (a value, a raised exception, or \<open>Stuck\<close> for a loop that did not return) and the new state.
  \<^item> \<open>keeps I m\<close> says that \<open>m\<close> maintains \<open>I\<close> on every outcome; its rules are collected in
    \<open>keeps_intros\<close>, so that an invariant proof is one application of the collection per operation.
\<close>

named_theorems keeps_intros \<open>structural rules of the invariant calculus\<close>
named_theorems returns_intros \<open>structural rules for programs that always return\<close>
named_theorems prog_simps \<open>symbolic execution of programs\<close>
named_theorems text_simps \<open>evaluation of text literals and predicates\<close>

type_synonym ustr = "nat list"
type_synonym byte = "8 word"
type_synonym bytes = "byte list"
type_synonym uuid = "128 word"

section \<open>Text\<close>

definition U :: "string \<Rightarrow> ustr" where
  "U s = map of_char s"

definition isascii :: "ustr \<Rightarrow> bool" where
  "isascii s = list_all (\<lambda>c. c < 128) s"

definition isspace :: "nat \<Rightarrow> bool" where
  "isspace c \<longleftrightarrow> (9 \<le> c \<and> c \<le> 13) \<or> (28 \<le> c \<and> c \<le> 32) \<or> c = 133 \<or> c = 160 \<or> c = 5760
     \<or> (8192 \<le> c \<and> c \<le> 8202) \<or> c = 8232 \<or> c = 8233 \<or> c = 8239 \<or> c = 8287 \<or> c = 12288"

definition strip :: "ustr \<Rightarrow> ustr" where
  "strip s = rev (dropWhile isspace (rev (dropWhile isspace s)))"

definition is_lower_hex :: "nat \<Rightarrow> bool" where
  "is_lower_hex c \<longleftrightarrow> (48 \<le> c \<and> c \<le> 57) \<or> (97 \<le> c \<and> c \<le> 102)"

lemmas text_defs [text_simps] = U_def isascii_def isspace_def strip_def is_lower_hex_def

lemma length_U [simp]: "length (U s) = length s"
  by (simp add: U_def)

lemma isascii_U: "isascii (U s)" if "list_all (\<lambda>c. of_char c < (128 :: nat)) s"
  using that by (simp add: isascii_def U_def list_all_length)

lemma isascii_append [simp]: "isascii (xs @ ys) \<longleftrightarrow> isascii xs \<and> isascii ys"
  by (simp add: isascii_def)

lemma isascii_Nil [simp]: "isascii []"
  by (simp add: isascii_def)

lemma isascii_Cons [simp]: "isascii (c # s) \<longleftrightarrow> c < 128 \<and> isascii s"
  by (simp add: isascii_def)

lemma isascii_take: "isascii s \<Longrightarrow> isascii (take n s)"
  by (auto simp: isascii_def list_all_iff dest: in_set_takeD)

lemma set_strip: "set (strip s) \<subseteq> set s"
  unfolding strip_def by (metis set_dropWhileD set_rev subsetI)

lemma length_strip: "length (strip s) \<le> length s"
  unfolding strip_def by (metis length_dropWhile_le length_rev order.trans)

lemma strip_hd: "strip s \<noteq> [] \<Longrightarrow> \<not> isspace (hd (strip s))"
proof -
  define t where "t = dropWhile isspace s"
  define u where "u = dropWhile isspace (rev t)"
  assume "strip s \<noteq> []"
  then have "u \<noteq> []" by (simp add: strip_def t_def u_def)
  then have t: "t \<noteq> []" unfolding u_def by auto
  have "\<exists>p. rev t = p @ u"
    unfolding u_def by (metis takeWhile_dropWhile_id)
  then obtain p where "rev t = p @ u" by blast
  then have "t = rev u @ rev p" by (metis rev_append rev_rev_ident)
  then have "hd t = hd (rev u)" using \<open>u \<noteq> []\<close> by simp
  moreover have "\<not> isspace (hd t)" using t unfolding t_def by (rule hd_dropWhile)
  ultimately show ?thesis by (simp add: strip_def t_def u_def)
qed

lemma strip_idem: "strip (strip s) = strip s"
proof (cases "strip s = []")
  case True
  then show ?thesis by (metis dropWhile.simps(1) rev.simps(1) strip_def)
next
  case False
  then have 1: "dropWhile isspace (strip s) = strip s"
    using strip_hd by (simp add: dropWhile_eq_self_iff)
  have "dropWhile isspace (rev (strip s)) = rev (strip s)"
    by (simp add: strip_def)
  with 1 show ?thesis by (simp add: strip_def)
qed

section \<open>Exceptions and outcomes\<close>

text \<open>
  One constructor per exception class the modelled code raises or catches. \<open>OtherError\<close> stands
  for any further \<^verbatim>\<open>Exception\<close> subclass that a third-party call may raise.
\<close>

datatype exn =
    ValueError | UnicodeError | JSONDecodeError | TypeError | KeyError | RecursionError | OSError | CryptoError
  | IntegrityError | OperationalError | MultipleResultsFound
  | ProfileNotFound | ProfileConflict | InvalidProfileTransition | InvalidProfileName
  | ProfileProvisioningFailed | ProfileRevocationFailed | ProfileEnableFailed
  | ProfileDeleteFailed | ProfileMaterialUnavailable | ProfileLinksUnavailable | LinkValueTooLong
  | RuntimeUnavailable | RuntimeRejected | InvalidRuntimeIdentifier
  | HysteriaRuntimeUnavailable | InvalidHysteriaRuntimeIdentifier | SupervisorUnavailable
  | SessionAdminNotFound | AdminAlreadyExists | AdminNotInitialized | InvalidAdminInput
  | ArchiveError | TarError | RenderError | SqliteError | CommandError | PasswordInputError
  | OtherError

text \<open>The subclasses of \<^verbatim>\<open>ValueError\<close> and of \<^verbatim>\<open>SQLAlchemyError\<close>, as \<^verbatim>\<open>except\<close> clauses see them.\<close>

fun is_ValueError :: "exn \<Rightarrow> bool" where
  "is_ValueError ValueError = True"
| "is_ValueError UnicodeError = True"
| "is_ValueError JSONDecodeError = True"
| "is_ValueError InvalidProfileName = True"
| "is_ValueError LinkValueTooLong = True"
| "is_ValueError InvalidRuntimeIdentifier = True"
| "is_ValueError InvalidHysteriaRuntimeIdentifier = True"
| "is_ValueError InvalidAdminInput = True"
| "is_ValueError ArchiveError = True"
| "is_ValueError PasswordInputError = True"
| "is_ValueError _ = False"

fun is_SQLAlchemyError :: "exn \<Rightarrow> bool" where
  "is_SQLAlchemyError IntegrityError = True"
| "is_SQLAlchemyError OperationalError = True"
| "is_SQLAlchemyError MultipleResultsFound = True"
| "is_SQLAlchemyError _ = False"

datatype 'a outcome = Ok 'a | Raise exn | Stuck

type_synonym ('s, 'a) prog = "'s \<Rightarrow> 'a outcome \<times> 's"

definition ret :: "'a \<Rightarrow> ('s, 'a) prog" where
  "ret a s = (Ok a, s)"

definition raise :: "exn \<Rightarrow> ('s, 'a) prog" where
  "raise e s = (Raise e, s)"

text \<open>A loop that has not returned within its fuel.\<close>

definition stuck :: "('s, 'a) prog" where
  "stuck s = (Stuck, s)"

definition bindP :: "('s, 'a) prog \<Rightarrow> ('a \<Rightarrow> ('s, 'b) prog) \<Rightarrow> ('s, 'b) prog" where
  "bindP m f s = (case m s of
     (Ok a, s') \<Rightarrow> f a s' | (Raise e, s') \<Rightarrow> (Raise e, s') | (Stuck, s') \<Rightarrow> (Stuck, s'))"

text \<open>\<open>catch m h\<close> is \<^verbatim>\<open>try: m except Exception as e: h(e)\<close>; a handler re-raises what it does not name.\<close>

definition catch :: "('s, 'a) prog \<Rightarrow> (exn \<Rightarrow> ('s, 'a) prog) \<Rightarrow> ('s, 'a) prog" where
  "catch m h s = (case m s of
     (Ok a, s') \<Rightarrow> (Ok a, s') | (Raise e, s') \<Rightarrow> h e s' | (Stuck, s') \<Rightarrow> (Stuck, s'))"

text \<open>\<open>failed m\<close> runs \<open>m\<close> and returns whether it raised: \<^verbatim>\<open>try: m except Exception: flag = True\<close>.\<close>

definition failed :: "('s, 'a) prog \<Rightarrow> ('s, bool) prog" where
  "failed m = catch (bindP m (\<lambda>_. ret False)) (\<lambda>_. ret True)"

definition lift_result :: "exn + 'a \<Rightarrow> ('s, 'a) prog" where
  "lift_result r s = (case r of Inl e \<Rightarrow> (Raise e, s) | Inr a \<Rightarrow> (Ok a, s))"

definition gets :: "('s \<Rightarrow> 'a) \<Rightarrow> ('s, 'a) prog" where
  "gets f s = (Ok (f s), s)"

definition modify :: "('s \<Rightarrow> 's) \<Rightarrow> ('s, unit) prog" where
  "modify f s = (Ok (), f s)"

fun for_each :: "('a \<Rightarrow> ('s, unit) prog) \<Rightarrow> 'a list \<Rightarrow> ('s, unit) prog" where
  "for_each f [] = ret ()"
| "for_each f (x # xs) = bindP (f x) (\<lambda>_. for_each f xs)"

definition bind_sum :: "'e + 'a \<Rightarrow> ('a \<Rightarrow> 'e + 'b) \<Rightarrow> 'e + 'b" where
  "bind_sum r f = (case r of Inl e \<Rightarrow> Inl e | Inr a \<Rightarrow> f a)"

definition guard_sum :: "bool \<Rightarrow> 'e \<Rightarrow> 'e + unit" where
  "guard_sum b e = (if b then Inr () else Inl e)"

lemma bind_sum_simps [simp]:
  "bind_sum (Inl e) f = Inl e" "bind_sum (Inr a) f = f a"
  by (simp_all add: bind_sum_def)

lemma bind_sum_eq_Inr: "bind_sum r f = Inr b \<longleftrightarrow> (\<exists>a. r = Inr a \<and> f a = Inr b)"
  by (cases r) auto

lemma guard_sum_simps [simp]:
  "guard_sum True e = Inr ()" "guard_sum False e = Inl e"
  "guard_sum b e = Inr u \<longleftrightarrow> b"
  by (simp_all add: guard_sum_def)

text \<open>\<^verbatim>\<open>try: r except Exception as e: h(e)\<close> on results.\<close>

definition catch_sum :: "exn + 'a \<Rightarrow> (exn \<Rightarrow> exn + 'a) \<Rightarrow> exn + 'a" where
  "catch_sum r h = (case r of Inl e \<Rightarrow> h e | Inr a \<Rightarrow> Inr a)"

lemma catch_sum_simps [simp]: "catch_sum (Inl e) h = h e" "catch_sum (Inr a) h = Inr a"
  by (simp_all add: catch_sum_def)

lemmas prog_defs = ret_def raise_def bindP_def catch_def failed_def lift_result_def gets_def modify_def

lemma ret_run [prog_simps]: "ret a s = (Ok a, s)"
  and raise_run [prog_simps]: "raise e s = (Raise e, s)"
  and gets_run [prog_simps]: "gets f s = (Ok (f s), s)"
  and modify_run [prog_simps]: "modify g s = (Ok (), g s)"
  and stuck_run [prog_simps]: "stuck s = (Stuck, s)"
  by (simp_all add: prog_defs stuck_def)

lemma lift_result_run [prog_simps]:
  "lift_result (Inl e) s = (Raise e, s)" "lift_result (Inr a) s = (Ok a, s)"
  by (simp_all add: lift_result_def)

lemma bindP_Ok [prog_simps]: "m s = (Ok a, s') \<Longrightarrow> bindP m f s = f a s'"
  and bindP_Raise [prog_simps]: "m s = (Raise e, s') \<Longrightarrow> bindP m f s = (Raise e, s')"
  and bindP_Stuck [prog_simps]: "m s = (Stuck, s') \<Longrightarrow> bindP m f s = (Stuck, s')"
  by (simp_all add: bindP_def)

lemma catch_Ok [prog_simps]: "m s = (Ok a, s') \<Longrightarrow> catch m h s = (Ok a, s')"
  and catch_Raise [prog_simps]: "m s = (Raise e, s') \<Longrightarrow> catch m h s = h e s'"
  and catch_Stuck [prog_simps]: "m s = (Stuck, s') \<Longrightarrow> catch m h s = (Stuck, s')"
  by (simp_all add: catch_def)

lemma failed_Ok [prog_simps]: "m s = (Ok a, s') \<Longrightarrow> failed m s = (Ok False, s')"
  and failed_Raise [prog_simps]: "m s = (Raise e, s') \<Longrightarrow> failed m s = (Ok True, s')"
  and failed_Stuck [prog_simps]: "m s = (Stuck, s') \<Longrightarrow> failed m s = (Stuck, s')"
  by (simp_all add: failed_def prog_simps)

text \<open>Inversion: how a sequence or a handler can have ended.\<close>

lemma bindP_OkE:
  assumes "bindP m f s = (Ok b, t)"
  obtains a s' where "m s = (Ok a, s')" and "f a s' = (Ok b, t)"
  using assms by (auto simp: bindP_def split: prod.splits outcome.splits)

lemma bindP_RaiseE:
  assumes "bindP m f s = (Raise e, t)"
  obtains "m s = (Raise e, t)"
  | a s' where "m s = (Ok a, s')" and "f a s' = (Raise e, t)"
  using assms by (auto simp: bindP_def split: prod.splits outcome.splits)

lemma catch_OkE:
  assumes "catch m h s = (Ok a, t)"
  obtains "m s = (Ok a, t)"
  | e s' where "m s = (Raise e, s')" and "h e s' = (Ok a, t)"
  using assms by (auto simp: catch_def split: prod.splits outcome.splits)

lemma catch_RaiseE:
  assumes "catch m h s = (Raise e, t)"
  obtains e' s' where "m s = (Raise e', s')" and "h e' s' = (Raise e, t)"
  using assms by (auto simp: catch_def split: prod.splits outcome.splits)

lemma failed_not_Raise: "failed m s \<noteq> (Raise e, t)"
  by (auto simp: prog_defs split: prod.splits outcome.splits)

lemma failed_FalseE:
  assumes "failed m s = (Ok False, t)"
  obtains a where "m s = (Ok a, t)"
  using assms by (auto simp: prog_defs split: prod.splits outcome.splits)

section \<open>Invariants of programs\<close>

definition keeps :: "('s \<Rightarrow> bool) \<Rightarrow> ('s, 'a) prog \<Rightarrow> bool" where
  "keeps I m \<longleftrightarrow> (\<forall>s. I s \<longrightarrow> I (snd (m s)))"

lemma keepsI: "(\<And>s. I s \<Longrightarrow> I (snd (m s))) \<Longrightarrow> keeps I m"
  by (simp add: keeps_def)

lemma keepsD: "keeps I m \<Longrightarrow> I s \<Longrightarrow> I (snd (m s))"
  by (simp add: keeps_def)

lemma keepsD_eq: "keeps I m \<Longrightarrow> m s = (r, t) \<Longrightarrow> I s \<Longrightarrow> I t"
  by (metis keepsD snd_conv)

lemma keeps_ret [keeps_intros]: "keeps I (ret a)"
  and keeps_raise [keeps_intros]: "keeps I (raise e)"
  and keeps_gets [keeps_intros]: "keeps I (gets f)"
  and keeps_stuck [keeps_intros]: "keeps I stuck"
  and keeps_lift [keeps_intros]: "keeps I (lift_result r)"
  by (auto simp: keeps_def prog_defs stuck_def split: sum.splits)

lemma keeps_bindP [keeps_intros]:
  assumes "keeps I m" and "\<And>a. keeps I (f a)"
  shows "keeps I (bindP m f)"
proof (rule keepsI)
  fix s assume I: "I s"
  obtain r s' where m: "m s = (r, s')" by (cases "m s")
  with assms(1) I have "I s'" by (blast dest: keepsD_eq)
  with assms(2) show "I (snd (bindP m f s))"
    by (cases r) (auto simp: bindP_def m dest: keepsD)
qed

lemma keeps_catch [keeps_intros]:
  assumes "keeps I m" and "\<And>e. keeps I (h e)"
  shows "keeps I (catch m h)"
proof (rule keepsI)
  fix s assume I: "I s"
  obtain r s' where m: "m s = (r, s')" by (cases "m s")
  with assms(1) I have "I s'" by (blast dest: keepsD_eq)
  with assms(2) show "I (snd (catch m h s))"
    by (cases r) (auto simp: catch_def m dest: keepsD)
qed

lemma keeps_failed [keeps_intros]: "keeps I m \<Longrightarrow> keeps I (failed m)"
  unfolding failed_def by (intro keeps_intros)

lemma keeps_if [keeps_intros]:
  "(b \<Longrightarrow> keeps I m) \<Longrightarrow> (\<not> b \<Longrightarrow> keeps I n) \<Longrightarrow> keeps I (if b then m else n)"
  by simp

lemma keeps_option [keeps_intros]:
  "keeps I m \<Longrightarrow> (\<And>x. keeps I (f x)) \<Longrightarrow> keeps I (case v of None \<Rightarrow> m | Some x \<Rightarrow> f x)"
  by (cases v) auto

lemma keeps_sum [keeps_intros]:
  "(\<And>x. keeps I (f x)) \<Longrightarrow> (\<And>y. keeps I (g y)) \<Longrightarrow> keeps I (case v of Inl x \<Rightarrow> f x | Inr y \<Rightarrow> g y)"
  by (cases v) auto

lemma keeps_prod [keeps_intros]: "(\<And>x y. keeps I (f x y)) \<Longrightarrow> keeps I (case p of (x, y) \<Rightarrow> f x y)"
  by (cases p) auto

lemma keeps_Let [keeps_intros]: "(\<And>x. keeps I (f x)) \<Longrightarrow> keeps I (let x = v in f x)"
  by simp

lemma keeps_for_each [keeps_intros]: "(\<And>x. keeps I (f x)) \<Longrightarrow> keeps I (for_each f xs)"
  by (induction xs) (auto intro: keeps_intros)

lemma keeps_modify: "(\<And>s. I s \<Longrightarrow> I (g s)) \<Longrightarrow> keeps I (modify g)"
  by (simp add: keeps_def prog_defs)

section \<open>Programs that return\<close>

text \<open>\<open>returns m\<close>: from every state, \<open>m\<close> ends with a value or an exception.\<close>

definition returns :: "('s, 'a) prog \<Rightarrow> bool" where
  "returns m \<longleftrightarrow> (\<forall>s. fst (m s) \<noteq> Stuck)"

lemma returnsD: "returns m \<Longrightarrow> m s \<noteq> (Stuck, t)"
  by (metis fst_conv returns_def)

lemma returns_ret [returns_intros]: "returns (ret a)"
  and returns_raise [returns_intros]: "returns (raise e)"
  and returns_gets [returns_intros]: "returns (gets f)"
  and returns_modify [returns_intros]: "returns (modify g)"
  and returns_lift [returns_intros]: "returns (lift_result r)"
  by (auto simp: returns_def prog_defs split: sum.splits)

lemma returns_bindP [returns_intros]: "returns m \<Longrightarrow> (\<And>a. returns (f a)) \<Longrightarrow> returns (bindP m f)"
  and returns_catch [returns_intros]: "returns m \<Longrightarrow> (\<And>e. returns (h e)) \<Longrightarrow> returns (catch m h)"
  unfolding returns_def bindP_def catch_def by (auto split: prod.splits outcome.splits) (metis fst_conv)+

lemma returns_failed [returns_intros]: "returns m \<Longrightarrow> returns (failed m)"
  unfolding failed_def by (intro returns_intros)

lemma returns_if [returns_intros]:
  "(b \<Longrightarrow> returns m) \<Longrightarrow> (\<not> b \<Longrightarrow> returns n) \<Longrightarrow> returns (if b then m else n)"
  by simp

lemma returns_option [returns_intros]:
  "returns m \<Longrightarrow> (\<And>x. returns (f x)) \<Longrightarrow> returns (case v of None \<Rightarrow> m | Some x \<Rightarrow> f x)"
  by (cases v) auto

lemma returns_prod [returns_intros]: "(\<And>x y. returns (f x y)) \<Longrightarrow> returns (case p of (x, y) \<Rightarrow> f x y)"
  by (cases p) auto

lemma returns_sum [returns_intros]:
  "(\<And>x. returns (f x)) \<Longrightarrow> (\<And>y. returns (g y)) \<Longrightarrow> returns (case v of Inl x \<Rightarrow> f x | Inr y \<Rightarrow> g y)"
  by (cases v) auto

lemma returns_Let [returns_intros]: "(\<And>x. returns (f x)) \<Longrightarrow> returns (let x = v in f x)"
  by simp

lemma returns_for_each [returns_intros]: "(\<And>x. returns (f x)) \<Longrightarrow> returns (for_each f xs)"
  by (induction xs) (auto intro: returns_intros)

section \<open>Rows of a table\<close>

text \<open>
  A table is the list of its rows in insertion order. \<open>row_find\<close>, \<open>row_update\<close> and
  \<open>row_delete\<close> are the row operations of the ORM on a column \<open>key\<close>.
\<close>

definition row_find :: "('r \<Rightarrow> 'k) \<Rightarrow> 'k \<Rightarrow> 'r list \<Rightarrow> 'r option" where
  "row_find key k rs = find (\<lambda>r. key r = k) rs"

definition row_update :: "('r \<Rightarrow> 'k) \<Rightarrow> 'k \<Rightarrow> ('r \<Rightarrow> 'r) \<Rightarrow> 'r list \<Rightarrow> 'r list" where
  "row_update key k f rs = map (\<lambda>r. if key r = k then f r else r) rs"

definition row_delete :: "('r \<Rightarrow> 'k) \<Rightarrow> 'k \<Rightarrow> 'r list \<Rightarrow> 'r list" where
  "row_delete key k rs = filter (\<lambda>r. key r \<noteq> k) rs"

lemma row_find_None: "row_find key k rs = None \<longleftrightarrow> k \<notin> key ` set rs"
  by (auto simp: row_find_def find_None_iff)

lemma row_find_SomeD: "row_find key k rs = Some r \<Longrightarrow> r \<in> set rs \<and> key r = k"
  by (auto simp: row_find_def find_Some_iff)

lemma row_find_unique: "distinct (map key rs) \<Longrightarrow> r \<in> set rs \<Longrightarrow> row_find key (key r) rs = Some r"
  by (induction rs) (auto simp: row_find_def image_iff)

lemma filter_unique:
  assumes "distinct (map key rs)" and "r \<in> set rs"
  shows "filter (\<lambda>x. key x = key r) rs = [r]"
  using assms by (induction rs) (auto simp: filter_empty_conv image_iff)

lemma set_row_update:
  "set (row_update key k f rs) = (\<lambda>r. if key r = k then f r else r) ` set rs"
  by (simp add: row_update_def)

lemma map_row_update:
  "(\<And>r. g (f r) = g r) \<Longrightarrow> map g (row_update key k f rs) = map g rs"
  by (simp add: row_update_def)

lemma row_find_update_same:
  "(\<And>r. key (f r) = key r) \<Longrightarrow>
   row_find key k (row_update key k f rs) = map_option f (row_find key k rs)"
  by (induction rs) (auto simp: row_find_def row_update_def)

lemma row_find_update_other:
  "(\<And>r. key (f r) = key r) \<Longrightarrow> k' \<noteq> k \<Longrightarrow>
   row_find key k' (row_update key k f rs) = row_find key k' rs"
  by (induction rs) (auto simp: row_find_def row_update_def)

lemma set_row_delete: "set (row_delete key k rs) = {r \<in> set rs. key r \<noteq> k}"
  by (auto simp: row_delete_def)

lemma row_find_delete:
  "row_find key k' (row_delete key k rs) = (if k' = k then None else row_find key k' rs)"
  by (induction rs) (auto simp: row_find_def row_delete_def)

lemma distinct_map_filter_rows: "distinct (map g rs) \<Longrightarrow> distinct (map g (filter P rs))"
  by (rule distinct_map_filter)

lemma distinct_row_delete: "distinct (map g rs) \<Longrightarrow> distinct (map g (row_delete key k rs))"
  unfolding row_delete_def by (rule distinct_map_filter_rows)

lemma row_find_append_new:
  "row_find key k (rs @ [r]) = (case row_find key k rs of
     Some x \<Rightarrow> Some x | None \<Rightarrow> if key r = k then Some r else None)"
  by (induction rs) (auto simp: row_find_def)

lemma row_find_append:
  "row_find key k (rs @ ts) = (case row_find key k rs of Some x \<Rightarrow> Some x | None \<Rightarrow> row_find key k ts)"
  by (induction rs) (auto simp: row_find_def)

end
