(* ===== verification/Schema.thy ===== *)
theory Schema
  imports Prelude
begin

text \<open>
  The durable state (\<^verbatim>\<open>control/src/ezopenpn/models.py\<close>, \<^verbatim>\<open>migrations/versions/0001_initial.py\<close>):
  one record type per table, the database as the record of its tables, the constraints that
  SQLite enforces on insertion, and \<open>schema_ok\<close>, the invariant those constraints amount to.
  The interface \<open>keyed_table\<close> gives the row laws that the components use; every table is an
  interpretation of it.
\<close>

section \<open>Timestamps\<close>

text \<open>
  A Python \<^verbatim>\<open>datetime\<close>: a wall-clock reading in microseconds, without an offset (\<open>Naive\<close>) or with the
  UTC offset in microseconds (\<open>Aware\<close>).
\<close>

datatype pydatetime = Naive int | Aware int int

fun utc_instant :: "pydatetime \<Rightarrow> exn + int" where
  "utc_instant (Naive _) = Inl ValueError"
| "utc_instant (Aware wall offset) = Inr (wall - offset)"

fun process_bind_param :: "pydatetime option \<Rightarrow> exn + pydatetime option" where
  "process_bind_param None = Inr None"
| "process_bind_param (Some v) = bind_sum (utc_instant v) (\<lambda>t. Inr (Some (Naive t)))"

fun process_result_value :: "pydatetime option \<Rightarrow> pydatetime option" where
  "process_result_value None = None"
| "process_result_value (Some (Naive t)) = Some (Aware t 0)"
| "process_result_value (Some (Aware wall offset)) = Some (Aware (wall - offset) 0)"

section \<open>Tables\<close>

datatype profile_state = PENDING | ACTIVE | DISABLED | ERROR

fun state_value :: "profile_state \<Rightarrow> ustr" where
  "state_value PENDING = U ''pending''"
| "state_value ACTIVE = U ''active''"
| "state_value DISABLED = U ''disabled''"
| "state_value ERROR = U ''error''"

record admin_row =
  ad_id :: ustr
  ad_login :: ustr
  ad_password_hash :: ustr
  ad_singleton_key :: int
  ad_session_version :: int
  ad_created_at :: int
  ad_updated_at :: int
  ad_last_login_at :: "int option"

record session_row =
  se_id :: ustr
  se_admin_id :: ustr
  se_token_digest :: bytes
  se_csrf_digest :: bytes
  se_session_version :: int
  se_created_at :: int
  se_last_seen_at :: int
  se_idle_expires_at :: int
  se_absolute_expires_at :: int
  se_revoked_at :: "int option"

record throttle_row =
  th_id :: ustr
  th_scope :: ustr
  th_key_digest :: bytes
  th_failure_count :: int
  th_window_started_at :: int
  th_last_failed_at :: int
  th_blocked_until :: "int option"

record profile_row =
  pr_id :: ustr
  pr_name :: ustr
  pr_state :: profile_state
  pr_runtime_id :: ustr
  pr_wrapped_profile_key :: "bytes option"
  pr_user_id_ciphertext :: bytes
  pr_hysteria_secret_ciphertext :: bytes
  pr_subscription_token_ciphertext :: bytes
  pr_last_error_code :: "ustr option"
  pr_created_at :: int
  pr_updated_at :: int
  pr_disabled_at :: "int option"

record lookup_row =
  lk_id :: ustr
  lk_profile_id :: ustr
  lk_kind :: ustr
  lk_lookup_digest :: bytes
  lk_created_at :: int

record system_state_row =
  ss_key :: ustr
  ss_value_json :: ustr
  ss_updated_at :: int

record audit_row =
  au_id :: ustr
  au_event_type :: ustr
  au_actor_admin_id :: "ustr option"
  au_subject_id :: "ustr option"
  au_details_json :: ustr
  au_occurred_at :: int

record database =
  admins :: "admin_row list"
  admin_sessions :: "session_row list"
  login_throttles :: "throttle_row list"
  profiles :: "profile_row list"
  profile_lookups :: "lookup_row list"
  system_state :: "system_state_row list"
  audit_events :: "audit_row list"

definition empty_database :: database where
  "empty_database = \<lparr>admins = [], admin_sessions = [], login_throttles = [], profiles = [],
     profile_lookups = [], system_state = [], audit_events = []\<rparr>"

section \<open>The table interface\<close>

locale keyed_table =
  fixes key :: "'r \<Rightarrow> 'k" and rows :: "'d \<Rightarrow> 'r list" and upd :: "('r list \<Rightarrow> 'r list) \<Rightarrow> 'd \<Rightarrow> 'd"
  assumes rows_upd: "rows (upd f d) = f (rows d)"
    and upd_upd: "upd f (upd g d) = upd (\<lambda>rs. f (g rs)) d"
    and upd_same: "f (rows d) = rows d \<Longrightarrow> upd f d = d"
begin

lemma find_insert:
  "row_find key k (rows d) = None \<Longrightarrow> key r = k \<Longrightarrow>
   row_find key k (rows (upd (\<lambda>rs. rs @ [r]) d)) = Some r"
  by (simp add: rows_upd row_find_append_new)

lemma find_insert_other:
  "key r \<noteq> k \<Longrightarrow> row_find key k (rows (upd (\<lambda>rs. rs @ [r]) d)) = row_find key k (rows d)"
  by (simp add: rows_upd row_find_append_new split: option.splits)

lemma find_update:
  assumes "\<And>r. key (f r) = key r"
  shows "row_find key k' (rows (upd (row_update key k f) d))
       = (if k' = k then map_option f (row_find key k (rows d)) else row_find key k' (rows d))"
  using row_find_update_same [of key f k "rows d"] row_find_update_other [of key f k' k "rows d"] assms
  by (simp add: rows_upd)

lemma find_delete:
  "row_find key k' (rows (upd (row_delete key k) d)) = (if k' = k then None else row_find key k' (rows d))"
  by (simp add: rows_upd row_find_delete)

lemma update_absent: "row_find key k (rows d) = None \<Longrightarrow> upd (row_update key k f) d = d"
  by (rule upd_same) (auto simp: row_find_None row_update_def image_iff intro!: map_idI)

lemma delete_absent: "row_find key k (rows d) = None \<Longrightarrow> upd (row_delete key k) d = d"
  by (rule upd_same) (auto simp: row_find_None row_delete_def image_iff filter_id_conv)

end

interpretation admin_table: keyed_table ad_id admins admins_update
  by unfold_locales auto

interpretation session_table: keyed_table se_id admin_sessions admin_sessions_update
  by unfold_locales auto

interpretation throttle_table: keyed_table "\<lambda>r. (th_scope r, th_key_digest r)" login_throttles login_throttles_update
  by unfold_locales auto

interpretation profile_table: keyed_table pr_id profiles profiles_update
  by unfold_locales auto

interpretation lookup_table: keyed_table lk_id profile_lookups profile_lookups_update
  by unfold_locales auto

interpretation state_table: keyed_table ss_key system_state system_state_update
  by unfold_locales auto

interpretation audit_table: keyed_table au_id audit_events audit_events_update
  by unfold_locales auto

section \<open>Constraints\<close>

text \<open>SQLite's \<^verbatim>\<open>length(text)\<close> counts the characters before the first NUL.\<close>

definition sql_length :: "ustr \<Rightarrow> nat" where
  "sql_length s = length (takeWhile (\<lambda>c. c \<noteq> 0) s)"

definition admin_check :: "admin_row \<Rightarrow> bool" where
  "admin_check r \<longleftrightarrow> 1 \<le> sql_length (ad_login r) \<and> sql_length (ad_login r) \<le> 128
     \<and> 1 \<le> ad_session_version r \<and> ad_singleton_key r = 1"

definition session_check :: "session_row \<Rightarrow> bool" where
  "session_check r \<longleftrightarrow> 1 \<le> se_session_version r"

definition throttle_check :: "throttle_row \<Rightarrow> bool" where
  "throttle_check r \<longleftrightarrow> (th_scope r = U ''ip'' \<or> th_scope r = U ''login'') \<and> 0 \<le> th_failure_count r"

definition profile_check :: "profile_row \<Rightarrow> bool" where
  "profile_check r \<longleftrightarrow> 1 \<le> sql_length (pr_name r) \<and> sql_length (pr_name r) \<le> 64
     \<and> sql_length (pr_runtime_id r) = 28"

definition lookup_check :: "lookup_row \<Rightarrow> bool" where
  "lookup_check r \<longleftrightarrow> length (lk_lookup_digest r) = 32"

definition state_check :: "system_state_row \<Rightarrow> bool" where
  "state_check r \<longleftrightarrow> 1 \<le> sql_length (ss_key r) \<and> sql_length (ss_key r) \<le> 128"

definition audit_check :: "audit_row \<Rightarrow> bool" where
  "audit_check r \<longleftrightarrow> 1 \<le> sql_length (au_event_type r) \<and> sql_length (au_event_type r) \<le> 64"

lemmas check_defs = admin_check_def session_check_def throttle_check_def profile_check_def
  lookup_check_def state_check_def audit_check_def

definition admins_ok :: "admin_row list \<Rightarrow> bool" where
  "admins_ok rs \<longleftrightarrow> distinct (map ad_id rs) \<and> distinct (map ad_login rs)
     \<and> distinct (map ad_singleton_key rs) \<and> list_all admin_check rs"

definition sessions_ok :: "ustr set \<Rightarrow> session_row list \<Rightarrow> bool" where
  "sessions_ok ids rs \<longleftrightarrow> distinct (map se_id rs) \<and> distinct (map se_token_digest rs)
     \<and> list_all session_check rs \<and> list_all (\<lambda>r. se_admin_id r \<in> ids) rs"

definition throttles_ok :: "throttle_row list \<Rightarrow> bool" where
  "throttles_ok rs \<longleftrightarrow> distinct (map th_id rs)
     \<and> distinct (map (\<lambda>r. (th_scope r, th_key_digest r)) rs) \<and> list_all throttle_check rs"

definition profiles_ok :: "profile_row list \<Rightarrow> bool" where
  "profiles_ok rs \<longleftrightarrow> distinct (map pr_id rs) \<and> distinct (map pr_runtime_id rs)
     \<and> list_all profile_check rs"

definition lookups_ok :: "ustr set \<Rightarrow> lookup_row list \<Rightarrow> bool" where
  "lookups_ok ids rs \<longleftrightarrow> distinct (map lk_id rs) \<and> distinct (map lk_lookup_digest rs)
     \<and> distinct (map (\<lambda>r. (lk_profile_id r, lk_kind r)) rs) \<and> list_all lookup_check rs
     \<and> list_all (\<lambda>r. lk_profile_id r \<in> ids) rs"

definition states_ok :: "system_state_row list \<Rightarrow> bool" where
  "states_ok rs \<longleftrightarrow> distinct (map ss_key rs) \<and> list_all state_check rs"

definition audits_ok :: "ustr set \<Rightarrow> audit_row list \<Rightarrow> bool" where
  "audits_ok ids rs \<longleftrightarrow> distinct (map au_id rs) \<and> list_all audit_check rs
     \<and> list_all (\<lambda>r. set_option (au_actor_admin_id r) \<subseteq> ids) rs"

definition schema_ok :: "database \<Rightarrow> bool" where
  "schema_ok db \<longleftrightarrow> admins_ok (admins db)
     \<and> sessions_ok (ad_id ` set (admins db)) (admin_sessions db)
     \<and> throttles_ok (login_throttles db) \<and> profiles_ok (profiles db)
     \<and> lookups_ok (pr_id ` set (profiles db)) (profile_lookups db)
     \<and> states_ok (system_state db) \<and> audits_ok (ad_id ` set (admins db)) (audit_events db)"

lemmas table_ok_defs = admins_ok_def sessions_ok_def throttles_ok_def profiles_ok_def lookups_ok_def
  states_ok_def audits_ok_def

lemma table_ok_mono:
  "sessions_ok A s \<Longrightarrow> A \<subseteq> B \<Longrightarrow> sessions_ok B s"
  "lookups_ok C l \<Longrightarrow> C \<subseteq> D \<Longrightarrow> lookups_ok D l"
  "audits_ok A x \<Longrightarrow> A \<subseteq> B \<Longrightarrow> audits_ok B x"
  unfolding table_ok_defs list_all_iff by blast+

section \<open>Insertion\<close>

definition insert_admin :: "admin_row \<Rightarrow> database \<Rightarrow> exn + database" where
  "insert_admin r db = (if admin_check r \<and> ad_id r \<notin> ad_id ` set (admins db)
       \<and> ad_login r \<notin> ad_login ` set (admins db)
       \<and> ad_singleton_key r \<notin> ad_singleton_key ` set (admins db)
     then Inr (admins_update (\<lambda>rs. rs @ [r]) db) else Inl IntegrityError)"

definition insert_session :: "session_row \<Rightarrow> database \<Rightarrow> exn + database" where
  "insert_session r db = (if session_check r \<and> se_id r \<notin> se_id ` set (admin_sessions db)
       \<and> se_token_digest r \<notin> se_token_digest ` set (admin_sessions db)
       \<and> se_admin_id r \<in> ad_id ` set (admins db)
     then Inr (admin_sessions_update (\<lambda>rs. rs @ [r]) db) else Inl IntegrityError)"

definition insert_throttle :: "throttle_row \<Rightarrow> database \<Rightarrow> exn + database" where
  "insert_throttle r db = (if throttle_check r \<and> th_id r \<notin> th_id ` set (login_throttles db)
       \<and> (th_scope r, th_key_digest r) \<notin> (\<lambda>x. (th_scope x, th_key_digest x)) ` set (login_throttles db)
     then Inr (login_throttles_update (\<lambda>rs. rs @ [r]) db) else Inl IntegrityError)"

definition insert_profile :: "profile_row \<Rightarrow> database \<Rightarrow> exn + database" where
  "insert_profile r db = (if profile_check r \<and> pr_id r \<notin> pr_id ` set (profiles db)
       \<and> pr_runtime_id r \<notin> pr_runtime_id ` set (profiles db)
     then Inr (profiles_update (\<lambda>rs. rs @ [r]) db) else Inl IntegrityError)"

definition insert_lookup :: "lookup_row \<Rightarrow> database \<Rightarrow> exn + database" where
  "insert_lookup r db = (if lookup_check r \<and> lk_id r \<notin> lk_id ` set (profile_lookups db)
       \<and> lk_lookup_digest r \<notin> lk_lookup_digest ` set (profile_lookups db)
       \<and> (lk_profile_id r, lk_kind r) \<notin> (\<lambda>x. (lk_profile_id x, lk_kind x)) ` set (profile_lookups db)
       \<and> lk_profile_id r \<in> pr_id ` set (profiles db)
     then Inr (profile_lookups_update (\<lambda>rs. rs @ [r]) db) else Inl IntegrityError)"

definition insert_state :: "system_state_row \<Rightarrow> database \<Rightarrow> exn + database" where
  "insert_state r db = (if state_check r \<and> ss_key r \<notin> ss_key ` set (system_state db)
     then Inr (system_state_update (\<lambda>rs. rs @ [r]) db) else Inl IntegrityError)"

definition insert_audit :: "audit_row \<Rightarrow> database \<Rightarrow> exn + database" where
  "insert_audit r db = (if audit_check r \<and> au_id r \<notin> au_id ` set (audit_events db)
       \<and> set_option (au_actor_admin_id r) \<subseteq> ad_id ` set (admins db)
     then Inr (audit_events_update (\<lambda>rs. rs @ [r]) db) else Inl IntegrityError)"

lemmas insert_defs = insert_admin_def insert_session_def insert_throttle_def insert_profile_def
  insert_lookup_def insert_state_def insert_audit_def

lemma schema_ok_empty: "schema_ok empty_database"
  by (simp add: schema_ok_def empty_database_def table_ok_defs)

lemma table_ok_append:
  "admins_ok as \<Longrightarrow> insert_admin a (db\<lparr>admins := as\<rparr>) = Inr db' \<Longrightarrow> admins_ok (as @ [a])"
  "sessions_ok ids ss \<Longrightarrow> ids = ad_id ` set (admins db) \<Longrightarrow>
     insert_session s (db\<lparr>admin_sessions := ss\<rparr>) = Inr db' \<Longrightarrow> sessions_ok ids (ss @ [s])"
  "throttles_ok ts \<Longrightarrow> insert_throttle t (db\<lparr>login_throttles := ts\<rparr>) = Inr db' \<Longrightarrow> throttles_ok (ts @ [t])"
  "profiles_ok ps \<Longrightarrow> insert_profile p (db\<lparr>profiles := ps\<rparr>) = Inr db' \<Longrightarrow> profiles_ok (ps @ [p])"
  "lookups_ok ids ls \<Longrightarrow> ids = pr_id ` set (profiles db) \<Longrightarrow>
     insert_lookup l (db\<lparr>profile_lookups := ls\<rparr>) = Inr db' \<Longrightarrow> lookups_ok ids (ls @ [l])"
  "states_ok xs \<Longrightarrow> insert_state x (db\<lparr>system_state := xs\<rparr>) = Inr db' \<Longrightarrow> states_ok (xs @ [x])"
  "audits_ok ids es \<Longrightarrow> ids = ad_id ` set (admins db) \<Longrightarrow>
     insert_audit e (db\<lparr>audit_events := es\<rparr>) = Inr db' \<Longrightarrow> audits_ok ids (es @ [e])"
  by (auto simp: insert_defs table_ok_defs split: if_splits)

lemma schema_ok_insert:
  assumes "schema_ok db"
  shows "insert_admin a db = Inr db' \<Longrightarrow> schema_ok db'"
    and "insert_session s db = Inr db' \<Longrightarrow> schema_ok db'"
    and "insert_throttle t db = Inr db' \<Longrightarrow> schema_ok db'"
    and "insert_profile p db = Inr db' \<Longrightarrow> schema_ok db'"
    and "insert_lookup l db = Inr db' \<Longrightarrow> schema_ok db'"
    and "insert_state x db = Inr db' \<Longrightarrow> schema_ok db'"
    and "insert_audit e db = Inr db' \<Longrightarrow> schema_ok db'"
proof -
  note ok = assms [unfolded schema_ok_def]
  show "insert_admin a db = Inr db' \<Longrightarrow> schema_ok db'"
    using ok table_ok_append(1) [of "admins db" a db db']
    by (auto simp: schema_ok_def insert_admin_def intro: table_ok_mono split: if_splits)
  show "insert_session s db = Inr db' \<Longrightarrow> schema_ok db'"
    using ok table_ok_append(2) [of _ "admin_sessions db" db s db']
    by (auto simp: schema_ok_def insert_session_def split: if_splits)
  show "insert_throttle t db = Inr db' \<Longrightarrow> schema_ok db'"
    using ok table_ok_append(3) [of "login_throttles db" t db db']
    by (auto simp: schema_ok_def insert_throttle_def split: if_splits)
  show "insert_profile p db = Inr db' \<Longrightarrow> schema_ok db'"
    using ok table_ok_append(4) [of "profiles db" p db db']
    by (auto simp: schema_ok_def insert_profile_def intro: table_ok_mono split: if_splits)
  show "insert_lookup l db = Inr db' \<Longrightarrow> schema_ok db'"
    using ok table_ok_append(5) [of _ "profile_lookups db" db l db']
    by (auto simp: schema_ok_def insert_lookup_def split: if_splits)
  show "insert_state x db = Inr db' \<Longrightarrow> schema_ok db'"
    using ok table_ok_append(6) [of "system_state db" x db db']
    by (auto simp: schema_ok_def insert_state_def split: if_splits)
  show "insert_audit e db = Inr db' \<Longrightarrow> schema_ok db'"
    using ok table_ok_append(7) [of _ "audit_events db" db e db']
    by (auto simp: schema_ok_def insert_audit_def split: if_splits)
qed

lemma insert_error: 
  "insert_profile p db = Inl e \<Longrightarrow> e = IntegrityError"
  "insert_lookup l db = Inl e \<Longrightarrow> e = IntegrityError"
  "insert_audit x db = Inl e \<Longrightarrow> e = IntegrityError"
  by (auto simp: insert_defs split: if_splits)

section \<open>Updates and deletions\<close>

text \<open>
  An \<^verbatim>\<open>UPDATE\<close> of a row leaves the constrained columns of a profile alone, so it keeps the schema; so
  do the deletions, with the lookups of a profile deleted before the profile.
\<close>

definition same_profile_columns :: "(profile_row \<Rightarrow> profile_row) \<Rightarrow> bool" where
  "same_profile_columns f \<longleftrightarrow> (\<forall>r. pr_id (f r) = pr_id r \<and> pr_name (f r) = pr_name r
     \<and> pr_runtime_id (f r) = pr_runtime_id r)"

lemma profiles_ok_update:
  "profiles_ok rs \<Longrightarrow> same_profile_columns f \<Longrightarrow> profiles_ok (row_update pr_id k f rs)"
  by (auto simp: profiles_ok_def same_profile_columns_def map_row_update list_all_iff set_row_update
      profile_check_def)

lemma pr_id_row_update:
  "same_profile_columns f \<Longrightarrow> pr_id ` set (row_update pr_id k f rs) = pr_id ` set rs"
  using map_row_update [where g = pr_id and f = f and key = pr_id and k = k and rs = rs]
  by (metis same_profile_columns_def set_map)

lemma schema_ok_update_profile:
  "schema_ok db \<Longrightarrow> same_profile_columns f \<Longrightarrow> schema_ok (profiles_update (row_update pr_id k f) db)"
  by (simp add: schema_ok_def profiles_ok_update pr_id_row_update)

lemma schema_ok_filter_lookups:
  "schema_ok db \<Longrightarrow> schema_ok (profile_lookups_update (filter P) db)"
  by (auto simp: schema_ok_def lookups_ok_def list_all_iff distinct_map_filter)

lemma schema_ok_delete_profile:
  assumes "schema_ok db" and "\<forall>l \<in> set (profile_lookups db). lk_profile_id l \<noteq> k"
  shows "schema_ok (profiles_update (row_delete pr_id k) db)"
proof -
  have "profiles_ok (row_delete pr_id k (profiles db))"
    using assms(1) by (auto simp: schema_ok_def profiles_ok_def list_all_iff set_row_delete distinct_row_delete)
  moreover have "pr_id ` set (row_delete pr_id k (profiles db)) = pr_id ` set (profiles db) - {k}"
    by (auto simp: set_row_delete)
  moreover have "lookups_ok (pr_id ` set (profiles db) - {k}) (profile_lookups db)"
    using assms by (auto simp: schema_ok_def lookups_ok_def list_all_iff)
  ultimately show ?thesis using assms(1) by (simp add: schema_ok_def)
qed

end
