(* ===== verification/Codec.thy ===== *)
theory Codec
  imports Prelude
begin

text \<open>
  The text encodings of the Python standard library that the program relies on: the base64 and
  base32 alphabets of \<^verbatim>\<open>base64\<close>, the text and byte forms of \<^verbatim>\<open>uuid.UUID\<close>, UTF-8,
  percent-encoding (\<^verbatim>\<open>urllib.parse\<close>) and dotted decimal addresses, together with the token
  builders of the program that are written over them. The interface \<open>text_codec\<close> states that a
  decoder recovers what an encoder wrote; every encoding below is an interpretation of it, and
  injectivity of the program's tokens comes from there.
\<close>

section \<open>The codec interface\<close>

locale text_codec =
  fixes enc :: "'a \<Rightarrow> 'b" and dec :: "'b \<Rightarrow> 'a option"
  assumes dec_enc: "dec (enc x) = Some x"
begin

lemma enc_eq_iff: "enc x = enc y \<longleftrightarrow> x = y"
  by (metis dec_enc option.inject)

lemma enc_inj: "inj enc"
  by (rule injI) (simp add: enc_eq_iff)

lemma distinct_map_enc: "distinct (map enc xs) \<longleftrightarrow> distinct xs"
  by (simp add: distinct_map inj_on_def enc_eq_iff)

end

section \<open>Chunks of bits\<close>

function chunks :: "nat \<Rightarrow> 'a list \<Rightarrow> 'a list list" where
  "chunks k xs = (if k = 0 \<or> xs = [] then [] else take k xs # chunks k (drop k xs))"
  by pat_completeness auto
termination
  by (relation "measure (\<lambda>(k, xs). length xs)") auto

declare chunks.simps [simp del]

definition nat_bits :: "nat \<Rightarrow> nat \<Rightarrow> bool list" where
  "nat_bits k n = map (bit n) (rev [0..<k])"

definition bits_nat :: "bool list \<Rightarrow> nat" where
  "bits_nat bs = horner_sum of_bool 2 (rev bs)"

definition byte_bits :: "byte \<Rightarrow> bool list" where
  "byte_bits b = nat_bits 8 (unat b)"

definition bits_byte :: "bool list \<Rightarrow> byte" where
  "bits_byte bs = word_of_nat (bits_nat bs)"

definition radix_digits :: "nat \<Rightarrow> bytes \<Rightarrow> nat list" where
  "radix_digits k bs = map (\<lambda>c. bits_nat (c @ replicate (k - length c) False))
     (chunks k (concat (map byte_bits bs)))"

definition radix_undigits :: "nat \<Rightarrow> nat list \<Rightarrow> bytes" where
  "radix_undigits k ds = map bits_byte (filter (\<lambda>c. length c = 8)
     (chunks 8 (concat (map (nat_bits k) ds))))"

lemma length_nat_bits [simp]: "length (nat_bits k n) = k"
  by (simp add: nat_bits_def)

lemma length_byte_bits [simp]: "length (byte_bits b) = 8"
  by (simp add: byte_bits_def)

lemma bits_nat_bits [simp]: "bits_nat (nat_bits k n) = n mod 2 ^ k"
  by (simp add: bits_nat_def nat_bits_def rev_map horner_sum_bit_eq_take_bit take_bit_eq_mod)

lemma nat_bits_bits [simp]: "length bs = k \<Longrightarrow> nat_bits k (bits_nat bs) = bs"
  by (auto simp: nat_bits_def bits_nat_def bit_horner_sum_bit_iff rev_nth intro!: nth_equalityI)

lemma bits_nat_less: "bits_nat bs < 2 ^ length bs"
  by (metis bits_nat_bits mod_less_divisor nat_bits_bits zero_less_numeral zero_less_power)

lemma bits_byte_bits [simp]: "bits_byte (byte_bits b) = b"
proof -
  have "unat b < 256" using unsigned_less [of b] by simp
  then show ?thesis by (simp add: bits_byte_def byte_bits_def)
qed

lemma chunks_Nil [simp]: "chunks k [] = []"
  by (simp add: chunks.simps)

lemma chunks_Cons: "0 < k \<Longrightarrow> length x = k \<Longrightarrow> chunks k (x @ xs) = x # chunks k xs"
  by (subst chunks.simps) auto

lemma chunks_short: "xs \<noteq> [] \<Longrightarrow> length xs < k \<Longrightarrow> chunks k xs = [xs]"
  by (subst chunks.simps) auto

lemma length_chunks: "0 < k \<Longrightarrow> length (chunks k xs) = (length xs + k - 1) div k"
proof (induction k xs rule: chunks.induct)
  case (1 k xs)
  show ?case
  proof (cases "xs = []")
    case True
    with "1.prems" show ?thesis by simp
  next
    case False
    then have n: "0 < length xs" by simp
    then have "length xs + k - 1 = (length xs - 1) + k" by linarith
    then have "(length xs + k - 1) div k = ((length xs - 1) + k) div k" by simp
    also have "\<dots> = Suc ((length xs - 1) div k)"
      using "1.prems" by (metis Suc_eq_plus1 div_add_self2 not_gr_zero)
    also have "(length xs - 1) div k = (length (drop k xs) + k - 1) div k"
      using n "1.prems" by (cases "k \<le> length xs") auto
    also have "\<dots> = length (chunks k (drop k xs))" using 1 False by simp
    finally show ?thesis using False "1.prems" by (simp add: chunks.simps [of k xs])
  qed
qed

lemma chunk_length: "c \<in> set (chunks k xs) \<Longrightarrow> 0 < length c \<and> length c \<le> k"
proof (induction k xs rule: chunks.induct)
  case (1 k xs)
  then show ?case by (cases "k = 0 \<or> xs = []") (auto simp: chunks.simps [of k xs])
qed

lemma radix_digits_less: "d \<in> set (radix_digits k bs) \<Longrightarrow> d < 2 ^ k"
proof -
  assume "d \<in> set (radix_digits k bs)"
  then obtain c where c: "c \<in> set (chunks k (concat (map byte_bits bs)))"
    and d: "d = bits_nat (c @ replicate (k - length c) False)"
    by (auto simp: radix_digits_def)
  from chunk_length [OF c] have "length (c @ replicate (k - length c) False) = k" by simp
  with bits_nat_less [of "c @ replicate (k - length c) False"] d show ?thesis by simp
qed

lemma length_concat_byte_bits [simp]: "length (concat (map byte_bits bs)) = 8 * length bs"
  by (induction bs) auto

lemma length_radix_digits: "0 < k \<Longrightarrow> length (radix_digits k bs) = (8 * length bs + k - 1) div k"
  by (simp add: radix_digits_def length_chunks)

lemma concat_padded_chunks:
  "0 < k \<Longrightarrow> \<exists>p < k. concat (map (\<lambda>c. c @ replicate (k - length c) False) (chunks k xs))
     = xs @ replicate p False"
proof (induction k xs rule: chunks.induct)
  case (1 k xs)
  show ?case
  proof (cases "xs = [] \<or> length xs < k")
    case True
    then show ?thesis using "1.prems"
      by (cases "xs = []") (auto simp: chunks_short intro: exI [of _ "k - length xs"] exI [of _ 0])
  next
    case False
    with 1 obtain p where "p < k" and
      "concat (map (\<lambda>c. c @ replicate (k - length c) False) (chunks k (drop k xs)))
        = drop k xs @ replicate p False" by auto
    with False "1.prems" show ?thesis
      by (subst chunks.simps) (auto intro!: exI [of _ p] simp flip: append_assoc)
  qed
qed

lemma chunks_bytes_append:
  "length ys < 8 \<Longrightarrow>
   filter (\<lambda>c. length c = 8) (chunks 8 (concat (map byte_bits bs) @ ys)) = map byte_bits bs"
proof (induction bs)
  case Nil
  then show ?case by (cases "ys = []") (auto simp: chunks_short)
next
  case (Cons b bs)
  have "chunks 8 (byte_bits b @ (concat (map byte_bits bs) @ ys))
      = byte_bits b # chunks 8 (concat (map byte_bits bs) @ ys)"
    by (rule chunks_Cons) auto
  with Cons show ?case by simp
qed

lemma radix_roundtrip:
  assumes "0 < k" and "k \<le> 8"
  shows "radix_undigits k (radix_digits k bs) = bs"
proof -
  let ?bits = "concat (map byte_bits bs)"
  have "concat (map (nat_bits k) (radix_digits k bs))
      = concat (map (\<lambda>c. c @ replicate (k - length c) False) (chunks k ?bits))"
    unfolding radix_digits_def map_map comp_def
    by (rule arg_cong [where f = concat], rule map_cong [OF refl]) (auto dest!: chunk_length)
  then obtain p where p: "p < k" and
    "concat (map (nat_bits k) (radix_digits k bs)) = ?bits @ replicate p False"
    using concat_padded_chunks [OF assms(1)] by metis
  with assms(2) show ?thesis
    by (simp add: radix_undigits_def chunks_bytes_append comp_def)
qed

section \<open>URL-safe tokens\<close>

definition url_char :: "nat \<Rightarrow> nat" where
  "url_char n = (if n < 26 then 65 + n else if n < 52 then 97 + (n - 26)
     else if n < 62 then 48 + (n - 52) else if n = 62 then 45 else 95)"

definition url_index :: "nat \<Rightarrow> nat" where
  "url_index c = (if 65 \<le> c \<and> c \<le> 90 then c - 65 else if 97 \<le> c \<and> c \<le> 122 then c - 97 + 26
     else if 48 \<le> c \<and> c \<le> 57 then c - 48 + 52 else if c = 45 then 62 else 63)"

definition std_char :: "nat \<Rightarrow> nat" where
  "std_char n = (if n = 62 then 43 else if n = 63 then 47 else url_char n)"

definition urlsafe_b64encode :: "bytes \<Rightarrow> ustr" where
  "urlsafe_b64encode bs = (let ds = radix_digits 6 bs in
     map url_char ds @ replicate ((4 - length ds mod 4) mod 4) 61)"

definition b64encode :: "bytes \<Rightarrow> ustr" where
  "b64encode bs = (let ds = radix_digits 6 bs in
     map std_char ds @ replicate ((4 - length ds mod 4) mod 4) 61)"

definition rstrip_pad :: "ustr \<Rightarrow> ustr" where
  "rstrip_pad s = rev (dropWhile (\<lambda>c. c = 61) (rev s))"

definition url_token :: "bytes \<Rightarrow> ustr" where
  "url_token bs = rstrip_pad (urlsafe_b64encode bs)"

definition url_untoken :: "ustr \<Rightarrow> bytes" where
  "url_untoken s = radix_undigits 6 (map url_index s)"

lemma url_index_char: "n < 64 \<Longrightarrow> url_index (url_char n) = n"
  by (auto simp: url_index_def url_char_def)

definition is_url_char :: "nat \<Rightarrow> bool" where
  "is_url_char c \<longleftrightarrow> (65 \<le> c \<and> c \<le> 90) \<or> (97 \<le> c \<and> c \<le> 122) \<or> (48 \<le> c \<and> c \<le> 57) \<or> c = 45 \<or> c = 95"

lemma is_url_char_url_char: "n < 64 \<Longrightarrow> is_url_char (url_char n)"
  by (auto simp: is_url_char_def url_char_def)

lemma rstrip_pad_replicate: "61 \<notin> set s \<Longrightarrow> rstrip_pad (s @ replicate n 61) = s"
proof -
  assume "61 \<notin> set s"
  then have "dropWhile (\<lambda>c. c = 61) (rev s) = rev s"
    by (cases s rule: rev_cases) auto
  then show ?thesis
    by (simp add: rstrip_pad_def dropWhile_append1 dropWhile_append)
qed

lemma url_token_eq: "url_token bs = map url_char (radix_digits 6 bs)"
proof -
  have "61 \<notin> set (map url_char (radix_digits 6 bs))"
    using radix_digits_less [of _ 6 bs] is_url_char_url_char by (force simp: is_url_char_def)
  then show ?thesis
    by (simp add: url_token_def urlsafe_b64encode_def Let_def rstrip_pad_replicate)
qed

lemma url_token_chars: "list_all is_url_char (url_token bs)"
  using radix_digits_less [of _ 6 bs] is_url_char_url_char
  by (force simp: url_token_eq list_all_iff)

lemma isascii_url_token [simp]: "isascii (url_token bs)"
  using url_token_chars [of bs] by (auto simp: isascii_def list_all_iff is_url_char_def)

lemma length_url_token: "length (url_token bs) = (8 * length bs + 5) div 6"
  by (simp add: url_token_eq length_radix_digits)

interpretation token_codec: text_codec url_token "\<lambda>s. Some (url_untoken s)"
proof unfold_locales
  fix bs
  have "map url_index (map url_char (radix_digits 6 bs)) = radix_digits 6 bs"
    using radix_digits_less [of _ 6 bs] by (auto simp: url_index_char intro!: map_idI)
  then show "Some (url_untoken (url_token bs)) = Some bs"
    by (simp add: url_untoken_def url_token_eq radix_roundtrip)
qed

section \<open>Runtime identifiers\<close>

definition b32_char :: "nat \<Rightarrow> nat" where
  "b32_char n = (if n < 26 then 65 + n else 50 + (n - 26))"

definition ascii_lower :: "nat \<Rightarrow> nat" where
  "ascii_lower c = (if 65 \<le> c \<and> c \<le> 90 then c + 32 else c)"

definition b32encode :: "bytes \<Rightarrow> ustr" where
  "b32encode bs = (let ds = radix_digits 5 bs in
     map b32_char ds @ replicate ((8 - length ds mod 8) mod 8) 61)"

definition make_runtime_id :: "bytes \<Rightarrow> ustr" where
  "make_runtime_id value = U ''p_'' @ take 26 (map ascii_lower (rstrip_pad (b32encode value)))"

definition is_b32_lower :: "nat \<Rightarrow> bool" where
  "is_b32_lower c \<longleftrightarrow> (97 \<le> c \<and> c \<le> 122) \<or> (50 \<le> c \<and> c \<le> 55)"

text \<open>The pattern \<^verbatim>\<open>p_[a-z2-7]{26}\<close> that both runtime clients require with \<^verbatim>\<open>fullmatch\<close>.\<close>

definition runtime_id_pattern :: "ustr \<Rightarrow> bool" where
  "runtime_id_pattern s \<longleftrightarrow> length s = 28 \<and> take 2 s = U ''p_'' \<and> list_all is_b32_lower (drop 2 s)"

lemma is_b32_lower_char: "n < 32 \<Longrightarrow> is_b32_lower (ascii_lower (b32_char n))"
  by (auto simp: is_b32_lower_def ascii_lower_def b32_char_def)

lemma make_runtime_id_eq:
  "make_runtime_id v = U ''p_'' @ take 26 (map (\<lambda>n. ascii_lower (b32_char n)) (radix_digits 5 v))"
proof -
  have "61 \<notin> set (map b32_char (radix_digits 5 v))"
    using radix_digits_less [of _ 5 v] by (force simp: b32_char_def)
  then show ?thesis
    by (simp add: make_runtime_id_def b32encode_def Let_def rstrip_pad_replicate comp_def)
qed

lemma runtime_id_pattern_make: "17 \<le> length v \<Longrightarrow> runtime_id_pattern (make_runtime_id v)"
proof -
  assume "17 \<le> length v"
  then have len: "26 \<le> length (radix_digits 5 v)" by (simp add: length_radix_digits)
  have "list_all is_b32_lower (map (\<lambda>n. ascii_lower (b32_char n)) (radix_digits 5 v))"
    using radix_digits_less [of _ 5 v] is_b32_lower_char by (force simp: list_all_iff)
  then have "list_all is_b32_lower (take 26 (map (\<lambda>n. ascii_lower (b32_char n)) (radix_digits 5 v)))"
    by (meson in_set_takeD list_all_iff)
  with len show ?thesis
    by (simp add: runtime_id_pattern_def make_runtime_id_eq U_def min_def)
qed

end
