(* ===== verification/Uuid.thy ===== *)
theory Uuid
  imports Codec
begin

text \<open>
  \<^verbatim>\<open>uuid.UUID\<close> as the program uses it: the 16-byte form (\<^verbatim>\<open>UUID.bytes\<close>, \<^verbatim>\<open>UUID(bytes=...)\<close>), the
  hyphenated text form (\<^verbatim>\<open>str\<close>) that the database columns store, and the parser \<^verbatim>\<open>UUID(text)\<close> with
  the leniency of \<^verbatim>\<open>int(text, 16)\<close> that the profile routes inherit. Text and byte forms are
  interpretations of \<open>text_codec\<close>.
\<close>

section \<open>Fixed-width digits\<close>

fun nat_digits :: "nat \<Rightarrow> nat \<Rightarrow> nat \<Rightarrow> nat list" where
  "nat_digits b 0 n = []"
| "nat_digits b (Suc w) n = (n div b ^ w) mod b # nat_digits b w n"

definition digits_nat :: "nat \<Rightarrow> nat list \<Rightarrow> nat" where
  "digits_nat b ds = foldl (\<lambda>a d. a * b + d) 0 ds"

lemma length_nat_digits [simp]: "length (nat_digits b w n) = w"
  by (induction w) auto

lemma nat_digits_less: "0 < b \<Longrightarrow> d \<in> set (nat_digits b w n) \<Longrightarrow> d < b"
  by (induction w) auto

lemma foldl_digits: "foldl (\<lambda>a d. a * b + d) a ds = a * b ^ length ds + digits_nat b ds"
  for a b :: nat
proof (induction ds arbitrary: a)
  case Nil
  then show ?case by (simp add: digits_nat_def)
next
  case (Cons d ds)
  have "foldl (\<lambda>a d. a * b + d) a (d # ds) = (a * b + d) * b ^ length ds + digits_nat b ds"
    using Cons by simp
  moreover have "digits_nat b (d # ds) = d * b ^ length ds + digits_nat b ds"
    using Cons [of d] by (simp add: digits_nat_def)
  ultimately show ?case by (simp add: algebra_simps)
qed

lemma digits_nat_Cons: "digits_nat b (d # ds) = d * b ^ length ds + digits_nat b ds"
  using foldl_digits [where a = d and ds = ds] by (simp add: digits_nat_def)

lemma digits_nat_digits: "0 < b \<Longrightarrow> digits_nat b (nat_digits b w n) = n mod b ^ w"
proof (induction w)
  case 0
  then show ?case by (simp add: digits_nat_def)
next
  case (Suc w)
  have "n mod (b ^ w * b) = b ^ w * (n div b ^ w mod b) + n mod b ^ w"
    by (rule mod_mult2_eq)
  with Suc show ?case by (simp add: digits_nat_Cons algebra_simps)
qed

lemma digits_nat_less: "0 < b \<Longrightarrow> list_all (\<lambda>d. d < b) ds \<Longrightarrow> digits_nat b ds < b ^ length ds"
proof (induction ds)
  case Nil
  then show ?case by (simp add: digits_nat_def)
next
  case (Cons d ds)
  then have "d * b ^ length ds + digits_nat b ds < d * b ^ length ds + b ^ length ds" by simp
  also have "\<dots> = (d + 1) * b ^ length ds" by simp
  also have "\<dots> \<le> b * b ^ length ds" using Cons.prems by (intro mult_right_mono) auto
  finally show ?case by (simp add: digits_nat_Cons)
qed

section \<open>Bytes and text\<close>

definition uuid_bytes :: "uuid \<Rightarrow> bytes" where
  "uuid_bytes u = map word_of_nat (nat_digits 256 16 (unat u))"

definition uuid_of_bytes :: "bytes \<Rightarrow> exn + uuid" where
  "uuid_of_bytes bs = (if length bs \<noteq> 16 then Inl ValueError
     else Inr (word_of_nat (digits_nat 256 (map unat bs))))"

definition hex_char :: "nat \<Rightarrow> nat" where
  "hex_char d = (if d < 10 then 48 + d else 87 + d)"

definition bytes_hex :: "bytes \<Rightarrow> ustr" where
  "bytes_hex bs = concat (map (\<lambda>b. [hex_char (unat b div 16), hex_char (unat b mod 16)]) bs)"

definition uuid_hex :: "uuid \<Rightarrow> ustr" where
  "uuid_hex u = map hex_char (nat_digits 16 32 (unat u))"

definition uuid_str :: "uuid \<Rightarrow> ustr" where
  "uuid_str u = (let h = uuid_hex u in
     take 8 h @ [45] @ take 4 (drop 8 h) @ [45] @ take 4 (drop 12 h) @ [45]
     @ take 4 (drop 16 h) @ [45] @ drop 20 h)"

definition is_prefix :: "'a list \<Rightarrow> 'a list \<Rightarrow> bool" where
  "is_prefix p s \<longleftrightarrow> take (length p) s = p"

text \<open>\<^verbatim>\<open>s.replace(pat, "")\<close> for a non-empty pattern.\<close>

function remove_sub :: "ustr \<Rightarrow> ustr \<Rightarrow> ustr" where
  "remove_sub pat s = (case s of [] \<Rightarrow> []
     | c # cs \<Rightarrow> if pat \<noteq> [] \<and> is_prefix pat s then remove_sub pat (drop (length pat) s)
                else c # remove_sub pat cs)"
  by pat_completeness auto
termination
  by (relation "measure (\<lambda>(pat, s). length s)") auto

declare remove_sub.simps [simp del]

definition strip_chars :: "nat list \<Rightarrow> ustr \<Rightarrow> ustr" where
  "strip_chars cs s = rev (dropWhile (\<lambda>c. c \<in> set cs) (rev (dropWhile (\<lambda>c. c \<in> set cs) s)))"

definition hex_val :: "nat \<Rightarrow> nat option" where
  "hex_val c = (if 48 \<le> c \<and> c \<le> 57 then Some (c - 48) else if 97 \<le> c \<and> c \<le> 102 then Some (c - 87)
     else if 65 \<le> c \<and> c \<le> 70 then Some (c - 55) else None)"

text \<open>
  The digits of \<^verbatim>\<open>int(text, 16)\<close>: single underscores between digits, trailing white space. The flag
  says that no digit came right before.
\<close>

fun hex_body :: "nat \<Rightarrow> bool \<Rightarrow> ustr \<Rightarrow> nat option" where
  "hex_body acc gap [] = (if gap then None else Some acc)"
| "hex_body acc gap (c # cs) =
     (if c = 95 then (if gap then None else hex_body acc True cs)
      else case hex_val c of
        Some d \<Rightarrow> hex_body (acc * 16 + d) False cs
      | None \<Rightarrow> if \<not> gap \<and> list_all isspace (c # cs) then Some acc else None)"

text \<open>\<open>decimal\<close> is \<^verbatim>\<open>unicodedata.decimal\<close>: the value of a non-ASCII decimal digit.\<close>

definition to_ascii_digits :: "(nat \<Rightarrow> nat option) \<Rightarrow> ustr \<Rightarrow> ustr" where
  "to_ascii_digits decimal s = (if isascii s then s else
     map (\<lambda>c. if c < 127 then c else if isspace c then 32
              else case decimal c of Some d \<Rightarrow> 48 + d | None \<Rightarrow> 63) s)"

definition int_base16 :: "(nat \<Rightarrow> nat option) \<Rightarrow> ustr \<Rightarrow> int option" where
  "int_base16 decimal s = (let t = dropWhile isspace (to_ascii_digits decimal s);
     neg = (t \<noteq> [] \<and> hd t = 45);
     u = (if t \<noteq> [] \<and> (hd t = 43 \<or> hd t = 45) then tl t else t);
     v = (if take 2 u = [48, 120] \<or> take 2 u = [48, 88]
          then (let w = drop 2 u in if w \<noteq> [] \<and> hd w = 95 then tl w else w) else u)
     in map_option (\<lambda>n. if neg then - int n else int n) (hex_body 0 True v))"

definition uuid_parse :: "(nat \<Rightarrow> nat option) \<Rightarrow> ustr \<Rightarrow> exn + uuid" where
  "uuid_parse decimal s = (let h = filter (\<lambda>c. c \<noteq> 45) (strip_chars (U ''{}'')
       (remove_sub (U ''uuid:'') (remove_sub (U ''urn:'') s))) in
     if length h \<noteq> 32 then Inl ValueError
     else case int_base16 decimal h of
         None \<Rightarrow> Inl ValueError
       | Some n \<Rightarrow> if 0 \<le> n \<and> n < 2 ^ 128 then Inr (word_of_int n) else Inl ValueError)"

lemma unat_uuid_less: "unat u < 2 ^ 128" for u :: uuid
  using unsigned_less [of u] by simp

interpretation uuid_bytes_codec: text_codec uuid_bytes
  "\<lambda>bs. case uuid_of_bytes bs of Inl _ \<Rightarrow> None | Inr u \<Rightarrow> Some u"
proof unfold_locales
  fix u :: uuid
  have "unat (word_of_nat d :: byte) = d" if "d < 256" for d
    using that by (simp add: unat_of_nat)
  then have "map unat (uuid_bytes u) = nat_digits 256 16 (unat u)"
    unfolding uuid_bytes_def by (auto intro!: map_idI dest: nat_digits_less [rotated])
  then have "digits_nat 256 (map unat (uuid_bytes u)) = unat u mod 256 ^ 16"
    by (simp add: digits_nat_digits)
  also have "\<dots> = unat u" using unat_uuid_less [of u] by simp
  finally have "uuid_of_bytes (uuid_bytes u) = Inr u"
    by (simp add: uuid_of_bytes_def uuid_bytes_def)
  then show "(case uuid_of_bytes (uuid_bytes u) of Inl _ \<Rightarrow> None | Inr u \<Rightarrow> Some u) = Some u"
    by simp
qed

lemma uuid_of_bytes_bytes [simp]: "uuid_of_bytes (uuid_bytes u) = Inr u"
  using uuid_bytes_codec.dec_enc [of u] by (simp split: sum.splits)

lemma length_uuid_bytes [simp]: "length (uuid_bytes u) = 16"
  by (simp add: uuid_bytes_def)

lemma uuid_of_bytes_error: "uuid_of_bytes bs = Inl e \<longleftrightarrow> length bs \<noteq> 16 \<and> e = ValueError"
  by (auto simp: uuid_of_bytes_def)

section \<open>Parsing recovers the text form\<close>

lemma remove_sub_id: "c \<in> set pat \<Longrightarrow> c \<notin> set s \<Longrightarrow> remove_sub pat s = s"
proof (induction s)
  case Nil
  then show ?case by (simp add: remove_sub.simps)
next
  case (Cons x xs)
  have "\<not> is_prefix pat (x # xs)"
    using Cons.prems unfolding is_prefix_def by (metis in_set_takeD)
  with Cons show ?case by (simp add: remove_sub.simps [of pat "x # xs"])
qed

lemma strip_chars_id: "set cs \<inter> set s = {} \<Longrightarrow> strip_chars cs s = s"
proof -
  assume d: "set cs \<inter> set s = {}"
  have "dropWhile (\<lambda>c. c \<in> set cs) t = t" if "set t = set s" for t
    using d that by (metis disjoint_iff dropWhile_eq_self_iff hd_in_set)
  then show ?thesis by (simp add: strip_chars_def)
qed

lemma hex_char_range: "d < 16 \<Longrightarrow> (48 \<le> hex_char d \<and> hex_char d \<le> 57) \<or> (97 \<le> hex_char d \<and> hex_char d \<le> 102)"
  by (auto simp: hex_char_def)

lemma hex_val_char: "d < 16 \<Longrightarrow> hex_val (hex_char d) = Some d"
  by (auto simp: hex_val_def hex_char_def)

lemma hex_body_digits:
  "list_all (\<lambda>d. d < 16) ds \<Longrightarrow> ds \<noteq> [] \<or> \<not> gap \<Longrightarrow>
   hex_body acc gap (map hex_char ds) = Some (foldl (\<lambda>a d. a * 16 + d) acc ds)"
proof (induction ds arbitrary: acc gap)
  case Nil
  then show ?case by simp
next
  case (Cons d ds)
  then have "hex_char d \<noteq> 95" using hex_char_range [of d] by auto
  with Cons show ?case by (simp add: hex_val_char)
qed

lemma int_base16_digits:
  assumes "list_all (\<lambda>d. d < 16) ds" and "ds \<noteq> []"
  shows "int_base16 decimal (map hex_char ds) = Some (int (digits_nat 16 ds))"
proof -
  let ?s = "map hex_char ds"
  have rng: "\<forall>c \<in> set ?s. (48 \<le> c \<and> c \<le> 57) \<or> (97 \<le> c \<and> c \<le> 102)"
    using assms(1) hex_char_range by (auto simp: list_all_iff)
  then have asc: "to_ascii_digits decimal ?s = ?s"
    by (force simp: to_ascii_digits_def isascii_def list_all_iff)
  obtain c cs where s: "?s = c # cs" using assms(2) by (cases ds) auto
  with rng have c: "(48 \<le> c \<and> c \<le> 57) \<or> (97 \<le> c \<and> c \<le> 102)" by simp
  then have ws: "dropWhile isspace ?s = ?s" by (auto simp: s isspace_def)
  have pre: "\<not> (take 2 ?s = [48, 120] \<or> take 2 ?s = [48, 88])"
  proof
    assume "take 2 ?s = [48, 120] \<or> take 2 ?s = [48, 88]"
    then have "120 \<in> set (take 2 ?s) \<or> 88 \<in> set (take 2 ?s)"
      by (metis list.set_intros(1) list.set_intros(2))
    then have "120 \<in> set ?s \<or> 88 \<in> set ?s" by (metis in_set_takeD)
    then show False using bspec [OF rng, of 120] bspec [OF rng, of 88] by linarith
  qed
  have body: "hex_body 0 True ?s = Some (digits_nat 16 ds)"
    using hex_body_digits [of ds True 0] assms by (simp add: digits_nat_def)
  have sign: "hd ?s \<noteq> 43" "hd ?s \<noteq> 45" unfolding s using c by auto
  show ?thesis
    unfolding int_base16_def Let_def asc ws by (simp only: sign pre body simp_thms if_False option.map)
qed

lemma uuid_str_set: "c \<in> set (uuid_str u) \<Longrightarrow> c = 45 \<or> (48 \<le> c \<and> c \<le> 57) \<or> (97 \<le> c \<and> c \<le> 102)"
proof -
  assume "c \<in> set (uuid_str u)"
  then have "c = 45 \<or> c \<in> set (uuid_hex u)"
    unfolding uuid_str_def Let_def by (auto dest: in_set_takeD in_set_dropD)
  then show ?thesis
    using nat_digits_less [of 16 _ 32 "unat u"] hex_char_range by (fastforce simp: uuid_hex_def)
qed

lemma length_uuid_hex [simp]: "length (uuid_hex u) = 32"
  by (simp add: uuid_hex_def)

lemma length_uuid_str [simp]: "length (uuid_str u) = 36"
  by (simp add: uuid_str_def Let_def)

lemma filter_uuid_str: "filter (\<lambda>c. c \<noteq> 45) (uuid_str u) = uuid_hex u"
proof -
  have no: "45 \<notin> set (uuid_hex u)"
    using nat_digits_less [of 16 _ 32 "unat u"] hex_char_range by (fastforce simp: uuid_hex_def)
  have keep: "filter (\<lambda>c. c \<noteq> 45) ys = ys" if "set ys \<subseteq> set (uuid_hex u)" for ys
    using that no by (auto simp: filter_id_conv)
  have sub: "set (take n (drop m (uuid_hex u))) \<subseteq> set (uuid_hex u)" for n m
    by (meson order.trans set_drop_subset set_take_subset)
  have "filter (\<lambda>c. c \<noteq> 45) (uuid_str u)
      = take 8 (uuid_hex u) @ take 4 (drop 8 (uuid_hex u)) @ take 4 (drop 12 (uuid_hex u))
        @ take 4 (drop 16 (uuid_hex u)) @ drop 20 (uuid_hex u)"
    using keep [OF sub [of 8 0]] keep [OF sub [of 4 8]] keep [OF sub [of 4 12]]
      keep [OF sub [of 4 16]] keep [OF set_drop_subset [of 20]]
    by (simp add: uuid_str_def Let_def)
  also have "\<dots> = uuid_hex u"
  proof -
    have "take 4 (drop n (uuid_hex u)) @ drop (n + 4) (uuid_hex u) = drop n (uuid_hex u)" for n
      by (metis add.commute append_take_drop_id drop_drop)
    from this [of 16] this [of 12] this [of 8] append_take_drop_id [of 8 "uuid_hex u"]
    show ?thesis by simp
  qed
  finally show ?thesis .
qed

lemma uuid_parse_str [simp]: "uuid_parse decimal (uuid_str u) = Inr u"
proof -
  have "58 \<notin> set (uuid_str u)" "set (U ''{}'') \<inter> set (uuid_str u) = {}"
    using uuid_str_set by (fastforce simp: U_def)+
  then have "filter (\<lambda>c. c \<noteq> 45) (strip_chars (U ''{}'')
      (remove_sub (U ''uuid:'') (remove_sub (U ''urn:'') (uuid_str u)))) = uuid_hex u"
    by (simp add: remove_sub_id [where c = 58] strip_chars_id filter_uuid_str U_def)
  moreover have "int_base16 decimal (uuid_hex u) = Some (int (unat u))"
    using int_base16_digits [of "nat_digits 16 32 (unat u)"] unat_uuid_less [of u]
      nat_digits_less [of 16 _ 32 "unat u"]
    by (simp add: uuid_hex_def list_all_iff digits_nat_digits
        flip: length_0_conv)
  moreover have "uint u < 2 ^ 128" using unsigned_less [of u] by simp
  ultimately show ?thesis by (simp add: uuid_parse_def Let_def)
qed

interpretation uuid_text_codec: text_codec uuid_str
  "\<lambda>s. case uuid_parse (\<lambda>_. None) s of Inl _ \<Rightarrow> None | Inr u \<Rightarrow> Some u"
  by unfold_locales simp

lemmas uuid_str_eq_iff [simp] = uuid_text_codec.enc_eq_iff

lemma isascii_uuid_str [simp]: "isascii (uuid_str u)"
  using uuid_str_set [of _ u] by (fastforce simp: isascii_def list_all_iff)

end
