(* ===== verification/Url_Text.thy ===== *)
theory Url_Text
  imports Codec
begin

text \<open>
  The parts of \<^verbatim>\<open>urllib.parse\<close> and of text encoding that the share links are built with: strict
  ASCII and UTF-8 encoding, \<^verbatim>\<open>quote(.., safe='')\<close>, \<^verbatim>\<open>quote_plus\<close>, \<^verbatim>\<open>urlencode\<close>, decimal numbers and
  dotted IPv4 addresses. Percent-encoding is an interpretation of \<open>text_codec\<close>, and its output
  contains no reserved URL character.
\<close>

section \<open>ASCII and UTF-8\<close>

definition encode_ascii :: "ustr \<Rightarrow> exn + bytes" where
  "encode_ascii s = (if isascii s then Inr (map word_of_nat s) else Inl UnicodeError)"

definition decode_ascii :: "bytes \<Rightarrow> exn + ustr" where
  "decode_ascii bs = (if list_all (\<lambda>b. unat b < 128) bs then Inr (map unat bs) else Inl UnicodeError)"

text \<open>The bytes of text that is already known to be ASCII.\<close>

definition ascii_bytes :: "ustr \<Rightarrow> bytes" where
  "ascii_bytes s = map word_of_nat s"

definition utf8_char :: "nat \<Rightarrow> bytes option" where
  "utf8_char c = (if c < 128 then Some [word_of_nat c]
     else if c < 2048 then Some [word_of_nat (192 + c div 64), word_of_nat (128 + c mod 64)]
     else if 55296 \<le> c \<and> c \<le> 57343 then None
     else if c < 65536 then Some [word_of_nat (224 + c div 4096),
       word_of_nat (128 + c div 64 mod 64), word_of_nat (128 + c mod 64)]
     else if c < 1114112 then Some [word_of_nat (240 + c div 262144),
       word_of_nat (128 + c div 4096 mod 64), word_of_nat (128 + c div 64 mod 64),
       word_of_nat (128 + c mod 64)]
     else None)"

fun utf8_encode :: "ustr \<Rightarrow> exn + bytes" where
  "utf8_encode [] = Inr []"
| "utf8_encode (c # cs) = (case utf8_char c of
     None \<Rightarrow> Inl UnicodeError
   | Some bs \<Rightarrow> bind_sum (utf8_encode cs) (\<lambda>rest. Inr (bs @ rest)))"

lemma encode_ascii_ok: "isascii s \<Longrightarrow> encode_ascii s = Inr (ascii_bytes s)"
  by (simp add: encode_ascii_def ascii_bytes_def)

lemma unat_byte_of_nat: "n < 256 \<Longrightarrow> unat (word_of_nat n :: byte) = n"
  by (simp add: unat_of_nat)

lemma decode_ascii_bytes: "isascii s \<Longrightarrow> decode_ascii (ascii_bytes s) = Inr s"
  by (auto simp: decode_ascii_def ascii_bytes_def isascii_def list_all_iff unat_byte_of_nat
      intro!: map_idI)

lemma ascii_bytes_inject: "isascii s \<Longrightarrow> isascii t \<Longrightarrow> ascii_bytes s = ascii_bytes t \<longleftrightarrow> s = t"
  by (metis decode_ascii_bytes sum.inject(2))

lemma length_ascii_bytes [simp]: "length (ascii_bytes s) = length s"
  by (simp add: ascii_bytes_def)

lemma utf8_encode_ascii: "isascii s \<Longrightarrow> utf8_encode s = Inr (ascii_bytes s)"
  by (induction s) (auto simp: utf8_char_def ascii_bytes_def)

text \<open>UTF-8 fails exactly on surrogates and on numbers that are no code point.\<close>

definition encodable :: "nat \<Rightarrow> bool" where
  "encodable c \<longleftrightarrow> c < 1114112 \<and> \<not> (55296 \<le> c \<and> c \<le> 57343)"

lemma utf8_char_None: "utf8_char c = None \<longleftrightarrow> \<not> encodable c"
  by (auto simp: utf8_char_def encodable_def)

lemma utf8_encode_ok: "(\<exists>bs. utf8_encode s = Inr bs) \<longleftrightarrow> list_all encodable s"
proof (induction s)
  case Nil
  then show ?case by simp
next
  case (Cons c s)
  show ?case
  proof (cases "utf8_char c")
    case None
    then have "\<not> encodable c" using utf8_char_None [of c] by blast
    with None show ?thesis by simp
  next
    case (Some bs)
    then have "encodable c" using utf8_char_None by force
    with Cons Some show ?thesis by (auto simp: bind_sum_eq_Inr)
  qed
qed

section \<open>Percent-encoding\<close>

definition unreserved :: "nat \<Rightarrow> bool" where
  "unreserved c \<longleftrightarrow> (65 \<le> c \<and> c \<le> 90) \<or> (97 \<le> c \<and> c \<le> 122) \<or> (48 \<le> c \<and> c \<le> 57)
     \<or> c = 95 \<or> c = 46 \<or> c = 45 \<or> c = 126"

definition upper_hex :: "nat \<Rightarrow> nat" where
  "upper_hex d = (if d < 10 then 48 + d else 55 + d)"

definition quote_byte :: "byte \<Rightarrow> ustr" where
  "quote_byte b = (let c = unat b in
     if unreserved c then [c] else [37, upper_hex (c div 16), upper_hex (c mod 16)])"

definition quote_bytes :: "bytes \<Rightarrow> ustr" where
  "quote_bytes bs = concat (map quote_byte bs)"

definition quote :: "ustr \<Rightarrow> exn + ustr" where
  "quote s = bind_sum (utf8_encode s) (\<lambda>bs. Inr (quote_bytes bs))"

definition quote_plus :: "ustr \<Rightarrow> exn + ustr" where
  "quote_plus s = bind_sum (utf8_encode s)
     (\<lambda>bs. Inr (concat (map (\<lambda>b. if unat b = 32 then [43] else quote_byte b) bs)))"

fun join_with :: "ustr \<Rightarrow> ustr list \<Rightarrow> ustr" where
  "join_with sep [] = []"
| "join_with sep [x] = x"
| "join_with sep (x # y # ys) = x @ sep @ join_with sep (y # ys)"

fun quote_pairs :: "(ustr \<times> ustr) list \<Rightarrow> exn + ustr list" where
  "quote_pairs [] = Inr []"
| "quote_pairs ((k, v) # ps) = bind_sum (quote_plus k) (\<lambda>qk. bind_sum (quote_plus v)
     (\<lambda>qv. bind_sum (quote_pairs ps) (\<lambda>rest. Inr ((qk @ U ''='' @ qv) # rest))))"

definition urlencode :: "(ustr \<times> ustr) list \<Rightarrow> exn + ustr" where
  "urlencode ps = bind_sum (quote_pairs ps) (\<lambda>qs. Inr (join_with (U ''&'') qs))"

definition hex_digit_val :: "nat \<Rightarrow> nat option" where
  "hex_digit_val c = (if 48 \<le> c \<and> c \<le> 57 then Some (c - 48)
     else if 65 \<le> c \<and> c \<le> 70 then Some (c - 55) else None)"

fun unquote_bytes :: "ustr \<Rightarrow> bytes option" where
  "unquote_bytes [] = Some []"
| "unquote_bytes (c # cs) = (if c = 37 then (case cs of
       h # l # rest \<Rightarrow> (case (hex_digit_val h, hex_digit_val l) of
           (Some x, Some y) \<Rightarrow> map_option ((#) (word_of_nat (16 * x + y))) (unquote_bytes rest)
         | _ \<Rightarrow> None)
     | _ \<Rightarrow> None)
   else map_option ((#) (word_of_nat c)) (unquote_bytes cs))"

lemma unreserved_not_percent: "unreserved c \<Longrightarrow> c \<noteq> 37"
  by (auto simp: unreserved_def)

lemma hex_digit_val_upper: "d < 16 \<Longrightarrow> hex_digit_val (upper_hex d) = Some d"
  by (auto simp: hex_digit_val_def upper_hex_def)

lemma unat_byte_less: "unat b < 256" for b :: byte
  using unsigned_less [of b] by simp

lemma unquote_quote_byte:
  "unquote_bytes (quote_byte b @ rest) = map_option ((#) b) (unquote_bytes rest)"
proof (cases "unreserved (unat b)")
  case True
  then show ?thesis using unreserved_not_percent by (simp add: quote_byte_def Let_def)
next
  case False
  have "unat b div 16 < 16" using unat_byte_less [of b] by simp
  then have "hex_digit_val (upper_hex (unat b div 16)) = Some (unat b div 16)"
    by (rule hex_digit_val_upper)
  moreover have "hex_digit_val (upper_hex (unat b mod 16)) = Some (unat b mod 16)"
    by (rule hex_digit_val_upper) simp
  ultimately show ?thesis using False
    by (simp add: quote_byte_def Let_def mult.commute flip: of_nat_mult of_nat_add del: of_nat_mult of_nat_add)
qed

interpretation percent_codec: text_codec quote_bytes unquote_bytes
proof unfold_locales
  fix bs show "unquote_bytes (quote_bytes bs) = Some bs"
    by (induction bs) (auto simp: quote_bytes_def unquote_quote_byte)
qed

text \<open>What percent-encoding may emit: unreserved characters and \<open>%\<close>.\<close>

definition quoted_char :: "nat \<Rightarrow> bool" where
  "quoted_char c \<longleftrightarrow> unreserved c \<or> c = 37"

lemma upper_hex_unreserved: "d < 16 \<Longrightarrow> unreserved (upper_hex d)"
  by (auto simp: unreserved_def upper_hex_def)

lemma quote_byte_chars: "list_all quoted_char (quote_byte b)"
  using unat_byte_less [of b] upper_hex_unreserved [of "unat b div 16"] upper_hex_unreserved [of "unat b mod 16"]
  by (auto simp: quote_byte_def quoted_char_def Let_def)

lemma quote_bytes_chars: "list_all quoted_char (quote_bytes bs)"
  using quote_byte_chars by (auto simp: quote_bytes_def list_all_iff)

lemma quote_ok: "quote s = Inr q \<Longrightarrow> list_all quoted_char q"
  by (auto simp: quote_def bind_sum_eq_Inr quote_bytes_chars)

lemma quote_plus_ok: "quote_plus s = Inr q \<Longrightarrow> list_all (\<lambda>c. quoted_char c \<or> c = 43) q"
  using quote_byte_chars by (fastforce simp: quote_plus_def bind_sum_eq_Inr list_all_iff split: if_splits)

lemma quote_unreserved: "list_all unreserved s \<Longrightarrow> quote s = Inr s"
proof -
  assume u: "list_all unreserved s"
  then have "isascii s" by (auto simp: isascii_def list_all_iff unreserved_def)
  moreover have "quote_bytes (ascii_bytes s) = s"
    using u by (induction s)
      (auto simp: quote_bytes_def ascii_bytes_def quote_byte_def Let_def unat_byte_of_nat unreserved_def)
  ultimately show ?thesis by (simp add: quote_def utf8_encode_ascii)
qed

lemma is_url_char_unreserved: "is_url_char c \<Longrightarrow> unreserved c"
  by (auto simp: is_url_char_def unreserved_def)

lemma quote_url_token: "quote (url_token bs) = Inr (url_token bs)"
  using url_token_chars [of bs] is_url_char_unreserved
  by (intro quote_unreserved) (auto simp: list_all_iff)

section \<open>Splitting\<close>

definition break_at :: "nat \<Rightarrow> ustr \<Rightarrow> ustr \<times> ustr" where
  "break_at c s = (takeWhile (\<lambda>x. x \<noteq> c) s, drop 1 (dropWhile (\<lambda>x. x \<noteq> c) s))"

fun split_on :: "nat \<Rightarrow> ustr \<Rightarrow> ustr list" where
  "split_on c [] = [[]]"
| "split_on c (x # xs) = (if x = c then [] # split_on c xs
     else (case split_on c xs of [] \<Rightarrow> [[x]] | y # ys \<Rightarrow> (x # y) # ys))"

lemma break_at_append: "c \<notin> set x \<Longrightarrow> break_at c (x @ c # y) = (x, y)"
  by (induction x) (auto simp: break_at_def)

lemma split_on_id: "c \<notin> set s \<Longrightarrow> split_on c s = [s]"
  by (induction s) auto

lemma split_on_append: "c \<notin> set x \<Longrightarrow> split_on c (x @ c # y) = x # split_on c y"
  by (induction x) (auto split: list.splits)

lemma split_on_join: "xs \<noteq> [] \<Longrightarrow> \<forall>x \<in> set xs. c \<notin> set x \<Longrightarrow> split_on c (join_with [c] xs) = xs"
  by (induction "[c]" xs rule: join_with.induct) (auto simp: split_on_id split_on_append)

section \<open>Numbers and addresses\<close>

fun dec_str :: "nat \<Rightarrow> ustr" where
  "dec_str n = (if n < 10 then [48 + n] else dec_str (n div 10) @ [48 + n mod 10])"

declare dec_str.simps [simp del]

type_synonym ipv4 = "32 word"

definition ipv4_str :: "ipv4 \<Rightarrow> ustr" where
  "ipv4_str a = (let n = unat a in
     dec_str (n div 16777216) @ U ''.'' @ dec_str (n div 65536 mod 256) @ U ''.''
     @ dec_str (n div 256 mod 256) @ U ''.'' @ dec_str (n mod 256))"

definition int_str :: "int \<Rightarrow> ustr" where
  "int_str n = (if n < 0 then U ''-'' @ dec_str (nat (- n)) else dec_str (nat n))"

lemma dec_str_chars: "list_all (\<lambda>c. 48 \<le> c \<and> c \<le> 57) (dec_str n)"
proof (induction n rule: dec_str.induct)
  case (1 n)
  then show ?case by (cases "n < 10") (auto simp: dec_str.simps [of n])
qed

lemma dec_str_unreserved: "list_all unreserved (dec_str n)"
  using dec_str_chars [of n] by (auto simp: list_all_iff unreserved_def)

lemma ipv4_str_unreserved: "list_all unreserved (ipv4_str a)"
  using dec_str_unreserved by (simp add: ipv4_str_def Let_def U_def unreserved_def)

end
