(* ===== verification/Platform.thy ===== *)
theory Platform
  imports Schema Uuid Url_Text
begin

text \<open>
  What the control plane runs on. \<open>'w platform\<close> collects, as parameters, the code that is not part of
  the repository: the clock and the random sources, SQLite's failures, the cryptographic primitives
  (HMAC-SHA256, PyNaCl's AEAD, Argon2), the Unicode database, the shortest decimal form of a float, the
  depth of nesting the interpreter's stack allows, and the remote services (Xray over
  gRPC, Hysteria2 and the supervisor over HTTP). Stateful services act on an abstract outside world
  of type \<open>'w\<close>. The state of the program, \<open>'w sys\<close>, is the database, the published runtime health
  and that world.

  \<open>session_scope\<close> models \<^verbatim>\<open>control/src/ezopenpn/db.py\<close>: a block that commits when it returns and
  rolls the database back when it raises. A storage failure can strike when the transaction begins
  and again when it commits.
\<close>

section \<open>Requests to the remote services\<close>

datatype status_code =
    CANCELLED | UNKNOWN | INVALID_ARGUMENT | DEADLINE_EXCEEDED | NOT_FOUND | ALREADY_EXISTS
  | PERMISSION_DENIED | RESOURCE_EXHAUSTED | FAILED_PRECONDITION | ABORTED | OUT_OF_RANGE
  | UNIMPLEMENTED | INTERNAL | UNAVAILABLE | DATA_LOSS | UNAUTHENTICATED

record vless_account =
  account_id :: ustr
  account_flow :: ustr
  account_encryption :: ustr

record xray_user =
  user_level :: int
  user_email :: ustr
  user_account :: vless_account

datatype xray_operation = AddUserOperation xray_user | RemoveUserOperation ustr

record alter_inbound_request =
  request_tag :: ustr
  request_operation :: xray_operation

text \<open>A raised \<^verbatim>\<open>httpx.HTTPError\<close>, another exception, or a response with its status.\<close>

datatype http_reply = HttpError | HttpRaises exn | HttpStatus int

text \<open>
  What \<^verbatim>\<open>argon2\<close> answers: a match, \<^verbatim>\<open>VerificationError\<close> or \<^verbatim>\<open>InvalidHashError\<close>, a false result, or
  another exception (a password that has no UTF-8 encoding).
\<close>

datatype argon2_reply = Argon2Match | Argon2Error | Argon2False | Argon2Raises exn

record 'w platform =
  hmac_sha256 :: "bytes \<Rightarrow> bytes \<Rightarrow> bytes"
  aead_encrypt :: "bytes \<Rightarrow> bytes \<Rightarrow> bytes \<Rightarrow> bytes \<Rightarrow> bytes"
  aead_decrypt :: "bytes \<Rightarrow> bytes \<Rightarrow> bytes \<Rightarrow> bytes option"
  ucd_category :: "nat \<Rightarrow> ustr"
  ucd_decimal :: "nat \<Rightarrow> nat option"
  ucd_isalnum :: "nat \<Rightarrow> bool"
  ucd_nfkc :: "ustr \<Rightarrow> ustr"
  ucd_casefold :: "ustr \<Rightarrow> ustr"
  float_repr :: "ustr \<Rightarrow> ustr"
  recursion_budget :: nat
  argon2_hash :: "ustr \<Rightarrow> 'w \<Rightarrow> (exn + ustr) \<times> 'w"
  argon2_verify :: "ustr \<Rightarrow> ustr \<Rightarrow> argon2_reply"
  argon2_needs_rehash :: "ustr \<Rightarrow> bool"
  clock_now :: "'w \<Rightarrow> int \<times> 'w"
  sql_current_timestamp :: "'w \<Rightarrow> int \<times> 'w"
  sql_fault :: "'w \<Rightarrow> bool \<times> 'w"
  os_uuid4 :: "'w \<Rightarrow> uuid \<times> 'w"
  os_random :: "nat \<Rightarrow> 'w \<Rightarrow> bytes \<times> 'w"
  mono_clock :: "'w \<Rightarrow> int \<times> 'w"
  os_sleep :: "int \<Rightarrow> 'w \<Rightarrow> 'w"
  xray_alter :: "alter_inbound_request \<Rightarrow> int \<Rightarrow> 'w \<Rightarrow> status_code option \<times> 'w"
  xray_users :: "ustr \<Rightarrow> int \<Rightarrow> 'w \<Rightarrow> (status_code + ustr list) \<times> 'w"
  xray_count :: "ustr \<Rightarrow> int \<Rightarrow> 'w \<Rightarrow> status_code option \<times> 'w"
  hysteria_post :: "ustr \<Rightarrow> ustr list \<Rightarrow> 'w \<Rightarrow> http_reply \<times> 'w"
  supervisor_post :: "ustr \<Rightarrow> 'w \<Rightarrow> http_reply \<times> 'w"
  dns_addresses :: "ustr \<Rightarrow> 'w \<Rightarrow> ustr list option \<times> 'w"

section \<open>State\<close>

record health_snapshot =
  health_ready :: bool
  health_error_code :: "ustr option"

record 'w sys =
  sys_db :: database
  sys_health :: health_snapshot
  sys_world :: 'w

type_synonym ('w, 'a) op = "('w sys, 'a) prog"

text \<open>A call to the outside world.\<close>

definition world_call :: "('w \<Rightarrow> 'a \<times> 'w) \<Rightarrow> ('w, 'a) op" where
  "world_call f s = (let (a, w) = f (sys_world s) in (Ok a, s\<lparr>sys_world := w\<rparr>))"

text \<open>\<^verbatim>\<open>_utc(self._clock())\<close> with the clock that the program installs, \<^verbatim>\<open>datetime.now(UTC)\<close>.\<close>

definition now_utc :: "'w platform \<Rightarrow> ('w, int) op" where
  "now_utc P = bindP (world_call (clock_now P)) (\<lambda>t. lift_result (utc_instant (Aware t 0)))"

definition get_db :: "('w, database) op" where
  "get_db = gets sys_db"

definition put_db :: "database \<Rightarrow> ('w, unit) op" where
  "put_db db = modify (\<lambda>s. s\<lparr>sys_db := db\<rparr>)"

definition db_statement :: "(database \<Rightarrow> exn + database) \<Rightarrow> ('w, unit) op" where
  "db_statement f = bindP get_db (\<lambda>db. bindP (lift_result (f db)) put_db)"

definition db_update :: "(database \<Rightarrow> database) \<Rightarrow> ('w, unit) op" where
  "db_update f = modify (\<lambda>s. s\<lparr>sys_db := f (sys_db s)\<rparr>)"

section \<open>Transactions\<close>

definition storage_check :: "'w platform \<Rightarrow> ('w, unit) op" where
  "storage_check P = bindP (world_call (sql_fault P)) (\<lambda>f. if f then raise OperationalError else ret ())"

definition rollback_to :: "database \<Rightarrow> exn \<Rightarrow> ('w, 'a) op" where
  "rollback_to db e = bindP (put_db db) (\<lambda>_. raise e)"

definition session_scope :: "'w platform \<Rightarrow> ('w, 'a) op \<Rightarrow> ('w, 'a) op" where
  "session_scope P body = bindP get_db (\<lambda>db.
     catch (bindP (storage_check P) (\<lambda>_. bindP body (\<lambda>a. bindP (storage_check P) (\<lambda>_. ret a))))
       (rollback_to db))"

definition one_or_none :: "'r list \<Rightarrow> ('w, 'r option) op" where
  "one_or_none rows = (case rows of [] \<Rightarrow> ret None | [r] \<Rightarrow> ret (Some r) | _ \<Rightarrow> raise MultipleResultsFound)"

lemmas scope_defs = world_call_def now_utc_def get_db_def put_db_def db_statement_def db_update_def
  storage_check_def rollback_to_def session_scope_def

lemma one_or_none_run [prog_simps]:
  "one_or_none [] s = (Ok None, s)" "one_or_none [r] s = (Ok (Some r), s)"
  by (simp_all add: one_or_none_def prog_simps)

lemma get_db_run [prog_simps]: "get_db s = (Ok (sys_db s), s)"
  and put_db_run [prog_simps]: "put_db db s = (Ok (), s\<lparr>sys_db := db\<rparr>)"
  and db_update_run [prog_simps]: "db_update f s = (Ok (), s\<lparr>sys_db := f (sys_db s)\<rparr>)"
  by (simp_all add: scope_defs prog_simps)

lemma db_statement_run [prog_simps]:
  "f (sys_db s) = Inr db \<Longrightarrow> db_statement f s = (Ok (), s\<lparr>sys_db := db\<rparr>)"
  "f (sys_db s) = Inl e \<Longrightarrow> db_statement f s = (Raise e, s)"
  by (simp_all add: db_statement_def prog_simps)

lemma world_call_run [prog_simps]:
  "f (sys_world s) = (a, w) \<Longrightarrow> world_call f s = (Ok a, s\<lparr>sys_world := w\<rparr>)"
  by (simp add: world_call_def)

text \<open>
  The three ways a transaction ends: it commits the block's database, it raises and leaves the
  database as it found it, or the block did not return.
\<close>

lemma world_call_shape: "\<exists>a w. world_call f s = (Ok a, s\<lparr>sys_world := w\<rparr>)"
  by (cases "f (sys_world s)") (auto simp: world_call_def)

lemma now_utc_run: "\<exists>t w. now_utc P s = (Ok t, s\<lparr>sys_world := w\<rparr>)"
  by (cases "clock_now P (sys_world s)") (auto simp: now_utc_def world_call_def prog_defs)

lemma rollback_to_run [prog_simps]: "rollback_to db e s = (Raise e, s\<lparr>sys_db := db\<rparr>)"
  by (simp add: rollback_to_def prog_simps)

lemma storage_check_cases:
  obtains w where "storage_check P s = (Ok (), s\<lparr>sys_world := w\<rparr>)"
  | w where "storage_check P s = (Raise OperationalError, s\<lparr>sys_world := w\<rparr>)"
proof -
  obtain f w where fw: "sql_fault P (sys_world s) = (f, w)" by fastforce
  show ?thesis
    using that fw by (cases f) (auto simp: storage_check_def world_call_def prog_defs)
qed

lemma session_scope_OkE:
  assumes "session_scope P body s = (Ok a, t)"
  obtains w0 s1 w where "body (s\<lparr>sys_world := w0\<rparr>) = (Ok a, s1)" and "t = s1\<lparr>sys_world := w\<rparr>"
proof -
  from assms have run: "bindP (storage_check P) (\<lambda>_. bindP body (\<lambda>a. bindP (storage_check P) (\<lambda>_. ret a))) s
      = (Ok a, t)"
    unfolding session_scope_def by (auto simp: prog_simps elim!: bindP_OkE catch_OkE)
  obtain s0 where 0: "storage_check P s = (Ok (), s0)"
    and rest: "bindP body (\<lambda>a. bindP (storage_check P) (\<lambda>_. ret a)) s0 = (Ok a, t)"
    using run by (auto elim: bindP_OkE)
  obtain b s1 where b: "body s0 = (Ok b, s1)" and c: "bindP (storage_check P) (\<lambda>_. ret b) s1 = (Ok a, t)"
    using rest by (auto elim: bindP_OkE)
  obtain w0 where s0: "s0 = s\<lparr>sys_world := w0\<rparr>"
    using 0 by (rule_tac storage_check_cases [of P s]) auto
  have "b = a \<and> (\<exists>w. t = s1\<lparr>sys_world := w\<rparr>)"
    using c by (rule_tac storage_check_cases [of P s1]) (auto simp: prog_simps)
  with b s0 show ?thesis using that by blast
qed

lemma session_scope_Raise_db:
  assumes "session_scope P body s = (Raise e, t)"
  shows "sys_db t = sys_db s"
  using assms unfolding session_scope_def by (auto simp: prog_simps elim!: bindP_RaiseE catch_RaiseE)

text \<open>A platform whose storage never fails.\<close>

definition storage_ok :: "'w platform \<Rightarrow> bool" where
  "storage_ok P \<longleftrightarrow> (\<forall>w. \<not> fst (sql_fault P w))"

lemma storage_check_ok:
  assumes "storage_ok P"
  shows "\<exists>w. storage_check P s = (Ok (), s\<lparr>sys_world := w\<rparr>)"
proof -
  obtain f w where "sql_fault P (sys_world s) = (f, w)" by fastforce
  moreover from this assms have "\<not> f" unfolding storage_ok_def by (metis fst_conv)
  ultimately show ?thesis by (auto simp: storage_check_def world_call_def prog_defs)
qed

definition on_db :: "(database \<Rightarrow> bool) \<Rightarrow> 'w sys \<Rightarrow> bool" where
  "on_db I s \<longleftrightarrow> I (sys_db s)"

section \<open>Transactions refine functions on the database\<close>

text \<open>
  \<open>implements P I m F\<close>: started in a state whose database satisfies \<open>I\<close>, the operation \<open>m\<close> either ends as \<open>F\<close>
  allows (outcome and database), or raises a storage error and leaves the database alone; the
  second case is impossible when the storage does not fail. Only the database and the world change.
\<close>

definition implements ::
  "'w platform \<Rightarrow> (database \<Rightarrow> bool) \<Rightarrow> ('w, 'a) op \<Rightarrow> (database \<Rightarrow> ('a outcome \<times> database) set) \<Rightarrow> bool" where
  "implements P I m F \<longleftrightarrow> (\<forall>s r t. I (sys_db s) \<longrightarrow> m s = (r, t) \<longrightarrow> sys_health t = sys_health s \<and>
     ((r, sys_db t) \<in> F (sys_db s) \<or>
      \<not> storage_ok P \<and> r = Raise OperationalError \<and> sys_db t = sys_db s))"

lemma implementsD:
  assumes "implements P I m F" and "I (sys_db s)" and "m s = (r, t)"
  shows "sys_health t = sys_health s"
    and "(r, sys_db t) \<in> F (sys_db s) \<or> \<not> storage_ok P \<and> r = Raise OperationalError \<and> sys_db t = sys_db s"
  using assms by (auto simp: implements_def)

lemma implementsD_ok:
  "implements P I m F \<Longrightarrow> storage_ok P \<Longrightarrow> I (sys_db s) \<Longrightarrow> m s = (r, t) \<Longrightarrow> (r, sys_db t) \<in> F (sys_db s)"
  by (auto simp: implements_def)

lemma implements_mono: "implements P I m F \<Longrightarrow> (\<And>db. I db \<Longrightarrow> F db \<subseteq> G db) \<Longrightarrow> implements P I m G"
  unfolding implements_def by blast

lemma implements_keeps:
  "implements P I m F \<Longrightarrow> (\<And>db r db'. I db \<Longrightarrow> (r, db') \<in> F db \<Longrightarrow> I db') \<Longrightarrow> keeps (on_db I) m"
  by (rule keepsI, case_tac "m s") (fastforce simp: implements_def on_db_def)

text \<open>
  The rule for a transaction: a block that ends as \<open>F\<close> allows gives a transaction that does, with the
  database of a raised exception replaced by the one at the start.
\<close>

lemma implements_session_scope:
  assumes body: "\<And>s r t. I (sys_db s) \<Longrightarrow> body s = (r, t) \<Longrightarrow> sys_health t = sys_health s \<and>
      ((\<exists>a. r = Ok a) \<and> (r, sys_db t) \<in> F (sys_db s) \<or> (\<exists>e. r = Raise e) \<and> (r, sys_db s) \<in> F (sys_db s))"
  shows "implements P I (session_scope P body) F"
  unfolding implements_def
proof (intro allI impI)
  fix s :: "'a sys" and r t
  assume I: "I (sys_db s)" and run: "session_scope P body s = (r, t)"
  let ?fault = "\<not> storage_ok P \<and> r = Raise OperationalError \<and> sys_db t = sys_db s"
  have fault: "sys_health t = sys_health s \<and> ?fault"
    if "storage_check P s1 = (Raise OperationalError, s2)" "sys_health s2 = sys_health s"
       "r = Raise OperationalError" "t = s2\<lparr>sys_db := sys_db s\<rparr>" for s1 s2
    using that storage_check_ok [of P s1] by auto
  show "sys_health t = sys_health s \<and> ((r, sys_db t) \<in> F (sys_db s) \<or> ?fault)"
  proof (cases rule: storage_check_cases [of P s])
    case (2 w)
    with run have "r = Raise OperationalError" "t = s\<lparr>sys_world := w\<rparr>\<lparr>sys_db := sys_db s\<rparr>"
      by (auto simp: session_scope_def rollback_to_def prog_simps)
    with fault 2 show ?thesis by simp
  next
    case (1 w)
    obtain r1 s1 where b: "body (s\<lparr>sys_world := w\<rparr>) = (r1, s1)" by fastforce
    have h: "sys_health s1 = sys_health s \<and> ((\<exists>a. r1 = Ok a) \<and> (r1, sys_db s1) \<in> F (sys_db s)
        \<or> (\<exists>e. r1 = Raise e) \<and> (r1, sys_db s) \<in> F (sys_db s))"
      using body [OF _ b] I by simp
    show ?thesis
    proof (cases r1)
      case (Ok a)
      show ?thesis
      proof (cases rule: storage_check_cases [of P s1])
        case (1 w')
        with \<open>storage_check P s = _\<close> b Ok run have "r = Ok a" "t = s1\<lparr>sys_world := w'\<rparr>"
          by (auto simp: session_scope_def prog_simps)
        with h Ok show ?thesis by simp
      next
        case (2 w')
        with \<open>storage_check P s = _\<close> b Ok run have
          "r = Raise OperationalError" "t = s1\<lparr>sys_world := w'\<rparr>\<lparr>sys_db := sys_db s\<rparr>"
          by (auto simp: session_scope_def rollback_to_def prog_simps)
        with fault 2 h show ?thesis by simp
      qed
    next
      case (Raise e)
      with 1 b run have "r = Raise e" "t = s1\<lparr>sys_db := sys_db s\<rparr>"
        by (auto simp: session_scope_def rollback_to_def prog_simps)
      with h Raise show ?thesis by simp
    next
      case Stuck
      with h show ?thesis by simp
    qed
  qed
qed

lemma implements_world_then:
  assumes "\<And>s. \<exists>a w. m s = (Ok a, s\<lparr>sys_world := w\<rparr>)" and "\<And>a. implements P I (f a) F"
  shows "implements P I (bindP m f) F"
  unfolding implements_def
proof (intro allI impI)
  fix s r t assume I: "I (sys_db s)" and run: "bindP m f s = (r, t)"
  from assms(1) obtain a w where m: "m s = (Ok a, s\<lparr>sys_world := w\<rparr>)" by blast
  with run have f: "f a (s\<lparr>sys_world := w\<rparr>) = (r, t)" by (simp add: prog_simps)
  show "sys_health t = sys_health s \<and> ((r, sys_db t) \<in> F (sys_db s)
      \<or> \<not> storage_ok P \<and> r = Raise OperationalError \<and> sys_db t = sys_db s)"
    using implementsD [OF assms(2) _ f] I by simp
qed

text \<open>
  Invariants through a transaction: when the block keeps \<open>I\<close>, and \<open>I\<close> only looks at the database,
  so does the transaction.
\<close>

lemma on_db_world [simp]: "on_db I (s\<lparr>sys_world := w\<rparr>) \<longleftrightarrow> on_db I s"
  by (simp add: on_db_def)

lemma on_db_health [simp]: "on_db I (s\<lparr>sys_health := h\<rparr>) \<longleftrightarrow> on_db I s"
  by (simp add: on_db_def)

lemma keeps_world_call [keeps_intros]: "keeps (on_db I) (world_call f)"
  by (auto simp: keeps_def world_call_def split: prod.splits)

text \<open>The frame of a call that only talks to the outside world.\<close>

definition untouched :: "database \<Rightarrow> health_snapshot \<Rightarrow> 'w sys \<Rightarrow> bool" where
  "untouched db h s \<longleftrightarrow> sys_db s = db \<and> sys_health s = h"

lemma untouched_world_call [keeps_intros]: "keeps (untouched db h) (world_call f)"
  by (auto simp: keeps_def untouched_def world_call_def split: prod.splits)

lemma untouched_now_utc [keeps_intros]: "keeps (untouched db h) (now_utc P)"
  unfolding now_utc_def by (intro keeps_intros)

lemma untouched_storage_check [keeps_intros]: "keeps (untouched db h) (storage_check P)"
  unfolding storage_check_def by (intro keeps_intros)

lemma untouchedD:
  assumes "\<And>db h. keeps (untouched db h) m" and "m s = (r, t)"
  shows "sys_db t = sys_db s" and "sys_health t = sys_health s"
  using keepsD_eq [OF assms(1) assms(2), of "sys_db s" "sys_health s"] by (simp_all add: untouched_def)

text \<open>
  Invariants of the outside world. \<open>quiet P J\<close>: the calls that only read clocks, draw random numbers, use
  the storage, poll or kick keep \<open>J\<close>.
\<close>

definition on_world :: "('w \<Rightarrow> bool) \<Rightarrow> 'w sys \<Rightarrow> bool" where
  "on_world J s \<longleftrightarrow> J (sys_world s)"

definition quiet :: "'w platform \<Rightarrow> ('w \<Rightarrow> bool) \<Rightarrow> bool" where
  "quiet P J \<longleftrightarrow> (\<forall>w. J w \<longrightarrow> J (snd (clock_now P w)) \<and> J (snd (sql_current_timestamp P w)) \<and> J (snd (sql_fault P w))
     \<and> J (snd (os_uuid4 P w)) \<and> (\<forall>n. J (snd (os_random P n w))) \<and> J (snd (mono_clock P w)) \<and> (\<forall>d. J (os_sleep P d w))
     \<and> (\<forall>tag d. J (snd (xray_count P tag d w))) \<and> (\<forall>url body. J (snd (hysteria_post P url body w)))
     \<and> (\<forall>x. J (snd (argon2_hash P x w))) \<and> (\<forall>x. J (snd (dns_addresses P x w))))"

lemma keeps_world: "(\<And>w. J w \<Longrightarrow> J (snd (f w))) \<Longrightarrow> keeps (on_world J) (world_call f)"
proof (rule keepsI)
  fix s :: "'a sys" assume "\<And>w. J w \<Longrightarrow> J (snd (f w))" "on_world J s"
  then show "on_world J (snd (world_call f s))"
    by (cases "f (sys_world s)") (auto simp: world_call_def on_world_def, metis snd_conv)
qed

lemma quiet_calls [keeps_intros]:
  assumes "quiet P J"
  shows "keeps (on_world J) (world_call (clock_now P))" "keeps (on_world J) (world_call (sql_current_timestamp P))"
    "keeps (on_world J) (world_call (sql_fault P))" "keeps (on_world J) (world_call (os_uuid4 P))"
    "keeps (on_world J) (world_call (os_random P n))" "keeps (on_world J) (world_call (mono_clock P))"
    "keeps (on_world J) (world_call (\<lambda>w. ((), os_sleep P d w)))" "keeps (on_world J) (world_call (xray_count P tag d))"
    "keeps (on_world J) (world_call (hysteria_post P url body))" "keeps (on_world J) (world_call (argon2_hash P x))"
    "keeps (on_world J) (world_call (dns_addresses P x))"
  using assms by (auto intro!: keeps_world simp: quiet_def)

lemma keeps_on_world_db [keeps_intros]:
  "keeps (on_world J) (put_db db)" "keeps (on_world J) (db_update f)" "keeps (on_world J) (db_statement g)"
  by (auto simp: keeps_def on_world_def scope_defs prog_defs split: sum.splits)

lemma keeps_on_world_scope [keeps_intros]:
  assumes "quiet P J"
  shows "keeps (on_world J) (now_utc P)" "keeps (on_world J) (storage_check P)"
    "keeps (on_world J) body \<Longrightarrow> keeps (on_world J) (session_scope P body)"
  unfolding now_utc_def storage_check_def session_scope_def rollback_to_def get_db_def
  by (intro keeps_intros assms; assumption)+

lemma keeps_get_db [keeps_intros]: "keeps I get_db"
  unfolding get_db_def by (rule keeps_intros)

lemma keeps_now_utc [keeps_intros]: "keeps (on_db I) (now_utc P)"
  unfolding now_utc_def by (intro keeps_intros)

lemma keeps_storage_check [keeps_intros]: "keeps (on_db I) (storage_check P)"
  unfolding storage_check_def by (intro keeps_intros)

lemma keeps_one_or_none [keeps_intros]: "keeps I (one_or_none rows)"
  by (auto simp: one_or_none_def intro: keeps_intros split: list.splits)

lemma keeps_session_scope [keeps_intros]:
  assumes "keeps (on_db I) body"
  shows "keeps (on_db I) (session_scope P body)"
proof (rule keepsI)
  fix s :: "'a sys" assume I: "on_db I s"
  obtain r t where run: "session_scope P body s = (r, t)" by fastforce
  show "on_db I (snd (session_scope P body s))"
  proof (cases r)
    case (Ok a)
    with run obtain w0 s1 w where "body (s\<lparr>sys_world := w0\<rparr>) = (Ok a, s1)" "t = s1\<lparr>sys_world := w\<rparr>"
      by (auto elim: session_scope_OkE)
    with assms I run show ?thesis by (auto dest: keepsD_eq)
  next
    case (Raise e)
    with run session_scope_Raise_db have "sys_db t = sys_db s" by fastforce
    with I run show ?thesis by (simp add: on_db_def)
  next
    case Stuck
    have m: "keeps (on_db I) (bindP (storage_check P) (\<lambda>_. bindP body (\<lambda>a. bindP (storage_check P) (\<lambda>_. ret a))))"
      by (intro keeps_intros assms)
    from Stuck run have
      "bindP (storage_check P) (\<lambda>_. bindP body (\<lambda>a. bindP (storage_check P) (\<lambda>_. ret a))) s = (Stuck, t)"
      by (auto simp: session_scope_def prog_simps catch_def split: prod.splits outcome.splits)
    with m I run show ?thesis by (auto dest: keepsD_eq)
  qed
qed

lemma keeps_db_statement:
  "(\<And>db db'. I db \<Longrightarrow> f db = Inr db' \<Longrightarrow> I db') \<Longrightarrow> keeps (on_db I) (db_statement f)"
  by (auto simp: keeps_def on_db_def db_statement_def prog_defs scope_defs split: sum.splits)

lemma keeps_db_update: "(\<And>db. I db \<Longrightarrow> I (f db)) \<Longrightarrow> keeps (on_db I) (db_update f)"
  by (auto simp: keeps_def on_db_def db_update_def prog_defs)

lemma untouched_get_db [keeps_intros]: "keeps (untouched db h) get_db"
  unfolding get_db_def by (rule keeps_intros)

lemma untouched_session_scope [keeps_intros]:
  assumes "keeps (untouched db h) body"
  shows "keeps (untouched db h) (session_scope P body)"
proof (rule keepsI)
  fix s :: "'a sys" assume s: "untouched db h s"
  have "keeps (untouched db h) (rollback_to db e)" for e
    by (auto simp: keeps_def untouched_def prog_simps)
  then have "keeps (untouched db h) (catch (bindP (storage_check P) (\<lambda>_. bindP body (\<lambda>a. bindP (storage_check P) (\<lambda>_. ret a))))
      (rollback_to db))" by (intro keeps_intros assms)
  from keepsD [OF this s] s show "untouched db h (snd (session_scope P body s))"
    by (simp add: session_scope_def prog_simps untouched_def)
qed

text \<open>Transactions over blocks that return, return.\<close>

lemma returns_world_call [returns_intros]: "returns (world_call f)"
  by (auto simp: returns_def world_call_def split: prod.splits)

lemma returns_scope [returns_intros]:
  "returns get_db" "returns (put_db db)" "returns (db_update f)" "returns (db_statement g)" "returns (now_utc P)"
  "returns (storage_check P)" "returns (rollback_to db e)" "returns (one_or_none rows)"
  unfolding get_db_def put_db_def db_update_def db_statement_def now_utc_def storage_check_def rollback_to_def
    one_or_none_def
  by (auto intro!: returns_intros split: list.splits)

lemma returns_session_scope [returns_intros]: "returns body \<Longrightarrow> returns (session_scope P body)"
  unfolding session_scope_def by (intro returns_intros)

end
