(* ===== verification/Secrets.thy ===== *)
theory Secrets
  imports Platform
begin

text \<open>
  \<^verbatim>\<open>control/src/ezopenpn/security/secrets.py\<close>: envelope encryption of profile material. A random
  profile key encrypts the three values of a profile, each under its own context; the profile key
  itself is wrapped under a key derived from the master key and bound to the profile's identifier.
  The AEAD and HMAC primitives are parameters of the platform; what the code relies on is
  \<open>crypto_ok\<close>: a message decrypts under the key and the context it was encrypted with, an
  encrypted message carries a 24-byte nonce and a 16-byte tag, and an HMAC-SHA256 digest has 32 bytes.
\<close>

section \<open>Definitions\<close>

definition KEY_SIZE :: nat where "KEY_SIZE = 32"
definition NONCE_SIZE :: nat where "NONCE_SIZE = 24"
definition MACBYTES :: nat where "MACBYTES = 16"

definition FORMAT_VERSION :: bytes where "FORMAT_VERSION = [1]"
definition WRAP_DERIVATION_LABEL :: bytes where
  "WRAP_DERIVATION_LABEL = ascii_bytes (U ''ezopenpn/wrap/v1'')"
definition LOOKUP_DERIVATION_LABEL :: bytes where
  "LOOKUP_DERIVATION_LABEL = ascii_bytes (U ''ezopenpn/lookup/v1'')"
definition PROFILE_KEY_CONTEXT :: bytes where
  "PROFILE_KEY_CONTEXT = ascii_bytes (U ''ezopenpn/profile-key/v1:'')"

definition require_key :: "bytes \<Rightarrow> exn + unit" where
  "require_key key = guard_sum (length key = KEY_SIZE) ValueError"

text \<open>\<open>nonce\<close> is the fresh nonce that \<^verbatim>\<open>Aead.encrypt\<close> draws.\<close>

definition encrypt_value :: "'w platform \<Rightarrow> bytes \<Rightarrow> bytes \<Rightarrow> bytes \<Rightarrow> bytes \<Rightarrow> exn + bytes" where
  "encrypt_value P nonce key val context =
     bind_sum (require_key key) (\<lambda>_.
     bind_sum (guard_sum (context \<noteq> []) ValueError) (\<lambda>_.
       Inr (FORMAT_VERSION @ aead_encrypt P key nonce val context)))"

definition decrypt_value :: "'w platform \<Rightarrow> bytes \<Rightarrow> bytes \<Rightarrow> bytes \<Rightarrow> exn + bytes" where
  "decrypt_value P key blob context =
     bind_sum (require_key key) (\<lambda>_.
     bind_sum (guard_sum (context \<noteq> []) ValueError) (\<lambda>_.
     bind_sum (guard_sum (length FORMAT_VERSION + NONCE_SIZE + MACBYTES \<le> length blob) ValueError) (\<lambda>_.
     bind_sum (guard_sum (take 1 blob = FORMAT_VERSION) ValueError) (\<lambda>_.
       case aead_decrypt P key (drop 1 blob) context of
         None \<Rightarrow> Inl CryptoError | Some v \<Rightarrow> Inr v))))"

record cipher =
  wrap_key :: bytes
  lookup_key :: bytes

definition secret_cipher :: "'w platform \<Rightarrow> bytes \<Rightarrow> exn + cipher" where
  "secret_cipher P master_key = bind_sum (require_key master_key) (\<lambda>_.
     Inr \<lparr>wrap_key = hmac_sha256 P master_key WRAP_DERIVATION_LABEL,
          lookup_key = hmac_sha256 P master_key LOOKUP_DERIVATION_LABEL\<rparr>)"

definition new_profile_key :: "'w platform \<Rightarrow> ('w, bytes) op" where
  "new_profile_key P = world_call (os_random P KEY_SIZE)"

definition encrypt_profile_value :: "'w platform \<Rightarrow> bytes \<Rightarrow> bytes \<Rightarrow> bytes \<Rightarrow> ('w, bytes) op" where
  "encrypt_profile_value P key val context =
     bindP (world_call (os_random P NONCE_SIZE)) (\<lambda>nonce. lift_result (encrypt_value P nonce key val context))"

definition decrypt_profile_value :: "'w platform \<Rightarrow> bytes \<Rightarrow> bytes \<Rightarrow> bytes \<Rightarrow> exn + bytes" where
  "decrypt_profile_value P key blob context = decrypt_value P key blob context"

definition wrap_profile_key :: "'w platform \<Rightarrow> cipher \<Rightarrow> uuid \<Rightarrow> bytes \<Rightarrow> ('w, bytes) op" where
  "wrap_profile_key P c profile_id key = bindP (lift_result (require_key key)) (\<lambda>_.
     bindP (world_call (os_random P NONCE_SIZE)) (\<lambda>nonce.
       lift_result (encrypt_value P nonce (wrap_key c) key (PROFILE_KEY_CONTEXT @ uuid_bytes profile_id))))"

definition unwrap_profile_key :: "'w platform \<Rightarrow> cipher \<Rightarrow> uuid \<Rightarrow> bytes \<Rightarrow> exn + bytes" where
  "unwrap_profile_key P c profile_id wrapped =
     bind_sum (decrypt_value P (wrap_key c) wrapped (PROFILE_KEY_CONTEXT @ uuid_bytes profile_id)) (\<lambda>key.
     bind_sum (require_key key) (\<lambda>_. Inr key))"

definition lookup_digest :: "'w platform \<Rightarrow> cipher \<Rightarrow> bytes \<Rightarrow> bytes" where
  "lookup_digest P c val = hmac_sha256 P (lookup_key c) val"

definition matches_lookup_digest :: "'w platform \<Rightarrow> cipher \<Rightarrow> bytes \<Rightarrow> bytes \<Rightarrow> bool" where
  "matches_lookup_digest P c val expected \<longleftrightarrow> lookup_digest P c val = expected"

section \<open>What the primitives promise\<close>

definition crypto_ok :: "'w platform \<Rightarrow> bool" where
  "crypto_ok P \<longleftrightarrow>
     (\<forall>k m. length (hmac_sha256 P k m) = 32)
   \<and> (\<forall>k n v c. length k = KEY_SIZE \<longrightarrow> length n = NONCE_SIZE \<longrightarrow>
        length (aead_encrypt P k n v c) = NONCE_SIZE + length v + MACBYTES
      \<and> aead_decrypt P k (aead_encrypt P k n v c) c = Some v)"

text \<open>The random source returns as many bytes as it is asked for.\<close>

definition random_ok :: "'w platform \<Rightarrow> bool" where
  "random_ok P \<longleftrightarrow> (\<forall>n w. length (fst (os_random P n w)) = n)"

lemmas secret_sizes = KEY_SIZE_def NONCE_SIZE_def MACBYTES_def

lemma hmac_length: "crypto_ok P \<Longrightarrow> length (hmac_sha256 P k m) = 32"
  by (simp add: crypto_ok_def)

lemma secret_cipher_keys: "crypto_ok P \<Longrightarrow> secret_cipher P mk = Inr c \<Longrightarrow> length (wrap_key c) = KEY_SIZE"
  by (auto simp: secret_cipher_def bind_sum_eq_Inr hmac_length secret_sizes)

lemma length_lookup_digest: "crypto_ok P \<Longrightarrow> length (lookup_digest P c v) = 32"
  by (simp add: lookup_digest_def hmac_length)

section \<open>Round trips and rejections\<close>

lemma encrypt_value_ok: "length key = KEY_SIZE \<Longrightarrow> context \<noteq> [] \<Longrightarrow>
  encrypt_value P nonce key v context = Inr (FORMAT_VERSION @ aead_encrypt P key nonce v context)"
  by (simp add: encrypt_value_def require_key_def)

lemma decrypt_encrypt:
  assumes "crypto_ok P" and "length key = KEY_SIZE" and "length nonce = NONCE_SIZE" and "context \<noteq> []"
    and "encrypt_value P nonce key v context = Inr blob"
  shows "decrypt_value P key blob context = Inr v"
  using assms by (auto simp: encrypt_value_ok decrypt_value_def require_key_def crypto_ok_def FORMAT_VERSION_def)

lemma decrypt_short: "length blob < 41 \<Longrightarrow> \<exists>e. decrypt_value P key blob context = Inl e"
  by (auto simp: decrypt_value_def require_key_def guard_sum_def FORMAT_VERSION_def secret_sizes bind_sum_def)

lemma decrypt_errors: "decrypt_value P key blob context = Inl e \<Longrightarrow> e = ValueError \<or> e = CryptoError"
  by (auto simp: decrypt_value_def require_key_def guard_sum_def bind_sum_def split: if_splits option.splits)

lemma unwrap_errors: "unwrap_profile_key P c i blob = Inl e \<Longrightarrow> e = ValueError \<or> e = CryptoError"
  by (auto simp: unwrap_profile_key_def require_key_def guard_sum_def bind_sum_def
      dest: decrypt_errors split: if_splits sum.splits)

lemma unwrap_wrap:
  assumes "crypto_ok P" and "random_ok P" and "length (wrap_key c) = KEY_SIZE"
    and "wrap_profile_key P c i key s = (Ok wrapped, t)"
  shows "unwrap_profile_key P c i wrapped = Inr key"
proof -
  from assms(4) obtain nonce s1 where len: "length key = KEY_SIZE"
    and n: "world_call (os_random P NONCE_SIZE) s = (Ok nonce, s1)"
    and e: "encrypt_value P nonce (wrap_key c) key (PROFILE_KEY_CONTEXT @ uuid_bytes i) = Inr wrapped"
    by (auto simp: wrap_profile_key_def require_key_def guard_sum_def lift_result_def
        elim!: bindP_OkE split: if_splits sum.splits)
  have "length nonce = NONCE_SIZE"
    using n assms(2) unfolding random_ok_def world_call_def by (auto split: prod.splits) (metis fst_conv)
  moreover have "PROFILE_KEY_CONTEXT @ uuid_bytes i \<noteq> []"
    by (metis Nil_is_append_conv length_0_conv length_uuid_bytes zero_neq_numeral)
  ultimately have "decrypt_value P (wrap_key c) wrapped (PROFILE_KEY_CONTEXT @ uuid_bytes i) = Inr key"
    using decrypt_encrypt [OF assms(1) assms(3) _ _ e] by blast
  with len show ?thesis by (simp add: unwrap_profile_key_def require_key_def)
qed

lemma keeps_secrets [keeps_intros]:
  "keeps (on_db I) (new_profile_key P)"
  "keeps (on_db I) (encrypt_profile_value P key val context)"
  "keeps (on_db I) (wrap_profile_key P c i key)"
  "keeps (untouched db h) (new_profile_key P)"
  "keeps (untouched db h) (encrypt_profile_value P key val context)"
  "keeps (untouched db h) (wrap_profile_key P c i key)"
  unfolding new_profile_key_def encrypt_profile_value_def wrap_profile_key_def
  by (intro keeps_intros)+

lemma returns_secrets [returns_intros]:
  "returns (new_profile_key P)" "returns (encrypt_profile_value P key val context)" "returns (wrap_profile_key P c i key)"
  unfolding new_profile_key_def encrypt_profile_value_def wrap_profile_key_def by (intro returns_intros)+

lemma keeps_on_world_secrets [keeps_intros]:
  assumes "quiet P J"
  shows "keeps (on_world J) (new_profile_key P)" "keeps (on_world J) (encrypt_profile_value P key val context)"
    "keeps (on_world J) (wrap_profile_key P c i key)"
  unfolding new_profile_key_def encrypt_profile_value_def wrap_profile_key_def by (intro keeps_intros assms)+

end
