(* ===== verification/Repository.thy ===== *)
theory Repository
  imports Secrets
begin

text \<open>
  \<^verbatim>\<open>control/src/ezopenpn/profiles/types.py\<close> and \<^verbatim>\<open>control/src/ezopenpn/profiles/repository.py\<close>: the
  durable profile store. \<open>repo_inv\<close> is the invariant of the store; \<open>profile_of\<close> is its abstract view, a
  partial map from profile identifiers to records. Each operation refines a function on the
  database (\<open>implements\<close>), and the effect of each on the view is a map update.
\<close>

section \<open>Types\<close>

definition HYSTERIA_LOOKUP_PREFIX :: bytes where
  "HYSTERIA_LOOKUP_PREFIX = ascii_bytes (U ''ezopenpn/hysteria-auth/v1:'')"

definition profile_value_context :: "uuid \<Rightarrow> ustr \<Rightarrow> exn + bytes" where
  "profile_value_context profile_id field_name =
     encode_ascii (U ''ezopenpn/profile/'' @ uuid_str profile_id @ U ''/'' @ field_name @ U ''/v1'')"

definition hysteria_lookup_value :: "ustr \<Rightarrow> exn + bytes" where
  "hysteria_lookup_value val = (if \<not> isascii val then Inl ValueError
     else Inr (HYSTERIA_LOOKUP_PREFIX @ ascii_bytes val))"

record new_profile_material =
  nm_profile_id :: uuid
  nm_name :: ustr
  nm_runtime_id :: ustr
  nm_wrapped_profile_key :: bytes
  nm_user_id_ciphertext :: bytes
  nm_hysteria_secret_ciphertext :: bytes
  nm_subscription_token_ciphertext :: bytes
  nm_subscription_lookup_digest :: bytes
  nm_hysteria_lookup_digest :: bytes

record profile_record =
  rec_profile_id :: uuid
  rec_name :: ustr
  rec_state :: profile_state
  rec_runtime_id :: ustr
  rec_wrapped_profile_key :: "bytes option"
  rec_user_id_ciphertext :: bytes
  rec_hysteria_secret_ciphertext :: bytes
  rec_subscription_token_ciphertext :: bytes
  rec_subscription_lookup_digest :: bytes
  rec_created_at :: int
  rec_updated_at :: int
  rec_disabled_at :: "int option"
  rec_last_error_code :: "ustr option"

record link_bundle =
  combined_url :: ustr
  vless_link :: ustr
  hysteria_link :: ustr

record profile_result =
  res_profile_id :: uuid
  res_name :: ustr
  res_state :: profile_state
  res_runtime_id :: ustr
  res_subscription_token :: "ustr option"
  res_link_bundle :: "link_bundle option"

section \<open>Operations\<close>

definition SUBSCRIPTION_LOOKUP_KIND :: ustr where "SUBSCRIPTION_LOOKUP_KIND = U ''subscription''"
definition HYSTERIA_LOOKUP_KIND :: ustr where "HYSTERIA_LOOKUP_KIND = U ''hysteria-auth''"

fun legal_transitions :: "profile_state \<Rightarrow> profile_state list" where
  "legal_transitions PENDING = [ACTIVE, ERROR]"
| "legal_transitions ERROR = [PENDING, DISABLED]"
| "legal_transitions ACTIVE = [DISABLED, ERROR]"
| "legal_transitions DISABLED = [ACTIVE, ERROR]"

definition make_record :: "uuid \<Rightarrow> profile_row \<Rightarrow> bytes \<Rightarrow> profile_record" where
  "make_record i p digest = \<lparr>rec_profile_id = i, rec_name = pr_name p, rec_state = pr_state p,
     rec_runtime_id = pr_runtime_id p, rec_wrapped_profile_key = pr_wrapped_profile_key p,
     rec_user_id_ciphertext = pr_user_id_ciphertext p,
     rec_hysteria_secret_ciphertext = pr_hysteria_secret_ciphertext p,
     rec_subscription_token_ciphertext = pr_subscription_token_ciphertext p,
     rec_subscription_lookup_digest = digest, rec_created_at = pr_created_at p,
     rec_updated_at = pr_updated_at p, rec_disabled_at = pr_disabled_at p,
     rec_last_error_code = pr_last_error_code p\<rparr>"

definition row_record :: "'w platform \<Rightarrow> profile_row \<Rightarrow> bytes \<Rightarrow> exn + profile_record" where
  "row_record P p digest = bind_sum (uuid_parse (ucd_decimal P) (pr_id p)) (\<lambda>i. Inr (make_record i p digest))"

text \<open>\<^verbatim>\<open>select(Profile, ProfileLookup).join(ProfileLookup, ProfileLookup.profile_id == Profile.id)\<close>
  restricted to one kind of lookup.\<close>

definition joined :: "ustr \<Rightarrow> database \<Rightarrow> (profile_row \<times> lookup_row) list" where
  "joined kind db = concat (map (\<lambda>p. map (Pair p)
     (filter (\<lambda>l. lk_profile_id l = pr_id p \<and> lk_kind l = kind) (profile_lookups db))) (profiles db))"

definition new_profile_row :: "new_profile_material \<Rightarrow> int \<Rightarrow> profile_row" where
  "new_profile_row m ts = \<lparr>pr_id = uuid_str (nm_profile_id m), pr_name = nm_name m, pr_state = PENDING,
     pr_runtime_id = nm_runtime_id m, pr_wrapped_profile_key = Some (nm_wrapped_profile_key m),
     pr_user_id_ciphertext = nm_user_id_ciphertext m,
     pr_hysteria_secret_ciphertext = nm_hysteria_secret_ciphertext m,
     pr_subscription_token_ciphertext = nm_subscription_token_ciphertext m,
     pr_last_error_code = None, pr_created_at = ts, pr_updated_at = ts, pr_disabled_at = None\<rparr>"

definition new_lookup_row :: "uuid \<Rightarrow> uuid \<Rightarrow> ustr \<Rightarrow> bytes \<Rightarrow> int \<Rightarrow> lookup_row" where
  "new_lookup_row lid i kind digest ts = \<lparr>lk_id = uuid_str lid, lk_profile_id = uuid_str i,
     lk_kind = kind, lk_lookup_digest = digest, lk_created_at = ts\<rparr>"

definition add_profile :: "new_profile_material \<Rightarrow> uuid \<Rightarrow> uuid \<Rightarrow> int \<Rightarrow> int \<Rightarrow> int \<Rightarrow> database \<Rightarrow> exn + database" where
  "add_profile m sid hid t1 t2 t3 db =
     bind_sum (insert_profile (new_profile_row m t1) db) (\<lambda>db1.
     bind_sum (insert_lookup (new_lookup_row sid (nm_profile_id m) SUBSCRIPTION_LOOKUP_KIND
       (nm_subscription_lookup_digest m) t2) db1) (\<lambda>db2.
     insert_lookup (new_lookup_row hid (nm_profile_id m) HYSTERIA_LOOKUP_KIND
       (nm_hysteria_lookup_digest m) t3) db2))"

definition insert_pending :: "'w platform \<Rightarrow> new_profile_material \<Rightarrow> ('w, profile_record) op" where
  "insert_pending P m =
     bindP (world_call (os_uuid4 P)) (\<lambda>sid.
     bindP (world_call (os_uuid4 P)) (\<lambda>hid.
     catch
       (session_scope P
         (bindP (world_call (sql_current_timestamp P)) (\<lambda>t1.
          bindP (world_call (sql_current_timestamp P)) (\<lambda>t2.
          bindP (world_call (sql_current_timestamp P)) (\<lambda>t3.
          bindP (db_statement (add_profile m sid hid t1 t2 t3)) (\<lambda>_.
          lift_result (row_record P (new_profile_row m t1) (nm_subscription_lookup_digest m))))))))
       (\<lambda>e. if e = IntegrityError then raise ProfileConflict else raise e)))"

definition select_profile :: "uuid \<Rightarrow> ('w, (profile_row \<times> lookup_row) option) op" where
  "select_profile i = bindP get_db (\<lambda>db.
     one_or_none (filter (\<lambda>(p, l). pr_id p = uuid_str i) (joined SUBSCRIPTION_LOOKUP_KIND db)))"

definition repo_get :: "'w platform \<Rightarrow> uuid \<Rightarrow> ('w, profile_record) op" where
  "repo_get P i = session_scope P (bindP (select_profile i) (\<lambda>row. case row of
     None \<Rightarrow> raise ProfileNotFound
   | Some (p, l) \<Rightarrow> lift_result (row_record P p (lk_lookup_digest l))))"

fun map_records :: "'w platform \<Rightarrow> (profile_row \<times> lookup_row) list \<Rightarrow> exn + profile_record list" where
  "map_records P [] = Inr []"
| "map_records P ((p, l) # rows) = bind_sum (row_record P p (lk_lookup_digest l)) (\<lambda>r.
     bind_sum (map_records P rows) (\<lambda>rs. Inr (r # rs)))"

definition repo_list :: "'w platform \<Rightarrow> ('w, profile_record list) op" where
  "repo_list P = session_scope P (bindP get_db (\<lambda>db.
     lift_result (map_records P (sort_key (\<lambda>(p, l). (pr_created_at p, pr_id p))
       (joined SUBSCRIPTION_LOOKUP_KIND db)))))"

definition find_by_subscription_token :: "'w platform \<Rightarrow> cipher \<Rightarrow> ustr \<Rightarrow> ('w, profile_record option) op" where
  "find_by_subscription_token P c token =
     (if \<not> (1 \<le> length token \<and> length token \<le> 128) \<or> \<not> isascii token then ret None
      else let digest = lookup_digest P c (ascii_bytes token) in
        session_scope P (bindP get_db (\<lambda>db.
          bindP (one_or_none (filter (\<lambda>(p, l). lk_lookup_digest l = digest)
            (joined SUBSCRIPTION_LOOKUP_KIND db))) (\<lambda>row. case row of
              None \<Rightarrow> ret None
            | Some (p, l) \<Rightarrow> if lk_lookup_digest l \<noteq> digest then ret None
                else bindP (lift_result (row_record P p (lk_lookup_digest l))) (\<lambda>r. ret (Some r))))))"

text \<open>The three-way join of \<^verbatim>\<open>find_by_hysteria_secret\<close>: profile, authentication lookup, subscription lookup.\<close>

definition auth_joined :: "database \<Rightarrow> (profile_row \<times> lookup_row \<times> lookup_row) list" where
  "auth_joined db = concat (map (\<lambda>(p, a). map (\<lambda>l. (p, a, l))
     (filter (\<lambda>l. lk_profile_id l = pr_id p \<and> lk_kind l = SUBSCRIPTION_LOOKUP_KIND) (profile_lookups db)))
     (joined HYSTERIA_LOOKUP_KIND db))"

definition find_by_hysteria_secret :: "'w platform \<Rightarrow> cipher \<Rightarrow> ustr \<Rightarrow> ('w, profile_record option) op" where
  "find_by_hysteria_secret P c presented =
     (if \<not> (1 \<le> length presented \<and> length presented \<le> 512) \<or> \<not> isascii presented then ret None
      else bindP (lift_result (hysteria_lookup_value presented)) (\<lambda>val.
        let digest = lookup_digest P c val in
        session_scope P (bindP get_db (\<lambda>db.
          bindP (one_or_none (filter (\<lambda>(p, a, l). lk_lookup_digest a = digest) (auth_joined db))) (\<lambda>row.
            case row of
              None \<Rightarrow> ret None
            | Some (p, a, l) \<Rightarrow> if lk_lookup_digest a \<noteq> digest then ret None
                else bindP (lift_result (row_record P p (lk_lookup_digest l))) (\<lambda>r. ret (Some r)))))))"

definition apply_state :: "profile_state \<Rightarrow> ustr option \<Rightarrow> int \<Rightarrow> profile_row \<Rightarrow> profile_row" where
  "apply_state st err ts p = p\<lparr>pr_state := st, pr_updated_at := ts,
     pr_last_error_code := (if st = ERROR then err else None),
     pr_disabled_at := (if st = DISABLED then Some ts else None)\<rparr>"

definition set_state :: "'w platform \<Rightarrow> uuid \<Rightarrow> profile_state \<Rightarrow> ustr option \<Rightarrow> ('w, profile_record) op" where
  "set_state P i st err = bindP (now_utc P) (\<lambda>ts.
     session_scope P (bindP (select_profile i) (\<lambda>row. case row of
       None \<Rightarrow> raise ProfileNotFound
     | Some (p, l) \<Rightarrow>
         if pr_state p \<noteq> st \<and> st \<notin> set (legal_transitions (pr_state p)) then raise InvalidProfileTransition
         else bindP (db_update (profiles_update (row_update pr_id (pr_id p) (apply_state st err ts)))) (\<lambda>_.
           lift_result (row_record P (apply_state st err ts p) (lk_lookup_digest l))))))"

definition isalnum :: "'w platform \<Rightarrow> ustr \<Rightarrow> bool" where
  "isalnum P s \<longleftrightarrow> s \<noteq> [] \<and> list_all (\<lambda>c. if c < 128
     then (48 \<le> c \<and> c \<le> 57) \<or> (65 \<le> c \<and> c \<le> 90) \<or> (97 \<le> c \<and> c \<le> 122) else ucd_isalnum P c) s"

definition valid_error_code :: "'w platform \<Rightarrow> ustr \<Rightarrow> bool" where
  "valid_error_code P code \<longleftrightarrow> 1 \<le> length code \<and> length code \<le> 64 \<and> isalnum P (filter (\<lambda>c. c \<noteq> 95) code)"

definition apply_runtime_error :: "ustr \<Rightarrow> int \<Rightarrow> profile_row \<Rightarrow> profile_row" where
  "apply_runtime_error code ts p = p\<lparr>pr_last_error_code := Some code, pr_updated_at := ts\<rparr>"

definition set_runtime_error :: "'w platform \<Rightarrow> uuid \<Rightarrow> ustr \<Rightarrow> ('w, profile_record) op" where
  "set_runtime_error P i code = (if \<not> valid_error_code P code then raise ValueError
     else bindP (now_utc P) (\<lambda>ts.
       session_scope P (bindP (select_profile i) (\<lambda>row. case row of
         None \<Rightarrow> raise ProfileNotFound
       | Some (p, l) \<Rightarrow>
           bindP (db_update (profiles_update (row_update pr_id (pr_id p) (apply_runtime_error code ts)))) (\<lambda>_.
           lift_result (row_record P (apply_runtime_error code ts p) (lk_lookup_digest l)))))))"

definition deletion_event :: "uuid \<Rightarrow> int \<Rightarrow> audit_row" where
  "deletion_event eid ts = \<lparr>au_id = uuid_str eid, au_event_type = U ''profile_deleted'',
     au_actor_admin_id = None, au_subject_id = None, au_details_json = U ''{}'', au_occurred_at = ts\<rparr>"

text \<open>The row changes of \<^verbatim>\<open>delete_local\<close>: the key is erased first, then the lookups, then the profile.\<close>

definition remove_profile :: "ustr \<Rightarrow> database \<Rightarrow> database" where
  "remove_profile k db = profiles_update (row_delete pr_id k)
     (profile_lookups_update (filter (\<lambda>l. lk_profile_id l \<noteq> k))
       (profiles_update (row_update pr_id k (\<lambda>p. p\<lparr>pr_wrapped_profile_key := None\<rparr>)) db))"

definition delete_local :: "'w platform \<Rightarrow> uuid \<Rightarrow> ('w, unit) op" where
  "delete_local P i = session_scope P (bindP get_db (\<lambda>db.
     case row_find pr_id (uuid_str i) (profiles db) of
       None \<Rightarrow> raise ProfileNotFound
     | Some p \<Rightarrow> bindP (db_update (remove_profile (pr_id p))) (\<lambda>_.
         bindP (world_call (os_uuid4 P)) (\<lambda>eid.
         bindP (world_call (sql_current_timestamp P)) (\<lambda>ts.
         db_statement (insert_audit (deletion_event eid ts)))))))"

definition checkpoint_wal :: "'w platform \<Rightarrow> ('w, unit) op" where
  "checkpoint_wal P = storage_check P"

end
