(* ===== verification/Repository_Facts.thy ===== *)
theory Repository_Facts
  imports Repository
begin

text \<open>
  The profile store is correct: \<open>repo_inv\<close> is kept by every operation, the view \<open>profile_of\<close> is what the
  queries return, and each operation changes the view as its contract says. The contract itself is
  the interface \<open>profile_store\<close>, which the coordinator and the reconciler rely on.
\<close>

section \<open>Invariant and view\<close>

definition lookup_key_of :: "lookup_row \<Rightarrow> ustr \<times> ustr" where
  "lookup_key_of l = (lk_profile_id l, lk_kind l)"

definition lookup_for :: "ustr \<Rightarrow> database \<Rightarrow> ustr \<Rightarrow> lookup_row option" where
  "lookup_for kind db k = row_find lookup_key_of (k, kind) (profile_lookups db)"

definition row_inv :: "database \<Rightarrow> profile_row \<Rightarrow> bool" where
  "row_inv db p \<longleftrightarrow> pr_id p \<in> range uuid_str
     \<and> lookup_for SUBSCRIPTION_LOOKUP_KIND db (pr_id p) \<noteq> None
     \<and> lookup_for HYSTERIA_LOOKUP_KIND db (pr_id p) \<noteq> None
     \<and> (pr_disabled_at p \<noteq> None \<longleftrightarrow> pr_state p = DISABLED)"

definition repo_inv :: "database \<Rightarrow> bool" where
  "repo_inv db \<longleftrightarrow> schema_ok db \<and> (\<forall>p \<in> set (profiles db). row_inv db p)"

definition profile_of :: "database \<Rightarrow> uuid \<Rightarrow> profile_record option" where
  "profile_of db i = (case row_find pr_id (uuid_str i) (profiles db) of
     None \<Rightarrow> None
   | Some p \<Rightarrow> map_option (\<lambda>l. make_record i p (lk_lookup_digest l))
       (lookup_for SUBSCRIPTION_LOOKUP_KIND db (uuid_str i)))"

lemma repo_inv_empty: "repo_inv empty_database"
  using schema_ok_empty by (simp add: repo_inv_def) (simp add: empty_database_def)

lemma repo_inv_schema: "repo_inv db \<Longrightarrow> schema_ok db"
  by (simp add: repo_inv_def)

lemma repo_inv_row: "repo_inv db \<Longrightarrow> p \<in> set (profiles db) \<Longrightarrow> row_inv db p"
  by (simp add: repo_inv_def)

lemma schema_distinct:
  assumes "schema_ok db"
  shows "distinct (map pr_id (profiles db))" "distinct (map pr_runtime_id (profiles db))"
    "distinct (map lookup_key_of (profile_lookups db))"
    "distinct (map lk_lookup_digest (profile_lookups db))"
  using assms by (simp_all add: schema_ok_def profiles_ok_def lookups_ok_def lookup_key_of_def [abs_def])

lemma lookup_for_filter:
  assumes "schema_ok db"
  shows "filter (\<lambda>l. lk_profile_id l = k \<and> lk_kind l = kind) (profile_lookups db)
       = (case lookup_for kind db k of None \<Rightarrow> [] | Some l \<Rightarrow> [l])"
proof -
  have eq: "(lk_profile_id l = k \<and> lk_kind l = kind) = (lookup_key_of l = (k, kind))" for l
    by (auto simp: lookup_key_of_def)
  show ?thesis
  proof (cases "lookup_for kind db k")
    case None
    then have "filter (\<lambda>l. lookup_key_of l = (k, kind)) (profile_lookups db) = []"
      by (force simp: lookup_for_def row_find_None filter_empty_conv)
    with None show ?thesis unfolding eq by simp
  next
    case (Some l)
    then have l: "l \<in> set (profile_lookups db)" "lookup_key_of l = (k, kind)"
      unfolding lookup_for_def by (auto dest: row_find_SomeD)
    have "filter (\<lambda>x. lookup_key_of x = lookup_key_of l) (profile_lookups db) = [l]"
      by (rule filter_unique [OF schema_distinct(3) [OF assms] l(1)])
    with Some l(2) show ?thesis unfolding eq by simp
  qed
qed

lemma lookup_for_SomeD:
  "lookup_for kind db k = Some l \<Longrightarrow> l \<in> set (profile_lookups db) \<and> lk_profile_id l = k \<and> lk_kind l = kind"
  unfolding lookup_for_def by (auto dest!: row_find_SomeD simp: lookup_key_of_def)

lemma joined_eq:
  assumes "repo_inv db" and "kind = SUBSCRIPTION_LOOKUP_KIND \<or> kind = HYSTERIA_LOOKUP_KIND"
  shows "joined kind db = map (\<lambda>p. (p, the (lookup_for kind db (pr_id p)))) (profiles db)"
proof -
  have "map (Pair p) (filter (\<lambda>l. lk_profile_id l = pr_id p \<and> lk_kind l = kind) (profile_lookups db))
      = [(p, the (lookup_for kind db (pr_id p)))]" if "p \<in> set (profiles db)" for p
    using repo_inv_row [OF assms(1) that] assms
    by (auto simp: lookup_for_filter repo_inv_schema row_inv_def)
  then have "joined kind db = concat (map (\<lambda>p. [(p, the (lookup_for kind db (pr_id p)))]) (profiles db))"
    unfolding joined_def by (metis (mono_tags, lifting) map_eq_conv)
  then show ?thesis by simp
qed

lemma filter_profile_rows:
  assumes "schema_ok db"
  shows "filter (\<lambda>p. pr_id p = k) (profiles db)
       = (case row_find pr_id k (profiles db) of None \<Rightarrow> [] | Some p \<Rightarrow> [p])"
proof (cases "row_find pr_id k (profiles db)")
  case None
  then have "filter (\<lambda>p. pr_id p = k) (profiles db) = []"
    by (force simp: row_find_None filter_empty_conv)
  with None show ?thesis by simp
next
  case (Some p)
  then have "p \<in> set (profiles db)" "pr_id p = k" by (auto dest: row_find_SomeD)
  then show ?thesis
    using filter_unique [OF schema_distinct(1) [OF assms], of p] Some by simp
qed

lemma filter_map_pair: "filter (\<lambda>(p, l). Q p) (map (\<lambda>p. (p, g p)) ps) = map (\<lambda>p. (p, g p)) (filter Q ps)"
  by (induction ps) auto

text \<open>Selecting a profile by its identifier finds the row of the view, and never two rows.\<close>

lemma select_profile_run:
  assumes "repo_inv (sys_db s)"
  shows "select_profile i s = (Ok (map_option
     (\<lambda>p. (p, the (lookup_for SUBSCRIPTION_LOOKUP_KIND (sys_db s) (pr_id p))))
     (row_find pr_id (uuid_str i) (profiles (sys_db s)))), s)"
  using assms
  by (simp add: select_profile_def joined_eq filter_map_pair filter_profile_rows repo_inv_schema prog_simps
      split: option.splits)

lemma profile_of_cases:
  assumes "repo_inv db"
  obtains (absent) "row_find pr_id (uuid_str i) (profiles db) = None" "profile_of db i = None"
  | (present) p l where "row_find pr_id (uuid_str i) (profiles db) = Some p" "pr_id p = uuid_str i"
      "p \<in> set (profiles db)" "lookup_for SUBSCRIPTION_LOOKUP_KIND db (uuid_str i) = Some l"
      "profile_of db i = Some (make_record i p (lk_lookup_digest l))"
proof (cases "row_find pr_id (uuid_str i) (profiles db)")
  case None
  then show ?thesis using absent by (simp add: profile_of_def)
next
  case (Some p)
  then have p: "p \<in> set (profiles db)" "pr_id p = uuid_str i" by (auto dest: row_find_SomeD)
  with repo_inv_row [OF assms p(1)] obtain l
    where "lookup_for SUBSCRIPTION_LOOKUP_KIND db (uuid_str i) = Some l"
    by (auto simp: row_inv_def)
  with Some p show ?thesis by (intro present) (auto simp: profile_of_def)
qed

lemma row_record_str: "pr_id p = uuid_str i \<Longrightarrow> row_record P p d = Inr (make_record i p d)"
  by (simp add: row_record_def)

lemma rec_state_make [simp]: "rec_state (make_record i p d) = pr_state p"
  and rec_profile_id_make [simp]: "rec_profile_id (make_record i p d) = i"
  and rec_runtime_id_make [simp]: "rec_runtime_id (make_record i p d) = pr_runtime_id p"
  by (simp_all add: make_record_def)

section \<open>Queries\<close>

lemma repo_get_refines:
  "implements P repo_inv (repo_get P i)
     (\<lambda>db. {(case profile_of db i of None \<Rightarrow> Raise ProfileNotFound | Some r \<Rightarrow> Ok r, db)})"
  unfolding repo_get_def
proof (rule implements_session_scope)
  fix s :: "'a sys" and r t
  assume I: "repo_inv (sys_db s)"
  assume run: "bindP (select_profile i) (\<lambda>row. case row of None \<Rightarrow> raise ProfileNotFound
     | Some (p, l) \<Rightarrow> lift_result (row_record P p (lk_lookup_digest l))) s = (r, t)"
  from I show "sys_health t = sys_health s \<and>
    ((\<exists>a. r = Ok a) \<and> (r, sys_db t) \<in> {(case profile_of (sys_db s) i of
        None \<Rightarrow> Raise ProfileNotFound | Some r \<Rightarrow> Ok r, sys_db s)} \<or>
     (\<exists>e. r = Raise e) \<and> (r, sys_db s) \<in> {(case profile_of (sys_db s) i of
        None \<Rightarrow> Raise ProfileNotFound | Some r \<Rightarrow> Ok r, sys_db s)})"
  proof (cases rule: profile_of_cases [of _ i])
    case absent
    with run I show ?thesis by (auto simp: prog_simps select_profile_run)
  next
    case (present p l)
    with run I show ?thesis by (auto simp: prog_simps select_profile_run row_record_str)
  qed
qed

section \<open>State changes\<close>

definition apply_state_rec :: "profile_state \<Rightarrow> ustr option \<Rightarrow> int \<Rightarrow> profile_record \<Rightarrow> profile_record" where
  "apply_state_rec st err ts r = r\<lparr>rec_state := st, rec_updated_at := ts,
     rec_last_error_code := (if st = ERROR then err else None),
     rec_disabled_at := (if st = DISABLED then Some ts else None)\<rparr>"

definition apply_runtime_error_rec :: "ustr \<Rightarrow> int \<Rightarrow> profile_record \<Rightarrow> profile_record" where
  "apply_runtime_error_rec code ts r = r\<lparr>rec_last_error_code := Some code, rec_updated_at := ts\<rparr>"

lemma make_record_apply:
  "make_record i (apply_state st err ts p) d = apply_state_rec st err ts (make_record i p d)"
  "make_record i (apply_runtime_error code ts p) d = apply_runtime_error_rec code ts (make_record i p d)"
  by (simp_all add: make_record_def apply_state_def apply_state_rec_def apply_runtime_error_def
      apply_runtime_error_rec_def)

lemma same_profile_columns_apply:
  "same_profile_columns (apply_state st err ts)" "same_profile_columns (apply_runtime_error code ts)"
  "same_profile_columns (\<lambda>p. p\<lparr>pr_wrapped_profile_key := x\<rparr>)"
  by (simp_all add: same_profile_columns_def apply_state_def apply_runtime_error_def)

definition change_row :: "uuid \<Rightarrow> (profile_row \<Rightarrow> profile_row) \<Rightarrow> database \<Rightarrow> database" where
  "change_row i f db = profiles_update (row_update pr_id (uuid_str i) f) db"

lemma lookup_for_change_row [simp]: "lookup_for kind (change_row i f db) k = lookup_for kind db k"
  by (simp add: lookup_for_def change_row_def)

lemma profile_of_change_row:
  assumes "same_profile_columns f" and "\<And>p d. make_record i (f p) d = g (make_record i p d)"
  shows "profile_of (change_row i f db) = (profile_of db)(i := map_option g (profile_of db i))"
proof
  fix j
  have "row_find pr_id (uuid_str j) (profiles (change_row i f db)) =
     (if j = i then map_option f (row_find pr_id (uuid_str i) (profiles db))
      else row_find pr_id (uuid_str j) (profiles db))"
    using profile_table.find_update [of f "uuid_str j" "uuid_str i" db] assms(1)
    by (simp add: change_row_def same_profile_columns_def)
  then show "profile_of (change_row i f db) j = ((profile_of db)(i := map_option g (profile_of db i))) j"
    by (auto simp: profile_of_def assms(2) option.map_comp comp_def split: option.splits)
qed

lemma repo_inv_change_row:
  assumes "repo_inv db" and "same_profile_columns f"
    and "\<And>p. p \<in> set (profiles db) \<Longrightarrow> pr_id p = uuid_str i \<Longrightarrow>
      pr_disabled_at (f p) \<noteq> None \<longleftrightarrow> pr_state (f p) = DISABLED"
  shows "repo_inv (change_row i f db)"
  unfolding repo_inv_def
proof
  show "schema_ok (change_row i f db)"
    using assms by (simp add: change_row_def schema_ok_update_profile repo_inv_schema)
  show "\<forall>p \<in> set (profiles (change_row i f db)). row_inv (change_row i f db) p"
    using assms by (auto simp: repo_inv_def row_inv_def set_row_update same_profile_columns_def)
      (auto simp: change_row_def set_row_update)
qed

definition transition_legal :: "profile_state \<Rightarrow> profile_state \<Rightarrow> bool" where
  "transition_legal a b \<longleftrightarrow> a = b \<or> b \<in> set (legal_transitions a)"

definition set_state_spec :: "uuid \<Rightarrow> profile_state \<Rightarrow> ustr option \<Rightarrow> database \<Rightarrow> (profile_record outcome \<times> database) set" where
  "set_state_spec i st err db = (case profile_of db i of
     None \<Rightarrow> {(Raise ProfileNotFound, db)}
   | Some r \<Rightarrow> if transition_legal (rec_state r) st
       then {(Ok (apply_state_rec st err ts r), change_row i (apply_state st err ts) db) | ts. True}
       else {(Raise InvalidProfileTransition, db)})"

lemma set_state_refines: "implements P repo_inv (set_state P i st err) (set_state_spec i st err)"
  unfolding set_state_def
proof (rule implements_world_then [OF now_utc_run implements_session_scope])
  fix ts and s :: "'a sys" and r t
  assume I: "repo_inv (sys_db s)"
  let ?F = "set_state_spec i st err (sys_db s)"
  assume run: "bindP (select_profile i) (\<lambda>row. case row of None \<Rightarrow> raise ProfileNotFound
     | Some (p, l) \<Rightarrow>
         if pr_state p \<noteq> st \<and> st \<notin> set (legal_transitions (pr_state p)) then raise InvalidProfileTransition
         else bindP (db_update (profiles_update (row_update pr_id (pr_id p) (apply_state st err ts)))) (\<lambda>_.
           lift_result (row_record P (apply_state st err ts p) (lk_lookup_digest l)))) s = (r, t)"
  from I show "sys_health t = sys_health s \<and> ((\<exists>a. r = Ok a) \<and> (r, sys_db t) \<in> ?F
     \<or> (\<exists>e. r = Raise e) \<and> (r, sys_db s) \<in> ?F)"
  proof (cases rule: profile_of_cases [of _ i])
    case absent
    with run I show ?thesis by (auto simp: prog_simps select_profile_run set_state_spec_def)
  next
    case (present p l)
    have "pr_id (apply_state st err ts p) = uuid_str i" using present by (simp add: apply_state_def)
    note rec = row_record_str [OF this, of P "lk_lookup_digest l"]
    show ?thesis
    proof (cases "transition_legal (pr_state p) st")
      case True
      then have "\<not> (pr_state p \<noteq> st \<and> st \<notin> set (legal_transitions (pr_state p)))"
        by (auto simp: transition_legal_def)
      with run I present rec True show ?thesis
        by (auto simp: prog_simps select_profile_run set_state_spec_def make_record_apply change_row_def rec_state_make)
    next
      case False
      with run I present show ?thesis
        by (auto simp: prog_simps select_profile_run set_state_spec_def transition_legal_def rec_state_make)
    qed
  qed
qed

definition set_runtime_error_spec :: "'w platform \<Rightarrow> uuid \<Rightarrow> ustr \<Rightarrow> database \<Rightarrow> (profile_record outcome \<times> database) set" where
  "set_runtime_error_spec P i code db = (if \<not> valid_error_code P code then {(Raise ValueError, db)}
     else case profile_of db i of
       None \<Rightarrow> {(Raise ProfileNotFound, db)}
     | Some r \<Rightarrow> {(Ok (apply_runtime_error_rec code ts r), change_row i (apply_runtime_error code ts) db) | ts. True})"

lemma set_runtime_error_refines:
  "implements P repo_inv (set_runtime_error P i code) (set_runtime_error_spec P i code)"
proof (cases "valid_error_code P code")
  case False
  then show ?thesis
    by (auto simp: implements_def set_runtime_error_def set_runtime_error_spec_def prog_simps)
next
  case True
  have "implements P repo_inv (bindP (now_utc P) (\<lambda>ts.
       session_scope P (bindP (select_profile i) (\<lambda>row. case row of
         None \<Rightarrow> raise ProfileNotFound
       | Some (p, l) \<Rightarrow>
           bindP (db_update (profiles_update (row_update pr_id (pr_id p) (apply_runtime_error code ts)))) (\<lambda>_.
           lift_result (row_record P (apply_runtime_error code ts p) (lk_lookup_digest l))))))
      ) (set_runtime_error_spec P i code)"
  proof (rule implements_world_then [OF now_utc_run implements_session_scope])
    fix ts and s :: "'a sys" and r t
    assume I: "repo_inv (sys_db s)"
    let ?F = "set_runtime_error_spec P i code (sys_db s)"
    assume run: "bindP (select_profile i) (\<lambda>row. case row of None \<Rightarrow> raise ProfileNotFound
       | Some (p, l) \<Rightarrow>
           bindP (db_update (profiles_update (row_update pr_id (pr_id p) (apply_runtime_error code ts)))) (\<lambda>_.
           lift_result (row_record P (apply_runtime_error code ts p) (lk_lookup_digest l)))) s = (r, t)"
    from I show "sys_health t = sys_health s \<and> ((\<exists>a. r = Ok a) \<and> (r, sys_db t) \<in> ?F
       \<or> (\<exists>e. r = Raise e) \<and> (r, sys_db s) \<in> ?F)"
    proof (cases rule: profile_of_cases [of _ i])
      case absent
      with run I True show ?thesis by (auto simp: prog_simps select_profile_run set_runtime_error_spec_def)
    next
      case (present p l)
      have "pr_id (apply_runtime_error code ts p) = uuid_str i"
        using present by (simp add: apply_runtime_error_def)
      from row_record_str [OF this, of P "lk_lookup_digest l"] run I present True show ?thesis
        by (auto simp: prog_simps select_profile_run set_runtime_error_spec_def make_record_apply change_row_def)
    qed
  qed
  with True show ?thesis by (simp add: set_runtime_error_def)
qed

text \<open>Both keep the invariant.\<close>

lemma repo_inv_apply_state: "repo_inv db \<Longrightarrow> repo_inv (change_row i (apply_state st err ts) db)"
  by (rule repo_inv_change_row) (auto simp: same_profile_columns_apply apply_state_def)

lemma repo_inv_apply_runtime_error: "repo_inv db \<Longrightarrow> repo_inv (change_row i (apply_runtime_error code ts) db)"
proof (rule repo_inv_change_row)
  fix p assume "repo_inv db" "p \<in> set (profiles db)"
  from repo_inv_row [OF this]
  show "(pr_disabled_at (apply_runtime_error code ts p) \<noteq> None) = (pr_state (apply_runtime_error code ts p) = DISABLED)"
    by (simp add: row_inv_def apply_runtime_error_def)
qed (auto simp: same_profile_columns_apply)

lemma set_state_spec_inv: "repo_inv db \<Longrightarrow> (r, db') \<in> set_state_spec i st err db \<Longrightarrow> repo_inv db'"
  by (auto simp: set_state_spec_def repo_inv_apply_state split: option.splits if_splits)

lemma set_runtime_error_spec_inv: "repo_inv db \<Longrightarrow> (r, db') \<in> set_runtime_error_spec P i code db \<Longrightarrow> repo_inv db'"
  by (auto simp: set_runtime_error_spec_def repo_inv_apply_runtime_error split: option.splits if_splits)

lemma profile_of_apply_state:
  "profile_of (change_row i (apply_state st err ts) db)
     = (profile_of db)(i := map_option (apply_state_rec st err ts) (profile_of db i))"
  by (rule profile_of_change_row) (simp_all add: same_profile_columns_apply make_record_apply)

lemma profile_of_apply_runtime_error:
  "profile_of (change_row i (apply_runtime_error code ts) db)
     = (profile_of db)(i := map_option (apply_runtime_error_rec code ts) (profile_of db i))"
  by (rule profile_of_change_row) (simp_all add: same_profile_columns_apply make_record_apply)

end
