(* ===== verification/Repository_Store.thy ===== *)
theory Repository_Store
  imports Repository_Facts
begin

text \<open>
  The remaining operations of the profile store (listing, the two lookups by secret, insertion and
  deletion), and the interface \<open>profile_store\<close> that its clients program against, with the
  interpretation on the repository.
\<close>

section \<open>Listing\<close>

lemma insort_key_map: "insort_key k (f x) (map f xs) = map f (insort_key (\<lambda>y. k (f y)) x xs)"
  by (induction xs) auto

lemma sort_key_map: "sort_key k (map f xs) = map f (sort_key (\<lambda>y. k (f y)) xs)"
  by (induction xs) (auto simp: insort_key_map)

lemma filter_row_find:
  "distinct (map key rs) \<Longrightarrow> filter (\<lambda>r. key r = k) rs = (case row_find key k rs of None \<Rightarrow> [] | Some r \<Rightarrow> [r])"
proof (cases "row_find key k rs")
  case None
  then have "filter (\<lambda>r. key r = k) rs = []" by (force simp: row_find_None filter_empty_conv)
  with None show ?thesis by simp
next
  case (Some r)
  assume "distinct (map key rs)"
  with Some show ?thesis using filter_unique [of key rs r] by (auto dest: row_find_SomeD)
qed

definition row_uuid :: "profile_row \<Rightarrow> uuid" where
  "row_uuid p = (case uuid_parse (\<lambda>_. None) (pr_id p) of Inl _ \<Rightarrow> 0 | Inr u \<Rightarrow> u)"

definition digest_of :: "ustr \<Rightarrow> database \<Rightarrow> profile_row \<Rightarrow> bytes" where
  "digest_of kind db p = lk_lookup_digest (the (lookup_for kind db (pr_id p)))"

definition record_of :: "database \<Rightarrow> profile_row \<Rightarrow> profile_record" where
  "record_of db p = make_record (row_uuid p) p (digest_of SUBSCRIPTION_LOOKUP_KIND db p)"

definition records_of :: "database \<Rightarrow> profile_record list" where
  "records_of db = map (record_of db) (sort_key (\<lambda>p. (pr_created_at p, pr_id p)) (profiles db))"

lemma row_uuid_str: "repo_inv db \<Longrightarrow> p \<in> set (profiles db) \<Longrightarrow> pr_id p = uuid_str (row_uuid p)"
  using repo_inv_row [of db p] by (auto simp: row_inv_def row_uuid_def)

lemma record_of_profile_of:
  assumes "repo_inv db" and "p \<in> set (profiles db)"
  shows "profile_of db (row_uuid p) = Some (record_of db p)"
proof -
  have "row_find pr_id (pr_id p) (profiles db) = Some p"
    by (rule row_find_unique [OF schema_distinct(1) [OF repo_inv_schema [OF assms(1)]] assms(2)])
  moreover obtain l where "lookup_for SUBSCRIPTION_LOOKUP_KIND db (pr_id p) = Some l"
    using repo_inv_row [OF assms] by (auto simp: row_inv_def)
  ultimately show ?thesis
    using row_uuid_str [OF assms] by (simp add: profile_of_def record_of_def digest_of_def)
qed

lemma profile_of_record_of:
  assumes "repo_inv db" and "profile_of db i = Some r"
  obtains p where "p \<in> set (profiles db)" "row_uuid p = i" "record_of db p = r"
proof -
  from assms(1) show ?thesis
  proof (cases rule: profile_of_cases [of _ i])
    case absent
    with assms show ?thesis by simp
  next
    case (present p l)
    then have "row_uuid p = i" by (simp add: row_uuid_def)
    with present assms(2) that show ?thesis by (simp add: record_of_def digest_of_def)
  qed
qed

lemma set_records_of: "repo_inv db \<Longrightarrow> r \<in> set (records_of db) \<longleftrightarrow> profile_of db (rec_profile_id r) = Some r"
proof
  assume I: "repo_inv db" and "r \<in> set (records_of db)"
  then obtain p where "p \<in> set (profiles db)" "r = record_of db p" by (auto simp: records_of_def)
  with record_of_profile_of [OF I] show "profile_of db (rec_profile_id r) = Some r"
    by (simp add: record_of_def)
next
  assume I: "repo_inv db" and r: "profile_of db (rec_profile_id r) = Some r"
  from profile_of_record_of [OF this] show "r \<in> set (records_of db)"
    by (metis image_eqI list.set_map records_of_def set_sort)
qed

lemma records_of_distinct:
  assumes "repo_inv db"
  shows "distinct (map rec_profile_id (records_of db))" "distinct (map rec_runtime_id (records_of db))"
proof -
  note d = schema_distinct [OF repo_inv_schema [OF assms]]
  let ?s = "sort_key (\<lambda>p. (pr_created_at p, pr_id p)) (profiles db)"
  have "inj_on row_uuid (set (profiles db))"
    using d(1) row_uuid_str [OF assms] by (auto simp: distinct_map inj_on_def)
  then show "distinct (map rec_profile_id (records_of db))"
    using d(1) by (simp add: records_of_def comp_def record_of_def distinct_map)
  show "distinct (map rec_runtime_id (records_of db))"
    using d(2) by (simp add: records_of_def comp_def record_of_def distinct_map)
qed

lemma map_records_rows:
  assumes "repo_inv db" and "set ps \<subseteq> set (profiles db)"
  shows "map_records P (map (\<lambda>p. (p, the (lookup_for SUBSCRIPTION_LOOKUP_KIND db (pr_id p)))) ps)
       = Inr (map (record_of db) ps)"
  using assms(2)
proof (induction ps)
  case Nil
  then show ?case by simp
next
  case (Cons p ps)
  then have "pr_id p = uuid_str (row_uuid p)" by (simp add: row_uuid_str [OF assms(1)])
  from row_record_str [OF this, of P] Cons show ?case by (simp add: record_of_def digest_of_def)
qed

lemma repo_list_refines: "implements P repo_inv (repo_list P) (\<lambda>db. {(Ok (records_of db), db)})"
  unfolding repo_list_def
proof (rule implements_session_scope)
  fix s :: "'a sys" and r t
  assume I: "repo_inv (sys_db s)"
  have "map_records P (sort_key (\<lambda>(p, l). (pr_created_at p, pr_id p)) (joined SUBSCRIPTION_LOOKUP_KIND (sys_db s)))
      = Inr (records_of (sys_db s))"
    using I by (simp add: joined_eq sort_key_map map_records_rows records_of_def)
  moreover assume "bindP get_db (\<lambda>db. lift_result (map_records P
     (sort_key (\<lambda>(p, l). (pr_created_at p, pr_id p)) (joined SUBSCRIPTION_LOOKUP_KIND db)))) s = (r, t)"
  ultimately show "sys_health t = sys_health s \<and> ((\<exists>a. r = Ok a) \<and> (r, sys_db t) \<in> {(Ok (records_of (sys_db s)), sys_db s)}
     \<or> (\<exists>e. r = Raise e) \<and> (r, sys_db s) \<in> {(Ok (records_of (sys_db s)), sys_db s)})"
    by (auto simp: prog_simps)
qed

section \<open>Lookups by secret\<close>

text \<open>The profile whose lookup of the given kind carries the digest.\<close>

definition owner_of :: "ustr \<Rightarrow> database \<Rightarrow> bytes \<Rightarrow> profile_record option" where
  "owner_of kind db digest = map_option (record_of db) (row_find (digest_of kind db) digest (profiles db))"

lemma digest_of_distinct:
  assumes "repo_inv db" and "kind = SUBSCRIPTION_LOOKUP_KIND \<or> kind = HYSTERIA_LOOKUP_KIND"
  shows "distinct (map (digest_of kind db) (profiles db))"
proof -
  note d = schema_distinct [OF repo_inv_schema [OF assms(1)]]
  have "inj_on (digest_of kind db) (set (profiles db))"
  proof (rule inj_onI)
    fix p q assume p: "p \<in> set (profiles db)" and q: "q \<in> set (profiles db)"
      and eq: "digest_of kind db p = digest_of kind db q"
    obtain l m where l: "lookup_for kind db (pr_id p) = Some l" and m: "lookup_for kind db (pr_id q) = Some m"
      using repo_inv_row [OF assms(1) p] repo_inv_row [OF assms(1) q] assms(2) by (auto simp: row_inv_def)
    then have "lk_lookup_digest l = lk_lookup_digest m" using eq by (simp add: digest_of_def)
    with d(4) lookup_for_SomeD [OF l] lookup_for_SomeD [OF m] have "l = m"
      by (auto simp: distinct_map inj_on_def)
    with lookup_for_SomeD [OF l] lookup_for_SomeD [OF m] have "pr_id p = pr_id q" by simp
    with d(1) p q show "p = q" by (auto simp: distinct_map inj_on_def)
  qed
  with d(1) show ?thesis by (simp add: distinct_map)
qed

lemma owner_of_iff:
  assumes "repo_inv db"
  shows "owner_of SUBSCRIPTION_LOOKUP_KIND db digest = Some r \<longleftrightarrow>
     profile_of db (rec_profile_id r) = Some r \<and> rec_subscription_lookup_digest r = digest"
proof
  assume "owner_of SUBSCRIPTION_LOOKUP_KIND db digest = Some r"
  then obtain p where "p \<in> set (profiles db)" "digest_of SUBSCRIPTION_LOOKUP_KIND db p = digest" "r = record_of db p"
    by (auto simp: owner_of_def dest: row_find_SomeD)
  with record_of_profile_of [OF assms] show "profile_of db (rec_profile_id r) = Some r \<and> rec_subscription_lookup_digest r = digest"
    by (simp add: record_of_def make_record_def)
next
  assume r: "profile_of db (rec_profile_id r) = Some r \<and> rec_subscription_lookup_digest r = digest"
  then obtain p where p: "p \<in> set (profiles db)" "record_of db p = r"
    using profile_of_record_of [OF assms] by metis
  then have "digest_of SUBSCRIPTION_LOOKUP_KIND db p = digest"
    using r by (auto simp: record_of_def make_record_def)
  with p row_find_unique [OF digest_of_distinct [OF assms, of SUBSCRIPTION_LOOKUP_KIND] p(1)]
  show "owner_of SUBSCRIPTION_LOOKUP_KIND db digest = Some r" by (simp add: owner_of_def)
qed

lemma filter_joined_digest:
  assumes "repo_inv db" and "kind = SUBSCRIPTION_LOOKUP_KIND \<or> kind = HYSTERIA_LOOKUP_KIND"
  shows "filter (\<lambda>(p, l). lk_lookup_digest l = digest) (joined kind db)
     = (case row_find (digest_of kind db) digest (profiles db) of None \<Rightarrow> []
        | Some p \<Rightarrow> [(p, the (lookup_for kind db (pr_id p)))])"
proof -
  have "filter (\<lambda>(p, l). lk_lookup_digest l = digest) (joined kind db)
      = map (\<lambda>p. (p, the (lookup_for kind db (pr_id p)))) (filter (\<lambda>p. digest_of kind db p = digest) (profiles db))"
    unfolding joined_eq [OF assms] digest_of_def by (simp add: filter_map comp_def)
  then show ?thesis
    using filter_row_find [OF digest_of_distinct [OF assms], of digest] by (simp split: option.splits)
qed

lemma find_by_subscription_token_refines:
  "implements P repo_inv (find_by_subscription_token P c token)
     (\<lambda>db. {(Ok (if 1 \<le> length token \<and> length token \<le> 128 \<and> isascii token
        then owner_of SUBSCRIPTION_LOOKUP_KIND db (lookup_digest P c (ascii_bytes token)) else None), db)})"
proof (cases "1 \<le> length token \<and> length token \<le> 128 \<and> isascii token")
  case False
  then show ?thesis by (auto simp: implements_def find_by_subscription_token_def prog_simps)
next
  case True
  let ?d = "lookup_digest P c (ascii_bytes token)"
  let ?body = "bindP get_db (\<lambda>db.
      bindP (one_or_none (filter (\<lambda>(p, l). lk_lookup_digest l = ?d) (joined SUBSCRIPTION_LOOKUP_KIND db))) (\<lambda>row.
        case row of None \<Rightarrow> ret None
        | Some (p, l) \<Rightarrow> if lk_lookup_digest l \<noteq> ?d then ret None
            else bindP (lift_result (row_record P p (lk_lookup_digest l))) (\<lambda>r. ret (Some r))))"
  have "implements P repo_inv (session_scope P ?body) (\<lambda>db. {(Ok (owner_of SUBSCRIPTION_LOOKUP_KIND db ?d), db)})"
  proof (rule implements_session_scope)
    fix s :: "'a sys" and r t
    assume I: "repo_inv (sys_db s)" and run: "?body s = (r, t)"
    show "sys_health t = sys_health s \<and>
      ((\<exists>a. r = Ok a) \<and> (r, sys_db t) \<in> {(Ok (owner_of SUBSCRIPTION_LOOKUP_KIND (sys_db s) ?d), sys_db s)} \<or>
       (\<exists>e. r = Raise e) \<and> (r, sys_db s) \<in> {(Ok (owner_of SUBSCRIPTION_LOOKUP_KIND (sys_db s) ?d), sys_db s)})"
    proof (cases "row_find (digest_of SUBSCRIPTION_LOOKUP_KIND (sys_db s)) ?d (profiles (sys_db s))")
      case None
      with run I show ?thesis by (auto simp: prog_simps filter_joined_digest owner_of_def)
    next
      case (Some p)
      then have p: "p \<in> set (profiles (sys_db s))" "digest_of SUBSCRIPTION_LOOKUP_KIND (sys_db s) p = ?d"
        by (auto dest: row_find_SomeD)
      from row_record_str [OF row_uuid_str [OF I p(1)], of P ?d] Some run I p(2) show ?thesis
        by (auto simp: prog_simps filter_joined_digest owner_of_def record_of_def digest_of_def)
    qed
  qed
  with True show ?thesis by (simp add: find_by_subscription_token_def Let_def)
qed

lemma auth_joined_eq:
  assumes "repo_inv db"
  shows "auth_joined db = map (\<lambda>p. (p, the (lookup_for HYSTERIA_LOOKUP_KIND db (pr_id p)),
     the (lookup_for SUBSCRIPTION_LOOKUP_KIND db (pr_id p)))) (profiles db)"
proof -
  have "map (\<lambda>l. (p, a, l)) (filter (\<lambda>l. lk_profile_id l = pr_id p \<and> lk_kind l = SUBSCRIPTION_LOOKUP_KIND) (profile_lookups db))
      = [(p, a, the (lookup_for SUBSCRIPTION_LOOKUP_KIND db (pr_id p)))]" if "p \<in> set (profiles db)" for p a
    using repo_inv_row [OF assms that] assms by (auto simp: lookup_for_filter repo_inv_schema row_inv_def)
  then have "auth_joined db = concat (map (\<lambda>p. [(p, the (lookup_for HYSTERIA_LOOKUP_KIND db (pr_id p)),
       the (lookup_for SUBSCRIPTION_LOOKUP_KIND db (pr_id p)))]) (profiles db))"
    unfolding auth_joined_def joined_eq [OF assms disjI2 [OF refl]] map_map comp_def
    by (intro arg_cong [where f = concat] map_cong) auto
  then show ?thesis by simp
qed

lemma find_by_hysteria_secret_refines:
  "implements P repo_inv (find_by_hysteria_secret P c presented)
     (\<lambda>db. {(Ok (if 1 \<le> length presented \<and> length presented \<le> 512 \<and> isascii presented
        then owner_of HYSTERIA_LOOKUP_KIND db (lookup_digest P c (HYSTERIA_LOOKUP_PREFIX @ ascii_bytes presented))
        else None), db)})"
proof (cases "1 \<le> length presented \<and> length presented \<le> 512 \<and> isascii presented")
  case False
  then show ?thesis by (auto simp: implements_def find_by_hysteria_secret_def prog_simps)
next
  case True
  let ?d = "lookup_digest P c (HYSTERIA_LOOKUP_PREFIX @ ascii_bytes presented)"
  let ?body = "bindP get_db (\<lambda>db.
      bindP (one_or_none (filter (\<lambda>(p, a, l). lk_lookup_digest a = ?d) (auth_joined db))) (\<lambda>row.
        case row of None \<Rightarrow> ret None
        | Some (p, a, l) \<Rightarrow> if lk_lookup_digest a \<noteq> ?d then ret None
            else bindP (lift_result (row_record P p (lk_lookup_digest l))) (\<lambda>r. ret (Some r))))"
  have "implements P repo_inv (session_scope P ?body) (\<lambda>db. {(Ok (owner_of HYSTERIA_LOOKUP_KIND db ?d), db)})"
  proof (rule implements_session_scope)
    fix s :: "'a sys" and r t
    assume I: "repo_inv (sys_db s)" and run: "?body s = (r, t)"
    have rows: "filter (\<lambda>(p, a, l). lk_lookup_digest a = ?d) (auth_joined (sys_db s))
        = map (\<lambda>p. (p, the (lookup_for HYSTERIA_LOOKUP_KIND (sys_db s) (pr_id p)),
            the (lookup_for SUBSCRIPTION_LOOKUP_KIND (sys_db s) (pr_id p))))
          (case row_find (digest_of HYSTERIA_LOOKUP_KIND (sys_db s)) ?d (profiles (sys_db s)) of None \<Rightarrow> [] | Some p \<Rightarrow> [p])"
      unfolding auth_joined_eq [OF I]
        filter_row_find [OF digest_of_distinct [OF I disjI2 [OF refl]], of ?d, symmetric]
      by (simp add: filter_map comp_def digest_of_def)
    show "sys_health t = sys_health s \<and>
      ((\<exists>a. r = Ok a) \<and> (r, sys_db t) \<in> {(Ok (owner_of HYSTERIA_LOOKUP_KIND (sys_db s) ?d), sys_db s)} \<or>
       (\<exists>e. r = Raise e) \<and> (r, sys_db s) \<in> {(Ok (owner_of HYSTERIA_LOOKUP_KIND (sys_db s) ?d), sys_db s)})"
    proof (cases "row_find (digest_of HYSTERIA_LOOKUP_KIND (sys_db s)) ?d (profiles (sys_db s))")
      case None
      with run rows show ?thesis by (auto simp: prog_simps owner_of_def)
    next
      case (Some p)
      then have p: "p \<in> set (profiles (sys_db s))" "digest_of HYSTERIA_LOOKUP_KIND (sys_db s) p = ?d"
        by (auto dest: row_find_SomeD)
      from row_record_str [OF row_uuid_str [OF I p(1)], of P "digest_of SUBSCRIPTION_LOOKUP_KIND (sys_db s) p"]
        Some run rows p(2) show ?thesis
        by (auto simp: prog_simps owner_of_def record_of_def digest_of_def)
    qed
  qed
  with True show ?thesis
    by (simp add: find_by_hysteria_secret_def hysteria_lookup_value_def Let_def bindP_def lift_result_def
        implements_def)
qed

section \<open>Insertion\<close>

fun rename_exn :: "exn \<Rightarrow> exn \<Rightarrow> 'a outcome \<Rightarrow> 'a outcome" where
  "rename_exn a b (Raise e) = Raise (if e = a then b else e)"
| "rename_exn a b r = r"

lemma implements_rename:
  assumes "implements P I m F" and "a \<noteq> OperationalError"
  shows "implements P I (catch m (\<lambda>e. if e = a then raise b else raise e))
     (\<lambda>db. (\<lambda>(r, db'). (rename_exn a b r, db')) ` F db)"
  unfolding implements_def
proof (intro allI impI)
  fix s r t
  assume I: "I (sys_db s)" and run: "catch m (\<lambda>e. if e = a then raise b else raise e) s = (r, t)"
  obtain r1 s1 where m: "m s = (r1, s1)" by fastforce
  from run m have "r = rename_exn a b r1" "t = s1" by (cases r1; auto simp: prog_simps split: if_splits)+
  with implementsD [OF assms(1) I m] assms(2)
  show "sys_health t = sys_health s \<and> ((r, sys_db t) \<in> (\<lambda>(r, db'). (rename_exn a b r, db')) ` F (sys_db s)
      \<or> \<not> storage_ok P \<and> r = Raise OperationalError \<and> sys_db t = sys_db s)"
    by force
qed

text \<open>
  What \<open>insert_pending\<close> may do: store the material as a pending profile, or report a conflict with
  a stored profile (or a constraint) and store nothing.
\<close>

definition new_record :: "new_profile_material \<Rightarrow> int \<Rightarrow> profile_record" where
  "new_record m ts = make_record (nm_profile_id m) (new_profile_row m ts) (nm_subscription_lookup_digest m)"

definition insert_spec :: "new_profile_material \<Rightarrow> database \<Rightarrow> (profile_record outcome \<times> database) set" where
  "insert_spec m db =
     {(Ok (new_record m t1), db') | sid hid t1 t2 t3 db'. add_profile m sid hid t1 t2 t3 db = Inr db'}
   \<union> {(Raise ProfileConflict, db) | sid hid t1 t2 t3 e. add_profile m sid hid t1 t2 t3 db = Inl e}"

lemma add_profile_error: "add_profile m sid hid t1 t2 t3 db = Inl e \<Longrightarrow> e = IntegrityError"
  by (auto simp: add_profile_def bind_sum_def insert_error split: sum.splits)

lemma insert_pending_refines: "implements P repo_inv (insert_pending P m) (insert_spec m)"
  unfolding insert_pending_def
proof (rule implements_world_then [OF world_call_shape implements_world_then [OF world_call_shape]])
  fix sid hid
  let ?F = "\<lambda>db. {(Ok (new_record m t1), db') | t1 t2 t3 db'. add_profile m sid hid t1 t2 t3 db = Inr db'}
     \<union> {(Raise e, db) | t1 t2 t3 e. add_profile m sid hid t1 t2 t3 db = Inl e}"
  let ?body = "bindP (world_call (sql_current_timestamp P)) (\<lambda>t1. bindP (world_call (sql_current_timestamp P)) (\<lambda>t2.
     bindP (world_call (sql_current_timestamp P)) (\<lambda>t3. bindP (db_statement (add_profile m sid hid t1 t2 t3)) (\<lambda>_.
     lift_result (row_record P (new_profile_row m t1) (nm_subscription_lookup_digest m))))))"
  have scope: "implements P repo_inv (session_scope P ?body) ?F"
  proof (rule implements_session_scope)
    fix s :: "'a sys" and r t
    assume run: "?body s = (r, t)"
    have rec: "row_record P (new_profile_row m ts) (nm_subscription_lookup_digest m) = Inr (new_record m ts)" for ts
      unfolding new_record_def by (rule row_record_str) (simp add: new_profile_row_def)
    obtain t1 w1 where 1: "sql_current_timestamp P (sys_world s) = (t1, w1)" by fastforce
    obtain t2 w2 where 2: "sql_current_timestamp P w1 = (t2, w2)" by fastforce
    obtain t3 w3 where 3: "sql_current_timestamp P w2 = (t3, w3)" by fastforce
    show "sys_health t = sys_health s \<and>
      ((\<exists>a. r = Ok a) \<and> (r, sys_db t) \<in> ?F (sys_db s) \<or> (\<exists>e. r = Raise e) \<and> (r, sys_db s) \<in> ?F (sys_db s))"
    proof (cases "add_profile m sid hid t1 t2 t3 (sys_db s)")
      case (Inl e)
      with run 1 2 3 show ?thesis by (auto simp: prog_simps)
    next
      case (Inr db')
      with run 1 2 3 rec show ?thesis by (fastforce simp: prog_simps)
    qed
  qed
  show "implements P repo_inv (catch (session_scope P ?body)
     (\<lambda>e. if e = IntegrityError then raise ProfileConflict else raise e)) (insert_spec m)"
    by (rule implements_mono [OF implements_rename [OF scope]])
      (auto simp: insert_spec_def dest: add_profile_error)
qed

lemma add_profile_tables:
  assumes "add_profile m sid hid t1 t2 t3 db = Inr db'"
  defines "p \<equiv> new_profile_row m t1"
    and "l \<equiv> new_lookup_row sid (nm_profile_id m) SUBSCRIPTION_LOOKUP_KIND (nm_subscription_lookup_digest m) t2"
    and "h \<equiv> new_lookup_row hid (nm_profile_id m) HYSTERIA_LOOKUP_KIND (nm_hysteria_lookup_digest m) t3"
  shows "db' = profile_lookups_update (\<lambda>ls. ls @ [l, h]) (profiles_update (\<lambda>ps. ps @ [p]) db)"
    and "pr_id p \<notin> pr_id ` set (profiles db)"
    and "lookup_key_of l \<notin> lookup_key_of ` set (profile_lookups db)"
    and "lookup_key_of h \<notin> lookup_key_of ` set (profile_lookups db)"
    and "schema_ok db \<Longrightarrow> schema_ok db'"
proof -
  from assms(1) obtain db1 db2 where i: "insert_profile p db = Inr db1" "insert_lookup l db1 = Inr db2"
    "insert_lookup h db2 = Inr db'" by (auto simp: add_profile_def bind_sum_eq_Inr p_def l_def h_def)
  then show "db' = profile_lookups_update (\<lambda>ls. ls @ [l, h]) (profiles_update (\<lambda>ps. ps @ [p]) db)"
    "pr_id p \<notin> pr_id ` set (profiles db)" "lookup_key_of l \<notin> lookup_key_of ` set (profile_lookups db)"
    "lookup_key_of h \<notin> lookup_key_of ` set (profile_lookups db)"
    by (auto simp: insert_defs lookup_key_of_def split: if_splits)
  show "schema_ok db \<Longrightarrow> schema_ok db'"
    using i by (blast dest: schema_ok_insert)
qed

lemma lookup_for_append:
  "lookup_for kind (profile_lookups_update (\<lambda>ls. ls @ ms) db) k
     = (case lookup_for kind db k of Some l \<Rightarrow> Some l | None \<Rightarrow> row_find lookup_key_of (k, kind) ms)"
  by (simp add: lookup_for_def row_find_append)

lemma lookup_kinds_distinct [simp]: "SUBSCRIPTION_LOOKUP_KIND \<noteq> HYSTERIA_LOOKUP_KIND"
  "HYSTERIA_LOOKUP_KIND \<noteq> SUBSCRIPTION_LOOKUP_KIND"
  by (simp_all add: SUBSCRIPTION_LOOKUP_KIND_def HYSTERIA_LOOKUP_KIND_def U_def)

lemma lookup_for_profiles [simp]: "lookup_for kind (profiles_update f db) k = lookup_for kind db k"
  by (simp add: lookup_for_def)

text \<open>
  A profile that is new to the store has no lookup rows, so the stored view gains exactly the new
  record, and every other profile reads as before.
\<close>

lemma add_profile_view:
  assumes I: "repo_inv db" and add: "add_profile m sid hid t1 t2 t3 db = Inr db'"
  shows "profile_of db' = (profile_of db)(nm_profile_id m \<mapsto> new_record m t1)" and "profile_of db (nm_profile_id m) = None"
    and "repo_inv db'"
proof -
  let ?i = "uuid_str (nm_profile_id m)"
  note f = add_profile_tables [OF add]
  have fresh: "row_find pr_id ?i (profiles db) = None"
    using f(2) by (simp add: row_find_None new_profile_row_def)
  have none: "lookup_for SUBSCRIPTION_LOOKUP_KIND db ?i = None" "lookup_for HYSTERIA_LOOKUP_KIND db ?i = None"
    using f(3,4) by (auto simp: lookup_for_def row_find_None lookup_key_of_def new_lookup_row_def)
  show new: "profile_of db (nm_profile_id m) = None"
    using fresh by (simp add: profile_of_def)
  have keep: "lookup_for kind db' (uuid_str j) = lookup_for kind db (uuid_str j)" if "j \<noteq> nm_profile_id m" for j kind
    using that by (auto simp: f(1) lookup_for_append row_find_def lookup_key_of_def new_lookup_row_def split: option.splits)
  have got: "\<exists>l. lookup_for SUBSCRIPTION_LOOKUP_KIND db' ?i = Some l \<and> lk_lookup_digest l = nm_subscription_lookup_digest m"
    "lookup_for HYSTERIA_LOOKUP_KIND db' ?i \<noteq> None"
    using none by (simp_all add: f(1) lookup_for_append row_find_def lookup_key_of_def new_lookup_row_def)
  show "profile_of db' = (profile_of db)(nm_profile_id m \<mapsto> new_record m t1)"
  proof
    fix j
    show "profile_of db' j = ((profile_of db)(nm_profile_id m \<mapsto> new_record m t1)) j"
    proof (cases "j = nm_profile_id m")
      case True
      with got fresh show ?thesis
        by (auto simp: profile_of_def new_record_def f(1) row_find_append_new new_profile_row_def)
    next
      case False
      then have "row_find pr_id (uuid_str j) (profiles db') = row_find pr_id (uuid_str j) (profiles db)"
        by (auto simp: f(1) row_find_append_new new_profile_row_def split: option.splits)
      with keep [OF False] False show ?thesis by (simp add: profile_of_def split: option.splits)
    qed
  qed
  have "row_inv db' p" if p: "p \<in> set (profiles db)" for p
  proof -
    from repo_inv_row [OF I p] obtain j where j: "pr_id p = uuid_str j" by (auto simp: row_inv_def)
    with p fresh have "j \<noteq> nm_profile_id m" unfolding row_find_None by (metis imageI)
    from keep [OF this] j repo_inv_row [OF I p] show ?thesis by (simp add: row_inv_def)
  qed
  moreover have "row_inv db' (new_profile_row m t1)"
    using got by (auto simp: row_inv_def new_profile_row_def)
  ultimately show "repo_inv db'"
    using f(5) I by (auto simp: repo_inv_def) (auto simp: f(1))
qed

section \<open>Deletion\<close>

definition delete_spec :: "uuid \<Rightarrow> database \<Rightarrow> (unit outcome \<times> database) set" where
  "delete_spec i db = (case profile_of db i of None \<Rightarrow> {(Raise ProfileNotFound, db)}
     | Some r \<Rightarrow> {(Ok (), db') | eid ts db'. insert_audit (deletion_event eid ts) (remove_profile (uuid_str i) db) = Inr db'}
        \<union> {(Raise IntegrityError, db)})"

lemma delete_local_refines: "implements P repo_inv (delete_local P i) (delete_spec i)"
  unfolding delete_local_def
proof (rule implements_session_scope)
  fix s :: "'a sys" and r t
  assume I: "repo_inv (sys_db s)"
  let ?F = "delete_spec i (sys_db s)"
  assume run: "bindP get_db (\<lambda>db. case row_find pr_id (uuid_str i) (profiles db) of
       None \<Rightarrow> raise ProfileNotFound
     | Some p \<Rightarrow> bindP (db_update (remove_profile (pr_id p))) (\<lambda>_.
         bindP (world_call (os_uuid4 P)) (\<lambda>eid. bindP (world_call (sql_current_timestamp P)) (\<lambda>ts.
         db_statement (insert_audit (deletion_event eid ts)))))) s = (r, t)"
  from I show "sys_health t = sys_health s \<and> ((\<exists>a. r = Ok a) \<and> (r, sys_db t) \<in> ?F
     \<or> (\<exists>e. r = Raise e) \<and> (r, sys_db s) \<in> ?F)"
  proof (cases rule: profile_of_cases [of _ i])
    case absent
    with run show ?thesis by (auto simp: prog_simps delete_spec_def)
  next
    case (present p l)
    obtain eid w1 where 1: "os_uuid4 P (sys_world s) = (eid, w1)" by fastforce
    obtain ts w2 where 2: "sql_current_timestamp P w1 = (ts, w2)" by fastforce
    show ?thesis
    proof (cases "insert_audit (deletion_event eid ts) (remove_profile (uuid_str i) (sys_db s))")
      case (Inl e)
      with insert_error(3) [OF Inl] present run 1 2 show ?thesis by (auto simp: prog_simps delete_spec_def)
    next
      case (Inr db')
      with present run 1 2 show ?thesis by (auto simp: prog_simps delete_spec_def)
    qed
  qed
qed

lemma row_find_remove_profile:
  "row_find pr_id k' (profiles (remove_profile k db)) = (if k' = k then None else row_find pr_id k' (profiles db))"
  by (simp add: remove_profile_def row_find_delete row_find_update_other)

lemma row_find_filter:
  "(\<And>r. key r = k \<Longrightarrow> Q r) \<Longrightarrow> row_find key k (filter Q rs) = row_find key k rs"
  by (induction rs) (auto simp: row_find_def)

lemma lookup_for_remove_profile:
  "lookup_for kind (remove_profile k db) k' = (if k' = k then None else lookup_for kind db k')"
  by (cases "k' = k")
    (auto simp: lookup_for_def remove_profile_def row_find_None lookup_key_of_def intro!: row_find_filter)

lemma profile_of_remove: "profile_of (remove_profile (uuid_str i) db) = (profile_of db)(i := None)"
  by (auto simp: fun_eq_iff profile_of_def row_find_remove_profile lookup_for_remove_profile split: option.splits)

lemma repo_inv_remove:
  assumes "repo_inv db"
  shows "repo_inv (remove_profile (uuid_str i) db)"
proof -
  let ?f = "\<lambda>p. p\<lparr>pr_wrapped_profile_key := None\<rparr>"
  let ?k = "uuid_str i"
  have "schema_ok (profiles_update (row_update pr_id ?k ?f) db)"
    using assms by (simp add: schema_ok_update_profile same_profile_columns_apply repo_inv_schema)
  then have "schema_ok (profile_lookups_update (filter (\<lambda>l. lk_profile_id l \<noteq> ?k)) (profiles_update (row_update pr_id ?k ?f) db))"
    by (rule schema_ok_filter_lookups)
  then have schema: "schema_ok (remove_profile ?k db)"
    unfolding remove_profile_def by (rule schema_ok_delete_profile) simp
  have "set (profiles (remove_profile ?k db)) = {p \<in> set (profiles db). pr_id p \<noteq> ?k}"
    by (auto simp: remove_profile_def set_row_delete set_row_update split: if_splits)
  with schema assms show ?thesis
    by (auto simp: repo_inv_def row_inv_def lookup_for_remove_profile)
qed

lemma insert_audit_tables:
  "insert_audit e db = Inr db' \<Longrightarrow> db' = audit_events_update (\<lambda>es. es @ [e]) db"
  by (auto simp: insert_audit_def split: if_splits)

lemma profile_of_audit [simp]: "profile_of (audit_events_update f db) = profile_of db"
  by (simp add: fun_eq_iff profile_of_def lookup_for_def split: option.splits)

lemma repo_inv_insert_audit: "repo_inv db \<Longrightarrow> insert_audit e db = Inr db' \<Longrightarrow> repo_inv db'"
  using schema_ok_insert(7) [of db e db'] insert_audit_tables [of e db db']
  by (auto simp: repo_inv_def row_inv_def lookup_for_def)

text \<open>A deletion erases every row of the profile and leaves an audit event that does not name it.\<close>

lemma delete_spec_view:
  assumes "repo_inv db" and "(r, db') \<in> delete_spec i db"
  shows "repo_inv db'" and "profile_of db' = (if r = Ok () then (profile_of db)(i := None) else profile_of db)"
    and "r = Ok () \<Longrightarrow> \<exists>eid ts. audit_events db' = audit_events db @ [deletion_event eid ts]"
    and "r = Ok () \<Longrightarrow> \<forall>l \<in> set (profile_lookups db'). lk_profile_id l \<noteq> uuid_str i"
proof -
  show "repo_inv db'"
    using assms repo_inv_insert_audit [OF repo_inv_remove [OF assms(1)]]
    by (auto simp: delete_spec_def split: option.splits)
  show "profile_of db' = (if r = Ok () then (profile_of db)(i := None) else profile_of db)"
    using assms(2) by (auto simp: delete_spec_def profile_of_remove dest!: insert_audit_tables split: option.splits)
  show "r = Ok () \<Longrightarrow> \<exists>eid ts. audit_events db' = audit_events db @ [deletion_event eid ts]"
    "r = Ok () \<Longrightarrow> \<forall>l \<in> set (profile_lookups db'). lk_profile_id l \<noteq> uuid_str i"
    using assms(2)
    by (fastforce simp: delete_spec_def remove_profile_def dest!: insert_audit_tables split: option.splits)+
qed

section \<open>The life of a profile\<close>

text \<open>
  How a stored profile may change: it is created pending, moves along the legal transitions, has a
  runtime error recorded, or is deleted. \<open>history v v'\<close>: every profile got from the view \<open>v\<close> to the
  view \<open>v'\<close> by such steps. The material of a profile is the same all its life.
\<close>

type_synonym profile_view = "uuid \<Rightarrow> profile_record option"

inductive record_step :: "profile_record option \<Rightarrow> profile_record option \<Rightarrow> bool" where
  created: "record_step None (Some (new_record m ts))"
| moved: "transition_legal (rec_state r) st \<Longrightarrow> record_step (Some r) (Some (apply_state_rec st err ts r))"
| reported: "record_step (Some r) (Some (apply_runtime_error_rec code ts r))"
| deleted: "record_step (Some r) None"

inductive_cases record_step_NoneE: "record_step None x"
inductive_cases record_step_SomeE: "record_step (Some r) x"

definition history :: "profile_view \<Rightarrow> profile_view \<Rightarrow> bool" where
  "history v v' \<longleftrightarrow> (\<forall>i. record_step\<^sup>*\<^sup>* (v i) (v' i))"

lemma history_refl [simp]: "history v v"
  by (simp add: history_def)

lemma history_step:
  assumes "history v v'" and "record_step (v' i) x"
  shows "history v (v'(i := x))"
  using assms by (auto simp: history_def intro: rtranclp.rtrancl_into_rtrancl)

definition same_material :: "profile_record \<Rightarrow> profile_record \<Rightarrow> bool" where
  "same_material r r' \<longleftrightarrow> rec_profile_id r = rec_profile_id r' \<and> rec_name r = rec_name r'
     \<and> rec_runtime_id r = rec_runtime_id r' \<and> rec_wrapped_profile_key r = rec_wrapped_profile_key r'
     \<and> rec_user_id_ciphertext r = rec_user_id_ciphertext r'
     \<and> rec_hysteria_secret_ciphertext r = rec_hysteria_secret_ciphertext r'
     \<and> rec_subscription_token_ciphertext r = rec_subscription_token_ciphertext r'
     \<and> rec_subscription_lookup_digest r = rec_subscription_lookup_digest r'
     \<and> rec_created_at r = rec_created_at r'"

lemma same_material_refl [simp]: "same_material r r"
  by (simp add: same_material_def)

lemma record_step_material: "record_step (Some r) (Some r') \<Longrightarrow> same_material r r'"
  by (auto elim!: record_step_SomeE simp: same_material_def apply_state_rec_def apply_runtime_error_rec_def)

section \<open>The interface of the store\<close>

locale profile_store =
  fixes inv :: "'s \<Rightarrow> bool" and view :: "'s \<Rightarrow> profile_view"
    and get :: "uuid \<Rightarrow> ('s, profile_record) prog"
    and list_all_records :: "('s, profile_record list) prog"
    and change :: "uuid \<Rightarrow> profile_state \<Rightarrow> ustr option \<Rightarrow> ('s, profile_record) prog"
    and report :: "uuid \<Rightarrow> ustr \<Rightarrow> ('s, profile_record) prog"
    and store :: "new_profile_material \<Rightarrow> ('s, profile_record) prog"
    and remove :: "uuid \<Rightarrow> ('s, unit) prog"
  assumes get_law: "inv s \<Longrightarrow> get i s = (r, t) \<Longrightarrow> inv t \<and> view t = view s \<and>
      (case r of Ok x \<Rightarrow> view s i = Some x | Raise e \<Rightarrow> e = ProfileNotFound \<and> view s i = None \<or> e = OperationalError
       | Stuck \<Rightarrow> False)"
    and list_law: "inv s \<Longrightarrow> list_all_records s = (rl, t) \<Longrightarrow> inv t \<and> view t = view s \<and>
      (case rl of Ok rs \<Rightarrow> (\<forall>x. x \<in> set rs \<longleftrightarrow> view s (rec_profile_id x) = Some x) \<and> distinct (map rec_runtime_id rs)
         \<and> distinct (map rec_profile_id rs)
       | Raise e \<Rightarrow> e = OperationalError | Stuck \<Rightarrow> False)"
    and change_law: "inv s \<Longrightarrow> change i st err s = (r, t) \<Longrightarrow> inv t \<and>
      (case r of Ok x \<Rightarrow> (\<exists>old ts. view s i = Some old \<and> transition_legal (rec_state old) st
           \<and> x = apply_state_rec st err ts old \<and> view t = (view s)(i \<mapsto> x))
       | Raise e \<Rightarrow> view t = view s \<and> (e = ProfileNotFound \<and> view s i = None \<or> e = OperationalError
           \<or> e = InvalidProfileTransition \<and> (\<exists>old. view s i = Some old \<and> \<not> transition_legal (rec_state old) st))
       | Stuck \<Rightarrow> False)"
    and report_law: "inv s \<Longrightarrow> report i code s = (r, t) \<Longrightarrow> inv t \<and>
      (case r of Ok x \<Rightarrow> (\<exists>old ts. view s i = Some old \<and> x = apply_runtime_error_rec code ts old
           \<and> view t = (view s)(i \<mapsto> x))
       | Raise e \<Rightarrow> view t = view s \<and> (e = ProfileNotFound \<and> view s i = None \<or> e = OperationalError \<or> e = ValueError)
       | Stuck \<Rightarrow> False)"
    and store_law: "inv s \<Longrightarrow> store m s = (r, t) \<Longrightarrow> inv t \<and>
      (case r of Ok x \<Rightarrow> view s (nm_profile_id m) = None \<and> (\<exists>ts. x = new_record m ts)
           \<and> view t = (view s)(nm_profile_id m \<mapsto> x)
       | Raise e \<Rightarrow> view t = view s \<and> (e = ProfileConflict \<or> e = OperationalError)
       | Stuck \<Rightarrow> False)"
    and remove_law: "inv s \<Longrightarrow> remove i s = (ru, t) \<Longrightarrow> inv t \<and>
      (case ru of Ok _ \<Rightarrow> view s i \<noteq> None \<and> view t = (view s)(i := None)
       | Raise e \<Rightarrow> view t = view s \<and> (e = ProfileNotFound \<and> view s i = None \<or> e = OperationalError \<or> e = IntegrityError)
       | Stuck \<Rightarrow> False)"
begin

text \<open>Whatever the outcome, a call moves the view along the life of a profile.\<close>

lemma keeps_history_rule:
  assumes "\<And>s r t. inv s \<Longrightarrow> m s = (r, t) \<Longrightarrow> inv t \<and>
      (view t = view s \<or> (\<exists>i x. record_step (view s i) x \<and> view t = (view s)(i := x)))"
  shows "keeps (\<lambda>s. inv s \<and> history v (view s)) m"
proof (rule keepsI)
  fix s assume I: "inv s \<and> history v (view s)"
  then have "inv (snd (m s)) \<and> (view (snd (m s)) = view s
      \<or> (\<exists>i x. record_step (view s i) x \<and> view (snd (m s)) = (view s)(i := x)))"
    using assms [OF _ prod.collapse [symmetric]] by blast
  with I show "inv (snd (m s)) \<and> history v (view (snd (m s)))"
    by (auto simp: history_step)
qed

lemma keeps_history:
  "keeps (\<lambda>s. inv s \<and> history v (view s)) (get i)"
  "keeps (\<lambda>s. inv s \<and> history v (view s)) list_all_records"
  "keeps (\<lambda>s. inv s \<and> history v (view s)) (change i st err)"
  "keeps (\<lambda>s. inv s \<and> history v (view s)) (report i code)"
  "keeps (\<lambda>s. inv s \<and> history v (view s)) (store m)"
  "keeps (\<lambda>s. inv s \<and> history v (view s)) (remove i)"
proof -
  show "keeps (\<lambda>s. inv s \<and> history v (view s)) (get i)"
    by (rule keeps_history_rule) (simp add: get_law)
  show "keeps (\<lambda>s. inv s \<and> history v (view s)) list_all_records"
    by (rule keeps_history_rule) (simp add: list_law)
  show "keeps (\<lambda>s. inv s \<and> history v (view s)) (change i st err)"
  proof (rule keeps_history_rule)
    fix s r t assume "inv s" "change i st err s = (r, t)"
    from change_law [OF this] show "inv t \<and> (view t = view s \<or> (\<exists>i x. record_step (view s i) x \<and> view t = (view s)(i := x)))"
      by (cases r) (auto, metis record_step.moved)
  qed
  show "keeps (\<lambda>s. inv s \<and> history v (view s)) (report i code)"
  proof (rule keeps_history_rule)
    fix s r t assume "inv s" "report i code s = (r, t)"
    from report_law [OF this] show "inv t \<and> (view t = view s \<or> (\<exists>i x. record_step (view s i) x \<and> view t = (view s)(i := x)))"
      by (cases r) (auto, metis record_step.reported)
  qed
  show "keeps (\<lambda>s. inv s \<and> history v (view s)) (store m)"
  proof (rule keeps_history_rule)
    fix s r t assume "inv s" "store m s = (r, t)"
    from store_law [OF this] show "inv t \<and> (view t = view s \<or> (\<exists>i x. record_step (view s i) x \<and> view t = (view s)(i := x)))"
      by (cases r) (auto, metis record_step.created)
  qed
  show "keeps (\<lambda>s. inv s \<and> history v (view s)) (remove i)"
  proof (rule keeps_history_rule)
    fix s r t assume "inv s" "remove i s = (r, t)"
    from remove_law [OF this] show "inv t \<and> (view t = view s \<or> (\<exists>i x. record_step (view s i) x \<and> view t = (view s)(i := x)))"
      by (cases r) (auto, metis record_step.deleted)
  qed
qed

lemma change_Ok:
  assumes "inv s" and "change i st err s = (Ok x, t)"
  shows "inv t" and "view t = (view s)(i \<mapsto> x)" and "rec_state x = st"
    and "\<exists>old. view s i = Some old \<and> same_material old x"
    and "rec_last_error_code x = (if st = ERROR then err else None)"
  using change_law [OF assms] by (auto simp: apply_state_rec_def same_material_def)

lemma get_after_change:
  assumes "inv s" and "change i st err s = (Ok x, t)" and "get i t = (r, u)"
  shows "r = Ok x \<or> r = Raise OperationalError"
  using change_Ok [OF assms(1,2)] get_law [OF _ assms(3)] by (auto split: outcome.splits)

lemma get_after_store:
  assumes "inv s" and "store m s = (Ok x, t)" and "get (nm_profile_id m) t = (r, u)"
  shows "r = Ok x \<or> r = Raise OperationalError"
  using store_law [OF assms(1,2)] get_law [OF _ assms(3)] by (auto split: outcome.splits)

lemma get_after_remove:
  assumes "inv s" and "remove i s = (Ok x, t)" and "get i t = (r, u)"
  shows "r = Raise ProfileNotFound \<or> r = Raise OperationalError"
  using remove_law [OF assms(1,2)] get_law [OF _ assms(3)] by (auto split: outcome.splits)

end

interpretation repository: profile_store "on_db repo_inv" "\<lambda>s. profile_of (sys_db s)" "repo_get P" "repo_list P"
  "set_state P" "set_runtime_error P" "insert_pending P" "delete_local P" for P :: "'w platform"
proof
  fix s t :: "'w sys" and i st err code m
  { fix r assume "on_db repo_inv s" "repo_get P i s = (r, t)"
    with implementsD [OF repo_get_refines, of s P i r t]
    show "on_db repo_inv t \<and> profile_of (sys_db t) = profile_of (sys_db s) \<and>
      (case r of Ok x \<Rightarrow> profile_of (sys_db s) i = Some x
       | Raise e \<Rightarrow> e = ProfileNotFound \<and> profile_of (sys_db s) i = None \<or> e = OperationalError | Stuck \<Rightarrow> False)"
      by (auto simp: on_db_def split: option.splits) }
  { fix r assume "on_db repo_inv s" "repo_list P s = (r, t)"
    with implementsD [OF repo_list_refines, of s P r t] set_records_of [of "sys_db s"] records_of_distinct [of "sys_db s"]
    show "on_db repo_inv t \<and> profile_of (sys_db t) = profile_of (sys_db s) \<and>
      (case r of Ok rs \<Rightarrow> (\<forall>x. x \<in> set rs \<longleftrightarrow> profile_of (sys_db s) (rec_profile_id x) = Some x)
         \<and> distinct (map rec_runtime_id rs) \<and> distinct (map rec_profile_id rs)
       | Raise e \<Rightarrow> e = OperationalError | Stuck \<Rightarrow> False)"
      by (auto simp: on_db_def split: option.splits) }
  { fix r assume "on_db repo_inv s" "set_state P i st err s = (r, t)"
    with implementsD [OF set_state_refines, of s P i st err r t] set_state_spec_inv [of "sys_db s" r "sys_db t" i st err]
    show "on_db repo_inv t \<and> (case r of
         Ok x \<Rightarrow> (\<exists>old ts. profile_of (sys_db s) i = Some old \<and> transition_legal (rec_state old) st
           \<and> x = apply_state_rec st err ts old \<and> profile_of (sys_db t) = (profile_of (sys_db s))(i \<mapsto> x))
       | Raise e \<Rightarrow> profile_of (sys_db t) = profile_of (sys_db s)
           \<and> (e = ProfileNotFound \<and> profile_of (sys_db s) i = None \<or> e = OperationalError
           \<or> e = InvalidProfileTransition \<and> (\<exists>old. profile_of (sys_db s) i = Some old \<and> \<not> transition_legal (rec_state old) st))
       | Stuck \<Rightarrow> False)"
      by (auto simp: on_db_def set_state_spec_def profile_of_apply_state split: option.splits if_splits) }
  { fix r assume "on_db repo_inv s" "set_runtime_error P i code s = (r, t)"
    with implementsD [OF set_runtime_error_refines, of s P i code r t]
      set_runtime_error_spec_inv [of "sys_db s" r "sys_db t" P i code]
    show "on_db repo_inv t \<and> (case r of
         Ok x \<Rightarrow> (\<exists>old ts. profile_of (sys_db s) i = Some old \<and> x = apply_runtime_error_rec code ts old
           \<and> profile_of (sys_db t) = (profile_of (sys_db s))(i \<mapsto> x))
       | Raise e \<Rightarrow> profile_of (sys_db t) = profile_of (sys_db s)
           \<and> (e = ProfileNotFound \<and> profile_of (sys_db s) i = None \<or> e = OperationalError \<or> e = ValueError)
       | Stuck \<Rightarrow> False)"
      by (auto simp: on_db_def set_runtime_error_spec_def profile_of_apply_runtime_error split: option.splits if_splits) }
  { fix r assume "on_db repo_inv s" "insert_pending P m s = (r, t)"
    with implementsD [OF insert_pending_refines, of s P m r t]
    show "on_db repo_inv t \<and> (case r of
         Ok x \<Rightarrow> profile_of (sys_db s) (nm_profile_id m) = None \<and> (\<exists>ts. x = new_record m ts)
           \<and> profile_of (sys_db t) = (profile_of (sys_db s))(nm_profile_id m \<mapsto> x)
       | Raise e \<Rightarrow> profile_of (sys_db t) = profile_of (sys_db s) \<and> (e = ProfileConflict \<or> e = OperationalError)
       | Stuck \<Rightarrow> False)"
      by (auto simp: on_db_def insert_spec_def add_profile_view) }
  { fix r :: "unit outcome" assume I: "on_db repo_inv s" and run: "delete_local P i s = (r, t)"
    consider (ended) "(r, sys_db t) \<in> delete_spec i (sys_db s)" | (fault) "r = Raise OperationalError" "sys_db t = sys_db s"
      using implementsD(2) [OF delete_local_refines _ run] I by (auto simp: on_db_def)
    then show "on_db repo_inv t \<and> (case r of
         Ok _ \<Rightarrow> profile_of (sys_db s) i \<noteq> None \<and> profile_of (sys_db t) = (profile_of (sys_db s))(i := None)
       | Raise e \<Rightarrow> profile_of (sys_db t) = profile_of (sys_db s)
           \<and> (e = ProfileNotFound \<and> profile_of (sys_db s) i = None \<or> e = OperationalError \<or> e = IntegrityError)
       | Stuck \<Rightarrow> False)"
    proof cases
      case ended
      with I delete_spec_view(1,2) [OF _ ended] show ?thesis
        by (auto simp: on_db_def delete_spec_def split: option.splits)
    next
      case fault
      with I show ?thesis by (simp add: on_db_def)
    qed }
qed

lemma returns_repository [returns_intros]:
  "returns (repo_get P i)" "returns (repo_list P)" "returns (set_state P i st err)" "returns (set_runtime_error P i code)"
  "returns (insert_pending P m)" "returns (delete_local P i)" "returns (checkpoint_wal P)"
  "returns (find_by_subscription_token P c token)" "returns (find_by_hysteria_secret P c secret)"
  unfolding repo_get_def repo_list_def set_state_def set_runtime_error_def insert_pending_def delete_local_def
    checkpoint_wal_def find_by_subscription_token_def find_by_hysteria_secret_def select_profile_def
  by (intro returns_intros)+

lemma keeps_on_world_repository [keeps_intros]:
  assumes "quiet P J"
  shows "keeps (on_world J) (repo_get P i)" "keeps (on_world J) (repo_list P)" "keeps (on_world J) (set_state P i st err)"
    "keeps (on_world J) (set_runtime_error P i code)" "keeps (on_world J) (insert_pending P m)"
    "keeps (on_world J) (delete_local P i)" "keeps (on_world J) (checkpoint_wal P)"
  unfolding repo_get_def repo_list_def set_state_def set_runtime_error_def insert_pending_def delete_local_def
    checkpoint_wal_def select_profile_def
  by (intro keeps_intros assms)+

lemma untouched_queries [keeps_intros]:
  "keeps (untouched db h) (repo_get P i)" "keeps (untouched db h) (repo_list P)" "keeps (untouched db h) (checkpoint_wal P)"
  "keeps (untouched db h) (find_by_subscription_token P c token)" "keeps (untouched db h) (find_by_hysteria_secret P c secret)"
  unfolding repo_get_def repo_list_def checkpoint_wal_def select_profile_def find_by_subscription_token_def
    find_by_hysteria_secret_def
  by (intro keeps_intros)+

end
