(* ===== verification/Service.thy ===== *)
theory Service
  imports Repository_Store
begin

text \<open>
  \<^verbatim>\<open>control/src/ezopenpn/profiles/service.py\<close>: creation of profile material and the local state changes.
  The main result is \<open>service_create_spec\<close>: a created profile is stored pending under a fresh
  identifier, its name is normalised, its runtime identifier matches the pattern both runtimes
  require, its secrets open under the cipher, and both lookups lead to it.
\<close>

section \<open>Operations\<close>

definition normalize_name :: "'w platform \<Rightarrow> ustr \<Rightarrow> exn + ustr" where
  "normalize_name P name = (let normalized = strip name in
     if \<not> (1 \<le> length normalized \<and> length normalized \<le> 64) then Inl InvalidProfileName
     else if list_ex (\<lambda>c. take 1 (ucd_category P c) = U ''C'') normalized then Inl InvalidProfileName
     else Inr normalized)"

definition random_exact :: "'w platform \<Rightarrow> nat \<Rightarrow> ('w, bytes) op" where
  "random_exact P n = bindP (world_call (os_random P n)) (\<lambda>v.
     if length v \<noteq> n then raise ValueError else ret v)"

definition service_result :: "profile_record \<Rightarrow> ustr option \<Rightarrow> profile_result" where
  "service_result r token = \<lparr>res_profile_id = rec_profile_id r, res_name = rec_name r, res_state = rec_state r,
     res_runtime_id = rec_runtime_id r, res_subscription_token = token, res_link_bundle = None\<rparr>"

definition encrypt_field :: "'w platform \<Rightarrow> bytes \<Rightarrow> bytes \<Rightarrow> uuid \<Rightarrow> ustr \<Rightarrow> ('w, bytes) op" where
  "encrypt_field P key v profile_id field =
     bindP (lift_result (profile_value_context profile_id field)) (encrypt_profile_value P key v)"

definition service_create :: "'w platform \<Rightarrow> cipher \<Rightarrow> ustr \<Rightarrow> ('w, profile_result) op" where
  "service_create P c name =
     bindP (lift_result (normalize_name P name)) (\<lambda>normalized_name.
     bindP (world_call (os_uuid4 P)) (\<lambda>profile_id.
     bindP (world_call (os_uuid4 P)) (\<lambda>user_id.
     bindP (random_exact P 32) (\<lambda>hysteria_secret.
     bindP (random_exact P 32) (\<lambda>token_bytes.
     let subscription_token = url_token token_bytes; hysteria_auth = url_token hysteria_secret in
     bindP (random_exact P 17) (\<lambda>runtime_bytes.
     bindP (new_profile_key P) (\<lambda>profile_key.
     bindP (wrap_profile_key P c profile_id profile_key) (\<lambda>wrapped.
     bindP (encrypt_field P profile_key (uuid_bytes user_id) profile_id (U ''user-id'')) (\<lambda>user_ct.
     bindP (encrypt_field P profile_key hysteria_secret profile_id (U ''hysteria-auth'')) (\<lambda>hysteria_ct.
     bindP (lift_result (encode_ascii subscription_token)) (\<lambda>token_ascii.
     bindP (encrypt_field P profile_key token_ascii profile_id (U ''subscription-token'')) (\<lambda>token_ct.
     bindP (lift_result (hysteria_lookup_value hysteria_auth)) (\<lambda>hysteria_value.
     bindP (insert_pending P \<lparr>nm_profile_id = profile_id, nm_name = normalized_name,
         nm_runtime_id = make_runtime_id runtime_bytes, nm_wrapped_profile_key = wrapped,
         nm_user_id_ciphertext = user_ct, nm_hysteria_secret_ciphertext = hysteria_ct,
         nm_subscription_token_ciphertext = token_ct,
         nm_subscription_lookup_digest = lookup_digest P c token_ascii,
         nm_hysteria_lookup_digest = lookup_digest P c hysteria_value\<rparr>) (\<lambda>r.
     ret (service_result r (Some subscription_token))))))))))))))))"

definition disable_local :: "'w platform \<Rightarrow> uuid \<Rightarrow> ('w, profile_result) op" where
  "disable_local P i = bindP (set_state P i DISABLED None) (\<lambda>r. ret (service_result r None))"

definition enable_local :: "'w platform \<Rightarrow> uuid \<Rightarrow> ('w, profile_result) op" where
  "enable_local P i = bindP (set_state P i ACTIVE None) (\<lambda>r. ret (service_result r None))"

definition mark_active :: "'w platform \<Rightarrow> uuid \<Rightarrow> ('w, profile_result) op" where
  "mark_active P i = bindP (set_state P i ACTIVE None) (\<lambda>r. ret (service_result r None))"

definition mark_error_local :: "'w platform \<Rightarrow> uuid \<Rightarrow> ustr \<Rightarrow> ('w, profile_result) op" where
  "mark_error_local P i code = bindP (set_state P i ERROR (Some code)) (\<lambda>r. ret (service_result r None))"

section \<open>Names\<close>

lemma normalize_name_ok:
  assumes "normalize_name P name = Inr n"
  shows "n = strip name" and "1 \<le> length n" and "length n \<le> 64"
    and "\<forall>ch \<in> set n. take 1 (ucd_category P ch) \<noteq> U ''C''"
  using assms by (auto simp: normalize_name_def Let_def list_ex_iff split: if_splits)

lemma normalize_name_idem: "normalize_name P name = Inr n \<Longrightarrow> normalize_name P n = Inr n"
  by (auto simp: normalize_name_def Let_def strip_idem split: if_splits)

lemma normalize_name_error: "normalize_name P name = Inl e \<Longrightarrow> e = InvalidProfileName"
  by (auto simp: normalize_name_def Let_def split: if_splits)

section \<open>Material\<close>

text \<open>
  \<open>opens P c r uid secret token\<close>: the encrypted material of the record \<open>r\<close> opens under the cipher
  \<open>c\<close> to the Xray user \<open>uid\<close>, the Hysteria2 secret and the subscription token.
\<close>

definition field_context :: "uuid \<Rightarrow> ustr \<Rightarrow> bytes" where
  "field_context i field = ascii_bytes (U ''ezopenpn/profile/'' @ uuid_str i @ U ''/'' @ field @ U ''/v1'')"

definition opens :: "'w platform \<Rightarrow> cipher \<Rightarrow> profile_record \<Rightarrow> uuid \<Rightarrow> bytes \<Rightarrow> ustr \<Rightarrow> bool" where
  "opens P c r uid secret token \<longleftrightarrow> (\<exists>wrapped key.
     rec_wrapped_profile_key r = Some wrapped
   \<and> unwrap_profile_key P c (rec_profile_id r) wrapped = Inr key
   \<and> decrypt_profile_value P key (rec_user_id_ciphertext r) (field_context (rec_profile_id r) (U ''user-id'')) = Inr (uuid_bytes uid)
   \<and> decrypt_profile_value P key (rec_hysteria_secret_ciphertext r) (field_context (rec_profile_id r) (U ''hysteria-auth'')) = Inr secret
   \<and> decrypt_profile_value P key (rec_subscription_token_ciphertext r) (field_context (rec_profile_id r) (U ''subscription-token''))
       = Inr (ascii_bytes token))"

lemma opens_material: "same_material r r' \<Longrightarrow> opens P c r uid secret token \<longleftrightarrow> opens P c r' uid secret token"
  by (simp add: opens_def same_material_def)

lemma isascii_literals [simp]:
  "isascii (U ''ezopenpn/profile/'')" "isascii (U ''/'')" "isascii (U ''/v1'')" "isascii (U ''user-id'')"
  "isascii (U ''hysteria-auth'')" "isascii (U ''subscription-token'')"
  by (simp_all add: U_def)

lemma profile_value_context_ok: "isascii field \<Longrightarrow> profile_value_context i field = Inr (field_context i field)"
  by (simp add: profile_value_context_def field_context_def encode_ascii_ok)

lemma field_context_nonempty: "field_context i field \<noteq> []"
  by (simp add: field_context_def ascii_bytes_def U_def)

text \<open>With a random source that delivers, every step of the preparation succeeds.\<close>

lemma random_call_run:
  assumes "random_ok P"
  obtains v w where "world_call (os_random P n) s = (Ok v, s\<lparr>sys_world := w\<rparr>)" and "length v = n"
proof -
  obtain v w where "os_random P n (sys_world s) = (v, w)" by fastforce
  moreover from this have "length v = n" using assms unfolding random_ok_def by (metis fst_conv)
  ultimately show ?thesis by (intro that [of v w]) (simp_all add: world_call_def)
qed

lemma random_exact_run:
  assumes "random_ok P"
  obtains v w where "random_exact P n s = (Ok v, s\<lparr>sys_world := w\<rparr>)" and "length v = n"
  by (rule random_call_run [OF assms, of n s]) (auto simp: random_exact_def prog_simps intro: that)

lemma new_profile_key_run:
  assumes "random_ok P"
  obtains key w where "new_profile_key P s = (Ok key, s\<lparr>sys_world := w\<rparr>)" and "length key = KEY_SIZE"
  by (rule random_call_run [OF assms, of KEY_SIZE s]) (auto simp: new_profile_key_def intro: that)

lemma wrap_profile_key_run:
  assumes "crypto_ok P" and "random_ok P" and "length (wrap_key c) = KEY_SIZE" and "length key = KEY_SIZE"
  obtains wrapped w where "wrap_profile_key P c i key s = (Ok wrapped, s\<lparr>sys_world := w\<rparr>)"
    and "unwrap_profile_key P c i wrapped = Inr key"
proof -
  have ctx: "PROFILE_KEY_CONTEXT @ uuid_bytes i \<noteq> []"
    by (metis Nil_is_append_conv length_0_conv length_uuid_bytes zero_neq_numeral)
  obtain v w where n: "world_call (os_random P NONCE_SIZE) s = (Ok v, s\<lparr>sys_world := w\<rparr>)" and "length v = NONCE_SIZE"
    by (rule random_call_run [OF assms(2)])
  have e: "encrypt_value P v (wrap_key c) key (PROFILE_KEY_CONTEXT @ uuid_bytes i)
      = Inr (FORMAT_VERSION @ aead_encrypt P (wrap_key c) v key (PROFILE_KEY_CONTEXT @ uuid_bytes i))"
    by (rule encrypt_value_ok [OF assms(3) ctx])
  then have run: "wrap_profile_key P c i key s
      = (Ok (FORMAT_VERSION @ aead_encrypt P (wrap_key c) v key (PROFILE_KEY_CONTEXT @ uuid_bytes i)), s\<lparr>sys_world := w\<rparr>)"
    using n assms(4) by (simp add: wrap_profile_key_def require_key_def prog_simps)
  from that [OF run unwrap_wrap [OF assms(1-3) run]] show ?thesis .
qed

lemma encrypt_field_run:
  assumes "crypto_ok P" and "random_ok P" and "length key = KEY_SIZE" and "isascii field"
  obtains ct w where "encrypt_field P key v i field s = (Ok ct, s\<lparr>sys_world := w\<rparr>)"
    and "decrypt_profile_value P key ct (field_context i field) = Inr v"
proof -
  obtain n w where n: "world_call (os_random P NONCE_SIZE) s = (Ok n, s\<lparr>sys_world := w\<rparr>)" and len: "length n = NONCE_SIZE"
    by (rule random_call_run [OF assms(2)])
  have e: "encrypt_value P n key v (field_context i field) = Inr (FORMAT_VERSION @ aead_encrypt P key n v (field_context i field))"
    by (rule encrypt_value_ok [OF assms(3) field_context_nonempty])
  show ?thesis
  proof (rule that)
    show "encrypt_field P key v i field s = (Ok (FORMAT_VERSION @ aead_encrypt P key n v (field_context i field)), s\<lparr>sys_world := w\<rparr>)"
      using n e assms(4) by (simp add: encrypt_field_def profile_value_context_ok encrypt_profile_value_def prog_simps)
    show "decrypt_profile_value P key (FORMAT_VERSION @ aead_encrypt P key n v (field_context i field)) (field_context i field) = Inr v"
      unfolding decrypt_profile_value_def by (rule decrypt_encrypt [OF assms(1,3) len field_context_nonempty e])
  qed
qed

lemma insert_pending_Ok:
  assumes "on_db repo_inv s" and "insert_pending P m s = (Ok r, t)"
  shows "\<exists>sid hid t1 t2 t3. r = new_record m t1 \<and> add_profile m sid hid t1 t2 t3 (sys_db s) = Inr (sys_db t)
     \<and> sys_health t = sys_health s"
  using implementsD [OF insert_pending_refines _ assms(2)] assms(1) by (auto simp: insert_spec_def on_db_def)

lemma add_profile_owner:
  assumes I: "repo_inv db" and add: "add_profile m sid hid t1 t2 t3 db = Inr db'"
  shows "owner_of HYSTERIA_LOOKUP_KIND db' (nm_hysteria_lookup_digest m) = Some (new_record m t1)"
proof -
  let ?p = "new_profile_row m t1"
  note f = add_profile_tables [OF add] and v = add_profile_view [OF I add]
  have p: "?p \<in> set (profiles db')" by (simp add: f(1))
  have "row_uuid ?p = nm_profile_id m" by (simp add: row_uuid_def new_profile_row_def)
  with record_of_profile_of [OF v(3) p] v(1) have rec: "record_of db' ?p = new_record m t1" by simp
  have "lookup_for HYSTERIA_LOOKUP_KIND db (uuid_str (nm_profile_id m)) = None"
    using f(4) by (auto simp: lookup_for_def row_find_None lookup_key_of_def new_lookup_row_def)
  then have "digest_of HYSTERIA_LOOKUP_KIND db' ?p = nm_hysteria_lookup_digest m"
    by (simp add: digest_of_def f(1) lookup_for_append row_find_def lookup_key_of_def new_lookup_row_def
        new_profile_row_def)
  with row_find_unique [OF digest_of_distinct [OF v(3), of HYSTERIA_LOOKUP_KIND] p] rec show ?thesis
    by (simp add: owner_of_def)
qed

text \<open>What a successful \<open>service_create\<close> leaves behind.\<close>

definition created_profile :: "'w platform \<Rightarrow> cipher \<Rightarrow> ustr \<Rightarrow> database \<Rightarrow> database \<Rightarrow> profile_record \<Rightarrow> ustr \<Rightarrow> bool" where
  "created_profile P c name db db' r token \<longleftrightarrow>
     normalize_name P name = Inr (rec_name r) \<and> rec_state r = PENDING \<and> runtime_id_pattern (rec_runtime_id r)
   \<and> profile_of db (rec_profile_id r) = None \<and> profile_of db' = (profile_of db)(rec_profile_id r \<mapsto> r)
   \<and> rec_subscription_lookup_digest r = lookup_digest P c (ascii_bytes token)
   \<and> (\<exists>uid secret token_bytes. opens P c r uid secret token \<and> token = url_token token_bytes \<and> length token_bytes = 32
       \<and> length secret = 32
       \<and> owner_of HYSTERIA_LOOKUP_KIND db' (lookup_digest P c (HYSTERIA_LOOKUP_PREFIX @ ascii_bytes (url_token secret))) = Some r)"

lemma new_record_fields:
  "rec_profile_id (new_record m ts) = nm_profile_id m" "rec_name (new_record m ts) = nm_name m"
  "rec_state (new_record m ts) = PENDING" "rec_runtime_id (new_record m ts) = nm_runtime_id m"
  "rec_wrapped_profile_key (new_record m ts) = Some (nm_wrapped_profile_key m)"
  "rec_user_id_ciphertext (new_record m ts) = nm_user_id_ciphertext m"
  "rec_hysteria_secret_ciphertext (new_record m ts) = nm_hysteria_secret_ciphertext m"
  "rec_subscription_token_ciphertext (new_record m ts) = nm_subscription_token_ciphertext m"
  "rec_subscription_lookup_digest (new_record m ts) = nm_subscription_lookup_digest m"
  "rec_last_error_code (new_record m ts) = None"
  by (simp_all add: new_record_def make_record_def new_profile_row_def)

text \<open>
  \<open>fresh_material P c n m uid secret token_bytes\<close>: the material \<open>m\<close> carries the name \<open>n\<close>, a valid runtime
  identifier, and the three secrets, encrypted and indexed under the cipher \<open>c\<close>.
\<close>

definition fresh_material ::
  "'w platform \<Rightarrow> cipher \<Rightarrow> ustr \<Rightarrow> new_profile_material \<Rightarrow> uuid \<Rightarrow> bytes \<Rightarrow> bytes \<Rightarrow> bool" where
  "fresh_material P c n m uid secret token_bytes \<longleftrightarrow> nm_name m = n \<and> runtime_id_pattern (nm_runtime_id m)
   \<and> length secret = 32 \<and> length token_bytes = 32 \<and> (\<forall>ts. opens P c (new_record m ts) uid secret (url_token token_bytes))
   \<and> nm_subscription_lookup_digest m = lookup_digest P c (ascii_bytes (url_token token_bytes))
   \<and> nm_hysteria_lookup_digest m = lookup_digest P c (HYSTERIA_LOOKUP_PREFIX @ ascii_bytes (url_token secret))"

text \<open>Creation rejects the name, or stores fresh material.\<close>

lemma service_create_run:
  assumes env: "crypto_ok P" "random_ok P" "length (wrap_key c) = KEY_SIZE" and n: "normalize_name P name = Inr n"
  obtains m uid secret tb w where "fresh_material P c n m uid secret tb"
    and "service_create P c name s = bindP (insert_pending P m) (\<lambda>r. ret (service_result r (Some (url_token tb)))) (s\<lparr>sys_world := w\<rparr>)"
proof -
  obtain pid w1 where 1: "world_call (os_uuid4 P) s = (Ok pid, s\<lparr>sys_world := w1\<rparr>)"
    using world_call_shape [of "os_uuid4 P" s] by blast
  obtain uid w2 where 2: "world_call (os_uuid4 P) (s\<lparr>sys_world := w1\<rparr>) = (Ok uid, s\<lparr>sys_world := w2\<rparr>)"
    using world_call_shape [of "os_uuid4 P" "s\<lparr>sys_world := w1\<rparr>"] by auto
  obtain sec w3 where 3: "random_exact P 32 (s\<lparr>sys_world := w2\<rparr>) = (Ok sec, s\<lparr>sys_world := w3\<rparr>)" "length sec = 32"
    by (rule random_exact_run [OF env(2), of 32 "s\<lparr>sys_world := w2\<rparr>"]) auto
  obtain tb w4 where 4: "random_exact P 32 (s\<lparr>sys_world := w3\<rparr>) = (Ok tb, s\<lparr>sys_world := w4\<rparr>)" "length tb = 32"
    by (rule random_exact_run [OF env(2), of 32 "s\<lparr>sys_world := w3\<rparr>"]) auto
  obtain rb w5 where 5: "random_exact P 17 (s\<lparr>sys_world := w4\<rparr>) = (Ok rb, s\<lparr>sys_world := w5\<rparr>)" "length rb = 17"
    by (rule random_exact_run [OF env(2), of 17 "s\<lparr>sys_world := w4\<rparr>"]) auto
  obtain key w6 where 6: "new_profile_key P (s\<lparr>sys_world := w5\<rparr>) = (Ok key, s\<lparr>sys_world := w6\<rparr>)" "length key = KEY_SIZE"
    by (rule new_profile_key_run [OF env(2), of "s\<lparr>sys_world := w5\<rparr>"]) auto
  obtain wrapped w7 where 7: "wrap_profile_key P c pid key (s\<lparr>sys_world := w6\<rparr>) = (Ok wrapped, s\<lparr>sys_world := w7\<rparr>)"
    "unwrap_profile_key P c pid wrapped = Inr key"
    by (rule wrap_profile_key_run [OF env 6(2), of pid "s\<lparr>sys_world := w6\<rparr>"]) auto
  obtain uct w8 where 8: "encrypt_field P key (uuid_bytes uid) pid (U ''user-id'') (s\<lparr>sys_world := w7\<rparr>) = (Ok uct, s\<lparr>sys_world := w8\<rparr>)"
    "decrypt_profile_value P key uct (field_context pid (U ''user-id'')) = Inr (uuid_bytes uid)"
    by (rule encrypt_field_run [OF env(1,2) 6(2) isascii_literals(4), of "uuid_bytes uid" pid "s\<lparr>sys_world := w7\<rparr>"]) auto
  obtain hct w9 where 9: "encrypt_field P key sec pid (U ''hysteria-auth'') (s\<lparr>sys_world := w8\<rparr>) = (Ok hct, s\<lparr>sys_world := w9\<rparr>)"
    "decrypt_profile_value P key hct (field_context pid (U ''hysteria-auth'')) = Inr sec"
    by (rule encrypt_field_run [OF env(1,2) 6(2) isascii_literals(5), of sec pid "s\<lparr>sys_world := w8\<rparr>"]) auto
  obtain tct w10 where 10: "encrypt_field P key (ascii_bytes (url_token tb)) pid (U ''subscription-token'') (s\<lparr>sys_world := w9\<rparr>)
      = (Ok tct, s\<lparr>sys_world := w10\<rparr>)"
    "decrypt_profile_value P key tct (field_context pid (U ''subscription-token'')) = Inr (ascii_bytes (url_token tb))"
    by (rule encrypt_field_run [OF env(1,2) 6(2) isascii_literals(6), of "ascii_bytes (url_token tb)" pid "s\<lparr>sys_world := w9\<rparr>"]) auto
  let ?m = "\<lparr>nm_profile_id = pid, nm_name = n, nm_runtime_id = make_runtime_id rb,
        nm_wrapped_profile_key = wrapped, nm_user_id_ciphertext = uct, nm_hysteria_secret_ciphertext = hct,
        nm_subscription_token_ciphertext = tct,
        nm_subscription_lookup_digest = lookup_digest P c (ascii_bytes (url_token tb)),
        nm_hysteria_lookup_digest = lookup_digest P c (HYSTERIA_LOOKUP_PREFIX @ ascii_bytes (url_token sec))\<rparr>"
  show ?thesis
  proof (rule that)
    show "fresh_material P c n ?m uid sec tb"
      using 3(2) 4(2) 5(2) 7(2) 8(2) 9(2) 10(2) runtime_id_pattern_make [of rb]
      by (simp add: fresh_material_def opens_def new_record_fields)
    show "service_create P c name s = bindP (insert_pending P ?m) (\<lambda>r. ret (service_result r (Some (url_token tb)))) (s\<lparr>sys_world := w10\<rparr>)"
      unfolding service_create_def Let_def
      by (simp add: n 1 2 3 4 5 6 7 8 9 10 encode_ascii_ok hysteria_lookup_value_def prog_simps)
  qed
qed

lemma service_create_invalid: "normalize_name P name = Inl e \<Longrightarrow> service_create P c name s = (Raise e, s)"
  by (simp add: service_create_def prog_simps)

lemma service_create_spec:
  assumes env: "crypto_ok P" "random_ok P" "length (wrap_key c) = KEY_SIZE"
    and I: "on_db repo_inv s" and run: "service_create P c name s = (Ok res, t)"
  obtains r token where "res = service_result r (Some token)" and "created_profile P c name (sys_db s) (sys_db t) r token"
    and "on_db repo_inv t" and "sys_health t = sys_health s"
proof (cases "normalize_name P name")
  case (Inl e)
  with run show ?thesis by (simp add: service_create_invalid)
next
  case (Inr n)
  obtain m uid secret tb w where m: "fresh_material P c n m uid secret tb" and
    c: "service_create P c name s = bindP (insert_pending P m) (\<lambda>r. ret (service_result r (Some (url_token tb)))) (s\<lparr>sys_world := w\<rparr>)"
    by (rule service_create_run [OF env Inr])
  from run c obtain r s1 where ins: "insert_pending P m (s\<lparr>sys_world := w\<rparr>) = (Ok r, s1)"
    and res: "res = service_result r (Some (url_token tb))" and t: "t = s1"
    by (auto simp: prog_simps elim: bindP_OkE)
  have "on_db repo_inv (s\<lparr>sys_world := w\<rparr>)" using I by simp
  from insert_pending_Ok [OF this ins] obtain sid hid t1 t2 t3 where r: "r = new_record m t1"
    and add: "add_profile m sid hid t1 t2 t3 (sys_db s) = Inr (sys_db t)" and h: "sys_health t = sys_health s"
    using t by auto
  note v = add_profile_view [OF I [unfolded on_db_def] add] and o = add_profile_owner [OF I [unfolded on_db_def] add]
  have "created_profile P c name (sys_db s) (sys_db t) r (url_token tb)"
    using m Inr v o unfolding created_profile_def r fresh_material_def by (auto simp: new_record_fields)
  with that [OF res] v(3) h show ?thesis by (simp add: on_db_def)
qed

lemma service_create_error:
  assumes env: "crypto_ok P" "random_ok P" "length (wrap_key c) = KEY_SIZE"
    and I: "on_db repo_inv s" and run: "service_create P c name s = (r, t)" and bad: "\<nexists>a. r = Ok a"
  shows "r \<in> {Raise InvalidProfileName, Raise ProfileConflict} \<or> r = Raise OperationalError \<and> \<not> storage_ok P"
    and "sys_db t = sys_db s"
proof -
  have "(r \<in> {Raise InvalidProfileName, Raise ProfileConflict} \<or> r = Raise OperationalError \<and> \<not> storage_ok P) \<and> sys_db t = sys_db s"
  proof (cases "normalize_name P name")
    case (Inl e)
    with run normalize_name_error [OF Inl] show ?thesis by (simp add: service_create_invalid)
  next
    case (Inr n)
    obtain m uid secret tb w where
      c: "service_create P c name s = bindP (insert_pending P m) (\<lambda>r. ret (service_result r (Some (url_token tb)))) (s\<lparr>sys_world := w\<rparr>)"
      by (rule service_create_run [OF env Inr])
    obtain r1 s1 where ins: "insert_pending P m (s\<lparr>sys_world := w\<rparr>) = (r1, s1)" by fastforce
    have "repo_inv (sys_db (s\<lparr>sys_world := w\<rparr>))" using I by (simp add: on_db_def)
    from implementsD(2) [OF insert_pending_refines this ins] run c ins bad show ?thesis
      by (cases r1) (auto simp: insert_spec_def prog_simps)
  qed
  then show "r \<in> {Raise InvalidProfileName, Raise ProfileConflict} \<or> r = Raise OperationalError \<and> \<not> storage_ok P"
    "sys_db t = sys_db s" by auto
qed

section \<open>Local state changes\<close>

lemma keeps_service [keeps_intros]:
  "(\<And>i st err. keeps I (set_state P i st err)) \<Longrightarrow> keeps I (disable_local P j)"
  "(\<And>i st err. keeps I (set_state P i st err)) \<Longrightarrow> keeps I (enable_local P j)"
  "(\<And>i st err. keeps I (set_state P i st err)) \<Longrightarrow> keeps I (mark_active P j)"
  "(\<And>i st err. keeps I (set_state P i st err)) \<Longrightarrow> keeps I (mark_error_local P j code)"
  unfolding disable_local_def enable_local_def mark_active_def mark_error_local_def
  by (intro keeps_intros; assumption)+

lemma keeps_on_world_service [keeps_intros]:
  assumes "quiet P J"
  shows "keeps (on_world J) (service_create P c name)"
  unfolding service_create_def random_exact_def encrypt_field_def Let_def by (intro keeps_intros assms)

lemma returns_service [returns_intros]:
  "returns (service_create P c name)" "returns (disable_local P i)" "returns (enable_local P i)"
  "returns (mark_active P i)" "returns (mark_error_local P i code)"
  unfolding service_create_def random_exact_def encrypt_field_def disable_local_def enable_local_def mark_active_def
    mark_error_local_def by (intro returns_intros)+

end
