(* ===== verification/Integrations.thy ===== *)
theory Integrations
  imports Service
begin

text \<open>
  The clients of the remote services: \<^verbatim>\<open>integrations/xray.py\<close>, \<^verbatim>\<open>integrations/hysteria.py\<close> and
  \<^verbatim>\<open>integrations/supervisor.py\<close>. The services themselves are parameters of the platform. Times are in
  microseconds. The polling loop of \<open>wait_ready\<close> runs on fuel; \<open>wait_ready_returns\<close> shows that the fuel
  is enough for every clock that does not run backwards and sleeps for as long as it is told.
\<close>

section \<open>Xray\<close>

definition VISION_FLOW :: ustr where "VISION_FLOW = U ''xtls-rprx-vision''"
definition MUTATION_TIMEOUT :: int where "MUTATION_TIMEOUT = 3000000"
definition LIST_TIMEOUT :: int where "LIST_TIMEOUT = 2000000"
definition INITIAL_READY_DELAY :: int where "INITIAL_READY_DELAY = 50000"
definition MAX_READY_DELAY :: int where "MAX_READY_DELAY = 250000"

definition unavailable_codes :: "status_code list" where
  "unavailable_codes = [CANCELLED, DEADLINE_EXCEEDED, RESOURCE_EXHAUSTED, UNAVAILABLE]"

definition raise_rpc :: "status_code \<Rightarrow> ('w, 'a) op" where
  "raise_rpc code = (if code \<in> set unavailable_codes then raise RuntimeUnavailable else raise RuntimeRejected)"

definition xray_runtime_id :: "ustr \<Rightarrow> exn + ustr" where
  "xray_runtime_id v = (if runtime_id_pattern v then Inr v else Inl InvalidRuntimeIdentifier)"

text \<open>The constructors check their arguments; the client is its inbound tag.\<close>

definition grpc_xray_client :: "ustr \<Rightarrow> ustr \<Rightarrow> exn + ustr" where
  "grpc_xray_client target inbound_tag =
     (if strip target = [] \<or> strip inbound_tag = [] then Inl ValueError else Inr inbound_tag)"

definition xray_client_from_stub :: "ustr \<Rightarrow> exn + ustr" where
  "xray_client_from_stub inbound_tag = (if strip inbound_tag = [] then Inl ValueError else Inr inbound_tag)"

definition alter_inbound :: "'w platform \<Rightarrow> ustr \<Rightarrow> xray_operation \<Rightarrow> ('w, unit) op" where
  "alter_inbound P tag operation =
     bindP (world_call (xray_alter P \<lparr>request_tag = tag, request_operation = operation\<rparr> MUTATION_TIMEOUT)) (\<lambda>reply.
       case reply of None \<Rightarrow> ret () | Some code \<Rightarrow> raise_rpc code)"

definition xray_add_user :: "'w platform \<Rightarrow> ustr \<Rightarrow> ustr \<Rightarrow> uuid \<Rightarrow> ('w, unit) op" where
  "xray_add_user P tag runtime_id user_id = bindP (lift_result (xray_runtime_id runtime_id)) (\<lambda>email.
     alter_inbound P tag (AddUserOperation \<lparr>user_level = 0, user_email = email,
       user_account = \<lparr>account_id = uuid_str user_id, account_flow = VISION_FLOW, account_encryption = U ''none''\<rparr>\<rparr>))"

definition xray_remove_user :: "'w platform \<Rightarrow> ustr \<Rightarrow> ustr \<Rightarrow> ('w, unit) op" where
  "xray_remove_user P tag runtime_id = bindP (lift_result (xray_runtime_id runtime_id)) (\<lambda>email.
     alter_inbound P tag (RemoveUserOperation email))"

definition xray_list_users :: "'w platform \<Rightarrow> ustr \<Rightarrow> ('w, ustr set) op" where
  "xray_list_users P tag = bindP (world_call (xray_users P tag LIST_TIMEOUT)) (\<lambda>reply.
     case reply of Inl code \<Rightarrow> raise_rpc code | Inr emails \<Rightarrow> ret (set emails))"

fun ready_loop :: "nat \<Rightarrow> 'w platform \<Rightarrow> ustr \<Rightarrow> int \<Rightarrow> int \<Rightarrow> ('w, unit) op" where
  "ready_loop 0 P tag deadline delay = stuck"
| "ready_loop (Suc fuel) P tag deadline delay =
     bindP (world_call (mono_clock P)) (\<lambda>now.
     let remaining = deadline - now in
     if remaining \<le> 0 then raise RuntimeUnavailable
     else bindP (world_call (xray_count P tag (min LIST_TIMEOUT remaining))) (\<lambda>reply. case reply of
       None \<Rightarrow> ret ()
     | Some code \<Rightarrow>
         if code \<notin> set unavailable_codes then raise_rpc code
         else bindP (world_call (mono_clock P)) (\<lambda>now2.
           let remaining2 = deadline - now2 in
           if remaining2 \<le> 0 then raise RuntimeUnavailable
           else bindP (world_call (\<lambda>w. ((), os_sleep P (min (min delay MAX_READY_DELAY) remaining2) w))) (\<lambda>_.
             ready_loop fuel P tag deadline (min (delay * 2) MAX_READY_DELAY)))))"

definition ready_fuel :: "int \<Rightarrow> nat" where
  "ready_fuel timeout = nat (timeout div INITIAL_READY_DELAY) + 2"

definition wait_ready :: "'w platform \<Rightarrow> ustr \<Rightarrow> int \<Rightarrow> ('w, unit) op" where
  "wait_ready P tag timeout = (if timeout \<le> 0 then raise ValueError
     else bindP (world_call (mono_clock P)) (\<lambda>now.
       ready_loop (ready_fuel timeout) P tag (now + timeout) INITIAL_READY_DELAY))"

section \<open>Hysteria2\<close>

text \<open>\<^verbatim>\<open>httpx.URL\<close> is a library parser; the constructor sees its parts.\<close>

record url_parts =
  url_scheme :: ustr
  url_userinfo :: bytes
  url_path :: ustr
  url_query :: bytes
  url_fragment :: ustr

definition hysteria_client :: "url_parts \<Rightarrow> ustr \<Rightarrow> exn + ustr" where
  "hysteria_client url api_secret =
     (if url_scheme url \<notin> {U ''http'', U ''https''} \<or> url_userinfo url \<noteq> [] \<or> url_query url \<noteq> []
         \<or> url_fragment url \<noteq> [] \<or> url_path url \<notin> {[], U ''/''} then Inl ValueError
      else if \<not> (1 \<le> length api_secret \<and> length api_secret \<le> 512) \<or> \<not> isascii api_secret
         \<or> 13 \<in> set api_secret \<or> 10 \<in> set api_secret then Inl ValueError
      else Inr api_secret)"

definition hysteria_runtime_id :: "ustr \<Rightarrow> exn + ustr" where
  "hysteria_runtime_id v = (if runtime_id_pattern v then Inr v else Inl InvalidHysteriaRuntimeIdentifier)"

definition hysteria_kick :: "'w platform \<Rightarrow> ustr \<Rightarrow> ('w, unit) op" where
  "hysteria_kick P runtime_id = bindP (lift_result (hysteria_runtime_id runtime_id)) (\<lambda>v.
     bindP (world_call (hysteria_post P (U ''/kick'') [v])) (\<lambda>reply. case reply of
       HttpError \<Rightarrow> raise HysteriaRuntimeUnavailable
     | HttpRaises e \<Rightarrow> raise e
     | HttpStatus status \<Rightarrow> if \<not> (200 \<le> status \<and> status < 300) then raise HysteriaRuntimeUnavailable else ret ()))"

section \<open>Supervisor\<close>

definition supervisor_client :: "ustr \<Rightarrow> exn + ustr" where
  "supervisor_client socket_path = (if take 1 socket_path \<noteq> U ''/'' then Inl ValueError else Inr socket_path)"

definition supervisor_restart :: "'w platform \<Rightarrow> ('w, unit) op" where
  "supervisor_restart P = bindP (world_call (supervisor_post P (U ''/restart''))) (\<lambda>reply. case reply of
     HttpError \<Rightarrow> raise SupervisorUnavailable
   | HttpRaises e \<Rightarrow> raise e
   | HttpStatus status \<Rightarrow> if status \<noteq> 202 then raise SupervisorUnavailable else ret ())"

section \<open>Frame\<close>

lemma keeps_http_reply [keeps_intros]:
  "keeps I a \<Longrightarrow> (\<And>e. keeps I (b e)) \<Longrightarrow> (\<And>n. keeps I (c n)) \<Longrightarrow>
   keeps I (case r of HttpError \<Rightarrow> a | HttpRaises e \<Rightarrow> b e | HttpStatus n \<Rightarrow> c n)"
  by (cases r) auto

lemma returns_http_reply [returns_intros]:
  "returns a \<Longrightarrow> (\<And>e. returns (b e)) \<Longrightarrow> (\<And>n. returns (c n)) \<Longrightarrow>
   returns (case r of HttpError \<Rightarrow> a | HttpRaises e \<Rightarrow> b e | HttpStatus n \<Rightarrow> c n)"
  by (cases r) auto

lemma keeps_raise_rpc [keeps_intros]: "keeps I (raise_rpc code)"
  unfolding raise_rpc_def by (intro keeps_intros)

text \<open>The clients only talk to the outside world: they keep whatever a call to it keeps.\<close>

lemma keeps_client_calls:
  fixes P :: "'w platform"
  assumes "\<And>(f :: 'w \<Rightarrow> status_code option \<times> 'w). keeps I (world_call f)"
    and "\<And>(f :: 'w \<Rightarrow> (status_code + ustr list) \<times> 'w). keeps I (world_call f)"
    and "\<And>(f :: 'w \<Rightarrow> http_reply \<times> 'w). keeps I (world_call f)"
    and "\<And>(f :: 'w \<Rightarrow> int \<times> 'w). keeps I (world_call f)"
    and "\<And>(f :: 'w \<Rightarrow> unit \<times> 'w). keeps I (world_call f)"
  shows "keeps I (xray_add_user P tag rid uid)" "keeps I (xray_remove_user P tag rid)" "keeps I (xray_list_users P tag)"
    "keeps I (ready_loop n P tag deadline delay)" "keeps I (wait_ready P tag timeout)"
    "keeps I (hysteria_kick P rid)" "keeps I (supervisor_restart P)"
proof -
  show loop: "keeps I (ready_loop n P tag deadline delay)" for n deadline delay
    by (induction n arbitrary: deadline delay) (auto simp only: ready_loop.simps intro!: keeps_intros assms)
  show "keeps I (wait_ready P tag timeout)"
    unfolding wait_ready_def by (intro keeps_intros assms loop)
  show "keeps I (xray_add_user P tag rid uid)" "keeps I (xray_remove_user P tag rid)" "keeps I (xray_list_users P tag)"
    "keeps I (hysteria_kick P rid)" "keeps I (supervisor_restart P)"
    unfolding xray_add_user_def xray_remove_user_def alter_inbound_def xray_list_users_def hysteria_kick_def supervisor_restart_def
    by (intro keeps_intros assms)+
qed

lemmas clients_on_db [keeps_intros] = keeps_client_calls [where I = "on_db J" for J, OF keeps_world_call keeps_world_call
  keeps_world_call keeps_world_call keeps_world_call]
lemmas clients_untouched [keeps_intros] = keeps_client_calls [where I = "untouched db h" for db h, OF untouched_world_call
  untouched_world_call untouched_world_call untouched_world_call untouched_world_call]

lemma keeps_on_world_clients [keeps_intros]:
  assumes "quiet P J"
  shows "keeps (on_world J) (wait_ready P tag timeout)" "keeps (on_world J) (hysteria_kick P rid)"
proof -
  have loop: "keeps (on_world J) (ready_loop n P tag deadline delay)" for n deadline delay
    by (induction n arbitrary: deadline delay) (auto simp only: ready_loop.simps intro!: keeps_intros assms)
  show "keeps (on_world J) (wait_ready P tag timeout)" "keeps (on_world J) (hysteria_kick P rid)"
    unfolding wait_ready_def hysteria_kick_def by (intro keeps_intros assms loop)+
qed

lemma returns_raise_rpc [returns_intros]: "returns (raise_rpc code)"
  unfolding raise_rpc_def by (intro returns_intros)

lemma returns_clients [returns_intros]:
  "returns (xray_add_user P tag rid uid)" "returns (xray_remove_user P tag rid)" "returns (xray_list_users P tag)"
  "returns (hysteria_kick P rid)" "returns (supervisor_restart P)"
  unfolding xray_add_user_def xray_remove_user_def alter_inbound_def xray_list_users_def hysteria_kick_def supervisor_restart_def
  by (intro returns_intros)+

section \<open>The readiness loop returns\<close>

text \<open>
  What \<^verbatim>\<open>time.monotonic\<close> and \<^verbatim>\<open>time.sleep\<close> promise: there is a time of the world that no call moves
  backwards, which bounds what the clock reads, and which a sleep advances by at least its length.
\<close>

definition clock_contract :: "'w platform \<Rightarrow> ('w \<Rightarrow> int) \<Rightarrow> bool" where
  "clock_contract P time \<longleftrightarrow>
     (\<forall>w. time w \<le> fst (mono_clock P w) \<and> fst (mono_clock P w) \<le> time (snd (mono_clock P w)))
   \<and> (\<forall>d w. time w + d \<le> time (os_sleep P d w))
   \<and> (\<forall>tag d w. time w \<le> time (snd (xray_count P tag d w)))"

definition clock_ok :: "'w platform \<Rightarrow> bool" where
  "clock_ok P \<longleftrightarrow> (\<exists>time. clock_contract P time)"

lemma clock_contractD:
  assumes "clock_contract P time"
  shows "mono_clock P w = (t, w') \<Longrightarrow> time w \<le> t \<and> t \<le> time w'"
    and "time w + d \<le> time (os_sleep P d w)"
    and "xray_count P tag d w = (r, w') \<Longrightarrow> time w \<le> time w'"
  using assms unfolding clock_contract_def by (metis fst_conv snd_conv)+

lemma ready_loop_returns:
  assumes clock: "clock_contract P time"
  shows "INITIAL_READY_DELAY \<le> delay \<Longrightarrow> deadline - time (sys_world s) \<le> INITIAL_READY_DELAY * int n
     \<Longrightarrow> fst (ready_loop (Suc n) P tag deadline delay s) \<noteq> Stuck"
proof (induction n arbitrary: delay s)
  case 0
  obtain t w where t: "mono_clock P (sys_world s) = (t, w)" by fastforce
  with 0 clock_contractD(1) [OF clock t] show ?case by (simp add: prog_simps)
next
  case (Suc n)
  obtain t w where t: "mono_clock P (sys_world s) = (t, w)" by fastforce
  obtain reply w2 where r: "xray_count P tag (min LIST_TIMEOUT (deadline - t)) w = (reply, w2)" by fastforce
  obtain t2 w3 where t2: "mono_clock P w2 = (t2, w3)" by fastforce
  let ?pause = "min (min delay MAX_READY_DELAY) (deadline - t2)"
  have mono: "time (sys_world s) \<le> t2" "t2 \<le> time w3"
    using clock_contractD(1) [OF clock t] clock_contractD(3) [OF clock r] clock_contractD(1) [OF clock t2] by auto
  have slept: "time w3 + ?pause \<le> time (os_sleep P ?pause w3)" by (rule clock_contractD(2) [OF clock])
  have "fst (ready_loop (Suc n) P tag deadline (min (delay * 2) MAX_READY_DELAY)
      (s\<lparr>sys_world := os_sleep P ?pause w3\<rparr>)) \<noteq> Stuck"
  proof (rule Suc.IH)
    show "INITIAL_READY_DELAY \<le> min (delay * 2) MAX_READY_DELAY"
      using Suc.prems(1) by (simp add: INITIAL_READY_DELAY_def MAX_READY_DELAY_def)
    show "deadline - time (sys_world (s\<lparr>sys_world := os_sleep P ?pause w3\<rparr>)) \<le> INITIAL_READY_DELAY * int n"
      using Suc.prems mono slept by (auto simp: INITIAL_READY_DELAY_def MAX_READY_DELAY_def min_def split: if_splits)
  qed
  with t r t2 show ?case
    by (subst ready_loop.simps, cases reply)
      (auto simp add: prog_simps world_call_def raise_rpc_def simp del: ready_loop.simps)
qed

lemma wait_ready_returns [returns_intros]: "clock_ok P \<Longrightarrow> returns (wait_ready P tag timeout)"
proof -
  assume "clock_ok P"
  then obtain time where clock: "clock_contract P time" by (auto simp: clock_ok_def)
  show "returns (wait_ready P tag timeout)"
    unfolding returns_def
  proof
    fix s :: "'a sys"
    obtain t w where t: "mono_clock P (sys_world s) = (t, w)" by fastforce
    have fuel: "ready_fuel timeout = Suc (Suc (nat (timeout div INITIAL_READY_DELAY)))" by (simp add: ready_fuel_def)
    have "fst (ready_loop (Suc (Suc (nat (timeout div INITIAL_READY_DELAY)))) P tag (t + timeout) INITIAL_READY_DELAY
       (s\<lparr>sys_world := w\<rparr>)) \<noteq> Stuck" if "0 < timeout"
      using clock_contractD(1) [OF clock t] that
      by (intro ready_loop_returns [OF clock]) (auto simp: INITIAL_READY_DELAY_def)
    with t show "fst (wait_ready P tag timeout s) \<noteq> Stuck"
      by (simp add: wait_ready_def fuel prog_simps del: ready_loop.simps)
  qed
qed

text \<open>Every exception of a client names the failure of its service, or comes from the library.\<close>

lemma world_call_not_Raise [simp]: "world_call f s \<noteq> (Raise e, t)"
  by (auto simp: world_call_def split: prod.splits)

lemma wait_ready_errors:
  assumes "wait_ready P tag timeout s = (Raise e, t)"
  shows "e = (if timeout \<le> 0 then ValueError else RuntimeUnavailable) \<or> 0 < timeout \<and> e = RuntimeRejected"
proof -
  have loop: "e \<in> {RuntimeUnavailable, RuntimeRejected}" if "ready_loop n P tag deadline delay s = (Raise e, t)"
    for n deadline delay s
    using that
    by (induction n arbitrary: delay s)
      (auto simp: prog_simps Let_def raise_rpc_def elim!: bindP_RaiseE split: if_splits option.splits)
  show ?thesis
    using assms by (auto simp: wait_ready_def raise_run elim!: bindP_RaiseE dest!: loop split: if_splits)
qed

end
