(* ===== verification/Links.thy ===== *)
theory Links
  imports Integrations
begin

text \<open>
  \<^verbatim>\<open>control/src/ezopenpn/profiles/links.py\<close>: the VLESS and Hysteria2 links of a profile, the combined
  subscription and its QR code. \<open>parse_link\<close> is what a client application reads from a link; the round
  trips \<open>vless_link_roundtrip\<close> and \<open>hysteria_link_roundtrip\<close> show that it reads the material back. Links exist
  for active profiles only.
\<close>

section \<open>Link construction\<close>

definition MAX_QR_VALUE_BYTES :: nat where "MAX_QR_VALUE_BYTES = 8192"
definition TOKEN_LIMIT :: nat where "TOKEN_LIMIT = 128"

record vless_material =
  vm_user_id :: uuid
  vm_host :: ipv4
  vm_public_key :: ustr
  vm_short_id :: ustr
  vm_port :: int

record hysteria_material =
  hm_secret :: ustr
  hm_host :: ipv4
  hm_obfs_password :: ustr
  hm_port :: int

record transport_link_config =
  tc_host :: ipv4
  tc_reality_public_key :: ustr
  tc_reality_short_id :: ustr
  tc_hysteria_obfs_password :: ustr
  tc_public_port :: int
  tc_panel_port :: int

definition short_id_pattern :: "ustr \<Rightarrow> bool" where
  "short_id_pattern s \<longleftrightarrow> 2 \<le> length s \<and> length s \<le> 16 \<and> list_all is_lower_hex s"

definition opaque_value :: "ustr \<Rightarrow> bool" where
  "opaque_value v \<longleftrightarrow> v \<noteq> [] \<and> isascii v \<and> \<not> list_ex isspace v"

definition check_transport_link_config :: "transport_link_config \<Rightarrow> exn + transport_link_config" where
  "check_transport_link_config cfg =
     (if \<not> opaque_value (tc_reality_public_key cfg) \<or> \<not> opaque_value (tc_hysteria_obfs_password cfg) then Inl ValueError
      else if \<not> short_id_pattern (tc_reality_short_id cfg) then Inl ValueError
      else if \<not> (1 \<le> tc_public_port cfg \<and> tc_public_port cfg \<le> 65535)
           \<or> \<not> (1 \<le> tc_panel_port cfg \<and> tc_panel_port cfg \<le> 65535) then Inl ValueError
      else Inr cfg)"

definition vless_query :: "vless_material \<Rightarrow> (ustr \<times> ustr) list" where
  "vless_query m = [(U ''type'', U ''tcp''), (U ''security'', U ''reality''), (U ''encryption'', U ''none''),
     (U ''flow'', VISION_FLOW), (U ''pbk'', vm_public_key m), (U ''fp'', U ''chrome''),
     (U ''sni'', ipv4_str (vm_host m)), (U ''sid'', vm_short_id m)]"

definition build_vless_link :: "vless_material \<Rightarrow> ustr \<Rightarrow> exn + ustr" where
  "build_vless_link m label = bind_sum (urlencode (vless_query m)) (\<lambda>query.
     bind_sum (quote (uuid_str (vm_user_id m))) (\<lambda>user.
     let authority = user @ U ''@'' @ ipv4_str (vm_host m) @ U '':'' @ int_str (vm_port m) in
     bind_sum (quote label) (\<lambda>l.
       Inr (U ''vless://'' @ authority @ U ''?'' @ query @ U ''#'' @ l))))"

definition hysteria_query :: "hysteria_material \<Rightarrow> (ustr \<times> ustr) list" where
  "hysteria_query m = [(U ''obfs'', U ''salamander''), (U ''obfs-password'', hm_obfs_password m)]"

definition build_hysteria_link :: "hysteria_material \<Rightarrow> ustr \<Rightarrow> exn + ustr" where
  "build_hysteria_link m label = bind_sum (urlencode (hysteria_query m)) (\<lambda>query.
     bind_sum (quote (hm_secret m)) (\<lambda>secret.
     let authority = secret @ U ''@'' @ ipv4_str (hm_host m) @ U '':'' @ int_str (hm_port m) in
     bind_sum (quote label) (\<lambda>l.
       Inr (U ''hysteria2://'' @ authority @ U ''/?'' @ query @ U ''#'' @ l))))"

definition build_subscription :: "ustr \<Rightarrow> ustr \<Rightarrow> exn + ustr" where
  "build_subscription vless hysteria = bind_sum (utf8_encode (vless @ [10] @ hysteria)) (\<lambda>payload.
     Inr (b64encode payload))"

text \<open>\<open>segno_svg\<close> is the QR library: the SVG text, or \<open>None\<close> for \<^verbatim>\<open>DataOverflowError\<close>.\<close>

definition build_qr_svg :: "(ustr \<Rightarrow> ustr option) \<Rightarrow> ustr \<Rightarrow> exn + ustr" where
  "build_qr_svg segno_svg v = bind_sum (utf8_encode v) (\<lambda>encoded.
     if MAX_QR_VALUE_BYTES < length encoded then Inl LinkValueTooLong
     else case segno_svg v of None \<Rightarrow> Inl LinkValueTooLong | Some svg \<Rightarrow> Inr svg)"

definition encode_url_secret :: "bytes \<Rightarrow> ustr" where
  "encode_url_secret v = url_token v"

section \<open>The link service\<close>

definition link_plaintext :: "'w platform \<Rightarrow> cipher \<Rightarrow> profile_record \<Rightarrow> exn + (uuid \<times> ustr \<times> ustr)" where
  "link_plaintext P c r = (case rec_wrapped_profile_key r of
     None \<Rightarrow> Inl ProfileLinksUnavailable
   | Some wrapped \<Rightarrow>
       bind_sum (catch_sum
         (bind_sum (unwrap_profile_key P c (rec_profile_id r) wrapped) (\<lambda>key.
          bind_sum (profile_value_context (rec_profile_id r) (U ''user-id'')) (\<lambda>ctx1.
          bind_sum (decrypt_profile_value P key (rec_user_id_ciphertext r) ctx1) (\<lambda>user_bytes.
          bind_sum (uuid_of_bytes user_bytes) (\<lambda>user_id.
          bind_sum (profile_value_context (rec_profile_id r) (U ''hysteria-auth'')) (\<lambda>ctx2.
          bind_sum (decrypt_profile_value P key (rec_hysteria_secret_ciphertext r) ctx2) (\<lambda>secret.
          bind_sum (profile_value_context (rec_profile_id r) (U ''subscription-token'')) (\<lambda>ctx3.
          bind_sum (decrypt_profile_value P key (rec_subscription_token_ciphertext r) ctx3) (\<lambda>token_bytes.
          bind_sum (decode_ascii token_bytes) (\<lambda>token.
            Inr (user_id, encode_url_secret secret, token)))))))))))
         (\<lambda>e. if e = CryptoError \<or> is_ValueError e then Inl ProfileLinksUnavailable else Inl e))
       (\<lambda>(user_id, secret, token).
         if \<not> (1 \<le> length token \<and> length token \<le> TOKEN_LIMIT) \<or> \<not> isascii token then Inl ProfileLinksUnavailable
         else Inr (user_id, secret, token)))"

definition bundle_for_record :: "'w platform \<Rightarrow> cipher \<Rightarrow> transport_link_config \<Rightarrow> profile_record \<Rightarrow> exn + link_bundle" where
  "bundle_for_record P c cfg r =
     (if rec_state r \<noteq> ACTIVE then Inl ProfileLinksUnavailable
      else bind_sum (link_plaintext P c r) (\<lambda>(user_id, hysteria_secret, subscription_token).
        bind_sum (build_vless_link \<lparr>vm_user_id = user_id, vm_host = tc_host cfg,
            vm_public_key = tc_reality_public_key cfg, vm_short_id = tc_reality_short_id cfg,
            vm_port = tc_public_port cfg\<rparr> (rec_name r)) (\<lambda>vless.
        bind_sum (build_hysteria_link \<lparr>hm_secret = hysteria_secret, hm_host = tc_host cfg,
            hm_obfs_password = tc_hysteria_obfs_password cfg, hm_port = tc_public_port cfg\<rparr> (rec_name r)) (\<lambda>hysteria.
        bind_sum (quote subscription_token) (\<lambda>q.
        Inr \<lparr>combined_url = U ''https://'' @ ipv4_str (tc_host cfg) @ U '':'' @ int_str (tc_panel_port cfg) @ U ''/s/'' @ q,
             vless_link = vless, hysteria_link = hysteria\<rparr>)))))"

definition subscription_for_token :: "'w platform \<Rightarrow> cipher \<Rightarrow> transport_link_config \<Rightarrow> ustr \<Rightarrow> ('w, ustr option) op" where
  "subscription_for_token P c cfg token = bindP (find_by_subscription_token P c token) (\<lambda>found. case found of
     None \<Rightarrow> ret None
   | Some r \<Rightarrow>
       if rec_state r \<noteq> ACTIVE then ret None
       else case bundle_for_record P c cfg r of
         Inl e \<Rightarrow> if e = ProfileLinksUnavailable then ret None else raise e
       | Inr b \<Rightarrow> bindP (lift_result (build_subscription (vless_link b) (hysteria_link b))) (\<lambda>body. ret (Some body)))"

section \<open>What a client reads\<close>

definition unquote_plus :: "ustr \<Rightarrow> bytes option" where
  "unquote_plus s = unquote_bytes (map (\<lambda>c. if c = 43 then 32 else c) s)"

fun decode_pairs :: "ustr list \<Rightarrow> (bytes \<times> bytes) list option" where
  "decode_pairs [] = Some []"
| "decode_pairs (x # xs) = (let (k, v) = break_at 61 x in
     case (unquote_plus k, unquote_plus v, decode_pairs xs) of
       (Some a, Some b, Some rest) \<Rightarrow> Some ((a, b) # rest) | _ \<Rightarrow> None)"

record link_view =
  lv_scheme :: ustr
  lv_user :: bytes
  lv_host :: ustr
  lv_query :: "(bytes \<times> bytes) list"
  lv_label :: bytes

definition parse_link :: "ustr \<Rightarrow> link_view option" where
  "parse_link s = (let (scheme, rest) = break_at 58 s; (front, fragment) = break_at 35 (drop 2 rest);
       (authority, query) = break_at 63 front; (user, host) = break_at 64 authority in
     case (unquote_bytes user, decode_pairs (split_on 38 query), unquote_bytes fragment) of
       (Some u, Some q, Some l) \<Rightarrow> Some \<lparr>lv_scheme = scheme, lv_user = u, lv_host = host, lv_query = q, lv_label = l\<rparr>
     | _ \<Rightarrow> None)"

lemma unquote_plus_quote:
  "unquote_plus (concat (map (\<lambda>b. if unat b = 32 then [43] else quote_byte b) bs)) = Some bs"
proof (induction bs)
  case Nil
  then show ?case by (simp add: unquote_plus_def)
next
  case (Cons b bs)
  have keep: "map (\<lambda>c. if c = 43 then 32 else c) (quote_byte b) = quote_byte b"
    using quote_byte_chars [of b] by (auto simp: list_all_iff quoted_char_def unreserved_def intro!: map_idI)
  show ?case
  proof (cases "unat b = 32")
    case True
    then have "word_of_nat 32 = b" by (metis of_nat_unat ucast_id)
    with True Cons show ?thesis by (simp add: unquote_plus_def)
  next
    case False
    with Cons keep show ?thesis by (simp add: unquote_plus_def unquote_quote_byte)
  qed
qed

lemma quote_plus_inverse: "quote_plus s = Inr q \<Longrightarrow> utf8_encode s = Inr bs \<Longrightarrow> unquote_plus q = Some bs"
  by (auto simp: quote_plus_def unquote_plus_quote)

lemma quote_inverse: "quote s = Inr q \<Longrightarrow> utf8_encode s = Inr bs \<Longrightarrow> unquote_bytes q = Some bs"
  by (auto simp: quote_def percent_codec.dec_enc)

fun encode_pairs :: "(ustr \<times> ustr) list \<Rightarrow> exn + (bytes \<times> bytes) list" where
  "encode_pairs [] = Inr []"
| "encode_pairs ((k, v) # ps) = bind_sum (utf8_encode k) (\<lambda>a. bind_sum (utf8_encode v) (\<lambda>b.
     bind_sum (encode_pairs ps) (\<lambda>rest. Inr ((a, b) # rest))))"

lemma quote_plus_set: "quote_plus s = Inr q \<Longrightarrow> c \<in> set q \<Longrightarrow> unreserved c \<or> c = 37 \<or> c = 43"
  using quote_plus_ok [of s q] by (auto simp: list_all_iff quoted_char_def)

lemma quote_pairs_decode:
  assumes "quote_pairs ps = Inr qs" and "encode_pairs ps = Inr bs"
  shows "decode_pairs qs = Some bs" and "\<forall>q \<in> set qs. \<forall>ch \<in> set q. unreserved ch \<or> ch = 37 \<or> ch = 43 \<or> ch = 61"
    and "length qs = length ps"
proof -
  have "decode_pairs qs = Some bs \<and> (\<forall>q \<in> set qs. \<forall>ch \<in> set q. unreserved ch \<or> ch = 37 \<or> ch = 43 \<or> ch = 61)
      \<and> length qs = length ps"
    using assms
  proof (induction ps arbitrary: qs bs rule: quote_pairs.induct)
    case 1
    then show ?case by simp
  next
    case (2 k v ps)
    then obtain qk qv rest a b bs' where q: "quote_plus k = Inr qk" "quote_plus v = Inr qv" "quote_pairs ps = Inr rest"
      "qs = (qk @ U ''='' @ qv) # rest" and e: "utf8_encode k = Inr a" "utf8_encode v = Inr b" "encode_pairs ps = Inr bs'"
      "bs = (a, b) # bs'" by (auto simp: bind_sum_eq_Inr)
    have "61 \<notin> set qk" using quote_plus_set [OF q(1), of 61] by (auto simp: unreserved_def)
    then have "break_at 61 (qk @ U ''='' @ qv) = (qk, qv)" by (simp add: break_at_append U_def)
    with 2(3) q e quote_plus_inverse [OF q(1) e(1)] quote_plus_inverse [OF q(2) e(2)]
    show ?case using 2(1) [OF q(3) e(3)] quote_plus_set [OF q(1)] quote_plus_set [OF q(2)]
      by (auto simp: Let_def U_def)
  qed
  then show "decode_pairs qs = Some bs" "\<forall>q \<in> set qs. \<forall>ch \<in> set q. unreserved ch \<or> ch = 37 \<or> ch = 43 \<or> ch = 61"
    "length qs = length ps" by auto
qed

lemma urlencode_decode:
  assumes "urlencode ps = Inr q" and "encode_pairs ps = Inr bs" and "ps \<noteq> []"
  shows "decode_pairs (split_on 38 q) = Some bs" and "\<forall>ch \<in> set q. unreserved ch \<or> ch = 37 \<or> ch = 43 \<or> ch = 61 \<or> ch = 38"
proof -
  from assms(1) obtain qs where qs: "quote_pairs ps = Inr qs" and q: "q = join_with [38] qs"
    by (auto simp: urlencode_def bind_sum_eq_Inr U_def)
  note d = quote_pairs_decode [OF qs assms(2)]
  have ne: "qs \<noteq> []" using d(3) assms(3) by auto
  have "\<forall>x \<in> set qs. 38 \<notin> set x" using d(2) by (fastforce simp: unreserved_def)
  with ne d(1) q show "decode_pairs (split_on 38 q) = Some bs" by (simp add: split_on_join)
  have "set (join_with [38] qs) \<subseteq> (\<Union>x \<in> set qs. set x) \<union> {38}"
    by (induction "[38 :: nat]" qs rule: join_with.induct) auto
  with d(2) q show "\<forall>ch \<in> set q. unreserved ch \<or> ch = 37 \<or> ch = 43 \<or> ch = 61 \<or> ch = 38" by blast
qed

lemma host_port_chars: "ch \<in> set (ipv4_str h @ U '':'' @ int_str port) \<Longrightarrow> unreserved ch \<or> ch = 58"
  using ipv4_str_unreserved [of h] dec_str_unreserved [of "nat port"] dec_str_unreserved [of "nat (- port)"]
  by (auto simp: list_all_iff int_str_def U_def unreserved_def split: if_splits)

lemma quote_set: "quote s = Inr q \<Longrightarrow> ch \<in> set q \<Longrightarrow> unreserved ch \<or> ch = 37"
  using quote_ok [of s q] by (auto simp: list_all_iff quoted_char_def)

text \<open>The parts of a link do not contain the separators that end them.\<close>

lemma parse_link_parts:
  assumes "quote user = Inr qu" and "utf8_encode user = Inr u" and "quote label = Inr ql" and "utf8_encode label = Inr l"
    and "urlencode ps = Inr q" and "encode_pairs ps = Inr bs" and "ps \<noteq> []"
    and "58 \<notin> set scheme" and "\<forall>ch \<in> set host. unreserved ch \<or> ch = 58 \<or> ch = 47"
  shows "parse_link (scheme @ U ''://'' @ qu @ U ''@'' @ host @ U ''?'' @ q @ U ''#'' @ ql)
     = Some \<lparr>lv_scheme = scheme, lv_user = u, lv_host = host, lv_query = bs, lv_label = l\<rparr>"
proof -
  note q = urlencode_decode [OF assms(5-7)]
  let ?front = "(qu @ 64 # host) @ 63 # q"
  have no: "35 \<notin> set ?front" "63 \<notin> set (qu @ 64 # host)" "64 \<notin> set qu"
    using quote_set [OF assms(1)] q(2) assms(9) by (fastforce simp: unreserved_def)+
  have "break_at 58 (scheme @ 58 # 47 # 47 # ?front @ 35 # ql) = (scheme, 47 # 47 # ?front @ 35 # ql)"
    by (rule break_at_append [OF assms(8)])
  moreover have "break_at 35 (?front @ 35 # ql) = (?front, ql)" by (rule break_at_append [OF no(1)])
  moreover have "break_at 63 ?front = (qu @ 64 # host, q)" by (rule break_at_append [OF no(2)])
  moreover have "break_at 64 (qu @ 64 # host) = (qu, host)" by (rule break_at_append [OF no(3)])
  ultimately show ?thesis
    using q(1) quote_inverse [OF assms(1,2)] quote_inverse [OF assms(3,4)]
    by (simp add: parse_link_def Let_def U_def)
qed

lemma build_vless_link_parts:
  assumes "build_vless_link m label = Inr link"
  obtains q qu ql where "urlencode (vless_query m) = Inr q" and "quote (uuid_str (vm_user_id m)) = Inr qu" and "quote label = Inr ql"
    and "link = U ''vless'' @ U ''://'' @ qu @ U ''@'' @ (ipv4_str (vm_host m) @ U '':'' @ int_str (vm_port m)) @ U ''?'' @ q @ U ''#'' @ ql"
  using assms by (auto simp: build_vless_link_def bind_sum_eq_Inr Let_def U_def)

lemma build_hysteria_link_parts:
  assumes "build_hysteria_link m label = Inr link"
  obtains q qu ql where "urlencode (hysteria_query m) = Inr q" and "quote (hm_secret m) = Inr qu" and "quote label = Inr ql"
    and "link = U ''hysteria2'' @ U ''://'' @ qu @ U ''@'' @ (ipv4_str (hm_host m) @ U '':'' @ int_str (hm_port m) @ U ''/'') @ U ''?'' @ q @ U ''#'' @ ql"
  using assms by (auto simp: build_hysteria_link_def bind_sum_eq_Inr Let_def U_def)

lemma vless_link_parses:
  assumes "build_vless_link m label = Inr link" and "encode_pairs (vless_query m) = Inr bs" and "utf8_encode label = Inr l"
  shows "parse_link link = Some \<lparr>lv_scheme = U ''vless'', lv_user = ascii_bytes (uuid_str (vm_user_id m)),
     lv_host = ipv4_str (vm_host m) @ U '':'' @ int_str (vm_port m), lv_query = bs, lv_label = l\<rparr>"
proof -
  obtain q qu ql where p: "urlencode (vless_query m) = Inr q" "quote (uuid_str (vm_user_id m)) = Inr qu" "quote label = Inr ql"
    and link: "link = U ''vless'' @ U ''://'' @ qu @ U ''@'' @ (ipv4_str (vm_host m) @ U '':'' @ int_str (vm_port m)) @ U ''?'' @ q @ U ''#'' @ ql"
    by (rule build_vless_link_parts [OF assms(1)])
  show ?thesis
    unfolding link
    by (rule parse_link_parts [OF p(2) utf8_encode_ascii [OF isascii_uuid_str] p(3) assms(3) p(1) assms(2)])
      (use host_port_chars [of _ "vm_host m" "vm_port m"] in \<open>auto simp: vless_query_def U_def\<close>)
qed

lemma hysteria_link_parses:
  assumes "build_hysteria_link m label = Inr link" and "encode_pairs (hysteria_query m) = Inr bs" and "utf8_encode label = Inr l"
    and "isascii (hm_secret m)"
  shows "parse_link link = Some \<lparr>lv_scheme = U ''hysteria2'', lv_user = ascii_bytes (hm_secret m),
     lv_host = ipv4_str (hm_host m) @ U '':'' @ int_str (hm_port m) @ U ''/'', lv_query = bs, lv_label = l\<rparr>"
proof -
  obtain q qu ql where p: "urlencode (hysteria_query m) = Inr q" "quote (hm_secret m) = Inr qu" "quote label = Inr ql"
    and link: "link = U ''hysteria2'' @ U ''://'' @ qu @ U ''@'' @ (ipv4_str (hm_host m) @ U '':'' @ int_str (hm_port m) @ U ''/'') @ U ''?'' @ q @ U ''#'' @ ql"
    by (rule build_hysteria_link_parts [OF assms(1)])
  show ?thesis
    unfolding link
    by (rule parse_link_parts [OF p(2) utf8_encode_ascii [OF assms(4)] p(3) assms(3) p(1) assms(2)])
      (use host_port_chars [of _ "hm_host m" "hm_port m"] in \<open>auto simp: hysteria_query_def U_def\<close>)
qed

section \<open>The service on a profile whose material opens\<close>

text \<open>A configuration that \<open>check_transport_link_config\<close> accepted.\<close>

definition config_ok :: "transport_link_config \<Rightarrow> bool" where
  "config_ok cfg \<longleftrightarrow> check_transport_link_config cfg = Inr cfg"

lemma config_okD:
  assumes "config_ok cfg"
  shows "isascii (tc_reality_public_key cfg)" "isascii (tc_hysteria_obfs_password cfg)" "isascii (tc_reality_short_id cfg)"
    "1 \<le> tc_public_port cfg" "tc_public_port cfg \<le> 65535" "1 \<le> tc_panel_port cfg" "tc_panel_port cfg \<le> 65535"
  using assms by (auto simp: config_ok_def check_transport_link_config_def opaque_value_def short_id_pattern_def
      isascii_def list_all_iff is_lower_hex_def split: if_splits)

lemma opens_token_length:
  "length tb = 32 \<Longrightarrow> length (url_token tb) = 43"
  by (simp add: length_url_token)

lemma link_plaintext_opens:
  assumes "opens P c r uid secret token" and "1 \<le> length token" and "length token \<le> 128" and "isascii token"
  shows "link_plaintext P c r = Inr (uid, url_token secret, token)"
  using assms
  by (auto simp: opens_def link_plaintext_def profile_value_context_ok decode_ascii_bytes encode_url_secret_def TOKEN_LIMIT_def)

lemma link_plaintext_errors: "link_plaintext P c r = Inl e \<Longrightarrow> e = ProfileLinksUnavailable"
  by (auto simp: link_plaintext_def bind_sum_def profile_value_context_ok decrypt_profile_value_def decode_ascii_def
      catch_sum_def uuid_of_bytes_error
      dest: unwrap_errors decrypt_errors split: option.splits sum.splits if_splits prod.splits)

lemma quote_encodable: "list_all encodable s \<Longrightarrow> \<exists>q. quote s = Inr q"
  using utf8_encode_ok [of s] by (auto simp: quote_def)

lemma quote_plus_ascii: "isascii s \<Longrightarrow> \<exists>q. quote_plus s = Inr q"
  by (simp add: quote_plus_def utf8_encode_ascii)

lemma urlencode_ascii: "\<forall>(k, v) \<in> set ps. isascii k \<and> isascii v \<Longrightarrow> \<exists>q. urlencode ps = Inr q"
proof -
  assume a: "\<forall>(k, v) \<in> set ps. isascii k \<and> isascii v"
  have "\<exists>qs. quote_pairs ps = Inr qs"
    using a by (induction ps rule: quote_pairs.induct) (auto simp: bind_sum_eq_Inr quote_plus_def utf8_encode_ascii)
  then show ?thesis by (auto simp: urlencode_def)
qed

lemma encode_pairs_ascii: "\<forall>(k, v) \<in> set ps. isascii k \<and> isascii v \<Longrightarrow> \<exists>bs. encode_pairs ps = Inr bs"
  by (induction ps rule: encode_pairs.induct) (auto simp: utf8_encode_ascii)

lemma isascii_ipv4_str: "isascii (ipv4_str a)"
  using ipv4_str_unreserved [of a] by (auto simp: isascii_def list_all_iff unreserved_def)

text \<open>Links of an active profile are built from its own material and its encodable name.\<close>

lemma bundle_for_record_ok:
  assumes cfg: "config_ok cfg" and r: "opens P c r uid secret (url_token tb)" "length tb = 32" "rec_state r = ACTIVE"
    and name: "list_all encodable (rec_name r)"
  obtains b where "bundle_for_record P c cfg r = Inr b"
    and "combined_url b = U ''https://'' @ ipv4_str (tc_host cfg) @ U '':'' @ int_str (tc_panel_port cfg) @ U ''/s/'' @ url_token tb"
    and "build_vless_link \<lparr>vm_user_id = uid, vm_host = tc_host cfg, vm_public_key = tc_reality_public_key cfg,
       vm_short_id = tc_reality_short_id cfg, vm_port = tc_public_port cfg\<rparr> (rec_name r) = Inr (vless_link b)"
    and "build_hysteria_link \<lparr>hm_secret = url_token secret, hm_host = tc_host cfg,
       hm_obfs_password = tc_hysteria_obfs_password cfg, hm_port = tc_public_port cfg\<rparr> (rec_name r) = Inr (hysteria_link b)"
proof -
  let ?v = "\<lparr>vm_user_id = uid, vm_host = tc_host cfg, vm_public_key = tc_reality_public_key cfg,
       vm_short_id = tc_reality_short_id cfg, vm_port = tc_public_port cfg\<rparr>"
  let ?h = "\<lparr>hm_secret = url_token secret, hm_host = tc_host cfg,
       hm_obfs_password = tc_hysteria_obfs_password cfg, hm_port = tc_public_port cfg\<rparr>"
  note a = config_okD [OF cfg]
  have ip: "isascii (ipv4_str h)" for h
    using ipv4_str_unreserved [of h] by (auto simp: isascii_def list_all_iff unreserved_def)
  obtain ql where ql: "quote (rec_name r) = Inr ql" using quote_encodable [OF name] by blast
  obtain qv where qv: "urlencode (vless_query ?v) = Inr qv"
    using urlencode_ascii [of "vless_query ?v"] a ip by (auto simp: vless_query_def VISION_FLOW_def U_def)
  obtain qh where qh: "urlencode (hysteria_query ?h) = Inr qh"
    using urlencode_ascii [of "hysteria_query ?h"] a by (auto simp: hysteria_query_def U_def)
  obtain qu where qu: "quote (uuid_str uid) = Inr qu" by (auto simp: quote_def utf8_encode_ascii)
  have t: "link_plaintext P c r = Inr (uid, url_token secret, url_token tb)"
    using r(2) by (intro link_plaintext_opens [OF r(1)]) (simp_all add: length_url_token)
  obtain vl where vl: "build_vless_link ?v (rec_name r) = Inr vl" using ql qv qu by (simp add: build_vless_link_def Let_def)
  obtain hl where hl: "build_hysteria_link ?h (rec_name r) = Inr hl"
    using ql qh by (simp add: build_hysteria_link_def quote_url_token Let_def)
  let ?b = "\<lparr>combined_url = U ''https://'' @ ipv4_str (tc_host cfg) @ U '':'' @ int_str (tc_panel_port cfg) @ U ''/s/'' @ url_token tb,
     vless_link = vl, hysteria_link = hl\<rparr>"
  have "bundle_for_record P c cfg r = Inr ?b"
    using r(3) t vl hl by (simp add: bundle_for_record_def quote_url_token)
  with vl hl show ?thesis by (intro that [of ?b]) simp_all
qed

lemma bundle_requires_active: "bundle_for_record P c cfg r = Inr b \<Longrightarrow> rec_state r = ACTIVE"
  by (auto simp: bundle_for_record_def split: if_splits)

end
