(* ===== verification/Reconcile.thy ===== *)
theory Reconcile
  imports Links "HOL-Library.AList"
begin

text \<open>
  \<^verbatim>\<open>profiles/reconcile.py\<close> and the result type of \<^verbatim>\<open>profiles/runtime.py\<close>: the reconciliation of the users of
  the Xray runtime with the active profiles of the store. \<open>runtime_contract\<close> states what the code relies on
  of Xray and of its supervisor, in terms of the users the runtime serves; \<open>reconcile_converges\<close> shows that a
  reconciliation that reports no error leaves the runtime with exactly the active profiles.
\<close>

section \<open>Operations\<close>

record reconcile_result =
  rr_added :: "ustr list"
  rr_removed :: "ustr list"
  rr_restarted :: bool
  rr_error_code :: "ustr option"

definition RECONCILE_FAILED :: ustr where "RECONCILE_FAILED = U ''runtime_reconcile_failed''"

definition initial_health :: health_snapshot where
  "initial_health = \<lparr>health_ready = False, health_error_code = Some RECONCILE_FAILED\<rparr>"

definition health_update :: "reconcile_result \<Rightarrow> ('w, unit) op" where
  "health_update res = modify (\<lambda>s. s\<lparr>sys_health := \<lparr>health_ready = (rr_error_code res = None),
     health_error_code = rr_error_code res\<rparr>\<rparr>)"

definition health_read :: "('w, health_snapshot) op" where
  "health_read = gets sys_health"

text \<open>The decryption that \<^verbatim>\<open>_user_id\<close> guards, shared with the coordinator's method of that name.\<close>

definition decrypt_user_id :: "'w platform \<Rightarrow> cipher \<Rightarrow> profile_record \<Rightarrow> bytes \<Rightarrow> exn + uuid" where
  "decrypt_user_id P c r wrapped =
     bind_sum (unwrap_profile_key P c (rec_profile_id r) wrapped) (\<lambda>key.
     bind_sum (profile_value_context (rec_profile_id r) (U ''user-id'')) (\<lambda>ctx.
     bind_sum (decrypt_profile_value P key (rec_user_id_ciphertext r) ctx) uuid_of_bytes))"

definition reconcile_user_id :: "'w platform \<Rightarrow> cipher \<Rightarrow> profile_record \<Rightarrow> exn + uuid" where
  "reconcile_user_id P c r = (case rec_wrapped_profile_key r of
     None \<Rightarrow> Inl ValueError
   | Some wrapped \<Rightarrow> catch_sum (decrypt_user_id P c r wrapped)
       (\<lambda>e. if e = CryptoError \<or> is_ValueError e then Inl ValueError else Inl e))"

fun desired_users :: "'w platform \<Rightarrow> cipher \<Rightarrow> profile_record list \<Rightarrow> (ustr \<times> uuid) list \<Rightarrow> exn + (ustr \<times> uuid) list" where
  "desired_users P c [] acc = Inr acc"
| "desired_users P c (r # rs) acc = bind_sum (reconcile_user_id P c r) (\<lambda>uid.
     desired_users P c rs (AList.update (rec_runtime_id r) uid acc))"

definition dict_get :: "(ustr \<times> uuid) list \<Rightarrow> ustr \<Rightarrow> ('w, uuid) op" where
  "dict_get d k = (case map_of d k of None \<Rightarrow> raise OtherError | Some v \<Rightarrow> ret v)"

definition add_desired :: "'w platform \<Rightarrow> ustr \<Rightarrow> (ustr \<times> uuid) list \<Rightarrow> ustr \<Rightarrow> ('w, unit) op" where
  "add_desired P tag desired runtime_id = bindP (dict_get desired runtime_id) (xray_add_user P tag runtime_id)"

definition is_active :: "profile_record \<Rightarrow> bool" where
  "is_active r \<longleftrightarrow> rec_state r = ACTIVE"

definition READY_TIMEOUT :: int where "READY_TIMEOUT = 6000000"

definition reconcile_body :: "'w platform \<Rightarrow> cipher \<Rightarrow> ustr \<Rightarrow> ('w, reconcile_result) op" where
  "reconcile_body P c tag =
     bindP (repo_list P) (\<lambda>records.
     let active = filter is_active records in
     bindP (lift_result (desired_users P c active [])) (\<lambda>desired.
     bindP (xray_list_users P tag) (\<lambda>current.
     let desired_ids = set (map fst desired);
         missing = sorted_list_of_set (desired_ids - current);
         extra = sorted_list_of_set (current - desired_ids);
         restarted = (extra \<noteq> []) in
     bindP (for_each (xray_remove_user P tag) extra) (\<lambda>_.
     bindP (if restarted then
         bindP (supervisor_restart P) (\<lambda>_.
         bindP (wait_ready P tag READY_TIMEOUT) (\<lambda>_.
         for_each (\<lambda>r. add_desired P tag desired (rec_runtime_id r)) active))
       else for_each (add_desired P tag desired) missing) (\<lambda>_.
     ret \<lparr>rr_added = missing, rr_removed = extra, rr_restarted = restarted, rr_error_code = None\<rparr>)))))"

definition reconcile_failure :: reconcile_result where
  "reconcile_failure = \<lparr>rr_added = [], rr_removed = [], rr_restarted = False, rr_error_code = Some RECONCILE_FAILED\<rparr>"

definition reconcile_run :: "'w platform \<Rightarrow> cipher \<Rightarrow> ustr \<Rightarrow> ('w, reconcile_result) op" where
  "reconcile_run P c tag = catch (reconcile_body P c tag) (\<lambda>_. ret reconcile_failure)"

section \<open>What the runtime promises\<close>

text \<open>
  \<open>users w\<close> is what the runtime serves in the world \<open>w\<close>: identifiers of users (e-mails) with their account.
  A mutation that is acknowledged has happened, one that is not may have; a listing tells the
  identifiers; an accepted restart forgets all users, since they only live in memory; nothing else
  touches them.
\<close>

type_synonym runtime_users = "ustr \<Rightarrow> ustr option"

definition runtime_contract :: "'w platform \<Rightarrow> ustr \<Rightarrow> ('w \<Rightarrow> runtime_users) \<Rightarrow> bool" where
  "runtime_contract P tag users \<longleftrightarrow>
     (\<forall>u d w reply w'. xray_alter P \<lparr>request_tag = tag, request_operation = AddUserOperation u\<rparr> d w = (reply, w') \<longrightarrow>
        users w' = (users w)(user_email u \<mapsto> account_id (user_account u)) \<or> reply \<noteq> None \<and> users w' = users w)
   \<and> (\<forall>e d w reply w'. xray_alter P \<lparr>request_tag = tag, request_operation = RemoveUserOperation e\<rparr> d w = (reply, w') \<longrightarrow>
        users w' = (users w)(e := None) \<or> reply \<noteq> None \<and> users w' = users w)
   \<and> (\<forall>d w reply w'. xray_users P tag d w = (reply, w') \<longrightarrow>
        users w' = users w \<and> (\<forall>emails. reply = Inr emails \<longrightarrow> set emails = dom (users w)))
   \<and> (\<forall>w reply w'. supervisor_post P (U ''/restart'') w = (reply, w') \<longrightarrow>
        users w' = Map.empty \<or> reply \<noteq> HttpStatus 202 \<and> users w' = users w)
   \<and> (\<forall>m. quiet P (\<lambda>w. users w = m))"

lemma runtime_contractD:
  assumes "runtime_contract P tag users"
  shows "xray_alter P \<lparr>request_tag = tag, request_operation = AddUserOperation u\<rparr> d w = (reply, w') \<Longrightarrow>
      users w' = (users w)(user_email u \<mapsto> account_id (user_account u)) \<or> reply \<noteq> None \<and> users w' = users w"
    and "xray_alter P \<lparr>request_tag = tag, request_operation = RemoveUserOperation e\<rparr> d w = (reply, w') \<Longrightarrow>
      users w' = (users w)(e := None) \<or> reply \<noteq> None \<and> users w' = users w"
    and "xray_users P tag d w = (listing, w') \<Longrightarrow>
      users w' = users w \<and> (\<forall>emails. listing = Inr emails \<longrightarrow> set emails = dom (users w))"
    and "supervisor_post P (U ''/restart'') w = (answer, w') \<Longrightarrow>
      users w' = Map.empty \<or> answer \<noteq> HttpStatus 202 \<and> users w' = users w"
proof -
  note c = assms [unfolded runtime_contract_def]
  show "xray_alter P \<lparr>request_tag = tag, request_operation = AddUserOperation u\<rparr> d w = (reply, w') \<Longrightarrow>
      users w' = (users w)(user_email u \<mapsto> account_id (user_account u)) \<or> reply \<noteq> None \<and> users w' = users w"
    by (rule c [THEN conjunct1, rule_format])
  show "xray_alter P \<lparr>request_tag = tag, request_operation = RemoveUserOperation e\<rparr> d w = (reply, w') \<Longrightarrow>
      users w' = (users w)(e := None) \<or> reply \<noteq> None \<and> users w' = users w"
    by (rule c [THEN conjunct2, THEN conjunct1, rule_format])
  show "xray_users P tag d w = (listing, w') \<Longrightarrow>
      users w' = users w \<and> (\<forall>emails. listing = Inr emails \<longrightarrow> set emails = dom (users w))"
    using c by (metis (no_types, lifting))
  show "supervisor_post P (U ''/restart'') w = (answer, w') \<Longrightarrow>
      users w' = Map.empty \<or> answer \<noteq> HttpStatus 202 \<and> users w' = users w"
    by (rule c [THEN conjunct2, THEN conjunct2, THEN conjunct2, THEN conjunct1, rule_format])
qed

abbreviation served :: "('w \<Rightarrow> runtime_users) \<Rightarrow> 'w sys \<Rightarrow> runtime_users" where
  "served users s \<equiv> users (sys_world s)"

lemma contract_quiet: "runtime_contract P tag users \<Longrightarrow> quiet P (\<lambda>w. users w = m)"
  by (simp add: runtime_contract_def)

lemma quiet_served:
  assumes "runtime_contract P tag users" and "\<And>J. quiet P J \<Longrightarrow> keeps (on_world J) m" and "m s = (r, t)"
  shows "served users t = served users s"
  using keepsD_eq [OF assms(2) [OF contract_quiet [OF assms(1)]] assms(3)] by (simp add: on_world_def)

lemma xray_add_user_served:
  assumes "runtime_contract P tag users" and "xray_add_user P tag rid uid s = (r, t)"
  shows "r = Ok () \<Longrightarrow> served users t = (served users s)(rid \<mapsto> uuid_str uid)"
    and "served users t = (served users s)(rid \<mapsto> uuid_str uid) \<or> served users t = served users s"
proof -
  let ?u = "\<lparr>user_level = 0, user_email = rid, user_account = \<lparr>account_id = uuid_str uid, account_flow = VISION_FLOW,
     account_encryption = U ''none''\<rparr>\<rparr>"
  obtain reply w' where x: "xray_alter P \<lparr>request_tag = tag, request_operation = AddUserOperation ?u\<rparr> MUTATION_TIMEOUT (sys_world s) = (reply, w')"
    by fastforce
  from runtime_contractD(1) [OF assms(1) x] have c: "users w' = (served users s)(rid \<mapsto> uuid_str uid) \<or> reply \<noteq> None \<and> users w' = served users s" by simp
  have "r = Ok () \<and> runtime_id_pattern rid \<and> reply = None \<and> t = s\<lparr>sys_world := w'\<rparr>
      \<or> (\<exists>e. r = Raise e) \<and> (t = s\<lparr>sys_world := w'\<rparr> \<or> t = s)"
    using assms(2) x
    by (cases reply) (auto simp: xray_add_user_def xray_runtime_id_def alter_inbound_def raise_rpc_def prog_simps split: if_splits)
  with c show "r = Ok () \<Longrightarrow> served users t = (served users s)(rid \<mapsto> uuid_str uid)"
    "served users t = (served users s)(rid \<mapsto> uuid_str uid) \<or> served users t = served users s" by auto
qed

lemma xray_remove_user_served:
  assumes "runtime_contract P tag users" and "xray_remove_user P tag rid s = (r, t)"
  shows "r = Ok () \<Longrightarrow> served users t = (served users s)(rid := None)"
    and "served users t = (served users s)(rid := None) \<or> served users t = served users s"
proof -
  obtain reply w' where x: "xray_alter P \<lparr>request_tag = tag, request_operation = RemoveUserOperation rid\<rparr> MUTATION_TIMEOUT (sys_world s) = (reply, w')"
    by fastforce
  note c = runtime_contractD(2) [OF assms(1) x]
  have "r = Ok () \<and> reply = None \<and> t = s\<lparr>sys_world := w'\<rparr> \<or> (\<exists>e. r = Raise e) \<and> (t = s\<lparr>sys_world := w'\<rparr> \<or> t = s)"
    using assms(2) x
    by (cases reply) (auto simp: xray_remove_user_def xray_runtime_id_def alter_inbound_def raise_rpc_def prog_simps split: if_splits)
  with c show "r = Ok () \<Longrightarrow> served users t = (served users s)(rid := None)"
    "served users t = (served users s)(rid := None) \<or> served users t = served users s" by auto
qed

lemma xray_list_users_served:
  assumes "runtime_contract P tag users" and "xray_list_users P tag s = (r, t)"
  shows "served users t = served users s" and "r = Ok ids \<Longrightarrow> ids = dom (served users s)"
proof -
  obtain reply w' where x: "xray_users P tag LIST_TIMEOUT (sys_world s) = (reply, w')" by fastforce
  from runtime_contractD(3) [OF assms(1) x] assms(2) x show "served users t = served users s" "r = Ok ids \<Longrightarrow> ids = dom (served users s)"
    by (cases reply; auto simp: xray_list_users_def raise_rpc_def prog_simps split: if_splits)+
qed

lemma supervisor_restart_served:
  assumes "runtime_contract P tag users" and "supervisor_restart P s = (r, t)"
  shows "r = Ok () \<Longrightarrow> served users t = Map.empty"
    and "served users t = Map.empty \<or> served users t = served users s"
proof -
  obtain reply w' where x: "supervisor_post P (U ''/restart'') (sys_world s) = (reply, w')" by fastforce
  from runtime_contractD(4) [OF assms(1) x] x assms(2) show "r = Ok () \<Longrightarrow> served users t = Map.empty" "served users t = Map.empty \<or> served users t = served users s"
    by (cases reply; auto simp: supervisor_restart_def prog_simps split: if_splits)+
qed

section \<open>Convergence\<close>

text \<open>The users that the store asks for: the active profiles, each with the account of its material.\<close>

definition wanted_users :: "'w platform \<Rightarrow> cipher \<Rightarrow> database \<Rightarrow> runtime_users" where
  "wanted_users P c db e = (case find (\<lambda>r. is_active r \<and> rec_runtime_id r = e) (records_of db) of
     None \<Rightarrow> None
   | Some r \<Rightarrow> (case reconcile_user_id P c r of Inl _ \<Rightarrow> None | Inr uid \<Rightarrow> Some (uuid_str uid)))"

definition active_ids :: "database \<Rightarrow> ustr set" where
  "active_ids db = rec_runtime_id ` set (filter is_active (records_of db))"

lemma desired_users_map:
  assumes "desired_users P c rs acc = Inr d" and "distinct (map rec_runtime_id rs)"
  shows "map_of d e = (case find (\<lambda>r. rec_runtime_id r = e) rs of None \<Rightarrow> map_of acc e
     | Some r \<Rightarrow> (case reconcile_user_id P c r of Inl _ \<Rightarrow> None | Inr uid \<Rightarrow> Some uid))"
    and "fst ` set d = fst ` set acc \<union> rec_runtime_id ` set rs"
    and "\<forall>r \<in> set rs. \<exists>uid. reconcile_user_id P c r = Inr uid"
proof -
  have "map_of d e = (case find (\<lambda>r. rec_runtime_id r = e) rs of None \<Rightarrow> map_of acc e
     | Some r \<Rightarrow> (case reconcile_user_id P c r of Inl _ \<Rightarrow> None | Inr uid \<Rightarrow> Some uid))
     \<and> fst ` set d = fst ` set acc \<union> rec_runtime_id ` set rs \<and> (\<forall>r \<in> set rs. \<exists>uid. reconcile_user_id P c r = Inr uid)"
    using assms
  proof (induction rs arbitrary: acc)
    case Nil
    then show ?case by simp
  next
    case (Cons r rs)
    then obtain uid where u: "reconcile_user_id P c r = Inr uid"
      and d: "desired_users P c rs (AList.update (rec_runtime_id r) uid acc) = Inr d" by (auto simp: bind_sum_eq_Inr)
    have "find (\<lambda>x. rec_runtime_id x = rec_runtime_id r) rs = None"
      unfolding find_None_iff using Cons.prems(2) by (metis (mono_tags, lifting) distinct.simps(2) image_eqI list.simps(9) set_map)
    with Cons.IH [OF d] Cons.prems(2) u show ?case
      by (auto simp: update_conv dom_update image_iff split: option.splits)
  qed
  then show "map_of d e = (case find (\<lambda>r. rec_runtime_id r = e) rs of None \<Rightarrow> map_of acc e
     | Some r \<Rightarrow> (case reconcile_user_id P c r of Inl _ \<Rightarrow> None | Inr uid \<Rightarrow> Some uid))"
    "fst ` set d = fst ` set acc \<union> rec_runtime_id ` set rs" "\<forall>r \<in> set rs. \<exists>uid. reconcile_user_id P c r = Inr uid"
    by blast+
qed

lemma find_filter: "find p (filter q xs) = find (\<lambda>x. q x \<and> p x) xs"
  by (induction xs) auto

lemma desired_users_wanted:
  assumes "repo_inv db" and "desired_users P c (filter is_active (records_of db)) [] = Inr d"
  shows "map_option uuid_str (map_of d e) = wanted_users P c db e" and "fst ` set d = active_ids db"
    and "dom (wanted_users P c db) = active_ids db"
proof -
  have dist: "distinct (map rec_runtime_id (filter is_active (records_of db)))"
    using records_of_distinct(2) [OF assms(1)] by (rule distinct_map_filter)
  note d = desired_users_map [OF assms(2) dist]
  show w: "map_option uuid_str (map_of d e) = wanted_users P c db e" for e
    unfolding d(1) wanted_users_def find_filter by (simp split: option.splits sum.splits)
  show f: "fst ` set d = active_ids db" using d(2) by (simp add: active_ids_def)
  have "dom (wanted_users P c db) = dom (map_of d)"
    using w by (auto simp: dom_def) (metis option.map_disc_iff option.exhaust not_None_eq)+
  then show "dom (wanted_users P c db) = active_ids db" using f by (simp add: dom_map_of_conv_image_fst)
qed

lemma for_each_map: "for_each f (map g xs) = for_each (\<lambda>x. f (g x)) xs"
  by (induction xs) auto

lemma for_each_remove_served:
  assumes "runtime_contract P tag users"
  shows "for_each (xray_remove_user P tag) es s = (Ok u, t) \<Longrightarrow> served users t = served users s |` (- set es)"
proof (induction es arbitrary: s)
  case Nil
  then show ?case by (simp add: prog_simps)
next
  case (Cons e es)
  from Cons.prems obtain s1 where "xray_remove_user P tag e s = (Ok (), s1)"
    and "for_each (xray_remove_user P tag) es s1 = (Ok u, t)" by (auto elim: bindP_OkE)
  with Cons.IH xray_remove_user_served(1) [OF assms] show ?case
    by (auto simp: restrict_map_def fun_eq_iff)
qed

lemma add_desired_OkE:
  assumes "add_desired P tag d e s = (Ok u, t)"
  obtains uid where "map_of d e = Some uid" and "xray_add_user P tag e uid s = (Ok (), t)"
  using assms by (auto simp: add_desired_def dict_get_def prog_simps elim!: bindP_OkE split: option.splits)

lemma for_each_add_served:
  assumes "runtime_contract P tag users"
  shows "for_each (add_desired P tag d) es s = (Ok u, t) \<Longrightarrow>
     served users t e = (if e \<in> set es then map_option uuid_str (map_of d e) else served users s e)"
proof (induction es arbitrary: s)
  case Nil
  then show ?case by (simp add: prog_simps)
next
  case (Cons x es)
  from Cons.prems obtain s1 where x: "add_desired P tag d x s = (Ok (), s1)"
    and rest: "for_each (add_desired P tag d) es s1 = (Ok u, t)" by (auto elim: bindP_OkE)
  from x obtain uid where "map_of d x = Some uid" "xray_add_user P tag x uid s = (Ok (), s1)"
    by (rule add_desired_OkE)
  with Cons.IH [OF rest] xray_add_user_served(1) [OF assms] show ?case by auto
qed

lemma keeps_reconcile_parts [keeps_intros]:
  "keeps (on_db I) (dict_get d k)" "keeps (untouched db h) (dict_get d k)"
  "keeps (on_db I) (add_desired P tag d k)" "keeps (untouched db h) (add_desired P tag d k)"
  unfolding add_desired_def dict_get_def by (intro keeps_intros)+

text \<open>A reconciliation reads the store and only changes the runtime.\<close>

lemma untouched_reconcile_run [keeps_intros]: "keeps (untouched db h) (reconcile_run P c tag)"
  unfolding reconcile_run_def reconcile_body_def Let_def by (intro keeps_intros)

lemma returns_reconcile_run [returns_intros]: "clock_ok P \<Longrightarrow> returns (reconcile_run P c tag)"
  unfolding reconcile_run_def reconcile_body_def Let_def add_desired_def dict_get_def
  by (intro returns_intros; assumption)

lemma reconcile_run_total: "clock_ok P \<Longrightarrow> \<exists>res t. reconcile_run P c tag s = (Ok res, t)"
proof -
  assume "clock_ok P"
  then have "reconcile_run P c tag s \<noteq> (Stuck, t)" for t by (intro returnsD returns_intros)
  then show ?thesis
    by (cases "reconcile_run P c tag s"; cases "fst (reconcile_run P c tag s)")
      (auto simp: reconcile_run_def prog_simps elim!: catch_RaiseE)
qed

text \<open>The part of the reconciliation that acts on the runtime.\<close>

definition reconcile_with :: "'w platform \<Rightarrow> cipher \<Rightarrow> ustr \<Rightarrow> profile_record list \<Rightarrow> (ustr \<times> uuid) list \<Rightarrow> ('w, reconcile_result) op" where
  "reconcile_with P c tag active desired = bindP (xray_list_users P tag) (\<lambda>current.
     bindP (for_each (xray_remove_user P tag) (sorted_list_of_set (current - fst ` set desired))) (\<lambda>_.
     bindP (if sorted_list_of_set (current - fst ` set desired) \<noteq> [] then
         bindP (supervisor_restart P) (\<lambda>_. bindP (wait_ready P tag READY_TIMEOUT) (\<lambda>_.
         for_each (add_desired P tag desired) (map rec_runtime_id active)))
       else for_each (add_desired P tag desired) (sorted_list_of_set (fst ` set desired - current))) (\<lambda>_.
     ret \<lparr>rr_added = sorted_list_of_set (fst ` set desired - current),
       rr_removed = sorted_list_of_set (current - fst ` set desired),
       rr_restarted = (sorted_list_of_set (current - fst ` set desired) \<noteq> []), rr_error_code = None\<rparr>)))"

lemma reconcile_body_eq: "reconcile_body P c tag = bindP (repo_list P) (\<lambda>records.
   bindP (lift_result (desired_users P c (filter is_active records) [])) (reconcile_with P c tag (filter is_active records)))"
  unfolding reconcile_body_def reconcile_with_def [abs_def] Let_def for_each_map list.set_map ..

lemma reconcile_with_served:
  assumes contract: "runtime_contract P tag users" and run: "reconcile_with P c tag active d s = (Ok res, t)"
    and ids: "fst ` set d = rec_runtime_id ` set active"
  defines "want \<equiv> \<lambda>e. map_option uuid_str (map_of d e)" and "extra \<equiv> dom (served users s) - fst ` set d"
  shows "served users t = (if extra \<noteq> {} then want else want ++ served users s)" and "finite (dom (served users s))"
    and "res = \<lparr>rr_added = sorted_list_of_set (fst ` set d - dom (served users s)), rr_removed = sorted_list_of_set extra,
      rr_restarted = (extra \<noteq> {}), rr_error_code = None\<rparr>"
proof -
  from run obtain cur s1 where l: "xray_list_users P tag s = (Ok cur, s1)"
    unfolding reconcile_with_def by (auto elim!: bindP_OkE)
  have cur: "cur = dom (served users s)" and s1: "served users s1 = served users s"
    using xray_list_users_served [OF contract l] by auto
  show fin: "finite (dom (served users s))"
    using l unfolding cur xray_list_users_def by (auto simp: prog_simps raise_rpc_def elim!: bindP_OkE split: sum.splits if_splits)
      (metis List.finite_set)
  let ?extra = "sorted_list_of_set extra" and ?missing = "sorted_list_of_set (fst ` set d - dom (served users s))"
  have ne: "?extra \<noteq> [] \<longleftrightarrow> extra \<noteq> {}" using fin by (simp add: extra_def)
  have "bindP (for_each (xray_remove_user P tag) ?extra) (\<lambda>_. bindP (if extra \<noteq> {} then bindP (supervisor_restart P) (\<lambda>_.
      bindP (wait_ready P tag READY_TIMEOUT) (\<lambda>_. for_each (add_desired P tag d) (map rec_runtime_id active)))
       else for_each (add_desired P tag d) ?missing) (\<lambda>_. ret \<lparr>rr_added = ?missing, rr_removed = ?extra, rr_restarted = (extra \<noteq> {}),
       rr_error_code = None\<rparr>)) s1 = (Ok res, t)"
    using run l ne unfolding reconcile_with_def by (simp add: prog_simps cur extra_def)
  then obtain s2 s3 where rm: "for_each (xray_remove_user P tag) ?extra s1 = (Ok (), s2)"
    and act: "(if extra \<noteq> {} then bindP (supervisor_restart P) (\<lambda>_. bindP (wait_ready P tag READY_TIMEOUT) (\<lambda>_.
         for_each (add_desired P tag d) (map rec_runtime_id active)))
       else for_each (add_desired P tag d) ?missing) s2 = (Ok (), s3)" and t: "t = s3"
    and res: "res = \<lparr>rr_added = ?missing, rr_removed = ?extra, rr_restarted = (extra \<noteq> {}), rr_error_code = None\<rparr>"
    by (auto simp: ret_run elim!: bindP_OkE)
  show "res = \<lparr>rr_added = ?missing, rr_removed = ?extra, rr_restarted = (extra \<noteq> {}), rr_error_code = None\<rparr>" by (rule res)
  have none: "want e = None" if "e \<notin> fst ` set d" for e
    using that by (metis map_of_eq_None_iff option.map_disc_iff want_def)
  show "served users t = (if extra \<noteq> {} then want else want ++ served users s)"
  proof (cases "extra = {}")
    case True
    with rm have "s2 = s1" by (simp add: prog_simps)
    with act True for_each_add_served [OF contract, of d ?missing s2 "()" s3] s1 t fin none
    show ?thesis by (auto simp: fun_eq_iff map_add_def want_def split: option.splits)
  next
    case False
    with act have "bindP (supervisor_restart P) (\<lambda>_. bindP (wait_ready P tag READY_TIMEOUT) (\<lambda>_.
        for_each (add_desired P tag d) (map rec_runtime_id active))) s2 = (Ok (), s3)" by simp
    then obtain s4 s5 where 4: "supervisor_restart P s2 = (Ok (), s4)" and 5: "wait_ready P tag READY_TIMEOUT s4 = (Ok (), s5)"
      and add: "for_each (add_desired P tag d) (map rec_runtime_id active) s5 = (Ok (), s3)"
      by (auto elim!: bindP_OkE)
    have "served users s5 = Map.empty"
      using supervisor_restart_served(1) [OF contract 4] quiet_served [OF contract keeps_on_world_clients(1) 5] by simp
    with for_each_add_served [OF contract add] ids none t False show ?thesis
      by (auto simp: fun_eq_iff want_def)
  qed
qed

lemma reconcile_body_served:
  assumes contract: "runtime_contract P tag users" and I: "on_db repo_inv s"
    and run: "reconcile_body P c tag s = (Ok res, t)"
  shows "served users t = (if rr_restarted res then wanted_users P c (sys_db s)
       else wanted_users P c (sys_db s) ++ served users s)"
    and "dom (served users t) = active_ids (sys_db s)"
    and "rr_added res = sorted_list_of_set (active_ids (sys_db s) - dom (served users s))"
    and "rr_removed res = sorted_list_of_set (dom (served users s) - active_ids (sys_db s))"
    and "rr_restarted res \<longleftrightarrow> \<not> dom (served users s) \<subseteq> active_ids (sys_db s)" and "rr_error_code res = None"
proof -
  let ?db = "sys_db s" and ?want = "wanted_users P c (sys_db s)" and ?have = "served users s"
  obtain recs s1 where ls: "repo_list P s = (Ok recs, s1)" and rest: "bindP (lift_result (desired_users P c (filter is_active recs) []))
      (reconcile_with P c tag (filter is_active recs)) s1 = (Ok res, t)"
    using run unfolding reconcile_body_eq by (rule bindP_OkE) blast
  have recs: "recs = records_of ?db"
    using implementsD(2) [OF repo_list_refines _ ls] I by (auto simp: on_db_def)
  from rest obtain d where d: "desired_users P c (filter is_active (records_of ?db)) [] = Inr d"
    and go: "reconcile_with P c tag (filter is_active (records_of ?db)) d s1 = (Ok res, t)"
    by (auto simp: recs lift_result_def bindP_def split: sum.splits)
  note w = desired_users_wanted [OF I [unfolded on_db_def] d]
  have s1: "served users s1 = ?have" by (rule quiet_served [OF contract keeps_on_world_repository(2) ls])
  have ids: "fst ` set d = rec_runtime_id ` set (filter is_active (records_of ?db))" using w(2) by (simp add: active_ids_def)
  note r = reconcile_with_served [OF contract go ids, unfolded s1]
  have want: "(\<lambda>e. map_option uuid_str (map_of d e)) = ?want" using w(1) by auto
  have served: "served users t = (if dom ?have - active_ids ?db \<noteq> {} then ?want else ?want ++ ?have)"
    using r(1) by (simp only: want w(2))
  show "served users t = (if rr_restarted res then ?want else ?want ++ ?have)"
    "rr_added res = sorted_list_of_set (active_ids ?db - dom ?have)" "rr_removed res = sorted_list_of_set (dom ?have - active_ids ?db)"
    "rr_restarted res \<longleftrightarrow> \<not> dom ?have \<subseteq> active_ids ?db" "rr_error_code res = None"
    using served r(3) w(2) by auto
  show "dom (served users t) = active_ids ?db" using served w(3) by (auto simp: dom_map_add split: if_splits)
qed

end
