(* ===== verification/Coordinator.thy ===== *)
theory Coordinator
  imports Reconcile
begin

text \<open>
  \<^verbatim>\<open>profiles/coordinator.py\<close>: the operations of the panel on profiles, each of which changes the store and
  the runtime and repairs what it can when a step fails. The lock of \<^verbatim>\<open>_serialized\<close> makes every
  operation atomic with respect to the others, so an operation is one program. The first part holds for every
  platform, whatever the services and the storage do: the invariant of the store and the life of profiles.
\<close>

section \<open>Operations\<close>

definition XRAY_ADD_FAILED :: ustr where "XRAY_ADD_FAILED = U ''xray_add_failed''"
definition RUNTIME_REVOKE_INCOMPLETE :: ustr where "RUNTIME_REVOKE_INCOMPLETE = U ''runtime_revoke_incomplete''"
definition PROFILE_MATERIAL_INVALID :: ustr where "PROFILE_MATERIAL_INVALID = U ''profile_material_invalid''"

record coordinator =
  co_cipher :: cipher
  co_links :: transport_link_config
  co_tag :: ustr
  co_has_reconciler :: bool
  co_has_health :: bool

definition coordinator_result :: "profile_record \<Rightarrow> ustr option \<Rightarrow> link_bundle option \<Rightarrow> profile_result" where
  "coordinator_result r token links = \<lparr>res_profile_id = rec_profile_id r, res_name = rec_name r, res_state = rec_state r,
     res_runtime_id = rec_runtime_id r, res_subscription_token = token, res_link_bundle = links\<rparr>"

definition coordinator_user_id :: "'w platform \<Rightarrow> cipher \<Rightarrow> profile_record \<Rightarrow> exn + uuid" where
  "coordinator_user_id P c r = (case rec_wrapped_profile_key r of
     None \<Rightarrow> Inl ProfileMaterialUnavailable
   | Some wrapped \<Rightarrow> catch_sum (decrypt_user_id P c r wrapped)
       (\<lambda>e. if e = CryptoError \<or> is_ValueError e then Inl ProfileMaterialUnavailable else Inl e))"

definition mark_error :: "'w platform \<Rightarrow> uuid \<Rightarrow> ustr \<Rightarrow> ('w, unit) op" where
  "mark_error P i code = catch
     (bindP (repo_get P i) (\<lambda>current.
        if rec_state current = DISABLED then bindP (set_runtime_error P i code) (\<lambda>_. ret ())
        else bindP (set_state P i ERROR (Some code)) (\<lambda>_. ret ())))
     (\<lambda>_. ret ())"

definition empty_reconcile_result :: reconcile_result where
  "empty_reconcile_result = \<lparr>rr_added = [], rr_removed = [], rr_restarted = False, rr_error_code = None\<rparr>"

definition coordinator_reconcile :: "'w platform \<Rightarrow> coordinator \<Rightarrow> ('w, reconcile_result) op" where
  "coordinator_reconcile P co =
     bindP (if co_has_reconciler co then reconcile_run P (co_cipher co) (co_tag co) else ret empty_reconcile_result) (\<lambda>res.
     bindP (if co_has_health co then health_update res else ret ()) (\<lambda>_. ret res))"

definition reconcile_after_error :: "'w platform \<Rightarrow> coordinator \<Rightarrow> ('w, unit) op" where
  "reconcile_after_error P co = catch (bindP (coordinator_reconcile P co) (\<lambda>_. ret ())) (\<lambda>_. ret ())"

text \<open>\<^verbatim>\<open>self._xray.add_user(record.runtime_id, self._user_id(record))\<close>\<close>

definition provision :: "'w platform \<Rightarrow> coordinator \<Rightarrow> profile_record \<Rightarrow> ('w, unit) op" where
  "provision P co r = bindP (lift_result (coordinator_user_id P (co_cipher co) r)) (xray_add_user P (co_tag co) (rec_runtime_id r))"

text \<open>The \<^verbatim>\<open>try\<close> block that \<^verbatim>\<open>create\<close> and \<^verbatim>\<open>enable\<close> share: add the user, activate, build the links.\<close>

definition activate :: "'w platform \<Rightarrow> coordinator \<Rightarrow> profile_record \<Rightarrow> uuid \<Rightarrow> ('w, profile_record \<times> link_bundle) op" where
  "activate P co r i = bindP (provision P co r) (\<lambda>_.
     bindP (set_state P i ACTIVE None) (\<lambda>active.
     bindP (lift_result (bundle_for_record P (co_cipher co) (co_links co) active)) (\<lambda>links. ret (active, links))))"

text \<open>Their \<^verbatim>\<open>except\<close> block.\<close>

definition abandon :: "'w platform \<Rightarrow> coordinator \<Rightarrow> ustr \<Rightarrow> uuid \<Rightarrow> exn \<Rightarrow> ('w, 'a) op" where
  "abandon P co runtime_id i failure =
     bindP (failed (xray_remove_user P (co_tag co) runtime_id)) (\<lambda>_.
     bindP (mark_error P i XRAY_ADD_FAILED) (\<lambda>_.
     bindP (reconcile_after_error P co) (\<lambda>_. raise failure)))"

definition coordinator_create :: "'w platform \<Rightarrow> coordinator \<Rightarrow> ustr \<Rightarrow> ('w, profile_result) op" where
  "coordinator_create P co name =
     bindP (service_create P (co_cipher co) name) (\<lambda>pending.
     bindP (repo_get P (res_profile_id pending)) (\<lambda>r.
     bindP (catch (activate P co r (rec_profile_id r))
       (\<lambda>_. abandon P co (rec_runtime_id r) (rec_profile_id r) ProfileProvisioningFailed)) (\<lambda>(active, links).
     ret (coordinator_result active (res_subscription_token pending) (Some links)))))"

definition prepare_disabled :: "'w platform \<Rightarrow> uuid \<Rightarrow> ('w, profile_record) op" where
  "prepare_disabled P i = bindP (repo_get P i) (\<lambda>current.
     bindP (if rec_state current = PENDING then set_state P i ERROR None else ret current) (\<lambda>current2.
     set_state P (rec_profile_id current2) DISABLED None))"

fun readd_active :: "'w platform \<Rightarrow> coordinator \<Rightarrow> profile_record list \<Rightarrow> ('w, bool) op" where
  "readd_active P co [] = ret False"
| "readd_active P co (r # rs) = bindP (if rec_state r \<noteq> ACTIVE then ret False else failed (provision P co r)) (\<lambda>f.
     bindP (readd_active P co rs) (\<lambda>g. ret (f \<or> g)))"

definition coordinator_disable :: "'w platform \<Rightarrow> coordinator \<Rightarrow> uuid \<Rightarrow> ('w, profile_result) op" where
  "coordinator_disable P co i =
     bindP (prepare_disabled P i) (\<lambda>disabled.
     bindP (failed (hysteria_kick P (rec_runtime_id disabled))) (\<lambda>f1.
     bindP (failed (xray_remove_user P (co_tag co) (rec_runtime_id disabled))) (\<lambda>f2.
     bindP (failed (supervisor_restart P)) (\<lambda>f3.
     bindP (failed (wait_ready P (co_tag co) READY_TIMEOUT)) (\<lambda>f4.
     bindP (repo_list P) (\<lambda>records.
     bindP (readd_active P co records) (\<lambda>f5.
     if f1 \<or> f2 \<or> f3 \<or> f4 \<or> f5 then
       bindP (set_runtime_error P (rec_profile_id disabled) RUNTIME_REVOKE_INCOMPLETE) (\<lambda>_.
       bindP (reconcile_after_error P co) (\<lambda>_. raise ProfileRevocationFailed))
     else bindP (repo_get P (rec_profile_id disabled)) (\<lambda>r. ret (coordinator_result r None None)))))))))"

definition coordinator_enable :: "'w platform \<Rightarrow> coordinator \<Rightarrow> uuid \<Rightarrow> ('w, profile_result) op" where
  "coordinator_enable P co i =
     bindP (repo_get P i) (\<lambda>current0.
     bindP (if rec_state current0 = ERROR then set_state P i PENDING None else ret current0) (\<lambda>current.
     if rec_state current \<noteq> PENDING \<and> rec_state current \<noteq> DISABLED then raise InvalidProfileTransition
     else bindP (catch (activate P co current i) (\<lambda>_. abandon P co (rec_runtime_id current) i ProfileEnableFailed)) (\<lambda>(active, links).
       ret (coordinator_result active None (Some links)))))"

definition coordinator_delete :: "'w platform \<Rightarrow> coordinator \<Rightarrow> uuid \<Rightarrow> ('w, unit) op" where
  "coordinator_delete P co i = catch
     (bindP (coordinator_disable P co i) (\<lambda>_. bindP (delete_local P i) (\<lambda>_. checkpoint_wal P)))
     (\<lambda>e. if e = ProfileRevocationFailed \<or> e = ProfileNotFound then raise e
       else bindP (mark_error P i PROFILE_MATERIAL_INVALID) (\<lambda>_.
         bindP (reconcile_after_error P co) (\<lambda>_. raise ProfileDeleteFailed)))"

section \<open>The life of profiles\<close>

text \<open>\<open>tracked v db\<close>: the store is sound, and every profile got from the view \<open>v\<close> to its state in \<open>db\<close> by steps of its life.\<close>

definition tracked :: "profile_view \<Rightarrow> database \<Rightarrow> bool" where
  "tracked v db \<longleftrightarrow> repo_inv db \<and> history v (profile_of db)"

lemma on_db_tracked: "on_db (tracked v) = (\<lambda>s. on_db repo_inv s \<and> history v (profile_of (sys_db s)))"
  by (simp add: fun_eq_iff on_db_def tracked_def)

lemma tracked_repository [keeps_intros]:
  "keeps (on_db (tracked v)) (repo_get P i)" "keeps (on_db (tracked v)) (repo_list P)"
  "keeps (on_db (tracked v)) (set_state P i st err)" "keeps (on_db (tracked v)) (set_runtime_error P i code)"
  "keeps (on_db (tracked v)) (insert_pending P m)" "keeps (on_db (tracked v)) (delete_local P i)"
  unfolding on_db_tracked by (rule repository.keeps_history)+

lemma keeps_checkpoint [keeps_intros]: "keeps (on_db I) (checkpoint_wal P)"
  unfolding checkpoint_wal_def by (intro keeps_intros)

lemma tracked_service_create [keeps_intros]: "keeps (on_db (tracked v)) (service_create P c name)"
  unfolding service_create_def random_exact_def encrypt_field_def Let_def by (intro keeps_intros)

lemma keeps_health_update [keeps_intros]: "keeps (on_db I) (health_update res)"
  unfolding health_update_def by (rule keeps_modify) simp

lemma keeps_reconcile_run [keeps_intros]: "keeps (on_db I) (reconcile_run P c tag)"
proof (rule keepsI)
  fix s :: "'a sys" assume "on_db I s"
  then show "on_db I (snd (reconcile_run P c tag s))"
    using untouchedD(1) [OF untouched_reconcile_run, of P c tag s "fst (reconcile_run P c tag s)" "snd (reconcile_run P c tag s)"]
    by (simp add: on_db_def)
qed

lemma keeps_coordinator_reconcile [keeps_intros]:
  "keeps (on_db I) (coordinator_reconcile P co)" "keeps (on_db I) (reconcile_after_error P co)"
  unfolding reconcile_after_error_def coordinator_reconcile_def by (intro keeps_intros)+

lemma keeps_provision [keeps_intros]:
  "keeps (on_db I) (provision P co r)" "keeps (untouched db h) (provision P co r)"
  unfolding provision_def by (intro keeps_intros)+

lemma keeps_readd_active [keeps_intros]:
  "keeps (on_db I) (readd_active P co rs)" "keeps (untouched db h) (readd_active P co rs)"
  by (induction rs) (auto intro!: keeps_intros)

lemma tracked_parts [keeps_intros]:
  "keeps (on_db (tracked v)) (mark_error P i code)" "keeps (on_db (tracked v)) (activate P co r i)"
  "keeps (on_db (tracked v)) (prepare_disabled P i)"
  unfolding mark_error_def activate_def prepare_disabled_def by (intro keeps_intros)+

lemma tracked_abandon [keeps_intros]: "keeps (on_db (tracked v)) (abandon P co rid i e)"
  unfolding abandon_def by (intro keeps_intros)

lemma tracked_coordinator:
  "keeps (on_db (tracked v)) (coordinator_create P co name)"
  "keeps (on_db (tracked v)) (coordinator_disable P co i)"
  "keeps (on_db (tracked v)) (coordinator_enable P co i)"
  "keeps (on_db (tracked v)) (coordinator_reconcile P co)"
  unfolding coordinator_create_def coordinator_disable_def coordinator_enable_def by (intro keeps_intros)+

lemma tracked_delete: "keeps (on_db (tracked v)) (coordinator_delete P co i)"
  unfolding coordinator_delete_def by (intro keeps_intros tracked_coordinator)

section \<open>The operations return\<close>

lemma returns_parts [returns_intros]:
  "returns (provision P co r)" "returns (mark_error P i code)" "returns (activate P co r i)" "returns (prepare_disabled P i)"
  "returns (health_update res)"
  unfolding provision_def mark_error_def activate_def prepare_disabled_def health_update_def by (intro returns_intros)+

lemma returns_readd_active [returns_intros]: "returns (readd_active P co rs)"
  by (induction rs) (auto intro!: returns_intros)

lemma returns_coordinator_reconcile [returns_intros]:
  "clock_ok P \<Longrightarrow> returns (coordinator_reconcile P co)" "clock_ok P \<Longrightarrow> returns (reconcile_after_error P co)"
  unfolding reconcile_after_error_def coordinator_reconcile_def by (intro returns_intros; assumption)+

lemma returns_abandon [returns_intros]: "clock_ok P \<Longrightarrow> returns (abandon P co rid i e)"
  unfolding abandon_def by (intro returns_intros; assumption)

lemma returns_coordinator:
  assumes "clock_ok P"
  shows "returns (coordinator_create P co name)" "returns (coordinator_disable P co i)" "returns (coordinator_enable P co i)"
    "returns (coordinator_delete P co i)"
proof -
  show d: "returns (coordinator_disable P co i)"
    unfolding coordinator_disable_def by (intro returns_intros assms)
  show "returns (coordinator_create P co name)" "returns (coordinator_enable P co i)" "returns (coordinator_delete P co i)"
    unfolding coordinator_create_def coordinator_enable_def coordinator_delete_def by (intro returns_intros assms d)+
qed

end
