(* ===== verification/Coordinator_Facts.thy ===== *)
theory Coordinator_Facts
  imports Coordinator
begin

text \<open>
  What the coordinator achieves when the storage works, whatever the services do: a disabled
  profile is disabled in the store before the runtime is touched, a failed activation ends in an
  error state that says so, a deleted profile is gone. With the contract of the runtime, a successful
  operation leaves the runtime serving what the store says.
\<close>

section \<open>The store when the storage works\<close>

lemma world_only:
  assumes "sys_db t = sys_db s" and "sys_health t = sys_health s"
  shows "\<exists>w. t = (s :: 'w sys)\<lparr>sys_world := w\<rparr>"
  using assms by (intro exI [of _ "sys_world t"]) simp

lemma repo_get_ok:
  assumes "storage_ok P" and "on_db repo_inv s" and "profile_of (sys_db s) i = Some r"
  shows "\<exists>w. repo_get P i s = (Ok r, s\<lparr>sys_world := w\<rparr>)"
proof -
  obtain x t where run: "repo_get P i s = (x, t)" by fastforce
  have "sys_health t = sys_health s" "x = Ok r" "sys_db t = sys_db s"
    using implementsD(1) [OF repo_get_refines _ run] implementsD_ok [OF repo_get_refines assms(1) _ run] assms(2,3)
    by (auto simp: on_db_def)
  with run world_only [of t s] show ?thesis by auto
qed

lemma repo_get_missing:
  assumes "storage_ok P" and "on_db repo_inv s" and "profile_of (sys_db s) i = None"
  shows "\<exists>w. repo_get P i s = (Raise ProfileNotFound, s\<lparr>sys_world := w\<rparr>)"
proof -
  obtain x t where run: "repo_get P i s = (x, t)" by fastforce
  have "sys_health t = sys_health s" "x = Raise ProfileNotFound" "sys_db t = sys_db s"
    using implementsD(1) [OF repo_get_refines _ run] implementsD_ok [OF repo_get_refines assms(1) _ run] assms(2,3)
    by (auto simp: on_db_def)
  with run world_only [of t s] show ?thesis by auto
qed

lemma repo_list_ok:
  assumes "storage_ok P" and "on_db repo_inv s"
  shows "\<exists>w. repo_list P s = (Ok (records_of (sys_db s)), s\<lparr>sys_world := w\<rparr>)"
proof -
  obtain x t where run: "repo_list P s = (x, t)" by fastforce
  have "sys_health t = sys_health s" "x = Ok (records_of (sys_db s))" "sys_db t = sys_db s"
    using implementsD(1) [OF repo_list_refines _ run] implementsD_ok [OF repo_list_refines assms(1) _ run] assms(2)
    by (auto simp: on_db_def)
  with run world_only [of t s] show ?thesis by auto
qed

text \<open>\<open>stored s t i r\<close>: from \<open>s\<close> to \<open>t\<close>, the store changed the profile \<open>i\<close> to \<open>r\<close> and nothing else in the view.\<close>

definition stored :: "'w sys \<Rightarrow> 'w sys \<Rightarrow> uuid \<Rightarrow> profile_record \<Rightarrow> bool" where
  "stored s t i r \<longleftrightarrow> on_db repo_inv t \<and> profile_of (sys_db t) = (profile_of (sys_db s))(i \<mapsto> r) \<and> sys_health t = sys_health s"

lemma storedD:
  assumes "stored s t i r"
  shows "on_db repo_inv t" and "profile_of (sys_db t) i = Some r" and "profile_of (sys_db t) = (profile_of (sys_db s))(i \<mapsto> r)"
    and "sys_health t = sys_health s"
  using assms by (auto simp: stored_def)

lemma stored_trans: "stored s t i r \<Longrightarrow> stored t u i r' \<Longrightarrow> stored s u i r'"
  by (auto simp: stored_def)

lemma set_state_ok:
  assumes "storage_ok P" and "on_db repo_inv s" and "profile_of (sys_db s) i = Some r" and "transition_legal (rec_state r) st"
  shows "\<exists>ts t. set_state P i st err s = (Ok (apply_state_rec st err ts r), t) \<and> stored s t i (apply_state_rec st err ts r)"
proof -
  obtain x t where run: "set_state P i st err s = (x, t)" by fastforce
  have I: "repo_inv (sys_db s)" using assms(2) by (simp add: on_db_def)
  obtain ts where x: "x = Ok (apply_state_rec st err ts r)" and t: "sys_db t = change_row i (apply_state st err ts) (sys_db s)"
    using implementsD_ok [OF set_state_refines assms(1) I run] assms(3,4) by (auto simp: set_state_spec_def)
  with implementsD(1) [OF set_state_refines I run] I assms(3) have "stored s t i (apply_state_rec st err ts r)"
    by (simp add: stored_def on_db_def profile_of_apply_state repo_inv_apply_state)
  with run x show ?thesis by blast
qed

lemma set_runtime_error_ok:
  assumes "storage_ok P" and "on_db repo_inv s" and "profile_of (sys_db s) i = Some r" and "valid_error_code P code"
  shows "\<exists>ts t. set_runtime_error P i code s = (Ok (apply_runtime_error_rec code ts r), t)
     \<and> stored s t i (apply_runtime_error_rec code ts r)"
proof -
  obtain x t where run: "set_runtime_error P i code s = (x, t)" by fastforce
  have I: "repo_inv (sys_db s)" using assms(2) by (simp add: on_db_def)
  obtain ts where x: "x = Ok (apply_runtime_error_rec code ts r)"
    and t: "sys_db t = change_row i (apply_runtime_error code ts) (sys_db s)"
    using implementsD_ok [OF set_runtime_error_refines assms(1) I run] assms(3,4) by (auto simp: set_runtime_error_spec_def)
  with implementsD(1) [OF set_runtime_error_refines I run] I assms(3) have "stored s t i (apply_runtime_error_rec code ts r)"
    by (simp add: stored_def on_db_def profile_of_apply_runtime_error repo_inv_apply_runtime_error)
  with run x show ?thesis by blast
qed

lemma error_codes_valid:
  "valid_error_code P XRAY_ADD_FAILED" "valid_error_code P RUNTIME_REVOKE_INCOMPLETE" "valid_error_code P PROFILE_MATERIAL_INVALID"
  by (simp_all add: valid_error_code_def isalnum_def XRAY_ADD_FAILED_def RUNTIME_REVOKE_INCOMPLETE_def
      PROFILE_MATERIAL_INVALID_def U_def)

lemma records_fields [simp]:
  "rec_state (apply_state_rec st err ts r) = st" "rec_last_error_code (apply_state_rec st err ts r) = (if st = ERROR then err else None)"
  "rec_state (apply_runtime_error_rec code ts r) = rec_state r" "rec_last_error_code (apply_runtime_error_rec code ts r) = Some code"
  "same_material r (apply_state_rec st err ts r)" "same_material r (apply_runtime_error_rec code ts r)"
  "rec_profile_id (apply_state_rec st err ts r) = rec_profile_id r" "rec_runtime_id (apply_state_rec st err ts r) = rec_runtime_id r"
  by (simp_all add: apply_state_rec_def apply_runtime_error_rec_def same_material_def)

lemma same_material_trans: "same_material a b \<Longrightarrow> same_material b d \<Longrightarrow> same_material a d"
  by (simp add: same_material_def)

lemma view_id: "profile_of db i = Some r \<Longrightarrow> rec_profile_id r = i"
  by (auto simp: profile_of_def split: option.splits)

section \<open>Steps that may fail\<close>

text \<open>A guarded call to a service returns whether it failed and leaves the store alone.\<close>

lemma failed_run:
  assumes "returns m" and "\<And>db h. keeps (untouched db h) m"
  shows "\<exists>f w. failed m s = (Ok f, s\<lparr>sys_world := w\<rparr>)"
proof -
  obtain x t where run: "failed m s = (x, t)" by fastforce
  have "keeps (untouched db h) (failed m)" for db h by (intro keeps_intros assms(2))
  from untouchedD [OF this run] obtain w where "t = s\<lparr>sys_world := w\<rparr>" using world_only [of t s] by auto
  moreover obtain f where "x = Ok f"
    using run failed_not_Raise [of m s] returnsD [OF returns_failed [OF assms(1)], of s] by (cases x) auto
  ultimately show ?thesis using run by auto
qed

lemma readd_active_run: "\<exists>f w. readd_active P co rs s = (Ok f, s\<lparr>sys_world := w\<rparr>)"
proof (induction rs arbitrary: s)
  case Nil
  then show ?case by (auto simp: prog_simps intro: exI [of _ "sys_world s"])
next
  case (Cons r rs)
  have "returns (provision P co r)" by (intro returns_intros)
  then obtain f w where f: "failed (provision P co r) s = (Ok f, s\<lparr>sys_world := w\<rparr>)"
    using failed_run [of "provision P co r" s] keeps_provision(2) by blast
  obtain g w' where "readd_active P co rs (s\<lparr>sys_world := w\<rparr>) = (Ok g, s\<lparr>sys_world := w'\<rparr>)"
    using Cons.IH [of "s\<lparr>sys_world := w\<rparr>"] by auto
  moreover obtain g0 w0 where "readd_active P co rs s = (Ok g0, s\<lparr>sys_world := w0\<rparr>)" using Cons.IH [of s] by auto
  ultimately show ?case using f by (cases "rec_state r = ACTIVE") (auto simp: prog_simps)
qed

lemma reconcile_after_error_run:
  assumes "clock_ok P"
  shows "\<exists>w h. reconcile_after_error P co s = (Ok (), s\<lparr>sys_world := w, sys_health := h\<rparr>)"
proof -
  obtain x t where run: "reconcile_after_error P co s = (x, t)" by fastforce
  have "sys_db t = sys_db s"
    using keepsD_eq [OF keeps_coordinator_reconcile(2) run, of "\<lambda>db. db = sys_db s"] by (simp add: on_db_def)
  moreover have "x = Ok ()"
  proof (cases x)
    case (Raise e)
    with run show ?thesis by (auto simp: reconcile_after_error_def prog_simps elim!: catch_RaiseE)
  next
    case Stuck
    with run returnsD [OF returns_coordinator_reconcile(2) [OF assms]] show ?thesis by blast
  qed simp
  ultimately show ?thesis
    using run by (intro exI [of _ "sys_world t"] exI [of _ "sys_health t"]) simp
qed

lemma mark_error_ok:
  assumes "storage_ok P" and "on_db repo_inv s" and "profile_of (sys_db s) i = Some r" and "valid_error_code P code"
  shows "\<exists>r' t. mark_error P i code s = (Ok (), t) \<and> stored s t i r' \<and> same_material r r' \<and> rec_last_error_code r' = Some code
     \<and> rec_state r' = (if rec_state r = DISABLED then DISABLED else ERROR)"
proof -
  obtain w where g: "repo_get P i s = (Ok r, s\<lparr>sys_world := w\<rparr>)" using repo_get_ok [OF assms(1-3)] by blast
  let ?s = "s\<lparr>sys_world := w\<rparr>"
  have I: "on_db repo_inv ?s" and v: "profile_of (sys_db ?s) i = Some r" using assms(2,3) by simp_all
  have st: "stored s t i x \<longleftrightarrow> stored ?s t i x" for t x by (simp add: stored_def)
  show ?thesis
  proof (cases "rec_state r = DISABLED")
    case True
    obtain ts t where "set_runtime_error P i code ?s = (Ok (apply_runtime_error_rec code ts r), t)"
      "stored ?s t i (apply_runtime_error_rec code ts r)" using set_runtime_error_ok [OF assms(1) I v assms(4)] by blast
    with g True st show ?thesis
      by (intro exI [of _ "apply_runtime_error_rec code ts r"] exI [of _ t]) (simp add: mark_error_def prog_simps)
  next
    case False
    then have "transition_legal (rec_state r) ERROR" by (cases "rec_state r") (simp_all add: transition_legal_def)
    from set_state_ok [OF assms(1) I v this, of "Some code"] obtain ts t
      where "set_state P i ERROR (Some code) ?s = (Ok (apply_state_rec ERROR (Some code) ts r), t)"
      "stored ?s t i (apply_state_rec ERROR (Some code) ts r)" by blast
    with g False st show ?thesis
      by (intro exI [of _ "apply_state_rec ERROR (Some code) ts r"] exI [of _ t]) (simp add: mark_error_def prog_simps)
  qed
qed

lemma prepare_disabled_ok:
  assumes "storage_ok P" and "on_db repo_inv s" and "profile_of (sys_db s) i = Some r"
  shows "\<exists>d t. prepare_disabled P i s = (Ok d, t) \<and> stored s t i d \<and> same_material r d \<and> rec_state d = DISABLED
     \<and> rec_last_error_code d = None"
proof -
  obtain w where g: "repo_get P i s = (Ok r, s\<lparr>sys_world := w\<rparr>)" using repo_get_ok [OF assms] by blast
  let ?s = "s\<lparr>sys_world := w\<rparr>"
  have I: "on_db repo_inv ?s" and v: "profile_of (sys_db ?s) i = Some r" and id: "rec_profile_id r = i"
    using assms view_id by simp_all
  have st: "stored s t i x \<longleftrightarrow> stored ?s t i x" for t x by (simp add: stored_def)
  show ?thesis
  proof (cases "rec_state r = PENDING")
    case True
    then have "transition_legal (rec_state r) ERROR" by (simp add: transition_legal_def)
    from set_state_ok [OF assms(1) I v this, of None] obtain ts t
      where 1: "set_state P i ERROR None ?s = (Ok (apply_state_rec ERROR None ts r), t)" "stored ?s t i (apply_state_rec ERROR None ts r)"
      by blast
    let ?e = "apply_state_rec ERROR None ts r"
    have "transition_legal (rec_state ?e) DISABLED" by (simp add: transition_legal_def)
    from set_state_ok [OF assms(1) storedD(1,2) [OF 1(2)] this, of None] obtain ts2 t2
      where 2: "set_state P i DISABLED None t = (Ok (apply_state_rec DISABLED None ts2 ?e), t2)"
        "stored t t2 i (apply_state_rec DISABLED None ts2 ?e)" by blast
    with g 1 True id st stored_trans [OF 1(2) 2(2)] show ?thesis
      by (intro exI [of _ "apply_state_rec DISABLED None ts2 ?e"] exI [of _ t2])
        (auto simp: prepare_disabled_def prog_simps intro: same_material_trans [OF records_fields(5) records_fields(5)])
  next
    case False
    then have "transition_legal (rec_state r) DISABLED" by (cases "rec_state r") (simp_all add: transition_legal_def)
    from set_state_ok [OF assms(1) I v this, of None] obtain ts t
      where "set_state P i DISABLED None ?s = (Ok (apply_state_rec DISABLED None ts r), t)"
        "stored ?s t i (apply_state_rec DISABLED None ts r)" by blast
    with g False id st show ?thesis
      by (intro exI [of _ "apply_state_rec DISABLED None ts r"] exI [of _ t]) (simp add: prepare_disabled_def prog_simps)
  qed
qed

section \<open>Disabling\<close>

lemma disable_steps:
  assumes "storage_ok P" and "clock_ok P" and "on_db repo_inv s" and "profile_of (sys_db s) i = Some r"
  obtains d s1 f1 w1 f2 w2 f3 w3 f4 w4 w5 f5 w6 where
    "stored s s1 i d" and "same_material r d" and "rec_state d = DISABLED" and "rec_last_error_code d = None"
    and "failed (hysteria_kick P (rec_runtime_id d)) s1 = (Ok f1, s1\<lparr>sys_world := w1\<rparr>)"
    and "failed (xray_remove_user P (co_tag co) (rec_runtime_id d)) (s1\<lparr>sys_world := w1\<rparr>) = (Ok f2, s1\<lparr>sys_world := w2\<rparr>)"
    and "failed (supervisor_restart P) (s1\<lparr>sys_world := w2\<rparr>) = (Ok f3, s1\<lparr>sys_world := w3\<rparr>)"
    and "failed (wait_ready P (co_tag co) READY_TIMEOUT) (s1\<lparr>sys_world := w3\<rparr>) = (Ok f4, s1\<lparr>sys_world := w4\<rparr>)"
    and "repo_list P (s1\<lparr>sys_world := w4\<rparr>) = (Ok (records_of (sys_db s1)), s1\<lparr>sys_world := w5\<rparr>)"
    and "readd_active P co (records_of (sys_db s1)) (s1\<lparr>sys_world := w5\<rparr>) = (Ok f5, s1\<lparr>sys_world := w6\<rparr>)"
    and "coordinator_disable P co i s = (if f1 \<or> f2 \<or> f3 \<or> f4 \<or> f5 then
       bindP (set_runtime_error P i RUNTIME_REVOKE_INCOMPLETE) (\<lambda>_.
       bindP (reconcile_after_error P co) (\<lambda>_. raise ProfileRevocationFailed)) (s1\<lparr>sys_world := w6\<rparr>)
     else bindP (repo_get P i) (\<lambda>r. ret (coordinator_result r None None)) (s1\<lparr>sys_world := w6\<rparr>))"
proof -
  obtain d s1 where d: "prepare_disabled P i s = (Ok d, s1)" "stored s s1 i d" "same_material r d" "rec_state d = DISABLED"
    "rec_last_error_code d = None" using prepare_disabled_ok [OF assms(1,3,4)] by blast
  obtain f1 w1 where 1: "failed (hysteria_kick P (rec_runtime_id d)) s1 = (Ok f1, s1\<lparr>sys_world := w1\<rparr>)"
    using failed_run [OF returns_clients(4) clients_untouched(6), of P "rec_runtime_id d" s1] by blast
  obtain f2 w2 where 2: "failed (xray_remove_user P (co_tag co) (rec_runtime_id d)) (s1\<lparr>sys_world := w1\<rparr>) = (Ok f2, s1\<lparr>sys_world := w2\<rparr>)"
    using failed_run [OF returns_clients(2) clients_untouched(2), of P "co_tag co" "rec_runtime_id d" "s1\<lparr>sys_world := w1\<rparr>"] by auto
  obtain f3 w3 where 3: "failed (supervisor_restart P) (s1\<lparr>sys_world := w2\<rparr>) = (Ok f3, s1\<lparr>sys_world := w3\<rparr>)"
    using failed_run [OF returns_clients(5) clients_untouched(7), of P "s1\<lparr>sys_world := w2\<rparr>"] by auto
  obtain f4 w4 where 4: "failed (wait_ready P (co_tag co) READY_TIMEOUT) (s1\<lparr>sys_world := w3\<rparr>) = (Ok f4, s1\<lparr>sys_world := w4\<rparr>)"
    using failed_run [OF wait_ready_returns [OF assms(2)] clients_untouched(5), of "co_tag co" READY_TIMEOUT "s1\<lparr>sys_world := w3\<rparr>"]
    by auto
  have "on_db repo_inv (s1\<lparr>sys_world := w4\<rparr>)" using storedD(1) [OF d(2)] by simp
  from repo_list_ok [OF assms(1) this] obtain w5
    where 5: "repo_list P (s1\<lparr>sys_world := w4\<rparr>) = (Ok (records_of (sys_db s1)), s1\<lparr>sys_world := w5\<rparr>)" by auto
  obtain f5 w6 where 6: "readd_active P co (records_of (sys_db s1)) (s1\<lparr>sys_world := w5\<rparr>) = (Ok f5, s1\<lparr>sys_world := w6\<rparr>)"
    using readd_active_run [of P co "records_of (sys_db s1)" "s1\<lparr>sys_world := w5\<rparr>"] by auto
  have "rec_profile_id d = i" using storedD(2) [OF d(2)] view_id by blast
  with d(1) 1 2 3 4 5 6 show ?thesis
    by (intro that [OF d(2-5) 1 2 3 4 5 6]) (auto simp: coordinator_disable_def prog_simps)
qed

text \<open>
  Whatever the services do, a profile that is disabled is disabled in the store, and the outcome says
  whether the runtime was told.
\<close>

lemma disable_outcome:
  assumes env: "storage_ok P" "clock_ok P" and I: "on_db repo_inv s" and r: "profile_of (sys_db s) i = Some r"
    and run: "coordinator_disable P co i s = (x, t)"
  obtains d where "profile_of (sys_db t) = (profile_of (sys_db s))(i \<mapsto> d)" and "same_material r d" and "rec_state d = DISABLED"
    and "on_db repo_inv t"
    and "x = Ok (coordinator_result d None None) \<and> rec_last_error_code d = None
       \<or> x = Raise ProfileRevocationFailed \<and> rec_last_error_code d = Some RUNTIME_REVOKE_INCOMPLETE"
proof -
  obtain d s1 f1 f2 f3 f4 f5 w where d: "stored s s1 i d" "same_material r d" "rec_state d = DISABLED" "rec_last_error_code d = None"
    and eq: "coordinator_disable P co i s = (if f1 \<or> f2 \<or> f3 \<or> f4 \<or> f5 then
       bindP (set_runtime_error P i RUNTIME_REVOKE_INCOMPLETE) (\<lambda>_.
       bindP (reconcile_after_error P co) (\<lambda>_. raise ProfileRevocationFailed)) (s1\<lparr>sys_world := w\<rparr>)
     else bindP (repo_get P i) (\<lambda>r. ret (coordinator_result r None None)) (s1\<lparr>sys_world := w\<rparr>))"
    by (rule disable_steps [OF env I r, of co]) blast
  let ?s = "s1\<lparr>sys_world := w\<rparr>"
  have I1: "on_db repo_inv ?s" and v1: "profile_of (sys_db ?s) i = Some d" using storedD(1,2) [OF d(1)] by simp_all
  show ?thesis
  proof (cases "f1 \<or> f2 \<or> f3 \<or> f4 \<or> f5")
    case True
    from set_runtime_error_ok [OF env(1) I1 v1 error_codes_valid(2)] obtain ts t1
      where 1: "set_runtime_error P i RUNTIME_REVOKE_INCOMPLETE ?s = (Ok (apply_runtime_error_rec RUNTIME_REVOKE_INCOMPLETE ts d), t1)"
        "stored ?s t1 i (apply_runtime_error_rec RUNTIME_REVOKE_INCOMPLETE ts d)" by blast
    obtain w' h where 2: "reconcile_after_error P co t1 = (Ok (), t1\<lparr>sys_world := w', sys_health := h\<rparr>)"
      using reconcile_after_error_run [OF env(2)] by blast
    from run eq True 1 2 have "x = Raise ProfileRevocationFailed" "t = t1\<lparr>sys_world := w', sys_health := h\<rparr>"
      by (auto simp: prog_simps)
    with d storedD [OF 1(2)] storedD [OF d(1)] show ?thesis
      by (intro that [of "apply_runtime_error_rec RUNTIME_REVOKE_INCOMPLETE ts d"])
        (auto intro: same_material_trans)
  next
    case False
    obtain w' where "repo_get P i ?s = (Ok d, ?s\<lparr>sys_world := w'\<rparr>)" using repo_get_ok [OF env(1) I1 v1] by blast
    with run eq False have "x = Ok (coordinator_result d None None)" "t = s1\<lparr>sys_world := w'\<rparr>" by (auto simp: prog_simps)
    with d storedD [OF d(1)] show ?thesis by (intro that [of d]) auto
  qed
qed

lemma user_id_agree: "coordinator_user_id P c r = Inr u \<longleftrightarrow> reconcile_user_id P c r = Inr u"
  by (auto simp: coordinator_user_id_def reconcile_user_id_def catch_sum_def split: option.splits sum.splits if_splits)

lemma provision_OkE:
  assumes "provision P co r s = (Ok u, t)"
  obtains uid where "reconcile_user_id P (co_cipher co) r = Inr uid" and "xray_add_user P (co_tag co) (rec_runtime_id r) uid s = (Ok (), t)"
  using assms by (auto simp: provision_def user_id_agree lift_result_def elim!: bindP_OkE split: sum.splits)

lemma readd_active_served:
  assumes contract: "runtime_contract P (co_tag co) users"
  shows "distinct (map rec_runtime_id rs) \<Longrightarrow> readd_active P co rs s = (Ok False, t) \<Longrightarrow>
    served users t e = (case find (\<lambda>r. is_active r \<and> rec_runtime_id r = e) rs of None \<Rightarrow> served users s e
      | Some r \<Rightarrow> (case reconcile_user_id P (co_cipher co) r of Inl _ \<Rightarrow> None | Inr uid \<Rightarrow> Some (uuid_str uid)))"
proof (induction rs arbitrary: s)
  case Nil
  then show ?case by (simp add: prog_simps)
next
  case (Cons r rs)
  from Cons.prems(2) obtain s1 where 1: "(if rec_state r \<noteq> ACTIVE then ret False else failed (provision P co r)) s = (Ok False, s1)"
    and 2: "readd_active P co rs s1 = (Ok False, t)" by (auto simp: prog_simps elim!: bindP_OkE)
  note IH = Cons.IH [OF _ 2]
  show ?case
  proof (cases "is_active r")
    case False
    with 1 have "s1 = s" by (auto simp: is_active_def prog_simps)
    with IH Cons.prems(1) False show ?thesis by auto
  next
    case True
    with 1 obtain u where "provision P co r s = (Ok u, s1)" by (auto simp: is_active_def elim: failed_FalseE)
    then obtain uid where u: "reconcile_user_id P (co_cipher co) r = Inr uid"
      and "xray_add_user P (co_tag co) (rec_runtime_id r) uid s = (Ok (), s1)" by (rule provision_OkE)
    with xray_add_user_served(1) [OF contract] have s1: "served users s1 = (served users s)(rec_runtime_id r \<mapsto> uuid_str uid)"
      by blast
    have "find (\<lambda>x. is_active x \<and> rec_runtime_id x = rec_runtime_id r) rs = None"
      unfolding find_None_iff using Cons.prems(1) by (metis distinct.simps(2) image_eqI list.simps(9) set_map)
    with IH Cons.prems(1) True u s1 show ?thesis by (auto split: option.splits)
  qed
qed

text \<open>A disable that reports success leaves the runtime with exactly the active profiles of the store.\<close>

lemma disable_served:
  assumes env: "storage_ok P" "clock_ok P" and contract: "runtime_contract P (co_tag co) users"
    and I: "on_db repo_inv s" and r: "profile_of (sys_db s) i = Some r"
    and run: "coordinator_disable P co i s = (Ok res, t)"
  shows "served users t = wanted_users P (co_cipher co) (sys_db t)"
proof -
  obtain d s1 f1 w1 f2 w2 f3 w3 f4 w4 w5 f5 w6 where d: "stored s s1 i d"
    and 3: "failed (supervisor_restart P) (s1\<lparr>sys_world := w2\<rparr>) = (Ok f3, s1\<lparr>sys_world := w3\<rparr>)"
    and 4: "failed (wait_ready P (co_tag co) READY_TIMEOUT) (s1\<lparr>sys_world := w3\<rparr>) = (Ok f4, s1\<lparr>sys_world := w4\<rparr>)"
    and 5: "repo_list P (s1\<lparr>sys_world := w4\<rparr>) = (Ok (records_of (sys_db s1)), s1\<lparr>sys_world := w5\<rparr>)"
    and 6: "readd_active P co (records_of (sys_db s1)) (s1\<lparr>sys_world := w5\<rparr>) = (Ok f5, s1\<lparr>sys_world := w6\<rparr>)"
    and eq: "coordinator_disable P co i s = (if f1 \<or> f2 \<or> f3 \<or> f4 \<or> f5 then
       bindP (set_runtime_error P i RUNTIME_REVOKE_INCOMPLETE) (\<lambda>_.
       bindP (reconcile_after_error P co) (\<lambda>_. raise ProfileRevocationFailed)) (s1\<lparr>sys_world := w6\<rparr>)
     else bindP (repo_get P i) (\<lambda>r. ret (coordinator_result r None None)) (s1\<lparr>sys_world := w6\<rparr>))"
    by (rule disable_steps [OF env I r, of co]) blast
  have no: "\<not> f1" "\<not> f2" "\<not> f3" "\<not> f4" "\<not> f5"
    using run eq by (auto simp: prog_simps elim!: bindP_OkE split: if_splits)
  from no(3) 3 obtain u where 3: "supervisor_restart P (s1\<lparr>sys_world := w2\<rparr>) = (Ok u, s1\<lparr>sys_world := w3\<rparr>)"
    by (auto elim: failed_FalseE)
  from no(4) 4 obtain u' where 4: "wait_ready P (co_tag co) READY_TIMEOUT (s1\<lparr>sys_world := w3\<rparr>) = (Ok u', s1\<lparr>sys_world := w4\<rparr>)"
    by (auto elim: failed_FalseE)
  have "served users (s1\<lparr>sys_world := w5\<rparr>) = Map.empty"
    using supervisor_restart_served(1) [OF contract 3] quiet_served [OF contract keeps_on_world_clients(1) 4]
      quiet_served [OF contract keeps_on_world_repository(2) 5] by simp
  moreover have "distinct (map rec_runtime_id (records_of (sys_db s1)))"
    using storedD(1) [OF d] by (simp add: on_db_def records_of_distinct)
  ultimately have w6: "users w6 = wanted_users P (co_cipher co) (sys_db s1)"
    using readd_active_served [OF contract _ 6 [unfolded eq_False [THEN iffD2, OF no(5)]]]
    by (auto simp: fun_eq_iff wanted_users_def split: option.splits)
  have get: "bindP (repo_get P i) (\<lambda>r. ret (coordinator_result r None None)) (s1\<lparr>sys_world := w6\<rparr>) = (Ok res, t)"
    using run eq no by simp
  then obtain x where g: "repo_get P i (s1\<lparr>sys_world := w6\<rparr>) = (Ok x, t)" by (auto simp: prog_simps elim!: bindP_OkE)
  with w6 quiet_served [OF contract keeps_on_world_repository(1) g] untouchedD(1) [OF untouched_queries(1) g]
  show ?thesis by simp
qed

section \<open>Activation\<close>

lemma stored_same: "on_db repo_inv s \<Longrightarrow> profile_of (sys_db s) i = Some r \<Longrightarrow> stored s (s\<lparr>sys_world := w\<rparr>) i r"
  by (simp add: stored_def fun_upd_idem)

lemma activate_outcome:
  assumes "storage_ok P" and "on_db repo_inv s" and "profile_of (sys_db s) i = Some r"
    and "transition_legal (rec_state r) ACTIVE" and run: "activate P co r i s = (x, t)"
  obtains (active) ts b where "x = Ok (apply_state_rec ACTIVE None ts r, b)" "stored s t i (apply_state_rec ACTIVE None ts r)"
      "bundle_for_record P (co_cipher co) (co_links co) (apply_state_rec ACTIVE None ts r) = Inr b"
  | (failed) e r' where "x = Raise e" "stored s t i r'" "same_material r r'" "r' = r \<or> rec_state r' = ACTIVE"
proof -
  obtain p s1 where p: "provision P co r s = (p, s1)" by fastforce
  obtain w where s1: "s1 = s\<lparr>sys_world := w\<rparr>" using untouchedD [OF keeps_provision(2) p] world_only [of s1 s] by auto
  show ?thesis
  proof (cases p)
    case (Raise e)
    with run p s1 show ?thesis
      by (intro failed [of e r]) (auto simp: activate_def prog_simps stored_same [OF assms(2,3)])
  next
    case Stuck
    have "returns (provision P co r)" by (intro returns_intros)
    with Stuck p show ?thesis by (auto dest: returnsD)
  next
    case (Ok u)
    have I1: "on_db repo_inv s1" and v1: "profile_of (sys_db s1) i = Some r" using assms(2,3) s1 by simp_all
    obtain ts t1 where 1: "set_state P i ACTIVE None s1 = (Ok (apply_state_rec ACTIVE None ts r), t1)"
      "stored s1 t1 i (apply_state_rec ACTIVE None ts r)" using set_state_ok [OF assms(1) I1 v1 assms(4)] by blast
    have st: "stored s t1 i (apply_state_rec ACTIVE None ts r)" using 1(2) s1 by (simp add: stored_def)
    show ?thesis
    proof (cases "bundle_for_record P (co_cipher co) (co_links co) (apply_state_rec ACTIVE None ts r)")
      case (Inl e)
      with run p Ok 1 st show ?thesis
        by (intro failed [of e "apply_state_rec ACTIVE None ts r"]) (auto simp: activate_def prog_simps)
    next
      case (Inr b)
      with run p Ok 1 st show ?thesis by (intro active [of ts b]) (auto simp: activate_def prog_simps)
    qed
  qed
qed

lemma activate_served:
  assumes contract: "runtime_contract P (co_tag co) users" and run: "activate P co r i s = (Ok x, t)"
  shows "\<exists>uid. reconcile_user_id P (co_cipher co) r = Inr uid \<and> served users t = (served users s)(rec_runtime_id r \<mapsto> uuid_str uid)"
proof -
  from run obtain s1 s2 a u where p: "provision P co r s = (Ok u, s1)" and st: "set_state P i ACTIVE None s1 = (Ok a, s2)" and t: "t = s2"
    unfolding activate_def by (auto simp: prog_simps lift_result_def elim!: bindP_OkE split: sum.splits)
  from p obtain uid where uid: "reconcile_user_id P (co_cipher co) r = Inr uid"
    "xray_add_user P (co_tag co) (rec_runtime_id r) uid s = (Ok (), s1)" by (rule provision_OkE)
  with xray_add_user_served(1) [OF contract uid(2)] quiet_served [OF contract keeps_on_world_repository(3) st] t
  show ?thesis by simp
qed

lemma abandon_outcome:
  assumes env: "storage_ok P" "clock_ok P" and I: "on_db repo_inv s" and r: "profile_of (sys_db s) i = Some r"
    and run: "abandon P co rid i e s = (x, t)"
  obtains r' where "x = Raise e" and "profile_of (sys_db t) = (profile_of (sys_db s))(i \<mapsto> r')" and "on_db repo_inv t"
    and "same_material r r'" and "rec_last_error_code r' = Some XRAY_ADD_FAILED"
    and "rec_state r' = (if rec_state r = DISABLED then DISABLED else ERROR)"
proof -
  obtain f w where 1: "failed (xray_remove_user P (co_tag co) rid) s = (Ok f, s\<lparr>sys_world := w\<rparr>)"
    using failed_run [OF returns_clients(2) clients_untouched(2), of P "co_tag co" rid s] by blast
  let ?s = "s\<lparr>sys_world := w\<rparr>"
  have "on_db repo_inv ?s" "profile_of (sys_db ?s) i = Some r" using I r by simp_all
  from mark_error_ok [OF env(1) this error_codes_valid(1)] obtain r' t1 where 2: "mark_error P i XRAY_ADD_FAILED ?s = (Ok (), t1)"
    and r': "stored ?s t1 i r'" "same_material r r'" "rec_last_error_code r' = Some XRAY_ADD_FAILED"
      "rec_state r' = (if rec_state r = DISABLED then DISABLED else ERROR)" by blast
  obtain w' h where 3: "reconcile_after_error P co t1 = (Ok (), t1\<lparr>sys_world := w', sys_health := h\<rparr>)"
    using reconcile_after_error_run [OF env(2)] by blast
  from run 1 2 3 have "x = Raise e" "t = t1\<lparr>sys_world := w', sys_health := h\<rparr>" by (auto simp: abandon_def prog_simps)
  with r' storedD [OF r'(1)] show ?thesis by (intro that [of r']) auto
qed

text \<open>Activation with its handler, as \<open>create\<close> and \<open>enable\<close> use it.\<close>

lemma activate_or_abandon:
  assumes env: "storage_ok P" "clock_ok P" and I: "on_db repo_inv s" and r: "profile_of (sys_db s) i = Some r"
    and legal: "rec_state r = PENDING \<or> rec_state r = DISABLED"
    and run: "catch (activate P co r i) (\<lambda>_. abandon P co (rec_runtime_id r) i failure) s = (x, t)"
  obtains (active) ts b where "x = Ok (apply_state_rec ACTIVE None ts r, b)" "stored s t i (apply_state_rec ACTIVE None ts r)"
      "bundle_for_record P (co_cipher co) (co_links co) (apply_state_rec ACTIVE None ts r) = Inr b"
      "activate P co r i s = (x, t)"
  | (failed) r' where "x = Raise failure" "profile_of (sys_db t) = (profile_of (sys_db s))(i \<mapsto> r')" "on_db repo_inv t"
      "same_material r r'" "rec_last_error_code r' = Some XRAY_ADD_FAILED" "rec_state r' = ERROR \<or> rec_state r' = DISABLED"
proof -
  have tr: "transition_legal (rec_state r) ACTIVE" using legal by (auto simp: transition_legal_def)
  obtain y s1 where act: "activate P co r i s = (y, s1)" by fastforce
  from env(1) I r tr act show ?thesis
  proof (cases rule: activate_outcome)
    case (active ts b)
    with act run that(1) [of ts b] show ?thesis by (auto simp: prog_simps)
  next
    case (failed e r1)
    with act run have ab: "abandon P co (rec_runtime_id r) i failure s1 = (x, t)" by (simp add: prog_simps)
    obtain r' where "x = Raise failure" "profile_of (sys_db t) = (profile_of (sys_db s1))(i \<mapsto> r')" "on_db repo_inv t"
      "same_material r1 r'" "rec_last_error_code r' = Some XRAY_ADD_FAILED"
      "rec_state r' = (if rec_state r1 = DISABLED then DISABLED else ERROR)"
      by (rule abandon_outcome [OF env storedD(1,2) [OF failed(2)] ab])
    with failed storedD(3) [OF failed(2)] that(2) [of r'] show ?thesis by (auto intro: same_material_trans split: if_splits)
  qed
qed

lemma opens_user_id: "opens P c r uid secret token \<Longrightarrow> reconcile_user_id P c r = Inr uid"
  by (auto simp: opens_def reconcile_user_id_def decrypt_user_id_def profile_value_context_ok)

lemma create_outcome:
  assumes env: "storage_ok P" "clock_ok P" "crypto_ok P" "random_ok P" "length (wrap_key (co_cipher co)) = KEY_SIZE"
    and I: "on_db repo_inv s" and run: "coordinator_create P co name s = (x, t)"
  obtains (rejected) "x = Raise InvalidProfileName \<or> x = Raise ProfileConflict" "sys_db t = sys_db s"
  | (created) r p token ts b s1 s2 where "created_profile P (co_cipher co) name (sys_db s) (sys_db s1) p token"
      "r = apply_state_rec ACTIVE None ts p" "x = Ok (coordinator_result r (Some token) (Some b))"
      "bundle_for_record P (co_cipher co) (co_links co) r = Inr b"
      "profile_of (sys_db t) = (profile_of (sys_db s))(rec_profile_id r \<mapsto> r)" "on_db repo_inv t"
      "activate P co p (rec_profile_id p) s2 = (Ok (r, b), t)"
      "service_create P (co_cipher co) name s = (Ok (service_result p (Some token)), s1)" "repo_get P (rec_profile_id p) s1 = (Ok p, s2)"
  | (failed) p token r db1 where "created_profile P (co_cipher co) name (sys_db s) db1 p token" "x = Raise ProfileProvisioningFailed"
      "profile_of (sys_db t) = (profile_of (sys_db s))(rec_profile_id p \<mapsto> r)" "on_db repo_inv t" "same_material p r"
      "rec_state r = ERROR \<or> rec_state r = DISABLED" "rec_last_error_code r = Some XRAY_ADD_FAILED"
proof -
  obtain y s1 where sc: "service_create P (co_cipher co) name s = (y, s1)" by fastforce
  show ?thesis
  proof (cases "\<exists>a. y = Ok a")
    case False
    from service_create_error [OF env(3-5) I sc False] env(1) have y: "y = Raise InvalidProfileName \<or> y = Raise ProfileConflict"
      "sys_db s1 = sys_db s" by auto
    with run sc have "x = Raise InvalidProfileName \<or> x = Raise ProfileConflict" "t = s1"
      by (auto simp: coordinator_create_def prog_simps)
    with y rejected show ?thesis by auto
  next
    case True
    then obtain a where a: "y = Ok a" by blast
    from service_create_spec [OF env(3-5) I, of name a s1] sc a obtain p token
      where p: "a = service_result p (Some token)" "created_profile P (co_cipher co) name (sys_db s) (sys_db s1) p token"
        "on_db repo_inv s1" by blast
    have v1: "profile_of (sys_db s1) (rec_profile_id p) = Some p" and view: "profile_of (sys_db s1) = (profile_of (sys_db s))(rec_profile_id p \<mapsto> p)"
      and pend: "rec_state p = PENDING \<or> rec_state p = DISABLED" using p(2) by (auto simp: created_profile_def)
    obtain w where g: "repo_get P (rec_profile_id p) s1 = (Ok p, s1\<lparr>sys_world := w\<rparr>)" using repo_get_ok [OF env(1) p(3) v1] by blast
    let ?s = "s1\<lparr>sys_world := w\<rparr>"
    have I2: "on_db repo_inv ?s" and v2: "profile_of (sys_db ?s) (rec_profile_id p) = Some p" using p(3) v1 by simp_all
    obtain z u where act: "catch (activate P co p (rec_profile_id p))
        (\<lambda>_. abandon P co (rec_runtime_id p) (rec_profile_id p) ProfileProvisioningFailed) ?s = (z, u)" by fastforce
    have eq: "coordinator_create P co name s = bindP (catch (activate P co p (rec_profile_id p))
        (\<lambda>_. abandon P co (rec_runtime_id p) (rec_profile_id p) ProfileProvisioningFailed))
        (\<lambda>(active, links). ret (coordinator_result active (Some token) (Some links))) ?s"
      using sc a p(1) g by (simp add: coordinator_create_def prog_simps service_result_def)
    from env(1,2) I2 v2 pend act show ?thesis
    proof (cases rule: activate_or_abandon)
      case (active ts b)
      with run eq act have "x = Ok (coordinator_result (apply_state_rec ACTIVE None ts p) (Some token) (Some b))" "t = u"
        by (auto simp: prog_simps)
      with active p sc a g view storedD [OF active(2)] show ?thesis
        by (intro created [of s1 p token "apply_state_rec ACTIVE None ts p" ts b ?s]) auto
    next
      case (failed r')
      with run eq act have "x = Raise ProfileProvisioningFailed" "t = u" by (auto simp: prog_simps)
      with failed p view that(3) [of "sys_db s1" p token r'] show ?thesis by auto
    qed
  qed
qed

section \<open>Enabling and deleting\<close>

lemma enable_outcome:
  assumes env: "storage_ok P" "clock_ok P" and I: "on_db repo_inv s" and r: "profile_of (sys_db s) i = Some r"
    and run: "coordinator_enable P co i s = (x, t)"
  obtains (refused) "rec_state r = ACTIVE" "x = Raise InvalidProfileTransition" "sys_db t = sys_db s"
  | (enabled) a b where "rec_state r \<noteq> ACTIVE" "x = Ok (coordinator_result a None (Some b))"
      "profile_of (sys_db t) = (profile_of (sys_db s))(i \<mapsto> a)" "on_db repo_inv t" "rec_state a = ACTIVE" "same_material r a"
      "rec_last_error_code a = None" "bundle_for_record P (co_cipher co) (co_links co) a = Inr b"
  | (failed) r' where "rec_state r \<noteq> ACTIVE" "x = Raise ProfileEnableFailed"
      "profile_of (sys_db t) = (profile_of (sys_db s))(i \<mapsto> r')" "on_db repo_inv t" "same_material r r'"
      "rec_last_error_code r' = Some XRAY_ADD_FAILED" "rec_state r' = ERROR \<or> rec_state r' = DISABLED"
proof -
  obtain w where g: "repo_get P i s = (Ok r, s\<lparr>sys_world := w\<rparr>)" using repo_get_ok [OF env(1) I r] by blast
  let ?s = "s\<lparr>sys_world := w\<rparr>"
  have I1: "on_db repo_inv ?s" and v1: "profile_of (sys_db ?s) i = Some r" using I r by simp_all
  show ?thesis
  proof (cases "rec_state r = ACTIVE")
    case True
    with run g refused show ?thesis by (auto simp: coordinator_enable_def prog_simps)
  next
    case False
    obtain c s1 where cur: "(if rec_state r = ERROR then set_state P i PENDING None else ret r) ?s = (Ok c, s1)"
      and st: "stored s s1 i c" "same_material r c" and legal: "rec_state c = PENDING \<or> rec_state c = DISABLED"
    proof (cases "rec_state r = ERROR")
      case True
      then have "transition_legal (rec_state r) PENDING" by (simp add: transition_legal_def)
      from set_state_ok [OF env(1) I1 v1 this, of None] obtain ts u
        where "set_state P i PENDING None ?s = (Ok (apply_state_rec PENDING None ts r), u)" "stored ?s u i (apply_state_rec PENDING None ts r)"
        by blast
      with True that [of "apply_state_rec PENDING None ts r" u] show ?thesis by (auto simp: stored_def)
    next
      case ne: False
      with False have "rec_state r = PENDING \<or> rec_state r = DISABLED" by (cases "rec_state r") simp_all
      with ne that [of r ?s] stored_same [OF I r] show ?thesis by (simp add: prog_simps)
    qed
    obtain z u where act: "catch (activate P co c i) (\<lambda>_. abandon P co (rec_runtime_id c) i ProfileEnableFailed) s1 = (z, u)"
      by fastforce
    have eq: "coordinator_enable P co i s = bindP (catch (activate P co c i) (\<lambda>_. abandon P co (rec_runtime_id c) i ProfileEnableFailed))
       (\<lambda>(active, links). ret (coordinator_result active None (Some links))) s1"
      using g cur legal by (auto simp: coordinator_enable_def prog_simps)
    note view = storedD(3) [OF st(1)]
    from env storedD(1,2) [OF st(1)] legal act show ?thesis
    proof (cases rule: activate_or_abandon)
      case (active ts b)
      with run eq act have "x = Ok (coordinator_result (apply_state_rec ACTIVE None ts c) None (Some b))" "t = u"
        by (auto simp: prog_simps)
      with active False view storedD [OF active(2)] same_material_trans [OF st(2) records_fields(5)] show ?thesis
        by (intro enabled [of "apply_state_rec ACTIVE None ts c" b]) auto
    next
      case (failed r')
      with run eq act have "x = Raise ProfileEnableFailed" "t = u" by (auto simp: prog_simps)
      with failed False view same_material_trans [OF st(2) failed(4)] that(3) [of r'] show ?thesis by auto
    qed
  qed
qed

lemma delete_local_ok:
  assumes "storage_ok P" and "on_db repo_inv s" and "profile_of (sys_db s) i = Some r"
  obtains (deleted) t where "delete_local P i s = (Ok (), t)" "(Ok (), sys_db t) \<in> delete_spec i (sys_db s)" "sys_health t = sys_health s"
  | (clash) w where "delete_local P i s = (Raise IntegrityError, s\<lparr>sys_world := w\<rparr>)"
proof -
  obtain x t where run: "delete_local P i s = (x, t)" by fastforce
  have I: "repo_inv (sys_db s)" using assms(2) by (simp add: on_db_def)
  note d = implementsD_ok [OF delete_local_refines assms(1) I run] and h = implementsD(1) [OF delete_local_refines I run]
  from d assms(3) consider "x = Ok ()" | "x = Raise IntegrityError" "sys_db t = sys_db s" by (auto simp: delete_spec_def)
  then show ?thesis
  proof cases
    case 1
    with run d h show ?thesis by (intro deleted [of t]) auto
  next
    case 2
    with run h clash world_only [of t s] show ?thesis by auto
  qed
qed

lemma checkpoint_wal_ok: "storage_ok P \<Longrightarrow> \<exists>w. checkpoint_wal P s = (Ok (), s\<lparr>sys_world := w\<rparr>)"
  unfolding checkpoint_wal_def by (rule storage_check_ok)

lemma delete_outcome:
  assumes env: "storage_ok P" "clock_ok P" and I: "on_db repo_inv s" and r: "profile_of (sys_db s) i = Some r"
    and run: "coordinator_delete P co i s = (x, t)"
  obtains (deleted) db where "x = Ok ()" "(Ok (), sys_db t) \<in> delete_spec i db" "repo_inv db"
      "profile_of (sys_db t) = (profile_of (sys_db s))(i := None)" "on_db repo_inv t"
  | (kept) d where "x = Raise ProfileRevocationFailed \<or> x = Raise ProfileDeleteFailed"
      "profile_of (sys_db t) = (profile_of (sys_db s))(i \<mapsto> d)" "on_db repo_inv t" "same_material r d" "rec_state d = DISABLED"
      "rec_last_error_code d \<noteq> None"
proof -
  obtain y s1 where dis: "coordinator_disable P co i s = (y, s1)" by fastforce
  obtain d where d: "profile_of (sys_db s1) = (profile_of (sys_db s))(i \<mapsto> d)" "same_material r d" "rec_state d = DISABLED" "on_db repo_inv s1"
    and y: "y = Ok (coordinator_result d None None) \<and> rec_last_error_code d = None
       \<or> y = Raise ProfileRevocationFailed \<and> rec_last_error_code d = Some RUNTIME_REVOKE_INCOMPLETE"
    by (rule disable_outcome [OF env I r dis])
  have v1: "profile_of (sys_db s1) i = Some d" using d(1) by simp
  from y show ?thesis
  proof
    assume "y = Raise ProfileRevocationFailed \<and> rec_last_error_code d = Some RUNTIME_REVOKE_INCOMPLETE"
    with dis run d kept [of d] show ?thesis by (auto simp: coordinator_delete_def prog_simps)
  next
    assume ok: "y = Ok (coordinator_result d None None) \<and> rec_last_error_code d = None"
    from env(1) d(4) v1 show ?thesis
    proof (cases rule: delete_local_ok)
      case (deleted t1)
      obtain w where "checkpoint_wal P t1 = (Ok (), t1\<lparr>sys_world := w\<rparr>)" using checkpoint_wal_ok [OF env(1)] by blast
      with dis run ok deleted have "x = Ok ()" "t = t1\<lparr>sys_world := w\<rparr>" by (auto simp: coordinator_delete_def prog_simps)
      with delete_spec_view [OF _ deleted(2)] d deleted(2) that(1) [of "sys_db s1"] show ?thesis by (auto simp: on_db_def)
    next
      case (clash w)
      let ?s = "s1\<lparr>sys_world := w\<rparr>"
      have "on_db repo_inv ?s" "profile_of (sys_db ?s) i = Some d" using d(4) v1 by simp_all
      from mark_error_ok [OF env(1) this error_codes_valid(3)] obtain d' t1 where 2: "mark_error P i PROFILE_MATERIAL_INVALID ?s = (Ok (), t1)"
        and d': "stored ?s t1 i d'" "same_material d d'" "rec_last_error_code d' = Some PROFILE_MATERIAL_INVALID" "rec_state d' = DISABLED"
        using d(3) by auto
      obtain w' h where "reconcile_after_error P co t1 = (Ok (), t1\<lparr>sys_world := w', sys_health := h\<rparr>)"
        using reconcile_after_error_run [OF env(2)] by blast
      with dis run ok clash 2 have "x = Raise ProfileDeleteFailed" "t = t1\<lparr>sys_world := w', sys_health := h\<rparr>"
        by (auto simp: coordinator_delete_def prog_simps)
      with d d' storedD [OF d'(1)] same_material_trans [OF d(2) d'(2)] kept [of d'] show ?thesis by auto
    qed
  qed
qed

lemma missing_outcome:
  assumes env: "storage_ok P" and I: "on_db repo_inv s" and none: "profile_of (sys_db s) i = None"
  shows "fst (coordinator_disable P co i s) = Raise ProfileNotFound" "fst (coordinator_enable P co i s) = Raise ProfileNotFound"
    "fst (coordinator_delete P co i s) = Raise ProfileNotFound"
    "sys_db (snd (coordinator_disable P co i s)) = sys_db s" "sys_db (snd (coordinator_enable P co i s)) = sys_db s"
    "sys_db (snd (coordinator_delete P co i s)) = sys_db s"
proof -
  obtain w where g: "repo_get P i s = (Raise ProfileNotFound, s\<lparr>sys_world := w\<rparr>)" using repo_get_missing [OF assms] by blast
  then have d: "coordinator_disable P co i s = (Raise ProfileNotFound, s\<lparr>sys_world := w\<rparr>)"
    by (simp add: coordinator_disable_def prepare_disabled_def prog_simps)
  from g have e: "coordinator_enable P co i s = (Raise ProfileNotFound, s\<lparr>sys_world := w\<rparr>)"
    by (simp add: coordinator_enable_def prog_simps)
  from d have x: "coordinator_delete P co i s = (Raise ProfileNotFound, s\<lparr>sys_world := w\<rparr>)"
    by (simp add: coordinator_delete_def prog_simps)
  show "fst (coordinator_disable P co i s) = Raise ProfileNotFound" "fst (coordinator_enable P co i s) = Raise ProfileNotFound"
    "fst (coordinator_delete P co i s) = Raise ProfileNotFound"
    "sys_db (snd (coordinator_disable P co i s)) = sys_db s" "sys_db (snd (coordinator_enable P co i s)) = sys_db s"
    "sys_db (snd (coordinator_delete P co i s)) = sys_db s" by (simp_all add: d e x)
qed

section \<open>What the runtime serves after an activation\<close>

lemma user_id_material: "same_material r r' \<Longrightarrow> reconcile_user_id P c r = reconcile_user_id P c r'"
  by (simp add: reconcile_user_id_def decrypt_user_id_def same_material_def split: option.splits)

lemma create_served:
  assumes contract: "runtime_contract P (co_tag co) users"
    and "service_create P (co_cipher co) name s = (y, s1)" and "repo_get P i s1 = (z, s2)" and "activate P co p j s2 = (Ok x, t)"
  shows "\<exists>uid. reconcile_user_id P (co_cipher co) p = Inr uid \<and> served users t = (served users s)(rec_runtime_id p \<mapsto> uuid_str uid)"
  using activate_served [OF contract assms(4)] quiet_served [OF contract keeps_on_world_repository(1) assms(3)]
    quiet_served [OF contract keeps_on_world_service assms(2)] by simp

lemma enable_served:
  assumes env: "storage_ok P" and contract: "runtime_contract P (co_tag co) users" and I: "on_db repo_inv s"
    and r: "profile_of (sys_db s) i = Some r" and run: "coordinator_enable P co i s = (Ok res, t)"
  shows "\<exists>uid. reconcile_user_id P (co_cipher co) r = Inr uid \<and> served users t = (served users s)(rec_runtime_id r \<mapsto> uuid_str uid)"
proof -
  from run obtain r0 s1 cur s2 a b where g: "repo_get P i s = (Ok r0, s1)"
    and cur: "(if rec_state r0 = ERROR then set_state P i PENDING None else ret r0) s1 = (Ok cur, s2)"
    and act: "catch (activate P co cur i) (\<lambda>_. abandon P co (rec_runtime_id cur) i ProfileEnableFailed) s2 = (Ok (a, b), t)"
    unfolding coordinator_enable_def by (auto simp: prog_simps elim!: bindP_OkE split: if_splits)
  have r0: "r0 = r" "on_db repo_inv s1" "profile_of (sys_db s1) i = Some r" using repository.get_law [OF I g] r by auto
  have m: "same_material r cur" "served users s2 = served users s1"
  proof (atomize (full), cases "rec_state r = ERROR")
    case True
    then have st: "set_state P i PENDING None s1 = (Ok cur, s2)" using cur r0 by simp
    from repository.change_Ok(4) [OF r0(2) st] r0(3) quiet_served [OF contract keeps_on_world_repository(3) st]
    show "same_material r cur \<and> served users s2 = served users s1" by auto
  next
    case False
    with cur r0 show "same_material r cur \<and> served users s2 = served users s1" by (simp add: prog_simps)
  qed
  have "activate P co cur i s2 = (Ok (a, b), t)"
    using act by (auto simp: abandon_def prog_simps elim!: catch_OkE bindP_OkE)
  with activate_served [OF contract this] m user_id_material [OF m(1), of P "co_cipher co"]
    quiet_served [OF contract keeps_on_world_repository(1) g] show ?thesis
    by (auto simp: same_material_def)
qed

end
