(* ===== verification/Runtime.thy ===== *)
theory Runtime
  imports Coordinator_Facts
begin

text \<open>
  \<^verbatim>\<open>profiles/runtime.py\<close>: the protocol \<open>RuntimeCoordinator\<close> that the panel programs against, as an interface,
  with its two implementations: \<open>FakeRuntimeCoordinator\<close> and the coordinator of \<^verbatim>\<open>profiles/coordinator.py\<close>. The
  interface is enough for the panel's safety: whatever sequence of commands an operator gives, and
  whichever of them fail, every profile lives by the legal transitions.
\<close>

section \<open>The fake coordinator\<close>

definition fake_create :: "'w platform \<Rightarrow> cipher \<Rightarrow> ustr \<Rightarrow> ('w, profile_result) op" where
  "fake_create P c name = service_create P c name"

definition fake_disable :: "'w platform \<Rightarrow> uuid \<Rightarrow> ('w, profile_result) op" where
  "fake_disable P i = disable_local P i"

definition fake_enable :: "'w platform \<Rightarrow> uuid \<Rightarrow> ('w, profile_result) op" where
  "fake_enable P i = bindP (repo_get P i) (\<lambda>current.
     if rec_state current = ERROR then bindP (set_state P i PENDING None) (\<lambda>r. ret (service_result r None))
     else enable_local P i)"

definition fake_delete :: "'w platform \<Rightarrow> uuid \<Rightarrow> ('w, unit) op" where
  "fake_delete P i = bindP (repo_get P i) (\<lambda>current.
     bindP (if rec_state current = ACTIVE then bindP (disable_local P i) (\<lambda>_. ret ())
       else if rec_state current = ERROR then bindP (set_state P i DISABLED None) (\<lambda>_. ret ())
       else ret ()) (\<lambda>_. delete_local P i))"

definition fake_reconcile :: "('w, reconcile_result) op" where
  "fake_reconcile = ret empty_reconcile_result"

section \<open>The interface\<close>

definition reflects :: "profile_result \<Rightarrow> profile_record \<Rightarrow> bool" where
  "reflects res r \<longleftrightarrow> res_profile_id res = rec_profile_id r \<and> res_name res = rec_name r \<and> res_state res = rec_state r
     \<and> res_runtime_id res = rec_runtime_id r"

lemma reflects_results [simp]: "reflects (service_result r token) r" "reflects (coordinator_result r token links) r"
  by (simp_all add: reflects_def service_result_def coordinator_result_def)

datatype command = Create ustr | Disable uuid | Enable uuid | Delete uuid | Reconcile

fun command_program ::
  "(ustr \<Rightarrow> ('s, profile_result) prog) \<Rightarrow> (uuid \<Rightarrow> ('s, profile_result) prog) \<Rightarrow> (uuid \<Rightarrow> ('s, profile_result) prog) \<Rightarrow>
   (uuid \<Rightarrow> ('s, unit) prog) \<Rightarrow> ('s, reconcile_result) prog \<Rightarrow> command \<Rightarrow> ('s, bool) prog" where
  "command_program create disable enable delete reconcile (Create name) = failed (create name)"
| "command_program create disable enable delete reconcile (Disable i) = failed (disable i)"
| "command_program create disable enable delete reconcile (Enable i) = failed (enable i)"
| "command_program create disable enable delete reconcile (Delete i) = failed (delete i)"
| "command_program create disable enable delete reconcile Reconcile = failed reconcile"

locale runtime_coordinator =
  fixes inv :: "'s \<Rightarrow> bool" and view :: "'s \<Rightarrow> profile_view"
    and create :: "ustr \<Rightarrow> ('s, profile_result) prog" and disable :: "uuid \<Rightarrow> ('s, profile_result) prog"
    and enable :: "uuid \<Rightarrow> ('s, profile_result) prog" and delete :: "uuid \<Rightarrow> ('s, unit) prog"
    and reconcile :: "('s, reconcile_result) prog"
  assumes safe: "keeps (\<lambda>s. inv s \<and> history v (view s)) (create name)" "keeps (\<lambda>s. inv s \<and> history v (view s)) (disable i)"
      "keeps (\<lambda>s. inv s \<and> history v (view s)) (enable i)" "keeps (\<lambda>s. inv s \<and> history v (view s)) (delete i)"
      "keeps (\<lambda>s. inv s \<and> history v (view s)) reconcile"
    and created: "inv s \<Longrightarrow> create name s = (Ok res, t) \<Longrightarrow> view s (res_profile_id res) = None
      \<and> (\<exists>r. view t = (view s)(res_profile_id res \<mapsto> r) \<and> reflects res r)"
    and disabled: "inv s \<Longrightarrow> disable i s = (Ok res, t) \<Longrightarrow> view s i \<noteq> None
      \<and> (\<exists>r. view t = (view s)(i \<mapsto> r) \<and> rec_state r = DISABLED \<and> reflects res r)"
    and enabled: "inv s \<Longrightarrow> enable i s = (Ok res, t) \<Longrightarrow> view s i \<noteq> None
      \<and> (\<exists>r. view t = (view s)(i \<mapsto> r) \<and> (rec_state r = ACTIVE \<or> rec_state r = PENDING) \<and> reflects res r)"
    and deleted: "inv s \<Longrightarrow> delete i s = (Ok u, t) \<Longrightarrow> view s i \<noteq> None \<and> view t = (view s)(i := None)"
begin

abbreviation run_commands :: "command list \<Rightarrow> ('s, unit) prog" where
  "run_commands \<equiv> for_each (\<lambda>cmd. bindP (command_program create disable enable delete reconcile cmd) (\<lambda>_. ret ()))"

lemma commands_keep_history: "keeps (\<lambda>s. inv s \<and> history v (view s)) (run_commands cmds)"
proof (rule keeps_for_each)
  fix cmd
  show "keeps (\<lambda>s. inv s \<and> history v (view s)) (bindP (command_program create disable enable delete reconcile cmd) (\<lambda>_. ret ()))"
    by (cases cmd) (auto intro!: keeps_intros safe)
qed

text \<open>A profile that was deleted cannot be disabled or enabled, and another profile is not affected by it.\<close>

lemma after_delete:
  assumes "inv s" and "delete i s = (Ok u, t)" and "inv t"
  shows "disable i t \<noteq> (Ok res, t')" and "enable i t \<noteq> (Ok res, t')" and "delete i t \<noteq> (Ok u', t')"
    and "j \<noteq> i \<Longrightarrow> view t j = view s j"
  using deleted [OF assms(1,2)] disabled [OF assms(3), of i res t'] enabled [OF assms(3), of i res t'] deleted [OF assms(3), of i u' t']
  by auto

end

section \<open>The implementations\<close>

lemma tracked_fold: "keeps (on_db (tracked v)) m \<Longrightarrow> keeps (\<lambda>s. on_db repo_inv s \<and> history v (profile_of (sys_db s))) m"
  by (simp add: on_db_tracked)

lemma tracked_local [keeps_intros]:
  "keeps (on_db (tracked v)) (disable_local P i)" "keeps (on_db (tracked v)) (enable_local P i)"
  unfolding disable_local_def enable_local_def by (intro keeps_intros)+

lemma tracked_fake:
  "keeps (on_db (tracked v)) (fake_create P c name)" "keeps (on_db (tracked v)) (fake_disable P i)"
  "keeps (on_db (tracked v)) (fake_enable P i)" "keeps (on_db (tracked v)) (fake_delete P i)" "keeps (on_db (tracked v)) fake_reconcile"
  unfolding fake_create_def fake_disable_def fake_enable_def fake_delete_def fake_reconcile_def by (intro keeps_intros)+

text \<open>A program that does not touch the store until its last step: what holds of the last step holds of the program.\<close>

definition ends_with :: "('s \<Rightarrow> bool) \<Rightarrow> ('a \<Rightarrow> 's \<Rightarrow> bool) \<Rightarrow> ('s, 'a) prog \<Rightarrow> bool" where
  "ends_with I Q m \<longleftrightarrow> (\<forall>s b t. I s \<longrightarrow> m s = (Ok b, t) \<longrightarrow> Q b t)"

lemma ends_withD: "ends_with I Q m \<Longrightarrow> I s \<Longrightarrow> m s = (Ok b, t) \<Longrightarrow> Q b t"
  by (simp add: ends_with_def)

lemma ends_with_bind:
  assumes "keeps I m" and "\<And>a. ends_with I Q (f a)"
  shows "ends_with I Q (bindP m f)"
  unfolding ends_with_def
proof (intro allI impI)
  fix s b t assume I: "I s" and "bindP m f s = (Ok b, t)"
  then obtain a s' where m: "m s = (Ok a, s')" and f: "f a s' = (Ok b, t)" by (auto elim: bindP_OkE)
  have "I s'" by (rule keepsD_eq [OF assms(1) m I])
  with assms(2) f show "Q b t" by (auto simp: ends_with_def)
qed

lemma ends_with_let: "(\<And>x. ends_with I Q (f x)) \<Longrightarrow> ends_with I Q (let x = v in f x)"
  by simp

text \<open>On every platform, a created profile is one that the store did not have.\<close>

lemma service_create_stores:
  assumes I: "on_db repo_inv s" and run: "service_create P c name s = (Ok res, t)"
  shows "profile_of (sys_db s) (res_profile_id res) = None \<and> on_db repo_inv t
     \<and> (\<exists>r. profile_of (sys_db t) = (profile_of (sys_db s))(res_profile_id res \<mapsto> r) \<and> reflects res r \<and> rec_state r = PENDING)"
proof -
  let ?Q = "\<lambda>res t. profile_of (sys_db s) (res_profile_id res) = None \<and> on_db repo_inv t
     \<and> (\<exists>r. profile_of (sys_db t) = (profile_of (sys_db s))(res_profile_id res \<mapsto> r) \<and> reflects res r \<and> rec_state r = PENDING)"
  have last: "ends_with (untouched (sys_db s) (sys_health s)) ?Q
      (bindP (insert_pending P m) (\<lambda>r. ret (service_result r (Some token))))" for m token
    unfolding ends_with_def
  proof (intro allI impI)
    fix s1 :: "'a sys" and b t1
    assume u: "untouched (sys_db s) (sys_health s) s1"
      and "bindP (insert_pending P m) (\<lambda>r. ret (service_result r (Some token))) s1 = (Ok b, t1)"
    then obtain r where ins: "insert_pending P m s1 = (Ok r, t1)" and b: "b = service_result r (Some token)"
      by (auto simp: ret_run elim!: bindP_OkE)
    have "on_db repo_inv s1" using I u by (simp add: on_db_def untouched_def)
    from repository.store_law [OF this ins] b u show "?Q b t1"
      by (auto simp: service_result_def new_record_fields reflects_def untouched_def)
  qed
  have "ends_with (untouched (sys_db s) (sys_health s)) ?Q (service_create P c name)"
    unfolding service_create_def random_exact_def encrypt_field_def by (intro ends_with_bind ends_with_let last keeps_intros)
  from ends_withD [OF this _ run] show ?thesis by (simp add: untouched_def)
qed

lemma set_state_change:
  assumes "on_db repo_inv s" and "set_state P i st err s = (Ok x, t)"
  shows "profile_of (sys_db s) i \<noteq> None \<and> on_db repo_inv t \<and> profile_of (sys_db t) = (profile_of (sys_db s))(i \<mapsto> x) \<and> rec_state x = st"
  using repository.change_Ok [OF assms] by auto

interpretation fake: runtime_coordinator "on_db repo_inv" "\<lambda>s. profile_of (sys_db s)" "fake_create P c" "fake_disable P"
  "fake_enable P" "fake_delete P" fake_reconcile for P :: "'w platform" and c
proof
  fix s t :: "'w sys" and res i name and u :: unit
  show "profile_of (sys_db s) (res_profile_id res) = None
      \<and> (\<exists>r. profile_of (sys_db t) = (profile_of (sys_db s))(res_profile_id res \<mapsto> r) \<and> reflects res r)"
    if "on_db repo_inv s" and "fake_create P c name s = (Ok res, t)"
    using service_create_stores [OF that(1) that(2) [unfolded fake_create_def]] by blast
  show "profile_of (sys_db s) i \<noteq> None
      \<and> (\<exists>r. profile_of (sys_db t) = (profile_of (sys_db s))(i \<mapsto> r) \<and> rec_state r = DISABLED \<and> reflects res r)"
    if I: "on_db repo_inv s" and run: "fake_disable P i s = (Ok res, t)"
  proof -
    from run obtain r where "set_state P i DISABLED None s = (Ok r, t)" "res = service_result r None"
      by (auto simp: fake_disable_def disable_local_def ret_run elim!: bindP_OkE)
    with set_state_change [OF I] show ?thesis by auto
  qed
  show "profile_of (sys_db s) i \<noteq> None
      \<and> (\<exists>r. profile_of (sys_db t) = (profile_of (sys_db s))(i \<mapsto> r) \<and> (rec_state r = ACTIVE \<or> rec_state r = PENDING) \<and> reflects res r)"
    if I: "on_db repo_inv s" and run: "fake_enable P i s = (Ok res, t)"
  proof -
    from run obtain cur s1 where g: "repo_get P i s = (Ok cur, s1)"
      and rest: "(if rec_state cur = ERROR then bindP (set_state P i PENDING None) (\<lambda>r. ret (service_result r None))
        else enable_local P i) s1 = (Ok res, t)" unfolding fake_enable_def by (rule bindP_OkE) blast
    have "on_db repo_inv s1" "profile_of (sys_db s1) = profile_of (sys_db s)" using repository.get_law [OF I g] by auto
    moreover obtain st r where "set_state P i st None s1 = (Ok r, t)" "st = ACTIVE \<or> st = PENDING" "res = service_result r None"
      using rest by (cases "rec_state cur = ERROR") (auto simp: enable_local_def ret_run elim!: bindP_OkE)
    ultimately show ?thesis using set_state_change [of s1 P i st None r t] by auto
  qed
  show "profile_of (sys_db s) i \<noteq> None \<and> profile_of (sys_db t) = (profile_of (sys_db s))(i := None)"
    if I: "on_db repo_inv s" and run: "fake_delete P i s = (Ok u, t)"
  proof -
    from run obtain cur s1 s2 where g: "repo_get P i s = (Ok cur, s1)"
      and dis: "(if rec_state cur = ACTIVE then bindP (disable_local P i) (\<lambda>_. ret ())
       else if rec_state cur = ERROR then bindP (set_state P i DISABLED None) (\<lambda>_. ret ()) else ret ()) s1 = (Ok (), s2)"
      and del: "delete_local P i s2 = (Ok u, t)" unfolding fake_delete_def by (elim bindP_OkE) simp
    have s1: "on_db repo_inv s1" "profile_of (sys_db s1) = profile_of (sys_db s)" "profile_of (sys_db s) i = Some cur"
      using repository.get_law [OF I g] by auto
    have s2: "on_db repo_inv s2 \<and> (\<exists>x. profile_of (sys_db s2) = (profile_of (sys_db s))(i \<mapsto> x))"
    proof (cases "rec_state cur = ACTIVE \<or> rec_state cur = ERROR")
      case True
      with dis obtain r where "set_state P i DISABLED None s1 = (Ok r, s2)"
        by (auto simp: disable_local_def ret_run elim!: bindP_OkE split: if_splits)
      with set_state_change [OF s1(1), of P i DISABLED None r s2] s1(2) show ?thesis by auto
    next
      case False
      with dis s1 show ?thesis by (auto simp: ret_run fun_upd_idem intro!: exI [of _ cur])
    qed
    with repository.remove_law [OF conjunct1 [OF s2] del] s1 show ?thesis by auto
  qed
qed (rule tracked_fold [OF tracked_fake(1)] tracked_fold [OF tracked_fake(2)] tracked_fold [OF tracked_fake(3)]
    tracked_fold [OF tracked_fake(4)] tracked_fold [OF tracked_fake(5)])+

text \<open>The coordinator on every platform.\<close>

lemma prepare_disabled_Ok:
  assumes I: "on_db repo_inv s" and run: "prepare_disabled P i s = (Ok d, t)"
  shows "profile_of (sys_db s) i \<noteq> None \<and> on_db repo_inv t \<and> profile_of (sys_db t) = (profile_of (sys_db s))(i \<mapsto> d)
     \<and> rec_state d = DISABLED \<and> rec_profile_id d = i"
proof -
  from run obtain cur s1 cur2 s2 where g: "repo_get P i s = (Ok cur, s1)"
    and p: "(if rec_state cur = PENDING then set_state P i ERROR None else ret cur) s1 = (Ok cur2, s2)"
    and d: "set_state P (rec_profile_id cur2) DISABLED None s2 = (Ok d, t)"
    unfolding prepare_disabled_def by (elim bindP_OkE)
  have s1: "on_db repo_inv s1" "profile_of (sys_db s1) = profile_of (sys_db s)" "profile_of (sys_db s) i = Some cur"
    using repository.get_law [OF I g] by auto
  have s2: "on_db repo_inv s2 \<and> (\<exists>x. profile_of (sys_db s2) = (profile_of (sys_db s))(i \<mapsto> x) \<and> rec_profile_id cur2 = i)"
  proof (cases "rec_state cur = PENDING")
    case True
    with p have "set_state P i ERROR None s1 = (Ok cur2, s2)" by simp
    from set_state_change [OF s1(1) this] s1(2) view_id [of "sys_db s2" i cur2] show ?thesis by auto
  next
    case False
    with p s1 view_id show ?thesis by (auto simp: ret_run fun_upd_idem intro!: exI [of _ cur])
  qed
  with set_state_change [OF _ d] s1(3) view_id [of "sys_db t" i d] show ?thesis by auto
qed

lemma activate_Ok:
  assumes I: "on_db repo_inv s" and run: "activate P co r i s = (Ok (a, b), t)"
  shows "profile_of (sys_db s) i \<noteq> None \<and> on_db repo_inv t \<and> profile_of (sys_db t) = (profile_of (sys_db s))(i \<mapsto> a) \<and> rec_state a = ACTIVE"
proof -
  from run obtain u s1 where p: "provision P co r s = (Ok u, s1)" and st: "set_state P i ACTIVE None s1 = (Ok a, t)"
    unfolding activate_def by (auto simp: prog_simps lift_result_def elim!: bindP_OkE split: sum.splits)
  have "sys_db s1 = sys_db s" by (rule untouchedD(1) [OF keeps_provision(2) p])
  with set_state_change [OF _ st] I show ?thesis by (auto simp: on_db_def)
qed

lemma abandon_not_Ok: "abandon P co rid i e s \<noteq> (Ok x, t)"
  by (auto simp: abandon_def raise_run elim!: bindP_OkE)

lemma activate_catch_OkE:
  assumes "catch (activate P co r i) (\<lambda>_. abandon P co rid i e) s = (Ok x, t)"
  shows "activate P co r i s = (Ok x, t)"
  using assms by (auto simp: abandon_not_Ok elim!: catch_OkE)

text \<open>What \<open>coordinator_disable\<close> does once the profile is disabled in the store.\<close>

definition after_disabled :: "'w platform \<Rightarrow> coordinator \<Rightarrow> profile_record \<Rightarrow> ('w, profile_result) op" where
  "after_disabled P co d =
     bindP (failed (hysteria_kick P (rec_runtime_id d))) (\<lambda>f1.
     bindP (failed (xray_remove_user P (co_tag co) (rec_runtime_id d))) (\<lambda>f2.
     bindP (failed (supervisor_restart P)) (\<lambda>f3.
     bindP (failed (wait_ready P (co_tag co) READY_TIMEOUT)) (\<lambda>f4.
     bindP (repo_list P) (\<lambda>records.
     bindP (readd_active P co records) (\<lambda>f5.
     if f1 \<or> f2 \<or> f3 \<or> f4 \<or> f5 then
       bindP (set_runtime_error P (rec_profile_id d) RUNTIME_REVOKE_INCOMPLETE) (\<lambda>_.
       bindP (reconcile_after_error P co) (\<lambda>_. raise ProfileRevocationFailed))
     else bindP (repo_get P (rec_profile_id d)) (\<lambda>r. ret (coordinator_result r None None))))))))"

lemma coordinator_disable_eq: "coordinator_disable P co i = bindP (prepare_disabled P i) (after_disabled P co)"
  unfolding coordinator_disable_def after_disabled_def [abs_def] ..

lemma coordinator_disable_Ok:
  assumes I: "on_db repo_inv s" and run: "coordinator_disable P co i s = (Ok res, t)"
  shows "profile_of (sys_db s) i \<noteq> None \<and> on_db repo_inv t \<and>
     (\<exists>r. profile_of (sys_db t) = (profile_of (sys_db s))(i \<mapsto> r) \<and> rec_state r = DISABLED \<and> reflects res r)"
proof -
  from run obtain d s1 where d: "prepare_disabled P i s = (Ok d, s1)" and rest: "after_disabled P co d s1 = (Ok res, t)"
    unfolding coordinator_disable_eq by (rule bindP_OkE)
  note p = prepare_disabled_Ok [OF I d]
  let ?Q = "\<lambda>res t. sys_db t = sys_db s1 \<and> reflects res d"
  have get: "ends_with (untouched (sys_db s1) (sys_health s1)) ?Q (bindP (repo_get P (rec_profile_id d)) (\<lambda>r. ret (coordinator_result r None None)))"
    unfolding ends_with_def
  proof (intro allI impI)
    fix s2 :: "'a sys" and b u
    assume u: "untouched (sys_db s1) (sys_health s1) s2"
      and "bindP (repo_get P (rec_profile_id d)) (\<lambda>r. ret (coordinator_result r None None)) s2 = (Ok b, u)"
    then obtain r where g: "repo_get P (rec_profile_id d) s2 = (Ok r, u)" and b: "b = coordinator_result r None None"
      by (auto simp: ret_run elim!: bindP_OkE)
    have "on_db repo_inv s2" using p u by (simp add: on_db_def untouched_def)
    from repository.get_law [OF this g] p u have "r = d" by (auto simp: untouched_def)
    with b untouchedD(1) [OF untouched_queries(1) g] u show "?Q b u" by (simp add: untouched_def)
  qed
  have never: "ends_with J ?Q (bindP m (\<lambda>_. bindP n (\<lambda>_. raise ProfileRevocationFailed)))"
    for J and m :: "('a, 'b) op" and n :: "('a, 'c) op"
    by (auto simp: ends_with_def raise_run elim!: bindP_OkE)
  have choose: "ends_with J ?Q (if f then a else b)" if "ends_with J ?Q a" "ends_with J ?Q b" for J f and a b :: "('a, profile_result) op"
    using that by simp
  have "ends_with (untouched (sys_db s1) (sys_health s1)) ?Q (after_disabled P co d)"
    unfolding after_disabled_def by (intro ends_with_bind choose never get keeps_intros)
  with rest have "?Q res t" unfolding ends_with_def untouched_def by blast
  with p show ?thesis by (auto simp: on_db_def)
qed

interpretation panel: runtime_coordinator "on_db repo_inv" "\<lambda>s. profile_of (sys_db s)" "coordinator_create P co"
  "coordinator_disable P co" "coordinator_enable P co" "coordinator_delete P co" "coordinator_reconcile P co"
  for P :: "'w platform" and co
proof
  fix s t :: "'w sys" and res i name and u :: unit
  show "profile_of (sys_db s) (res_profile_id res) = None
      \<and> (\<exists>r. profile_of (sys_db t) = (profile_of (sys_db s))(res_profile_id res \<mapsto> r) \<and> reflects res r)"
    if I: "on_db repo_inv s" and run: "coordinator_create P co name s = (Ok res, t)"
  proof -
    from run obtain p s1 r s2 a b where sc: "service_create P (co_cipher co) name s = (Ok p, s1)"
      and g: "repo_get P (res_profile_id p) s1 = (Ok r, s2)"
      and act: "catch (activate P co r (rec_profile_id r)) (\<lambda>_. abandon P co (rec_runtime_id r) (rec_profile_id r) ProfileProvisioningFailed) s2
        = (Ok (a, b), t)" and res: "res = coordinator_result a (res_subscription_token p) (Some b)"
      unfolding coordinator_create_def by (auto simp: ret_run elim!: bindP_OkE)
    note v = service_create_stores [OF I sc]
    have s2: "on_db repo_inv s2" "profile_of (sys_db s2) = profile_of (sys_db s1)" "rec_profile_id r = res_profile_id p"
      using repository.get_law [OF _ g] v view_id [of "sys_db s1" "res_profile_id p" r] by auto
    from activate_Ok [OF s2(1) activate_catch_OkE [OF act]] s2 v view_id [of "sys_db t" "res_profile_id p" a] res
    show ?thesis by (auto simp: coordinator_result_def reflects_def)
  qed
  show "profile_of (sys_db s) i \<noteq> None
      \<and> (\<exists>r. profile_of (sys_db t) = (profile_of (sys_db s))(i \<mapsto> r) \<and> rec_state r = DISABLED \<and> reflects res r)"
    if "on_db repo_inv s" and "coordinator_disable P co i s = (Ok res, t)"
    using coordinator_disable_Ok [OF that] by blast
  show "profile_of (sys_db s) i \<noteq> None
      \<and> (\<exists>r. profile_of (sys_db t) = (profile_of (sys_db s))(i \<mapsto> r) \<and> (rec_state r = ACTIVE \<or> rec_state r = PENDING) \<and> reflects res r)"
    if I: "on_db repo_inv s" and run: "coordinator_enable P co i s = (Ok res, t)"
  proof -
    from run obtain r s1 cur s2 a b where g: "repo_get P i s = (Ok r, s1)"
      and cur: "(if rec_state r = ERROR then set_state P i PENDING None else ret r) s1 = (Ok cur, s2)"
      and act: "catch (activate P co cur i) (\<lambda>_. abandon P co (rec_runtime_id cur) i ProfileEnableFailed) s2 = (Ok (a, b), t)"
      and res: "res = coordinator_result a None (Some b)"
      unfolding coordinator_enable_def by (auto simp: prog_simps elim!: bindP_OkE split: if_splits)
    have s1: "on_db repo_inv s1" "profile_of (sys_db s1) = profile_of (sys_db s)" "profile_of (sys_db s) i = Some r"
      using repository.get_law [OF I g] by auto
    have s2: "on_db repo_inv s2 \<and> (\<exists>x. profile_of (sys_db s2) = (profile_of (sys_db s))(i \<mapsto> x))"
    proof (cases "rec_state r = ERROR")
      case True
      with cur have "set_state P i PENDING None s1 = (Ok cur, s2)" by simp
      from set_state_change [OF s1(1) this] s1(2) show ?thesis by auto
    next
      case False
      with cur s1 show ?thesis by (auto simp: ret_run fun_upd_idem intro!: exI [of _ r])
    qed
    from activate_Ok [OF conjunct1 [OF s2] activate_catch_OkE [OF act]] s2 s1(3) res show ?thesis by auto
  qed
  show "profile_of (sys_db s) i \<noteq> None \<and> profile_of (sys_db t) = (profile_of (sys_db s))(i := None)"
    if I: "on_db repo_inv s" and run: "coordinator_delete P co i s = (Ok u, t)"
  proof -
    from run have "bindP (coordinator_disable P co i) (\<lambda>_. bindP (delete_local P i) (\<lambda>_. checkpoint_wal P)) s = (Ok u, t)"
      unfolding coordinator_delete_def by (auto simp: raise_run elim!: catch_OkE bindP_OkE split: if_splits)
    then obtain res s1 v s2 where d: "coordinator_disable P co i s = (Ok res, s1)" and x: "delete_local P i s1 = (Ok v, s2)"
      and w: "checkpoint_wal P s2 = (Ok u, t)" by (elim bindP_OkE)
    from coordinator_disable_Ok [OF I d] repository.remove_law [OF _ x] untouchedD(1) [OF untouched_queries(3) w]
    show ?thesis by auto
  qed
qed (rule tracked_fold [OF tracked_coordinator(1)] tracked_fold [OF tracked_coordinator(2)] tracked_fold [OF tracked_coordinator(3)]
    tracked_fold [OF tracked_delete] tracked_fold [OF tracked_coordinator(4)])+

end
