(* ===== verification/Simulation.thy ===== *)
theory Simulation
  imports Runtime
begin

text \<open>
  A concrete platform: a deterministic world with a clock, a counter for random data and an Xray
  inbound with its users. It satisfies every contract that the theorems assume, so the concrete runs
  below show that their hypotheses hold together.
\<close>

record sim_world =
  sw_clock :: int
  sw_seed :: nat
  sw_users :: "(ustr \<times> ustr) list"
  sw_up :: bool

definition sim_hmac :: "bytes \<Rightarrow> bytes \<Rightarrow> bytes" where
  "sim_hmac k m = word_of_nat (length m) # take 31 (m @ replicate 31 0)"

definition sim_encrypt :: "bytes \<Rightarrow> bytes \<Rightarrow> bytes \<Rightarrow> bytes \<Rightarrow> bytes" where
  "sim_encrypt k n v c = n @ v @ replicate 16 0"

definition sim_decrypt :: "bytes \<Rightarrow> bytes \<Rightarrow> bytes \<Rightarrow> bytes option" where
  "sim_decrypt k m c = (if length m < 40 then None else Some (take (length m - 40) (drop 24 m)))"

definition sim_tick :: "sim_world \<Rightarrow> int \<times> sim_world" where
  "sim_tick w = (sw_clock w, w\<lparr>sw_clock := sw_clock w + 1\<rparr>)"

definition sim_random :: "nat \<Rightarrow> sim_world \<Rightarrow> bytes \<times> sim_world" where
  "sim_random n w = (replicate n (word_of_nat (sw_seed w)), w\<lparr>sw_seed := sw_seed w + 1\<rparr>)"

definition sim_uuid4 :: "sim_world \<Rightarrow> uuid \<times> sim_world" where
  "sim_uuid4 w = (word_of_nat (sw_seed w), w\<lparr>sw_seed := sw_seed w + 1\<rparr>)"

fun sim_alter_op :: "xray_operation \<Rightarrow> sim_world \<Rightarrow> status_code option \<times> sim_world" where
  "sim_alter_op (AddUserOperation u) w =
     (if map_of (sw_users w) (user_email u) \<noteq> None then (Some ALREADY_EXISTS, w)
      else (None, w\<lparr>sw_users := (user_email u, account_id (user_account u)) # sw_users w\<rparr>))"
| "sim_alter_op (RemoveUserOperation e) w =
     (if map_of (sw_users w) e = None then (Some NOT_FOUND, w)
      else (None, w\<lparr>sw_users := AList.delete e (sw_users w)\<rparr>))"

definition sim_alter :: "alter_inbound_request \<Rightarrow> int \<Rightarrow> sim_world \<Rightarrow> status_code option \<times> sim_world" where
  "sim_alter req timeout w = (if sw_up w then sim_alter_op (request_operation req) w else (Some UNAVAILABLE, w))"

definition sim :: "sim_world platform" where
  "sim = \<lparr>hmac_sha256 = sim_hmac, aead_encrypt = sim_encrypt, aead_decrypt = sim_decrypt,
     ucd_category = (\<lambda>c. if c < 32 then U ''Cc'' else if 55296 \<le> c \<and> c \<le> 57343 then U ''Cs'' else U ''Ll''),
     ucd_decimal = (\<lambda>_. None), ucd_isalnum = (\<lambda>_. False), ucd_nfkc = (\<lambda>s. s), ucd_casefold = (\<lambda>s. s),
     float_repr = (\<lambda>t. t), recursion_budget = 100, argon2_hash = (\<lambda>p w. (Inr p, w)),
     argon2_verify = (\<lambda>h p. if h = p then Argon2Match else Argon2Error), argon2_needs_rehash = (\<lambda>_. False),
     clock_now = sim_tick, sql_current_timestamp = sim_tick, sql_fault = (\<lambda>w. (False, w)),
     os_uuid4 = sim_uuid4, os_random = sim_random, mono_clock = sim_tick,
     os_sleep = (\<lambda>d w. w\<lparr>sw_clock := sw_clock w + max d 0\<rparr>),
     xray_alter = sim_alter,
     xray_users = (\<lambda>tag d w. (if sw_up w then Inr (map fst (sw_users w)) else Inl UNAVAILABLE, w)),
     xray_count = (\<lambda>tag d w. (if sw_up w then None else Some UNAVAILABLE, w)),
     hysteria_post = (\<lambda>url body w. (HttpStatus 200, w)),
     supervisor_post = (\<lambda>url w. (HttpStatus 202, w\<lparr>sw_users := []\<rparr>)),
     dns_addresses = (\<lambda>name w. (None, w))\<rparr>"

definition sim_cipher :: cipher where
  "sim_cipher = \<lparr>wrap_key = replicate 32 1, lookup_key = replicate 32 2\<rparr>"

definition sim_start :: "sim_world sys" where
  "sim_start = \<lparr>sys_db = empty_database, sys_health = \<lparr>health_ready = False, health_error_code = None\<rparr>,
     sys_world = \<lparr>sw_clock = 1000, sw_seed = 1, sw_users = [], sw_up = True\<rparr>\<rparr>"

lemma sim_crypto_ok: "crypto_ok sim"
  by (auto simp: crypto_ok_def sim_def sim_hmac_def sim_encrypt_def sim_decrypt_def secret_sizes min_def)

lemma sim_random_ok: "random_ok sim"
  by (simp add: random_ok_def sim_def sim_random_def)

lemma sim_storage_ok: "storage_ok sim"
  by (simp add: storage_ok_def sim_def)

lemma sim_clock_ok: "clock_ok sim"
  unfolding clock_ok_def
  by (rule exI [of _ sw_clock]) (auto simp: clock_contract_def sim_def sim_tick_def)

lemma sim_cipher_key: "length (wrap_key sim_cipher) = KEY_SIZE"
  by (simp add: sim_cipher_def secret_sizes)

lemma sim_start_inv: "on_db repo_inv sim_start"
  by (simp add: on_db_def sim_start_def repo_inv_empty)

lemma sim_quiet: "quiet sim (\<lambda>w. map_of (sw_users w) = m)"
  by (simp add: quiet_def sim_def sim_tick_def sim_uuid4_def sim_random_def)

lemma sim_runtime_contract: "runtime_contract sim tag (\<lambda>w. map_of (sw_users w))"
  unfolding runtime_contract_def
proof (intro conjI allI impI)
  fix m show "quiet sim (\<lambda>w. map_of (sw_users w) = m)" by (rule sim_quiet)
qed (force simp: sim_def sim_alter_def delete_conv dom_map_of_conv_image_fst split: if_splits)+

definition sim_links :: transport_link_config where
  "sim_links = \<lparr>tc_host = 3405803777, tc_reality_public_key = U ''PublicKey'', tc_reality_short_id = U ''0a1b'',
     tc_hysteria_obfs_password = U ''obfs'', tc_public_port = 443, tc_panel_port = 9443\<rparr>"

definition sim_panel :: coordinator where
  "sim_panel = \<lparr>co_cipher = sim_cipher, co_links = sim_links, co_tag = U ''vless-in'', co_has_reconciler = True, co_has_health = True\<rparr>"

lemma sim_config_ok: "config_ok sim_links"
  by (simp add: config_ok_def check_transport_link_config_def sim_links_def opaque_value_def short_id_pattern_def
      text_simps)

lemma sim_panel_fields [simp]: "co_cipher sim_panel = sim_cipher" "co_links sim_panel = sim_links" "co_tag sim_panel = U ''vless-in''"
  by (simp_all add: sim_panel_def)

text \<open>A world in which one profile is stored and active, and served by the runtime.\<close>

definition sim_id :: uuid where "sim_id = 7"

definition sim_token :: ustr where "sim_token = url_token (replicate 32 9)"
definition sim_secret :: bytes where "sim_secret = replicate 32 8"

definition sim_material :: new_profile_material where
  "sim_material = \<lparr>nm_profile_id = sim_id, nm_name = U ''bob'', nm_runtime_id = make_runtime_id (replicate 17 3),
     nm_wrapped_profile_key = FORMAT_VERSION @ replicate 24 5 @ replicate 32 4 @ replicate 16 0,
     nm_user_id_ciphertext = FORMAT_VERSION @ replicate 24 6 @ uuid_bytes 9 @ replicate 16 0,
     nm_hysteria_secret_ciphertext = FORMAT_VERSION @ replicate 24 7 @ sim_secret @ replicate 16 0,
     nm_subscription_token_ciphertext = FORMAT_VERSION @ replicate 24 8 @ ascii_bytes sim_token @ replicate 16 0,
     nm_subscription_lookup_digest = lookup_digest sim sim_cipher (ascii_bytes sim_token),
     nm_hysteria_lookup_digest = lookup_digest sim sim_cipher (HYSTERIA_LOOKUP_PREFIX @ ascii_bytes (url_token sim_secret))\<rparr>"

definition sim_added :: database where
  "sim_added = empty_database\<lparr>profiles := [new_profile_row sim_material 10],
     profile_lookups := [new_lookup_row 11 sim_id SUBSCRIPTION_LOOKUP_KIND (nm_subscription_lookup_digest sim_material) 10,
       new_lookup_row 12 sim_id HYSTERIA_LOOKUP_KIND (nm_hysteria_lookup_digest sim_material) 10]\<rparr>"

definition sim_db :: database where
  "sim_db = change_row sim_id (apply_state ACTIVE None 20) sim_added"

definition sim_record :: profile_record where
  "sim_record = apply_state_rec ACTIVE None 20 (new_record sim_material 10)"

definition sim_one :: "sim_world sys" where
  "sim_one = sim_start\<lparr>sys_db := sim_db, sys_world := \<lparr>sw_clock = 1000, sw_seed = 20,
     sw_users = [(make_runtime_id (replicate 17 3), uuid_str 9)], sw_up = True\<rparr>\<rparr>"

lemma pattern_sql_length: "runtime_id_pattern v \<Longrightarrow> sql_length v = 28"
proof -
  assume p: "runtime_id_pattern v"
  have "set v = set (take 2 v) \<union> set (drop 2 v)" by (metis append_take_drop_id set_append)
  with p have "length v = 28" "\<forall>ch \<in> set v. ch \<noteq> 0"
    by (auto simp: runtime_id_pattern_def is_b32_lower_def list_all_iff U_def)
  moreover from this have "takeWhile (\<lambda>c. c \<noteq> 0) v = v" by (simp only: takeWhile_eq_all_conv)
  ultimately show ?thesis by (simp only: sql_length_def)
qed

lemma sim_digests: "nm_subscription_lookup_digest sim_material \<noteq> nm_hysteria_lookup_digest sim_material"
  by (simp add: sim_material_def lookup_digest_def sim_def sim_hmac_def sim_token_def length_url_token
      HYSTERIA_LOOKUP_PREFIX_def sim_secret_def)

lemma sim_digest_lengths: "length (nm_subscription_lookup_digest sim_material) = 32" "length (nm_hysteria_lookup_digest sim_material) = 32"
  by (simp_all add: sim_material_def length_lookup_digest [OF sim_crypto_ok])

lemma sim_add_profile: "add_profile sim_material 11 12 10 10 10 empty_database = Inr sim_added"
  using sim_digests sim_digest_lengths pattern_sql_length [OF runtime_id_pattern_make, of "replicate 17 3"]
  by (simp add: add_profile_def insert_defs check_defs empty_database_def new_profile_row_def new_lookup_row_def sim_added_def
      sim_material_def sql_length_def U_def)

lemma sim_db_inv: "repo_inv sim_db"
  unfolding sim_db_def by (rule repo_inv_apply_state [OF add_profile_view(3) [OF repo_inv_empty sim_add_profile]])

lemma sim_db_view: "profile_of sim_db = [sim_id \<mapsto> sim_record]"
proof -
  have "profile_of empty_database = Map.empty" by (simp add: fun_eq_iff profile_of_def empty_database_def row_find_def)
  then show ?thesis
    using add_profile_view(1) [OF repo_inv_empty sim_add_profile]
    by (simp add: sim_db_def profile_of_apply_state sim_record_def) (simp add: sim_material_def)
qed

lemma sim_one_db [simp]: "sys_db sim_one = sim_db"
  by (simp add: sim_one_def)

lemma sim_one_inv: "on_db repo_inv sim_one" and sim_one_view: "profile_of (sys_db sim_one) sim_id = Some sim_record"
  by (simp_all add: on_db_def sim_db_inv sim_db_view)

lemma sim_record_opens: "opens sim sim_cipher sim_record 9 sim_secret sim_token"
proof -
  have "uuid_bytes sim_id \<noteq> []" by (metis length_uuid_bytes list.size(3) zero_neq_numeral)
  then show ?thesis
    by (simp add: opens_def sim_record_def apply_state_rec_def new_record_fields sim_material_def unwrap_profile_key_def decrypt_profile_value_def
      decrypt_value_def require_key_def sim_cipher_def secret_sizes FORMAT_VERSION_def sim_def sim_decrypt_def field_context_nonempty)
qed

lemmas sim_contracts = sim_crypto_ok sim_random_ok sim_storage_ok sim_clock_ok sim_cipher_key sim_start_inv
  sim_runtime_contract sim_config_ok sim_one_inv sim_one_view

end
