(* ===== verification/Admin.thy ===== *)
theory Admin
  imports Repository_Store
begin

text \<open>
  \<^verbatim>\<open>control/src/ezopenpn/security/passwords.py\<close> and \<^verbatim>\<open>control/src/ezopenpn/security/admin.py\<close>: the single
  administrator, the password check and the password reset. Argon2 is a parameter of the platform;
  what the code relies on is \<open>argon2_ok\<close>: a hash verifies against the password it was made from.
  \<open>same_profiles\<close> is the frame that every operation of the security package leaves to the profiles.
\<close>

section \<open>Passwords\<close>

record password_check =
  pc_valid :: bool
  pc_needs_rehash :: bool

definition password_hash :: "'w platform \<Rightarrow> ustr \<Rightarrow> ('w, ustr) op" where
  "password_hash P password = bindP (world_call (argon2_hash P password)) lift_result"

definition password_verify :: "'w platform \<Rightarrow> ustr \<Rightarrow> ustr \<Rightarrow> exn + password_check" where
  "password_verify P encoded password = (case argon2_verify P encoded password of
     Argon2Error \<Rightarrow> Inr \<lparr>pc_valid = False, pc_needs_rehash = False\<rparr>
   | Argon2False \<Rightarrow> Inr \<lparr>pc_valid = False, pc_needs_rehash = False\<rparr>
   | Argon2Raises e \<Rightarrow> Inl e
   | Argon2Match \<Rightarrow> Inr \<lparr>pc_valid = True, pc_needs_rehash = argon2_needs_rehash P encoded\<rparr>)"

section \<open>Administrator operations\<close>

definition has_control :: "'w platform \<Rightarrow> ustr \<Rightarrow> bool" where
  "has_control P s \<longleftrightarrow> list_ex (\<lambda>c. take 1 (ucd_category P c) = U ''C'') s"

definition normalize_login :: "'w platform \<Rightarrow> ustr \<Rightarrow> exn + ustr" where
  "normalize_login P login = (let normalized = ucd_casefold P (strip (ucd_nfkc P login)) in
     if \<not> (1 \<le> length normalized \<and> length normalized \<le> 64) then Inl InvalidAdminInput
     else if has_control P normalized then Inl InvalidAdminInput
     else Inr normalized)"

definition validate_new_password :: "'w platform \<Rightarrow> ustr \<Rightarrow> ustr option \<Rightarrow> exn + unit" where
  "validate_new_password P val normalized_login =
     (if \<not> (12 \<le> length val \<and> length val \<le> 1024) then Inl InvalidAdminInput
      else if has_control P val then Inl InvalidAdminInput
      else if normalized_login = Some val then Inl InvalidAdminInput
      else Inr ())"

definition new_admin_row :: "uuid \<Rightarrow> ustr \<Rightarrow> ustr \<Rightarrow> int \<Rightarrow> admin_row" where
  "new_admin_row i login hash ts = \<lparr>ad_id = uuid_str i, ad_login = login, ad_password_hash = hash,
     ad_singleton_key = 1, ad_session_version = 1, ad_created_at = ts, ad_updated_at = ts, ad_last_login_at = None\<rparr>"

definition create_initial :: "'w platform \<Rightarrow> ustr \<Rightarrow> ustr \<Rightarrow> ('w, admin_row) op" where
  "create_initial P login password =
     bindP (lift_result (normalize_login P login)) (\<lambda>normalized_login.
     bindP (lift_result (validate_new_password P password (Some normalized_login))) (\<lambda>_.
     bindP (world_call (os_uuid4 P)) (\<lambda>i.
     bindP (password_hash P password) (\<lambda>hash.
     catch
       (session_scope P
         (bindP (world_call (sql_current_timestamp P)) (\<lambda>ts.
          bindP (db_statement (insert_admin (new_admin_row i normalized_login hash ts))) (\<lambda>_.
          ret (new_admin_row i normalized_login hash ts)))))
       (\<lambda>e. if e = IntegrityError then raise AdminAlreadyExists else raise e)))))"

definition record_login :: "ustr option \<Rightarrow> int \<Rightarrow> admin_row \<Rightarrow> admin_row" where
  "record_login rehash ts a = a\<lparr>ad_password_hash := (case rehash of None \<Rightarrow> ad_password_hash a | Some h \<Rightarrow> h),
     ad_last_login_at := Some ts, ad_updated_at := ts\<rparr>"

text \<open>\<open>dummy\<close> is \<^verbatim>\<open>_DUMMY_HASH\<close>, the hash that an unknown login is verified against.\<close>

definition verify_credentials :: "'w platform \<Rightarrow> ustr \<Rightarrow> ustr \<Rightarrow> ustr \<Rightarrow> pydatetime \<Rightarrow> ('w, admin_row option) op" where
  "verify_credentials P dummy login password now =
     bindP (lift_result (utc_instant now)) (\<lambda>ts.
     case normalize_login P login of
       Inl e \<Rightarrow> bindP (lift_result (password_verify P dummy password)) (\<lambda>_. ret None)
     | Inr normalized_login \<Rightarrow>
         session_scope P (bindP get_db (\<lambda>db.
           case row_find ad_login normalized_login (admins db) of
             None \<Rightarrow> bindP (lift_result (password_verify P dummy password)) (\<lambda>_. ret None)
           | Some a \<Rightarrow>
               bindP (lift_result (password_verify P (ad_password_hash a) password)) (\<lambda>chk.
               if \<not> pc_valid chk then ret None
               else bindP (if pc_needs_rehash chk then bindP (password_hash P password) (\<lambda>h. ret (Some h)) else ret None) (\<lambda>rehash.
                 bindP (db_update (admins_update (row_update ad_id (ad_id a) (record_login rehash ts)))) (\<lambda>_.
                 ret (Some (record_login rehash ts a))))))))"

definition apply_reset :: "ustr \<Rightarrow> int \<Rightarrow> admin_row \<Rightarrow> admin_row" where
  "apply_reset hash ts a = a\<lparr>ad_password_hash := hash, ad_session_version := ad_session_version a + 1, ad_updated_at := ts\<rparr>"

definition revoke_at :: "int \<Rightarrow> session_row \<Rightarrow> session_row" where
  "revoke_at ts r = (if se_revoked_at r = None then r\<lparr>se_revoked_at := Some ts\<rparr> else r)"

definition revoke_sessions_of :: "ustr \<Rightarrow> int \<Rightarrow> database \<Rightarrow> database" where
  "revoke_sessions_of k ts = admin_sessions_update (row_update se_admin_id k (revoke_at ts))"

definition reset_password :: "'w platform \<Rightarrow> ustr \<Rightarrow> pydatetime option \<Rightarrow> ('w, unit) op" where
  "reset_password P password now =
     bindP (case now of None \<Rightarrow> now_utc P | Some t \<Rightarrow> lift_result (utc_instant t)) (\<lambda>ts.
     session_scope P (bindP get_db (\<lambda>db.
       case admins db of
         [] \<Rightarrow> raise AdminNotInitialized
       | a # _ \<Rightarrow>
           bindP (lift_result (validate_new_password P password (Some (ad_login a)))) (\<lambda>_.
           bindP (password_hash P password) (\<lambda>hash.
           bindP (db_update (admins_update (row_update ad_id (ad_id a) (apply_reset hash ts)))) (\<lambda>_.
           db_update (revoke_sessions_of (ad_id a) ts)))))))"

section \<open>Input rules\<close>

lemma normalize_login_ok:
  assumes "normalize_login P login = Inr n"
  shows "1 \<le> length n" "length n \<le> 64" "\<not> has_control P n"
  using assms by (auto simp: normalize_login_def Let_def split: if_splits)

lemma admin_input_errors:
  "normalize_login P login = Inl e \<Longrightarrow> e = InvalidAdminInput"
  "validate_new_password P v l = Inl e \<Longrightarrow> e = InvalidAdminInput"
  by (auto simp: normalize_login_def validate_new_password_def Let_def split: if_splits)

lemma validate_new_password_ok:
  "validate_new_password P v l = Inr u \<longleftrightarrow> 12 \<le> length v \<and> length v \<le> 1024 \<and> \<not> has_control P v \<and> l \<noteq> Some v"
  by (auto simp: validate_new_password_def)

section \<open>The schema and the profiles\<close>

definition same_admin_columns :: "(admin_row \<Rightarrow> admin_row) \<Rightarrow> bool" where
  "same_admin_columns f \<longleftrightarrow> (\<forall>r. ad_id (f r) = ad_id r \<and> ad_login (f r) = ad_login r
     \<and> ad_singleton_key (f r) = ad_singleton_key r \<and> ad_session_version r \<le> ad_session_version (f r))"

lemma same_admin_columns_ops: "same_admin_columns (record_login h ts)" "same_admin_columns (apply_reset hash ts)"
  by (simp_all add: same_admin_columns_def record_login_def apply_reset_def)

lemma schema_ok_update_admin:
  assumes "schema_ok db" and "same_admin_columns f"
  shows "schema_ok (admins_update (row_update ad_id k f) db)"
proof -
  have f: "ad_id (f r) = ad_id r" "ad_login (f r) = ad_login r" "ad_singleton_key (f r) = ad_singleton_key r"
    "ad_session_version r \<le> ad_session_version (f r)" for r
    using assms(2) by (auto simp: same_admin_columns_def)
  have ids: "ad_id ` set (row_update ad_id k f rs) = ad_id ` set rs" for rs
    using map_row_update [of ad_id f ad_id k rs] f(1) by (metis set_map)
  have "admins_ok (row_update ad_id k f (admins db))"
    using assms(1) f(4) by (auto simp: schema_ok_def admins_ok_def map_row_update f list_all_iff set_row_update admin_check_def
        intro: order_trans)
  with assms(1) show ?thesis by (simp add: schema_ok_def ids)
qed

definition same_session_columns :: "(session_row \<Rightarrow> session_row) \<Rightarrow> bool" where
  "same_session_columns f \<longleftrightarrow> (\<forall>r. se_id (f r) = se_id r \<and> se_admin_id (f r) = se_admin_id r
     \<and> se_token_digest (f r) = se_token_digest r \<and> se_session_version (f r) = se_session_version r)"

lemma same_session_columns_revoke: "same_session_columns (revoke_at ts)"
  by (simp add: same_session_columns_def revoke_at_def)

lemma schema_ok_update_session:
  assumes "schema_ok db" and "same_session_columns f"
  shows "schema_ok (admin_sessions_update (row_update key k f) db)"
  using assms by (auto simp: schema_ok_def sessions_ok_def same_session_columns_def map_row_update list_all_iff set_row_update
      session_check_def)

lemma single_admin:
  assumes "schema_ok db"
  shows "admins db = [] \<or> (\<exists>a. admins db = [a])"
proof (cases "admins db")
  case (Cons a as)
  show ?thesis
  proof (cases as)
    case (Cons b bs)
    with \<open>admins db = a # as\<close> assms show ?thesis by (auto simp: schema_ok_def admins_ok_def admin_check_def)
  qed (simp add: Cons)
qed simp

definition same_profiles :: "database \<Rightarrow> database \<Rightarrow> bool" where
  "same_profiles db db' \<longleftrightarrow> profiles db' = profiles db \<and> profile_lookups db' = profile_lookups db"

lemma same_profiles_view: "same_profiles db db' \<Longrightarrow> profile_of db' = profile_of db"
  by (auto simp: same_profiles_def profile_of_def lookup_for_def fun_eq_iff split: option.splits)

lemma same_profiles_inv: "repo_inv db \<Longrightarrow> same_profiles db db' \<Longrightarrow> schema_ok db' \<Longrightarrow> repo_inv db'"
  by (simp add: repo_inv_def same_profiles_def row_inv_def lookup_for_def)

section \<open>Invariants\<close>

text \<open>
  \<open>security_frame db0\<close>: the store is sound and its profiles are those of \<open>db0\<close>. Every operation of the
  security package keeps it.
\<close>

definition security_frame :: "database \<Rightarrow> database \<Rightarrow> bool" where
  "security_frame db0 db \<longleftrightarrow> schema_ok db \<and> same_profiles db0 db"

lemma security_frame_profiles: "repo_inv db0 \<Longrightarrow> security_frame db0 db \<Longrightarrow> repo_inv db \<and> profile_of db = profile_of db0"
  using same_profiles_inv same_profiles_view by (auto simp: security_frame_def)

lemma keeps_password_hash [keeps_intros]:
  "keeps (on_db I) (password_hash P pw)" "keeps (untouched db h) (password_hash P pw)"
  unfolding password_hash_def by (intro keeps_intros)+

lemma frame_update [keeps_intros]:
  "same_admin_columns f \<Longrightarrow> keeps (on_db (security_frame db0)) (db_update (admins_update (row_update ad_id k f)))"
  "same_session_columns g \<Longrightarrow> keeps (on_db (security_frame db0)) (db_update (admin_sessions_update (row_update key k' g)))"
  by (auto intro!: keeps_db_update simp: security_frame_def same_profiles_def schema_ok_update_admin schema_ok_update_session)

lemma frame_revoke [keeps_intros]: "keeps (on_db (security_frame db0)) (db_update (revoke_sessions_of k ts))"
  unfolding revoke_sessions_of_def by (intro keeps_intros same_session_columns_revoke)

lemma frame_insert_admin [keeps_intros]: "keeps (on_db (security_frame db0)) (db_statement (insert_admin a))"
proof (rule keeps_db_statement)
  fix db db' assume I: "security_frame db0 db" and ins: "insert_admin a db = Inr db'"
  then have "schema_ok db'" by (auto simp: security_frame_def intro: schema_ok_insert(1))
  with I ins show "security_frame db0 db'"
    by (auto simp: security_frame_def same_profiles_def insert_admin_def split: if_splits)
qed

lemma frame_admin [keeps_intros]:
  "keeps (on_db (security_frame db0)) (create_initial P login pw)"
  "keeps (on_db (security_frame db0)) (verify_credentials P dummy login pw now)"
  "keeps (on_db (security_frame db0)) (reset_password P pw now')"
  unfolding create_initial_def verify_credentials_def reset_password_def
  by (intro keeps_intros same_admin_columns_ops | simp split: list.splits | intro conjI allI impI)+

section \<open>What the operations do\<close>

text \<open>Hashes of a password, and the errors that hashing it may raise.\<close>

definition hashes :: "'w platform \<Rightarrow> ustr \<Rightarrow> ustr set" where
  "hashes P pw = {h. \<exists>w. fst (argon2_hash P pw w) = Inr h}"

definition hash_errors :: "'w platform \<Rightarrow> ustr \<Rightarrow> exn set" where
  "hash_errors P pw = {e. \<exists>w. fst (argon2_hash P pw w) = Inl e}"

definition argon2_ok :: "'w platform \<Rightarrow> bool" where
  "argon2_ok P \<longleftrightarrow> (\<forall>pw. \<forall>h \<in> hashes P pw. argon2_verify P h pw = Argon2Match)"

lemma password_hash_cases:
  obtains (hashed) h w where "password_hash P pw s = (Ok h, s\<lparr>sys_world := w\<rparr>)" "h \<in> hashes P pw"
  | (error) e w where "password_hash P pw s = (Raise e, s\<lparr>sys_world := w\<rparr>)" "e \<in> hash_errors P pw"
proof -
  obtain r w where r: "argon2_hash P pw (sys_world s) = (r, w)" by fastforce
  show ?thesis
  proof (cases r)
    case (Inl e)
    with r have "fst (argon2_hash P pw (sys_world s)) = Inl e" by simp
    then have "e \<in> hash_errors P pw" unfolding hash_errors_def by blast
    with r Inl show ?thesis by (intro error [of e w]) (auto simp: password_hash_def world_call_def prog_defs)
  next
    case (Inr h)
    with r have "fst (argon2_hash P pw (sys_world s)) = Inr h" by simp
    then have "h \<in> hashes P pw" unfolding hashes_def by blast
    with r Inr show ?thesis by (intro hashed [of h w]) (auto simp: password_hash_def world_call_def prog_defs)
  qed
qed

lemma implements_password_hash:
  assumes "\<And>e db. e \<in> hash_errors P pw \<Longrightarrow> I db \<Longrightarrow> (Raise e, db) \<in> F db"
    and "\<And>h. h \<in> hashes P pw \<Longrightarrow> implements P I (f h) F"
  shows "implements P I (bindP (password_hash P pw) f) F"
  unfolding implements_def
proof (intro allI impI)
  fix s r t assume I: "I (sys_db s)" and run: "bindP (password_hash P pw) f s = (r, t)"
  show "sys_health t = sys_health s \<and> ((r, sys_db t) \<in> F (sys_db s)
      \<or> \<not> storage_ok P \<and> r = Raise OperationalError \<and> sys_db t = sys_db s)"
  proof (cases rule: password_hash_cases [of P pw s])
    case (hashed h w)
    with run have "f h (s\<lparr>sys_world := w\<rparr>) = (r, t)" by (simp add: prog_simps)
    from implementsD [OF assms(2) [OF hashed(2)] _ this] I show ?thesis by simp
  next
    case (error e w)
    with run assms(1) [OF error(2) I] show ?thesis by (auto simp: prog_simps)
  qed
qed

lemma implements_catch:
  assumes "implements P I m F" and "\<And>db r db'. I db \<Longrightarrow> (r, db') \<in> F db \<Longrightarrow> (case r of
      Raise e \<Rightarrow> (Raise (g e), db') | _ \<Rightarrow> (r, db')) \<in> G db" and "g OperationalError = OperationalError"
  shows "implements P I (catch m (\<lambda>e. raise (g e))) G"
  unfolding implements_def
proof (intro allI impI)
  fix s r t assume I: "I (sys_db s)" and run: "catch m (\<lambda>e. raise (g e)) s = (r, t)"
  obtain r0 t0 where m: "m s = (r0, t0)" by fastforce
  from implementsD [OF assms(1) I m] assms(2) [OF I, of r0 "sys_db t0"] assms(3) run m
  show "sys_health t = sys_health s \<and> ((r, sys_db t) \<in> G (sys_db s)
      \<or> \<not> storage_ok P \<and> r = Raise OperationalError \<and> sys_db t = sys_db s)"
    by (cases r0) (auto simp: prog_simps)
qed

definition with_admin :: "admin_row \<Rightarrow> (admin_row \<Rightarrow> admin_row) \<Rightarrow> database \<Rightarrow> database" where
  "with_admin a f db = admins_update (row_update ad_id (ad_id a) f) db"

definition created_admin_spec :: "'w platform \<Rightarrow> ustr \<Rightarrow> ustr \<Rightarrow> database \<Rightarrow> (admin_row outcome \<times> database) set" where
  "created_admin_spec P n pw db = {(Raise e, db) | e. e \<in> hash_errors P pw}
     \<union> {(Raise AdminAlreadyExists, db) | i h ts e. insert_admin (new_admin_row i n h ts) db = Inl e}
     \<union> {(Ok (new_admin_row i n h ts), db') | i h ts db'.
          h \<in> hashes P pw \<and> insert_admin (new_admin_row i n h ts) db = Inr db'}"

lemma insert_admin_error: "insert_admin a db = Inl e \<Longrightarrow> e = IntegrityError"
  by (simp add: insert_admin_def split: if_splits)

text \<open>Structural rules for operations around a transaction.\<close>

lemma implements_lift:
  assumes "\<And>e db. r = Inl e \<Longrightarrow> I db \<Longrightarrow> (Raise e, db) \<in> F db" and "\<And>a. r = Inr a \<Longrightarrow> implements P I (f a) F"
  shows "implements P I (bindP (lift_result r) f) F"
  using assms unfolding implements_def by (cases r) (auto simp: prog_simps)

lemma implements_ret:
  assumes "\<And>db. I db \<Longrightarrow> (Ok a, db) \<in> F db"
  shows "implements P I (ret a) F"
  using assms unfolding implements_def by (auto simp: prog_simps)

lemma create_initial_refines:
  "implements P schema_ok (create_initial P login pw) (\<lambda>db. case normalize_login P login of
      Inl e \<Rightarrow> {(Raise e, db)}
    | Inr n \<Rightarrow> (case validate_new_password P pw (Some n) of Inl e \<Rightarrow> {(Raise e, db)} | Inr _ \<Rightarrow> created_admin_spec P n pw db))"
  (is "implements P schema_ok _ ?F")
proof -
  have scope: "implements P schema_ok (session_scope P
       (bindP (world_call (sql_current_timestamp P)) (\<lambda>ts.
        bindP (db_statement (insert_admin (new_admin_row i n h ts))) (\<lambda>_. ret (new_admin_row i n h ts)))))
     (\<lambda>db. {(Raise IntegrityError, db) | ts e. insert_admin (new_admin_row i n h ts) db = Inl e}
         \<union> {(Ok (new_admin_row i n h ts), db') | ts db'. insert_admin (new_admin_row i n h ts) db = Inr db'})" for i n h
  proof (rule implements_session_scope)
    fix s r t
    assume run: "bindP (world_call (sql_current_timestamp P)) (\<lambda>ts.
        bindP (db_statement (insert_admin (new_admin_row i n h ts))) (\<lambda>_. ret (new_admin_row i n h ts))) s = (r, t)"
    obtain ts w where "world_call (sql_current_timestamp P) s = (Ok ts, s\<lparr>sys_world := w\<rparr>)"
      using world_call_shape [of "sql_current_timestamp P" s] by blast
    with run show "sys_health t = sys_health s \<and>
      ((\<exists>a. r = Ok a) \<and> (r, sys_db t) \<in> {(Raise IntegrityError, sys_db s) | ts e. insert_admin (new_admin_row i n h ts) (sys_db s) = Inl e}
         \<union> {(Ok (new_admin_row i n h ts), db') | ts db'. insert_admin (new_admin_row i n h ts) (sys_db s) = Inr db'}
       \<or> (\<exists>e. r = Raise e) \<and> (r, sys_db s) \<in> {(Raise IntegrityError, sys_db s) | ts e. insert_admin (new_admin_row i n h ts) (sys_db s) = Inl e}
         \<union> {(Ok (new_admin_row i n h ts), db') | ts db'. insert_admin (new_admin_row i n h ts) (sys_db s) = Inr db'})"
      by (cases "insert_admin (new_admin_row i n h ts) (sys_db s)") (auto simp: prog_simps dest: insert_admin_error)
  qed
  have handler: "(\<lambda>e. if e = IntegrityError then raise AdminAlreadyExists else raise e)
      = (\<lambda>e. raise (if e = IntegrityError then AdminAlreadyExists else e))" by auto
  show ?thesis
    unfolding create_initial_def handler
    by (intro implements_lift implements_world_then [OF world_call_shape] implements_password_hash implements_catch [OF scope])
      (auto simp: created_admin_spec_def)
qed

definition rejected_login :: "'w platform \<Rightarrow> ustr \<Rightarrow> ustr \<Rightarrow> database \<Rightarrow> (admin_row option outcome \<times> database) set" where
  "rejected_login P hash pw db = (case password_verify P hash pw of Inl e \<Rightarrow> {(Raise e, db)} | Inr _ \<Rightarrow> {(Ok None, db)})"

definition accepted_login :: "'w platform \<Rightarrow> ustr \<Rightarrow> int \<Rightarrow> admin_row \<Rightarrow> database \<Rightarrow> (admin_row option outcome \<times> database) set" where
  "accepted_login P pw ts a db = (if argon2_needs_rehash P (ad_password_hash a)
     then {(Raise e, db) | e. e \<in> hash_errors P pw}
       \<union> {(Ok (Some (record_login (Some h) ts a)), with_admin a (record_login (Some h) ts) db) | h. h \<in> hashes P pw}
     else {(Ok (Some (record_login None ts a)), with_admin a (record_login None ts) db)})"

definition login_spec :: "'w platform \<Rightarrow> ustr \<Rightarrow> ustr \<Rightarrow> ustr \<Rightarrow> int \<Rightarrow> database \<Rightarrow> (admin_row option outcome \<times> database) set" where
  "login_spec P dummy login pw ts db = (case normalize_login P login of
     Inl _ \<Rightarrow> rejected_login P dummy pw db
   | Inr n \<Rightarrow> (case row_find ad_login n (admins db) of
       None \<Rightarrow> rejected_login P dummy pw db
     | Some a \<Rightarrow> if argon2_verify P (ad_password_hash a) pw = Argon2Match then accepted_login P pw ts a db
         else rejected_login P (ad_password_hash a) pw db))"

lemma verify_credentials_refines:
  "implements P schema_ok (verify_credentials P dummy login pw now)
     (\<lambda>db. case utc_instant now of Inl e \<Rightarrow> {(Raise e, db)} | Inr ts \<Rightarrow> login_spec P dummy login pw ts db)"
proof -
  have "implements P schema_ok (case normalize_login P login of
       Inl e \<Rightarrow> bindP (lift_result (password_verify P dummy pw)) (\<lambda>_. ret None)
     | Inr n \<Rightarrow> session_scope P (bindP get_db (\<lambda>db. case row_find ad_login n (admins db) of
             None \<Rightarrow> bindP (lift_result (password_verify P dummy pw)) (\<lambda>_. ret None)
           | Some a \<Rightarrow> bindP (lift_result (password_verify P (ad_password_hash a) pw)) (\<lambda>chk.
               if \<not> pc_valid chk then ret None
               else bindP (if pc_needs_rehash chk then bindP (password_hash P pw) (\<lambda>h. ret (Some h)) else ret None) (\<lambda>rehash.
                 bindP (db_update (admins_update (row_update ad_id (ad_id a) (record_login rehash ts)))) (\<lambda>_.
                 ret (Some (record_login rehash ts a))))))))
     (login_spec P dummy login pw ts)" for ts
  proof (cases "normalize_login P login")
    case (Inl e)
    then show ?thesis
      by (cases "password_verify P dummy pw") (auto simp: implements_def login_spec_def rejected_login_def prog_simps)
  next
    case (Inr n)
    show ?thesis unfolding Inr sum.case
    proof (rule implements_session_scope)
      fix s r t
      assume run: "bindP get_db (\<lambda>db. case row_find ad_login n (admins db) of
             None \<Rightarrow> bindP (lift_result (password_verify P dummy pw)) (\<lambda>_. ret None)
           | Some a \<Rightarrow> bindP (lift_result (password_verify P (ad_password_hash a) pw)) (\<lambda>chk.
               if \<not> pc_valid chk then ret None
               else bindP (if pc_needs_rehash chk then bindP (password_hash P pw) (\<lambda>h. ret (Some h)) else ret None) (\<lambda>rehash.
                 bindP (db_update (admins_update (row_update ad_id (ad_id a) (record_login rehash ts)))) (\<lambda>_.
                 ret (Some (record_login rehash ts a)))))) s = (r, t)"
      let ?goal = "sys_health t = sys_health s \<and>
         ((\<exists>a. r = Ok a) \<and> (r, sys_db t) \<in> login_spec P dummy login pw ts (sys_db s)
          \<or> (\<exists>e. r = Raise e) \<and> (r, sys_db s) \<in> login_spec P dummy login pw ts (sys_db s))"
      show ?goal
      proof (cases "row_find ad_login n (admins (sys_db s))")
        case None
        with run Inr show ?goal
          by (cases "password_verify P dummy pw") (auto simp: login_spec_def rejected_login_def prog_simps)
      next
        case (Some a)
        show ?goal
        proof (cases "argon2_verify P (ad_password_hash a) pw = Argon2Match \<and> argon2_needs_rehash P (ad_password_hash a)")
          case True
          with run Inr Some show ?goal
            by (cases rule: password_hash_cases [of P pw s])
              (auto simp: login_spec_def accepted_login_def with_admin_def password_verify_def prog_simps)
        next
          case False
          with run Inr Some show ?goal
            by (cases "argon2_verify P (ad_password_hash a) pw")
              (auto simp: login_spec_def accepted_login_def rejected_login_def with_admin_def password_verify_def prog_simps)
        qed
      qed
    qed
  qed
  then show ?thesis unfolding verify_credentials_def
    by (intro implements_lift) (auto split: sum.splits)
qed

definition reset_spec :: "'w platform \<Rightarrow> ustr \<Rightarrow> int \<Rightarrow> database \<Rightarrow> (unit outcome \<times> database) set" where
  "reset_spec P pw ts db = (case admins db of
     [] \<Rightarrow> {(Raise AdminNotInitialized, db)}
   | a # _ \<Rightarrow> (case validate_new_password P pw (Some (ad_login a)) of
       Inl e \<Rightarrow> {(Raise e, db)}
     | Inr _ \<Rightarrow> {(Raise e, db) | e. e \<in> hash_errors P pw}
         \<union> {(Ok (), revoke_sessions_of (ad_id a) ts (with_admin a (apply_reset h ts) db)) | h. h \<in> hashes P pw}))"

lemma reset_password_refines:
  "implements P schema_ok (reset_password P pw (Some now))
     (\<lambda>db. case utc_instant now of Inl e \<Rightarrow> {(Raise e, db)} | Inr ts \<Rightarrow> reset_spec P pw ts db)"
  unfolding reset_password_def option.case
proof (rule implements_lift)
  fix ts assume ts: "utc_instant now = Inr ts"
  show "implements P schema_ok (session_scope P (bindP get_db (\<lambda>db. case admins db of
         [] \<Rightarrow> raise AdminNotInitialized
       | a # _ \<Rightarrow>
           bindP (lift_result (validate_new_password P pw (Some (ad_login a)))) (\<lambda>_.
           bindP (password_hash P pw) (\<lambda>hash.
           bindP (db_update (admins_update (row_update ad_id (ad_id a) (apply_reset hash ts)))) (\<lambda>_.
           db_update (revoke_sessions_of (ad_id a) ts)))))))
     (\<lambda>db. case utc_instant now of Inl e \<Rightarrow> {(Raise e, db)} | Inr ts \<Rightarrow> reset_spec P pw ts db)"
    unfolding ts sum.case
  proof (rule implements_session_scope)
    fix s r t
    assume run: "bindP get_db (\<lambda>db. case admins db of
         [] \<Rightarrow> raise AdminNotInitialized
       | a # _ \<Rightarrow>
           bindP (lift_result (validate_new_password P pw (Some (ad_login a)))) (\<lambda>_.
           bindP (password_hash P pw) (\<lambda>hash.
           bindP (db_update (admins_update (row_update ad_id (ad_id a) (apply_reset hash ts)))) (\<lambda>_.
           db_update (revoke_sessions_of (ad_id a) ts))))) s = (r, t)"
    show "sys_health t = sys_health s \<and>
       ((\<exists>a. r = Ok a) \<and> (r, sys_db t) \<in> reset_spec P pw ts (sys_db s)
        \<or> (\<exists>e. r = Raise e) \<and> (r, sys_db s) \<in> reset_spec P pw ts (sys_db s))"
    proof (cases "admins (sys_db s)")
      case Nil
      with run show ?thesis by (auto simp: reset_spec_def prog_simps)
    next
      case (Cons a as)
      with run show ?thesis
        by (cases rule: password_hash_cases [of P pw s]; cases "validate_new_password P pw (Some (ad_login a))")
          (auto simp: reset_spec_def with_admin_def prog_simps)
    qed
  qed
qed auto

section \<open>Consequences\<close>

text \<open>Once an administrator exists, no second one can be created.\<close>

lemma insert_admin_taken: "schema_ok db \<Longrightarrow> admins db \<noteq> [] \<Longrightarrow> ad_singleton_key a = 1 \<Longrightarrow> insert_admin a db = Inl IntegrityError"
  using single_admin [of db] by (auto simp: insert_admin_def schema_ok_def admins_ok_def admin_check_def)

lemma insert_admin_first:
  "admins db = [] \<Longrightarrow> 1 \<le> length n \<Longrightarrow> length n \<le> 64 \<Longrightarrow> 0 \<notin> set n \<Longrightarrow>
   insert_admin (new_admin_row i n h ts) db = Inr (db\<lparr>admins := [new_admin_row i n h ts]\<rparr>)"
proof -
  assume a: "admins db = []" "1 \<le> length n" "length n \<le> 64" "0 \<notin> set n"
  then have "sql_length n = length n" unfolding sql_length_def by (metis (mono_tags, lifting) takeWhile_eq_all_conv)
  with a show ?thesis by (simp add: insert_admin_def admin_check_def new_admin_row_def)
qed

end
