(* ===== verification/Sessions.thy ===== *)
theory Sessions
  imports Admin
begin

text \<open>
  \<^verbatim>\<open>control/src/ezopenpn/security/sessions.py\<close>: browser sessions. A session is a row found by the digest
  of its token; it ends by revocation, by idling, at its absolute expiry, or when the administrator's
  session version moves on. \<open>session_live\<close> says when a row is accepted, \<open>authenticate_refines\<close> that
  \<open>authenticate\<close> accepts exactly the live rows, and \<open>session_fact\<close> carries what no operation can undo.
\<close>

section \<open>Operations\<close>

definition SESSION_LABEL :: bytes where "SESSION_LABEL = ascii_bytes (U ''ezopenpn/session/v1'')"
definition CSRF_LABEL :: bytes where "CSRF_LABEL = ascii_bytes (U ''ezopenpn/csrf/v1'')"
definition TOKEN_BYTES :: nat where "TOKEN_BYTES = 32"
definition MAX_TOKEN_TEXT :: nat where "MAX_TOKEN_TEXT = 128"

definition derive_key :: "'w platform \<Rightarrow> bytes \<Rightarrow> bytes \<Rightarrow> exn + bytes" where
  "derive_key P master_key label = (if length master_key \<noteq> 32 then Inl ValueError else Inr (hmac_sha256 P master_key label))"

definition session_token :: "'w platform \<Rightarrow> ('w, ustr) op" where
  "session_token P = bindP (world_call (os_random P TOKEN_BYTES)) (\<lambda>b. ret (url_token b))"

record session_grant =
  gr_session_id :: uuid
  gr_raw_token :: ustr
  gr_csrf_token :: ustr
  gr_idle_expires_at :: int
  gr_absolute_expires_at :: int

record session_identity =
  si_session_id :: uuid
  si_admin_id :: uuid
  si_login :: ustr
  si_csrf_digest :: bytes

record session_service =
  sv_session_key :: bytes
  sv_csrf_key :: bytes
  sv_idle_duration :: int
  sv_absolute_duration :: int

definition make_session_service :: "'w platform \<Rightarrow> bytes \<Rightarrow> int \<Rightarrow> int \<Rightarrow> exn + session_service" where
  "make_session_service P master_key idle absolute =
     (if idle \<le> 0 \<or> absolute \<le> 0 then Inl ValueError
      else if absolute < idle then Inl ValueError
      else bind_sum (derive_key P master_key SESSION_LABEL) (\<lambda>sk.
           bind_sum (derive_key P master_key CSRF_LABEL) (\<lambda>ck.
           Inr \<lparr>sv_session_key = sk, sv_csrf_key = ck, sv_idle_duration = idle, sv_absolute_duration = absolute\<rparr>)))"

definition session_digest :: "'w platform \<Rightarrow> session_service \<Rightarrow> ustr \<Rightarrow> exn + bytes" where
  "session_digest P sv raw_token = bind_sum (encode_ascii raw_token) (\<lambda>b. Inr (hmac_sha256 P (sv_session_key sv) b))"

definition csrf_digest :: "'w platform \<Rightarrow> session_service \<Rightarrow> ustr \<Rightarrow> exn + bytes" where
  "csrf_digest P sv raw_token = bind_sum (encode_ascii raw_token) (\<lambda>b. Inr (hmac_sha256 P (sv_csrf_key sv) b))"

definition new_session_row :: "session_service \<Rightarrow> uuid \<Rightarrow> admin_row \<Rightarrow> bytes \<Rightarrow> bytes \<Rightarrow> int \<Rightarrow> session_row" where
  "new_session_row sv i a token_digest csrf ts = \<lparr>se_id = uuid_str i, se_admin_id = ad_id a, se_token_digest = token_digest,
     se_csrf_digest = csrf, se_session_version = ad_session_version a, se_created_at = ts, se_last_seen_at = ts,
     se_idle_expires_at = min (ts + sv_idle_duration sv) (ts + sv_absolute_duration sv),
     se_absolute_expires_at = ts + sv_absolute_duration sv, se_revoked_at = None\<rparr>"

text \<open>The argument \<open>admin_id\<close> is \<^verbatim>\<open>str(admin_id)\<close>, the text the row is looked up by.\<close>

definition session_create :: "'w platform \<Rightarrow> session_service \<Rightarrow> ustr \<Rightarrow> pydatetime \<Rightarrow> ('w, session_grant) op" where
  "session_create P sv admin_id now =
     bindP (lift_result (utc_instant now)) (\<lambda>ts.
     bindP (session_token P) (\<lambda>raw_token.
     bindP (session_token P) (\<lambda>csrf_token.
     bindP (world_call (os_uuid4 P)) (\<lambda>session_id.
     bindP (session_scope P (bindP get_db (\<lambda>db.
       case row_find ad_id (admin_id) (admins db) of
         None \<Rightarrow> raise SessionAdminNotFound
       | Some a \<Rightarrow>
           bindP (lift_result (session_digest P sv raw_token)) (\<lambda>td.
           bindP (lift_result (csrf_digest P sv csrf_token)) (\<lambda>cd.
           db_statement (insert_session (new_session_row sv session_id a td cd ts))))))) (\<lambda>_.
     ret \<lparr>gr_session_id = session_id, gr_raw_token = raw_token, gr_csrf_token = csrf_token,
          gr_idle_expires_at = min (ts + sv_idle_duration sv) (ts + sv_absolute_duration sv),
          gr_absolute_expires_at = ts + sv_absolute_duration sv\<rparr>)))))"

definition token_text_ok :: "ustr \<Rightarrow> bool" where
  "token_text_ok t \<longleftrightarrow> 1 \<le> length t \<and> length t \<le> MAX_TOKEN_TEXT \<and> isascii t"

definition touch_session :: "session_service \<Rightarrow> int \<Rightarrow> session_row \<Rightarrow> session_row" where
  "touch_session sv ts r = r\<lparr>se_last_seen_at := ts,
     se_idle_expires_at := min (ts + sv_idle_duration sv) (se_absolute_expires_at r)\<rparr>"

definition session_identity_of :: "'w platform \<Rightarrow> session_row \<Rightarrow> admin_row \<Rightarrow> exn + session_identity" where
  "session_identity_of P r a = bind_sum (uuid_parse (ucd_decimal P) (se_id r)) (\<lambda>sid.
     bind_sum (uuid_parse (ucd_decimal P) (ad_id a)) (\<lambda>aid.
     Inr \<lparr>si_session_id = sid, si_admin_id = aid, si_login = ad_login a, si_csrf_digest = se_csrf_digest r\<rparr>))"

text \<open>The transaction of \<^verbatim>\<open>authenticate\<close>, for the digest of the presented token.\<close>

definition authenticate_body :: "'w platform \<Rightarrow> session_service \<Rightarrow> bytes \<Rightarrow> int \<Rightarrow> ('w, session_identity option) op" where
  "authenticate_body P sv digest ts = bindP get_db (\<lambda>db.
     case row_find se_token_digest digest (admin_sessions db) of
       None \<Rightarrow> ret None
     | Some r \<Rightarrow>
         if se_token_digest r \<noteq> digest then ret None
         else case row_find ad_id (se_admin_id r) (admins db) of
           None \<Rightarrow> bindP (db_update (admin_sessions_update (row_update se_id (se_id r) (revoke_at ts)))) (\<lambda>_. ret None)
         | Some a \<Rightarrow>
             if se_revoked_at r \<noteq> None \<or> se_idle_expires_at r \<le> ts \<or> se_absolute_expires_at r \<le> ts
                \<or> se_session_version r \<noteq> ad_session_version a
             then bindP (db_update (admin_sessions_update (row_update se_id (se_id r) (revoke_at ts)))) (\<lambda>_. ret None)
             else bindP (db_update (admin_sessions_update (row_update se_id (se_id r) (touch_session sv ts)))) (\<lambda>_.
               bindP (lift_result (session_identity_of P (touch_session sv ts r) a)) (\<lambda>identity. ret (Some identity))))"

definition session_authenticate :: "'w platform \<Rightarrow> session_service \<Rightarrow> ustr \<Rightarrow> pydatetime \<Rightarrow> ('w, session_identity option) op" where
  "session_authenticate P sv raw_token now =
     bindP (lift_result (utc_instant now)) (\<lambda>ts.
     if \<not> token_text_ok raw_token then ret None
     else bindP (lift_result (session_digest P sv raw_token)) (\<lambda>digest.
       session_scope P (authenticate_body P sv digest ts)))"

definition validate_csrf :: "'w platform \<Rightarrow> session_service \<Rightarrow> session_identity \<Rightarrow> ustr \<Rightarrow> bool" where
  "validate_csrf P sv identity raw_token \<longleftrightarrow> token_text_ok raw_token
     \<and> csrf_digest P sv raw_token = Inr (si_csrf_digest identity)"

definition session_revoke :: "'w platform \<Rightarrow> uuid \<Rightarrow> pydatetime \<Rightarrow> ('w, unit) op" where
  "session_revoke P session_id now =
     bindP (lift_result (utc_instant now)) (\<lambda>ts.
     session_scope P (bindP get_db (\<lambda>db.
       case row_find se_id (uuid_str session_id) (admin_sessions db) of
         None \<Rightarrow> ret ()
       | Some r \<Rightarrow> if se_revoked_at r = None
           then db_update (admin_sessions_update (row_update se_id (se_id r) (revoke_at ts))) else ret ())))"

section \<open>The frame\<close>

lemma same_session_columns_touch: "same_session_columns (touch_session sv ts)"
  by (simp add: same_session_columns_def touch_session_def)

lemma keeps_session_token [keeps_intros]:
  "keeps (on_db I) (session_token P)" "keeps (untouched db h) (session_token P)"
  unfolding session_token_def by (intro keeps_intros)+

lemma frame_insert_session [keeps_intros]: "keeps (on_db (security_frame db0)) (db_statement (insert_session r))"
proof (rule keeps_db_statement)
  fix db db' assume I: "security_frame db0 db" and ins: "insert_session r db = Inr db'"
  then have "schema_ok db'" by (auto simp: security_frame_def intro: schema_ok_insert(2))
  with I ins show "security_frame db0 db'"
    by (auto simp: security_frame_def same_profiles_def insert_session_def split: if_splits)
qed

lemma frame_sessions [keeps_intros]:
  "keeps (on_db (security_frame db0)) (session_create P sv i now)"
  "keeps (on_db (security_frame db0)) (session_authenticate P sv token now)"
  "keeps (on_db (security_frame db0)) (session_revoke P k now)"
  unfolding session_create_def session_authenticate_def authenticate_body_def session_revoke_def
  by (intro keeps_intros same_session_columns_touch same_session_columns_revoke)+

section \<open>What cannot be undone\<close>

text \<open>
  A property of a session row that revocation and use maintain holds for ever once it holds: the row of
  a token is never deleted and changes in no other way.
\<close>

definition session_at :: "database \<Rightarrow> bytes \<Rightarrow> session_row option" where
  "session_at db digest = row_find se_token_digest digest (admin_sessions db)"

definition session_stable :: "(session_row \<Rightarrow> bool) \<Rightarrow> bool" where
  "session_stable Q \<longleftrightarrow> (\<forall>r sv ts. Q r \<longrightarrow> Q (revoke_at ts r) \<and> Q (touch_session sv ts r))"

definition session_fact :: "(session_row \<Rightarrow> bool) \<Rightarrow> bytes \<Rightarrow> database \<Rightarrow> bool" where
  "session_fact Q digest db \<longleftrightarrow> (\<exists>r. session_at db digest = Some r \<and> Q r)"

lemma row_find_update_cong:
  assumes "\<And>r. key (f r) = key r"
  shows "row_find key k (row_update key' k' f rs) = map_option (\<lambda>r. if key' r = k' then f r else r) (row_find key k rs)"
  using assms by (induction rs) (auto simp: row_find_def row_update_def)

lemma session_fact_update:
  assumes "session_fact Q d db" and "\<And>r. se_token_digest (f r) = se_token_digest r" and "\<And>r. Q r \<Longrightarrow> Q (f r)"
  shows "session_fact Q d (admin_sessions_update (row_update key k f) db)"
proof -
  from assms(1) obtain r where "session_at db d = Some r" "Q r" by (auto simp: session_fact_def)
  then have "session_at (admin_sessions_update (row_update key k f) db) d = Some (if key r = k then f r else r)"
    "Q (if key r = k then f r else r)"
    using assms(2,3) by (simp_all add: session_at_def row_find_update_cong)
  then show ?thesis unfolding session_fact_def by blast
qed

lemma fact_update [keeps_intros]:
  assumes "session_stable Q"
  shows "keeps (on_db (session_fact Q d)) (db_update (admin_sessions_update (row_update key k (revoke_at ts))))"
    and "keeps (on_db (session_fact Q d)) (db_update (admin_sessions_update (row_update key k (touch_session sv ts))))"
    and "keeps (on_db (session_fact Q d)) (db_update (admins_update g))"
  using assms
  by (auto intro!: keeps_db_update session_fact_update simp: session_stable_def revoke_at_def touch_session_def)
    (simp add: session_fact_def session_at_def)

lemma fact_insert_session [keeps_intros]: "keeps (on_db (session_fact Q d)) (db_statement (insert_session r))"
  by (rule keeps_db_statement)
    (auto simp: session_fact_def session_at_def insert_session_def row_find_append_new split: if_splits)

lemma fact_insert_admin [keeps_intros]: "keeps (on_db (session_fact Q d)) (db_statement (insert_admin a))"
  by (rule keeps_db_statement) (auto simp: session_fact_def session_at_def insert_admin_def split: if_splits)

lemma fact_operations [keeps_intros]:
  assumes "session_stable Q"
  shows "keeps (on_db (session_fact Q d)) (create_initial P login pw)"
    "keeps (on_db (session_fact Q d)) (verify_credentials P dummy login pw now)"
    "keeps (on_db (session_fact Q d)) (reset_password P pw now')"
    "keeps (on_db (session_fact Q d)) (session_create P sv i now)"
    "keeps (on_db (session_fact Q d)) (session_authenticate P sv token now)"
    "keeps (on_db (session_fact Q d)) (session_revoke P k now)"
  unfolding create_initial_def verify_credentials_def reset_password_def session_create_def session_authenticate_def
    authenticate_body_def session_revoke_def revoke_sessions_of_def
  by (intro keeps_intros assms | simp split: list.splits | intro conjI allI impI)+

lemma stable_revoked: "session_stable (\<lambda>r. se_revoked_at r \<noteq> None)"
  by (auto simp: session_stable_def revoke_at_def touch_session_def)

lemma stable_absolute: "session_stable (\<lambda>r. se_absolute_expires_at r = e \<and> se_csrf_digest r = c)"
  by (simp add: session_stable_def revoke_at_def touch_session_def)

section \<open>Well-formed sessions\<close>

text \<open>Identifiers are UUIDs, and a session idles out no later than it expires.\<close>

definition session_inv :: "database \<Rightarrow> bool" where
  "session_inv db \<longleftrightarrow> schema_ok db \<and> (\<forall>a \<in> set (admins db). ad_id a \<in> range uuid_str)
     \<and> (\<forall>r \<in> set (admin_sessions db). se_id r \<in> range uuid_str \<and> se_idle_expires_at r \<le> se_absolute_expires_at r)"

lemma session_inv_empty: "session_inv empty_database"
  using schema_ok_empty by (simp add: session_inv_def) (simp add: empty_database_def)

lemma inv_update_session:
  assumes "session_inv db" and "same_session_columns f"
    and "\<And>r. se_idle_expires_at r \<le> se_absolute_expires_at r \<Longrightarrow> se_idle_expires_at (f r) \<le> se_absolute_expires_at (f r)"
  shows "session_inv (admin_sessions_update (row_update key k f) db)"
  using assms schema_ok_update_session [of db f key k]
  by (auto simp: session_inv_def set_row_update same_session_columns_def)

lemma inv_session_updates [keeps_intros]:
  "keeps (on_db session_inv) (db_update (admin_sessions_update (row_update key k (revoke_at ts))))"
  "keeps (on_db session_inv) (db_update (admin_sessions_update (row_update key k (touch_session sv ts))))"
  by (auto intro!: keeps_db_update inv_update_session same_session_columns_revoke same_session_columns_touch
      simp: revoke_at_def touch_session_def)

lemma inv_admin_update [keeps_intros]:
  "same_admin_columns f \<Longrightarrow> keeps (on_db session_inv) (db_update (admins_update (row_update ad_id k f)))"
  using schema_ok_update_admin [of _ f k]
  by (auto intro!: keeps_db_update simp: session_inv_def set_row_update same_admin_columns_def)

lemma inv_insert_admin [keeps_intros]: "keeps (on_db session_inv) (db_statement (insert_admin (new_admin_row i n h ts)))"
proof (rule keeps_db_statement)
  fix db db' assume I: "session_inv db" and ins: "insert_admin (new_admin_row i n h ts) db = Inr db'"
  then have "schema_ok db'" by (auto simp: session_inv_def intro: schema_ok_insert(1))
  with I ins show "session_inv db'"
    by (auto simp: session_inv_def insert_admin_def new_admin_row_def split: if_splits)
qed

lemma inv_insert_session [keeps_intros]:
  "keeps (on_db session_inv) (db_statement (insert_session (new_session_row sv i a td cd ts)))"
proof (rule keeps_db_statement)
  fix db db' assume I: "session_inv db" and ins: "insert_session (new_session_row sv i a td cd ts) db = Inr db'"
  then have "schema_ok db'" by (auto simp: session_inv_def intro: schema_ok_insert(2))
  with I ins show "session_inv db'"
    by (auto simp: session_inv_def insert_session_def new_session_row_def split: if_splits)
qed

lemma inv_operations [keeps_intros]:
  "keeps (on_db session_inv) (create_initial P login pw)"
  "keeps (on_db session_inv) (verify_credentials P dummy login pw now)"
  "keeps (on_db session_inv) (reset_password P pw now')"
  "keeps (on_db session_inv) (session_create P sv i now)"
  "keeps (on_db session_inv) (session_authenticate P sv token now)"
  "keeps (on_db session_inv) (session_revoke P k now)"
  unfolding create_initial_def verify_credentials_def reset_password_def session_create_def session_authenticate_def
    authenticate_body_def session_revoke_def revoke_sessions_of_def
  by (intro keeps_intros same_admin_columns_ops | simp split: list.splits | intro conjI allI impI)+

section \<open>What the operations do\<close>

definition session_live :: "database \<Rightarrow> int \<Rightarrow> session_row \<Rightarrow> admin_row \<Rightarrow> bool" where
  "session_live db ts r a \<longleftrightarrow> row_find ad_id (se_admin_id r) (admins db) = Some a \<and> se_revoked_at r = None
     \<and> ts < se_idle_expires_at r \<and> ts < se_absolute_expires_at r \<and> se_session_version r = ad_session_version a"

definition with_session :: "session_row \<Rightarrow> (session_row \<Rightarrow> session_row) \<Rightarrow> database \<Rightarrow> database" where
  "with_session r f = admin_sessions_update (row_update se_id (se_id r) f)"

definition digest_text :: "'w platform \<Rightarrow> session_service \<Rightarrow> ustr \<Rightarrow> bytes" where
  "digest_text P sv token = hmac_sha256 P (sv_session_key sv) (ascii_bytes token)"

definition row_identity :: "session_row \<Rightarrow> admin_row \<Rightarrow> session_identity" where
  "row_identity r a = \<lparr>si_session_id = inv uuid_str (se_id r), si_admin_id = inv uuid_str (ad_id a), si_login = ad_login a,
     si_csrf_digest = se_csrf_digest r\<rparr>"

definition authenticate_spec :: "'w platform \<Rightarrow> session_service \<Rightarrow> ustr \<Rightarrow> int \<Rightarrow> database \<Rightarrow> session_identity option outcome \<times> database" where
  "authenticate_spec P sv token ts db =
     (if \<not> token_text_ok token then (Ok None, db)
      else case session_at db (digest_text P sv token) of
        None \<Rightarrow> (Ok None, db)
      | Some r \<Rightarrow> (case row_find ad_id (se_admin_id r) (admins db) of
          None \<Rightarrow> (Ok None, with_session r (revoke_at ts) db)
        | Some a \<Rightarrow> if session_live db ts r a then (Ok (Some (row_identity r a)), with_session r (touch_session sv ts) db)
            else (Ok None, with_session r (revoke_at ts) db)))"

lemma session_digest_ok: "isascii token \<Longrightarrow> session_digest P sv token = Inr (digest_text P sv token)"
  by (simp add: session_digest_def digest_text_def encode_ascii_ok)

lemma inv_uuid_str [simp]: "inv uuid_str (uuid_str u) = u"
  by (simp add: inv_f_f uuid_text_codec.enc_inj)

lemma session_identity_ok:
  "se_id r \<in> range uuid_str \<Longrightarrow> ad_id a \<in> range uuid_str \<Longrightarrow> session_identity_of P r a = Inr (row_identity r a)"
  by (auto simp: session_identity_of_def row_identity_def)

lemma row_identity_touch [simp]: "row_identity (touch_session sv ts r) a = row_identity r a"
  by (simp add: row_identity_def touch_session_def)

lemma authenticate_body_run:
  assumes I: "session_inv (sys_db s)" and ok: "token_text_ok token"
  shows "authenticate_body P sv (digest_text P sv token) ts s =
    (fst (authenticate_spec P sv token ts (sys_db s)), s\<lparr>sys_db := snd (authenticate_spec P sv token ts (sys_db s))\<rparr>)"
proof (cases "session_at (sys_db s) (digest_text P sv token)")
  case None
  with ok show ?thesis by (simp add: authenticate_body_def authenticate_spec_def session_at_def prog_simps)
next
  case (Some r)
  then have r: "row_find se_token_digest (digest_text P sv token) (admin_sessions (sys_db s)) = Some r"
    "r \<in> set (admin_sessions (sys_db s))" "se_token_digest r = digest_text P sv token"
    unfolding session_at_def by (auto dest: row_find_SomeD)
  show ?thesis
  proof (cases "row_find ad_id (se_admin_id r) (admins (sys_db s))")
    case None
    with r ok Some show ?thesis
      by (simp add: authenticate_body_def authenticate_spec_def with_session_def prog_simps)
  next
    case a: (Some a)
    have "se_id (touch_session sv ts r) \<in> range uuid_str" "ad_id a \<in> range uuid_str"
      using I r(2) row_find_SomeD [OF a, THEN conjunct1] by (simp_all add: session_inv_def touch_session_def)
    then have "session_identity_of P (touch_session sv ts r) a = Inr (row_identity r a)"
      by (simp only: session_identity_ok row_identity_touch)
    with r ok Some a show ?thesis
      by (auto simp: authenticate_body_def authenticate_spec_def with_session_def session_live_def prog_simps)
  qed
qed

lemma authenticate_refines:
  "implements P session_inv (session_authenticate P sv token now)
     (\<lambda>db. case utc_instant now of Inl e \<Rightarrow> {(Raise e, db)} | Inr ts \<Rightarrow> {authenticate_spec P sv token ts db})"
proof -
  have ok: "\<exists>x. fst (authenticate_spec P sv token ts db) = Ok x" for ts db
    by (auto simp: authenticate_spec_def split: option.splits)
  have "implements P session_inv (session_scope P (authenticate_body P sv (digest_text P sv token) ts))
     (\<lambda>db. {authenticate_spec P sv token ts db})" if "token_text_ok token" for ts
    using authenticate_body_run [OF _ that] ok by (intro implements_session_scope) fastforce
  then show ?thesis
    unfolding session_authenticate_def
    by (intro implements_lift)
      (auto simp: token_text_ok_def session_digest_ok authenticate_spec_def intro!: implements_ret implements_lift)
qed

section \<open>Consequences\<close>

text \<open>A successful creation stores the row of the grant.\<close>

lemma session_token_cases:
  assumes "session_token P s = (r, t)"
  obtains b w where "r = Ok (url_token b)" "t = s\<lparr>sys_world := w\<rparr>" "random_ok P \<longrightarrow> length b = TOKEN_BYTES"
proof -
  obtain b w where b: "os_random P TOKEN_BYTES (sys_world s) = (b, w)" by fastforce
  with assms have "r = Ok (url_token b)" "t = s\<lparr>sys_world := w\<rparr>"
    by (auto simp: session_token_def world_call_def prog_defs)
  moreover have "random_ok P \<longrightarrow> length b = TOKEN_BYTES" using b unfolding random_ok_def by (metis fst_conv)
  ultimately show ?thesis by (rule that)
qed

definition csrf_text :: "'w platform \<Rightarrow> session_service \<Rightarrow> ustr \<Rightarrow> bytes" where
  "csrf_text P sv token = hmac_sha256 P (sv_csrf_key sv) (ascii_bytes token)"

lemma csrf_digest_ok: "isascii token \<Longrightarrow> csrf_digest P sv token = Inr (csrf_text P sv token)"
  by (simp add: csrf_digest_def csrf_text_def encode_ascii_ok)

lemma session_create_Ok:
  assumes "session_create P sv admin_id now s = (Ok g, t)"
  obtains ts a row b c where "utc_instant now = Inr ts" "row_find ad_id (admin_id) (admins (sys_db s)) = Some a"
    "gr_raw_token g = url_token b" "gr_csrf_token g = url_token c"
    "random_ok P \<longrightarrow> length b = TOKEN_BYTES \<and> length c = TOKEN_BYTES"
    "row = new_session_row sv (gr_session_id g) a (digest_text P sv (gr_raw_token g)) (csrf_text P sv (gr_csrf_token g)) ts"
    "insert_session row (sys_db s) = Inr (sys_db t)" "gr_absolute_expires_at g = ts + sv_absolute_duration sv"
    "gr_idle_expires_at g = min (ts + sv_idle_duration sv) (ts + sv_absolute_duration sv)"
proof -
  let ?body = "\<lambda>raw csrf i ts. bindP get_db (\<lambda>db. case row_find ad_id (admin_id) (admins db) of
         None \<Rightarrow> raise SessionAdminNotFound
       | Some a \<Rightarrow>
           bindP (lift_result (session_digest P sv raw)) (\<lambda>td.
           bindP (lift_result (csrf_digest P sv csrf)) (\<lambda>cd.
           db_statement (insert_session (new_session_row sv i a td cd ts)))))"
  from assms obtain ts raw s1 csrf s2 i s3 s4 where ts: "utc_instant now = Inr ts"
    and raw: "session_token P s = (Ok raw, s1)" and csrf: "session_token P s1 = (Ok csrf, s2)"
    and i: "world_call (os_uuid4 P) s2 = (Ok i, s3)"
    and scope: "session_scope P (?body raw csrf i ts) s3 = (Ok (), s4)"
    and g: "ret \<lparr>gr_session_id = i, gr_raw_token = raw, gr_csrf_token = csrf,
          gr_idle_expires_at = min (ts + sv_idle_duration sv) (ts + sv_absolute_duration sv),
          gr_absolute_expires_at = ts + sv_absolute_duration sv\<rparr> s4 = (Ok g, t)"
    unfolding session_create_def by (elim bindP_OkE) (auto simp: lift_result_def split: sum.splits)
  obtain b w where b: "raw = url_token b" "s1 = s\<lparr>sys_world := w\<rparr>" "random_ok P \<longrightarrow> length b = TOKEN_BYTES"
    using raw by (auto elim!: session_token_cases)
  obtain c w' where c: "csrf = url_token c" "s2 = s1\<lparr>sys_world := w'\<rparr>" "random_ok P \<longrightarrow> length c = TOKEN_BYTES"
    using csrf by (auto elim!: session_token_cases)
  have s3: "sys_db s3 = sys_db s" using i b c by (auto simp: world_call_def split: prod.splits)
  obtain w0 s5 w1 where body: "?body raw csrf i ts (s3\<lparr>sys_world := w0\<rparr>) = (Ok (), s5)" and s4: "s4 = s5\<lparr>sys_world := w1\<rparr>"
    using scope by (rule session_scope_OkE)
  have t: "t = s4" "g = \<lparr>gr_session_id = i, gr_raw_token = raw, gr_csrf_token = csrf,
          gr_idle_expires_at = min (ts + sv_idle_duration sv) (ts + sv_absolute_duration sv),
          gr_absolute_expires_at = ts + sv_absolute_duration sv\<rparr>" using g by (simp_all add: prog_simps)
  have dig: "session_digest P sv raw = Inr (digest_text P sv raw)" "csrf_digest P sv csrf = Inr (csrf_text P sv csrf)"
    using b c by (simp_all add: session_digest_ok csrf_digest_ok)
  show ?thesis
  proof (cases "row_find ad_id (admin_id) (admins (sys_db s))")
    case None
    with body s3 show ?thesis by (simp add: prog_simps)
  next
    case (Some a)
    let ?row = "new_session_row sv i a (digest_text P sv raw) (csrf_text P sv csrf) ts"
    from Some body s3 dig have "db_statement (insert_session ?row) (s3\<lparr>sys_world := w0\<rparr>) = (Ok (), s5)"
      by (simp add: prog_simps)
    then have "insert_session ?row (sys_db s) = Inr (sys_db s5)"
      using s3 by (cases "insert_session ?row (sys_db s)") (auto simp: prog_simps)
    with Some ts t s4 b c show ?thesis by (intro that [of ts a b c ?row]) auto
  qed
qed

text \<open>
  The granted session is live until it idles out, for the administrator it was created for.
\<close>

lemma granted_session:
  assumes "session_inv (sys_db s)" and "session_create P sv (uuid_str admin_id) now s = (Ok g, t)" and "0 < sv_idle_duration sv"
    and "sv_idle_duration sv \<le> sv_absolute_duration sv"
  obtains ts a r where "utc_instant now = Inr ts" "session_at (sys_db t) (digest_text P sv (gr_raw_token g)) = Some r"
    "row_find ad_id (uuid_str admin_id) (admins (sys_db s)) = Some a"
    "\<forall>u < ts + sv_idle_duration sv. session_live (sys_db t) u r a"
    "row_identity r a = \<lparr>si_session_id = gr_session_id g, si_admin_id = admin_id, si_login = ad_login a,
       si_csrf_digest = csrf_text P sv (gr_csrf_token g)\<rparr>"
    "se_absolute_expires_at r = gr_absolute_expires_at g" "gr_absolute_expires_at g = ts + sv_absolute_duration sv"
proof -
  from assms(2) obtain ts a row where ts: "utc_instant now = Inr ts"
    and a: "row_find ad_id (uuid_str admin_id) (admins (sys_db s)) = Some a"
    and row: "row = new_session_row sv (gr_session_id g) a (digest_text P sv (gr_raw_token g)) (csrf_text P sv (gr_csrf_token g)) ts"
    and ins: "insert_session row (sys_db s) = Inr (sys_db t)"
    and abs: "gr_absolute_expires_at g = ts + sv_absolute_duration sv"
    by (rule session_create_Ok)
  have idle: "min (ts + sv_idle_duration sv) (ts + sv_absolute_duration sv) = ts + sv_idle_duration sv" using assms(4) by simp
  from ins have db: "sys_db t = admin_sessions_update (\<lambda>rs. rs @ [row]) (sys_db s)"
    and fresh: "se_token_digest row \<notin> se_token_digest ` set (admin_sessions (sys_db s))"
    by (auto simp: insert_session_def split: if_splits)
  have ai: "ad_id a = uuid_str admin_id" "a \<in> set (admins (sys_db s))" using row_find_SomeD [OF a] by auto
  show ?thesis
  proof (rule that [OF ts _ a])
    show "session_at (sys_db t) (digest_text P sv (gr_raw_token g)) = Some row"
      using fresh row by (auto simp: session_at_def db row_find_append_new row_find_None [THEN iffD2] new_session_row_def)
    show "\<forall>u < ts + sv_idle_duration sv. session_live (sys_db t) u row a"
      using assms(4) a ai by (simp add: session_live_def db row new_session_row_def idle)
    show "row_identity row a = \<lparr>si_session_id = gr_session_id g, si_admin_id = admin_id, si_login = ad_login a,
       si_csrf_digest = csrf_text P sv (gr_csrf_token g)\<rparr>"
      using ai by (simp add: row_identity_def row new_session_row_def)
    show "se_absolute_expires_at row = gr_absolute_expires_at g" "gr_absolute_expires_at g = ts + sv_absolute_duration sv"
      by (simp_all add: row new_session_row_def abs)
  qed
qed

lemma token_text_ok_url: "length b = TOKEN_BYTES \<Longrightarrow> token_text_ok (url_token b)"
  by (simp add: token_text_ok_def length_url_token TOKEN_BYTES_def MAX_TOKEN_TEXT_def)

lemma granted_token_text:
  assumes "random_ok P" and "session_create P sv admin_id now s = (Ok g, t)"
  shows "token_text_ok (gr_raw_token g)" "token_text_ok (gr_csrf_token g)"
proof -
  from assms(2) obtain b c where "gr_raw_token g = url_token b" "gr_csrf_token g = url_token c"
    "random_ok P \<longrightarrow> length b = TOKEN_BYTES \<and> length c = TOKEN_BYTES" by (rule session_create_Ok)
  with assms(1) show "token_text_ok (gr_raw_token g)" "token_text_ok (gr_csrf_token g)"
    by (simp_all add: token_text_ok_url)
qed

text \<open>What a positive answer says, and what a negative one leaves behind.\<close>

lemma authenticate_Some:
  assumes "session_inv (sys_db s)" and "session_authenticate P sv token now s = (Ok (Some identity), t)"
  obtains ts r a where "utc_instant now = Inr ts" "token_text_ok token"
    "session_at (sys_db s) (digest_text P sv token) = Some r" "session_live (sys_db s) ts r a" "identity = row_identity r a"
    "sys_db t = with_session r (touch_session sv ts) (sys_db s)"
  using implementsD(2) [OF authenticate_refines assms]
  by (auto simp: authenticate_spec_def split: sum.splits if_splits option.splits)

lemma authenticate_None:
  assumes "session_inv (sys_db s)" and "session_authenticate P sv token now s = (Ok None, t)" and "token_text_ok token"
    and "session_at (sys_db s) (digest_text P sv token) = Some r"
  shows "session_fact (\<lambda>r. se_revoked_at r \<noteq> None) (digest_text P sv token) (sys_db t)"
proof -
  have "\<exists>ts. sys_db t = with_session r (revoke_at ts) (sys_db s)"
    using implementsD(2) [OF authenticate_refines assms(1,2)] assms(3,4)
    by (auto simp: authenticate_spec_def split: sum.splits if_splits option.splits)
  then obtain ts where "sys_db t = with_session r (revoke_at ts) (sys_db s)" by blast
  moreover have "se_token_digest (revoke_at ts x) = se_token_digest x" for x by (simp add: revoke_at_def)
  ultimately show ?thesis
    using assms(4) by (auto simp: session_fact_def session_at_def with_session_def row_find_update_cong revoke_at_def)
qed

lemma revoked_refused:
  assumes "session_inv (sys_db s)" and "session_fact (\<lambda>r. se_revoked_at r \<noteq> None) (digest_text P sv token) (sys_db s)"
  shows "session_authenticate P sv token now s \<noteq> (Ok (Some identity), t)"
proof
  assume run: "session_authenticate P sv token now s = (Ok (Some identity), t)"
  obtain ts r a where "session_at (sys_db s) (digest_text P sv token) = Some r" "session_live (sys_db s) ts r a"
    using assms(1) run by (rule authenticate_Some)
  with assms(2) show False by (auto simp: session_fact_def session_live_def)
qed

text \<open>A password reset revokes every session.\<close>

lemma reset_revokes:
  assumes "schema_ok (sys_db s)" and "reset_password P pw (Some now) s = (Ok (), t)" and "r \<in> set (admin_sessions (sys_db t))"
  shows "se_revoked_at r \<noteq> None"
proof -
  from implementsD(2) [OF reset_password_refines assms(1,2)] obtain ts a h
    where a: "a \<in> set (admins (sys_db s))" and t: "sys_db t = revoke_sessions_of (ad_id a) ts (with_admin a (apply_reset h ts) (sys_db s))"
    by (auto simp: reset_spec_def split: sum.splits list.splits)
  with single_admin [OF assms(1)] have "admins (sys_db s) = [a]" by auto
  with assms(1) have "\<forall>x \<in> set (admin_sessions (sys_db s)). se_admin_id x = ad_id a"
    by (simp add: schema_ok_def sessions_ok_def list_all_iff)
  with assms(3) t show ?thesis
    by (auto simp: revoke_sessions_of_def with_admin_def set_row_update revoke_at_def split: if_splits)
qed

lemma untouched_session_prefix: "keeps (untouched db h) (session_token P)"
  by (rule keeps_session_token)

lemma session_create_Raise:
  assumes "session_create P sv i now s = (Raise e, t)"
  shows "sys_db t = sys_db s"
proof -
  have tok: "sys_db u = sys_db v" if "session_token P v = (r, u)" for r u v
    using untouchedD(1) [OF untouched_session_prefix that] .
  have id: "sys_db u = sys_db v" if "world_call (os_uuid4 P) v = (r, u)" for r u v
    using untouchedD(1) [OF untouched_world_call that] .
  from assms show ?thesis
    unfolding session_create_def
    by (elim bindP_RaiseE) (auto simp: lift_result_def ret_run dest!: tok id session_scope_Raise_db split: sum.splits)
qed

lemma returns_sessions [returns_intros]:
  "returns (session_create P sv i now)" "returns (session_authenticate P sv token now)" "returns (session_revoke P k now)"
  unfolding session_create_def session_authenticate_def authenticate_body_def session_revoke_def session_token_def
  by (intro returns_intros)+

section \<open>Sequences of operations\<close>

text \<open>
  The operations of the security package in any order; an exception ends one operation, not the
  sequence.
\<close>

datatype security_command =
    CreateInitial ustr ustr | VerifyCredentials ustr ustr pydatetime | ResetPassword ustr "pydatetime option"
  | CreateSession ustr pydatetime | Authenticate ustr pydatetime | RevokeSession uuid pydatetime

fun security_program :: "'w platform \<Rightarrow> ustr \<Rightarrow> session_service \<Rightarrow> security_command \<Rightarrow> ('w, bool) op" where
  "security_program P dummy sv (CreateInitial login pw) = failed (create_initial P login pw)"
| "security_program P dummy sv (VerifyCredentials login pw now) = failed (verify_credentials P dummy login pw now)"
| "security_program P dummy sv (ResetPassword pw now) = failed (reset_password P pw now)"
| "security_program P dummy sv (CreateSession i now) = failed (session_create P sv i now)"
| "security_program P dummy sv (Authenticate token now) = failed (session_authenticate P sv token now)"
| "security_program P dummy sv (RevokeSession k now) = failed (session_revoke P k now)"

definition security_history :: "'w platform \<Rightarrow> ustr \<Rightarrow> session_service \<Rightarrow> security_command list \<Rightarrow> ('w, unit) op" where
  "security_history P dummy sv = for_each (\<lambda>cmd. bindP (security_program P dummy sv cmd) (\<lambda>_. ret ()))"

lemma keeps_security_history:
  assumes "\<And>cmd. keeps I (security_program P dummy sv cmd)"
  shows "keeps I (security_history P dummy sv cmds)"
  unfolding security_history_def by (intro keeps_intros assms)

lemma history_keeps:
  "keeps (on_db session_inv) (security_history P dummy sv cmds)"
  "keeps (on_db (security_frame db0)) (security_history P dummy sv cmds)"
  "session_stable Q \<Longrightarrow> keeps (on_db (session_fact Q d)) (security_history P dummy sv cmds)"
proof -
  show "keeps (on_db session_inv) (security_history P dummy sv cmds)"
    by (rule keeps_security_history, rename_tac cmd, case_tac cmd) (auto intro!: keeps_intros)
  show "keeps (on_db (security_frame db0)) (security_history P dummy sv cmds)"
    by (rule keeps_security_history, rename_tac cmd, case_tac cmd) (auto intro!: keeps_intros)
  show "session_stable Q \<Longrightarrow> keeps (on_db (session_fact Q d)) (security_history P dummy sv cmds)"
    by (rule keeps_security_history, rename_tac cmd, case_tac cmd) (auto intro!: keeps_intros)
qed

end
