(* ===== verification/Ip_Address.thy ===== *)
theory Ip_Address
  imports Url_Text Uuid
begin

text \<open>
  The part of Python's \<^verbatim>\<open>ipaddress\<close> that the login throttle (\<^verbatim>\<open>security/throttle.py\<close>) and the proxy
  policy (\<^verbatim>\<open>web/middleware.py\<close>) use: \<^verbatim>\<open>ip_address(text)\<close> and its \<^verbatim>\<open>compressed\<close> spelling. The main
  result is \<open>ip_address_compressed\<close>: the compressed spelling of an address reads back as that address, so
  that every spelling of one address is one client.
\<close>

section \<open>Reading\<close>

definition is_digit :: "nat \<Rightarrow> bool" where
  "is_digit c \<longleftrightarrow> 48 \<le> c \<and> c \<le> 57"

definition parse_octet :: "ustr \<Rightarrow> nat option" where
  "parse_octet s = (if s = [] \<or> \<not> list_all is_digit s \<or> 3 < length s \<or> (s \<noteq> [48] \<and> hd s = 48) then None
     else let n = digits_nat 10 (map (\<lambda>c. c - 48) s) in if 255 < n then None else Some n)"

definition parse_ipv4 :: "ustr \<Rightarrow> nat option" where
  "parse_ipv4 s = (if s = [] \<or> 47 \<in> set s then None
     else if length (split_on 46 s) \<noteq> 4 then None
     else map_option (digits_nat 256) (those (map parse_octet (split_on 46 s))))"

definition parse_hextet :: "ustr \<Rightarrow> nat option" where
  "parse_hextet s = (if s = [] \<or> 4 < length s then None else map_option (digits_nat 16) (those (map hex_val s)))"

fun hex_str :: "nat \<Rightarrow> ustr" where
  "hex_str n = (if n < 16 then [hex_char n] else hex_str (n div 16) @ [hex_char (n mod 16)])"

declare hex_str.simps [simp del]

text \<open>The colon-separated parts, a dotted suffix turned into two of them.\<close>

definition ipv6_parts :: "ustr \<Rightarrow> ustr list option" where
  "ipv6_parts s = (let parts = split_on 58 s in
     if s = [] \<or> length parts < 3 then None
     else if 46 \<in> set (last parts) then
       map_option (\<lambda>n. butlast parts @ [hex_str (n div 65536 mod 65536), hex_str (n mod 65536)]) (parse_ipv4 (last parts))
     else Some parts)"

text \<open>How many parts stand before the omitted run of zeros, how many zeros it has, how many parts follow.\<close>

definition ipv6_layout :: "ustr list \<Rightarrow> (nat \<times> nat \<times> nat) option" where
  "ipv6_layout parts = (case filter (\<lambda>i. parts ! i = []) [1..<length parts - 1] of
     [] \<Rightarrow> if length parts \<noteq> 8 \<or> hd parts = [] \<or> last parts = [] then None else Some (length parts, 0, 0)
   | [skip] \<Rightarrow>
       (let hi = (if hd parts = [] then skip - 1 else skip);
            lo = (if last parts = [] then length parts - skip - 2 else length parts - skip - 1) in
        if hd parts = [] \<and> hi \<noteq> 0 \<or> last parts = [] \<and> lo \<noteq> 0 \<or> 8 \<le> hi + lo then None
        else Some (hi, 8 - (hi + lo), lo))
   | _ \<Rightarrow> None)"

definition parse_ipv6 :: "ustr \<Rightarrow> nat option" where
  "parse_ipv6 s = (case ipv6_parts s of None \<Rightarrow> None | Some parts \<Rightarrow>
     if 9 < length parts then None
     else case ipv6_layout parts of None \<Rightarrow> None | Some (hi, skipped, lo) \<Rightarrow>
       (case (those (map parse_hextet (take hi parts)), those (map parse_hextet (drop (length parts - lo) parts))) of
          (Some hs, Some ls) \<Rightarrow> Some (digits_nat 65536 (hs @ replicate skipped 0 @ ls))
        | _ \<Rightarrow> None))"

datatype ip_addr = IPv4 nat | IPv6 nat "ustr option"

text \<open>\<^verbatim>\<open>_split_scope_id\<close>: the zone after a percent sign.\<close>

definition split_scope_id :: "ustr \<Rightarrow> (ustr \<times> ustr option) option" where
  "split_scope_id s = (if 37 \<notin> set s then Some (s, None)
     else let (addr, zone) = break_at 37 s in
       if zone = [] \<or> 37 \<in> set zone then None else Some (addr, Some zone))"

definition ip_address :: "ustr \<Rightarrow> exn + ip_addr" where
  "ip_address s = (case parse_ipv4 s of
     Some n \<Rightarrow> Inr (IPv4 n)
   | None \<Rightarrow> if 47 \<in> set s then Inl ValueError
       else case split_scope_id s of
         None \<Rightarrow> Inl ValueError
       | Some (addr, zone) \<Rightarrow> (case parse_ipv6 addr of None \<Rightarrow> Inl ValueError | Some n \<Rightarrow> Inr (IPv6 n zone)))"

section \<open>Writing\<close>

text \<open>One step of the search for the longest run of zeros: best start and length, current start and length.\<close>

definition run_step :: "nat \<times> nat \<times> nat option \<times> nat \<Rightarrow> nat \<times> ustr \<Rightarrow> nat \<times> nat \<times> nat option \<times> nat" where
  "run_step st ih = (case (st, ih) of ((best_start, best_len, start, len), (index, hextet)) \<Rightarrow>
     if hextet = [48] then
       (let len' = len + 1; start' = (case start of None \<Rightarrow> index | Some i \<Rightarrow> i) in
        if best_len < len' then (start', len', Some start', len') else (best_start, best_len, Some start', len'))
     else (best_start, best_len, None, 0))"

definition longest_run :: "ustr list \<Rightarrow> nat \<times> nat" where
  "longest_run hs = (case foldl run_step (0, 0, None, 0) (enumerate 0 hs) of (best_start, best_len, _, _) \<Rightarrow> (best_start, best_len))"

definition compress_hextets :: "ustr list \<Rightarrow> ustr list" where
  "compress_hextets hs = (case longest_run hs of (start, len) \<Rightarrow>
     if 1 < len then
       (if start = 0 then [[]] else []) @ take start hs @ [[]] @ drop (start + len) hs
       @ (if start + len = length hs then [[]] else [])
     else hs)"

definition ipv6_hextets :: "nat \<Rightarrow> ustr list" where
  "ipv6_hextets n = map hex_str (nat_digits 65536 8 n)"

fun ip_compressed :: "ip_addr \<Rightarrow> ustr" where
  "ip_compressed (IPv4 n) = join_with (U ''.'') (map dec_str (nat_digits 256 4 n))"
| "ip_compressed (IPv6 n zone) = join_with (U '':'') (compress_hextets (ipv6_hextets n))
     @ (case zone of None \<Rightarrow> [] | Some z \<Rightarrow> U ''%'' @ z)"

section \<open>Digits and hextets read back\<close>

lemma digits_nat_snoc: "digits_nat b (ds @ [d]) = digits_nat b ds * b + d"
  by (simp add: digits_nat_def)

lemma digits_dec_str: "digits_nat 10 (map (\<lambda>c. c - 48) (dec_str n)) = n"
proof (induction n rule: dec_str.induct)
  case (1 n)
  then show ?case by (cases "n < 10") (auto simp: dec_str.simps [of n] digits_nat_def)
qed

lemma those_append: "those (xs @ ys) = (case those xs of None \<Rightarrow> None | Some as \<Rightarrow> map_option ((@) as) (those ys))"
proof (induction xs)
  case Nil
  then show ?case by (cases "those ys") auto
next
  case (Cons x xs)
  then show ?case by (cases x; cases "those xs"; cases "those ys") auto
qed

lemma those_map_Some: "(\<And>x. x \<in> set xs \<Longrightarrow> f x = Some (g x)) \<Longrightarrow> those (map f xs) = Some (map g xs)"
  by (induction xs) auto

lemma digits_hex_str: "\<exists>ds. those (map hex_val (hex_str n)) = Some ds \<and> digits_nat 16 ds = n"
proof (induction n rule: hex_str.induct)
  case (1 n)
  show ?case
  proof (cases "n < 16")
    case True
    then show ?thesis by (simp add: hex_str.simps [of n] hex_val_char digits_nat_def)
  next
    case False
    with 1 obtain ds where "those (map hex_val (hex_str (n div 16))) = Some ds" "digits_nat 16 ds = n div 16" by blast
    then show ?thesis using False
      by (simp add: hex_str.simps [of n] those_append hex_val_char digits_nat_snoc)
  qed
qed

lemma dec_str_nonempty [simp]: "dec_str n \<noteq> []" and hex_str_nonempty [simp]: "hex_str n \<noteq> []"
  by (simp_all add: dec_str.simps [of n] hex_str.simps [of n])

lemma length_dec_str: "n < 10 ^ k \<Longrightarrow> 0 < k \<Longrightarrow> length (dec_str n) \<le> k"
proof (induction k arbitrary: n)
  case (Suc k)
  then show ?case using Suc.IH [of "n div 10"]
    by (cases "k = 0") (auto simp: dec_str.simps [of n] less_mult_imp_div_less ac_simps)
qed simp

lemma length_hex_str: "n < 16 ^ k \<Longrightarrow> 0 < k \<Longrightarrow> length (hex_str n) \<le> k"
proof (induction k arbitrary: n)
  case (Suc k)
  then show ?case using Suc.IH [of "n div 16"]
    by (cases "k = 0") (auto simp: hex_str.simps [of n] less_mult_imp_div_less ac_simps)
qed simp

lemma hex_str_chars: "ch \<in> set (hex_str n) \<Longrightarrow> is_digit ch \<or> 97 \<le> ch \<and> ch \<le> 102"
proof (induction n rule: hex_str.induct)
  case (1 n)
  then show ?case using hex_char_range [of "n mod 16"] hex_char_range [of n]
    by (cases "n < 16") (auto simp: hex_str.simps [of n] is_digit_def)
qed

lemma dec_str_hd: "0 < n \<Longrightarrow> hd (dec_str n) \<noteq> 48"
proof (induction n rule: dec_str.induct)
  case (1 n)
  then show ?case by (cases "n < 10") (auto simp: dec_str.simps [of n] hd_append)
qed

lemma parse_octet_dec: "n < 256 \<Longrightarrow> parse_octet (dec_str n) = Some n"
proof (cases "n = 0")
  case True
  then show ?thesis by (simp add: parse_octet_def dec_str.simps [of 0] digits_nat_def is_digit_def)
next
  case False
  assume "n < 256"
  moreover have "list_all is_digit (dec_str n)"
    using dec_str_chars [of n] by (simp add: is_digit_def [abs_def])
  ultimately show ?thesis using False length_dec_str [of n 3] dec_str_hd [of n]
    by (simp add: parse_octet_def digits_dec_str Let_def)
qed

lemma parse_hextet_hex: "n < 65536 \<Longrightarrow> parse_hextet (hex_str n) = Some n"
  using digits_hex_str [of n] length_hex_str [of n 4] by (auto simp: parse_hextet_def)

lemma hex_str_zero: "hex_str n = [48] \<longleftrightarrow> n = 0"
proof
  assume "hex_str n = [48]"
  with digits_hex_str [of n] show "n = 0" by (auto simp: hex_val_def digits_nat_def)
qed (simp add: hex_str.simps hex_char_def)

lemma parse_ipv4_chars: "parse_ipv4 s = Some n \<Longrightarrow> \<forall>ch \<in> set s. is_digit ch \<or> ch = 46"
proof -
  assume p: "parse_ipv4 s = Some n"
  have those: "those (map f xs) = Some ys \<Longrightarrow> x \<in> set xs \<Longrightarrow> f x \<noteq> None" for f :: "ustr \<Rightarrow> nat option" and xs ys x
    by (induction xs arbitrary: ys) (auto split: option.splits)
  have join: "set s \<subseteq> {46} \<union> \<Union> (set ` set (split_on 46 s))"
  proof (induction s)
    case (Cons x xs)
    then show ?case by (cases "split_on 46 xs") auto
  qed simp
  have "list_all is_digit part" if "part \<in> set (split_on 46 s)" for part
    using p those [of parse_octet, OF _ that] by (auto simp: parse_ipv4_def parse_octet_def split: if_splits)
  with join show ?thesis by (fastforce simp: list_all_iff)
qed

section \<open>Zero runs\<close>

text \<open>The run that the search finds is a run of zeros inside the list.\<close>

lemma run_step_run:
  "run_step (bs, bl, ds, dl) (i, [48]) = (let start = (case ds of None \<Rightarrow> i | Some j \<Rightarrow> j) in
     if bl < dl + 1 then (start, dl + 1, Some start, dl + 1) else (bs, bl, Some start, dl + 1))"
  "h \<noteq> [48] \<Longrightarrow> run_step (bs, bl, ds, dl) (i, h) = (bs, bl, None, 0)"
  by (auto simp: run_step_def Let_def)

lemma longest_run_zeros:
  assumes "longest_run hs = (start, len)"
  shows "start + len \<le> length hs \<and> take len (drop start hs) = replicate len [48]"
proof -
  define inv where "inv = (\<lambda>(xs :: ustr list) (bs, bl, ds, dl). bs + bl \<le> length xs
     \<and> take bl (drop bs xs) = replicate bl [48] \<and> dl \<le> length xs
     \<and> drop (length xs - dl) xs = replicate dl [48] \<and> ds = (if dl = 0 then None else Some (length xs - dl)))"
  have "inv hs (foldl run_step (0, 0, None, 0) (enumerate 0 hs))"
  proof (induction hs rule: rev_induct)
    case Nil
    show ?case by (simp add: inv_def)
  next
    case (snoc x xs)
    obtain bs bl ds dl where st: "foldl run_step (0, 0, None, 0) (enumerate 0 xs) = (bs, bl, ds, dl)"
      by (metis prod_cases4)
    with snoc have i: "bs + bl \<le> length xs" "take bl (drop bs xs) = replicate bl [48]" "dl \<le> length xs"
      "drop (length xs - dl) xs = replicate dl [48]" "ds = (if dl = 0 then None else Some (length xs - dl))"
      by (auto simp: inv_def)
    show ?case
    proof (cases "x = [48]")
      case False
      with i st show ?thesis by (simp add: inv_def enumerate_append_eq run_step_run)
    next
      case True
      have d: "drop (Suc (length xs) - Suc dl) (xs @ [x]) = replicate (Suc dl) [48]"
        using i(3,4) True by (simp add: replicate_append_same)
      with i True st show ?thesis
        by (simp add: inv_def enumerate_append_eq run_step_run Let_def)
    qed
  qed
  with assms show ?thesis by (auto simp: longest_run_def inv_def split: prod.splits)
qed

section \<open>Round trip\<close>

lemma layout_skip:
  assumes "as \<noteq> []" and "bs \<noteq> []" and "\<forall>x \<in> set (tl as). x \<noteq> []" and "\<forall>x \<in> set (butlast bs). x \<noteq> []"
  shows "filter (\<lambda>i. (as @ [[]] @ bs) ! i = []) [1..<length (as @ [[]] @ bs) - 1] = [length as]"
proof -
  let ?parts = "as @ [[]] @ bs"
  have "[1..<length ?parts - 1] = [1..<length as] @ [length as] @ [length as + 1..<length as + length bs]"
    using assms(1,2) upt_add_eq_append [of 1 "length as" "length bs"] upt_rec [of "length as" "length as + length bs"]
    by (simp add: Suc_le_eq)
  moreover have "filter (\<lambda>i. ?parts ! i = []) [1..<length as] = []"
  proof -
    have "as ! i \<noteq> []" if "1 \<le> i" "i < length as" for i
      using assms(3) that by (metis Suc_leI diff_less_mono le_add_diff_inverse length_tl nth_mem nth_tl plus_1_eq_Suc)
    then show ?thesis by (auto simp: filter_empty_conv nth_append)
  qed
  moreover have "filter (\<lambda>i. ?parts ! i = []) [length as + 1..<length as + length bs] = []"
  proof -
    have "bs ! i \<noteq> []" if "i < length bs - 1" for i
      using assms(4) that by (metis length_butlast nth_butlast nth_mem)
    then show ?thesis by (auto simp: filter_empty_conv nth_append nth_Cons')
  qed
  ultimately show ?thesis by (simp add: nth_append)
qed

text \<open>A list of eight hextets, cut around a run of zeros.\<close>

definition cut_parts :: "nat list \<Rightarrow> nat list \<Rightarrow> ustr list" where
  "cut_parts hi lo = ((if hi = [] then [[]] else map hex_str hi) @ [[]] @ (if lo = [] then [[]] else map hex_str lo))"

lemma layout_cut:
  assumes "length hi + length lo < 8"
  shows "ipv6_layout (cut_parts hi lo) = Some (length hi, 8 - (length hi + length lo), length lo)"
proof -
  define as where "as = (if hi = [] then [[]] else map hex_str hi)"
  define bs where "bs = (if lo = [] then [[]] else map hex_str lo)"
  have ne: "as \<noteq> []" "bs \<noteq> []" "\<forall>x \<in> set (tl as). x \<noteq> []" "\<forall>x \<in> set (butlast bs). x \<noteq> []"
    using hex_str_nonempty [THEN not_sym] hex_str_nonempty
    by (auto simp: as_def bs_def dest!: list.set_sel(2) [rotated] in_set_butlastD)
  have "cut_parts hi lo = as @ [[]] @ bs" by (simp add: cut_parts_def as_def bs_def)
  moreover have "hd as = [] \<longleftrightarrow> hi = []" "last bs = [] \<longleftrightarrow> lo = []"
    by (auto simp: as_def bs_def hd_map last_map)
  moreover have "length as = (if hi = [] then 1 else length hi)" "length bs = (if lo = [] then 1 else length lo)"
    by (simp_all add: as_def bs_def)
  ultimately show ?thesis using layout_skip [OF ne] ne(1,2) assms
    unfolding ipv6_layout_def by (simp add: Let_def) (auto simp: cut_parts_def)
qed

lemma ipv6_parts_join:
  assumes "3 \<le> length parts" and "\<forall>x \<in> set parts. set x \<inter> {46, 58} = {}"
  shows "ipv6_parts (join_with (U '':'') parts) = Some parts"
proof -
  have ne: "parts \<noteq> []" using assms(1) by auto
  have "split_on 58 (join_with (U '':'') parts) = parts"
    using split_on_join [OF ne, of 58] assms(2) by (auto simp: U_def)
  moreover from this have "join_with (U '':'') parts \<noteq> []" using assms(1) by auto
  moreover have "46 \<notin> set (last parts)" using assms(2) ne last_in_set by blast
  ultimately show ?thesis using assms(1) by (simp add: ipv6_parts_def)
qed

lemma hex_str_plain: "set (hex_str n) \<inter> {46, 58} = {}"
  using hex_str_chars [of _ n] by (fastforce simp: is_digit_def)

lemma those_hextets: "\<forall>h \<in> set hs. h < 65536 \<Longrightarrow> those (map parse_hextet (map hex_str hs)) = Some hs"
  by (induction hs) (auto simp: parse_hextet_hex)

lemma parse_cut:
  assumes "length hi + length lo < 7" and "\<forall>h \<in> set (hi @ lo). h < 65536"
  shows "parse_ipv6 (join_with (U '':'') (cut_parts hi lo))
    = Some (digits_nat 65536 (hi @ replicate (8 - (length hi + length lo)) 0 @ lo))"
proof -
  have "3 \<le> length (cut_parts hi lo)" "length (cut_parts hi lo) \<le> 9"
    using assms(1) by (cases hi; cases lo; simp add: cut_parts_def)+
  moreover have "\<forall>x \<in> set (cut_parts hi lo). set x \<inter> {46, 58} = {}"
    using hex_str_plain by (auto simp: cut_parts_def)
  moreover have "take (length hi) (cut_parts hi lo) = map hex_str hi"
    "drop (length (cut_parts hi lo) - length lo) (cut_parts hi lo) = map hex_str lo"
    by (auto simp: cut_parts_def)
  ultimately show ?thesis
    using layout_cut [of hi lo] ipv6_parts_join [of "cut_parts hi lo"] those_hextets [of hi] those_hextets [of lo] assms
    by (simp add: parse_ipv6_def)
qed

lemma parse_full:
  assumes "length hs = 8" and "\<forall>h \<in> set hs. h < 65536"
  shows "parse_ipv6 (join_with (U '':'') (map hex_str hs)) = Some (digits_nat 65536 hs)"
proof -
  have "hs \<noteq> []" using assms(1) by auto
  then have "ipv6_layout (map hex_str hs) = Some (8, 0, 0)"
    using assms(1) by (auto simp: ipv6_layout_def filter_False hd_map last_map)
  moreover have "ipv6_parts (join_with (U '':'') (map hex_str hs)) = Some (map hex_str hs)"
    using ipv6_parts_join [of "map hex_str hs"] hex_str_plain assms(1) by auto
  ultimately show ?thesis using those_hextets [OF assms(2)] assms(1) by (simp add: parse_ipv6_def)
qed

lemma parse_ipv6_compressed:
  assumes "length hs = 8" and "\<forall>h \<in> set hs. h < 65536"
  shows "parse_ipv6 (join_with (U '':'') (compress_hextets (map hex_str hs))) = Some (digits_nat 65536 hs)"
proof -
  obtain start len where run: "longest_run (map hex_str hs) = (start, len)" by fastforce
  show ?thesis
  proof (cases "1 < len")
    case False
    with run show ?thesis using parse_full [OF assms] by (simp add: compress_hextets_def)
  next
    case True
    from longest_run_zeros [OF run] assms(1) have le: "start + len \<le> 8"
      and zeros: "map hex_str (take len (drop start hs)) = replicate len [48]"
      by (simp_all add: take_map drop_map)
    have "take len (drop start hs) = replicate len 0"
    proof (rule replicate_eqI)
      show "length (take len (drop start hs)) = len" using le assms(1) by simp
      fix y assume "y \<in> set (take len (drop start hs))"
      then have "hex_str y \<in> set (replicate len [48])" unfolding zeros [symmetric] by simp
      then show "y = 0" by (simp add: hex_str_zero split: if_splits)
    qed
    then have hs: "hs = take start hs @ replicate len 0 @ drop (start + len) hs"
      by (metis add.commute append_take_drop_id drop_drop)
    have sizes: "length (take start hs) = start" "length (drop (start + len) hs) = 8 - (start + len)"
      using le assms(1) by simp_all
    have "compress_hextets (map hex_str hs) = cut_parts (take start hs) (drop (start + len) hs)"
      using run True le assms(1) by (auto simp: compress_hextets_def cut_parts_def take_map drop_map)
    moreover have "8 - (start + (8 - (start + len))) = len" using le by simp
    moreover have "\<forall>h \<in> set (take start hs @ drop (start + len) hs). h < 65536"
      using assms(2) by (auto dest: in_set_takeD in_set_dropD)
    ultimately show ?thesis
      using parse_cut [of "take start hs" "drop (start + len) hs"] sizes le True hs by simp
  qed
qed

lemma those_all: "those (map f xs) = Some ys \<Longrightarrow> (\<And>x y. f x = Some y \<Longrightarrow> Q y) \<Longrightarrow> list_all Q ys \<and> length ys = length xs"
  by (induction xs arbitrary: ys) (auto split: option.splits)

lemma parse_ipv4_bound: "parse_ipv4 s = Some n \<Longrightarrow> n < 2 ^ 32"
proof -
  assume p: "parse_ipv4 s = Some n"
  then obtain os where os: "those (map parse_octet (split_on 46 s)) = Some os" "n = digits_nat 256 os" "length (split_on 46 s) = 4"
    by (auto simp: parse_ipv4_def split: if_splits)
  have "list_all (\<lambda>d. d < 256) os \<and> length os = length (split_on 46 s)"
    by (rule those_all [OF os(1)]) (auto simp: parse_octet_def Let_def split: if_splits)
  with digits_nat_less [of 256 os] os show ?thesis by simp
qed

lemma parse_hextet_bound: "parse_hextet s = Some n \<Longrightarrow> n < 65536"
proof -
  assume p: "parse_hextet s = Some n"
  then obtain ds where ds: "those (map hex_val s) = Some ds" "n = digits_nat 16 ds" "length s \<le> 4"
    by (auto simp: parse_hextet_def split: if_splits)
  have "list_all (\<lambda>d. d < 16) ds \<and> length ds = length s"
    by (rule those_all [OF ds(1)]) (auto simp: hex_val_def split: if_splits)
  with digits_nat_less [of 16 ds] ds have "n < 16 ^ length s" by simp
  also have "\<dots> \<le> 16 ^ 4" using ds(3) by (intro power_increasing) auto
  finally show ?thesis by simp
qed

lemma ipv6_layout_sum: "ipv6_layout parts = Some (hi, skipped, lo) \<Longrightarrow> hi \<le> length parts \<and> lo \<le> length parts \<and> hi + skipped + lo = 8"
proof -
  assume l: "ipv6_layout parts = Some (hi, skipped, lo)"
  show ?thesis
  proof (cases "filter (\<lambda>i. parts ! i = []) [1..<length parts - 1]")
    case Nil
    with l show ?thesis by (auto simp: ipv6_layout_def split: if_splits)
  next
    case (Cons i rest)
    then have "i \<in> set (filter (\<lambda>i. parts ! i = []) [1..<length parts - 1])" by simp
    then have "i < length parts" by auto
    with l Cons show ?thesis by (cases rest) (auto simp: ipv6_layout_def Let_def split: if_splits)
  qed
qed

lemma parse_ipv6_bound: "parse_ipv6 s = Some n \<Longrightarrow> n < 2 ^ 128"
proof -
  assume "parse_ipv6 s = Some n"
  then obtain parts hi skipped lo hs ls where l: "ipv6_layout parts = Some (hi, skipped, lo)"
    and hs: "those (map parse_hextet (take hi parts)) = Some hs"
    and ls: "those (map parse_hextet (drop (length parts - lo) parts)) = Some ls"
    and n: "n = digits_nat 65536 (hs @ replicate skipped 0 @ ls)"
    by (auto simp: parse_ipv6_def split: option.splits if_splits)
  note len = ipv6_layout_sum [OF l]
  have "list_all (\<lambda>d. d < 65536) hs \<and> length hs = hi" "list_all (\<lambda>d. d < 65536) ls \<and> length ls = lo"
    using those_all [OF hs, of "\<lambda>d. d < 65536"] those_all [OF ls, of "\<lambda>d. d < 65536"] parse_hextet_bound len by simp_all
  moreover from this have "list_all (\<lambda>d. d < 65536) (hs @ replicate skipped 0 @ ls)" by (auto simp: list_all_iff)
  ultimately have "n < 65536 ^ (hi + (skipped + lo))"
    using digits_nat_less [of 65536 "hs @ replicate skipped 0 @ ls"] n by simp
  with len show ?thesis by (simp add: add.assoc)
qed

lemma join_colon_chars:
  "\<forall>x \<in> set xs. \<forall>ch \<in> set x. Q ch \<Longrightarrow> Q c \<Longrightarrow> \<forall>ch \<in> set (join_with [c] xs). Q ch"
  by (induction "[c]" xs rule: join_with.induct) auto

lemma compressed_v6_chars: "ch \<in> set (join_with (U '':'') (compress_hextets (ipv6_hextets n))) \<Longrightarrow> ch \<noteq> 37 \<and> ch \<noteq> 47"
proof -
  have "\<forall>x \<in> set (compress_hextets (ipv6_hextets n)). \<forall>ch \<in> set x. ch \<noteq> 37 \<and> ch \<noteq> 47"
    using hex_str_chars by (fastforce simp: compress_hextets_def ipv6_hextets_def is_digit_def
        dest: in_set_takeD in_set_dropD split: prod.splits if_splits)
  from join_colon_chars [OF this, of 58] show "ch \<in> set (join_with (U '':'') (compress_hextets (ipv6_hextets n))) \<Longrightarrow> ch \<noteq> 37 \<and> ch \<noteq> 47"
    by (simp add: U_def)
qed

lemma join_has_sep: "2 \<le> length xs \<Longrightarrow> c \<in> set (join_with [c] xs)"
  by (induction "[c]" xs rule: join_with.induct) auto

lemma compressed_v6_colon: "58 \<in> set (join_with (U '':'') (compress_hextets (ipv6_hextets n)))"
proof -
  have len: "length (ipv6_hextets n) = 8" by (simp add: ipv6_hextets_def)
  obtain start l where run: "longest_run (ipv6_hextets n) = (start, l)" by fastforce
  have "2 \<le> length (compress_hextets (ipv6_hextets n))"
    using longest_run_zeros [OF run] len by (auto simp: compress_hextets_def run)
  from join_has_sep [OF this, of 58] show ?thesis by (simp add: U_def)
qed

lemma parse_ipv6_hextets: "n < 2 ^ 128 \<Longrightarrow> parse_ipv6 (join_with (U '':'') (compress_hextets (ipv6_hextets n))) = Some n"
  using parse_ipv6_compressed [of "nat_digits 65536 8 n"] nat_digits_less [of 65536 _ 8 n]
  by (simp add: ipv6_hextets_def digits_nat_digits)

lemma parse_ipv4_compressed: "n < 2 ^ 32 \<Longrightarrow> parse_ipv4 (ip_compressed (IPv4 n)) = Some n"
proof -
  assume n: "n < 2 ^ 32"
  define ds where "ds = nat_digits 256 4 n"
  let ?parts = "map dec_str ds"
  have ds: "length ds = 4" "\<And>d. d \<in> set ds \<Longrightarrow> d < 256" "digits_nat 256 ds = n"
    using nat_digits_less [of 256 _ 4 n] n by (simp_all add: ds_def digits_nat_digits)
  have plain: "\<forall>x \<in> set ?parts. \<forall>ch \<in> set x. is_digit ch"
    using dec_str_chars by (fastforce simp: list_all_iff is_digit_def)
  have split: "split_on 46 (join_with [46] ?parts) = ?parts"
    using plain ds(1) by (intro split_on_join) (fastforce simp: is_digit_def)+
  have "\<forall>ch \<in> set (join_with [46] ?parts). is_digit ch \<or> ch = 46"
    using plain by (intro join_colon_chars) auto
  then have "47 \<notin> set (join_with [46] ?parts)" by (auto simp: is_digit_def)
  moreover have "join_with [46] ?parts \<noteq> []" using split ds(1) by (cases "join_with [46] ?parts = []") auto
  moreover have "those (map parse_octet ?parts) = Some ds"
    using those_map_Some [of ds "\<lambda>d. parse_octet (dec_str d)" "\<lambda>d. d"] ds(2) by (simp add: parse_octet_dec comp_def)
  ultimately have "parse_ipv4 (join_with [46] ?parts) = Some n"
    using split ds(1,3) by (simp only: parse_ipv4_def length_map if_False simp_thms option.map)
  then show ?thesis by (simp add: U_def ds_def)
qed

lemma ip_address_V6:
  assumes "n < 2 ^ 128" and "\<forall>z. zone = Some z \<longrightarrow> z \<noteq> [] \<and> 37 \<notin> set z \<and> 47 \<notin> set z"
  shows "ip_address (ip_compressed (IPv6 n zone)) = Inr (IPv6 n zone)"
proof -
  let ?t = "join_with (U '':'') (compress_hextets (ipv6_hextets n))"
  have v4: "parse_ipv4 (ip_compressed (IPv6 n zone)) = None"
  proof (rule ccontr)
    assume "parse_ipv4 (ip_compressed (IPv6 n zone)) \<noteq> None"
    then obtain m where "parse_ipv4 (ip_compressed (IPv6 n zone)) = Some m" by blast
    moreover have "58 \<in> set (ip_compressed (IPv6 n zone))" using compressed_v6_colon [of n] by simp
    ultimately have "is_digit 58 \<or> 58 = (46 :: nat)" using parse_ipv4_chars by blast
    then show False by (simp add: is_digit_def)
  qed
  have "47 \<notin> set (ip_compressed (IPv6 n zone))" "37 \<notin> set ?t"
    using compressed_v6_chars [of _ n] assms(2) by (auto simp: U_def split: option.splits)
  moreover from this have "split_scope_id (ip_compressed (IPv6 n zone)) = Some (?t, zone)"
    using assms(2) by (cases zone) (auto simp: split_scope_id_def break_at_append U_def)
  ultimately show ?thesis
    using v4 parse_ipv6_hextets [OF assms(1)] by (simp add: ip_address_def del: ip_compressed.simps)
qed

lemma split_scope_id_zone:
  "split_scope_id s = Some (addr, Some z) \<Longrightarrow> z \<noteq> [] \<and> 37 \<notin> set z \<and> set z \<subseteq> set s"
  by (auto simp: split_scope_id_def break_at_def split: if_splits prod.splits
      dest: in_set_dropD [of _ "Suc 0"] set_dropWhileD)

lemma ip_address_compressed:
  assumes "ip_address s = Inr a"
  shows "ip_address (ip_compressed a) = Inr a"
proof (cases "parse_ipv4 s")
  case (Some n)
  with assms have "a = IPv4 n" by (simp add: ip_address_def)
  with parse_ipv4_compressed [OF parse_ipv4_bound [OF Some]] show ?thesis by (simp add: ip_address_def)
next
  case None
  with assms obtain addr zone n where z: "47 \<notin> set s" "split_scope_id s = Some (addr, zone)"
    and n: "parse_ipv6 addr = Some n" and a: "a = IPv6 n zone"
    by (auto simp: ip_address_def split: option.splits if_splits)
  with split_scope_id_zone [of s addr] show ?thesis
    unfolding a by (intro ip_address_V6 parse_ipv6_bound [OF n]) blast
qed

lemma ip_address_error: "ip_address s = Inl e \<Longrightarrow> e = ValueError"
  by (auto simp: ip_address_def split: option.splits if_splits)

end
