(* ===== verification/Throttle.thy ===== *)
theory Throttle
  imports Admin Ip_Address
begin

text \<open>
  \<^verbatim>\<open>control/src/ezopenpn/security/throttle.py\<close>: the login throttle. A failed login counts against the
  client's address and against the login name; each has a row under the digest of its normal form.
  \<open>throttle_of\<close> is the abstract view, a map from (scope, digest) to rows: a failure updates the two
  keys of its client, a success clears them, and the delay doubles up to thirty seconds.
\<close>

section \<open>Operations\<close>

definition IP_LABEL :: bytes where "IP_LABEL = ascii_bytes (U ''ezopenpn/login-throttle-ip/v1'')"
definition LOGIN_LABEL :: bytes where "LOGIN_LABEL = ascii_bytes (U ''ezopenpn/login-throttle-login/v1'')"

definition seconds :: "int \<Rightarrow> int" where "seconds n = n * 1000000"

definition DECAY_WINDOW :: int where "DECAY_WINDOW = seconds (15 * 60)"
definition MAX_DELAY_SECONDS :: int where "MAX_DELAY_SECONDS = 30"

record throttle_service =
  tv_ip_key :: bytes
  tv_login_key :: bytes

definition derive_throttle_key :: "'w platform \<Rightarrow> bytes \<Rightarrow> bytes \<Rightarrow> exn + bytes" where
  "derive_throttle_key P master_key label = (if length master_key \<noteq> 32 then Inl ValueError else Inr (hmac_sha256 P master_key label))"

definition make_throttle_service :: "'w platform \<Rightarrow> bytes \<Rightarrow> exn + throttle_service" where
  "make_throttle_service P master_key =
     bind_sum (derive_throttle_key P master_key IP_LABEL) (\<lambda>ik.
     bind_sum (derive_throttle_key P master_key LOGIN_LABEL) (\<lambda>lk. Inr \<lparr>tv_ip_key = ik, tv_login_key = lk\<rparr>))"

definition normalized_peer :: "'w platform \<Rightarrow> ustr \<Rightarrow> exn + bytes" where
  "normalized_peer P ip = (let direct_peer = strip ip in
     catch_sum (bind_sum (ip_address direct_peer) (\<lambda>a. encode_ascii (ip_compressed a)))
       (\<lambda>e. if is_ValueError e then utf8_encode (U ''peer:'' @ ucd_casefold P (take 255 direct_peer)) else Inl e))"

definition throttle_identities :: "'w platform \<Rightarrow> throttle_service \<Rightarrow> ustr \<Rightarrow> ustr \<Rightarrow> exn + (ustr \<times> bytes) list" where
  "throttle_identities P tv ip login =
     bind_sum (normalized_peer P ip) (\<lambda>normalized_ip.
     bind_sum (utf8_encode (ucd_casefold P (strip (ucd_nfkc P (take 1024 login))))) (\<lambda>normalized_login.
     Inr [(U ''ip'', hmac_sha256 P (tv_ip_key tv) normalized_ip),
          (U ''login'', hmac_sha256 P (tv_login_key tv) normalized_login)]))"

definition throttle_key :: "throttle_row \<Rightarrow> ustr \<times> bytes" where
  "throttle_key r = (th_scope r, th_key_digest r)"

definition new_throttle_row :: "uuid \<Rightarrow> ustr \<times> bytes \<Rightarrow> int \<Rightarrow> throttle_row" where
  "new_throttle_row i k ts = \<lparr>th_id = uuid_str i, th_scope = fst k, th_key_digest = snd k, th_failure_count = 0,
     th_window_started_at = ts, th_last_failed_at = ts, th_blocked_until = None\<rparr>"

definition delay_seconds :: "int \<Rightarrow> int" where
  "delay_seconds failure_count = min MAX_DELAY_SECONDS (2 ^ nat (failure_count - 1))"

text \<open>The assignments of one failure to its row.\<close>

definition count_failure :: "int \<Rightarrow> throttle_row \<Rightarrow> throttle_row" where
  "count_failure ts r =
     (let r1 = (if ts - th_last_failed_at r > DECAY_WINDOW then r\<lparr>th_failure_count := 0, th_window_started_at := ts\<rparr> else r);
          n = th_failure_count r1 + 1
      in r1\<lparr>th_failure_count := n, th_last_failed_at := ts, th_blocked_until := Some (ts + seconds (delay_seconds n))\<rparr>)"

definition register_identity :: "'w platform \<Rightarrow> int \<Rightarrow> ustr \<times> bytes \<Rightarrow> ('w, int) op" where
  "register_identity P ts k = bindP get_db (\<lambda>db.
     case row_find throttle_key k (login_throttles db) of
       None \<Rightarrow> bindP (world_call (os_uuid4 P)) (\<lambda>i.
         let r = count_failure ts (new_throttle_row i k ts) in
         bindP (db_statement (insert_throttle r)) (\<lambda>_. ret (delay_seconds (th_failure_count r))))
     | Some stored \<Rightarrow>
         let r = count_failure ts stored in
         bindP (db_update (login_throttles_update (row_update throttle_key k (count_failure ts)))) (\<lambda>_.
         ret (delay_seconds (th_failure_count r))))"

fun register_identities :: "'w platform \<Rightarrow> int \<Rightarrow> (ustr \<times> bytes) list \<Rightarrow> int \<Rightarrow> ('w, int) op" where
  "register_identities P ts [] longest_delay = ret longest_delay"
| "register_identities P ts (k # ks) longest_delay =
     bindP (register_identity P ts k) (\<lambda>d. register_identities P ts ks (max longest_delay d))"

definition register_failure :: "'w platform \<Rightarrow> throttle_service \<Rightarrow> ustr \<Rightarrow> ustr \<Rightarrow> pydatetime \<Rightarrow> ('w, int) op" where
  "register_failure P tv ip login now =
     bindP (lift_result (utc_instant now)) (\<lambda>ts.
     bindP (session_scope P (bindP (lift_result (throttle_identities P tv ip login)) (\<lambda>ks. register_identities P ts ks 0))) (\<lambda>longest_delay.
     ret (seconds longest_delay)))"

definition remaining_delays :: "(ustr \<times> bytes) list \<Rightarrow> int \<Rightarrow> database \<Rightarrow> int list" where
  "remaining_delays ks ts db = concat (map (\<lambda>r. case th_blocked_until r of
       None \<Rightarrow> [] | Some u \<Rightarrow> if ts < u then [u - ts] else [])
     (filter (\<lambda>r. throttle_key r \<in> set ks) (login_throttles db)))"

definition retry_after :: "'w platform \<Rightarrow> throttle_service \<Rightarrow> ustr \<Rightarrow> ustr \<Rightarrow> pydatetime \<Rightarrow> ('w, int) op" where
  "retry_after P tv ip login now =
     bindP (lift_result (utc_instant now)) (\<lambda>ts.
     bindP (lift_result (throttle_identities P tv ip login)) (\<lambda>ks.
     session_scope P (bindP get_db (\<lambda>db. ret (foldr max (remaining_delays ks ts db) 0)))))"

definition throttle_clear :: "'w platform \<Rightarrow> throttle_service \<Rightarrow> ustr \<Rightarrow> ustr \<Rightarrow> ('w, unit) op" where
  "throttle_clear P tv ip login =
     bindP (lift_result (throttle_identities P tv ip login)) (\<lambda>ks.
     session_scope P (db_update (login_throttles_update (filter (\<lambda>r. throttle_key r \<notin> set ks)))))"

section \<open>Identities\<close>

lemma throttle_identities_shape:
  "throttle_identities P tv ip login = Inr ks \<Longrightarrow> \<exists>d e. ks = [(U ''ip'', d), (U ''login'', e)]"
  by (auto simp: throttle_identities_def bind_sum_eq_Inr)

lemma scopes_differ [simp]: "U ''ip'' \<noteq> U ''login''"
  by (simp add: U_def)

text \<open>Every spelling of an address throttles as the same client.\<close>

definition zoned :: "ip_addr \<Rightarrow> bool" where
  "zoned a \<longleftrightarrow> (\<exists>n z. a = IPv6 n (Some z))"

lemma compressed_chars: "\<not> zoned a \<Longrightarrow> ch \<in> set (ip_compressed a) \<Longrightarrow> 46 \<le> ch \<and> ch \<le> 102"
proof -
  have dec: "\<forall>x \<in> set (map dec_str ds). \<forall>ch \<in> set x. 46 \<le> ch \<and> ch \<le> 102" for ds
    using dec_str_chars by (fastforce simp: list_all_iff)
  have hex: "\<forall>x \<in> set (compress_hextets (ipv6_hextets n)). \<forall>ch \<in> set x. 46 \<le> ch \<and> ch \<le> 102" for n
    using hex_str_chars by (fastforce simp: compress_hextets_def ipv6_hextets_def is_digit_def
        dest: in_set_takeD in_set_dropD split: prod.splits if_splits)
  assume "\<not> zoned a" "ch \<in> set (ip_compressed a)"
  then show ?thesis
    using join_colon_chars [OF dec, of 46] join_colon_chars [OF hex, of 58]
    by (cases a rule: ip_compressed.cases) (auto simp: zoned_def U_def split: option.splits)
qed

lemma strip_plain:
  assumes "\<forall>ch \<in> set s. \<not> isspace ch"
  shows "strip s = s"
proof -
  have "dropWhile isspace xs = xs" if "\<forall>ch \<in> set xs. \<not> isspace ch" for xs
    using that by (cases xs) auto
  from this [of s] this [of "rev s"] assms show ?thesis by (simp add: strip_def)
qed

lemma normalized_peer_address:
  assumes "ip_address (strip ip) = Inr a" and "\<not> zoned a"
  shows "normalized_peer P ip = Inr (ascii_bytes (ip_compressed a))"
    and "normalized_peer P (ip_compressed a) = Inr (ascii_bytes (ip_compressed a))"
proof -
  have "isascii (ip_compressed a)" "strip (ip_compressed a) = ip_compressed a"
    using compressed_chars [OF assms(2)] by (fastforce simp: isascii_def list_all_iff isspace_def intro!: strip_plain)+
  then show "normalized_peer P ip = Inr (ascii_bytes (ip_compressed a))"
    "normalized_peer P (ip_compressed a) = Inr (ascii_bytes (ip_compressed a))"
    using assms(1) ip_address_compressed [OF assms(1)] by (simp_all add: normalized_peer_def Let_def encode_ascii_ok)
qed

section \<open>The view\<close>

definition throttle_of :: "database \<Rightarrow> ustr \<times> bytes \<Rightarrow> throttle_row option" where
  "throttle_of db k = row_find throttle_key k (login_throttles db)"

definition throttle_inv :: "database \<Rightarrow> bool" where
  "throttle_inv db \<longleftrightarrow> schema_ok db \<and> (\<forall>r \<in> set (login_throttles db).
     \<forall>u. th_blocked_until r = Some u \<longrightarrow> u \<le> th_last_failed_at r + seconds MAX_DELAY_SECONDS)"

lemma delay_bounds: "1 \<le> delay_seconds n" "delay_seconds n \<le> 30"
  by (auto simp: delay_seconds_def MAX_DELAY_SECONDS_def)

lemma count_failure_key [simp]: "throttle_key (count_failure ts r) = throttle_key r" "th_id (count_failure ts r) = th_id r"
  by (simp_all add: count_failure_def throttle_key_def Let_def)

lemma new_throttle_key [simp]: "throttle_key (new_throttle_row i k ts) = k"
  by (simp add: new_throttle_row_def throttle_key_def)

definition next_count :: "int \<Rightarrow> throttle_row option \<Rightarrow> int" where
  "next_count ts r = (case r of None \<Rightarrow> 1
     | Some x \<Rightarrow> if ts - th_last_failed_at x > DECAY_WINDOW then 1 else th_failure_count x + 1)"

definition blocked_row :: "int \<Rightarrow> throttle_row option \<Rightarrow> throttle_row \<Rightarrow> bool" where
  "blocked_row ts old r \<longleftrightarrow> th_failure_count r = next_count ts old \<and> th_last_failed_at r = ts
     \<and> th_blocked_until r = Some (ts + seconds (delay_seconds (next_count ts old)))"

lemma blocked_row_count: "blocked_row ts (Some r) (count_failure ts r)" "blocked_row ts None (count_failure ts (new_throttle_row i k ts))"
  by (auto simp: blocked_row_def count_failure_def next_count_def new_throttle_row_def Let_def DECAY_WINDOW_def seconds_def)

lemma throttle_check_count: "throttle_check r \<Longrightarrow> throttle_check (count_failure ts r)"
  by (auto simp: throttle_check_def count_failure_def Let_def)

lemma throttle_inv_update:
  assumes "throttle_inv db"
  shows "throttle_inv (login_throttles_update (row_update throttle_key k (count_failure ts)) db)"
proof -
  have "blocked_row ts (Some r) (count_failure ts r)" for r by (rule blocked_row_count)
  then have "u \<le> th_last_failed_at (count_failure ts r) + seconds MAX_DELAY_SECONDS"
    if "th_blocked_until (count_failure ts r) = Some u" for r u
    using that delay_bounds(2) [of "next_count ts (Some r)"]
    by (simp add: blocked_row_def MAX_DELAY_SECONDS_def seconds_def)
  moreover have "distinct (map throttle_key (login_throttles db))"
    using assms by (simp add: throttle_inv_def schema_ok_def throttles_ok_def throttle_key_def [abs_def])
  ultimately show ?thesis using assms
    by (auto simp: throttle_inv_def schema_ok_def throttles_ok_def map_row_update set_row_update list_all_iff
        throttle_check_count simp flip: throttle_key_def)
qed

lemma throttle_inv_insert:
  assumes "throttle_inv db" and "insert_throttle (count_failure ts (new_throttle_row i k ts)) db = Inr db'"
  shows "throttle_inv db'"
proof -
  have "u \<le> ts + seconds MAX_DELAY_SECONDS"
    if "th_blocked_until (count_failure ts (new_throttle_row i k ts)) = Some u" for u
    using that blocked_row_count(2) [of ts i k] delay_bounds(2) [of 1]
    by (simp add: blocked_row_def next_count_def MAX_DELAY_SECONDS_def seconds_def)
  moreover have "th_last_failed_at (count_failure ts (new_throttle_row i k ts)) = ts"
    using blocked_row_count(2) [of ts i k] by (simp add: blocked_row_def)
  moreover have "schema_ok db'" using assms by (auto simp: throttle_inv_def intro: schema_ok_insert(3))
  ultimately show ?thesis using assms by (auto simp: throttle_inv_def insert_throttle_def split: if_splits)
qed

lemma throttle_of_update:
  "throttle_of (login_throttles_update (row_update throttle_key k (count_failure ts)) db)
     = (throttle_of db)(k := map_option (count_failure ts) (throttle_of db k))"
  by (auto simp: fun_eq_iff throttle_of_def row_find_update_same row_find_update_other)

lemma throttle_of_insert:
  assumes "insert_throttle r db = Inr db'"
  shows "throttle_of db' = (throttle_of db)(throttle_key r \<mapsto> r)"
proof -
  have "db' = login_throttles_update (\<lambda>rs. rs @ [r]) db" "throttle_key r \<notin> throttle_key ` set (login_throttles db)"
    using assms by (auto simp: insert_throttle_def throttle_key_def split: if_splits)
  then show ?thesis
    by (auto simp: fun_eq_iff throttle_of_def row_find_append_new row_find_None [symmetric] split: option.splits)
qed

section \<open>What the operations do\<close>

text \<open>\<open>register_identity\<close> puts a blocked row at its key, or fails on a repeated row identifier.\<close>

lemma register_identity_cases:
  assumes "throttle_inv (sys_db s)" and "register_identity P ts k s = (r, t)"
  obtains (counted) row where "r = Ok (delay_seconds (next_count ts (throttle_of (sys_db s) k)))"
    "blocked_row ts (throttle_of (sys_db s) k) row" "throttle_of (sys_db t) = (throttle_of (sys_db s))(k \<mapsto> row)"
    "throttle_inv (sys_db t)" "sys_health t = sys_health s" "same_profiles (sys_db s) (sys_db t)"
  | (collision) "r = Raise IntegrityError" "sys_health t = sys_health s"
proof (cases "throttle_of (sys_db s) k")
  case (Some x)
  let ?db = "login_throttles_update (row_update throttle_key k (count_failure ts)) (sys_db s)"
  have "r = Ok (delay_seconds (th_failure_count (count_failure ts x)))" "t = s\<lparr>sys_db := ?db\<rparr>"
    using assms(2) Some by (auto simp: register_identity_def throttle_of_def Let_def prog_simps)
  with Some blocked_row_count(1) [of ts x] throttle_inv_update [OF assms(1)] show ?thesis
    by (intro counted [of "count_failure ts x"]) (auto simp: throttle_of_update blocked_row_def same_profiles_def)
next
  case None
  obtain i w where i: "world_call (os_uuid4 P) s = (Ok i, s\<lparr>sys_world := w\<rparr>)" using world_call_shape [of "os_uuid4 P" s] by blast
  let ?row = "count_failure ts (new_throttle_row i k ts)"
  have b: "blocked_row ts None ?row" by (rule blocked_row_count)
  show ?thesis
  proof (cases "insert_throttle ?row (sys_db s)")
    case (Inl e)
    then have "e = IntegrityError" by (simp add: insert_throttle_def split: if_splits)
    with Inl None i assms(2) show ?thesis
      by (intro collision) (auto simp: register_identity_def throttle_of_def Let_def prog_simps)
  next
    case (Inr db')
    with None i assms(2) have "r = Ok (delay_seconds (th_failure_count ?row))" "t = s\<lparr>sys_world := w, sys_db := db'\<rparr>"
      by (auto simp: register_identity_def throttle_of_def Let_def prog_simps)
    with None b throttle_inv_insert [OF assms(1) Inr] throttle_of_insert [OF Inr] Inr show ?thesis
      by (intro counted [of ?row]) (auto simp: blocked_row_def same_profiles_def insert_throttle_def split: if_splits)
  qed
qed

text \<open>The state after a counted failure of the client with keys \<open>k1\<close> and \<open>k2\<close>, and the delay it returns.\<close>

definition failure_counted :: "int \<Rightarrow> ustr \<times> bytes \<Rightarrow> ustr \<times> bytes \<Rightarrow> database \<Rightarrow> int \<Rightarrow> database \<Rightarrow> bool" where
  "failure_counted ts k1 k2 db d db' \<longleftrightarrow> (\<exists>r1 r2. blocked_row ts (throttle_of db k1) r1 \<and> blocked_row ts (throttle_of db k2) r2
     \<and> throttle_of db' = (throttle_of db)(k1 \<mapsto> r1, k2 \<mapsto> r2) \<and> throttle_inv db' \<and> same_profiles db db'
     \<and> d = seconds (max (delay_seconds (next_count ts (throttle_of db k1))) (delay_seconds (next_count ts (throttle_of db k2)))))"

definition register_spec :: "int \<Rightarrow> (ustr \<times> bytes) list \<Rightarrow> database \<Rightarrow> (int outcome \<times> database) set" where
  "register_spec ts ks db = {(Raise IntegrityError, db)}
     \<union> {(Ok d, db') | d db'. failure_counted ts (ks ! 0) (ks ! 1) db d db'}"

lemma register_two:
  assumes I: "throttle_inv (sys_db s)" and ne: "k1 \<noteq> k2" and run: "register_identities P ts [k1, k2] 0 s = (r, t)"
  shows "sys_health t = sys_health s \<and> (r = Raise IntegrityError
     \<or> (\<exists>d. r = Ok d \<and> failure_counted ts k1 k2 (sys_db s) (seconds d) (sys_db t)))"
proof -
  obtain x1 s1 where 1: "register_identity P ts k1 s = (x1, s1)" by fastforce
  from I 1 show ?thesis
  proof (cases rule: register_identity_cases)
    case collision
    with 1 run show ?thesis by (auto simp: prog_simps)
  next
    case (counted r1)
    note c1 = counted
    obtain x2 s2 where 2: "register_identity P ts k2 s1 = (x2, s2)" by fastforce
    from c1(4) 2 show ?thesis
    proof (cases rule: register_identity_cases)
      case collision
      with 1 2 c1 run show ?thesis by (auto simp: prog_simps)
    next
      case (counted r2)
      with 1 2 c1 run have "r = Ok (max (delay_seconds (next_count ts (throttle_of (sys_db s) k1)))
          (delay_seconds (next_count ts (throttle_of (sys_db s) k2))))" "t = s2"
        using ne delay_bounds(1) [of "next_count ts (throttle_of (sys_db s) k1)"] by (auto simp: prog_simps)
      moreover have "same_profiles (sys_db s) (sys_db s2)" using c1(6) counted(6) by (simp add: same_profiles_def)
      ultimately show ?thesis using c1 counted ne unfolding failure_counted_def by auto
    qed
  qed
qed

lemma register_failure_refines:
  "implements P throttle_inv (register_failure P tv ip login now) (\<lambda>db. case utc_instant now of
      Inl e \<Rightarrow> {(Raise e, db)}
    | Inr ts \<Rightarrow> (case throttle_identities P tv ip login of Inl e \<Rightarrow> {(Raise e, db)} | Inr ks \<Rightarrow> register_spec ts ks db))"
proof -
  have "implements P throttle_inv
     (bindP (session_scope P (bindP (lift_result (throttle_identities P tv ip login)) (\<lambda>ks. register_identities P ts ks 0)))
       (\<lambda>d. ret (seconds d)))
     (\<lambda>db. case throttle_identities P tv ip login of Inl e \<Rightarrow> {(Raise e, db)} | Inr ks \<Rightarrow> register_spec ts ks db)" for ts
  proof -
    let ?F = "\<lambda>db. case throttle_identities P tv ip login of Inl e \<Rightarrow> {(Raise e, db)}
       | Inr ks \<Rightarrow> {(Raise IntegrityError, db)} \<union> {(Ok d, db') | d db'. failure_counted ts (ks ! 0) (ks ! 1) db (seconds d) db'}"
    have scope: "implements P throttle_inv
       (session_scope P (bindP (lift_result (throttle_identities P tv ip login)) (\<lambda>ks. register_identities P ts ks 0))) ?F"
    proof (rule implements_session_scope)
      fix s r t
      assume I: "throttle_inv (sys_db s)"
        and run: "bindP (lift_result (throttle_identities P tv ip login)) (\<lambda>ks. register_identities P ts ks 0) s = (r, t)"
      show "sys_health t = sys_health s \<and> ((\<exists>a. r = Ok a) \<and> (r, sys_db t) \<in> ?F (sys_db s)
          \<or> (\<exists>e. r = Raise e) \<and> (r, sys_db s) \<in> ?F (sys_db s))"
      proof (cases "throttle_identities P tv ip login")
        case (Inl e)
        with run show ?thesis by (auto simp: prog_simps)
      next
        case (Inr ks)
        then obtain d e where ks: "ks = [(U ''ip'', d), (U ''login'', e)]" using throttle_identities_shape by blast
        have "sys_health t = sys_health s \<and> (r = Raise IntegrityError
           \<or> (\<exists>x. r = Ok x \<and> failure_counted ts (U ''ip'', d) (U ''login'', e) (sys_db s) (seconds x) (sys_db t)))"
          by (rule register_two [OF I]) (use run Inr ks in \<open>simp_all add: prog_simps\<close>)
        with Inr ks show ?thesis by auto
      qed
    qed
    show ?thesis
      unfolding implements_def
    proof (intro allI impI)
      fix s r t
      assume I: "throttle_inv (sys_db s)"
        and run: "bindP (session_scope P (bindP (lift_result (throttle_identities P tv ip login))
           (\<lambda>ks. register_identities P ts ks 0))) (\<lambda>d. ret (seconds d)) s = (r, t)"
      obtain r0 t0 where m: "session_scope P (bindP (lift_result (throttle_identities P tv ip login))
           (\<lambda>ks. register_identities P ts ks 0)) s = (r0, t0)" by fastforce
      from implementsD [OF scope I m] run m show "sys_health t = sys_health s \<and> ((r, sys_db t) \<in>
          (case throttle_identities P tv ip login of Inl e \<Rightarrow> {(Raise e, sys_db s)} | Inr ks \<Rightarrow> register_spec ts ks (sys_db s))
          \<or> \<not> storage_ok P \<and> r = Raise OperationalError \<and> sys_db t = sys_db s)"
        by (cases r0; cases "throttle_identities P tv ip login") (auto simp: prog_simps register_spec_def)
    qed
  qed
  then show ?thesis unfolding register_failure_def by (intro implements_lift) auto
qed

text \<open>The longest wait over the keys of a client, read off the view.\<close>

definition wait_of :: "int \<Rightarrow> throttle_row option \<Rightarrow> int" where
  "wait_of ts r = (case r of None \<Rightarrow> 0 | Some x \<Rightarrow> (case th_blocked_until x of None \<Rightarrow> 0 | Some u \<Rightarrow> max 0 (u - ts)))"

lemma foldr_max_le: "foldr max xs 0 \<le> (m :: int) \<longleftrightarrow> 0 \<le> m \<and> (\<forall>x \<in> set xs. x \<le> m)"
  by (induction xs) auto

lemma foldr_max_nonneg: "0 \<le> foldr max xs (0 :: int)"
  by (induction xs) auto

lemma foldr_max_ge: "x \<in> set xs \<Longrightarrow> x \<le> foldr max xs (0 :: int)"
  by (induction xs) auto

lemma remaining_delays_set:
  "set (remaining_delays ks ts db) = {u - ts | r u. r \<in> set (login_throttles db) \<and> throttle_key r \<in> set ks
     \<and> th_blocked_until r = Some u \<and> ts < u}"
  by (fastforce simp: remaining_delays_def split: option.splits if_splits)

lemma throttle_of_iff:
  assumes "schema_ok db"
  shows "throttle_of db k = Some r \<longleftrightarrow> r \<in> set (login_throttles db) \<and> throttle_key r = k"
proof -
  have "distinct (map throttle_key (login_throttles db))"
    using assms by (simp add: schema_ok_def throttles_ok_def throttle_key_def [abs_def])
  then show ?thesis unfolding throttle_of_def by (auto dest: row_find_SomeD intro: row_find_unique)
qed

lemma remaining_wait:
  assumes "schema_ok db"
  shows "foldr max (remaining_delays [k1, k2] ts db) 0 = max (wait_of ts (throttle_of db k1)) (wait_of ts (throttle_of db k2))"
proof (rule order_antisym)
  have "x \<le> max (wait_of ts (throttle_of db k1)) (wait_of ts (throttle_of db k2))" if "x \<in> set (remaining_delays [k1, k2] ts db)" for x
  proof -
    from that obtain r u where "r \<in> set (login_throttles db)" "throttle_key r = k1 \<or> throttle_key r = k2"
      "th_blocked_until r = Some u" "x = u - ts"
      unfolding remaining_delays_set by auto
    with throttle_of_iff [OF assms, of "throttle_key r" r] show ?thesis by (auto simp: wait_of_def)
  qed
  then show "foldr max (remaining_delays [k1, k2] ts db) 0 \<le> max (wait_of ts (throttle_of db k1)) (wait_of ts (throttle_of db k2))"
    unfolding foldr_max_le by (auto simp: wait_of_def le_max_iff_disj split: option.splits)
  have "wait_of ts (throttle_of db k) \<le> foldr max (remaining_delays [k1, k2] ts db) 0" if "k = k1 \<or> k = k2" for k
  proof (cases "0 < wait_of ts (throttle_of db k)")
    case True
    then obtain r u where "throttle_of db k = Some r" "th_blocked_until r = Some u" "ts < u" "wait_of ts (throttle_of db k) = u - ts"
      by (auto simp: wait_of_def split: option.splits)
    with that throttle_of_iff [OF assms, of k r] have "u - ts \<in> set (remaining_delays [k1, k2] ts db)"
      unfolding remaining_delays_set by auto
    with \<open>wait_of ts (throttle_of db k) = u - ts\<close> show ?thesis by (simp add: foldr_max_ge)
  next
    case False
    then show ?thesis using foldr_max_nonneg [of "remaining_delays [k1, k2] ts db"] by linarith
  qed
  then show "max (wait_of ts (throttle_of db k1)) (wait_of ts (throttle_of db k2)) \<le> foldr max (remaining_delays [k1, k2] ts db) 0"
    by simp
qed

lemma retry_after_refines:
  "implements P throttle_inv (retry_after P tv ip login now) (\<lambda>db. case utc_instant now of
      Inl e \<Rightarrow> {(Raise e, db)}
    | Inr ts \<Rightarrow> (case throttle_identities P tv ip login of Inl e \<Rightarrow> {(Raise e, db)}
       | Inr ks \<Rightarrow> {(Ok (max (wait_of ts (throttle_of db (ks ! 0))) (wait_of ts (throttle_of db (ks ! 1)))), db)}))"
proof -
  have "implements P throttle_inv (session_scope P (bindP get_db (\<lambda>db. ret (foldr max (remaining_delays ks ts db) 0))))
     (\<lambda>db. {(Ok (max (wait_of ts (throttle_of db (ks ! 0))) (wait_of ts (throttle_of db (ks ! 1)))), db)})"
    if "throttle_identities P tv ip login = Inr ks" for ks ts
  proof -
    from throttle_identities_shape [OF that] obtain d e where ks: "ks = [(U ''ip'', d), (U ''login'', e)]" by blast
    show ?thesis unfolding ks
      by (rule implements_session_scope) (auto simp: prog_simps remaining_wait throttle_inv_def)
  qed
  then show ?thesis unfolding retry_after_def by (intro implements_lift) auto
qed

lemma throttle_of_filter:
  "throttle_of (login_throttles_update (filter (\<lambda>r. throttle_key r \<notin> K)) db) = (throttle_of db) |` (- K)"
proof
  fix k
  have "row_find throttle_key k (filter (\<lambda>r. throttle_key r \<notin> K) rs) = (if k \<in> K then None else row_find throttle_key k rs)" for rs
    by (induction rs) (auto simp: row_find_def)
  then show "throttle_of (login_throttles_update (filter (\<lambda>r. throttle_key r \<notin> K)) db) k = ((throttle_of db) |` (- K)) k"
    by (simp add: throttle_of_def restrict_map_def)
qed

lemma throttle_inv_filter:
  assumes "throttle_inv db"
  shows "throttle_inv (login_throttles_update (filter Q) db)"
proof -
  have "throttles_ok (filter Q (login_throttles db))"
    using assms by (simp add: throttle_inv_def schema_ok_def throttles_ok_def list_all_iff distinct_map_filter)
  with assms show ?thesis by (auto simp: throttle_inv_def schema_ok_def)
qed

definition cleared :: "(ustr \<times> bytes) set \<Rightarrow> database \<Rightarrow> database" where
  "cleared K = login_throttles_update (filter (\<lambda>r. throttle_key r \<notin> K))"

lemma throttle_clear_refines:
  "implements P throttle_inv (throttle_clear P tv ip login) (\<lambda>db. case throttle_identities P tv ip login of
      Inl e \<Rightarrow> {(Raise e, db)} | Inr ks \<Rightarrow> {(Ok (), cleared (set ks) db)})"
proof -
  have "implements P throttle_inv (session_scope P (db_update (login_throttles_update (filter (\<lambda>r. throttle_key r \<notin> set ks)))))
     (\<lambda>db. {(Ok (), cleared (set ks) db)})" for ks
    by (rule implements_session_scope) (auto simp: prog_simps cleared_def)
  then show ?thesis unfolding throttle_clear_def by (intro implements_lift) auto
qed

lemma keeps_throttle [keeps_intros]:
  "keeps (on_db throttle_inv) (register_failure P tv ip login now)"
  "keeps (on_db throttle_inv) (retry_after P tv ip login now)"
  "keeps (on_db throttle_inv) (throttle_clear P tv ip login)"
proof -
  show "keeps (on_db throttle_inv) (register_failure P tv ip login now)"
    by (rule implements_keeps [OF register_failure_refines])
      (auto simp: register_spec_def failure_counted_def split: sum.splits)
  show "keeps (on_db throttle_inv) (retry_after P tv ip login now)"
    by (rule implements_keeps [OF retry_after_refines]) (auto split: sum.splits)
  show "keeps (on_db throttle_inv) (throttle_clear P tv ip login)"
    by (rule implements_keeps [OF throttle_clear_refines]) (auto simp: cleared_def throttle_inv_filter split: sum.splits)
qed

section \<open>Consequences\<close>

lemma failure_counted_wait:
  assumes "failure_counted ts k1 k2 db d db'" and "k1 \<noteq> k2"
  shows "max (wait_of ts (throttle_of db' k1)) (wait_of ts (throttle_of db' k2)) = d" "seconds 1 \<le> d" "d \<le> seconds 30"
proof -
  from assms obtain r1 r2 where "throttle_of db' k1 = Some r1" "throttle_of db' k2 = Some r2"
    "blocked_row ts (throttle_of db k1) r1" "blocked_row ts (throttle_of db k2) r2"
    and d: "d = seconds (max (delay_seconds (next_count ts (throttle_of db k1))) (delay_seconds (next_count ts (throttle_of db k2))))"
    by (auto simp: failure_counted_def)
  moreover note b1 = delay_bounds [of "next_count ts (throttle_of db k1)"] and b2 = delay_bounds [of "next_count ts (throttle_of db k2)"]
  ultimately show "max (wait_of ts (throttle_of db' k1)) (wait_of ts (throttle_of db' k2)) = d"
    by (auto simp: wait_of_def blocked_row_def seconds_def max_def)
  from d b1 b2 show "seconds 1 \<le> d" "d \<le> seconds 30" by (auto simp: seconds_def max_def)
qed

text \<open>Failures of one client with gaps inside the decay window: the count is the number of failures.\<close>

fun failure_run :: "int list \<Rightarrow> bool" where
  "failure_run (t # u # ts) \<longleftrightarrow> u - t \<le> DECAY_WINDOW \<and> failure_run (u # ts)"
| "failure_run _ \<longleftrightarrow> True"

lemma failure_run_snoc: "failure_run (ts @ [t, u]) \<longleftrightarrow> failure_run (ts @ [t]) \<and> u - t \<le> DECAY_WINDOW"
  by (induction ts rule: failure_run.induct) auto

definition failures :: "'w platform \<Rightarrow> throttle_service \<Rightarrow> ustr \<Rightarrow> ustr \<Rightarrow> int list \<Rightarrow> ('w, unit) op" where
  "failures P tv ip login = for_each (\<lambda>t. bindP (register_failure P tv ip login (Aware t 0)) (\<lambda>_. ret ()))"

lemma for_each_snoc: "for_each f (xs @ [x]) s = bindP (for_each f xs) (\<lambda>_. f x) s"
proof (induction xs arbitrary: s)
  case Nil
  show ?case by (cases "f x s"; cases "fst (f x s)") (auto simp: prog_defs split: outcome.splits)
next
  case (Cons y ys)
  then show ?case by (auto simp: bindP_def split: prod.splits outcome.splits)
qed

definition run_row :: "nat \<Rightarrow> int \<Rightarrow> throttle_row option \<Rightarrow> bool" where
  "run_row n t r \<longleftrightarrow> (\<exists>x. r = Some x \<and> th_failure_count x = int n \<and> th_last_failed_at x = t
     \<and> th_blocked_until x = Some (t + seconds (min 30 (2 ^ (n - 1)))))"

lemma blocked_run_row:
  assumes "blocked_row t old r" and "old = None \<and> n = 1 \<or> (\<exists>u m. run_row m u old \<and> t - u \<le> DECAY_WINDOW \<and> n = m + 1)"
  shows "run_row n t (Some r)"
  using assms by (auto simp: run_row_def blocked_row_def next_count_def delay_seconds_def MAX_DELAY_SECONDS_def)

lemma failures_run:
  assumes ids: "throttle_identities P tv ip login = Inr [k1, k2]" and ne: "k1 \<noteq> k2" and I: "throttle_inv (sys_db s)"
    and none: "throttle_of (sys_db s) k1 = None" "throttle_of (sys_db s) k2 = None"
    and run: "failures P tv ip login (ts @ [t]) s = (Ok (), s')" and gaps: "failure_run (ts @ [t])"
  shows "throttle_inv (sys_db s') \<and> run_row (length ts + 1) t (throttle_of (sys_db s') k1)
     \<and> run_row (length ts + 1) t (throttle_of (sys_db s') k2)"
  using run gaps
proof (induction ts arbitrary: t s' rule: rev_induct)
  case Nil
  then obtain d where "register_failure P tv ip login (Aware t 0) s = (Ok d, s')"
    by (auto simp: failures_def prog_simps elim!: bindP_OkE)
  with implementsD(2) [OF register_failure_refines I this] ids have "failure_counted t k1 k2 (sys_db s) d (sys_db s')"
    by (auto simp: register_spec_def)
  then show ?case using none ne
    by (auto simp: failure_counted_def intro!: blocked_run_row)
next
  case (snoc u ts)
  then obtain s1 d where s1: "failures P tv ip login (ts @ [u]) s = (Ok (), s1)"
    and d: "register_failure P tv ip login (Aware t 0) s1 = (Ok d, s')"
    unfolding failures_def for_each_snoc [of _ "ts @ [u]"] by (auto simp: prog_simps elim!: bindP_OkE)
  have gap: "failure_run (ts @ [u])" "t - u \<le> DECAY_WINDOW" using snoc.prems(2) by (simp_all add: failure_run_snoc)
  note IH = snoc.IH [OF s1 gap(1)]
  with implementsD(2) [OF register_failure_refines _ d] ids have "failure_counted t k1 k2 (sys_db s1) d (sys_db s')"
    by (auto simp: register_spec_def)
  then obtain r1 r2 where b: "blocked_row t (throttle_of (sys_db s1) k1) r1" "blocked_row t (throttle_of (sys_db s1) k2) r2"
    and v: "throttle_of (sys_db s') = (throttle_of (sys_db s1))(k1 \<mapsto> r1, k2 \<mapsto> r2)" "throttle_inv (sys_db s')"
    by (auto simp: failure_counted_def)
  have "run_row (length (ts @ [u]) + 1) t (Some r1)" "run_row (length (ts @ [u]) + 1) t (Some r2)"
    using blocked_run_row [OF b(1)] blocked_run_row [OF b(2)] IH gap(2) by auto
  with v ne show ?case by simp
qed

lemma run_row_wait: "run_row n t r \<Longrightarrow> wait_of t r = seconds (min 30 (2 ^ (n - 1)))"
  by (auto simp: run_row_def wait_of_def seconds_def max_def min_def)

end
