(* ===== verification/Security_Properties.thy ===== *)
theory Security_Properties
  imports Simulation Sessions Throttle
begin

text \<open>
  What the administrator's security rests on: a session is accepted exactly while it lives, a reset or an
  expiry is final, the credentials of the one administrator open the panel, and the throttle slows
  down whoever guesses. The witnesses use the simulated platform with one administrator.
\<close>

section \<open>A simulated administrator\<close>

definition sim_sessions :: session_service where
  "sim_sessions = \<lparr>sv_session_key = replicate 32 3, sv_csrf_key = replicate 32 4, sv_idle_duration = 43200000000,
     sv_absolute_duration = 604800000000\<rparr>"

definition sim_admin :: admin_row where
  "sim_admin = new_admin_row 5 (U ''root'') (U ''correct horse battery'') 100"

definition sim_guarded :: "sim_world sys" where
  "sim_guarded = sim_start\<lparr>sys_db := empty_database\<lparr>admins := [sim_admin]\<rparr>\<rparr>"

definition sim_throttle :: throttle_service where
  "sim_throttle = \<lparr>tv_ip_key = replicate 32 5, tv_login_key = replicate 32 6\<rparr>"

lemma sim_insert_admin: "insert_admin sim_admin empty_database = Inr (empty_database\<lparr>admins := [sim_admin]\<rparr>)"
  unfolding sim_admin_def by (rule insert_admin_first) (simp_all add: empty_database_def U_def)

lemma sim_guarded_inv: "session_inv (sys_db sim_guarded)" "repo_inv (sys_db sim_guarded)" "throttle_inv (sys_db sim_guarded)"
proof -
  have "schema_ok (empty_database\<lparr>admins := [sim_admin]\<rparr>)"
    using schema_ok_insert(1) [OF schema_ok_empty sim_insert_admin] .
  then show "session_inv (sys_db sim_guarded)" "repo_inv (sys_db sim_guarded)" "throttle_inv (sys_db sim_guarded)"
    by (simp_all add: sim_guarded_def session_inv_def repo_inv_def throttle_inv_def)
      (simp_all add: sim_admin_def new_admin_row_def empty_database_def)
qed

lemma sim_argon2: "hashes sim pw = {pw}" "hash_errors sim pw = {}" "argon2_ok sim"
  by (auto simp: hashes_def hash_errors_def argon2_ok_def sim_def)

section \<open>Sessions\<close>

text \<open>
  C17: a session is accepted exactly while it lives: its row is not revoked, neither deadline has passed and the
  administrator's session version is still the one it was created with. The identity that is returned is
  that of the row and its administrator.
\<close>

theorem session_accepted_iff_live:
  assumes "storage_ok P" and "session_inv (sys_db s)"
  shows "(\<exists>identity t. session_authenticate P sv token (Aware now 0) s = (Ok (Some identity), t)
       \<and> uuid_str (si_session_id identity) = sid \<and> uuid_str (si_admin_id identity) = aid)
     \<longleftrightarrow> token_text_ok token \<and> (\<exists>r a. session_at (sys_db s) (hmac_sha256 P (sv_session_key sv) (ascii_bytes token)) = Some r
        \<and> row_find ad_id (se_admin_id r) (admins (sys_db s)) = Some a \<and> se_id r = sid \<and> ad_id a = aid
        \<and> se_revoked_at r = None \<and> now < se_idle_expires_at r \<and> now < se_absolute_expires_at r
        \<and> se_session_version r = ad_session_version a)"
proof -
  obtain x t where run: "session_authenticate P sv token (Aware now 0) s = (x, t)" by fastforce
  from implementsD_ok [OF authenticate_refines assms run] have x: "(x, sys_db t) = authenticate_spec P sv token now (sys_db s)" by simp
  have ids: "uuid_str (si_session_id (row_identity r a)) = se_id r" "uuid_str (si_admin_id (row_identity r a)) = ad_id a"
    if "session_at (sys_db s) d = Some r" "row_find ad_id k (admins (sys_db s)) = Some a" for r a d k
    using assms(2) that unfolding session_at_def session_inv_def
    by (auto simp: row_identity_def f_inv_into_f dest!: row_find_SomeD)
  show ?thesis
    using x ids by (auto simp: run authenticate_spec_def digest_text_def session_live_def split: option.splits if_splits)
qed

theorem session_accepted_iff_live_witness:
  "\<not> (\<exists>identity t. session_authenticate sim sim_sessions (U ''guess'') (Aware 7 0) sim_guarded = (Ok (Some identity), t)
       \<and> uuid_str (si_session_id identity) = uuid_str 1 \<and> uuid_str (si_admin_id identity) = uuid_str 5)"
  unfolding session_accepted_iff_live [OF sim_storage_ok sim_guarded_inv(1)]
  by (simp add: sim_guarded_def session_at_def row_find_def empty_database_def)

text \<open>
  C18: a granted session opens: until it idles out, its token authenticates as the administrator it was granted
  to, and its CSRF token is accepted for that identity.
\<close>

theorem granted_session_opens:
  assumes "storage_ok P" and "random_ok P" and "session_inv (sys_db s)" and "make_session_service P key idle absolute = Inr sv"
    and "now < start + idle"
  shows "case session_create P sv (uuid_str admin_id) (Aware start 0) s of
     (Ok g, t) \<Rightarrow> (\<exists>identity t'. session_authenticate P sv (gr_raw_token g) (Aware now 0) t = (Ok (Some identity), t')
        \<and> si_session_id identity = gr_session_id g \<and> si_admin_id identity = admin_id
        \<and> validate_csrf P sv identity (gr_csrf_token g))
   | (Raise e, t) \<Rightarrow> sys_db t = sys_db s
   | (Stuck, t) \<Rightarrow> False"
proof (cases "session_create P sv (uuid_str admin_id) (Aware start 0) s")
  case run: (Pair x t)
  have sv: "0 < sv_idle_duration sv" "sv_idle_duration sv \<le> sv_absolute_duration sv" "sv_idle_duration sv = idle"
    using assms(4) by (auto simp: make_session_service_def bind_sum_eq_Inr split: if_splits)
  show ?thesis
  proof (cases x)
    case (Ok g)
    with run have create: "session_create P sv (uuid_str admin_id) (Aware start 0) s = (Ok g, t)" by simp
    obtain ts a r where ts: "utc_instant (Aware start 0) = Inr ts" and r: "session_at (sys_db t) (digest_text P sv (gr_raw_token g)) = Some r"
      and admin: "row_find ad_id (uuid_str admin_id) (admins (sys_db s)) = Some a"
      and live: "\<forall>u < ts + sv_idle_duration sv. session_live (sys_db t) u r a"
      and ident: "row_identity r a = \<lparr>si_session_id = gr_session_id g, si_admin_id = admin_id, si_login = ad_login a,
         si_csrf_digest = csrf_text P sv (gr_csrf_token g)\<rparr>"
      and expiry: "se_absolute_expires_at r = gr_absolute_expires_at g" "gr_absolute_expires_at g = ts + sv_absolute_duration sv"
      by (rule granted_session [OF assms(3) create sv(1,2)])
    note tok = granted_token_text [OF assms(2) create]
    have I: "session_inv (sys_db t)" using keepsD_eq [OF inv_operations(4) create] assms(3) by (simp add: on_db_def)
    obtain y t' where auth: "session_authenticate P sv (gr_raw_token g) (Aware now 0) t = (y, t')" by fastforce
    from implementsD_ok [OF authenticate_refines assms(1) I auth]
    have "(y, sys_db t') = authenticate_spec P sv (gr_raw_token g) now (sys_db t)" by simp
    with r live ts assms(5) sv tok have "y = Ok (Some (row_identity r a))"
      by (auto simp: authenticate_spec_def session_live_def)
    moreover have "validate_csrf P sv (row_identity r a) (gr_csrf_token g)"
      using tok(2) by (simp add: validate_csrf_def ident csrf_digest_ok token_text_ok_def)
    ultimately show ?thesis using auth by (simp add: run Ok ident)
  next
    case (Raise e)
    with run have "sys_db t = sys_db s" by (auto intro: session_create_Raise)
    with run Raise show ?thesis by simp
  next
    case Stuck
    with run returnsD [OF returns_sessions(1)] show ?thesis by fastforce
  qed
qed

theorem granted_session_opens_witness:
  "case session_create sim \<lparr>sv_session_key = sim_hmac (replicate 32 1) SESSION_LABEL, sv_csrf_key = sim_hmac (replicate 32 1) CSRF_LABEL,
       sv_idle_duration = 60, sv_absolute_duration = 100\<rparr> (uuid_str 5) (Aware 1000 0) sim_guarded of
     (Ok g, t) \<Rightarrow> (\<exists>identity t'. session_authenticate sim \<lparr>sv_session_key = sim_hmac (replicate 32 1) SESSION_LABEL,
         sv_csrf_key = sim_hmac (replicate 32 1) CSRF_LABEL, sv_idle_duration = 60, sv_absolute_duration = 100\<rparr>
         (gr_raw_token g) (Aware 1059 0) t = (Ok (Some identity), t')
        \<and> si_session_id identity = gr_session_id g \<and> si_admin_id identity = 5
        \<and> validate_csrf sim \<lparr>sv_session_key = sim_hmac (replicate 32 1) SESSION_LABEL,
           sv_csrf_key = sim_hmac (replicate 32 1) CSRF_LABEL, sv_idle_duration = 60, sv_absolute_duration = 100\<rparr> identity (gr_csrf_token g))
   | (Raise e, t) \<Rightarrow> sys_db t = sys_db sim_guarded
   | (Stuck, t) \<Rightarrow> False"
  by (rule granted_session_opens [OF sim_storage_ok sim_random_ok sim_guarded_inv(1), of "replicate 32 1" 60 100])
    (simp_all add: make_session_service_def derive_key_def, simp add: sim_def)

text \<open>
  C19: a password reset is final for every session that exists: whatever operations of the security package follow, in any
  order and with any outcome, none of those sessions is accepted again.
\<close>

theorem reset_ends_sessions:
  assumes "session_inv (sys_db s)"
  shows "case reset_password P pw (Some now) s of
     (Ok u, t) \<Rightarrow> (\<forall>token later identity. session_at (sys_db t) (hmac_sha256 P (sv_session_key sv) (ascii_bytes token)) \<noteq> None \<longrightarrow>
        fst (session_authenticate P sv token later (snd (security_history P dummy sv cmds t))) \<noteq> Ok (Some identity))
   | (Raise e, t) \<Rightarrow> sys_db t = sys_db s
   | (Stuck, t) \<Rightarrow> False"
proof (cases "reset_password P pw (Some now) s")
  case run: (Pair x t)
  have ok: "schema_ok (sys_db s)" using assms by (simp add: session_inv_def)
  note spec = implementsD(2) [OF reset_password_refines ok run]
  show ?thesis
  proof (cases x)
    case (Ok u)
    have "fst (session_authenticate P sv token later (snd (security_history P dummy sv cmds t))) \<noteq> Ok (Some identity)"
      if known: "session_at (sys_db t) (digest_text P sv token) \<noteq> None" for token later identity
    proof
      let ?t = "snd (security_history P dummy sv cmds t)"
      assume acc: "fst (session_authenticate P sv token later ?t) = Ok (Some identity)"
      have I: "session_inv (sys_db t)" using keepsD_eq [OF inv_operations(3) run] assms by (simp add: on_db_def)
      obtain r where r: "session_at (sys_db t) (digest_text P sv token) = Some r" using known by blast
      then have "r \<in> set (admin_sessions (sys_db t))" unfolding session_at_def by (auto dest: row_find_SomeD)
      then have "session_fact (\<lambda>r. se_revoked_at r \<noteq> None) (digest_text P sv token) (sys_db t)"
        using reset_revokes [OF ok] run Ok r by (auto simp: session_fact_def)
      then have "session_fact (\<lambda>r. se_revoked_at r \<noteq> None) (digest_text P sv token) (sys_db ?t)"
        using keepsD [OF history_keeps(3) [OF stable_revoked], of "digest_text P sv token" t P dummy sv cmds] by (simp add: on_db_def)
      moreover have "session_inv (sys_db ?t)" using keepsD [OF history_keeps(1), of t P dummy sv cmds] I by (simp add: on_db_def)
      ultimately show False
        using revoked_refused [of ?t P sv token later identity] acc by (metis prod.collapse)
    qed
    then show ?thesis by (simp add: run Ok digest_text_def)
  next
    case (Raise e)
    with run spec show ?thesis by (auto simp: reset_spec_def split: sum.splits list.splits)
  next
    case Stuck
    with spec show ?thesis by (auto simp: reset_spec_def split: sum.splits list.splits)
  qed
qed

theorem reset_ends_sessions_witness:
  "case reset_password sim (U ''another long password'') (Some (Aware 2000 0)) sim_guarded of
     (Ok u, t) \<Rightarrow> (\<forall>token later identity. session_at (sys_db t) (hmac_sha256 sim (sv_session_key sim_sessions) (ascii_bytes token)) \<noteq> None \<longrightarrow>
        fst (session_authenticate sim sim_sessions token later (snd (security_history sim [] sim_sessions [RevokeSession 3 (Aware 5 0)] t)))
          \<noteq> Ok (Some identity))
   | (Raise e, t) \<Rightarrow> sys_db t = sys_db sim_guarded
   | (Stuck, t) \<Rightarrow> False"
  by (rule reset_ends_sessions [OF sim_guarded_inv(1)])

text \<open>
  C20: no session outlives its absolute deadline: from the grant on, whatever operations run, the token is refused at and
  after the expiry that the grant states.
\<close>

theorem session_expires:
  assumes "session_inv (sys_db s)" and "make_session_service P key idle absolute = Inr sv"
  shows "case session_create P sv (uuid_str admin_id) (Aware start 0) s of
     (Ok g, t) \<Rightarrow> gr_absolute_expires_at g = start + absolute
        \<and> (\<forall>now identity. start + absolute \<le> now \<longrightarrow>
             fst (session_authenticate P sv (gr_raw_token g) (Aware now 0) (snd (security_history P dummy sv cmds t))) \<noteq> Ok (Some identity))
   | _ \<Rightarrow> True"
proof (cases "session_create P sv (uuid_str admin_id) (Aware start 0) s")
  case run: (Pair x t)
  have sv: "0 < sv_idle_duration sv" "sv_idle_duration sv \<le> sv_absolute_duration sv" "sv_absolute_duration sv = absolute"
    using assms(2) by (auto simp: make_session_service_def bind_sum_eq_Inr split: if_splits)
  show ?thesis
  proof (cases x)
    case (Ok g)
    with run have create: "session_create P sv (uuid_str admin_id) (Aware start 0) s = (Ok g, t)" by simp
    let ?d = "digest_text P sv (gr_raw_token g)" and ?t = "snd (security_history P dummy sv cmds t)"
    obtain ts r where ts: "utc_instant (Aware start 0) = Inr ts" and "session_at (sys_db t) ?d = Some r"
      "se_absolute_expires_at r = gr_absolute_expires_at g" and g: "gr_absolute_expires_at g = ts + sv_absolute_duration sv"
      using granted_session [OF assms(1) create sv(1,2)] by metis
    then have "session_fact (\<lambda>x. se_absolute_expires_at x = start + absolute \<and> se_csrf_digest x = se_csrf_digest r) ?d (sys_db t)"
      using ts sv(3) by (auto simp: session_fact_def)
    then have fact: "session_fact (\<lambda>x. se_absolute_expires_at x = start + absolute \<and> se_csrf_digest x = se_csrf_digest r) ?d (sys_db ?t)"
      using keepsD [OF history_keeps(3) [OF stable_absolute], of "start + absolute" "se_csrf_digest r" ?d t P dummy sv cmds] by (simp add: on_db_def)
    have I: "session_inv (sys_db ?t)"
      using keepsD_eq [OF inv_operations(4) create] keepsD [OF history_keeps(1), of t P dummy sv cmds] assms(1) by (simp add: on_db_def)
    have "fst (session_authenticate P sv (gr_raw_token g) (Aware now 0) ?t) \<noteq> Ok (Some identity)" if "start + absolute \<le> now" for now identity
    proof
      assume acc: "fst (session_authenticate P sv (gr_raw_token g) (Aware now 0) ?t) = Ok (Some identity)"
      obtain u where u: "session_authenticate P sv (gr_raw_token g) (Aware now 0) ?t = (Ok (Some identity), u)"
        using acc by (metis prod.collapse)
      obtain ts' r' a' where "utc_instant (Aware now 0) = Inr ts'" "session_at (sys_db ?t) ?d = Some r'" "session_live (sys_db ?t) ts' r' a'"
        using I u by (rule authenticate_Some)
      with fact that show False by (auto simp: session_fact_def session_live_def)
    qed
    moreover have "gr_absolute_expires_at g = start + absolute" using g ts sv(3) by simp
    ultimately show ?thesis by (simp add: run Ok)
  qed (simp_all add: run)
qed

theorem session_expires_witness:
  "case session_create sim \<lparr>sv_session_key = sim_hmac (replicate 32 1) SESSION_LABEL, sv_csrf_key = sim_hmac (replicate 32 1) CSRF_LABEL,
       sv_idle_duration = 60, sv_absolute_duration = 100\<rparr> (uuid_str 5) (Aware 1000 0) sim_guarded of
     (Ok g, t) \<Rightarrow> gr_absolute_expires_at g = 1000 + 100
        \<and> (\<forall>now identity. 1000 + 100 \<le> now \<longrightarrow>
             fst (session_authenticate sim \<lparr>sv_session_key = sim_hmac (replicate 32 1) SESSION_LABEL,
               sv_csrf_key = sim_hmac (replicate 32 1) CSRF_LABEL, sv_idle_duration = 60, sv_absolute_duration = 100\<rparr>
               (gr_raw_token g) (Aware now 0) (snd (security_history sim [] \<lparr>sv_session_key = sim_hmac (replicate 32 1) SESSION_LABEL,
               sv_csrf_key = sim_hmac (replicate 32 1) CSRF_LABEL, sv_idle_duration = 60, sv_absolute_duration = 100\<rparr> [] t))) \<noteq> Ok (Some identity))
   | _ \<Rightarrow> True"
  by (rule session_expires [OF sim_guarded_inv(1), of sim "replicate 32 1" 60 100])
    (simp add: make_session_service_def derive_key_def, simp add: sim_def)

text \<open>
  C21: the security package leaves the profiles alone and its own tables sound: after any sequence of its operations the store
  satisfies its invariant, holds the same profiles, and has at most one administrator.
\<close>

theorem security_preserves:
  assumes "on_db repo_inv s" and "on_db session_inv s"
  shows "case security_history P dummy sv cmds s of (x, t) \<Rightarrow> on_db repo_inv t \<and> on_db session_inv t
     \<and> profile_of (sys_db t) = profile_of (sys_db s) \<and> length (admins (sys_db t)) \<le> 1"
proof (cases "security_history P dummy sv cmds s")
  case (Pair x t)
  have "on_db (security_frame (sys_db s)) s" using assms(1) by (simp add: on_db_def security_frame_def same_profiles_def repo_inv_schema)
  with keepsD_eq [OF history_keeps(2) Pair] have f: "security_frame (sys_db s) (sys_db t)" by (simp add: on_db_def)
  moreover have "on_db session_inv t" using keepsD_eq [OF history_keeps(1) Pair assms(2)] .
  moreover have "length (admins (sys_db t)) \<le> 1" using single_admin [of "sys_db t"] f by (auto simp: security_frame_def)
  ultimately show ?thesis
    using security_frame_profiles [of "sys_db s" "sys_db t"] assms(1) Pair by (simp add: on_db_def)
qed

theorem security_preserves_witness:
  "case security_history sim [] sim_sessions [CreateInitial (U ''eve'') (U ''a long enough password''), Authenticate (U ''x'') (Aware 1 0)] sim_guarded of
     (x, t) \<Rightarrow> on_db repo_inv t \<and> on_db session_inv t \<and> profile_of (sys_db t) = profile_of (sys_db sim_guarded) \<and> length (admins (sys_db t)) \<le> 1"
  by (rule security_preserves) (simp_all add: on_db_def sim_guarded_inv)

section \<open>The administrator\<close>

text \<open>
  The panel has one administrator: with one stored, every attempt to create another is refused and changes nothing.
\<close>

lemma second_admin_refused:
  assumes "storage_ok P" and "schema_ok (sys_db s)" and "admins (sys_db s) \<noteq> []"
  shows "case create_initial P login pw s of (x, t) \<Rightarrow> sys_db t = sys_db s
     \<and> (\<exists>e. x = Raise e \<and> e \<in> {InvalidAdminInput, AdminAlreadyExists} \<union> hash_errors P pw)"
proof (cases "create_initial P login pw s")
  case (Pair x t)
  have taken: "insert_admin (new_admin_row i n h ts) (sys_db s) = Inl IntegrityError" for i n h ts
    by (rule insert_admin_taken [OF assms(2,3)]) (simp add: new_admin_row_def)
  from implementsD_ok [OF create_initial_refines assms(1,2) Pair] taken Pair show ?thesis
    by (auto simp: created_admin_spec_def dest: admin_input_errors split: sum.splits)
qed

text \<open>
  C23: credentials decide the login: only the stored login whose hash matches the password is accepted, the acceptance records the
  time and nothing else but a renewed hash of the same password, and every refusal leaves the database alone.
\<close>

theorem credentials_decide:
  assumes "storage_ok P" and "schema_ok (sys_db s)"
  shows "case verify_credentials P dummy login pw (Aware now 0) s of
     (Ok (Some a), t) \<Rightarrow> (\<exists>n old h. normalize_login P login = Inr n \<and> old \<in> set (admins (sys_db s)) \<and> ad_login old = n
        \<and> argon2_verify P (ad_password_hash old) pw = Argon2Match
        \<and> a = old\<lparr>ad_password_hash := h, ad_last_login_at := Some now, ad_updated_at := now\<rparr>
        \<and> (h = ad_password_hash old \<or> argon2_needs_rehash P (ad_password_hash old) \<and> h \<in> hashes P pw)
        \<and> sys_db t = (sys_db s)\<lparr>admins := [a]\<rparr>)
   | (Ok None, t) \<Rightarrow> sys_db t = sys_db s \<and> (\<forall>n old. normalize_login P login = Inr n \<longrightarrow> old \<in> set (admins (sys_db s)) \<longrightarrow>
        ad_login old = n \<longrightarrow> argon2_verify P (ad_password_hash old) pw \<noteq> Argon2Match)
   | (_, t) \<Rightarrow> sys_db t = sys_db s"
proof (cases "verify_credentials P dummy login pw (Aware now 0) s")
  case run: (Pair x t)
  from implementsD_ok [OF verify_credentials_refines assms run]
  have spec: "(x, sys_db t) \<in> login_spec P dummy login pw now (sys_db s)" by simp
  from single_admin [OF assms(2)] show ?thesis
  proof
    assume "admins (sys_db s) = []"
    with spec run show ?thesis
      by (cases "password_verify P dummy pw") (auto simp: login_spec_def rejected_login_def row_find_def split: sum.splits)
  next
    assume "\<exists>a. admins (sys_db s) = [a]"
    then obtain a where a: "admins (sys_db s) = [a]" by blast
    then have with_a: "with_admin a f (sys_db s) = (sys_db s)\<lparr>admins := [f a]\<rparr>" for f
      by (simp add: with_admin_def row_update_def)
    show ?thesis
    proof (cases "normalize_login P login = Inr (ad_login a) \<and> argon2_verify P (ad_password_hash a) pw = Argon2Match")
      case False
      then have "(x, sys_db t) \<in> rejected_login P dummy pw (sys_db s) \<or> argon2_verify P (ad_password_hash a) pw \<noteq> Argon2Match
          \<and> (x, sys_db t) \<in> rejected_login P (ad_password_hash a) pw (sys_db s)"
        using spec a by (auto simp: login_spec_def row_find_def split: sum.splits if_splits)
      with False run a show ?thesis
        by (cases "password_verify P dummy pw"; cases "password_verify P (ad_password_hash a) pw") (auto simp: rejected_login_def)
    next
      case True
      with spec a have "(x, sys_db t) \<in> accepted_login P pw now a (sys_db s)" by (simp add: login_spec_def row_find_def)
      with True run a with_a show ?thesis
        by (auto simp: accepted_login_def record_login_def split: if_splits)
    qed
  qed
qed

theorem credentials_decide_witness:
  "case verify_credentials sim [] (U ''mallory'') (U ''wrong'') (Aware 9 0) sim_guarded of
     (Ok (Some a), t) \<Rightarrow> (\<exists>n old h. normalize_login sim (U ''mallory'') = Inr n \<and> old \<in> set (admins (sys_db sim_guarded)) \<and> ad_login old = n
        \<and> argon2_verify sim (ad_password_hash old) (U ''wrong'') = Argon2Match
        \<and> a = old\<lparr>ad_password_hash := h, ad_last_login_at := Some 9, ad_updated_at := 9\<rparr>
        \<and> (h = ad_password_hash old \<or> argon2_needs_rehash sim (ad_password_hash old) \<and> h \<in> hashes sim (U ''wrong''))
        \<and> sys_db t = (sys_db sim_guarded)\<lparr>admins := [a]\<rparr>)
   | (Ok None, t) \<Rightarrow> sys_db t = sys_db sim_guarded \<and> (\<forall>n old. normalize_login sim (U ''mallory'') = Inr n \<longrightarrow> old \<in> set (admins (sys_db sim_guarded)) \<longrightarrow>
        ad_login old = n \<longrightarrow> argon2_verify sim (ad_password_hash old) (U ''wrong'') \<noteq> Argon2Match)
   | (_, t) \<Rightarrow> sys_db t = sys_db sim_guarded"
  by (rule credentials_decide [OF sim_storage_ok]) (use sim_guarded_inv(1) in \<open>simp add: session_inv_def\<close>)

section \<open>The throttle\<close>

text \<open>
  C24: a counted failure blocks its client for as long as it says: the delay it returns is between one and thirty seconds, and asking
  at the same instant how long to wait gives that very delay.
\<close>

theorem failure_blocks:
  assumes "storage_ok P" and "throttle_inv (sys_db s)"
  shows "case register_failure P tv ip login (Aware now 0) s of
     (Ok d, t) \<Rightarrow> seconds 1 \<le> d \<and> d \<le> seconds 30 \<and> fst (retry_after P tv ip login (Aware now 0) t) = Ok d
       \<and> profile_of (sys_db t) = profile_of (sys_db s)
   | (_, t) \<Rightarrow> sys_db t = sys_db s"
proof (cases "register_failure P tv ip login (Aware now 0) s")
  case run: (Pair x t)
  note spec = implementsD_ok [OF register_failure_refines assms run]
  show ?thesis
  proof (cases "throttle_identities P tv ip login")
    case (Inl e)
    with spec run show ?thesis by auto
  next
    case (Inr ks)
    then obtain k1 k2 where ks: "ks = [k1, k2]" and ne: "k1 \<noteq> k2" using throttle_identities_shape [OF Inr] by auto
    show ?thesis
    proof (cases x)
      case (Ok d)
      with spec Inr ks have c: "failure_counted now k1 k2 (sys_db s) d (sys_db t)" by (auto simp: register_spec_def)
      then have I: "throttle_inv (sys_db t)" and same: "same_profiles (sys_db s) (sys_db t)" by (auto simp: failure_counted_def)
      obtain y u where "retry_after P tv ip login (Aware now 0) t = (y, u)" by fastforce
      with implementsD_ok [OF retry_after_refines assms(1) I this] Inr ks failure_counted_wait [OF c ne] same_profiles_view [OF same]
      show ?thesis by (simp add: run Ok)
    qed (use spec Inr ks run in \<open>auto simp: register_spec_def\<close>)
  qed
qed

theorem failure_blocks_witness:
  "case register_failure sim sim_throttle (U ''203.0.113.9'') (U ''root'') (Aware 77 0) sim_guarded of
     (Ok d, t) \<Rightarrow> seconds 1 \<le> d \<and> d \<le> seconds 30 \<and> fst (retry_after sim sim_throttle (U ''203.0.113.9'') (U ''root'') (Aware 77 0) t) = Ok d
       \<and> profile_of (sys_db t) = profile_of (sys_db sim_guarded)
   | (_, t) \<Rightarrow> sys_db t = sys_db sim_guarded"
  by (rule failure_blocks [OF sim_storage_ok sim_guarded_inv(3)])

text \<open>
  C25: the delay doubles with every failure: after \<open>n\<close> failures of one client, each within a quarter of an hour of the one before, the wait
  at the last of them is the smaller of thirty and \<open>2 ^ (n - 1)\<close> seconds.
\<close>

theorem failures_double:
  assumes "storage_ok P" and "throttle_inv (sys_db s)" and "throttle_identities P tv ip login = Inr [k1, k2]"
    and "throttle_of (sys_db s) k1 = None" and "throttle_of (sys_db s) k2 = None" and "failure_run (before @ [now])"
  shows "case failures P tv ip login (before @ [now]) s of
     (Ok u, t) \<Rightarrow> fst (retry_after P tv ip login (Aware now 0) t) = Ok (seconds (min 30 (2 ^ length before)))
   | _ \<Rightarrow> True"
proof (cases "failures P tv ip login (before @ [now]) s")
  case run: (Pair x t)
  have ne: "k1 \<noteq> k2" using throttle_identities_shape [OF assms(3)] by auto
  show ?thesis
  proof (cases x)
    case (Ok u)
    with failures_run [OF assms(3) ne assms(2,4,5) _ assms(6)] run
    have I: "throttle_inv (sys_db t)" and rows: "run_row (length before + 1) now (throttle_of (sys_db t) k1)"
      "run_row (length before + 1) now (throttle_of (sys_db t) k2)" by auto
    obtain y u' where "retry_after P tv ip login (Aware now 0) t = (y, u')" by fastforce
    with implementsD_ok [OF retry_after_refines assms(1) I this] assms(3) run_row_wait [OF rows(1)] run_row_wait [OF rows(2)]
    show ?thesis by (simp add: run Ok)
  qed (simp_all add: run)
qed

theorem failures_double_witness:
  "case failures sim sim_throttle (U ''203.0.113.9'') (U ''root'') ([10, 20, 30] @ [40]) sim_guarded of
     (Ok u, t) \<Rightarrow> fst (retry_after sim sim_throttle (U ''203.0.113.9'') (U ''root'') (Aware 40 0) t) = Ok (seconds (min 30 (2 ^ length [10 :: int, 20, 30])))
   | _ \<Rightarrow> True"
proof -
  have "\<exists>ks. throttle_identities sim sim_throttle (U ''203.0.113.9'') (U ''root'') = Inr ks"
    by (simp add: throttle_identities_def normalized_peer_def ip_address_def parse_ipv4_def parse_octet_def is_digit_def
        strip_def isspace_def U_def sim_def utf8_char_def encode_ascii_def digits_nat_def those_def)
  then obtain k1 k2 where "throttle_identities sim sim_throttle (U ''203.0.113.9'') (U ''root'') = Inr [k1, k2]"
    using throttle_identities_shape by blast
  moreover have "throttle_of (sys_db sim_guarded) k = None" for k
    by (simp add: throttle_of_def sim_guarded_def empty_database_def row_find_def)
  ultimately show ?thesis
    by (intro failures_double [OF sim_storage_ok sim_guarded_inv(3)]) (simp_all add: DECAY_WINDOW_def seconds_def)
qed

text \<open>
  A success forgives: clearing a client leaves it nothing to wait for, at any time, and leaves the records of the others alone.
\<close>

lemma clear_forgives:
  assumes "storage_ok P" and "throttle_inv (sys_db s)"
  shows "case throttle_clear P tv ip login s of
     (Ok u, t) \<Rightarrow> fst (retry_after P tv ip login (Aware now 0) t) = Ok 0
       \<and> (\<exists>ks. throttle_identities P tv ip login = Inr ks \<and> throttle_of (sys_db t) = (throttle_of (sys_db s)) |` (- set ks))
   | (_, t) \<Rightarrow> sys_db t = sys_db s"
proof (cases "throttle_clear P tv ip login s")
  case run: (Pair x t)
  note spec = implementsD_ok [OF throttle_clear_refines assms run]
  show ?thesis
  proof (cases "throttle_identities P tv ip login")
    case (Inl e)
    with spec run show ?thesis by auto
  next
    case (Inr ks)
    then obtain k1 k2 where ks: "ks = [k1, k2]" using throttle_identities_shape by blast
    from spec Inr have x: "x = Ok ()" and t: "sys_db t = cleared (set ks) (sys_db s)" by auto
    have view: "throttle_of (sys_db t) = (throttle_of (sys_db s)) |` (- set ks)" by (simp add: t cleared_def throttle_of_filter)
    have I: "throttle_inv (sys_db t)" using assms(2) by (simp add: t cleared_def throttle_inv_filter)
    obtain y u where "retry_after P tv ip login (Aware now 0) t = (y, u)" by fastforce
    with implementsD_ok [OF retry_after_refines assms(1) I this] Inr ks view show ?thesis
      by (simp add: run x wait_of_def)
  qed
qed



end
