(* ===== verification/Json.thy ===== *)
theory Json
  imports Url_Text Ip_Address "HOL-Library.AList"
begin

text \<open>
  The part of Python's \<^verbatim>\<open>json\<close> module that the program uses: \<open>json_loads\<close> on text and \<open>json_loads_bytes\<close>
  on bytes, after \<^verbatim>\<open>json/decoder.py\<close> and \<^verbatim>\<open>json/scanner.py\<close>. A number with a fraction or an exponent and the
  three constants are kept as their token; an object keeps the position of the first and the value of
  the last member of a key. Containers nest as deep as the interpreter's stack allows: the budget is an
  argument, and going past it is \<open>RecursionError\<close>. The loops over members and elements take the length of
  the text as fuel; \<open>json_members_fuel\<close> and \<open>json_elements_fuel\<close> show that more makes no difference.
  \<open>json_dumps\<close> writes a flat object of texts; \<open>loads_dumps\<close> reads it back.
\<close>

section \<open>Decoding bytes\<close>

text \<open>\<^verbatim>\<open>bytes.decode(encoding, 'surrogatepass')\<close> for the encodings that JSON text may have.\<close>

definition cont_byte :: "nat \<Rightarrow> bool" where
  "cont_byte b \<longleftrightarrow> 128 \<le> b \<and> b \<le> 191"

fun utf8_decode :: "nat list \<Rightarrow> exn + ustr" where
  "utf8_decode [] = Inr []"
| "utf8_decode (a # bs) =
     (if a < 128 then bind_sum (utf8_decode bs) (\<lambda>t. Inr (a # t))
      else if 194 \<le> a \<and> a \<le> 223 then (case bs of
          b # r \<Rightarrow> if cont_byte b then bind_sum (utf8_decode r) (\<lambda>t. Inr (((a - 192) * 64 + (b - 128)) # t)) else Inl UnicodeError
        | _ \<Rightarrow> Inl UnicodeError)
      else if 224 \<le> a \<and> a \<le> 239 then (case bs of
          b # c # r \<Rightarrow>
            let u = (a - 224) * 4096 + (b - 128) * 64 + (c - 128) in
            if cont_byte b \<and> cont_byte c \<and> 2048 \<le> u then bind_sum (utf8_decode r) (\<lambda>t. Inr (u # t)) else Inl UnicodeError
        | _ \<Rightarrow> Inl UnicodeError)
      else if 240 \<le> a \<and> a \<le> 244 then (case bs of
          b # c # d # r \<Rightarrow>
            let u = (a - 240) * 262144 + (b - 128) * 4096 + (c - 128) * 64 + (d - 128) in
            if cont_byte b \<and> cont_byte c \<and> cont_byte d \<and> 65536 \<le> u \<and> u < 1114112
            then bind_sum (utf8_decode r) (\<lambda>t. Inr (u # t)) else Inl UnicodeError
        | _ \<Rightarrow> Inl UnicodeError)
      else Inl UnicodeError)"

fun join_surrogates :: "ustr \<Rightarrow> ustr" where
  "join_surrogates (h # l # r) =
     (if 55296 \<le> h \<and> h \<le> 56319 \<and> 56320 \<le> l \<and> l \<le> 57343
      then (65536 + (h - 55296) * 1024 + (l - 56320)) # join_surrogates r else h # join_surrogates (l # r))"
| "join_surrogates r = r"

definition utf16_decode :: "bool \<Rightarrow> nat list \<Rightarrow> exn + ustr" where
  "utf16_decode big bs = (if odd (length bs) then Inl UnicodeError
     else Inr (join_surrogates (map (\<lambda>u. digits_nat 256 (if big then u else rev u)) (chunks 2 bs))))"

definition utf32_decode :: "bool \<Rightarrow> nat list \<Rightarrow> exn + ustr" where
  "utf32_decode big bs = (let cs = map (\<lambda>u. digits_nat 256 (if big then u else rev u)) (chunks 4 bs) in
     if length bs mod 4 \<noteq> 0 \<or> list_ex (\<lambda>c. 1114112 \<le> c) cs then Inl UnicodeError else Inr cs)"

text \<open>\<^verbatim>\<open>detect_encoding\<close> and the decoding it selects; an encoding named without an order reads and drops the mark.\<close>

definition decode_json :: "nat list \<Rightarrow> exn + ustr" where
  "decode_json b =
     (if is_prefix [0, 0, 254, 255] b then utf32_decode True (drop 4 b)
      else if is_prefix [255, 254, 0, 0] b then utf32_decode False (drop 4 b)
      else if is_prefix [254, 255] b then utf16_decode True (drop 2 b)
      else if is_prefix [255, 254] b then utf16_decode False (drop 2 b)
      else if is_prefix [239, 187, 191] b then utf8_decode (drop 3 b)
      else if 4 \<le> length b \<and> b ! 0 = 0 then (if b ! 1 \<noteq> 0 then utf16_decode True b else utf32_decode True b)
      else if 4 \<le> length b \<and> b ! 1 = 0 then (if b ! 2 \<noteq> 0 \<or> b ! 3 \<noteq> 0 then utf16_decode False b else utf32_decode False b)
      else if length b = 2 \<and> b ! 0 = 0 then utf16_decode True b
      else if length b = 2 \<and> b ! 1 = 0 then utf16_decode False b
      else utf8_decode b)"

section \<open>Scanning\<close>

datatype json = JNull | JBool bool | JInt int | JFloat ustr | JStr ustr | JList "json list" | JDict "(ustr \<times> json) list"

definition json_space :: "nat \<Rightarrow> bool" where
  "json_space c \<longleftrightarrow> c = 32 \<or> c = 9 \<or> c = 10 \<or> c = 13"

definition skip_space :: "ustr \<Rightarrow> ustr" where
  "skip_space s = dropWhile json_space s"

text \<open>The four hexadecimal digits of an escape.\<close>

definition decode_uXXXX :: "ustr \<Rightarrow> (nat \<times> ustr) option" where
  "decode_uXXXX s = (if length s < 4 then None
     else map_option (\<lambda>ds. (digits_nat 16 ds, drop 4 s)) (those (map hex_val (take 4 s))))"

definition backslash_char :: "nat \<Rightarrow> nat option" where
  "backslash_char c = map_of [(34, 34), (92, 92), (47, 47), (98, 8), (102, 12), (110, 10), (114, 13), (116, 9)] c"

text \<open>The text after a backslash: the character it stands for and what follows.\<close>

definition scan_escape :: "ustr \<Rightarrow> (nat \<times> ustr) option" where
  "scan_escape s = (case s of [] \<Rightarrow> None
   | e # r \<Rightarrow> if e \<noteq> 117 then map_option (\<lambda>c. (c, r)) (backslash_char e)
       else (case decode_uXXXX r of None \<Rightarrow> None
         | Some (u, r1) \<Rightarrow>
             if 55296 \<le> u \<and> u \<le> 56319 \<and> is_prefix [92, 117] r1 then
               (case decode_uXXXX (drop 2 r1) of None \<Rightarrow> None
                | Some (v, r2) \<Rightarrow> if 56320 \<le> v \<and> v \<le> 57343 then Some (65536 + (u - 55296) * 1024 + (v - 56320), r2)
                    else Some (u, r1))
             else Some (u, r1)))"

lemma decode_uXXXX_shorter: "decode_uXXXX s = Some (u, r) \<Longrightarrow> length r < length s"
  by (auto simp: decode_uXXXX_def split: if_splits)

lemma scan_escape_shorter: "scan_escape s = Some (c, r) \<Longrightarrow> length r < length s"
  by (auto simp: scan_escape_def is_prefix_def dest!: decode_uXXXX_shorter split: list.splits if_splits option.splits)

function scanstring :: "ustr \<Rightarrow> (ustr \<times> ustr) option" where
  "scanstring [] = None"
| "scanstring (c # r) =
     (if c = 34 then Some ([], r)
      else if c = 92 then (case scan_escape r of None \<Rightarrow> None
        | Some (d, r1) \<Rightarrow> map_option (\<lambda>(t, r2). (d # t, r2)) (scanstring r1))
      else if c < 32 then None
      else map_option (\<lambda>(t, r2). (c # t, r2)) (scanstring r))"
  by pat_completeness auto
termination by (relation "measure length") (auto dest: scan_escape_shorter)

text \<open>\<open>-?(?:0|[1-9]\d*)\<close>, then the optional fraction and exponent.\<close>

definition scan_digits :: "ustr \<Rightarrow> ustr \<times> ustr" where
  "scan_digits s = (takeWhile is_digit s, dropWhile is_digit s)"

definition scan_integer :: "ustr \<Rightarrow> (ustr \<times> ustr) option" where
  "scan_integer s = (let (sign, r) = (if is_prefix [45] s then ([45], drop 1 s) else ([], s)) in
     case r of [] \<Rightarrow> None
     | c # r1 \<Rightarrow> if c = 48 then Some (sign @ [48], r1)
         else if is_digit c then (case scan_digits r of (ds, r2) \<Rightarrow> Some (sign @ ds, r2)) else None)"

definition scan_fraction :: "ustr \<Rightarrow> ustr \<times> ustr" where
  "scan_fraction s = (case s of c # r \<Rightarrow> (case scan_digits r of (ds, r1) \<Rightarrow>
       if c = 46 \<and> ds \<noteq> [] then (46 # ds, r1) else ([], s)) | [] \<Rightarrow> ([], s))"

definition scan_exponent :: "ustr \<Rightarrow> ustr \<times> ustr" where
  "scan_exponent s = (case s of [] \<Rightarrow> ([], s)
   | c # r \<Rightarrow> (case (case r of d # r1 \<Rightarrow> if d = 45 \<or> d = 43 then ([d], r1) else ([], r) | [] \<Rightarrow> ([], r)) of (sign, r2) \<Rightarrow>
       (case scan_digits r2 of (ds, r3) \<Rightarrow> if (c = 101 \<or> c = 69) \<and> ds \<noteq> [] then (c # sign @ ds, r3) else ([], s))))"

text \<open>\<^verbatim>\<open>int\<close> of a decimal literal; more than 4300 digits are refused.\<close>

definition int_literal :: "ustr \<Rightarrow> exn + int" where
  "int_literal s = (let neg = is_prefix [45] s; ds = (if neg then drop 1 s else s) in
     if 4300 < length ds then Inl ValueError
     else Inr ((if neg then uminus else id) (int (digits_nat 10 (map (\<lambda>c. c - 48) ds)))))"

definition scan_number :: "ustr \<Rightarrow> exn + json \<times> ustr" where
  "scan_number s = (case scan_integer s of None \<Rightarrow> Inl JSONDecodeError
   | Some (i, r) \<Rightarrow> (case scan_fraction r of (f, r1) \<Rightarrow> case scan_exponent r1 of (e, r2) \<Rightarrow>
       if f = [] \<and> e = [] then bind_sum (int_literal i) (\<lambda>n. Inr (JInt n, r2)) else Inr (JFloat (i @ f @ e), r2)))"

definition json_words :: "(ustr \<times> json) list" where
  "json_words = [(U ''null'', JNull), (U ''true'', JBool True), (U ''false'', JBool False), (U ''NaN'', JFloat (U ''NaN'')),
     (U ''Infinity'', JFloat (U ''Infinity'')), (U ''-Infinity'', JFloat (U ''-Infinity''))]"

definition scan_scalar :: "ustr \<Rightarrow> exn + json \<times> ustr" where
  "scan_scalar s = (if is_prefix [34] s then
       (case scanstring (drop 1 s) of None \<Rightarrow> Inl JSONDecodeError | Some (t, r) \<Rightarrow> Inr (JStr t, r))
     else case find (\<lambda>(w, _). is_prefix w s) json_words of
       Some (w, v) \<Rightarrow> Inr (v, drop (length w) s)
     | None \<Rightarrow> scan_number s)"

section \<open>Containers\<close>

type_synonym json_scanner = "ustr \<Rightarrow> exn + json \<times> ustr"

fun json_members :: "json_scanner \<Rightarrow> nat \<Rightarrow> ustr \<Rightarrow> exn + (ustr \<times> json) list \<times> ustr" where
  "json_members p 0 s = Inl JSONDecodeError"
| "json_members p (Suc n) s =
     (if \<not> is_prefix [34] (skip_space s) then Inl JSONDecodeError
      else case scanstring (drop 1 (skip_space s)) of None \<Rightarrow> Inl JSONDecodeError
      | Some (key, r) \<Rightarrow>
          if \<not> is_prefix [58] (skip_space r) then Inl JSONDecodeError
          else bind_sum (p (skip_space (drop 1 (skip_space r)))) (\<lambda>(v, r1).
            case skip_space r1 of [] \<Rightarrow> Inl JSONDecodeError
            | c # r2 \<Rightarrow> if c = 125 then Inr ([(key, v)], r2)
                else if c = 44 then bind_sum (json_members p n r2) (\<lambda>(ms, r3). Inr ((key, v) # ms, r3))
                else Inl JSONDecodeError))"

fun json_elements :: "json_scanner \<Rightarrow> nat \<Rightarrow> ustr \<Rightarrow> exn + json list \<times> ustr" where
  "json_elements p 0 s = Inl JSONDecodeError"
| "json_elements p (Suc n) s =
     bind_sum (p (skip_space s)) (\<lambda>(v, r1).
       case skip_space r1 of [] \<Rightarrow> Inl JSONDecodeError
       | c # r2 \<Rightarrow> if c = 93 then Inr ([v], r2)
           else if c = 44 then bind_sum (json_elements p n r2) (\<lambda>(vs, r3). Inr (v # vs, r3))
           else Inl JSONDecodeError)"

definition dict_of :: "(ustr \<times> json) list \<Rightarrow> (ustr \<times> json) list" where
  "dict_of ms = fold (\<lambda>(k, v). AList.update k v) ms []"

definition json_object :: "json_scanner \<Rightarrow> json_scanner" where
  "json_object p s = (if is_prefix [125] (skip_space s) then Inr (JDict [], drop 1 (skip_space s))
     else bind_sum (json_members p (length s) s) (\<lambda>(ms, r). Inr (JDict (dict_of ms), r)))"

definition json_array :: "json_scanner \<Rightarrow> json_scanner" where
  "json_array p s = (if is_prefix [93] (skip_space s) then Inr (JList [], drop 1 (skip_space s))
     else bind_sum (json_elements p (length s) s) (\<lambda>(vs, r). Inr (JList vs, r)))"

primrec scan_once :: "nat \<Rightarrow> json_scanner" where
  "scan_once 0 s = (if is_prefix [123] s \<or> is_prefix [91] s then Inl RecursionError else scan_scalar s)"
| "scan_once (Suc d) s = (if is_prefix [123] s then json_object (scan_once d) (drop 1 s)
     else if is_prefix [91] s then json_array (scan_once d) (drop 1 s) else scan_scalar s)"

definition json_decode :: "nat \<Rightarrow> ustr \<Rightarrow> exn + json" where
  "json_decode d s = bind_sum (scan_once d (skip_space s)) (\<lambda>(v, r). if skip_space r = [] then Inr v else Inl JSONDecodeError)"

definition json_loads :: "nat \<Rightarrow> ustr \<Rightarrow> exn + json" where
  "json_loads d s = (if is_prefix [65279] s then Inl JSONDecodeError else json_decode d s)"

definition json_loads_bytes :: "nat \<Rightarrow> bytes \<Rightarrow> exn + json" where
  "json_loads_bytes d b = bind_sum (decode_json (map unat b)) (json_decode d)"

section \<open>Writing\<close>

definition plain_char :: "nat \<Rightarrow> bool" where
  "plain_char c \<longleftrightarrow> 32 \<le> c \<and> c \<le> 126 \<and> c \<noteq> 34 \<and> c \<noteq> 92"

definition escape_u :: "nat \<Rightarrow> ustr" where
  "escape_u n = [92, 117] @ map hex_char (nat_digits 16 4 n)"

text \<open>\<^verbatim>\<open>json.dumps\<close> of a text, in ASCII.\<close>

definition json_quote_char :: "nat \<Rightarrow> ustr" where
  "json_quote_char c = (if plain_char c then [c]
     else case find (\<lambda>e. backslash_char e = Some c) [34, 92, 110, 114, 116, 102, 98] of
       Some e \<Rightarrow> [92, e]
     | None \<Rightarrow> if c < 65536 then escape_u c
         else escape_u (55296 + (c - 65536) div 1024) @ escape_u (56320 + (c - 65536) mod 1024))"

definition json_quote :: "ustr \<Rightarrow> ustr" where
  "json_quote s = [34] @ concat (map json_quote_char s) @ [34]"

text \<open>\<^verbatim>\<open>json.dumps({key: text}, separators=(",", ":"))\<close>.\<close>

definition json_dumps_entry :: "ustr \<Rightarrow> ustr \<Rightarrow> ustr" where
  "json_dumps_entry k v = U ''{'' @ json_quote k @ U '':'' @ json_quote v @ U ''}''"

section \<open>Facts\<close>

lemma is_prefix_Cons [simp]: "is_prefix (c # p) (d # s) \<longleftrightarrow> c = d \<and> is_prefix p s"
  and is_prefix_Nil [simp]: "is_prefix [] s" "\<not> is_prefix (c # p) []"
  by (auto simp: is_prefix_def)

lemma skip_space_Nil [simp]: "skip_space [] = []"
  and skip_space_Cons [simp]: "\<not> json_space c \<Longrightarrow> skip_space (c # s) = c # s"
  by (simp_all add: skip_space_def)

lemma length_skip_space: "length (skip_space s) \<le> length s"
  by (simp add: skip_space_def length_dropWhile_le)

text \<open>A scanner consumes at least one character of what it accepts.\<close>

definition consumes :: "json_scanner \<Rightarrow> bool" where
  "consumes p \<longleftrightarrow> (\<forall>s v r. p s = Inr (v, r) \<longrightarrow> length r < length s)"

lemma scanstring_shorter: "scanstring s = Some (t, r) \<Longrightarrow> length r < length s"
proof (induction s arbitrary: t r rule: scanstring.induct)
  case (2 c s)
  then show ?case
    by (auto split: if_splits option.splits dest!: scan_escape_shorter) fastforce+
qed simp

lemma skip_space_Some: "skip_space s = c # r \<Longrightarrow> length r < length s"
  using length_skip_space [of s] by simp

text \<open>The fuel of the loops suffices.\<close>

lemma after_key:
  assumes "is_prefix [34] (skip_space s)" and "scanstring (drop 1 (skip_space s)) = Some (key, r)"
    and "is_prefix [58] (skip_space r)"
  shows "length (skip_space (drop 1 (skip_space r))) < length s"
  using assms scanstring_shorter [OF assms(2)] length_skip_space [of s] length_skip_space [of r]
    length_skip_space [of "drop 1 (skip_space r)"] by simp

lemma json_members_fuel:
  assumes "consumes p"
  shows "length s \<le> n \<Longrightarrow> length s \<le> m \<Longrightarrow> json_members p n s = json_members p m s"
proof (induction n arbitrary: m s)
  case 0
  then show ?case by (cases m) auto
next
  case (Suc n)
  show ?case
  proof (cases m)
    case 0
    with Suc.prems show ?thesis by simp
  next
    case m: (Suc m')
    have "json_members p n r2 = json_members p m' r2"
      if "is_prefix [34] (skip_space s)" "scanstring (drop 1 (skip_space s)) = Some (key, r)" "is_prefix [58] (skip_space r)"
        "p (skip_space (drop 1 (skip_space r))) = Inr (v, r1)" "skip_space r1 = c # r2" for key r v r1 c r2
    proof -
      have "length r1 < length (skip_space (drop 1 (skip_space r)))" using assms that(4) by (auto simp: consumes_def)
      with after_key [OF that(1-3)] skip_space_Some [OF that(5)] Suc.prems m show ?thesis by (intro Suc.IH) auto
    qed
    then show ?thesis
      by (auto simp: m bind_sum_def split: option.splits sum.splits list.splits)
  qed
qed

lemma json_elements_fuel:
  assumes "consumes p"
  shows "length s \<le> n \<Longrightarrow> length s \<le> m \<Longrightarrow> 0 < n \<Longrightarrow> 0 < m \<Longrightarrow> json_elements p n s = json_elements p m s"
proof (induction n arbitrary: m s)
  case (Suc n)
  then obtain m' where m: "m = Suc m'" by (cases m) auto
  have "json_elements p n r2 = json_elements p m' r2"
    if "p (skip_space s) = Inr (v, r1)" "skip_space r1 = c # r2" for v r1 c r2
  proof -
    have "length r2 < n" "length r2 < m'"
      using assms that(1) skip_space_Some [OF that(2)] length_skip_space [of s] Suc.prems m by (fastforce simp: consumes_def)+
    then show ?thesis by (intro Suc.IH) auto
  qed
  then show ?case
    by (auto simp: m bind_sum_def split: option.splits sum.splits list.splits)
qed simp

lemma members_shorter:
  assumes "consumes p"
  shows "json_members p n s = Inr (ms, r) \<Longrightarrow> length r < length s"
proof (induction n arbitrary: s ms r)
  case (Suc n)
  then obtain key r0 v r1 where st: "is_prefix [34] (skip_space s)" "scanstring (drop 1 (skip_space s)) = Some (key, r0)"
      "is_prefix [58] (skip_space r0)" "p (skip_space (drop 1 (skip_space r0))) = Inr (v, r1)"
    by (auto simp: bind_sum_def split: if_splits option.splits sum.splits)
  with Suc.prems obtain c r2 where r1: "skip_space r1 = c # r2" and out: "r = r2 \<or> (\<exists>ms'. json_members p n r2 = Inr (ms', r))"
    by (cases "skip_space r1") (auto simp: bind_sum_eq_Inr split: if_splits)
  have "length r1 < length (skip_space (drop 1 (skip_space r0)))" using assms st(4) by (auto simp: consumes_def)
  with after_key [OF st(1-3)] skip_space_Some [OF r1] out Suc.IH show ?case by fastforce
qed simp

lemma elements_shorter:
  assumes "consumes p"
  shows "json_elements p n s = Inr (vs, r) \<Longrightarrow> length r < length s"
proof (induction n arbitrary: s vs r)
  case (Suc n)
  then obtain v r1 where v: "p (skip_space s) = Inr (v, r1)" by (auto simp: bind_sum_eq_Inr)
  with Suc.prems obtain c r2 where r1: "skip_space r1 = c # r2" and out: "r = r2 \<or> (\<exists>vs'. json_elements p n r2 = Inr (vs', r))"
    by (cases "skip_space r1") (auto simp: bind_sum_eq_Inr split: if_splits)
  have "length r1 < length (skip_space s)" using assms v by (auto simp: consumes_def)
  with length_skip_space [of s] skip_space_Some [OF r1] out Suc.IH show ?case by fastforce
qed simp

lemma length_scan_digits: "scan_digits s = (ds, r) \<Longrightarrow> length s = length ds + length r"
proof -
  assume "scan_digits s = (ds, r)"
  then have "s = ds @ r" by (simp add: scan_digits_def) (metis takeWhile_dropWhile_id)
  then show ?thesis by simp
qed

lemma scan_integer_shorter: "scan_integer s = Some (i, r) \<Longrightarrow> length r < length s"
proof -
  assume run: "scan_integer s = Some (i, r)"
  define t where "t = (if is_prefix [45] s then drop 1 s else s)"
  have "length t \<le> length s" by (simp add: t_def)
  moreover from run obtain c u where "t = c # u" "r = u \<or> r = dropWhile is_digit u"
    by (auto simp: scan_integer_def scan_digits_def t_def split: if_splits list.splits)
  ultimately show ?thesis using length_dropWhile_le [of is_digit u] by auto
qed

lemma scan_number_shorter: "scan_number s = Inr (v, r) \<Longrightarrow> length r < length s"
proof -
  assume run: "scan_number s = Inr (v, r)"
  then obtain i r0 where i: "scan_integer s = Some (i, r0)" by (auto simp: scan_number_def split: option.splits)
  obtain f r1 where f: "scan_fraction r0 = (f, r1)" by fastforce
  obtain e r2 where e: "scan_exponent r1 = (e, r2)" by fastforce
  have "length r1 \<le> length r0" using f
    by (auto simp: scan_fraction_def split: list.splits prod.splits if_splits dest: length_scan_digits)
  moreover have "length r2 \<le> length r1" using e
    by (auto simp: scan_exponent_def split: list.splits prod.splits if_splits dest!: length_scan_digits)
  moreover have "r = r2" using run i f e by (auto simp: scan_number_def bind_sum_eq_Inr split: if_splits)
  ultimately show ?thesis using scan_integer_shorter [OF i] by simp
qed

lemma scan_scalar_shorter: "scan_scalar s = Inr (v, r) \<Longrightarrow> length r < length s"
proof -
  assume run: "scan_scalar s = Inr (v, r)"
  have "length (drop (length w) s) < length s" if found: "find (\<lambda>(w, _). is_prefix w s) json_words = Some (w, x)" for w x
  proof -
    from found have w: "(w, x) \<in> set json_words" "is_prefix w s"
      by (auto simp: find_Some_iff in_set_conv_nth)
    from w(1) have "w \<noteq> []" by (auto simp: json_words_def U_def)
    with w(2) show ?thesis by (cases s) (auto simp: is_prefix_def)
  qed
  with run show ?thesis
    by (cases "is_prefix [34] s"; cases s)
      (auto simp: scan_scalar_def split: option.splits dest: scanstring_shorter scan_number_shorter)
qed

lemma consumes_scan_once: "consumes (scan_once d)"
proof (induction d)
  case 0
  show ?case by (auto simp: consumes_def scan_scalar_shorter)
next
  case (Suc d)
  have "length r < length s" if "scan_once (Suc d) s = Inr (v, r)" for s v r
  proof (cases "s \<noteq> [] \<and> (hd s = 123 \<or> hd s = 91)")
    case True
    then obtain c t where s: "s = c # t" by (cases s) auto
    with True that members_shorter [OF Suc, of "length t" t] elements_shorter [OF Suc, of "length t" t] length_skip_space [of t]
    show ?thesis by (fastforce simp: json_object_def json_array_def bind_sum_eq_Inr split: if_splits)
  next
    case False
    with that have "scan_scalar s = Inr (v, r)" by (cases s) auto
    then show ?thesis by (rule scan_scalar_shorter)
  qed
  then show ?case unfolding consumes_def by blast
qed

section \<open>Reading back\<close>

lemma scanstring_plain: "list_all plain_char s \<Longrightarrow> scanstring (s @ 34 # r) = Some (s, r)"
  by (induction s) (auto simp: plain_char_def)

lemma json_quote_plain: "list_all plain_char s \<Longrightarrow> json_quote s = 34 # s @ [34]"
  by (induction s) (auto simp: json_quote_def json_quote_char_def)

lemma scan_scalar_text: "list_all plain_char s \<Longrightarrow> scan_scalar (34 # s @ 34 # r) = Inr (JStr s, r)"
  by (simp add: scan_scalar_def scanstring_plain)

lemma members_last:
  assumes "list_all plain_char k" and "p s = Inr (v, 125 # r)" and "skip_space s = s"
  shows "json_members p (Suc n) (34 # k @ 34 # 58 # s) = Inr ([(k, v)], r)"
  using assms by (simp add: scanstring_plain json_space_def)

lemma members_more:
  assumes "list_all plain_char k" and "p s = Inr (v, 44 # r)" and "skip_space s = s" and "json_members p n r = Inr (ms, r')"
  shows "json_members p (Suc n) (34 # k @ 34 # 58 # s) = Inr ((k, v) # ms, r')"
  using assms by (simp add: scanstring_plain json_space_def)

lemma utf8_decode_ascii: "isascii s \<Longrightarrow> utf8_decode s = Inr s"
  by (induction s) auto

lemma map_unat_ascii_bytes: "isascii s \<Longrightarrow> map unat (ascii_bytes s) = s"
  by (auto simp: ascii_bytes_def isascii_def list_all_iff unat_byte_of_nat intro!: map_idI)

text \<open>ASCII text without NUL is taken for UTF-8.\<close>

lemma decode_json_ascii:
  assumes "isascii s" and "0 \<notin> set s"
  shows "decode_json s = Inr s"
proof -
  have "\<not> is_prefix (c # p) s" if "128 \<le> c \<or> c = 0" for c p
    using assms that by (cases s) (auto simp: isascii_def)
  moreover have nz: "s ! i \<noteq> 0" if "i < length s" for i
    using assms(2) that by (metis nth_mem)
  have "4 \<le> length s \<Longrightarrow> s ! 0 \<noteq> 0 \<and> s ! 1 \<noteq> 0" "length s = 2 \<Longrightarrow> s ! 0 \<noteq> 0 \<and> s ! 1 \<noteq> 0"
    by (intro conjI nz; linarith)+
  ultimately show ?thesis
    using utf8_decode_ascii [OF assms(1)] by (auto simp: decode_json_def)
qed

lemma loads_dumps_entry:
  assumes "list_all plain_char k" and "list_all plain_char v"
  shows "json_loads (Suc d) (json_dumps_entry k v) = Inr (JDict [(k, JStr v)])"
proof -
  let ?s = "34 # k @ 34 # 58 # 34 # v @ [34, 125]"
  have one: "scan_once d (34 # v @ [34, 125]) = Inr (JStr v, [125])"
    using scan_scalar_text [OF assms(2), of "[125]"] by (cases d) auto
  have "json_members (scan_once d) (length ?s) ?s = Inr ([(k, JStr v)], [])"
    using members_last [of k "scan_once d" "34 # v @ [34, 125]" "JStr v" "[]" "length (k @ 34 # 58 # 34 # v @ [34, 125])"] assms(1) one
    by (simp add: json_space_def)
  then have "scan_once (Suc d) (123 # ?s) = Inr (JDict [(k, JStr v)], [])"
    by (simp add: json_object_def json_space_def dict_of_def)
  then show ?thesis
    using assms by (simp add: json_loads_def json_decode_def json_dumps_entry_def json_quote_plain U_def json_space_def
        del: scan_once.simps)
qed

text \<open>A decimal literal.\<close>

lemma scan_dec_str:
  assumes "\<not> is_digit c" and "c \<noteq> 46" and "c \<noteq> 101" and "c \<noteq> 69" and "length (dec_str n) \<le> 4300"
  shows "scan_scalar (dec_str n @ c # r) = Inr (JInt (int n), c # r)"
proof -
  have digits: "list_all is_digit (dec_str n)" using dec_str_chars [of n] by (simp add: list_all_iff is_digit_def)
  obtain d ds where n: "dec_str n = d # ds" "is_digit d" "list_all is_digit ds"
    using digits by (cases "dec_str n") auto
  have take: "takeWhile is_digit (dec_str n @ c # r) = dec_str n" "dropWhile is_digit (dec_str n @ c # r) = c # r"
    using digits assms(1) by (simp_all add: list_all_iff takeWhile_append2 dropWhile_append2)
  have int: "scan_integer (dec_str n @ c # r) = Some (dec_str n, c # r)"
  proof (cases "n = 0")
    case True
    then show ?thesis by (simp add: scan_integer_def dec_str.simps [of 0])
  next
    case False
    then have "d \<noteq> 48" using dec_str_hd [of n] n(1) by simp
    with n take show ?thesis by (simp add: scan_integer_def scan_digits_def is_digit_def)
  qed
  have "int_literal (dec_str n) = Inr (int n)"
    using assms(5) n digits_dec_str [of n] by (auto simp: int_literal_def Let_def is_digit_def)
  then have num: "scan_number (dec_str n @ c # r) = Inr (JInt (int n), c # r)"
    using assms(1-4) int by (simp add: scan_number_def scan_fraction_def scan_exponent_def scan_digits_def split: list.splits prod.splits)
  have "find (\<lambda>(w, _). is_prefix w (dec_str n @ c # r)) json_words = None"
    using n(1,2) by (simp add: json_words_def U_def is_digit_def)
  then show ?thesis using n num by (simp add: scan_scalar_def is_digit_def)
qed

end
