(* ===== verification/Datetime.thy ===== *)
theory Datetime
  imports Schema Json
begin

text \<open>
  The part of Python's \<^verbatim>\<open>datetime\<close> that the program uses to store an instant as text: \<open>isoformat_utc\<close>, the
  text of an aware datetime in UTC, and \<open>fromisoformat\<close>, which reads every form that CPython 3.12 reads.
  A wall-clock reading counts the microseconds since \<^verbatim>\<open>datetime.min\<close>, so the reading \<open>t\<close> is representable
  when \<open>0 \<le> t < MAX_INSTANT\<close>. \<open>fromisoformat_isoformat\<close> is the round trip.
\<close>

section \<open>The calendar\<close>

definition leap_year :: "nat \<Rightarrow> bool" where
  "leap_year y \<longleftrightarrow> y mod 4 = 0 \<and> (y mod 100 \<noteq> 0 \<or> y mod 400 = 0)"

definition month_days :: "bool \<Rightarrow> nat list" where
  "month_days leap = [31, if leap then 29 else 28, 31, 30, 31, 30, 31, 31, 30, 31, 30, 31]"

definition days_in_month :: "nat \<Rightarrow> nat \<Rightarrow> nat" where
  "days_in_month y m = month_days (leap_year y) ! (m - 1)"

definition days_before_month :: "bool \<Rightarrow> nat \<Rightarrow> nat" where
  "days_before_month leap m = sum_list (take (m - 1) (month_days leap))"

definition days_before_year :: "nat \<Rightarrow> nat" where
  "days_before_year y = (let z = y - 1 in z * 365 + z div 4 - z div 100 + z div 400)"

text \<open>The days from the first of January of year one up to a date.\<close>

definition ymd_days :: "nat \<Rightarrow> nat \<Rightarrow> nat \<Rightarrow> nat" where
  "ymd_days y m d = days_before_year y + days_before_month (leap_year y) m + (d - 1)"

definition month_of :: "bool \<Rightarrow> nat \<Rightarrow> nat" where
  "month_of leap n = length (filter (\<lambda>m. days_before_month leap m \<le> n) [1, 2, 3, 4, 5, 6, 7, 8, 9, 10, 11, 12])"

definition days_ymd :: "nat \<Rightarrow> nat \<times> nat \<times> nat" where
  "days_ymd n = (
     let a = n div 146097; n1 = n mod 146097;
         b = min (n1 div 36524) 3; n2 = n1 - b * 36524;
         c = n2 div 1461; n3 = n2 mod 1461;
         d = min (n3 div 365) 3; n4 = n3 - d * 365;
         y = 400 * a + 100 * b + 4 * c + d + 1;
         m = month_of (leap_year y) n4
     in (y, m, n4 - days_before_month (leap_year y) m + 1))"

section \<open>Writing\<close>

definition DAY :: int where "DAY = 86400000000"
definition MAX_INSTANT :: int where "MAX_INSTANT = 315537897600000000"

definition pad :: "nat \<Rightarrow> nat \<Rightarrow> ustr" where
  "pad w n = map (\<lambda>d. 48 + d) (nat_digits 10 w n)"

definition iso_date :: "nat \<Rightarrow> ustr" where
  "iso_date days = (case days_ymd days of (y, m, d) \<Rightarrow> pad 4 y @ U ''-'' @ pad 2 m @ U ''-'' @ pad 2 d)"

definition iso_time :: "nat \<Rightarrow> ustr" where
  "iso_time us = (let s = us div 1000000; f = us mod 1000000 in
     pad 2 (s div 3600) @ U '':'' @ pad 2 (s div 60 mod 60) @ U '':'' @ pad 2 (s mod 60)
     @ (if f = 0 then [] else U ''.'' @ pad 6 f))"

definition isoformat_utc :: "int \<Rightarrow> ustr" where
  "isoformat_utc t = iso_date (nat (t div DAY)) @ U ''T'' @ iso_time (nat (t mod DAY)) @ U ''+00:00''"

section \<open>Reading\<close>

definition parse_digits :: "nat \<Rightarrow> ustr \<Rightarrow> (nat \<times> ustr) option" where
  "parse_digits w s = (if length s < w \<or> \<not> list_all is_digit (take w s) then None
     else Some (digits_nat 10 (map (\<lambda>c. c - 48) (take w s)), drop w s))"

definition iso_separator :: "ustr \<Rightarrow> nat option" where
  "iso_separator s = (let n = length s in
     if n < 7 then None
     else if n = 7 then Some 7
     else if s ! 4 = 45 then
       (if s ! 5 = 87 then
          (if 8 < n \<and> s ! 8 = 45 then
             (if n = 9 then None else if 10 < n \<and> is_digit (s ! 10) then Some 8 else Some 10)
           else Some 8)
        else Some 10)
     else if s ! 4 = 87 then
       (let i = 7 + length (takeWhile is_digit (drop 7 s)) in if i < 9 then Some i else if even i then Some 7 else Some 8)
     else Some 8)"

definition iso_week :: "nat \<Rightarrow> nat \<Rightarrow> nat \<Rightarrow> (nat \<times> nat \<times> nat) option" where
  "iso_week y w d = (let first = days_before_year y; fw = first mod 7 in
     if \<not> (1 \<le> y \<and> y \<le> 9999) then None
     else if \<not> (1 \<le> w \<and> w \<le> 52 \<or> w = 53 \<and> (fw = 3 \<or> fw = 2 \<and> leap_year y)) then None
     else if \<not> (1 \<le> d \<and> d \<le> 7) then None
     else Some (days_ymd ((if fw > 3 then first + 7 - fw else first - fw) + (w - 1) * 7 + (d - 1))))"

definition drop_dash :: "bool \<Rightarrow> ustr \<Rightarrow> ustr option" where
  "drop_dash sep r = (if is_prefix [45] r \<noteq> sep then None else Some (if sep then drop 1 r else r))"

definition parse_week :: "nat \<Rightarrow> bool \<Rightarrow> ustr \<Rightarrow> (nat \<times> nat \<times> nat) option" where
  "parse_week y sep s = (case parse_digits 2 s of None \<Rightarrow> None
   | Some (w, r) \<Rightarrow> if r = [] then iso_week y w 1
       else case drop_dash sep r of None \<Rightarrow> None
       | Some r1 \<Rightarrow> (case parse_digits 1 r1 of None \<Rightarrow> None | Some (d, _) \<Rightarrow> iso_week y w d))"

definition parse_month_day :: "nat \<Rightarrow> bool \<Rightarrow> ustr \<Rightarrow> (nat \<times> nat \<times> nat) option" where
  "parse_month_day y sep s = (case parse_digits 2 s of None \<Rightarrow> None
   | Some (m, r) \<Rightarrow> (case drop_dash sep r of None \<Rightarrow> None
     | Some r1 \<Rightarrow> (case parse_digits 2 r1 of None \<Rightarrow> None | Some (d, _) \<Rightarrow> Some (y, m, d))))"

definition parse_isoformat_date :: "ustr \<Rightarrow> (nat \<times> nat \<times> nat) option" where
  "parse_isoformat_date s = (case parse_digits 4 s of None \<Rightarrow> None
   | Some (y, r) \<Rightarrow> (let sep = is_prefix [45] r; r1 = (if sep then drop 1 r else r) in
       if is_prefix [87] r1 then parse_week y sep (drop 1 r1) else parse_month_day y sep r1))"

text \<open>
  The fields of a time and whether text follows them. \<open>stop\<close> is the character after the part that is
  read, 0 at the end of the text.
\<close>

type_synonym hms = "nat list \<times> nat \<times> bool"

definition head_or :: "nat \<Rightarrow> ustr \<Rightarrow> nat" where
  "head_or stop r = (case r of [] \<Rightarrow> stop | c # _ \<Rightarrow> c)"

definition parse_fraction :: "nat \<Rightarrow> nat list \<Rightarrow> ustr \<Rightarrow> hms option" where
  "parse_fraction stop vs s = (let k = min 6 (length s) in
     case parse_digits k s of None \<Rightarrow> None
     | Some (u, r) \<Rightarrow> Some (vs, u * 10 ^ (6 - k), head_or stop (dropWhile is_digit r) \<noteq> 0))"

fun parse_fields :: "nat \<Rightarrow> nat \<Rightarrow> bool \<Rightarrow> nat list \<Rightarrow> ustr \<Rightarrow> hms option" where
  "parse_fields stop 0 sep vs s = parse_fraction stop vs s"
| "parse_fields stop (Suc n) sep vs s = (case parse_digits 2 s of None \<Rightarrow> None
   | Some (v, r) \<Rightarrow> (let c = head_or stop r; sep' = (if vs = [] then c = 58 else sep); vs' = vs @ [v] in
       if r = [] \<or> length r = 1 \<and> c < 128 then Some (vs', 0, c \<noteq> 0)
       else if sep' \<and> c = 58 then parse_fields stop n sep' vs' (drop 1 r)
       else if c = 46 \<or> c = 44 then parse_fraction stop vs' (drop 1 r)
       else if \<not> sep' then parse_fields stop n sep' vs' r
       else None))"

definition field :: "nat list \<Rightarrow> nat \<Rightarrow> nat" where
  "field vs i = (if i < length vs then vs ! i else 0)"

definition hms_seconds :: "nat list \<Rightarrow> nat" where
  "hms_seconds vs = field vs 0 * 3600 + field vs 1 * 60 + field vs 2"

definition is_zone_char :: "nat \<Rightarrow> bool" where
  "is_zone_char c \<longleftrightarrow> c = 43 \<or> c = 45 \<or> c = 90"

definition parse_zone :: "ustr \<Rightarrow> int option option" where
  "parse_zone z = (case z of [] \<Rightarrow> Some None
   | c # r \<Rightarrow> if c = 90 then (if head_or 0 r = 0 then Some (Some 0) else None)
       else case parse_fields 0 3 True [] r of
         Some (vs, us, False) \<Rightarrow> (let s = hms_seconds vs; off = (if s = 0 then 0 else int (s * 1000000 + us)) in
           Some (Some (if c = 45 then - off else off)))
       | _ \<Rightarrow> None)"

definition parse_isoformat_time :: "ustr \<Rightarrow> (nat list \<times> nat \<times> int option) option" where
  "parse_isoformat_time t = (let a = takeWhile (\<lambda>c. \<not> is_zone_char c) t; z = dropWhile (\<lambda>c. \<not> is_zone_char c) t in
     case parse_fields (head_or 0 z) 3 True [] a of None \<Rightarrow> None
     | Some (vs, us, rest) \<Rightarrow> if z = [] \<and> rest then None else map_option (\<lambda>off. (vs, us, off)) (parse_zone z))"

definition make_datetime :: "nat \<times> nat \<times> nat \<Rightarrow> nat list \<Rightarrow> nat \<Rightarrow> int option \<Rightarrow> exn + pydatetime" where
  "make_datetime ymd vs us off = (case ymd of (y, m, d) \<Rightarrow>
     if \<not> (1 \<le> y \<and> y \<le> 9999 \<and> 1 \<le> m \<and> m \<le> 12 \<and> 1 \<le> d \<and> d \<le> days_in_month y m
         \<and> field vs 0 < 24 \<and> field vs 1 < 60 \<and> field vs 2 < 60) then Inl ValueError
     else (let wall = int (ymd_days y m d) * DAY + int (hms_seconds vs * 1000000 + us) in
       case off of None \<Rightarrow> Inr (Naive wall)
       | Some z \<Rightarrow> if \<bar>z\<bar> < DAY then Inr (Aware wall z) else Inl ValueError))"

definition fromisoformat :: "ustr \<Rightarrow> exn + pydatetime" where
  "fromisoformat s = (case iso_separator s of None \<Rightarrow> Inl ValueError
   | Some n \<Rightarrow> (case parse_isoformat_date (take n s) of None \<Rightarrow> Inl ValueError
     | Some ymd \<Rightarrow>
         if n < length s then
           (case parse_isoformat_time (drop (n + 1) s) of None \<Rightarrow> Inl ValueError
            | Some (vs, us, off) \<Rightarrow> make_datetime ymd vs us off)
         else make_datetime ymd [] 0 None))"

section \<open>The calendar inverts\<close>

lemma days_before_month_simps [simp]:
  "days_before_month l 1 = 0" "days_before_month l (Suc 0) = 0" "days_before_month l 2 = 31" "days_before_month l 3 = 59 + of_bool l" "days_before_month l 4 = 90 + of_bool l"
  "days_before_month l 5 = 120 + of_bool l" "days_before_month l 6 = 151 + of_bool l" "days_before_month l 7 = 181 + of_bool l"
  "days_before_month l 8 = 212 + of_bool l" "days_before_month l 9 = 243 + of_bool l" "days_before_month l 10 = 273 + of_bool l"
  "days_before_month l 11 = 304 + of_bool l" "days_before_month l 12 = 334 + of_bool l"
  by (simp_all add: days_before_month_def month_days_def)

lemma month_ok:
  assumes "n < 365 + of_bool l"
  shows "1 \<le> month_of l n \<and> month_of l n \<le> 12 \<and> days_before_month l (month_of l n) \<le> n
    \<and> n < days_before_month l (month_of l n) + month_days l ! (month_of l n - 1)"
proof -
  let ?k = "of_bool l :: nat"
  consider "n < 31" | "31 \<le> n" "n < 59 + ?k" | "59 + ?k \<le> n" "n < 90 + ?k" | "90 + ?k \<le> n" "n < 120 + ?k"
    | "120 + ?k \<le> n" "n < 151 + ?k" | "151 + ?k \<le> n" "n < 181 + ?k" | "181 + ?k \<le> n" "n < 212 + ?k" | "212 + ?k \<le> n" "n < 243 + ?k"
    | "243 + ?k \<le> n" "n < 273 + ?k" | "273 + ?k \<le> n" "n < 304 + ?k" | "304 + ?k \<le> n" "n < 334 + ?k" | "334 + ?k \<le> n"
    using not_le by blast
  then show ?thesis
    using assms by cases (cases l; simp add: month_of_def days_before_month_def month_days_def)+
qed

lemma mod_at_most: "1 \<le> x \<Longrightarrow> x \<le> k \<Longrightarrow> (x + k * q) mod k = 0 \<longleftrightarrow> x = k" for x k q :: nat
  by (cases "x = k") auto

lemma year_days:
  assumes "b \<le> 3" and "c \<le> 24" and "d \<le> 3"
  shows "days_before_year (400 * a + 100 * b + 4 * c + d + 1) = 146097 * a + 36524 * b + 1461 * c + 365 * d"
    and "leap_year (400 * a + 100 * b + 4 * c + d + 1) \<longleftrightarrow> d = 3 \<and> (c \<noteq> 24 \<or> b = 3)"
proof -
  let ?z = "400 * a + 100 * b + 4 * c + d"
  have q1: "?z div 4 = 100 * a + 25 * b + c" using assms by (intro div_nat_eqI) simp_all
  have q2: "?z div 100 = 4 * a + b" using assms by (intro div_nat_eqI) simp_all
  have q3: "?z div 400 = a" using assms by (intro div_nat_eqI) simp_all
  show "days_before_year (?z + 1) = 146097 * a + 36524 * b + 1461 * c + 365 * d"
    by (simp add: days_before_year_def q1 q2 q3)
  have "(?z + 1) mod 4 = 0 \<longleftrightarrow> d = 3"
    using mod_at_most [of "d + 1" 4 "100 * a + 25 * b + c"] assms by (simp add: algebra_simps)
  moreover have "(?z + 1) mod 100 = 0 \<longleftrightarrow> c = 24 \<and> d = 3"
  proof -
    have "4 * c + d + 1 = 100 \<longleftrightarrow> c = 24 \<and> d = 3" using assms by linarith
    then show ?thesis using mod_at_most [of "4 * c + d + 1" 100 "4 * a + b"] assms by (simp add: algebra_simps)
  qed
  moreover have "(?z + 1) mod 400 = 0 \<longleftrightarrow> b = 3 \<and> c = 24 \<and> d = 3"
  proof -
    have "100 * b + 4 * c + d + 1 = 400 \<longleftrightarrow> b = 3 \<and> c = 24 \<and> d = 3" using assms by linarith
    then show ?thesis using mod_at_most [of "100 * b + 4 * c + d + 1" 400 a] assms by (simp add: algebra_simps)
  qed
  ultimately show "leap_year (?z + 1) \<longleftrightarrow> d = 3 \<and> (c \<noteq> 24 \<or> b = 3)" by (auto simp: leap_year_def)
qed

lemma quotient_at_most_3:
  fixes n k :: nat
  assumes "n \<le> 4 * k" and "0 < k"
  shows "min (n div k) 3 * k \<le> n" and "n - min (n div k) 3 * k < k + of_bool (min (n div k) 3 = 3)"
proof -
  have n: "n = n div k * k + n mod k" "n mod k < k" using assms(2) by simp_all
  show "min (n div k) 3 * k \<le> n" using n(1) mult_le_mono1 [of "min (n div k) 3" "n div k" k] by linarith
  show "n - min (n div k) 3 * k < k + of_bool (min (n div k) 3 = 3)"
  proof (cases "n div k < 3")
    case True
    then show ?thesis using n by (simp add: min_def minus_div_mult_eq_mod)
  next
    case False
    then show ?thesis using assms by simp
  qed
qed

lemma days_split:
  fixes n :: nat
  defines "n1 \<equiv> n mod 146097"
  defines "b \<equiv> min (n1 div 36524) 3"
  defines "n2 \<equiv> n1 - b * 36524"
  defines "c \<equiv> n2 div 1461"
  defines "n3 \<equiv> n2 mod 1461"
  defines "d \<equiv> min (n3 div 365) 3"
  shows "b \<le> 3" and "c \<le> 24" and "d \<le> 3" and "n = 146097 * (n div 146097) + 36524 * b + 1461 * c + 365 * d + (n3 - d * 365)"
    and "n3 - d * 365 < 365 + of_bool (d = 3 \<and> (c \<noteq> 24 \<or> b = 3))"
proof -
  have n1: "n1 < 146097" "n = 146097 * (n div 146097) + n1" by (simp_all add: n1_def)
  have b: "b \<le> 3" "b * 36524 \<le> n1" "n1 - b * 36524 < 36524 + of_bool (b = 3)"
    using n1(1) quotient_at_most_3 [of n1 36524, folded b_def] by (simp_all add: b_def)
  have c: "c \<le> 24" "n2 = 1461 * c + n3" "n3 < 1461" using b n1(1) unfolding c_def n3_def n2_def by (auto simp: of_bool_def split: if_splits)
  have d: "d \<le> 3" "d * 365 \<le> n3" "n3 - d * 365 < 365 + of_bool (d = 3)"
    using c(3) quotient_at_most_3 [of n3 365, folded d_def] by (simp_all add: d_def)
  show "b \<le> 3" "c \<le> 24" "d \<le> 3" by fact+
  show "n = 146097 * (n div 146097) + 36524 * b + 1461 * c + 365 * d + (n3 - d * 365)"
    using n1 b c d unfolding n2_def by linarith
  show "n3 - d * 365 < 365 + of_bool (d = 3 \<and> (c \<noteq> 24 \<or> b = 3))"
    using b c d unfolding n2_def by (auto simp: of_bool_def split: if_splits)
qed

lemma days_ymd_inverse:
  assumes "days_ymd n = (y, m, d)"
  shows "ymd_days y m d = n" and "1 \<le> y" and "1 \<le> m" and "m \<le> 12" and "1 \<le> d" and "d \<le> days_in_month y m"
proof -
  define b where "b = min (n mod 146097 div 36524) 3"
  define c where "c = (n mod 146097 - b * 36524) div 1461"
  define n3 where "n3 = (n mod 146097 - b * 36524) mod 1461"
  define e where "e = min (n3 div 365) 3"
  define n4 where "n4 = n3 - e * 365"
  note split = days_split [of n, folded b_def, folded c_def n3_def, folded e_def, folded n4_def]
  note year = year_days [OF split(1-3), of "n div 146097"]
  define z where "z = 400 * (n div 146097) + 100 * b + 4 * c + e + 1"
  have "days_ymd n = (z, month_of (leap_year z) n4, n4 - days_before_month (leap_year z) (month_of (leap_year z) n4) + 1)"
    by (simp only: days_ymd_def Let_def z_def b_def c_def n3_def e_def n4_def)
  with assms have y: "y = 400 * (n div 146097) + 100 * b + 4 * c + e + 1" and m: "m = month_of (leap_year y) n4"
    and d: "d = n4 - days_before_month (leap_year y) m + 1"
    by (auto simp: z_def)
  have "n4 < 365 + of_bool (leap_year y)" using split(5) year(2) y by simp
  note mo = month_ok [OF this, folded m]
  show "ymd_days y m d = n" using mo d split(4) year(1) y by (simp add: ymd_days_def)
  show "1 \<le> y" "1 \<le> m" "m \<le> 12" "1 \<le> d" using mo d y by simp_all
  show "d \<le> days_in_month y m" using mo d unfolding days_in_month_def by linarith
qed

section \<open>The round trip\<close>


lemma length_pad [simp]: "length (pad w n) = w"
  by (simp add: pad_def)

lemma pad_digits: "list_all is_digit (pad w n)"
  using nat_digits_less [of 10 _ w n] by (fastforce simp: pad_def list_all_iff is_digit_def less_Suc_eq_le)

lemma parse_digits_pad: "n < 10 ^ w \<Longrightarrow> parse_digits w (pad w n @ r) = Some (n, r)"
proof -
  assume "n < 10 ^ w"
  moreover have "map (\<lambda>c. c - 48) (pad w n) = nat_digits 10 w n" by (simp add: pad_def comp_def)
  ultimately show ?thesis
    using pad_digits [of w n] digits_nat_digits [of 10 w n] by (simp add: parse_digits_def)
qed

lemma pad_not: "c \<in> set (pad w n) \<Longrightarrow> is_digit c"
  using pad_digits [of w n] by (auto simp: list_all_iff)

lemma pad_2_cases: obtains a b where "pad 2 n = [a, b]" "is_digit a" "is_digit b"
proof -
  obtain a b where "pad 2 n = [a, b]" by (simp add: pad_def numeral_2_eq_2)
  with pad_digits [of 2 n] that show thesis by simp
qed

lemma head_or_Cons [simp]: "head_or stop (c # r) = c" and head_or_Nil [simp]: "head_or stop [] = stop"
  by (simp_all add: head_or_def)

lemma days_ymd_year:
  assumes "days_ymd n = (y, m, d)" and "n < 3652059"
  shows "y \<le> 9999"
proof (rule ccontr)
  assume "\<not> y \<le> 9999"
  then obtain k where "y = 10000 + k" using le_Suc_ex [of 10000 y] by auto
  then have "y - 1 = 9999 + k" by simp
  then have "(y - 1) div 100 \<le> (y - 1) div 4" "(y - 1) * 365 \<ge> 3649635" "(y - 1) div 4 - (y - 1) div 100 + (y - 1) div 400 \<ge> 2424"
    by (auto intro: div_le_mono2)
  then have "3652059 \<le> days_before_year y" unfolding days_before_year_def Let_def by linarith
  with days_ymd_inverse(1) [OF assms(1)] assms(2) show False by (simp add: ymd_days_def)
qed

lemma iso_date_parts:
  assumes "days_ymd n = (y, m, d)" and "n < 3652059"
  shows "parse_isoformat_date (iso_date n) = Some (y, m, d)" and "length (iso_date n) = 10"
    and "iso_date n ! 4 = 45" and "iso_date n ! 5 \<noteq> 87"
proof -
  note ok = days_ymd_inverse [OF assms(1)] days_ymd_year [OF assms]
  have "days_in_month y m \<le> 31" using ok(3,4) by (auto simp: days_in_month_def month_days_def nth_Cons' )
  then have d: "d < 10 ^ 2" "m < 10 ^ 2" "y < 10 ^ 4" using ok by auto
  obtain a b where m: "pad 2 m = [a, b]" "is_digit a" "is_digit b" by (rule pad_2_cases)
  have s: "iso_date n = pad 4 y @ 45 # pad 2 m @ 45 # pad 2 d" using assms(1) by (simp add: iso_date_def U_def)
  show "length (iso_date n) = 10" "iso_date n ! 4 = 45" "iso_date n ! 5 \<noteq> 87"
    using m by (simp_all add: s nth_append is_digit_def)
  have "parse_digits 2 (pad 2 m @ 45 # pad 2 d) = Some (m, 45 # pad 2 d)" "parse_digits 2 (pad 2 d) = Some (d, [])"
    using parse_digits_pad [OF d(2)] parse_digits_pad [OF d(1), of "[]"] by simp_all
  then have "parse_month_day y True (pad 2 m @ 45 # pad 2 d) = Some (y, m, d)"
    by (simp add: parse_month_day_def drop_dash_def)
  moreover have "\<not> is_prefix [87] (pad 2 m @ 45 # pad 2 d)" using m by (simp add: is_digit_def)
  ultimately show "parse_isoformat_date (iso_date n) = Some (y, m, d)"
    by (simp add: parse_isoformat_date_def s parse_digits_pad [OF d(3)] Let_def)
qed

lemma parse_fields_more:
  assumes "v < 100" and "vs = [] \<or> sep"
  shows "parse_fields stop (Suc n) sep vs (pad 2 v @ 58 # pad 2 u @ r) = parse_fields stop n True (vs @ [v]) (pad 2 u @ r)"
  using assms parse_digits_pad [of v 2] by (auto simp: Let_def)

lemma parse_fields_last:
  assumes "v < 100" and "vs \<noteq> []" and "stop \<noteq> 58" and "stop \<noteq> 0"
  shows "parse_fields stop (Suc n) True vs (pad 2 v) = Some (vs @ [v], 0, True)"
  using assms parse_digits_pad [of v 2 "[]"] by (auto simp: Let_def)

lemma parse_fields_fraction:
  assumes "v < 100" and "vs \<noteq> []" and "f < 1000000" and "stop \<noteq> 0"
  shows "parse_fields stop (Suc n) True vs (pad 2 v @ 46 # pad 6 f) = Some (vs @ [v], f, True)"
  using assms parse_digits_pad [of v 2] parse_digits_pad [of f 6 "[]"] by (auto simp: Let_def parse_fraction_def)

lemma parse_iso_time:
  assumes "us < 86400000000"
  shows "parse_fields 43 3 True [] (iso_time us)
    = Some ([us div 1000000 div 3600, us div 1000000 div 60 mod 60, us div 1000000 mod 60], us mod 1000000, True)"
proof -
  define s where "s = us div 1000000"
  have h: "s div 3600 < 100" "s div 60 mod 60 < 100" "s mod 60 < 100" "us mod 1000000 < 1000000"
    using assms unfolding s_def by auto
  have t: "iso_time us = pad 2 (s div 3600) @ 58 # pad 2 (s div 60 mod 60) @ 58 # pad 2 (s mod 60)
      @ (if us mod 1000000 = 0 then [] else 46 # pad 6 (us mod 1000000))"
    by (simp add: iso_time_def s_def Let_def U_def)
  have three: "3 = Suc (Suc (Suc 0))" by simp
  have "parse_fields 43 3 True [] (iso_time us) = parse_fields 43 (Suc 0) True [s div 3600, s div 60 mod 60]
      (pad 2 (s mod 60) @ (if us mod 1000000 = 0 then [] else 46 # pad 6 (us mod 1000000)))"
    unfolding t three by (simp add: parse_fields_more h del: parse_fields.simps)
  then show ?thesis
    by (simp add: parse_fields_last parse_fields_fraction h del: parse_fields.simps flip: s_def)
qed

lemma seconds_fields: "hms_seconds [s div 3600, s div 60 mod 60, s mod 60] = s"
proof -
  have "s div 3600 = s div 60 div 60" by (simp add: div_mult2_eq [symmetric])
  then have "s div 3600 * 60 + s div 60 mod 60 = s div 60" by simp
  then have "s div 3600 * 3600 + s div 60 mod 60 * 60 + s mod 60 = s div 60 * 60 + s mod 60" by linarith
  then show ?thesis by (simp add: hms_seconds_def field_def)
qed

text \<open>Every representable instant survives being written and read.\<close>

theorem fromisoformat_isoformat:
  assumes "0 \<le> t" and "t < MAX_INSTANT"
  shows "fromisoformat (isoformat_utc t) = Inr (Aware t 0)"
proof -
  define n where "n = nat (t div DAY)"
  define us where "us = nat (t mod DAY)"
  have t: "t = int n * DAY + int us" using assms(1) by (simp add: n_def us_def DAY_def pos_imp_zdiv_nonneg_iff)
  have n: "n < 3652059" using assms by (auto simp: n_def DAY_def MAX_INSTANT_def)
  have us: "us < 86400000000" by (simp add: us_def DAY_def nat_less_iff)
  obtain y m d where ymd: "days_ymd n = (y, m, d)" by (metis prod_cases3)
  note date = iso_date_parts [OF ymd n]
  define tail where "tail = iso_time us @ [43, 48, 48, 58, 48, 48]"
  have s: "isoformat_utc t = iso_date n @ 84 # tail" by (simp add: isoformat_utc_def n_def us_def tail_def U_def)
  have "iso_separator (isoformat_utc t) = Some 10"
    using date(2-4) by (simp add: iso_separator_def s nth_append Let_def)
  moreover have "parse_isoformat_time tail = Some ([us div 1000000 div 3600, us div 1000000 div 60 mod 60, us div 1000000 mod 60], us mod 1000000, Some 0)"
  proof -
    have "\<forall>c \<in> set (iso_time us). \<not> is_zone_char c"
      by (auto simp: iso_time_def Let_def U_def is_zone_char_def dest!: pad_not) (auto simp: is_digit_def)
    then have "takeWhile (\<lambda>c. \<not> is_zone_char c) tail = iso_time us" "dropWhile (\<lambda>c. \<not> is_zone_char c) tail = [43, 48, 48, 58, 48, 48]"
      by (simp_all add: tail_def is_zone_char_def takeWhile_append2 dropWhile_append2)
    moreover have "parse_zone [43, 48, 48, 58, 48, 48] = Some (Some 0)"
      by (simp add: parse_zone_def eval_nat_numeral parse_digits_def is_digit_def digits_nat_def hms_seconds_def field_def Let_def)
    ultimately show ?thesis using parse_iso_time [OF us] by (simp add: parse_isoformat_time_def Let_def)
  qed
  moreover have "make_datetime (y, m, d) [us div 1000000 div 3600, us div 1000000 div 60 mod 60, us div 1000000 mod 60] (us mod 1000000) (Some 0)
      = Inr (Aware t 0)"
  proof -
    have "us div 1000000 div 3600 < 24" using us by auto
    moreover have "hms_seconds [us div 1000000 div 3600, us div 1000000 div 60 mod 60, us div 1000000 mod 60] = us div 1000000"
      by (rule seconds_fields)
    ultimately show ?thesis
      using days_ymd_inverse [OF ymd] days_ymd_year [OF ymd n]
      by (simp add: make_datetime_def field_def t DAY_def Let_def del: of_nat_add of_nat_mult)
  qed
  ultimately show ?thesis using date(1,2) by (simp add: fromisoformat_def s)
qed

end
