(* ===== verification/Preauth.thy ===== *)
theory Preauth
  imports Sessions Datetime
begin

text \<open>
  \<^verbatim>\<open>control/src/ezopenpn/web/preauth.py\<close>: the challenge of the login form. \<open>preauth_issue\<close> stores a row
  under the digest of a random nonce and hands out the nonce (a cookie) and its form token; \<open>preauth_consume\<close>
  accepts the pair once and before the deadline. \<open>challenge_at\<close> is the view of the stored challenges,
  \<open>consume_refines\<close> says what consuming does to it, and \<open>preauth_frame\<close> that nothing else changes.
\<close>

section \<open>Operations\<close>

definition FORM_LABEL :: bytes where "FORM_LABEL = ascii_bytes (U ''ezopenpn/preauth-form/v1'')"
definition STORE_LABEL :: bytes where "STORE_LABEL = ascii_bytes (U ''ezopenpn/preauth-store/v1'')"
definition STATE_PREFIX :: ustr where "STATE_PREFIX = U ''preauth:''"
definition PREAUTH_TOKEN_BYTES :: nat where "PREAUTH_TOKEN_BYTES = 32"
definition PREAUTH_MAX_TOKEN_TEXT :: nat where "PREAUTH_MAX_TOKEN_TEXT = 128"

definition derive_preauth_key :: "'w platform \<Rightarrow> bytes \<Rightarrow> bytes \<Rightarrow> exn + bytes" where
  "derive_preauth_key P master_key label = (if length master_key \<noteq> 32 then Inl ValueError else Inr (hmac_sha256 P master_key label))"

definition preauth_token :: "'w platform \<Rightarrow> ('w, ustr) op" where
  "preauth_token P = bindP (world_call (os_random P PREAUTH_TOKEN_BYTES)) (\<lambda>value.
     if length value \<noteq> PREAUTH_TOKEN_BYTES then raise ValueError else ret (url_token value))"

record preauth_challenge =
  pc_cookie_nonce :: ustr
  pc_form_token :: ustr
  pc_expires_at :: int

record preauth_service =
  pa_form_key :: bytes
  pa_store_key :: bytes
  pa_lifetime :: int

definition make_preauth_service :: "'w platform \<Rightarrow> bytes \<Rightarrow> int \<Rightarrow> exn + preauth_service" where
  "make_preauth_service P master_key lifetime =
     (if lifetime \<le> 0 then Inl ValueError
      else bind_sum (derive_preauth_key P master_key FORM_LABEL) (\<lambda>fk.
           bind_sum (derive_preauth_key P master_key STORE_LABEL) (\<lambda>sk.
           Inr \<lparr>pa_form_key = fk, pa_store_key = sk, pa_lifetime = lifetime\<rparr>)))"

definition form_token :: "'w platform \<Rightarrow> preauth_service \<Rightarrow> ustr \<Rightarrow> exn + ustr" where
  "form_token P pv nonce = bind_sum (encode_ascii nonce) (\<lambda>b. Inr (url_token (hmac_sha256 P (pa_form_key pv) b)))"

definition state_key :: "'w platform \<Rightarrow> preauth_service \<Rightarrow> ustr \<Rightarrow> exn + ustr" where
  "state_key P pv nonce = bind_sum (encode_ascii nonce) (\<lambda>b. Inr (STATE_PREFIX @ bytes_hex (hmac_sha256 P (pa_store_key pv) b)))"

definition EXPIRES_AT :: ustr where "EXPIRES_AT = U ''expires_at''"

definition new_state_row :: "ustr \<Rightarrow> int \<Rightarrow> int \<Rightarrow> system_state_row" where
  "new_state_row key expires_at ts = \<lparr>ss_key = key, ss_value_json = json_dumps_entry EXPIRES_AT (isoformat_utc expires_at),
     ss_updated_at = ts\<rparr>"

text \<open>SQLite's \<^verbatim>\<open>LIKE 'preauth:%'\<close> ignores the case of ASCII letters.\<close>

definition like_prefix :: "ustr \<Rightarrow> bool" where
  "like_prefix key \<longleftrightarrow> map ascii_lower (take (length STATE_PREFIX) key) = STATE_PREFIX"

definition outdated_state :: "int \<Rightarrow> system_state_row \<Rightarrow> bool" where
  "outdated_state limit r \<longleftrightarrow> like_prefix (ss_key r) \<and> ss_updated_at r < limit"

definition preauth_issue :: "'w platform \<Rightarrow> preauth_service \<Rightarrow> ('w, preauth_challenge) op" where
  "preauth_issue P pv =
     bindP (now_utc P) (\<lambda>ts.
     let expires_at = ts + pa_lifetime pv in
     bindP (preauth_token P) (\<lambda>nonce.
     bindP (lift_result (state_key P pv nonce)) (\<lambda>key.
     bindP (session_scope P (
       bindP (db_update (system_state_update (filter (\<lambda>r. \<not> outdated_state (ts - pa_lifetime pv) r)))) (\<lambda>_.
       db_statement (insert_state (new_state_row key expires_at ts))))) (\<lambda>_.
     bindP (lift_result (form_token P pv nonce)) (\<lambda>token.
     ret \<lparr>pc_cookie_nonce = nonce, pc_form_token = token, pc_expires_at = expires_at\<rparr>)))))"

definition preauth_text_ok :: "ustr \<Rightarrow> bool" where
  "preauth_text_ok t \<longleftrightarrow> 1 \<le> length t \<and> length t \<le> PREAUTH_MAX_TOKEN_TEXT \<and> isascii t"

text \<open>
  \<^verbatim>\<open>str\<close> of a decoded value; \<open>None\<close> for a container, whose text starts with a bracket
  (\<open>fromisoformat_bracket\<close>: no such text is a date).
\<close>

fun json_str :: "'w platform \<Rightarrow> json \<Rightarrow> ustr option" where
  "json_str P JNull = Some (U ''None'')"
| "json_str P (JBool b) = Some (if b then U ''True'' else U ''False'')"
| "json_str P (JInt i) = Some (int_str i)"
| "json_str P (JFloat t) = Some (float_repr P t)"
| "json_str P (JStr s) = Some s"
| "json_str P (JList _) = None"
| "json_str P (JDict _) = None"

fun json_item :: "json \<Rightarrow> ustr \<Rightarrow> exn + json" where
  "json_item (JDict d) k = (case map_of d k of None \<Rightarrow> Inl KeyError | Some v \<Rightarrow> Inr v)"
| "json_item _ k = Inl TypeError"

definition stored_expiry :: "'w platform \<Rightarrow> ustr \<Rightarrow> exn + pydatetime" where
  "stored_expiry P value_json =
     bind_sum (json_loads (recursion_budget P) value_json) (\<lambda>j.
     bind_sum (json_item j EXPIRES_AT) (\<lambda>v.
     case json_str P v of None \<Rightarrow> Inl ValueError | Some s \<Rightarrow> fromisoformat s))"

definition preauth_consume :: "'w platform \<Rightarrow> preauth_service \<Rightarrow> ustr \<Rightarrow> ustr \<Rightarrow> ('w, bool) op" where
  "preauth_consume P pv cookie_nonce submitted =
     (if \<not> preauth_text_ok cookie_nonce \<or> \<not> preauth_text_ok submitted then ret False
      else bindP (lift_result (form_token P pv cookie_nonce)) (\<lambda>expected.
        if expected \<noteq> submitted then ret False
        else bindP (now_utc P) (\<lambda>ts.
          session_scope P (
            bindP (lift_result (state_key P pv cookie_nonce)) (\<lambda>key.
            bindP get_db (\<lambda>db.
            case row_find ss_key key (system_state db) of
              None \<Rightarrow> ret False
            | Some state \<Rightarrow>
                bindP (db_update (system_state_update (row_delete ss_key key))) (\<lambda>_.
                case stored_expiry P (ss_value_json state) of
                  Inl e \<Rightarrow> if is_ValueError e \<or> e = KeyError \<or> e = TypeError then ret False else raise e
                | Inr expires_at \<Rightarrow> bindP (lift_result (utc_instant expires_at)) (\<lambda>u. ret (ts < u)))))))))"

section \<open>Texts\<close>

lemma fromisoformat_bracket: "\<not> is_digit c \<Longrightarrow> fromisoformat (c # s) = Inl ValueError"
proof -
  assume "\<not> is_digit c"
  then have "parse_digits 4 (take n (c # s)) = None" for n by (cases n) (auto simp: parse_digits_def)
  then show ?thesis by (auto simp: fromisoformat_def parse_isoformat_date_def split: option.splits)
qed

lemma pad_plain: "list_all plain_char (pad w n)"
  using pad_digits [of w n] by (auto simp: list_all_iff is_digit_def plain_char_def)

lemma isoformat_plain: "list_all plain_char (isoformat_utc t)"
  by (auto simp: isoformat_utc_def iso_date_def iso_time_def Let_def pad_plain U_def plain_char_def split: prod.splits)

lemma stored_expiry_new:
  assumes "0 < recursion_budget P" and "0 \<le> e" and "e < MAX_INSTANT"
  shows "stored_expiry P (ss_value_json (new_state_row key e ts)) = Inr (Aware e 0)"
proof -
  have "list_all plain_char EXPIRES_AT" by (simp add: EXPIRES_AT_def U_def plain_char_def)
  then have "json_loads (recursion_budget P) (json_dumps_entry EXPIRES_AT (isoformat_utc e)) = Inr (JDict [(EXPIRES_AT, JStr (isoformat_utc e))])"
    using assms(1) loads_dumps_entry [OF _ isoformat_plain] by (cases "recursion_budget P") auto
  then show ?thesis
    using fromisoformat_isoformat [OF assms(2,3)] by (simp add: stored_expiry_def new_state_row_def)
qed

lemma form_token_ok: "isascii nonce \<Longrightarrow> form_token P pv nonce = Inr (url_token (hmac_sha256 P (pa_form_key pv) (ascii_bytes nonce)))"
  by (simp add: form_token_def encode_ascii_ok)

definition state_key_of :: "'w platform \<Rightarrow> preauth_service \<Rightarrow> ustr \<Rightarrow> ustr" where
  "state_key_of P pv nonce = STATE_PREFIX @ bytes_hex (hmac_sha256 P (pa_store_key pv) (ascii_bytes nonce))"

lemma state_key_ok: "isascii nonce \<Longrightarrow> state_key P pv nonce = Inr (state_key_of P pv nonce)"
  by (simp add: state_key_def state_key_of_def encode_ascii_ok)

section \<open>The frame\<close>

text \<open>A challenge touches the table \<^verbatim>\<open>system_state\<close> only.\<close>

definition preauth_frame :: "database \<Rightarrow> database \<Rightarrow> bool" where
  "preauth_frame db0 db \<longleftrightarrow> schema_ok db \<and> db = db0\<lparr>system_state := system_state db\<rparr>"

lemma preauth_frame_inv:
  assumes "preauth_frame db0 db"
  shows "repo_inv db0 \<Longrightarrow> repo_inv db" "session_inv db0 \<Longrightarrow> session_inv db" "profile_of db = profile_of db0"
    and "admins db = admins db0" "admin_sessions db = admin_sessions db0" "login_throttles db = login_throttles db0"
    and "same_profiles db0 db" "schema_ok db"
proof -
  from assms have ok: "schema_ok db" and same: "same_profiles db0 db" "admins db = admins db0" "admin_sessions db = admin_sessions db0"
    "login_throttles db = login_throttles db0"
    unfolding preauth_frame_def same_profiles_def
    by (metis (no_types) database.select_convs database.surjective database.update_convs)+
  show "repo_inv db0 \<Longrightarrow> repo_inv db" using same_profiles_inv [OF _ same(1) ok] .
  show "session_inv db0 \<Longrightarrow> session_inv db" using ok same by (simp add: session_inv_def)
  show "profile_of db = profile_of db0" by (rule same_profiles_view [OF same(1)])
  show "admins db = admins db0" "admin_sessions db = admin_sessions db0" "login_throttles db = login_throttles db0"
    "same_profiles db0 db" "schema_ok db" by (fact ok same)+
qed

lemma schema_ok_filter_states: "schema_ok db \<Longrightarrow> schema_ok (system_state_update (filter Q) db)"
  by (auto simp: schema_ok_def states_ok_def list_all_iff distinct_map_filter)

lemma frame_states [keeps_intros]:
  "keeps (on_db (preauth_frame db0)) (db_update (system_state_update (filter Q)))"
  "keeps (on_db (preauth_frame db0)) (db_update (system_state_update (row_delete ss_key k)))"
  "keeps (on_db (preauth_frame db0)) (db_statement (insert_state r))"
proof -
  have step: "preauth_frame db0 (system_state_update f db)" if "preauth_frame db0 db" "schema_ok (system_state_update f db)" for f db
    using that unfolding preauth_frame_def by (metis (no_types) database.select_convs(6) database.surjective database.update_convs(6))
  show "keeps (on_db (preauth_frame db0)) (db_update (system_state_update (filter Q)))"
    "keeps (on_db (preauth_frame db0)) (db_update (system_state_update (row_delete ss_key k)))"
    unfolding row_delete_def
    by (rule keeps_db_update; rule step; auto simp: preauth_frame_def schema_ok_filter_states)+
  show "keeps (on_db (preauth_frame db0)) (db_statement (insert_state r))"
  proof (rule keeps_db_statement)
    fix db db' assume f: "preauth_frame db0 db" and ins: "insert_state r db = Inr db'"
    then have "db' = system_state_update (\<lambda>rs. rs @ [r]) db" by (auto simp: insert_state_def split: if_splits)
    with f schema_ok_insert(6) [OF _ ins] step show "preauth_frame db0 db'" by (simp add: preauth_frame_def)
  qed
qed

lemma frame_preauth [keeps_intros]:
  "keeps (on_db (preauth_frame db0)) (preauth_token P)"
  "keeps (on_db (preauth_frame db0)) (preauth_issue P pv)"
  "keeps (on_db (preauth_frame db0)) (preauth_consume P pv nonce form)"
  unfolding preauth_issue_def preauth_consume_def preauth_token_def Let_def by (intro keeps_intros)+

lemma returns_preauth [returns_intros]:
  "returns (preauth_token P)" "returns (preauth_issue P pv)" "returns (preauth_consume P pv nonce form)"
  unfolding preauth_issue_def preauth_consume_def preauth_token_def Let_def by (intro returns_intros)+

section \<open>The life of a challenge\<close>

definition challenge_at :: "database \<Rightarrow> ustr \<Rightarrow> system_state_row option" where
  "challenge_at db key = row_find ss_key key (system_state db)"

lemma now_utc_reads: "now_utc P s = (Ok (fst (clock_now P (sys_world s))), s\<lparr>sys_world := snd (clock_now P (sys_world s))\<rparr>)"
  by (simp add: now_utc_def world_call_def prog_defs split: prod.splits)

lemma issue_Ok:
  assumes "preauth_issue P pv s = (Ok c, t)" and "fst (clock_now P (sys_world s)) = ts"
  shows "preauth_text_ok (pc_cookie_nonce c)" and "form_token P pv (pc_cookie_nonce c) = Inr (pc_form_token c)"
    and "pc_expires_at c = ts + pa_lifetime pv"
    and "challenge_at (sys_db t) (state_key_of P pv (pc_cookie_nonce c))
           = Some (new_state_row (state_key_of P pv (pc_cookie_nonce c)) (ts + pa_lifetime pv) ts)"
proof -
  let ?body = "\<lambda>key. bindP (db_update (system_state_update (filter (\<lambda>r. \<not> outdated_state (ts - pa_lifetime pv) r)))) (\<lambda>_.
       db_statement (insert_state (new_state_row key (ts + pa_lifetime pv) ts)))"
  from assms obtain s0 nonce s1 key s2 token where
      nonce: "preauth_token P s0 = (Ok nonce, s1)" and key: "state_key P pv nonce = Inr key"
      and scope: "session_scope P (?body key) s1 = (Ok (), s2)" and token: "form_token P pv nonce = Inr token"
      and c: "c = \<lparr>pc_cookie_nonce = nonce, pc_form_token = token, pc_expires_at = ts + pa_lifetime pv\<rparr>" and t: "t = s2"
    unfolding preauth_issue_def Let_def
    by (elim bindP_OkE) (auto simp: now_utc_reads lift_result_def prog_simps split: sum.splits)
  from nonce obtain b where b: "nonce = url_token b" "length b = 32"
    unfolding preauth_token_def by (auto elim!: bindP_OkE simp: prog_simps PREAUTH_TOKEN_BYTES_def split: if_splits)
  then show "preauth_text_ok (pc_cookie_nonce c)"
    by (simp add: c preauth_text_ok_def length_url_token PREAUTH_MAX_TOKEN_TEXT_def)
  show "form_token P pv (pc_cookie_nonce c) = Inr (pc_form_token c)" "pc_expires_at c = ts + pa_lifetime pv"
    using token by (simp_all add: c)
  have k: "key = state_key_of P pv nonce" using key b by (simp add: state_key_ok)
  obtain w0 s3 w1 where body: "?body key (s1\<lparr>sys_world := w0\<rparr>) = (Ok (), s3)" and s2: "s2 = s3\<lparr>sys_world := w1\<rparr>"
    using scope by (rule session_scope_OkE)
  let ?rows = "filter (\<lambda>r. \<not> outdated_state (ts - pa_lifetime pv) r) (system_state (sys_db s1))"
  let ?db = "system_state_update (filter (\<lambda>r. \<not> outdated_state (ts - pa_lifetime pv) r)) (sys_db s1)"
  have "insert_state (new_state_row key (ts + pa_lifetime pv) ts) ?db = Inr (sys_db s3)"
    using body by (cases "insert_state (new_state_row key (ts + pa_lifetime pv) ts) ?db") (auto simp: prog_simps)
  then have "sys_db s3 = system_state_update (\<lambda>rs. rs @ [new_state_row key (ts + pa_lifetime pv) ts]) ?db" and new: "key \<notin> ss_key ` set ?rows"
    by (auto simp: insert_state_def new_state_row_def split: if_splits)
  then have "system_state (sys_db s3) = ?rows @ [new_state_row key (ts + pa_lifetime pv) ts]" by simp
  with new show "challenge_at (sys_db t) (state_key_of P pv (pc_cookie_nonce c))
      = Some (new_state_row (state_key_of P pv (pc_cookie_nonce c)) (ts + pa_lifetime pv) ts)"
    using row_find_None [of ss_key key ?rows] k by (simp add: challenge_at_def t s2 c row_find_append_new new_state_row_def)
qed

text \<open>What presenting a matching pair does, given the stored row.\<close>

definition consume_spec :: "'w platform \<Rightarrow> int \<Rightarrow> ustr \<Rightarrow> database \<Rightarrow> bool outcome \<times> database" where
  "consume_spec P ts key db = (case challenge_at db key of
     None \<Rightarrow> (Ok False, db)
   | Some r \<Rightarrow> (let db' = system_state_update (row_delete ss_key key) db in
       case bind_sum (stored_expiry P (ss_value_json r)) utc_instant of
         Inr u \<Rightarrow> (Ok (ts < u), db')
       | Inl e \<Rightarrow> if (\<exists>e'. stored_expiry P (ss_value_json r) = Inl e' \<and> (is_ValueError e' \<or> e' = KeyError \<or> e' = TypeError))
           then (Ok False, db') else (Raise e, db)))"

lemma consume_run:
  assumes "storage_ok P" and "preauth_text_ok nonce" and "preauth_text_ok form" and "form_token P pv nonce = Inr form"
    and "fst (clock_now P (sys_world s)) = ts" and run: "preauth_consume P pv nonce form s = (x, t)"
  shows "(x, sys_db t) = consume_spec P ts (state_key_of P pv nonce) (sys_db s)"
proof -
  let ?key = "state_key_of P pv nonce"
  let ?body = "bindP (lift_result (state_key P pv nonce)) (\<lambda>key.
            bindP get_db (\<lambda>db.
            case row_find ss_key key (system_state db) of
              None \<Rightarrow> ret False
            | Some state \<Rightarrow>
                bindP (db_update (system_state_update (row_delete ss_key key))) (\<lambda>_.
                case stored_expiry P (ss_value_json state) of
                  Inl e \<Rightarrow> if is_ValueError e \<or> e = KeyError \<or> e = TypeError then ret False else raise e
                | Inr expires_at \<Rightarrow> bindP (lift_result (utc_instant expires_at)) (\<lambda>u. ret (ts < u)))))"
  have key: "state_key P pv nonce = Inr ?key" using assms(2) by (simp add: preauth_text_ok_def state_key_ok)
  have "implements P (\<lambda>_. True) (session_scope P ?body) (\<lambda>db. {consume_spec P ts ?key db})"
    by (rule implements_session_scope)
      (auto simp: key prog_simps consume_spec_def challenge_at_def Let_def lift_result_def bindP_def bind_sum_def ret_def raise_def
        split: option.splits sum.splits if_splits)
  moreover have "session_scope P ?body (s\<lparr>sys_world := snd (clock_now P (sys_world s))\<rparr>) = (x, t)"
    using run assms(2-4) unfolding assms(5) [symmetric] by (simp add: preauth_consume_def prog_simps now_utc_reads bindP_def)
  ultimately show ?thesis using implementsD_ok [OF _ assms(1)] by fastforce
qed

lemma consume_mismatch:
  assumes "\<not> (preauth_text_ok nonce \<and> preauth_text_ok form \<and> form_token P pv nonce = Inr form)"
  shows "preauth_consume P pv nonce form s = (Ok False, s)"
  using assms form_token_ok [of nonce P pv]
  by (auto simp: preauth_consume_def preauth_text_ok_def prog_simps)

lemma preauth_token_run:
  obtains w e where "preauth_token P s = (Raise e, s\<lparr>sys_world := w\<rparr>)"
  | w nonce where "preauth_token P s = (Ok nonce, s\<lparr>sys_world := w\<rparr>)" "isascii nonce"
proof -
  obtain b w where "os_random P PREAUTH_TOKEN_BYTES (sys_world s) = (b, w)" by fastforce
  then show thesis using that by (cases "length b = PREAUTH_TOKEN_BYTES") (auto simp: preauth_token_def prog_simps)
qed

lemma issue_Raise:
  assumes "preauth_issue P pv s = (Raise e, t)"
  shows "sys_db t = sys_db s"
proof -
  define s0 where "s0 = s\<lparr>sys_world := snd (clock_now P (sys_world s))\<rparr>"
  show ?thesis
  proof (cases rule: preauth_token_run [of P s0])
    case (1 w e')
    with assms show ?thesis by (auto simp: preauth_issue_def Let_def now_utc_reads s0_def prog_simps)
  next
    case (2 w nonce)
    have "isascii nonce" by (fact 2)
    with 2 assms show ?thesis
      by (auto simp: preauth_issue_def Let_def now_utc_reads s0_def prog_simps state_key_ok form_token_ok elim!: bindP_RaiseE dest!: session_scope_Raise_db)
  qed
qed

end
