(* ===== verification/Web.thy ===== *)
theory Web
  imports Preauth Throttle Coordinator_Facts
begin

text \<open>
  The web panel, \<^verbatim>\<open>control/src/ezopenpn/web\<close>: \<^verbatim>\<open>dependencies.py\<close>, \<^verbatim>\<open>middleware.py\<close>, the routes and the
  reconciliation step of \<^verbatim>\<open>app.py\<close>. A handler is an operation on the state that takes a \<open>request\<close> and returns a
  \<open>response\<close>; FastAPI's routing is the datatype \<open>route\<close> with one constructor per decorated function, and
  \<open>serve\<close> puts the policy middleware around the handler of a route.

  Starlette is a parameter: a request carries what it parsed (cookies, headers, form fields or the exception its form
  parser raised); a response keeps the name and the context of a template instead of the HTML.
\<close>

section \<open>Requests and responses\<close>

datatype form_field = FormText ustr | FormFile

record request =
  rq_client :: "ustr option"
  rq_headers :: "ustr \<rightharpoonup> ustr"
  rq_cookies :: "ustr \<rightharpoonup> ustr"
  rq_body :: bytes
  rq_form :: "exn + (ustr \<rightharpoonup> form_field)"
  rq_request_id :: ustr
  rq_client_ip :: ustr

record authenticated_browser =
  ab_identity :: session_identity
  ab_csrf_token :: ustr

record profile_page_links =
  pl_combined_url :: ustr
  pl_vless_link :: ustr
  pl_hysteria_link :: ustr
  pl_combined_qr_svg :: ustr
  pl_vless_qr_svg :: ustr
  pl_hysteria_qr_svg :: ustr

datatype body =
    NoBody | PlainText ustr | Html ustr | JsonBody "(ustr \<times> json) list"
  | LoginTemplate ustr "ustr option"
  | DashboardTemplate authenticated_browser ustr "profile_record list"
  | ProfileTemplate authenticated_browser ustr profile_record "profile_page_links option"

record cookie =
  ck_name :: ustr
  ck_value :: ustr
  ck_max_age :: int
  ck_path :: ustr
  ck_secure :: bool
  ck_httponly :: bool
  ck_samesite :: ustr

record response =
  rs_status :: nat
  rs_body :: body
  rs_headers :: "ustr \<rightharpoonup> ustr"
  rs_cookies :: "cookie list"

definition respond :: "nat \<Rightarrow> body \<Rightarrow> response" where
  "respond status content = \<lparr>rs_status = status, rs_body = content, rs_headers = Map.empty, rs_cookies = []\<rparr>"

text \<open>Header names are compared without case; they are kept in lower case.\<close>

definition set_header :: "ustr \<Rightarrow> ustr \<Rightarrow> response \<Rightarrow> response" where
  "set_header name v r = r\<lparr>rs_headers := (rs_headers r)(name \<mapsto> v)\<rparr>"

definition redirect :: "ustr \<Rightarrow> response" where
  "redirect url = set_header (U ''location'') url (respond 303 NoBody)"

definition set_cookie :: "ustr \<Rightarrow> ustr \<Rightarrow> int \<Rightarrow> ustr \<Rightarrow> bool \<Rightarrow> response \<Rightarrow> response" where
  "set_cookie name v max_age path httponly r = r\<lparr>rs_cookies := rs_cookies r @ [\<lparr>ck_name = name, ck_value = v, ck_max_age = max_age,
     ck_path = path, ck_secure = True, ck_httponly = httponly, ck_samesite = U ''strict''\<rparr>]\<rparr>"

definition delete_cookie :: "ustr \<Rightarrow> ustr \<Rightarrow> bool \<Rightarrow> response \<Rightarrow> response" where
  "delete_cookie name path httponly = set_cookie name [] 0 path httponly"

definition get_or_empty :: "(ustr \<rightharpoonup> ustr) \<Rightarrow> ustr \<Rightarrow> ustr" where
  "get_or_empty m k = (case m k of None \<Rightarrow> [] | Some v \<Rightarrow> v)"

text \<open>The texts of the responses, by code point.\<close>

definition REQUEST_OUTDATED :: ustr where "REQUEST_OUTDATED =
  [1047, 1072, 1087, 1088, 1086, 1089, 32, 1091, 1089, 1090, 1072, 1088, 1077, 1083, 46, 32, 1054, 1090, 1082,
   1088, 1086, 1081, 1090, 1077, 32, 1089, 1090, 1088, 1072, 1085, 1080, 1094, 1091, 32, 1074, 1093, 1086, 1076,
   1072, 32, 1089, 1085, 1086, 1074, 1072, 46]"
definition TOO_MANY_ATTEMPTS :: ustr where "TOO_MANY_ATTEMPTS =
  [1057, 1083, 1080, 1096, 1082, 1086, 1084, 32, 1084, 1085, 1086, 1075, 1086, 32, 1087, 1086, 1087, 1099, 1090,
   1086, 1082, 46, 32, 1055, 1086, 1076, 1086, 1078, 1076, 1080, 1090, 1077, 32, 1080, 32, 1087, 1086, 1087,
   1088, 1086, 1073, 1091, 1081, 1090, 1077, 32, 1089, 1085, 1086, 1074, 1072, 46]"
definition WRONG_CREDENTIALS :: ustr where "WRONG_CREDENTIALS =
  [1051, 1086, 1075, 1080, 1085, 32, 1080, 1083, 1080, 32, 1087, 1072, 1088, 1086, 1083, 1100, 32, 1085, 1077,
   32, 1087, 1086, 1076, 1086, 1096, 1083, 1080, 46]"
definition ACTION_REJECTED :: ustr where "ACTION_REJECTED =
  [1044, 1077, 1081, 1089, 1090, 1074, 1080, 1077, 32, 1086, 1090, 1082, 1083, 1086, 1085, 1077, 1085, 1086, 46]"
definition CHECK_DEVICE_NAME :: ustr where "CHECK_DEVICE_NAME =
  [1055, 1088, 1086, 1074, 1077, 1088, 1100, 1090, 1077, 32, 1080, 1084, 1103, 32, 1091, 1089, 1090, 1088, 1086,
   1081, 1089, 1090, 1074, 1072, 46]"
definition CREATE_CONFLICT :: ustr where "CREATE_CONFLICT =
  [1053, 1077, 32, 1091, 1076, 1072, 1083, 1086, 1089, 1100, 32, 1089, 1086, 1079, 1076, 1072, 1090, 1100, 32,
   1087, 1088, 1086, 1092, 1080, 1083, 1100, 46, 32, 1055, 1086, 1074, 1090, 1086, 1088, 1080, 1090, 1077, 32,
   1087, 1086, 1087, 1099, 1090, 1082, 1091, 46]"
definition PROVISION_INCOMPLETE :: ustr where "PROVISION_INCOMPLETE =
  [1055, 1086, 1076, 1075, 1086, 1090, 1086, 1074, 1082, 1072, 32, 1085, 1077, 32, 1079, 1072, 1074, 1077, 1088,
   1096, 1077, 1085, 1072, 46, 32, 1055, 1086, 1074, 1090, 1086, 1088, 1080, 1090, 1077, 32, 1087, 1086, 1087,
   1099, 1090, 1082, 1091, 46]"
definition PROFILE_NOT_FOUND_TEXT :: ustr where "PROFILE_NOT_FOUND_TEXT =
  [1055, 1088, 1086, 1092, 1080, 1083, 1100, 32, 1085, 1077, 32, 1085, 1072, 1081, 1076, 1077, 1085, 46]"
definition STATE_CHANGED :: ustr where "STATE_CHANGED =
  [1057, 1086, 1089, 1090, 1086, 1103, 1085, 1080, 1077, 32, 1087, 1088, 1086, 1092, 1080, 1083, 1103, 32, 1091,
   1078, 1077, 32, 1080, 1079, 1084, 1077, 1085, 1080, 1083, 1086, 1089, 1100, 46]"
definition OPERATION_INCOMPLETE :: ustr where "OPERATION_INCOMPLETE =
  [1054, 1087, 1077, 1088, 1072, 1094, 1080, 1103, 32, 1085, 1077, 32, 1079, 1072, 1074, 1077, 1088, 1096, 1077,
   1085, 1072, 46, 32, 1047, 1072, 1087, 1091, 1089, 1090, 1080, 1090, 1077, 32, 1076, 1080, 1072, 1075, 1085,
   1086, 1089, 1090, 1080, 1082, 1091, 46]"
definition CONFIRM_DELETION :: ustr where "CONFIRM_DELETION =
  [1055, 1086, 1076, 1090, 1074, 1077, 1088, 1076, 1080, 1090, 1077, 32, 1091, 1076, 1072, 1083, 1077, 1085,
   1080, 1077, 32, 1087, 1088, 1086, 1092, 1080, 1083, 1103, 46]"
definition DELETION_INCOMPLETE :: ustr where "DELETION_INCOMPLETE =
  [1059, 1076, 1072, 1083, 1077, 1085, 1080, 1077, 32, 1085, 1077, 32, 1079, 1072, 1074, 1077, 1088, 1096, 1077,
   1085, 1086, 46, 32, 1047, 1072, 1087, 1091, 1089, 1090, 1080, 1090, 1077, 32, 1076, 1080, 1072, 1075, 1085,
   1086, 1089, 1090, 1080, 1082, 1091, 46]"
definition INTERNAL_ERROR_TEXT :: ustr where "INTERNAL_ERROR_TEXT =
  [1042, 1085, 1091, 1090, 1088, 1077, 1085, 1085, 1103, 1103, 32, 1086, 1096, 1080, 1073, 1082, 1072, 46]"

section \<open>Services\<close>

record web_services =
  ws_dummy_hash :: ustr
  ws_sessions :: session_service
  ws_throttle :: throttle_service
  ws_preauth :: preauth_service
  ws_runtime :: coordinator
  ws_segno :: "ustr \<Rightarrow> ustr option"
  ws_expose_observed_client :: bool
  ws_trusted_proxy_hosts :: "ustr list"

text \<open>\<^verbatim>\<open>datetime.now(UTC)\<close>\<close>

definition web_now :: "'w platform \<Rightarrow> ('w, pydatetime) op" where
  "web_now P = bindP (world_call (clock_now P)) (\<lambda>t. ret (Aware t 0))"

section \<open>dependencies.py\<close>

definition SESSION_COOKIE :: ustr where "SESSION_COOKIE = U ''ezop_session''"
definition CSRF_COOKIE :: ustr where "CSRF_COOKIE = U ''ezop_csrf''"
definition PREAUTH_COOKIE :: ustr where "PREAUTH_COOKIE = U ''ezop_preauth''"

definition browser_of :: "'w platform \<Rightarrow> web_services \<Rightarrow> request \<Rightarrow> ('w, authenticated_browser option) op" where
  "browser_of P ws rq =
     bindP (web_now P) (\<lambda>now.
     bindP (session_authenticate P (ws_sessions ws) (get_or_empty (rq_cookies rq) SESSION_COOKIE) now) (\<lambda>found.
     case found of
       None \<Rightarrow> ret None
     | Some identity \<Rightarrow>
         let csrf_token = get_or_empty (rq_cookies rq) CSRF_COOKIE in
         if \<not> validate_csrf P (ws_sessions ws) identity csrf_token then ret None
         else ret (Some \<lparr>ab_identity = identity, ab_csrf_token = csrf_token\<rparr>)))"

section \<open>middleware.py\<close>

definition SELF_SOURCE :: ustr where "SELF_SOURCE = [39] @ U ''self'' @ [39]"
definition NO_SOURCE :: ustr where "NO_SOURCE = [39] @ U ''none'' @ [39]"

definition CSP :: ustr where
  "CSP = U ''default-src '' @ SELF_SOURCE @ U ''; base-uri '' @ NO_SOURCE
     @ U ''; object-src '' @ NO_SOURCE @ U ''; frame-ancestors '' @ NO_SOURCE
     @ U ''; form-action '' @ SELF_SOURCE @ U ''; script-src '' @ SELF_SOURCE
     @ U ''; style-src '' @ SELF_SOURCE @ U ''; img-src '' @ SELF_SOURCE
     @ U '' data:; connect-src '' @ SELF_SOURCE"

definition COMMERCE_PERMISSION :: ustr where
  "COMMERCE_PERMISSION = [112, 97, 121, 109, 101, 110, 116]"

fun resolves_to :: "'w platform \<Rightarrow> ip_addr \<Rightarrow> ustr list \<Rightarrow> ('w, bool) op" where
  "resolves_to P direct_address [] = ret False"
| "resolves_to P direct_address (trusted_host # hosts) =
     bindP (world_call (dns_addresses P trusted_host)) (\<lambda>resolved.
     case resolved of
       None \<Rightarrow> resolves_to P direct_address hosts
     | Some addresses \<Rightarrow>
         if list_ex (\<lambda>a. ip_address a = Inr direct_address) addresses then ret True
         else resolves_to P direct_address hosts)"

definition is_trusted_proxy :: "'w platform \<Rightarrow> ustr \<Rightarrow> ustr list \<Rightarrow> ('w, bool) op" where
  "is_trusted_proxy P direct trusted_hosts =
     (if direct \<in> set trusted_hosts then ret True
      else case ip_address direct of
        Inl e \<Rightarrow> if is_ValueError e then ret False else raise e
      | Inr direct_address \<Rightarrow> resolves_to P direct_address trusted_hosts)"

definition forwarded_client :: "'w platform \<Rightarrow> request \<Rightarrow> ustr list \<Rightarrow> ('w, ustr) op" where
  "forwarded_client P rq trusted_hosts =
     (let direct = (case rq_client rq of Some host \<Rightarrow> host | None \<Rightarrow> U ''unknown'') in
      bindP (is_trusted_proxy P direct trusted_hosts) (\<lambda>trusted.
      if \<not> trusted then ret direct
      else let forwarded = strip (get_or_empty (rq_headers rq) (U ''x-forwarded-for'')) in
        if forwarded = [] \<or> 44 \<in> set forwarded then ret direct
        else case ip_address forwarded of
          Inl e \<Rightarrow> if is_ValueError e then ret direct else raise e
        | Inr a \<Rightarrow> ret (ip_compressed a)))"

definition policy_headers :: "ustr \<Rightarrow> response \<Rightarrow> response" where
  "policy_headers request_id r = fold (\<lambda>(k, v). set_header k v)
     [(U ''content-security-policy'', CSP), (U ''x-content-type-options'', U ''nosniff''), (U ''referrer-policy'', U ''no-referrer''),
      (U ''permissions-policy'', join_with (U '', '')
         [U ''camera=()'', U ''microphone=()'', U ''geolocation=()'', COMMERCE_PERMISSION @ U ''=()'', U ''usb=()'']),
      (U ''strict-transport-security'', U ''max-age=31536000''), (U ''cache-control'', U ''no-store''),
      (U ''x-request-id'', request_id)] r"

definition dispatch :: "'w platform \<Rightarrow> web_services \<Rightarrow> (request \<Rightarrow> ('w, response) op) \<Rightarrow> request \<Rightarrow> ('w, response) op" where
  "dispatch P ws call_next rq =
     bindP (world_call (os_uuid4 P)) (\<lambda>u. let request_id = uuid_hex u in
     bindP (forwarded_client P rq (ws_trusted_proxy_hosts ws)) (\<lambda>observed_client.
     bindP (catch (call_next (rq\<lparr>rq_request_id := request_id, rq_client_ip := observed_client\<rparr>))
       (\<lambda>_. ret (respond 500 (PlainText INTERNAL_ERROR_TEXT)))) (\<lambda>r.
     let r1 = policy_headers request_id r in
     ret (if ws_expose_observed_client ws then set_header (U ''x-observed-client'') observed_client r1 else r1))))"

section \<open>routes/auth.py\<close>

definition MAX_FORM_BYTES :: nat where "MAX_FORM_BYTES = 16 * 1024"

text \<open>\<^verbatim>\<open>_form\<close> of \<^verbatim>\<open>auth.py\<close> and of \<^verbatim>\<open>profiles.py\<close>, for the field names that each keeps.\<close>

definition form_value :: "(ustr \<rightharpoonup> form_field) \<Rightarrow> ustr \<Rightarrow> ustr option" where
  "form_value parsed key = (case parsed key of None \<Rightarrow> Some [] | Some (FormText t) \<Rightarrow> Some t | Some FormFile \<Rightarrow> None)"

definition read_form :: "ustr list \<Rightarrow> request \<Rightarrow> exn + (ustr \<rightharpoonup> ustr)" where
  "read_form keys rq = (if MAX_FORM_BYTES < length (rq_body rq) then Inr Map.empty
     else bind_sum (rq_form rq) (\<lambda>parsed. Inr (\<lambda>k. if k \<in> set keys then form_value parsed k else None)))"

definition auth_form :: "request \<Rightarrow> exn + (ustr \<rightharpoonup> ustr)" where
  "auth_form = read_form [U ''login'', U ''password'', U ''csrf'']"

text \<open>\<^verbatim>\<open>math.ceil(delta.total_seconds())\<close>\<close>

definition ceil_seconds :: "int \<Rightarrow> int" where
  "ceil_seconds us = - ((- us) div 1000000)"

definition set_preauth_cookie :: "ustr \<Rightarrow> response \<Rightarrow> response" where
  "set_preauth_cookie nonce = set_cookie PREAUTH_COOKIE nonce (5 * 60) (U ''/login'') True"

definition login_form :: "'w platform \<Rightarrow> web_services \<Rightarrow> nat \<Rightarrow> ustr option \<Rightarrow> int option \<Rightarrow> ('w, response) op" where
  "login_form P ws status_code error retry =
     bindP (preauth_issue P (ws_preauth ws)) (\<lambda>challenge.
     let r = respond status_code (LoginTemplate (pc_form_token challenge) error);
         r1 = (case retry of None \<Rightarrow> r | Some n \<Rightarrow> set_header (U ''retry-after'') (int_str n) r)
     in ret (set_preauth_cookie (pc_cookie_nonce challenge) r1))"

definition login_page :: "'w platform \<Rightarrow> web_services \<Rightarrow> request \<Rightarrow> ('w, response) op" where
  "login_page P ws rq = bindP (browser_of P ws rq) (\<lambda>browser.
     if browser \<noteq> None then ret (redirect (U ''/'')) else login_form P ws 200 None None)"

definition logged_in :: "session_grant \<Rightarrow> response" where
  "logged_in grant = delete_cookie PREAUTH_COOKIE (U ''/login'') True
     (set_cookie CSRF_COOKIE (gr_csrf_token grant) (7 * 24 * 60 * 60) (U ''/'') False
     (set_cookie SESSION_COOKIE (gr_raw_token grant) (7 * 24 * 60 * 60) (U ''/'') True (redirect (U ''/''))))"

definition post_login :: "'w platform \<Rightarrow> web_services \<Rightarrow> request \<Rightarrow> ('w, response) op" where
  "post_login P ws rq =
     bindP (lift_result (auth_form rq)) (\<lambda>values.
     bindP (preauth_consume P (ws_preauth ws) (get_or_empty (rq_cookies rq) PREAUTH_COOKIE) (get_or_empty values (U ''csrf''))) (\<lambda>fresh.
     if \<not> fresh then ret (respond 403 (Html REQUEST_OUTDATED))
     else let login_value = take 1024 (get_or_empty values (U ''login''));
              password_value = take 1024 (get_or_empty values (U ''password''));
              client_ip = rq_client_ip rq in
       bindP (web_now P) (\<lambda>now.
       bindP (retry_after P (ws_throttle ws) client_ip login_value now) (\<lambda>waiting.
       if 0 < waiting then login_form P ws 429 (Some TOO_MANY_ATTEMPTS) (Some (ceil_seconds waiting))
       else bindP (verify_credentials P (ws_dummy_hash ws) login_value password_value now) (\<lambda>administrator.
         case administrator of
           None \<Rightarrow> bindP (register_failure P (ws_throttle ws) client_ip login_value now) (\<lambda>delay.
             login_form P ws 401 (Some WRONG_CREDENTIALS) (Some (ceil_seconds delay)))
         | Some a \<Rightarrow> bindP (throttle_clear P (ws_throttle ws) client_ip login_value) (\<lambda>_.
             bindP (session_create P (ws_sessions ws) (ad_id a) now) (\<lambda>grant. ret (logged_in grant))))))))"

definition logged_out :: response where
  "logged_out = delete_cookie CSRF_COOKIE (U ''/'') False (delete_cookie SESSION_COOKIE (U ''/'') True (redirect (U ''/login'')))"

definition post_logout :: "'w platform \<Rightarrow> web_services \<Rightarrow> request \<Rightarrow> ('w, response) op" where
  "post_logout P ws rq =
     bindP (browser_of P ws rq) (\<lambda>browser.
     bindP (lift_result (auth_form rq)) (\<lambda>values.
     let csrf = get_or_empty values (U ''csrf'') in
     case browser of
       None \<Rightarrow> ret (respond 403 (Html ACTION_REJECTED))
     | Some b \<Rightarrow>
         if \<not> isascii csrf \<or> csrf \<noteq> ab_csrf_token b \<or> \<not> validate_csrf P (ws_sessions ws) (ab_identity b) csrf
         then ret (respond 403 (Html ACTION_REJECTED))
         else bindP (web_now P) (\<lambda>now.
           bindP (session_revoke P (si_session_id (ab_identity b)) now) (\<lambda>_. ret logged_out))))"

section \<open>routes/profiles.py\<close>

definition profile_form :: "request \<Rightarrow> exn + (ustr \<rightharpoonup> ustr)" where
  "profile_form = read_form [U ''csrf'', U ''name'', U ''confirm'']"

definition valid_csrf :: "'w platform \<Rightarrow> web_services \<Rightarrow> request \<Rightarrow> ustr \<Rightarrow> ('w, bool) op" where
  "valid_csrf P ws rq submitted = bindP (browser_of P ws rq) (\<lambda>browser.
     case browser of None \<Rightarrow> ret False
     | Some b \<Rightarrow>
         if \<not> isascii submitted \<or> \<not> (1 \<le> length submitted \<and> length submitted \<le> 128) \<or> ab_csrf_token b \<noteq> submitted then ret False
         else ret (validate_csrf P (ws_sessions ws) (ab_identity b) submitted))"

definition web_profile_id :: "'w platform \<Rightarrow> ustr \<Rightarrow> uuid option" where
  "web_profile_id P v = (case uuid_parse (ucd_decimal P) v of Inl _ \<Rightarrow> None | Inr i \<Rightarrow> Some i)"

definition dashboard :: "'w platform \<Rightarrow> web_services \<Rightarrow> request \<Rightarrow> ('w, response) op" where
  "dashboard P ws rq = bindP (browser_of P ws rq) (\<lambda>browser.
     case browser of None \<Rightarrow> ret (redirect (U ''/login''))
     | Some b \<Rightarrow> bindP (repo_list P) (\<lambda>records. ret (respond 200 (DashboardTemplate b (ab_csrf_token b) records))))"

definition create_profile :: "'w platform \<Rightarrow> web_services \<Rightarrow> request \<Rightarrow> ('w, response) op" where
  "create_profile P ws rq =
     bindP (lift_result (profile_form rq)) (\<lambda>values.
     bindP (valid_csrf P ws rq (get_or_empty values (U ''csrf''))) (\<lambda>valid.
     if \<not> valid then ret (respond 403 (Html ACTION_REJECTED))
     else catch
       (bindP (coordinator_create P (ws_runtime ws) (get_or_empty values (U ''name''))) (\<lambda>result.
         ret (redirect (U ''/profiles/'' @ uuid_str (res_profile_id result)))))
       (\<lambda>e. if e = InvalidProfileName then ret (respond 400 (Html CHECK_DEVICE_NAME))
            else if e = ProfileConflict then ret (respond 409 (Html CREATE_CONFLICT))
            else if e = ProfileProvisioningFailed then ret (respond 503 (Html PROVISION_INCOMPLETE))
            else raise e)))"

definition page_links :: "'w platform \<Rightarrow> web_services \<Rightarrow> profile_record \<Rightarrow> exn + profile_page_links option" where
  "page_links P ws r = (if rec_state r \<noteq> ACTIVE then Inr None
     else catch_sum
       (bind_sum (bundle_for_record P (co_cipher (ws_runtime ws)) (co_links (ws_runtime ws)) r) (\<lambda>b.
        bind_sum (build_qr_svg (ws_segno ws) (combined_url b)) (\<lambda>cq.
        bind_sum (build_qr_svg (ws_segno ws) (vless_link b)) (\<lambda>vq.
        bind_sum (build_qr_svg (ws_segno ws) (hysteria_link b)) (\<lambda>hq.
        Inr (Some \<lparr>pl_combined_url = combined_url b, pl_vless_link = vless_link b, pl_hysteria_link = hysteria_link b,
          pl_combined_qr_svg = cq, pl_vless_qr_svg = vq, pl_hysteria_qr_svg = hq\<rparr>))))))
       (\<lambda>e. if e = ProfileLinksUnavailable then Inr None else Inl e))"

definition not_found_page :: response where
  "not_found_page = respond 404 (Html PROFILE_NOT_FOUND_TEXT)"

definition profile_page :: "'w platform \<Rightarrow> web_services \<Rightarrow> request \<Rightarrow> ustr \<Rightarrow> ('w, response) op" where
  "profile_page P ws rq profile_id = bindP (browser_of P ws rq) (\<lambda>browser.
     case browser of None \<Rightarrow> ret (redirect (U ''/login''))
     | Some b \<Rightarrow> (case web_profile_id P profile_id of
         None \<Rightarrow> ret not_found_page
       | Some parsed_id \<Rightarrow> bindP
           (catch (bindP (repo_get P parsed_id) (\<lambda>r. ret (Some r))) (\<lambda>e. if e = ProfileNotFound then ret None else raise e))
           (\<lambda>found. case found of
              None \<Rightarrow> ret not_found_page
            | Some r \<Rightarrow> bindP (lift_result (page_links P ws r)) (\<lambda>links.
                ret (respond 200 (ProfileTemplate b (ab_csrf_token b) r links))))))"

definition change_state :: "'w platform \<Rightarrow> web_services \<Rightarrow> request \<Rightarrow> ustr \<Rightarrow> ustr \<Rightarrow> ('w, response) op" where
  "change_state P ws rq profile_id operation =
     bindP (lift_result (profile_form rq)) (\<lambda>values.
     bindP (valid_csrf P ws rq (get_or_empty values (U ''csrf''))) (\<lambda>valid.
     if \<not> valid then ret (respond 403 (Html ACTION_REJECTED))
     else case web_profile_id P profile_id of
       None \<Rightarrow> ret not_found_page
     | Some parsed_id \<Rightarrow> catch
         (bindP (if operation = U ''disable'' then coordinator_disable P (ws_runtime ws) parsed_id
                 else coordinator_enable P (ws_runtime ws) parsed_id) (\<lambda>_.
           ret (redirect (U ''/profiles/'' @ uuid_str parsed_id))))
         (\<lambda>e. if e = ProfileNotFound then ret not_found_page
              else if e = InvalidProfileTransition then ret (respond 409 (Html STATE_CHANGED))
              else if e = ProfileRevocationFailed \<or> e = ProfileEnableFailed then ret (respond 503 (Html OPERATION_INCOMPLETE))
              else raise e)))"

definition delete_profile :: "'w platform \<Rightarrow> web_services \<Rightarrow> request \<Rightarrow> ustr \<Rightarrow> ('w, response) op" where
  "delete_profile P ws rq profile_id =
     bindP (lift_result (profile_form rq)) (\<lambda>values.
     bindP (valid_csrf P ws rq (get_or_empty values (U ''csrf''))) (\<lambda>valid.
     if \<not> valid then ret (respond 403 (Html ACTION_REJECTED))
     else if values (U ''confirm'') \<noteq> Some (U ''remove'') then ret (respond 400 (Html CONFIRM_DELETION))
     else case web_profile_id P profile_id of
       None \<Rightarrow> ret not_found_page
     | Some parsed_id \<Rightarrow> catch
         (bindP (coordinator_delete P (ws_runtime ws) parsed_id) (\<lambda>_. ret (redirect (U ''/''))))
         (\<lambda>e. if e = ProfileNotFound then ret not_found_page
              else if e = ProfileRevocationFailed \<or> e = ProfileDeleteFailed then ret (respond 503 (Html DELETION_INCOMPLETE))
              else raise e)))"

section \<open>routes/hysteria_auth.py\<close>

definition MAX_BODY_BYTES :: nat where "MAX_BODY_BYTES = 2048"

text \<open>The checks on the decoded object; the keys are compared as a set.\<close>

definition payload_auth :: "json \<Rightarrow> ustr option" where
  "payload_auth v = (case v of
     JDict d \<Rightarrow>
       if fst ` set d \<noteq> {U ''addr'', U ''auth'', U ''tx''} then None
       else (case (map_of d (U ''addr''), map_of d (U ''auth''), map_of d (U ''tx'')) of
           (Some (JStr address), Some (JStr auth), Some (JInt tx)) \<Rightarrow>
             if \<not> (1 \<le> length address \<and> length address \<le> 512) \<or> \<not> (1 \<le> length auth \<and> length auth \<le> 512)
                \<or> \<not> isascii auth \<or> \<not> (0 \<le> tx \<and> tx \<le> 2 ^ 63 - 1) then None
             else Some auth
         | _ \<Rightarrow> None)
   | _ \<Rightarrow> None)"

definition hysteria_payload :: "'w platform \<Rightarrow> bytes \<Rightarrow> exn + ustr option" where
  "hysteria_payload P content = (if \<not> (1 \<le> length content \<and> length content \<le> MAX_BODY_BYTES) then Inr None
     else catch_sum (bind_sum (json_loads_bytes (recursion_budget P) content) (\<lambda>v. Inr (payload_auth v)))
       (\<lambda>e. if e = UnicodeError \<or> e = JSONDecodeError then Inr None else Inl e))"

definition hysteria_response :: "bool \<Rightarrow> ustr \<Rightarrow> response" where
  "hysteria_response ok runtime_id = set_header (U ''cache-control'') (U ''no-store'')
     (respond 200 (JsonBody [(U ''ok'', JBool ok), (U ''id'', JStr runtime_id)]))"

definition DENIED :: response where
  "DENIED = set_header (U ''cache-control'') (U ''no-store'')
     (respond 200 (JsonBody [(U ''ok'', JBool False), (U ''id'', JStr [])]))"

definition authorize :: "'w platform \<Rightarrow> web_services \<Rightarrow> request \<Rightarrow> ('w, response) op" where
  "authorize P ws rq =
     bindP (lift_result (hysteria_payload P (rq_body rq))) (\<lambda>found.
     case found of None \<Rightarrow> ret DENIED
     | Some auth \<Rightarrow> bindP
         (catch (find_by_hysteria_secret P (co_cipher (ws_runtime ws)) auth)
           (\<lambda>e. if is_SQLAlchemyError e then ret None else raise e))
         (\<lambda>r. case r of
            None \<Rightarrow> ret DENIED
          | Some profile \<Rightarrow> if rec_state profile \<noteq> ACTIVE then ret DENIED
              else ret (hysteria_response True (rec_runtime_id profile))))"

section \<open>routes/subscriptions.py and routes/health.py\<close>

definition subscription :: "'w platform \<Rightarrow> web_services \<Rightarrow> ustr \<Rightarrow> ('w, response) op" where
  "subscription P ws subscription_token =
     bindP (subscription_for_token P (co_cipher (ws_runtime ws)) (co_links (ws_runtime ws)) subscription_token) (\<lambda>encoded.
     ret (set_header (U ''cache-control'') (U ''no-store'')
       (case encoded of None \<Rightarrow> respond 404 (PlainText PROFILE_NOT_FOUND_TEXT) | Some t \<Rightarrow> respond 200 (PlainText t))))"

definition health_live :: "('w, response) op" where
  "health_live = ret (respond 200 (JsonBody [(U ''status'', JStr (U ''ok''))]))"

definition not_ready :: "ustr \<Rightarrow> response" where
  "not_ready code = respond 503 (JsonBody [(U ''status'', JStr (U ''not_ready'')), (U ''code'', JStr code)])"

definition health_ready_page :: "'w platform \<Rightarrow> ('w, response) op" where
  "health_ready_page P = bindP (failed (storage_check P)) (\<lambda>broken.
     if broken then ret (not_ready (U ''database_unavailable''))
     else bindP health_read (\<lambda>runtime.
       if \<not> health_ready runtime then
         ret (not_ready (case health_error_code runtime of
           Some code \<Rightarrow> if code = [] then U ''runtime_reconcile_failed'' else code | None \<Rightarrow> U ''runtime_reconcile_failed''))
       else ret (respond 200 (JsonBody [(U ''status'', JStr (U ''ok''))]))))"

section \<open>app.py\<close>

definition reconcile_runtime :: "'w platform \<Rightarrow> web_services \<Rightarrow> ('w, unit) op" where
  "reconcile_runtime P ws = bindP
     (catch (coordinator_reconcile P (ws_runtime ws))
       (\<lambda>_. ret \<lparr>rr_added = [], rr_removed = [], rr_restarted = False, rr_error_code = Some (U ''runtime_reconcile_failed'')\<rparr>))
     health_update"

datatype route =
    GetLogin | PostLogin | PostLogout | GetDashboard | PostProfiles | GetProfile ustr
  | PostDisable ustr | PostEnable ustr | PostDelete ustr | GetSubscription ustr | PostHysteriaAuth | GetLive | GetReady

fun endpoint :: "'w platform \<Rightarrow> web_services \<Rightarrow> route \<Rightarrow> request \<Rightarrow> ('w, response) op" where
  "endpoint P ws GetLogin rq = login_page P ws rq"
| "endpoint P ws PostLogin rq = post_login P ws rq"
| "endpoint P ws PostLogout rq = post_logout P ws rq"
| "endpoint P ws GetDashboard rq = dashboard P ws rq"
| "endpoint P ws PostProfiles rq = create_profile P ws rq"
| "endpoint P ws (GetProfile i) rq = profile_page P ws rq i"
| "endpoint P ws (PostDisable i) rq = change_state P ws rq i (U ''disable'')"
| "endpoint P ws (PostEnable i) rq = change_state P ws rq i (U ''enable'')"
| "endpoint P ws (PostDelete i) rq = delete_profile P ws rq i"
| "endpoint P ws (GetSubscription t) rq = subscription P ws t"
| "endpoint P ws PostHysteriaAuth rq = authorize P ws rq"
| "endpoint P ws GetLive rq = health_live"
| "endpoint P ws GetReady rq = health_ready_page P"

definition serve :: "'w platform \<Rightarrow> web_services \<Rightarrow> route \<Rightarrow> request \<Rightarrow> ('w, response) op" where
  "serve P ws rt = dispatch P ws (endpoint P ws rt)"

end
