(* ===== verification/Web_Facts.thy ===== *)
theory Web_Facts
  imports Web
begin

text \<open>
  What the handlers keep. \<open>holds f c\<close> frames a part of the database; \<open>web_ok R\<close> is the invariant of the whole panel
  (profiles, sessions, throttle) together with a predicate \<open>R\<close> on the profile view, so that one set of lemmas gives both
  that requests move profiles by legal steps (\<open>R\<close> a history) and that most of them move none (\<open>R\<close> an
  equation). \<open>valid_csrf_True\<close> says what an accepted CSRF check means, and \<open>serve_responds\<close> that every
  request gets a response with the policy headers.
\<close>

section \<open>Frames\<close>

definition holds :: "(database \<Rightarrow> 'a) \<Rightarrow> 'a \<Rightarrow> database \<Rightarrow> bool" where
  "holds f c db \<longleftrightarrow> f db = c"

lemma holds_update: "(\<And>db. f (g db) = f db) \<Longrightarrow> keeps (on_db (holds f c)) (db_update g)"
  by (rule keeps_db_update) (simp add: holds_def)

lemma holds_statement: "(\<And>db db'. g db = Inr db' \<Longrightarrow> f db' = f db) \<Longrightarrow> keeps (on_db (holds f c)) (db_statement g)"
  by (rule keeps_db_statement) (simp add: holds_def)

lemma holdsD:
  assumes "\<And>c. keeps (on_db (holds f c)) m" and "m s = (x, t)"
  shows "f (sys_db t) = f (sys_db s)"
  using keepsD_eq [OF assms(1) assms(2), of "f (sys_db s)"] by (simp add: on_db_def holds_def)

lemma keeps_on_db_untouched: "(\<And>db h. keeps (untouched db h) m) \<Longrightarrow> keeps (on_db I) m"
  unfolding keeps_def untouched_def on_db_def by metis

definition security_part :: "database \<Rightarrow> admin_row list \<times> session_row list \<times> throttle_row list" where
  "security_part db = (admins db, admin_sessions db, login_throttles db)"

text \<open>The repository and the coordinator do not touch the tables of the security package.\<close>

lemma insert_security_part:
  "insert_profile p db = Inr db' \<Longrightarrow> security_part db' = security_part db"
  "insert_lookup l db = Inr db' \<Longrightarrow> security_part db' = security_part db"
  "insert_audit e db = Inr db' \<Longrightarrow> security_part db' = security_part db"
  by (auto simp: insert_defs security_part_def split: if_splits)

lemma security_queries [keeps_intros]:
  "keeps (on_db (holds f c)) (repo_get P i)" "keeps (on_db (holds f c)) (repo_list P)"
  by (rule keeps_on_db_untouched, rule untouched_queries)+

lemma keeps_select_profile [keeps_intros]: "keeps I (select_profile i)"
  unfolding select_profile_def by (intro keeps_intros)

lemma security_rows [keeps_intros]:
  "keeps (on_db (holds security_part c)) (db_update (profiles_update g))"
  "keeps (on_db (holds security_part c)) (db_update (remove_profile k))"
  "keeps (on_db (holds security_part c)) (db_statement (insert_audit e))"
  "keeps (on_db (holds security_part c)) (db_statement (add_profile m sid hid t1 t2 t3))"
  by (rule holds_update holds_statement; auto simp: security_part_def remove_profile_def;
      auto simp: add_profile_def bind_sum_eq_Inr security_part_def dest!: insert_security_part)+

lemma security_repository [keeps_intros]:
  "keeps (on_db (holds security_part c)) (set_state P i st err)"
  "keeps (on_db (holds security_part c)) (set_runtime_error P i code)"
  "keeps (on_db (holds security_part c)) (insert_pending P m)"
  "keeps (on_db (holds security_part c)) (delete_local P i)"
  unfolding set_state_def set_runtime_error_def insert_pending_def delete_local_def by (intro keeps_intros)+

lemma security_coordinator_parts [keeps_intros]:
  "keeps (on_db (holds security_part c)) (service_create P k name)"
  "keeps (on_db (holds security_part c)) (mark_error P i code)" "keeps (on_db (holds security_part c)) (activate P co r i)"
  "keeps (on_db (holds security_part c)) (prepare_disabled P i)" "keeps (on_db (holds security_part c)) (abandon P co rid i e)"
  unfolding service_create_def random_exact_def encrypt_field_def Let_def mark_error_def activate_def prepare_disabled_def abandon_def
  by (intro keeps_intros)+

lemma security_coordinator [keeps_intros]:
  "keeps (on_db (holds security_part c)) (coordinator_create P co name)"
  "keeps (on_db (holds security_part c)) (coordinator_disable P co i)"
  "keeps (on_db (holds security_part c)) (coordinator_enable P co i)"
  "keeps (on_db (holds security_part c)) (coordinator_delete P co i)"
proof -
  show d: "keeps (on_db (holds security_part c)) (coordinator_disable P co i)"
    unfolding coordinator_disable_def by (intro keeps_intros)
  show "keeps (on_db (holds security_part c)) (coordinator_create P co name)"
    "keeps (on_db (holds security_part c)) (coordinator_enable P co i)"
    "keeps (on_db (holds security_part c)) (coordinator_delete P co i)"
    unfolding coordinator_create_def coordinator_enable_def coordinator_delete_def by (intro keeps_intros d)+
qed

text \<open>The sessions leave the throttle alone, and the throttle leaves everything else alone.\<close>

lemma throttles_security [keeps_intros]:
  "keeps (on_db (holds login_throttles c)) (verify_credentials P dummy login pw now)"
  "keeps (on_db (holds login_throttles c)) (session_create P sv i now)"
  "keeps (on_db (holds login_throttles c)) (session_authenticate P sv token now)"
  "keeps (on_db (holds login_throttles c)) (session_revoke P k now)"
  unfolding verify_credentials_def session_create_def session_authenticate_def authenticate_body_def session_revoke_def
  by (intro keeps_intros holds_update holds_statement; auto simp: insert_session_def split: if_splits)+

definition other_part :: "database \<Rightarrow> admin_row list \<times> session_row list \<times> profile_row list \<times> lookup_row list" where
  "other_part db = (admins db, admin_sessions db, profiles db, profile_lookups db)"

lemma others_register_identity [keeps_intros]: "keeps (on_db (holds other_part c)) (register_identity P ts k)"
  unfolding register_identity_def Let_def
  by (intro keeps_intros holds_update holds_statement; auto simp: insert_throttle_def other_part_def split: if_splits)

lemma others_register_identities [keeps_intros]: "keeps (on_db (holds other_part c)) (register_identities P ts ks d)"
  by (induction ks arbitrary: d) (auto intro!: keeps_intros)

lemma others_throttle [keeps_intros]:
  "keeps (on_db (holds other_part c)) (register_failure P tv ip login now)"
  "keeps (on_db (holds other_part c)) (retry_after P tv ip login now)"
  "keeps (on_db (holds other_part c)) (throttle_clear P tv ip login)"
  unfolding register_failure_def retry_after_def throttle_clear_def
  by (intro keeps_intros holds_update; simp add: other_part_def)+

section \<open>The invariant of the panel\<close>

definition web_ok :: "(profile_view \<Rightarrow> bool) \<Rightarrow> database \<Rightarrow> bool" where
  "web_ok R db \<longleftrightarrow> repo_inv db \<and> session_inv db \<and> throttle_inv db \<and> R (profile_of db)"

lemma web_security_op:
  assumes "\<And>db0. keeps (on_db (security_frame db0)) m" and "keeps (on_db session_inv) m" and "\<And>c. keeps (on_db (holds login_throttles c)) m"
  shows "keeps (on_db (web_ok R)) m"
proof (rule keepsI)
  fix s :: "'a sys" assume I: "on_db (web_ok R) s"
  obtain x t where run: "m s = (x, t)" by fastforce
  from I have "security_frame (sys_db s) (sys_db s)" by (simp add: on_db_def web_ok_def security_frame_def same_profiles_def repo_inv_schema)
  then have f: "security_frame (sys_db s) (sys_db t)" using keepsD_eq [OF assms(1) run] by (simp add: on_db_def)
  moreover have "session_inv (sys_db t)" using keepsD_eq [OF assms(2) run] I by (simp add: on_db_def web_ok_def)
  ultimately show "on_db (web_ok R) (snd (m s))"
    using I holdsD [OF assms(3) run] security_frame_profiles [OF _ f]
    by (simp add: run on_db_def web_ok_def throttle_inv_def security_frame_def)
qed

lemma web_throttle_op:
  assumes "keeps (on_db throttle_inv) m" and "\<And>c. keeps (on_db (holds other_part c)) m"
  shows "keeps (on_db (web_ok R)) m"
proof (rule keepsI)
  fix s :: "'a sys" assume I: "on_db (web_ok R) s"
  obtain x t where run: "m s = (x, t)" by fastforce
  have th: "throttle_inv (sys_db t)" using keepsD_eq [OF assms(1) run] I by (simp add: on_db_def web_ok_def)
  then have ok: "schema_ok (sys_db t)" by (simp add: throttle_inv_def)
  have same: "same_profiles (sys_db s) (sys_db t)" "admins (sys_db t) = admins (sys_db s)" "admin_sessions (sys_db t) = admin_sessions (sys_db s)"
    using holdsD [OF assms(2) run] by (simp_all add: other_part_def same_profiles_def)
  from I th ok same show "on_db (web_ok R) (snd (m s))"
    by (simp add: run on_db_def web_ok_def session_inv_def same_profiles_view [OF same(1)] same_profiles_inv [OF _ same(1) ok])
qed

lemma web_preauth_op:
  assumes "\<And>db0. keeps (on_db (preauth_frame db0)) m"
  shows "keeps (on_db (web_ok R)) m"
proof (rule keepsI)
  fix s :: "'a sys" assume I: "on_db (web_ok R) s"
  obtain x t where run: "m s = (x, t)" by fastforce
  from I have "preauth_frame (sys_db s) (sys_db s)" by (simp add: on_db_def web_ok_def preauth_frame_def repo_inv_schema)
  then have f: "preauth_frame (sys_db s) (sys_db t)" using keepsD_eq [OF assms run] by (simp add: on_db_def)
  from I preauth_frame_inv [OF f] show "on_db (web_ok R) (snd (m s))"
    by (simp add: run on_db_def web_ok_def throttle_inv_def)
qed

lemma web_profile_op:
  assumes "\<And>v. keeps (on_db (tracked v)) m" and "\<And>c. keeps (on_db (holds security_part c)) m"
  shows "keeps (on_db (web_ok (history v))) m"
proof (rule keepsI)
  fix s :: "'a sys" assume I: "on_db (web_ok (history v)) s"
  obtain x t where run: "m s = (x, t)" by fastforce
  have "tracked v (sys_db t)" using keepsD_eq [OF assms(1) run, of v] I by (simp add: on_db_def web_ok_def tracked_def)
  with I holdsD [OF assms(2) run] show "on_db (web_ok (history v)) (snd (m s))"
    by (auto simp: run on_db_def web_ok_def tracked_def security_part_def session_inv_def throttle_inv_def repo_inv_schema)
qed

lemmas web_profile_ops [keeps_intros] =
  web_profile_op [OF tracked_coordinator(1) security_coordinator(1)] web_profile_op [OF tracked_coordinator(2) security_coordinator(2)]
  web_profile_op [OF tracked_coordinator(3) security_coordinator(3)] web_profile_op [OF tracked_delete security_coordinator(4)]

lemma web_calls [keeps_intros]:
  "keeps (on_db (web_ok R)) (session_authenticate P sv token now)" "keeps (on_db (web_ok R)) (session_create P sv i now)"
  "keeps (on_db (web_ok R)) (session_revoke P k now)" "keeps (on_db (web_ok R)) (verify_credentials P dummy login pw now)"
  "keeps (on_db (web_ok R)) (register_failure P tv ip login now)" "keeps (on_db (web_ok R)) (retry_after P tv ip login now)"
  "keeps (on_db (web_ok R)) (throttle_clear P tv ip login)" "keeps (on_db (web_ok R)) (preauth_issue P pv)"
  "keeps (on_db (web_ok R)) (preauth_consume P pv nonce form)"
  by (rule web_security_op web_throttle_op web_preauth_op; intro keeps_intros)+

section \<open>Handlers\<close>

lemma web_parts [keeps_intros]:
  "keeps (on_db I) (web_now P)" "keeps (on_db (web_ok R)) (browser_of P ws rq)" "keeps (on_db (web_ok R)) (valid_csrf P ws rq csrf)"
  "keeps (on_db (web_ok R)) (login_form P ws status err retry)"
  unfolding valid_csrf_def browser_of_def web_now_def login_form_def Let_def by (intro keeps_intros)+

lemma web_queries [keeps_intros]:
  "keeps (on_db I) (find_by_hysteria_secret P c a)" "keeps (on_db I) (subscription_for_token P c cfg token)"
  "keeps (on_db I) (repo_get P i)" "keeps (on_db I) (repo_list P)"
  unfolding subscription_for_token_def
  by (rule keeps_on_db_untouched, intro keeps_intros)+

text \<open>Handlers that never change a profile keep every predicate on the profiles.\<close>

lemma web_reading [keeps_intros]:
  "keeps (on_db (web_ok R)) (login_page P ws rq)" "keeps (on_db (web_ok R)) (post_login P ws rq)"
  "keeps (on_db (web_ok R)) (post_logout P ws rq)" "keeps (on_db (web_ok R)) (dashboard P ws rq)"
  "keeps (on_db (web_ok R)) (profile_page P ws rq i)" "keeps (on_db (web_ok R)) (subscription P ws token)"
  "keeps (on_db (web_ok R)) (authorize P ws rq)" "keeps (on_db (web_ok R)) health_live" "keeps (on_db (web_ok R)) (health_ready_page P)"
  unfolding login_page_def post_login_def post_logout_def dashboard_def profile_page_def subscription_def authorize_def health_live_def
    health_ready_page_def health_read_def Let_def
  by (intro keeps_intros)+

lemma web_writing [keeps_intros]:
  "keeps (on_db (web_ok (history v))) (create_profile P ws rq)"
  "keeps (on_db (web_ok (history v))) (change_state P ws rq i oper)"
  "keeps (on_db (web_ok (history v))) (delete_profile P ws rq i)"
  unfolding create_profile_def change_state_def delete_profile_def by (intro keeps_intros)+

lemma web_endpoint [keeps_intros]: "keeps (on_db (web_ok (history v))) (endpoint P ws rt rq)"
  by (cases rt) (simp_all only: endpoint.simps, intro keeps_intros | intro keeps_intros)+

lemma keeps_resolves_to [keeps_intros]: "keeps (on_db I) (resolves_to P a hs)"
  by (induction hs) (auto intro!: keeps_intros)

lemma keeps_forwarded_client [keeps_intros]: "keeps (on_db I) (forwarded_client P rq hs)"
  unfolding forwarded_client_def is_trusted_proxy_def Let_def by (intro keeps_intros)

lemma web_serve [keeps_intros]: "keeps (on_db (web_ok (history v))) (serve P ws rt rq)"
  unfolding serve_def dispatch_def Let_def by (intro keeps_intros)

lemma web_reconcile [keeps_intros]: "keeps (on_db (web_ok R)) (reconcile_runtime P ws)"
  unfolding reconcile_runtime_def by (intro keeps_intros)

section \<open>Authenticated requests\<close>

definition changes_profiles :: "route \<Rightarrow> bool" where
  "changes_profiles rt \<longleftrightarrow> (case rt of PostProfiles \<Rightarrow> True | PostDisable _ \<Rightarrow> True | PostEnable _ \<Rightarrow> True | PostDelete _ \<Rightarrow> True | _ \<Rightarrow> False)"

lemma reading_endpoint: "\<not> changes_profiles rt \<Longrightarrow> keeps (on_db (web_ok R)) (endpoint P ws rt rq)"
  by (cases rt) (auto simp: changes_profiles_def intro: keeps_intros)

text \<open>
  \<open>csrf_session P ws rq now db csrf\<close>: the session cookie of the request belongs to a session that is live at \<open>now\<close>, and
  \<open>csrf\<close> is the CSRF token of that session and the one in the request's cookie.
\<close>

definition csrf_session :: "'w platform \<Rightarrow> web_services \<Rightarrow> request \<Rightarrow> int \<Rightarrow> database \<Rightarrow> ustr \<Rightarrow> bool" where
  "csrf_session P ws rq now db csrf \<longleftrightarrow> (\<exists>r a.
     session_at db (digest_text P (ws_sessions ws) (get_or_empty (rq_cookies rq) SESSION_COOKIE)) = Some r
     \<and> session_live db now r a \<and> csrf = get_or_empty (rq_cookies rq) CSRF_COOKIE
     \<and> csrf_digest P (ws_sessions ws) csrf = Inr (se_csrf_digest r))"

lemma browser_of_Some:
  assumes "session_inv (sys_db s)" and "browser_of P ws rq s = (Ok (Some b), t)"
  shows "csrf_session P ws rq (fst (clock_now P (sys_world s))) (sys_db s) (ab_csrf_token b)"
proof -
  let ?now = "fst (clock_now P (sys_world s))" and ?s = "s\<lparr>sys_world := snd (clock_now P (sys_world s))\<rparr>"
  have "web_now P s = (Ok (Aware ?now 0), ?s)" by (simp add: web_now_def world_call_def prog_defs split: prod.splits)
  with assms(2) obtain identity s1 where auth: "session_authenticate P (ws_sessions ws) (get_or_empty (rq_cookies rq) SESSION_COOKIE) (Aware ?now 0) ?s
      = (Ok (Some identity), s1)" and b: "validate_csrf P (ws_sessions ws) identity (ab_csrf_token b)" "ab_csrf_token b = get_or_empty (rq_cookies rq) CSRF_COOKIE"
    unfolding browser_of_def by (auto simp: prog_simps Let_def elim!: bindP_OkE split: option.splits if_splits)
  have "session_inv (sys_db ?s)" using assms(1) by simp
  then obtain ts r a where "utc_instant (Aware ?now 0) = Inr ts"
    "session_at (sys_db ?s) (digest_text P (ws_sessions ws) (get_or_empty (rq_cookies rq) SESSION_COOKIE)) = Some r"
    "session_live (sys_db ?s) ts r a" "identity = row_identity r a"
    using auth by (rule authenticate_Some)
  with b show ?thesis by (auto simp: csrf_session_def validate_csrf_def row_identity_def)
qed

lemma valid_csrf_True:
  assumes "session_inv (sys_db s)" and "valid_csrf P ws rq csrf s = (Ok True, t)"
  shows "csrf_session P ws rq (fst (clock_now P (sys_world s))) (sys_db s) csrf"
proof -
  from assms(2) obtain b where "browser_of P ws rq s = (Ok (Some b), t)" "ab_csrf_token b = csrf"
    unfolding valid_csrf_def by (auto simp: prog_simps elim!: bindP_OkE split: option.splits if_splits)
  with browser_of_Some [OF assms(1)] show ?thesis by blast
qed

text \<open>The guard of the handlers that change profiles.\<close>

lemma guarded_change:
  assumes I: "web_ok (\<lambda>v. v = profile_of (sys_db s)) (sys_db s)"
    and run: "bindP (lift_result (profile_form rq)) (\<lambda>form. bindP (valid_csrf P ws rq (get_or_empty form (U ''csrf''))) (\<lambda>valid.
      if \<not> valid then ret (respond 403 (Html ACTION_REJECTED)) else body form)) s = (x, t)"
    and changed: "profile_of (sys_db t) \<noteq> profile_of (sys_db s)"
  shows "\<exists>form. profile_form rq = Inr form
    \<and> csrf_session P ws rq (fst (clock_now P (sys_world s))) (sys_db s) (get_or_empty form (U ''csrf''))"
proof (cases "profile_form rq")
  case (Inl e)
  with run changed show ?thesis by (auto simp: prog_simps)
next
  case (Inr form)
  obtain y s1 where v: "valid_csrf P ws rq (get_or_empty form (U ''csrf'')) s = (y, s1)" by fastforce
  have "profile_of (sys_db s1) = profile_of (sys_db s)"
    using keepsD_eq [OF web_parts(3) v, of "\<lambda>v. v = profile_of (sys_db s)"] I by (simp add: on_db_def web_ok_def)
  with run changed Inr v have "y = Ok True" by (cases y) (auto simp: prog_simps split: if_splits)
  with v Inr I valid_csrf_True [of s P ws rq] show ?thesis by (auto simp: web_ok_def)
qed

section \<open>Every request is answered\<close>

lemma returns_web_parts [returns_intros]:
  "returns (web_now P)" "returns (browser_of P ws rq)" "returns (valid_csrf P ws rq csrf)" "returns (login_form P ws status err retry)"
  unfolding valid_csrf_def browser_of_def web_now_def login_form_def Let_def by (intro returns_intros returns_sessions)+

lemma returns_resolves_to [returns_intros]: "returns (resolves_to P a hs)"
  by (induction hs) (auto intro!: returns_intros)

lemma returns_forwarded_client [returns_intros]: "returns (forwarded_client P rq hs)"
  unfolding forwarded_client_def is_trusted_proxy_def Let_def by (intro returns_intros)

lemma returns_register_identities [returns_intros]: "returns (register_identities P ts ks d)"
  unfolding register_identity_def Let_def
  by (induction ks arbitrary: d) (auto simp: register_identity_def Let_def intro!: returns_intros)

lemma returns_security [returns_intros]:
  "returns (password_hash P pw)" "returns (verify_credentials P dummy name pw now)"
  "returns (register_failure P tv ip name now)" "returns (retry_after P tv ip name now)" "returns (throttle_clear P tv ip name)"
  unfolding password_hash_def verify_credentials_def register_failure_def retry_after_def throttle_clear_def
  by (intro returns_intros)+

lemma returns_web_queries [returns_intros]:
  "returns (find_by_hysteria_secret P c a)" "returns (subscription_for_token P c cfg token)"
  unfolding subscription_for_token_def by (intro returns_intros)+

lemma returns_endpoint:
  assumes "clock_ok P"
  shows "returns (endpoint P ws rt rq)"
  by (cases rt)
    (simp_all only: endpoint.simps login_page_def post_login_def post_logout_def dashboard_def profile_page_def subscription_def
      authorize_def health_live_def health_ready_page_def health_read_def create_profile_def change_state_def delete_profile_def Let_def,
     (intro returns_intros returns_sessions returns_coordinator assms)+)

lemma resolves_to_Ok: "\<exists>b w. resolves_to P a hs s = (Ok b, s\<lparr>sys_world := w\<rparr>)"
proof (induction hs arbitrary: s)
  case Nil
  have "s = s\<lparr>sys_world := sys_world s\<rparr>" by simp
  then show ?case unfolding resolves_to.simps ret_run by blast
next
  case (Cons h hs)
  obtain r w where "dns_addresses P h (sys_world s) = (r, w)" by fastforce
  moreover obtain b w' where "resolves_to P a hs (s\<lparr>sys_world := w\<rparr>) = (Ok b, s\<lparr>sys_world := w\<rparr>\<lparr>sys_world := w'\<rparr>)" using Cons by blast
  ultimately show ?case by (auto simp: prog_simps world_call_def split: option.splits)
qed

lemma forwarded_client_Ok: "\<exists>c w. forwarded_client P rq hs s = (Ok c, s\<lparr>sys_world := w\<rparr>)"
proof -
  define direct where "direct = (case rq_client rq of Some host \<Rightarrow> host | None \<Rightarrow> U ''unknown'')"
  have "\<exists>b w. is_trusted_proxy P direct hs s = (Ok b, s\<lparr>sys_world := w\<rparr>)"
    using resolves_to_Ok [of P _ hs s] ip_address_error [of direct]
    by (auto simp: is_trusted_proxy_def prog_simps split: sum.splits) (metis sys.surjective sys.update_convs(3))+
  then obtain b w where "is_trusted_proxy P direct hs s = (Ok b, s\<lparr>sys_world := w\<rparr>)" by blast
  then show ?thesis
    unfolding forwarded_client_def direct_def [symmetric]
    by (auto simp: prog_simps Let_def split: sum.splits dest!: ip_address_error)
qed

text \<open>The headers that the policy sets on every response.\<close>

definition policy :: "(ustr \<times> ustr) list" where
  "policy = [(U ''content-security-policy'', CSP), (U ''x-content-type-options'', U ''nosniff''), (U ''referrer-policy'', U ''no-referrer''),
     (U ''strict-transport-security'', U ''max-age=31536000''), (U ''cache-control'', U ''no-store'')]"

lemma policy_headers_set:
  "(k, v) \<in> set policy \<Longrightarrow> rs_headers (policy_headers i r) k = Some v" "rs_status (policy_headers i r) = rs_status r"
  "rs_body (policy_headers i r) = rs_body r" "rs_cookies (policy_headers i r) = rs_cookies r"
  by (auto simp: policy_def policy_headers_def set_header_def U_def)

lemma serve_responds:
  assumes "clock_ok P"
  obtains r t r0 i s0 c where "serve P ws rt rq s = (Ok r, t)" "rs_headers r = rs_headers (policy_headers i r0) \<or>
      rs_headers r = (rs_headers (policy_headers i r0))(U ''x-observed-client'' \<mapsto> c)"
    "rs_status r = rs_status r0" "rs_body r = rs_body r0" "rs_cookies r = rs_cookies r0"
    "\<exists>w. s0 = s\<lparr>sys_world := w\<rparr>"
    "endpoint P ws rt (rq\<lparr>rq_request_id := i, rq_client_ip := c\<rparr>) s0 = (Ok r0, t)
     \<or> (\<exists>e. endpoint P ws rt (rq\<lparr>rq_request_id := i, rq_client_ip := c\<rparr>) s0 = (Raise e, t)) \<and> r0 = respond 500 (PlainText INTERNAL_ERROR_TEXT)"
proof -
  obtain u w where u: "world_call (os_uuid4 P) s = (Ok u, s\<lparr>sys_world := w\<rparr>)" using world_call_shape [of "os_uuid4 P" s] by blast
  obtain c w' where c: "forwarded_client P rq (ws_trusted_proxy_hosts ws) (s\<lparr>sys_world := w\<rparr>) = (Ok c, s\<lparr>sys_world := w\<rparr>\<lparr>sys_world := w'\<rparr>)"
    using forwarded_client_Ok [of P rq "ws_trusted_proxy_hosts ws" "s\<lparr>sys_world := w\<rparr>"] by blast
  let ?s0 = "s\<lparr>sys_world := w\<rparr>\<lparr>sys_world := w'\<rparr>" and ?rq = "rq\<lparr>rq_request_id := uuid_hex u, rq_client_ip := c\<rparr>"
  obtain x t where run: "endpoint P ws rt ?rq ?s0 = (x, t)" by fastforce
  define r0 where "r0 = (case x of Ok r \<Rightarrow> r | _ \<Rightarrow> respond 500 (PlainText INTERNAL_ERROR_TEXT))"
  define r1 where "r1 = policy_headers (uuid_hex u) r0"
  define r where "r = (if ws_expose_observed_client ws then set_header (U ''x-observed-client'') c r1 else r1)"
  have "x \<noteq> Stuck" using returnsD [OF returns_endpoint [OF assms], of ws rt ?rq ?s0 t] run by auto
  then have 1: "serve P ws rt rq s = (Ok r, t)"
    using u c run by (cases x) (simp_all add: serve_def dispatch_def prog_simps Let_def r_def r1_def r0_def)
  have 2: "rs_headers r = rs_headers r1 \<or> rs_headers r = (rs_headers r1)(U ''x-observed-client'' \<mapsto> c)"
    by (simp add: r_def set_header_def)
  have 3: "rs_status r = rs_status r0" "rs_body r = rs_body r0" "rs_cookies r = rs_cookies r0"
    by (simp_all add: r_def set_header_def r1_def policy_headers_set)
  have 4: "\<exists>w. ?s0 = s\<lparr>sys_world := w\<rparr>" by auto
  have 5: "endpoint P ws rt ?rq ?s0 = (Ok r0, t)
      \<or> (\<exists>e. endpoint P ws rt ?rq ?s0 = (Raise e, t)) \<and> r0 = respond 500 (PlainText INTERNAL_ERROR_TEXT)"
    using run \<open>x \<noteq> Stuck\<close> by (cases x) (simp_all add: r0_def)
  show thesis by (rule that [OF 1 2 [unfolded r1_def] 3 4 5])
qed

section \<open>The observed client\<close>

text \<open>\<open>not_proxy P hosts d\<close>: no trusted host resolves to the address \<open>d\<close>.\<close>

definition not_proxy :: "'w platform \<Rightarrow> ustr list \<Rightarrow> ip_addr \<Rightarrow> bool" where
  "not_proxy P hosts d \<longleftrightarrow> (\<forall>h w names a. h \<in> set hosts \<longrightarrow> fst (dns_addresses P h w) = Some names \<longrightarrow> a \<in> set names \<longrightarrow> ip_address a \<noteq> Inr d)"

lemma resolves_to_untrusted: "not_proxy P hosts d \<Longrightarrow> fst (resolves_to P d hosts s) = Ok False"
proof (induction hosts arbitrary: s)
  case (Cons h hs)
  obtain names w where dns: "dns_addresses P h (sys_world s) = (names, w)" by fastforce
  have "\<not> list_ex (\<lambda>a. ip_address a = Inr d) ns" if "names = Some ns" for ns
  proof -
    have "fst (dns_addresses P h (sys_world s)) = Some ns" using dns that by simp
    then show ?thesis using Cons.prems by (auto simp: list_ex_iff not_proxy_def)
  qed
  moreover have "fst (resolves_to P d hs u) = Ok False" for u using Cons by (simp add: not_proxy_def)
  ultimately show ?case using dns by (simp add: prog_simps split: option.splits)
qed (simp add: prog_simps)

lemma untrusted_client:
  assumes "rq_client rq = Some host" and "host \<notin> set hosts" and "\<And>d. ip_address host = Inr d \<Longrightarrow> not_proxy P hosts d"
  shows "forwarded_client P rq hosts s = (Ok host, snd (is_trusted_proxy P host hosts s))"
proof -
  have "fst (is_trusted_proxy P host hosts s) = Ok False"
    using assms(2,3) ip_address_error [of host] resolves_to_untrusted [of P hosts _ s]
    by (cases "ip_address host") (auto simp: is_trusted_proxy_def prog_simps)
  then have "is_trusted_proxy P host hosts s = (Ok False, snd (is_trusted_proxy P host hosts s))" by (simp add: prod_eq_iff)
  then show ?thesis using assms(1) by (simp add: forwarded_client_def bindP_Ok ret_run)
qed

text \<open>No handler reads a header.\<close>

lemma other_fields:
  "rq_cookies (rq\<lparr>rq_headers := h\<rparr>) = rq_cookies rq" "rq_body (rq\<lparr>rq_headers := h\<rparr>) = rq_body rq"
  "rq_form (rq\<lparr>rq_headers := h\<rparr>) = rq_form rq" "rq_client_ip (rq\<lparr>rq_headers := h\<rparr>) = rq_client_ip rq"
  by simp_all

lemma endpoint_headers: "endpoint P ws rt (rq\<lparr>rq_headers := h\<rparr>) = endpoint P ws rt rq"
  by (cases rt) (simp_all only: endpoint.simps, unfold login_page_def post_login_def post_logout_def dashboard_def profile_page_def authorize_def
    create_profile_def change_state_def delete_profile_def auth_form_def profile_form_def read_form_def browser_of_def valid_csrf_def
    other_fields, (rule refl)+)

section \<open>What later requests cannot undo\<close>

lemma fact_from_frame:
  assumes "\<And>c. keeps (on_db (holds admin_sessions c)) m"
  shows "keeps (on_db (session_fact Q d)) m"
proof (rule keepsI)
  fix s :: "'a sys" assume "on_db (session_fact Q d) s"
  moreover obtain x t where run: "m s = (x, t)" by fastforce
  ultimately show "on_db (session_fact Q d) (snd (m s))"
    using holdsD [OF assms run] by (simp add: on_db_def session_fact_def session_at_def)
qed

lemma holds_part:
  assumes "\<And>c. keeps (on_db (holds f c)) m" and "\<And>db db'. f db' = f db \<Longrightarrow> g db' = g db"
  shows "keeps (on_db (holds g c)) m"
proof (rule keepsI)
  fix s :: "'b sys" assume "on_db (holds g c) s"
  moreover obtain x t where run: "m s = (x, t)" by fastforce
  ultimately show "on_db (holds g c) (snd (m s))"
    using assms(2) [OF holdsD [OF assms(1) run]] by (simp add: on_db_def holds_def)
qed

lemma sessions_part: "security_part db' = security_part db \<Longrightarrow> admin_sessions db' = admin_sessions db"
  "other_part db' = other_part db \<Longrightarrow> admin_sessions db' = admin_sessions db"
  by (simp_all add: security_part_def other_part_def)

lemma holds_preauth [keeps_intros]:
  "keeps (on_db (holds admin_sessions c)) (preauth_issue P pv)" "keeps (on_db (holds admin_sessions c)) (preauth_consume P pv nonce form)"
  unfolding preauth_issue_def preauth_consume_def preauth_token_def Let_def
  by (intro keeps_intros holds_update holds_statement; auto simp: insert_state_def split: if_splits)+

lemma holds_sessions_calls [keeps_intros]:
  "keeps (on_db (holds admin_sessions c)) (coordinator_create P co name)" "keeps (on_db (holds admin_sessions c)) (coordinator_disable P co i)"
  "keeps (on_db (holds admin_sessions c)) (coordinator_enable P co i)" "keeps (on_db (holds admin_sessions c)) (coordinator_delete P co i)"
  "keeps (on_db (holds admin_sessions c)) (register_failure P tv ip name now)"
  "keeps (on_db (holds admin_sessions c)) (retry_after P tv ip name now)" "keeps (on_db (holds admin_sessions c)) (throttle_clear P tv ip name)"
  "keeps (on_db (holds admin_sessions c)) (verify_credentials P dummy name pw now)"
proof -
  show "keeps (on_db (holds admin_sessions c)) (verify_credentials P dummy name pw now)"
    unfolding verify_credentials_def by (intro keeps_intros holds_update; simp)
qed (rule holds_part [OF security_coordinator(1) sessions_part(1)] holds_part [OF security_coordinator(2) sessions_part(1)]
    holds_part [OF security_coordinator(3) sessions_part(1)] holds_part [OF security_coordinator(4) sessions_part(1)]
    holds_part [OF others_throttle(1) sessions_part(2)] holds_part [OF others_throttle(2) sessions_part(2)]
    holds_part [OF others_throttle(3) sessions_part(2)]; assumption)+

lemmas fact_calls [keeps_intros] = holds_preauth [THEN fact_from_frame] holds_sessions_calls [THEN fact_from_frame]

lemma fact_endpoint [keeps_intros]:
  assumes "session_stable Q"
  shows "keeps (on_db (session_fact Q d)) (endpoint P ws rt rq)"
  by (cases rt)
    (simp_all only: endpoint.simps login_page_def post_login_def post_logout_def dashboard_def profile_page_def subscription_def
      authorize_def health_live_def health_ready_page_def health_read_def create_profile_def change_state_def delete_profile_def
      browser_of_def valid_csrf_def login_form_def web_now_def Let_def,
     (intro keeps_intros assms)+)

lemma fact_serve: "session_stable Q \<Longrightarrow> keeps (on_db (session_fact Q d)) (serve P ws rt rq)"
  unfolding serve_def dispatch_def Let_def by (intro keeps_intros; assumption)

text \<open>A sequence of requests, each followed by a run of the background reconciliation.\<close>

definition traffic :: "'w platform \<Rightarrow> web_services \<Rightarrow> (route \<times> request) list \<Rightarrow> ('w, unit) op" where
  "traffic P ws = for_each (\<lambda>(rt, rq). bindP (serve P ws rt rq) (\<lambda>_. reconcile_runtime P ws))"

lemma keeps_traffic [keeps_intros]: "keeps (on_db (web_ok (history v))) (traffic P ws requests)"
  unfolding traffic_def by (intro keeps_intros)

lemma fact_traffic: "session_stable Q \<Longrightarrow> keeps (on_db (session_fact Q d)) (traffic P ws requests)"
  unfolding traffic_def reconcile_runtime_def by (intro keeps_intros fact_serve; assumption)

section \<open>Messages of the Hysteria server\<close>

lemma payload_auth_text: "payload_auth v = Some auth \<Longrightarrow> 1 \<le> length auth \<and> length auth \<le> 512 \<and> isascii auth"
  by (auto simp: payload_auth_def split: json.splits option.splits if_splits prod.splits)

lemma payload_text: "hysteria_payload P content = Inr (Some auth) \<Longrightarrow> 1 \<le> length auth \<and> length auth \<le> 512 \<and> isascii auth"
  by (auto simp: hysteria_payload_def catch_sum_def bind_sum_def split: if_splits sum.splits dest: payload_auth_text)

text \<open>The request body that Hysteria's HTTP authentication sends for a client, members in the order of its documentation.\<close>

definition hysteria_message :: "ustr \<Rightarrow> ustr \<Rightarrow> nat \<Rightarrow> ustr" where
  "hysteria_message address auth tx = 123 # 34 # U ''addr'' @ 34 # 58 # 34 # address @ 34 # 44 # 34 # U ''auth'' @ 34 # 58 # 34 # auth
     @ 34 # 44 # 34 # U ''tx'' @ 34 # 58 # dec_str tx @ [125]"

lemma plain_ascii: "list_all plain_char s \<Longrightarrow> isascii s \<and> 0 \<notin> set s"
  by (auto simp: isascii_def list_all_iff plain_char_def)

lemma scan_once_scalar: "scan_scalar (c # s) = Inr (v, r) \<Longrightarrow> c \<noteq> 123 \<Longrightarrow> c \<noteq> 91 \<Longrightarrow> scan_once d (c # s) = Inr (v, r)"
  by (cases d) auto

lemma scan_once_number:
  assumes "length (dec_str n) \<le> 4300"
  shows "scan_once d (dec_str n @ 125 # r) = Inr (JInt (int n), 125 # r)"
proof -
  obtain c ds where n: "dec_str n = c # ds" by (cases "dec_str n") auto
  have "48 \<le> c \<and> c \<le> 57" using dec_str_chars [of n] n by simp
  then show ?thesis using scan_dec_str [of 125 n r] assms n by (simp add: scan_once_scalar is_digit_def)
qed

lemma hysteria_message_loads:
  assumes "list_all plain_char address" and "list_all plain_char auth" and "length (dec_str tx) \<le> 4300"
  shows "json_decode (Suc d) (hysteria_message address auth tx)
    = Inr (JDict [(U ''addr'', JStr address), (U ''auth'', JStr auth), (U ''tx'', JInt (int tx))])"
proof -
  have keys: "list_all plain_char (U ''addr'')" "list_all plain_char (U ''auth'')" "list_all plain_char (U ''tx'')"
    by (simp_all add: U_def plain_char_def)
  have no_space: "skip_space (dec_str tx @ r) = dec_str tx @ r" for r
    using dec_str_chars [of tx] by (cases "dec_str tx") (auto simp: skip_space_def json_space_def)
  let ?m3 = "34 # U ''tx'' @ 34 # 58 # dec_str tx @ [125]"
  let ?m2 = "34 # U ''auth'' @ 34 # 58 # 34 # auth @ 34 # 44 # ?m3"
  let ?m1 = "34 # U ''addr'' @ 34 # 58 # 34 # address @ 34 # 44 # ?m2"
  have v: "scan_once d (34 # s @ 34 # r) = Inr (JStr s, r)" if "list_all plain_char s" for s r
    by (rule scan_once_scalar [OF scan_scalar_text [OF that]]) simp_all
  have 3: "json_members (scan_once d) (Suc n) ?m3 = Inr ([(U ''tx'', JInt (int tx))], [])" for n
    by (rule members_last [OF keys(3)]) (simp_all add: scan_once_number [OF assms(3), of d "[]", simplified] no_space)
  have 2: "json_members (scan_once d) (Suc (Suc n)) ?m2 = Inr ([(U ''auth'', JStr auth), (U ''tx'', JInt (int tx))], [])" for n
    by (rule members_more [OF keys(2) v [OF assms(2)] _ 3]) (simp add: skip_space_def json_space_def)
  have 1: "json_members (scan_once d) (Suc (Suc (Suc n))) ?m1
      = Inr ([(U ''addr'', JStr address), (U ''auth'', JStr auth), (U ''tx'', JInt (int tx))], [])" for n
    by (rule members_more [OF keys(1) v [OF assms(1)] _ 2]) (simp add: skip_space_def json_space_def)
  obtain n where "length ?m1 = Suc (Suc (Suc n))" by (simp add: U_def)
  then have "json_object (scan_once d) ?m1 = Inr (JDict [(U ''addr'', JStr address), (U ''auth'', JStr auth), (U ''tx'', JInt (int tx))], [])"
    using 1 by (simp add: json_object_def skip_space_def json_space_def dict_of_def U_def)
  then show ?thesis
    by (simp add: json_decode_def hysteria_message_def skip_space_def json_space_def)
qed

lemma hysteria_message_payload:
  assumes "list_all plain_char address" and "list_all plain_char auth" and "length address \<in> {1..512}" and "length auth \<in> {1..512}"
    and "tx < 2 ^ 63" and "0 < recursion_budget P"
  shows "hysteria_payload P (ascii_bytes (hysteria_message address auth tx)) = Inr (Some auth)"
proof -
  let ?m = "hysteria_message address auth tx"
  have "(2 :: nat) ^ 63 < 10 ^ 19" by simp
  with assms(5) have digits: "length (dec_str tx) \<le> 19" by (intro length_dec_str) linarith+
  have "isascii ?m \<and> 0 \<notin> set ?m"
    using plain_ascii [OF assms(1)] plain_ascii [OF assms(2)] dec_str_chars [of tx]
    by (auto simp: hysteria_message_def isascii_def U_def list_all_iff)
  then have "json_loads_bytes (recursion_budget P) (ascii_bytes ?m)
      = Inr (JDict [(U ''addr'', JStr address), (U ''auth'', JStr auth), (U ''tx'', JInt (int tx))])"
    using hysteria_message_loads [OF assms(1,2)] digits assms(6)
    by (cases "recursion_budget P") (simp_all add: json_loads_bytes_def map_unat_ascii_bytes decode_json_ascii)
  moreover have "1 \<le> length (ascii_bytes ?m)" "length (ascii_bytes ?m) \<le> MAX_BODY_BYTES"
    using assms(3,4) digits by (simp_all add: hysteria_message_def ascii_bytes_def MAX_BODY_BYTES_def U_def)
  moreover have "int tx \<le> 2 ^ 63 - 1" using assms(5) by simp
  ultimately show ?thesis
    using assms(3,4) plain_ascii [OF assms(2)] by (auto simp: hysteria_payload_def payload_auth_def U_def)
qed

section \<open>Login and logout\<close>

lemma consume_True:
  assumes "storage_ok P" and run: "preauth_consume P pv nonce form s = (Ok True, t)"
  obtains r where "preauth_text_ok nonce" "form_token P pv nonce = Inr form" "challenge_at (sys_db s) (state_key_of P pv nonce) = Some r"
    "sys_db t = system_state_update (row_delete ss_key (state_key_of P pv nonce)) (sys_db s)"
proof -
  have m: "preauth_text_ok nonce \<and> preauth_text_ok form \<and> form_token P pv nonce = Inr form"
    using consume_mismatch [of nonce form P pv s] run by auto
  have "(Ok True, sys_db t) = consume_spec P (fst (clock_now P (sys_world s))) (state_key_of P pv nonce) (sys_db s)"
    using consume_run [OF assms(1) _ _ _ refl run] m by blast
  with m that show thesis by (auto simp: consume_spec_def Let_def split: option.splits sum.splits if_splits)
qed

lemma verify_Some:
  assumes "storage_ok P" and "schema_ok (sys_db s)" and "verify_credentials P dummy login pw (Aware now 0) s = (Ok (Some a), t)"
  obtains old where "old \<in> set (admins (sys_db s))" "normalize_login P login = Inr (ad_login old)"
    "argon2_verify P (ad_password_hash old) pw = Argon2Match" "ad_id a = ad_id old"
  using implementsD_ok [OF verify_credentials_refines assms]
  by (auto simp: login_spec_def rejected_login_def accepted_login_def record_login_def
      split: sum.splits option.splits if_splits dest!: row_find_SomeD)

lemma login_form_Ok: "login_form P ws status err retry s = (Ok r, t) \<Longrightarrow> rs_status r = status"
  unfolding login_form_def
  by (auto simp: prog_simps Let_def set_preauth_cookie_def set_cookie_def set_header_def respond_def elim!: bindP_OkE split: option.splits)

text \<open>What follows an accepted challenge.\<close>

definition login_attempt :: "'w platform \<Rightarrow> web_services \<Rightarrow> request \<Rightarrow> ustr \<Rightarrow> ustr \<Rightarrow> ('w, response) op" where
  "login_attempt P ws rq login_value password_value =
       bindP (web_now P) (\<lambda>now.
       bindP (retry_after P (ws_throttle ws) (rq_client_ip rq) login_value now) (\<lambda>waiting.
       if 0 < waiting then login_form P ws 429 (Some TOO_MANY_ATTEMPTS) (Some (ceil_seconds waiting))
       else bindP (verify_credentials P (ws_dummy_hash ws) login_value password_value now) (\<lambda>administrator.
         case administrator of
           None \<Rightarrow> bindP (register_failure P (ws_throttle ws) (rq_client_ip rq) login_value now) (\<lambda>delay.
             login_form P ws 401 (Some WRONG_CREDENTIALS) (Some (ceil_seconds delay)))
         | Some a \<Rightarrow> bindP (throttle_clear P (ws_throttle ws) (rq_client_ip rq) login_value) (\<lambda>_.
             bindP (session_create P (ws_sessions ws) (ad_id a) now) (\<lambda>grant. ret (logged_in grant))))))"

lemma post_login_attempt: "post_login P ws rq =
     bindP (lift_result (auth_form rq)) (\<lambda>form.
     bindP (preauth_consume P (ws_preauth ws) (get_or_empty (rq_cookies rq) PREAUTH_COOKIE) (get_or_empty form (U ''csrf''))) (\<lambda>fresh.
     if \<not> fresh then ret (respond 403 (Html REQUEST_OUTDATED))
     else login_attempt P ws rq (take 1024 (get_or_empty form (U ''login''))) (take 1024 (get_or_empty form (U ''password'')))))"
  unfolding post_login_def login_attempt_def Let_def by (rule refl)

lemma login_attempt_303:
  assumes "login_attempt P ws rq name pw s = (Ok r, t)" and "rs_status r = 303"
  obtains now s1 s2 s3 w a s4 g where "web_now P s = (Ok now, s1)" "retry_after P (ws_throttle ws) (rq_client_ip rq) name now s1 = (Ok w, s2)"
    "verify_credentials P (ws_dummy_hash ws) name pw now s2 = (Ok (Some a), s3)"
    "throttle_clear P (ws_throttle ws) (rq_client_ip rq) name s3 = (Ok (), s4)"
    "session_create P (ws_sessions ws) (ad_id a) now s4 = (Ok g, t)" "r = logged_in g"
  using assms unfolding login_attempt_def
  by (elim bindP_OkE; (split if_splits)?)
    (auto elim!: bindP_OkE dest!: login_form_Ok simp: prog_simps split: if_splits option.splits)

text \<open>\<open>spares f Q m\<close>: the operation leaves the part \<open>f\<close> of the database alone unless it ends as \<open>Q\<close> says.\<close>

definition spares :: "(database \<Rightarrow> 'b) \<Rightarrow> ('a outcome \<Rightarrow> bool) \<Rightarrow> ('w, 'a) op \<Rightarrow> bool" where
  "spares f Q m \<longleftrightarrow> (\<forall>s x t. m s = (x, t) \<longrightarrow> Q x \<or> f (sys_db t) = f (sys_db s))"

lemma sparesD: "spares f Q m \<Longrightarrow> m s = (x, t) \<Longrightarrow> \<not> Q x \<Longrightarrow> f (sys_db t) = f (sys_db s)"
  unfolding spares_def by blast

lemma spares_frame: "(\<And>c. keeps (on_db (holds f c)) m) \<Longrightarrow> spares f Q m"
  unfolding spares_def using holdsD by metis

lemma spares_bind:
  assumes "\<And>c. keeps (on_db (holds f c)) m" and "\<And>a. spares f Q (g a)"
  shows "spares f Q (bindP m g)"
  unfolding spares_def
proof (intro allI impI)
  fix s x t assume run: "bindP m g s = (x, t)"
  obtain y s1 where y: "m s = (y, s1)" by fastforce
  have same: "f (sys_db s1) = f (sys_db s)" by (rule holdsD [OF assms(1) y])
  show "Q x \<or> f (sys_db t) = f (sys_db s)"
  proof (cases y)
    case (Ok a)
    with run y have "g a s1 = (x, t)" by (simp add: prog_simps)
    with assms(2) [of a] same show ?thesis unfolding spares_def by metis
  qed (use run y same in \<open>auto simp: prog_simps\<close>)
qed

lemma spares_if: "spares f Q m \<Longrightarrow> spares f Q m' \<Longrightarrow> spares f Q (if b then m else m')"
  and spares_option: "spares f Q m \<Longrightarrow> (\<And>a. spares f Q (g a)) \<Longrightarrow> spares f Q (case o' of None \<Rightarrow> m | Some a \<Rightarrow> g a)"
  by (auto split: option.splits)

lemma holds_login_form [keeps_intros]: "keeps (on_db (holds admin_sessions c)) (login_form P ws status err retry)"
  unfolding login_form_def Let_def by (intro keeps_intros)

lemma spares_login: "spares admin_sessions (\<lambda>x. \<exists>r. x = Ok r \<and> rs_status r = 303) (post_login P ws rq)"
proof -
  have grant: "spares admin_sessions (\<lambda>x. \<exists>r. x = Ok r \<and> rs_status r = 303) (bindP (session_create P sv i now) (\<lambda>g. ret (logged_in g)))" for sv i now
  proof -
    have "session_create P sv i now s \<noteq> (Stuck, t)" for s t
      by (rule returnsD [OF returns_sessions(1)])
    then show ?thesis
      by (auto simp: spares_def bindP_def prog_simps logged_in_def delete_cookie_def set_cookie_def redirect_def set_header_def respond_def
          dest: session_create_Raise split: prod.splits outcome.splits)
  qed
  show ?thesis
    unfolding post_login_attempt login_attempt_def web_now_def
    by (rule grant spares_bind spares_if spares_option | (rule spares_frame, (rule keeps_intros)+) | rule keeps_intros)+
qed

text \<open>The session behind an authenticated browser, and what revoking it leaves.\<close>

lemma browser_session:
  assumes "session_inv (sys_db s)" and "browser_of P ws rq s = (Ok (Some b), t)"
  obtains r where "session_at (sys_db t) (digest_text P (ws_sessions ws) (get_or_empty (rq_cookies rq) SESSION_COOKIE)) = Some r"
    "se_id r = uuid_str (si_session_id (ab_identity b))" "session_inv (sys_db t)"
proof -
  let ?d = "digest_text P (ws_sessions ws) (get_or_empty (rq_cookies rq) SESSION_COOKIE)"
  from assms(2) obtain now s1 where now: "web_now P s = (Ok now, s1)"
    and auth: "session_authenticate P (ws_sessions ws) (get_or_empty (rq_cookies rq) SESSION_COOKIE) now s1 = (Ok (Some (ab_identity b)), t)"
    unfolding browser_of_def by (auto simp: prog_simps Let_def elim!: bindP_OkE split: option.splits if_splits)
  have I: "session_inv (sys_db s1)" using now assms(1) by (auto simp: web_now_def world_call_def prog_defs split: prod.splits)
  obtain ts r a where r: "session_at (sys_db s1) ?d = Some r" and i: "ab_identity b = row_identity r a"
    and t: "sys_db t = with_session r (touch_session (ws_sessions ws) ts) (sys_db s1)"
    using I auth by (rule authenticate_Some)
  have touch: "se_token_digest (touch_session (ws_sessions ws) ts x) = se_token_digest x" "se_id (touch_session (ws_sessions ws) ts x) = se_id x" for x
    by (simp_all add: touch_session_def)
  have "session_at (sys_db t) ?d = Some (touch_session (ws_sessions ws) ts r)"
    using r touch by (simp add: t session_at_def with_session_def row_find_update_cong)
  moreover have "uuid_str (inv uuid_str (se_id r)) = se_id r"
    using I r by (auto simp: session_inv_def session_at_def f_inv_into_f dest!: row_find_SomeD)
  moreover have "session_inv (sys_db t)" using keepsD_eq [OF inv_operations(5) auth] I by (simp add: on_db_def)
  ultimately show thesis using that i touch by (simp add: row_identity_def)
qed

lemma revoke_marks:
  assumes "session_inv (sys_db s)" and run: "session_revoke P i now s = (Ok u, t)" and r: "session_at (sys_db s) d = Some r" "se_id r = uuid_str i"
  shows "session_fact (\<lambda>r. se_revoked_at r \<noteq> None) d (sys_db t)"
proof -
  have "row_find se_id (uuid_str i) (admin_sessions (sys_db s)) = Some r"
    using r assms(1) row_find_unique [of se_id "admin_sessions (sys_db s)" r]
    by (auto simp: session_at_def session_inv_def schema_ok_def sessions_ok_def dest!: row_find_SomeD)
  moreover have "se_token_digest (revoke_at ts x) = se_token_digest x" "se_revoked_at (revoke_at ts x) \<noteq> None" for ts x
    by (simp_all add: revoke_at_def)
  ultimately have "\<exists>r'. session_at (sys_db t) d = Some r' \<and> se_revoked_at r' \<noteq> None"
    using run r unfolding session_revoke_def
    by (auto elim!: bindP_OkE session_scope_OkE simp: prog_simps session_at_def row_find_update_cong lift_result_def split: if_splits sum.splits)
  then show ?thesis by (simp add: session_fact_def)
qed

lemma logout_303:
  assumes "post_logout P ws rq s = (Ok r, t)" and "rs_status r = 303"
  obtains b now s1 s2 where "browser_of P ws rq s = (Ok (Some b), s1)" "web_now P s1 = (Ok now, s2)"
    "session_revoke P (si_session_id (ab_identity b)) now s2 = (Ok (), t)" "r = logged_out"
  using assms unfolding post_logout_def Let_def
  by (auto elim!: bindP_OkE simp: prog_simps lift_result_def respond_def split: option.splits if_splits sum.splits)

lemma logout_other: "post_logout P ws rq s = (Ok r, t) \<Longrightarrow> rs_status r \<noteq> 303 \<Longrightarrow> rs_status r = 403"
  unfolding post_logout_def Let_def
  by (auto elim!: bindP_OkE simp: prog_simps respond_def logged_out_def delete_cookie_def set_cookie_def redirect_def set_header_def
      split: option.splits if_splits)

lemma states_kept:
  "keeps (on_db (holds system_state c)) (retry_after P tv ip name now)"
  "keeps (on_db (holds system_state c)) (verify_credentials P dummy name pw now)"
  "keeps (on_db (holds system_state c)) (throttle_clear P tv ip name)"
  "keeps (on_db (holds system_state c)) (session_create P sv i now)"
  unfolding retry_after_def verify_credentials_def throttle_clear_def session_create_def
  by (intro keeps_intros holds_update holds_statement; auto simp: insert_session_def split: if_splits)+

lemma login_303:
  assumes "storage_ok P" and ok: "web_ok (\<lambda>_. True) (sys_db s)" and run: "post_login P ws rq s = (Ok r, t)" and "rs_status r = 303"
  obtains form a g row where "auth_form rq = Inr form"
    "challenge_at (sys_db s) (state_key_of P (ws_preauth ws) (get_or_empty (rq_cookies rq) PREAUTH_COOKIE)) \<noteq> None"
    "challenge_at (sys_db t) (state_key_of P (ws_preauth ws) (get_or_empty (rq_cookies rq) PREAUTH_COOKIE)) = None"
    "form_token P (ws_preauth ws) (get_or_empty (rq_cookies rq) PREAUTH_COOKIE) = Inr (get_or_empty form (U ''csrf''))"
    "a \<in> set (admins (sys_db s))" "normalize_login P (take 1024 (get_or_empty form (U ''login''))) = Inr (ad_login a)"
    "argon2_verify P (ad_password_hash a) (take 1024 (get_or_empty form (U ''password''))) = Argon2Match" "r = logged_in g"
    "session_at (sys_db t) (digest_text P (ws_sessions ws) (gr_raw_token g)) = Some row" "se_admin_id row = ad_id a" "se_revoked_at row = None"
proof -
  let ?nonce = "get_or_empty (rq_cookies rq) PREAUTH_COOKIE" and ?key = "state_key_of P (ws_preauth ws) (get_or_empty (rq_cookies rq) PREAUTH_COOKIE)"
  let ?name = "\<lambda>form. take 1024 (get_or_empty form (U ''login''))" and ?pw = "\<lambda>form. take 1024 (get_or_empty form (U ''password''))"
  from run obtain form s0 where form: "auth_form rq = Inr form"
    and c: "preauth_consume P (ws_preauth ws) ?nonce (get_or_empty form (U ''csrf'')) s = (Ok True, s0)"
    and att: "login_attempt P ws rq (?name form) (?pw form) s0 = (Ok r, t)"
    using assms(4) unfolding post_login_attempt
    by (auto elim!: bindP_OkE simp: prog_simps lift_result_def respond_def split: sum.splits if_splits)
  obtain now s1 s2 s3 w a s4 g where now: "web_now P s0 = (Ok now, s1)"
    and w: "retry_after P (ws_throttle ws) (rq_client_ip rq) (?name form) now s1 = (Ok w, s2)"
    and v: "verify_credentials P (ws_dummy_hash ws) (?name form) (?pw form) now s2 = (Ok (Some a), s3)"
    and cl: "throttle_clear P (ws_throttle ws) (rq_client_ip rq) (?name form) s3 = (Ok (), s4)"
    and g: "session_create P (ws_sessions ws) (ad_id a) now s4 = (Ok g, t)" "r = logged_in g"
    using att assms(4) by (rule login_attempt_303)
  obtain u where now': "now = Aware u 0" "sys_db s1 = sys_db s0"
    using now by (auto simp: web_now_def world_call_def prog_defs split: prod.splits)
  obtain p where pre: "form_token P (ws_preauth ws) ?nonce = Inr (get_or_empty form (U ''csrf''))" "challenge_at (sys_db s) ?key = Some p"
    "sys_db s0 = system_state_update (row_delete ss_key ?key) (sys_db s)"
    using assms(1) c by (rule consume_True)
  have states: "system_state (sys_db t) = system_state (sys_db s0)" "admins (sys_db s2) = admins (sys_db s)"
    using holdsD [OF states_kept(1) w] holdsD [OF states_kept(2) v] holdsD [OF states_kept(3) cl] holdsD [OF states_kept(4) g(1)]
      holdsD [OF others_throttle(2) w] now' pre(3) by (simp_all add: other_part_def)
  have "schema_ok (sys_db s2)"
    using keepsD_eq [OF web_calls(9) c] keepsD_eq [OF web_calls(6) w] ok now' by (simp add: on_db_def web_ok_def repo_inv_schema)
  then obtain old where old: "old \<in> set (admins (sys_db s2))" "normalize_login P (?name form) = Inr (ad_login old)"
    "argon2_verify P (ad_password_hash old) (?pw form) = Argon2Match" "ad_id a = ad_id old"
    using v unfolding now' by (rule verify_Some [OF assms(1)])
  obtain ts a' row where row: "row_find ad_id (ad_id a) (admins (sys_db s4)) = Some a'"
    "row = new_session_row (ws_sessions ws) (gr_session_id g) a' (digest_text P (ws_sessions ws) (gr_raw_token g)) (csrf_text P (ws_sessions ws) (gr_csrf_token g)) ts"
    "insert_session row (sys_db s4) = Inr (sys_db t)"
    using g(1) by (rule session_create_Ok)
  have "se_token_digest row \<notin> se_token_digest ` set (admin_sessions (sys_db s4)) \<and> sys_db t = admin_sessions_update (\<lambda>rs. rs @ [row]) (sys_db s4)"
    using row(3) by (auto simp: insert_session_def split: if_splits)
  then have "session_at (sys_db t) (se_token_digest row) = Some row"
    by (auto simp: session_at_def row_find_append_new row_find_None [THEN iffD2])
  moreover have "se_token_digest row = digest_text P (ws_sessions ws) (gr_raw_token g)" "se_admin_id row = ad_id old" "se_revoked_at row = None"
    using row(1,2) old(4) by (auto simp: new_session_row_def dest: row_find_SomeD)
  ultimately show thesis
    using that [OF form _ _ pre(1) _ old(2,3) g(2)] pre(2,3) states old(1) by (simp add: challenge_at_def row_find_delete)
qed

end
