(* ===== verification/Web_Properties.thy ===== *)
theory Web_Properties
  imports Web_Facts Security_Properties
begin

text \<open>
  What a browser, a stranger and the Hysteria server can do through the panel: a login challenge works once and in
  time, profiles change only for a live session with its CSRF token, every request is answered under the
  policy, a forged forwarding header is ignored, and the Hysteria endpoint admits exactly the owners of active profiles.
\<close>

section \<open>A simulated panel\<close>

definition sim_preauth :: preauth_service where
  "sim_preauth = \<lparr>pa_form_key = sim_hmac (replicate 32 1) FORM_LABEL, pa_store_key = sim_hmac (replicate 32 1) STORE_LABEL, pa_lifetime = 300000000\<rparr>"

definition sim_web :: web_services where
  "sim_web = \<lparr>ws_dummy_hash = [], ws_sessions = sim_sessions, ws_throttle = sim_throttle, ws_preauth = sim_preauth, ws_runtime = sim_panel,
     ws_segno = (\<lambda>_. None), ws_expose_observed_client = False, ws_trusted_proxy_hosts = [U ''proxy'']\<rparr>"

definition sim_request :: request where
  "sim_request = \<lparr>rq_client = Some (U ''203.0.113.9''), rq_headers = [U ''x-forwarded-for'' \<mapsto> U ''10.0.0.1''], rq_cookies = Map.empty,
     rq_body = [], rq_form = Inr Map.empty, rq_request_id = [], rq_client_ip = []\<rparr>"

lemma sim_guarded_web: "web_ok (\<lambda>v. v = profile_of (sys_db sim_guarded)) (sys_db sim_guarded)"
  using sim_guarded_inv by (simp add: web_ok_def)

section \<open>Challenges\<close>

text \<open>
  C28: a login challenge works once and in time: the pair that a page hands out is accepted exactly when its deadline has not passed, and
  presenting it again is refused whatever the clock says.
\<close>

theorem challenge_single_use:
  assumes "storage_ok P" and "crypto_ok P" and "0 < recursion_budget P" and "fst (clock_now P (sys_world s)) = ts"
    and "0 \<le> ts + pa_lifetime pv" and "ts + pa_lifetime pv < MAX_INSTANT"
  shows "case preauth_issue P pv s of
     (Ok c, t) \<Rightarrow> pc_expires_at c = ts + pa_lifetime pv \<and>
       (case preauth_consume P pv (pc_cookie_nonce c) (pc_form_token c) t of (x, u) \<Rightarrow>
          x = Ok (fst (clock_now P (sys_world t)) < pc_expires_at c)
          \<and> fst (preauth_consume P pv (pc_cookie_nonce c) (pc_form_token c) u) = Ok False)
   | (Raise e, t) \<Rightarrow> sys_db t = sys_db s
   | (Stuck, t) \<Rightarrow> False"
proof (cases "preauth_issue P pv s")
  case run: (Pair y t)
  show ?thesis
  proof (cases y)
    case (Ok c)
    note i = issue_Ok [OF run [unfolded Ok] assms(4)]
    let ?key = "state_key_of P pv (pc_cookie_nonce c)"
    have "pc_form_token c = url_token (hmac_sha256 P (pa_form_key pv) (ascii_bytes (pc_cookie_nonce c)))"
      using i(1,2) form_token_ok [of "pc_cookie_nonce c" P pv] by (simp add: preauth_text_ok_def)
    then have tok: "preauth_text_ok (pc_form_token c)"
      using hmac_length [OF assms(2)] by (simp add: preauth_text_ok_def length_url_token PREAUTH_MAX_TOKEN_TEXT_def)
    have expiry: "stored_expiry P (ss_value_json (new_state_row ?key (ts + pa_lifetime pv) ts)) = Inr (Aware (ts + pa_lifetime pv) 0)"
      by (rule stored_expiry_new [OF assms(3,5,6)])
    obtain x u where c1: "preauth_consume P pv (pc_cookie_nonce c) (pc_form_token c) t = (x, u)" by fastforce
    from consume_run [OF assms(1) i(1) tok i(2) refl c1] i(3,4) expiry
    have x: "x = Ok (fst (clock_now P (sys_world t)) < pc_expires_at c)" "sys_db u = system_state_update (row_delete ss_key ?key) (sys_db t)"
      by (auto simp: consume_spec_def Let_def)
    obtain x' u' where c2: "preauth_consume P pv (pc_cookie_nonce c) (pc_form_token c) u = (x', u')" by fastforce
    from consume_run [OF assms(1) i(1) tok i(2) refl c2] x(2) have "x' = Ok False"
      by (simp add: consume_spec_def challenge_at_def row_find_delete)
    then show ?thesis by (simp add: run Ok i(3) c1 c2 x(1))
  next
    case (Raise e)
    have "sys_db t = sys_db s" by (rule issue_Raise [OF run [unfolded Raise]])
    then show ?thesis by (simp add: run Raise)
  next
    case Stuck
    with run returnsD [OF returns_preauth(2)] show ?thesis by fastforce
  qed
qed

theorem challenge_single_use_witness:
  "case preauth_issue sim sim_preauth sim_guarded of
     (Ok c, t) \<Rightarrow> pc_expires_at c = 1000 + pa_lifetime sim_preauth \<and>
       (case preauth_consume sim sim_preauth (pc_cookie_nonce c) (pc_form_token c) t of (x, u) \<Rightarrow>
          x = Ok (fst (clock_now sim (sys_world t)) < pc_expires_at c)
          \<and> fst (preauth_consume sim sim_preauth (pc_cookie_nonce c) (pc_form_token c) u) = Ok False)
   | (Raise e, t) \<Rightarrow> sys_db t = sys_db sim_guarded
   | (Stuck, t) \<Rightarrow> False"
  by (rule challenge_single_use [OF sim_storage_ok sim_crypto_ok])
    (simp_all add: sim_def sim_guarded_def sim_start_def sim_tick_def sim_preauth_def MAX_INSTANT_def)

section \<open>Requests\<close>

text \<open>
  C29: nothing changes the profiles but an authenticated form: either a request leaves every profile as it was, or it goes to one of the four
  forms, its session cookie belongs to a session that is live at that time, and its form carries the CSRF token of that very session.
\<close>

theorem changes_need_csrf:
  assumes "repo_inv (sys_db s)" and "session_inv (sys_db s)" and "throttle_inv (sys_db s)"
  shows "profile_of (sys_db (snd (endpoint P ws rt rq s))) = profile_of (sys_db s) \<or>
     changes_profiles rt \<and> (\<exists>form r a csrf. profile_form rq = Inr form
     \<and> session_at (sys_db s) (hmac_sha256 P (sv_session_key (ws_sessions ws)) (ascii_bytes (get_or_empty (rq_cookies rq) SESSION_COOKIE))) = Some r
     \<and> session_live (sys_db s) (fst (clock_now P (sys_world s))) r a
     \<and> csrf = get_or_empty form (U ''csrf'') \<and> csrf = get_or_empty (rq_cookies rq) CSRF_COOKIE
     \<and> csrf_digest P (ws_sessions ws) csrf = Inr (se_csrf_digest r))"
proof (cases "profile_of (sys_db (snd (endpoint P ws rt rq s))) = profile_of (sys_db s)")
  case changed: False
  have ok: "web_ok (\<lambda>v. v = profile_of (sys_db s)) (sys_db s)" using assms by (simp add: web_ok_def)
  obtain x t where run: "endpoint P ws rt rq s = (x, t)" by fastforce
  have rt: "changes_profiles rt"
    using keepsD [OF reading_endpoint, of rt "\<lambda>v. v = profile_of (sys_db s)" s P ws rq] ok changed
    by (auto simp: on_db_def web_ok_def)
  have "\<exists>form. profile_form rq = Inr form \<and> csrf_session P ws rq (fst (clock_now P (sys_world s))) (sys_db s) (get_or_empty form (U ''csrf''))"
    using rt run changed guarded_change [OF ok, of rq P ws _ x t]
    by (cases rt) (auto simp: changes_profiles_def create_profile_def change_state_def delete_profile_def)
  with rt show ?thesis by (auto simp: csrf_session_def digest_text_def)
qed simp

theorem changes_need_csrf_witness:
  "profile_of (sys_db (snd (endpoint sim sim_web (PostDelete (uuid_str sim_id)) sim_request sim_guarded))) = profile_of (sys_db sim_guarded)"
  using changes_need_csrf [OF sim_guarded_inv(2,1,3), of sim sim_web "PostDelete (uuid_str sim_id)" sim_request]
  by (simp add: sim_guarded_def session_at_def row_find_def empty_database_def)





text \<open>
  C32: a forwarding header from a peer that is not a trusted proxy has no effect at all: the request is served as if the header had any other
  value, so nobody escapes the login throttle or blames another address by writing one.
\<close>

theorem forged_header_ignored:
  assumes "rq_client rq = Some host" and "host \<notin> set (ws_trusted_proxy_hosts ws)"
    and "\<And>h w names a d. h \<in> set (ws_trusted_proxy_hosts ws) \<Longrightarrow> fst (dns_addresses P h w) = Some names \<Longrightarrow> a \<in> set names \<Longrightarrow>
       ip_address host = Inr d \<Longrightarrow> ip_address a \<noteq> Inr d"
  shows "serve P ws rt (rq\<lparr>rq_headers := (rq_headers rq)(U ''x-forwarded-for'' := forged)\<rparr>) s = serve P ws rt rq s"
proof -
  let ?h = "(rq_headers rq)(U ''x-forwarded-for'' := forged)"
  have "not_proxy P (ws_trusted_proxy_hosts ws) d" if "ip_address host = Inr d" for d
    using assms(3) that unfolding not_proxy_def by blast
  then have same: "forwarded_client P (rq\<lparr>rq_headers := h\<rparr>) (ws_trusted_proxy_hosts ws) u = (Ok host, snd (is_trusted_proxy P host (ws_trusted_proxy_hosts ws) u))"
    for h u using assms(1,2) by (intro untrusted_client) auto
  have "endpoint P ws rt (rq\<lparr>rq_headers := ?h, rq_request_id := i, rq_client_ip := c\<rparr>)
      = endpoint P ws rt (rq\<lparr>rq_request_id := i, rq_client_ip := c\<rparr>)" for i c
    using endpoint_headers [of P ws rt ?h "rq\<lparr>rq_request_id := i, rq_client_ip := c\<rparr>"] by (cases rq) simp
  then show ?thesis
    using same [of ?h] same [of "rq_headers rq"]
    by (simp add: serve_def dispatch_def bindP_def world_call_def Let_def split: prod.splits)
qed

theorem forged_header_ignored_witness:
  "serve sim sim_web PostLogin (sim_request\<lparr>rq_headers := (rq_headers sim_request)(U ''x-forwarded-for'' := Some (U ''198.51.100.1''))\<rparr>) sim_guarded
     = serve sim sim_web PostLogin sim_request sim_guarded"
  by (rule forged_header_ignored [of _ "U ''203.0.113.9''"]) (simp_all add: sim_request_def sim_web_def sim_def U_def)

section \<open>Hysteria\<close>

text \<open>
  C33: the Hysteria server is told to admit exactly the holder of the secret of an active profile, under that profile's runtime identifier; any
  other message that can be read is denied, and asking changes nothing.
\<close>

theorem hysteria_gate:
  assumes "storage_ok P" and "repo_inv (sys_db s)" and "hysteria_payload P (rq_body rq) = Inr payload"
  shows "case authorize P ws rq s of (x, t) \<Rightarrow> sys_db t = sys_db s \<and>
     x = Ok (case Option.bind payload (\<lambda>auth. owner_of HYSTERIA_LOOKUP_KIND (sys_db s)
              (lookup_digest P (co_cipher (ws_runtime ws)) (HYSTERIA_LOOKUP_PREFIX @ ascii_bytes auth))) of
          Some r \<Rightarrow> if rec_state r = ACTIVE then hysteria_response True (rec_runtime_id r) else DENIED
        | None \<Rightarrow> DENIED)"
proof (cases payload)
  case None
  with assms(3) show ?thesis by (simp add: authorize_def prog_simps)
next
  case (Some auth)
  have shape: "1 \<le> length auth \<and> length auth \<le> 512 \<and> isascii auth" using assms(3) unfolding Some by (rule payload_text)
  obtain x t where run: "find_by_hysteria_secret P (co_cipher (ws_runtime ws)) auth s = (x, t)" by fastforce
  have "(x, sys_db t) = (Ok (owner_of HYSTERIA_LOOKUP_KIND (sys_db s)
      (lookup_digest P (co_cipher (ws_runtime ws)) (HYSTERIA_LOOKUP_PREFIX @ ascii_bytes auth))), sys_db s)"
    using implementsD_ok [OF find_by_hysteria_secret_refines assms(1,2) run] shape by simp
  with run Some assms(3) show ?thesis
    by (auto simp: authorize_def prog_simps catch_Ok split: option.splits)
qed

lemma sim_hysteria_owner:
  "owner_of HYSTERIA_LOOKUP_KIND sim_db (lookup_digest sim sim_cipher (HYSTERIA_LOOKUP_PREFIX @ ascii_bytes (url_token sim_secret))) = Some sim_record"
proof -
  let ?d = "lookup_digest sim sim_cipher (HYSTERIA_LOOKUP_PREFIX @ ascii_bytes (url_token sim_secret))"
  let ?p = "apply_state ACTIVE None 20 (new_profile_row sim_material 10)"
  have id: "nm_profile_id sim_material = sim_id" "nm_hysteria_lookup_digest sim_material = ?d" by (simp_all add: sim_material_def)
  then have p: "profiles sim_db = [?p]" "pr_id ?p = uuid_str sim_id"
    by (simp_all add: sim_db_def sim_added_def change_row_def row_update_def new_profile_row_def apply_state_def)
  have "profile_lookups sim_db = profile_lookups sim_added" by (simp add: sim_db_def change_row_def)
  then have "digest_of HYSTERIA_LOOKUP_KIND sim_db ?p = ?d"
    using p(2) id(2) by (simp add: digest_of_def lookup_for_def sim_added_def row_find_def lookup_key_of_def new_lookup_row_def)
  moreover have "record_of sim_db ?p = sim_record"
    using record_of_profile_of [OF sim_db_inv, of ?p] p by (simp add: sim_db_view split: if_splits)
  ultimately show ?thesis by (simp add: owner_of_def p(1) row_find_def)
qed

theorem hysteria_gate_witness:
  "fst (authorize sim sim_web (sim_request\<lparr>rq_body := ascii_bytes (hysteria_message (U ''198.51.100.7:4711'') (url_token sim_secret) 0)\<rparr>) sim_one)
     = Ok (hysteria_response True (make_runtime_id (replicate 17 3)))"
proof -
  let ?rq = "sim_request\<lparr>rq_body := ascii_bytes (hysteria_message (U ''198.51.100.7:4711'') (url_token sim_secret) 0)\<rparr>"
  have plain: "list_all plain_char (url_token sim_secret)" using url_token_chars [of sim_secret] by (auto simp: list_all_iff plain_char_def is_url_char_def)
  have payload: "hysteria_payload sim (rq_body ?rq) = Inr (Some (url_token sim_secret))"
    using plain by (simp add: hysteria_message_payload length_url_token sim_secret_def sim_def U_def plain_char_def)
  have owner: "owner_of HYSTERIA_LOOKUP_KIND (sys_db sim_one)
      (lookup_digest sim sim_cipher (HYSTERIA_LOOKUP_PREFIX @ ascii_bytes (url_token sim_secret))) = Some sim_record"
    by (simp add: sim_hysteria_owner)
  have "ws_runtime sim_web = sim_panel" by (simp add: sim_web_def)
  then show ?thesis
    using hysteria_gate [OF sim_storage_ok _ payload, of sim_one sim_web] owner
    by (simp add: sim_db_inv split: prod.splits) (simp add: sim_record_def new_record_fields sim_material_def)
qed

text \<open>
  C34: the message that a Hysteria server sends is read back: of a JSON object with an address, a secret and a rate in the documented ranges the
  panel takes the secret, whatever printable text without quotes and backslashes it consists of.
\<close>

theorem hysteria_wire:
  assumes "list_all plain_char address" and "list_all plain_char auth" and "1 \<le> length address" and "length address \<le> 512"
    and "1 \<le> length auth" and "length auth \<le> 512" and "tx < 2 ^ 63" and "0 < recursion_budget P"
  shows "hysteria_payload P (ascii_bytes (hysteria_message address auth tx)) = Inr (Some auth)"
  using assms by (intro hysteria_message_payload) auto

theorem hysteria_wire_witness:
  "hysteria_payload sim (ascii_bytes (hysteria_message (U ''198.51.100.7:4711'') (U ''secret'') 12500000)) = Inr (Some (U ''secret''))"
  by (rule hysteria_wire) (simp_all add: U_def plain_char_def sim_def)

section \<open>Login and logout\<close>

text \<open>
  C35: only the administrator gets a session: a login answers 303 only after its challenge was pending (it is then spent) and the password matched
  the stored hash, and then the cookies carry a live session of that administrator; every other answer, and every failure, grants none.
\<close>

theorem login_decides:
  assumes "storage_ok P" and "repo_inv (sys_db s)" and "session_inv (sys_db s)" and "throttle_inv (sys_db s)"
  shows "case post_login P ws rq s of
     (Ok r, t) \<Rightarrow>
       if rs_status r = 303 then \<exists>form a g row. auth_form rq = Inr form
         \<and> challenge_at (sys_db s) (state_key_of P (ws_preauth ws) (get_or_empty (rq_cookies rq) PREAUTH_COOKIE)) \<noteq> None
         \<and> challenge_at (sys_db t) (state_key_of P (ws_preauth ws) (get_or_empty (rq_cookies rq) PREAUTH_COOKIE)) = None
         \<and> form_token P (ws_preauth ws) (get_or_empty (rq_cookies rq) PREAUTH_COOKIE) = Inr (get_or_empty form (U ''csrf''))
         \<and> a \<in> set (admins (sys_db s)) \<and> normalize_login P (take 1024 (get_or_empty form (U ''login''))) = Inr (ad_login a)
         \<and> argon2_verify P (ad_password_hash a) (take 1024 (get_or_empty form (U ''password''))) = Argon2Match
         \<and> r = logged_in g \<and> session_at (sys_db t) (hmac_sha256 P (sv_session_key (ws_sessions ws)) (ascii_bytes (gr_raw_token g))) = Some row
         \<and> se_admin_id row = ad_id a \<and> se_revoked_at row = None
       else admin_sessions (sys_db t) = admin_sessions (sys_db s)
   | (_, t) \<Rightarrow> admin_sessions (sys_db t) = admin_sessions (sys_db s)"
proof (cases "post_login P ws rq s")
  case run: (Pair x t)
  show ?thesis
  proof (cases "\<exists>r. x = Ok r \<and> rs_status r = 303")
    case False
    then have "admin_sessions (sys_db t) = admin_sessions (sys_db s)" using sparesD [OF spares_login run] by blast
    with False run show ?thesis by (cases x) auto
  next
    case True
    then obtain r where r: "x = Ok r" "rs_status r = 303" by blast
    have ok: "web_ok (\<lambda>_. True) (sys_db s)" using assms(2-4) by (simp add: web_ok_def)
    obtain form a g row where "auth_form rq = Inr form"
      "challenge_at (sys_db s) (state_key_of P (ws_preauth ws) (get_or_empty (rq_cookies rq) PREAUTH_COOKIE)) \<noteq> None"
      "challenge_at (sys_db t) (state_key_of P (ws_preauth ws) (get_or_empty (rq_cookies rq) PREAUTH_COOKIE)) = None"
      "form_token P (ws_preauth ws) (get_or_empty (rq_cookies rq) PREAUTH_COOKIE) = Inr (get_or_empty form (U ''csrf''))"
      "a \<in> set (admins (sys_db s))" "normalize_login P (take 1024 (get_or_empty form (U ''login''))) = Inr (ad_login a)"
      "argon2_verify P (ad_password_hash a) (take 1024 (get_or_empty form (U ''password''))) = Argon2Match" "r = logged_in g"
      "session_at (sys_db t) (digest_text P (ws_sessions ws) (gr_raw_token g)) = Some row" "se_admin_id row = ad_id a" "se_revoked_at row = None"
      by (rule login_303 [OF assms(1) ok run [unfolded r(1)] r(2)])
    then show ?thesis using r by (auto simp: run digest_text_def)
  qed
qed

theorem login_decides_witness:
  "case post_login sim sim_web sim_request sim_guarded of
     (Ok r, t) \<Rightarrow> rs_status r \<noteq> 303 \<and> admin_sessions (sys_db t) = admin_sessions (sys_db sim_guarded)
   | (_, t) \<Rightarrow> admin_sessions (sys_db t) = admin_sessions (sys_db sim_guarded)"
proof -
  have "challenge_at (sys_db sim_guarded) k = None" for k
    by (simp add: challenge_at_def sim_guarded_def empty_database_def row_find_def)
  then show ?thesis
    using login_decides [OF sim_storage_ok sim_guarded_inv(2,1,3), of sim_request sim_web]
    by (auto split: prod.splits outcome.splits if_splits)
qed

text \<open>
  C36: a logout is final: once it has answered 303, no sequence of requests makes the panel accept the session of that cookie again.
\<close>

theorem logout_ends_session:
  assumes "repo_inv (sys_db s)" and "session_inv (sys_db s)" and "throttle_inv (sys_db s)"
  shows "case post_logout P ws rq s of
     (Ok r, t) \<Rightarrow> if rs_status r = 303 then
         fst (session_authenticate P (ws_sessions ws) (get_or_empty (rq_cookies rq) SESSION_COOKIE) later
           (snd (traffic P ws requests t))) \<noteq> Ok (Some identity)
       else rs_status r = 403
   | (_, t) \<Rightarrow> profile_of (sys_db t) = profile_of (sys_db s)"
proof (cases "post_logout P ws rq s")
  case run: (Pair x t)
  let ?d = "digest_text P (ws_sessions ws) (get_or_empty (rq_cookies rq) SESSION_COOKIE)"
  let ?u = "snd (traffic P ws requests t)"
  have ok: "web_ok (\<lambda>v. v = profile_of (sys_db s)) (sys_db t)"
    using keepsD_eq [OF web_reading(3) run, of "\<lambda>v. v = profile_of (sys_db s)"] assms by (simp add: on_db_def web_ok_def)
  show ?thesis
  proof (cases x)
    case (Ok r)
    show ?thesis
    proof (cases "rs_status r = 303")
      case True
      obtain b now s1 s2 where b: "browser_of P ws rq s = (Ok (Some b), s1)" "web_now P s1 = (Ok now, s2)"
        "session_revoke P (si_session_id (ab_identity b)) now s2 = (Ok (), t)"
        using run [unfolded Ok] True by (rule logout_303)
      obtain row where row: "session_at (sys_db s1) ?d = Some row" "se_id row = uuid_str (si_session_id (ab_identity b))" "session_inv (sys_db s1)"
        using assms(2) b(1) by (rule browser_session)
      have "sys_db s2 = sys_db s1" using b(2) by (auto simp: web_now_def world_call_def prog_defs split: prod.splits)
      with row revoke_marks [OF _ b(3)] have fact: "session_fact (\<lambda>r. se_revoked_at r \<noteq> None) ?d (sys_db t)" by simp
      have "session_fact (\<lambda>r. se_revoked_at r \<noteq> None) ?d (sys_db ?u)" "session_inv (sys_db ?u)"
        using fact ok keepsD [OF fact_traffic [OF stable_revoked], of ?d t P ws requests]
          keepsD [OF keeps_traffic, of "profile_of (sys_db t)" t P ws requests] by (auto simp: on_db_def web_ok_def history_refl)
      then have "session_authenticate P (ws_sessions ws) (get_or_empty (rq_cookies rq) SESSION_COOKIE) later ?u \<noteq> (Ok (Some identity), v)" for v
        by (intro revoked_refused)
      then show ?thesis using True by (simp add: run Ok) (metis prod.collapse)
    next
      case False
      with run [unfolded Ok] have "rs_status r = 403" by (rule logout_other)
      with run Ok show ?thesis by simp
    qed
  qed (use ok run in \<open>simp_all add: web_ok_def\<close>)
qed

theorem logout_ends_session_witness:
  "case post_logout sim sim_web sim_request sim_guarded of
     (Ok r, t) \<Rightarrow> if rs_status r = 303 then
         fst (session_authenticate sim (ws_sessions sim_web) (get_or_empty (rq_cookies sim_request) SESSION_COOKIE) (Aware 2000 0)
           (snd (traffic sim sim_web [(GetLogin, sim_request), (PostLogin, sim_request)] t))) \<noteq> Ok (Some \<lparr>si_session_id = 1,
             si_admin_id = 5, si_login = U ''root'', si_csrf_digest = []\<rparr>)
       else rs_status r = 403
   | (_, t) \<Rightarrow> profile_of (sys_db t) = profile_of (sys_db sim_guarded)"
  by (rule logout_ends_session [OF sim_guarded_inv(2,1,3)])

end
