(* ===== verification/Files.thy ===== *)
theory Files
  imports Url_Text Uuid "HOL-Library.AList"
begin

unbundle bit_operations_syntax

text \<open>
  The file system that the installer works on: a tree of nodes addressed by the bytes of their names, the system calls
  and the \<^verbatim>\<open>pathlib\<close> methods over them. A path is the list of its components; symbolic links are followed on the way,
  forty at most. Every system call may fail: \<open>io_fault\<close> decides by the number of the call, so a theorem about every
  host covers every schedule of failures. No other process changes the tree while an operation runs, and
  \<^verbatim>\<open>close\<close> does not fail.
\<close>

section \<open>Nodes and places\<close>

type_synonym path = "ustr list"
type_synonym loc = "bytes list"
type_synonym mode = "12 word"
type_synonym owner = "int \<times> int"

abbreviation root_owner :: owner where "root_owner \<equiv> (0, 0)"

text \<open>Files and directories have an owner, a user and a group. A link holds whether its target is absolute, and the components of the target.\<close>

datatype node = File (file_data: bytes) owner mode | Dir owner mode | Link bool loc | Special

record fs =
  fs_nodes :: "(loc \<times> node) list"
  fs_calls :: nat

record host =
  io_fault :: "nat \<Rightarrow> bool"
  io_written :: "nat \<Rightarrow> nat"
  io_fsencode :: "ustr \<Rightarrow> exn + bytes"
  io_fsdecode :: "bytes \<Rightarrow> ustr"
  io_random_name :: "nat \<Rightarrow> ustr"
  io_umask :: mode
  io_owner :: owner

datatype errno = ENOENT | ENOTDIR | ELOOP | EEXIST | EIO

fun is_dir :: "node option \<Rightarrow> bool" where
  "is_dir (Some (Dir _ _)) = True"
| "is_dir _ = False"

fun is_link :: "node option \<Rightarrow> bool" where
  "is_link (Some (Link _ _)) = True"
| "is_link _ = False"

fun is_file :: "node option \<Rightarrow> bool" where
  "is_file (Some (File _ _ _)) = True"
| "is_file _ = False"

definition fs_at :: "fs \<Rightarrow> loc \<Rightarrow> node option" where
  "fs_at s q = (if q = [] then Some (Dir root_owner 493) else map_of (fs_nodes s) q)"

definition fs_put :: "loc \<Rightarrow> node \<Rightarrow> fs \<Rightarrow> fs" where
  "fs_put q nd s = s\<lparr>fs_nodes := AList.update q nd (fs_nodes s)\<rparr>"

definition fs_remove :: "loc \<Rightarrow> fs \<Rightarrow> fs" where
  "fs_remove q s = s\<lparr>fs_nodes := AList.delete q (fs_nodes s)\<rparr>"

definition MAX_LINKS :: nat where "MAX_LINKS = 40"

definition DOT_DOT :: bytes where "DOT_DOT = [46, 46]"

text \<open>The place that a path leads to; \<open>follow\<close> is for calls that follow a link in the last component too.\<close>

function resolve :: "fs \<Rightarrow> bool \<Rightarrow> nat \<Rightarrow> loc \<Rightarrow> loc \<Rightarrow> errno + loc" where
  "resolve s follow n at [] = Inr at"
| "resolve s follow n at (c # rest) =
     (if c = DOT_DOT then resolve s follow n (butlast at) rest
      else case fs_at s (at @ [c]) of
        Some (Dir _ _) \<Rightarrow> resolve s follow n (at @ [c]) rest
      | Some (Link absolute target) \<Rightarrow>
          if rest = [] \<and> \<not> follow then Inr (at @ [c])
          else if n = 0 then Inl ELOOP
          else resolve s follow (n - 1) (if absolute then [] else at) (target @ rest)
      | Some _ \<Rightarrow> if rest = [] then Inr (at @ [c]) else Inl ENOTDIR
      | None \<Rightarrow> if rest = [] then Inr (at @ [c]) else Inl ENOENT)"
  by pat_completeness auto
termination
  by (relation "measures [\<lambda>(s, follow, n, at, rest). n, \<lambda>(s, follow, n, at, rest). length rest]") auto

section \<open>System calls\<close>

text \<open>\<^verbatim>\<open>os.fsencode\<close> of every component; an embedded NUL is refused.\<close>

definition path_bytes :: "'h host_scheme \<Rightarrow> path \<Rightarrow> exn + loc" where
  "path_bytes h p = bind_sum (foldr (\<lambda>c r. bind_sum (io_fsencode h c) (\<lambda>b. bind_sum r (\<lambda>bs. Inr (b # bs)))) p (Inr []))
     (\<lambda>bs. if list_ex (\<lambda>b. 0 \<in> set b) bs then Inl ValueError else Inr bs)"

definition os_tick :: "'h host_scheme \<Rightarrow> (fs, bool) prog" where
  "os_tick h = bindP (gets fs_calls) (\<lambda>n. bindP (modify (fs_calls_update Suc)) (\<lambda>_. ret (io_fault h n)))"

definition os_locate :: "'h host_scheme \<Rightarrow> bool \<Rightarrow> path \<Rightarrow> (fs, errno + loc) prog" where
  "os_locate h follow p = bindP (lift_result (path_bytes h p)) (\<lambda>b. bindP (os_tick h) (\<lambda>fault.
     if fault then ret (Inl EIO) else gets (\<lambda>s. resolve s follow MAX_LINKS [] b)))"

definition os_place :: "'h host_scheme \<Rightarrow> bool \<Rightarrow> path \<Rightarrow> (fs, loc) prog" where
  "os_place h follow p = bindP (os_locate h follow p) (\<lambda>r. case r of Inl e \<Rightarrow> raise OSError | Inr q \<Rightarrow> ret q)"

definition os_stat :: "'h host_scheme \<Rightarrow> bool \<Rightarrow> path \<Rightarrow> (fs, node) prog" where
  "os_stat h follow p = bindP (os_place h follow p) (\<lambda>q. bindP (gets (\<lambda>s. fs_at s q)) (\<lambda>nd.
     case nd of None \<Rightarrow> raise OSError | Some n \<Rightarrow> ret n))"

definition os_mkdir :: "'h host_scheme \<Rightarrow> path \<Rightarrow> mode \<Rightarrow> (fs, errno + unit) prog" where
  "os_mkdir h p m = bindP (os_locate h False p) (\<lambda>r. case r of Inl e \<Rightarrow> ret (Inl e)
     | Inr q \<Rightarrow> bindP (gets (\<lambda>s. fs_at s q)) (\<lambda>nd. if nd \<noteq> None then ret (Inl EEXIST)
         else bindP (modify (fs_put q (Dir (io_owner h) (m AND NOT (io_umask h))))) (\<lambda>_. ret (Inr ()))))"

text \<open>\<^verbatim>\<open>os.open\<close> with \<^verbatim>\<open>O_WRONLY | O_CREAT | O_EXCL\<close>; the place stands for the descriptor.\<close>

definition os_open_new :: "'h host_scheme \<Rightarrow> path \<Rightarrow> mode \<Rightarrow> (fs, errno + loc) prog" where
  "os_open_new h p m = bindP (os_locate h False p) (\<lambda>r. case r of Inl e \<Rightarrow> ret (Inl e)
     | Inr q \<Rightarrow> bindP (gets (\<lambda>s. fs_at s q)) (\<lambda>nd. if nd \<noteq> None then ret (Inl EEXIST)
         else bindP (modify (fs_put q (File [] (io_owner h) (m AND NOT (io_umask h))))) (\<lambda>_. ret (Inr q))))"

definition os_create :: "'h host_scheme \<Rightarrow> path \<Rightarrow> mode \<Rightarrow> (fs, loc) prog" where
  "os_create h p m = bindP (os_open_new h p m) (\<lambda>r. case r of Inl e \<Rightarrow> raise OSError | Inr q \<Rightarrow> ret q)"

definition append_data :: "loc \<Rightarrow> bytes \<Rightarrow> fs \<Rightarrow> fs" where
  "append_data q x s = (case fs_at s q of Some (File d u m) \<Rightarrow> fs_put q (File (d @ x) u m) s | _ \<Rightarrow> s)"

text \<open>\<^verbatim>\<open>os.write\<close> takes at least one byte of what it is given.\<close>

definition os_write :: "'h host_scheme \<Rightarrow> loc \<Rightarrow> bytes \<Rightarrow> (fs, nat) prog" where
  "os_write h q view = bindP (gets fs_calls) (\<lambda>n. bindP (os_tick h) (\<lambda>fault. if fault then raise OSError
     else let w = min (length view) (max 1 (io_written h n))
       in bindP (modify (append_data q (take w view))) (\<lambda>_. ret w)))"

text \<open>The loop \<^verbatim>\<open>while view: view = view[os.write(fd, view):]\<close>.\<close>

fun write_loop :: "'h host_scheme \<Rightarrow> loc \<Rightarrow> nat \<Rightarrow> bytes \<Rightarrow> (fs, unit) prog" where
  "write_loop h q 0 view = (if view = [] then ret () else stuck)"
| "write_loop h q (Suc n) view = (if view = [] then ret ()
     else bindP (os_write h q view) (\<lambda>w. write_loop h q n (drop w view)))"

definition write_all :: "'h host_scheme \<Rightarrow> loc \<Rightarrow> bytes \<Rightarrow> (fs, unit) prog" where
  "write_all h q view = write_loop h q (length view) view"

definition os_fault :: "'h host_scheme \<Rightarrow> (fs, unit) prog" where
  "os_fault h = bindP (os_tick h) (\<lambda>fault. if fault then raise OSError else ret ())"

definition os_fsync :: "'h host_scheme \<Rightarrow> loc \<Rightarrow> (fs, unit) prog" where
  "os_fsync h q = os_fault h"

definition set_mode :: "mode \<Rightarrow> node \<Rightarrow> node" where
  "set_mode m nd = (case nd of File d u _ \<Rightarrow> File d u m | Dir u _ \<Rightarrow> Dir u m | other \<Rightarrow> other)"

definition change_node :: "loc \<Rightarrow> (node \<Rightarrow> node) \<Rightarrow> fs \<Rightarrow> fs" where
  "change_node q f s = (case map_of (fs_nodes s) q of None \<Rightarrow> s | Some nd \<Rightarrow> fs_put q (f nd) s)"

definition os_fchmod :: "'h host_scheme \<Rightarrow> loc \<Rightarrow> mode \<Rightarrow> (fs, unit) prog" where
  "os_fchmod h q m = bindP (os_fault h) (\<lambda>_. modify (change_node q (set_mode m)))"

definition os_chmod :: "'h host_scheme \<Rightarrow> path \<Rightarrow> mode \<Rightarrow> (fs, unit) prog" where
  "os_chmod h p m = bindP (os_place h True p) (\<lambda>q. bindP (gets (\<lambda>s. fs_at s q)) (\<lambda>nd.
     if nd = None then raise OSError else modify (change_node q (set_mode m))))"

text \<open>A rename moves a node with everything below it.\<close>

definition fs_move :: "loc \<Rightarrow> loc \<Rightarrow> fs \<Rightarrow> fs" where
  "fs_move q r s = s\<lparr>fs_nodes := map (\<lambda>(p, nd). (if is_prefix q p then r @ drop (length q) p else p, nd))
     (filter (\<lambda>(p, nd). \<not> is_prefix r p) (fs_nodes s))\<rparr>"

definition fs_children :: "fs \<Rightarrow> loc \<Rightarrow> (bytes \<times> node) list" where
  "fs_children s q = map (\<lambda>(p, nd). (last p, nd)) (filter (\<lambda>(p, nd). p \<noteq> [] \<and> butlast p = q) (fs_nodes s))"

definition os_replace :: "'h host_scheme \<Rightarrow> path \<Rightarrow> path \<Rightarrow> (fs, unit) prog" where
  "os_replace h old new = bindP (os_place h False old) (\<lambda>q. bindP (os_place h False new) (\<lambda>r.
     bindP (gets (\<lambda>s. (fs_at s q, fs_at s r, fs_children s r))) (\<lambda>(source, target, inner).
       if source = None then raise OSError
       else if q = r then ret ()
       else if is_dir source \<and> (is_prefix q r \<or> target \<noteq> None \<and> \<not> is_dir target \<or> inner \<noteq> []) then raise OSError
       else if \<not> is_dir source \<and> is_dir target then raise OSError
       else modify (fs_move q r))))"

definition os_unlink :: "'h host_scheme \<Rightarrow> path \<Rightarrow> (fs, errno + unit) prog" where
  "os_unlink h p = bindP (os_locate h False p) (\<lambda>r. case r of Inl e \<Rightarrow> ret (Inl e)
     | Inr q \<Rightarrow> bindP (gets (\<lambda>s. fs_at s q)) (\<lambda>nd. if nd = None then ret (Inl ENOENT)
         else if is_dir nd then ret (Inl EIO) else bindP (modify (fs_remove q)) (\<lambda>_. ret (Inr ()))))"

text \<open>\<^verbatim>\<open>try: m finally: f\<close>.\<close>

definition finallyP :: "('s, 'a) prog \<Rightarrow> ('s, unit) prog \<Rightarrow> ('s, 'a) prog" where
  "finallyP m f = bindP (catch m (\<lambda>e. bindP f (\<lambda>_. raise e))) (\<lambda>a. bindP f (\<lambda>_. ret a))"

section \<open>Path methods\<close>

definition path_parts :: "ustr \<Rightarrow> path" where
  "path_parts t = filter (\<lambda>c. c \<noteq> [] \<and> c \<noteq> [46]) (split_on 47 t)"

text \<open>\<^verbatim>\<open>path / text\<close>: an absolute text replaces the path.\<close>

definition joinpath :: "path \<Rightarrow> ustr \<Rightarrow> path" where
  "joinpath p t = (if is_prefix [47] t then path_parts t else p @ path_parts t)"

definition as_posix :: "path \<Rightarrow> ustr" where
  "as_posix p = (if p = [] then [46] else join_with [47] p)"

text \<open>\<^verbatim>\<open>is_dir\<close>, \<^verbatim>\<open>is_file\<close>, \<^verbatim>\<open>exists\<close> and \<^verbatim>\<open>is_symlink\<close> report what is not there as false.\<close>

definition path_probe :: "'h host_scheme \<Rightarrow> bool \<Rightarrow> (node option \<Rightarrow> bool) \<Rightarrow> path \<Rightarrow> (fs, bool) prog" where
  "path_probe h follow test p = (case path_bytes h p of Inl e \<Rightarrow> ret False
     | Inr _ \<Rightarrow> bindP (os_locate h follow p) (\<lambda>r. case r of
         Inl EIO \<Rightarrow> raise OSError
       | Inl _ \<Rightarrow> ret False
       | Inr q \<Rightarrow> gets (\<lambda>s. test (fs_at s q))))"

abbreviation path_is_dir :: "'h host_scheme \<Rightarrow> path \<Rightarrow> (fs, bool) prog" where
  "path_is_dir h \<equiv> path_probe h True is_dir"

abbreviation path_is_file :: "'h host_scheme \<Rightarrow> path \<Rightarrow> (fs, bool) prog" where
  "path_is_file h \<equiv> path_probe h True is_file"

abbreviation path_exists :: "'h host_scheme \<Rightarrow> path \<Rightarrow> (fs, bool) prog" where
  "path_exists h \<equiv> path_probe h True (\<lambda>nd. nd \<noteq> None)"

abbreviation path_is_symlink :: "'h host_scheme \<Rightarrow> path \<Rightarrow> (fs, bool) prog" where
  "path_is_symlink h \<equiv> path_probe h False is_link"

text \<open>\<^verbatim>\<open>Path.mkdir(mode, parents, exist_ok)\<close>.\<close>

function path_mkdir :: "'h host_scheme \<Rightarrow> path \<Rightarrow> mode \<Rightarrow> bool \<Rightarrow> bool \<Rightarrow> (fs, unit) prog" where
  "path_mkdir h p m parents exist_ok = bindP (os_mkdir h p m) (\<lambda>r. case r of
       Inr _ \<Rightarrow> ret ()
     | Inl e \<Rightarrow> if e = ENOENT then
           (if \<not> parents \<or> p = [] then raise OSError
            else bindP (path_mkdir h (butlast p) 511 True True) (\<lambda>_. path_mkdir h p m False exist_ok))
         else if exist_ok then bindP (path_is_dir h p) (\<lambda>d. if d then ret () else raise OSError)
         else raise OSError)"
  by pat_completeness auto
termination
  by (relation "measures [\<lambda>(h, p, m, parents, exist_ok). length p, \<lambda>(h, p, m, parents, exist_ok). of_bool parents]") auto

declare path_mkdir.simps [simp del]

definition path_unlink :: "'h host_scheme \<Rightarrow> path \<Rightarrow> bool \<Rightarrow> (fs, unit) prog" where
  "path_unlink h p missing_ok = bindP (os_unlink h p) (\<lambda>r. case r of Inr _ \<Rightarrow> ret ()
     | Inl e \<Rightarrow> if e = ENOENT \<and> missing_ok then ret () else raise OSError)"

text \<open>Opening for reading follows links; a directory cannot be read.\<close>

definition path_read_bytes :: "'h host_scheme \<Rightarrow> path \<Rightarrow> (fs, bytes) prog" where
  "path_read_bytes h p = bindP (os_stat h True p) (\<lambda>nd. case nd of
     File d _ _ \<Rightarrow> bindP (os_fault h) (\<lambda>_. ret d) | _ \<Rightarrow> raise OSError)"

text \<open>\<^verbatim>\<open>Path.write_bytes\<close>: create or truncate, then write.\<close>

definition path_write_bytes :: "'h host_scheme \<Rightarrow> path \<Rightarrow> bytes \<Rightarrow> (fs, unit) prog" where
  "path_write_bytes h p data = bindP (os_place h True p) (\<lambda>q. bindP (gets (\<lambda>s. fs_at s q)) (\<lambda>nd. case nd of
       None \<Rightarrow> bindP (modify (fs_put q (File [] (io_owner h) (438 AND NOT (io_umask h))))) (\<lambda>_. write_all h q data)
     | Some (File _ u m) \<Rightarrow> bindP (modify (fs_put q (File [] u m))) (\<lambda>_. write_all h q data)
     | Some _ \<Rightarrow> raise OSError))"

text \<open>\<^verbatim>\<open>tempfile.mkstemp\<close> tries \<^verbatim>\<open>os.TMP_MAX\<close> random names.\<close>

definition TMP_MAX :: nat where "TMP_MAX = 10000"

primrec mkstemp_loop :: "'h host_scheme \<Rightarrow> nat \<Rightarrow> path \<Rightarrow> ustr \<Rightarrow> (fs, loc \<times> path) prog" where
  "mkstemp_loop h 0 dir prefix = raise OSError"
| "mkstemp_loop h (Suc n) dir prefix = bindP (gets (\<lambda>s. dir @ [prefix @ io_random_name h (fs_calls s)])) (\<lambda>p.
     bindP (os_open_new h p 384) (\<lambda>r. case r of
         Inr q \<Rightarrow> ret (q, p)
       | Inl e \<Rightarrow> if e = EEXIST then mkstemp_loop h n dir prefix else raise OSError))"

definition mkstemp :: "'h host_scheme \<Rightarrow> ustr \<Rightarrow> path \<Rightarrow> (fs, loc \<times> path) prog" where
  "mkstemp h prefix dir = mkstemp_loop h TMP_MAX dir prefix"

text \<open>Universal newlines, as text mode reads them.\<close>

fun universal_newlines :: "ustr \<Rightarrow> ustr" where
  "universal_newlines [] = []"
| "universal_newlines (c # r) = (if c = 13 then 10 # universal_newlines (if is_prefix [10] r then tl r else r)
     else c # universal_newlines r)"

end
