(* ===== verification/Json_Print.thy ===== *)
theory Json_Print
  imports Json
begin

text \<open>
  \<^verbatim>\<open>json.dumps\<close>, after \<^verbatim>\<open>json/encoder.py\<close>: the compact and the indented layout that the installer uses, with sorted
  keys where it asks for them. \<open>json_decode_dumps\<close>: a document without floats is read back from any layout.
\<close>

section \<open>Encoding\<close>

text \<open>The separators and the indentation that \<^verbatim>\<open>dumps\<close> is called with.\<close>

record json_style =
  js_item :: ustr
  js_key :: ustr
  js_indent :: "nat option"

definition js_default :: json_style where "js_default = \<lparr>js_item = [44, 32], js_key = [58, 32], js_indent = None\<rparr>"
definition js_compact :: json_style where "js_compact = \<lparr>js_item = [44], js_key = [58], js_indent = None\<rparr>"
definition js_indented :: "nat \<Rightarrow> json_style" where "js_indented n = \<lparr>js_item = [44], js_key = [58, 32], js_indent = Some n\<rparr>"

definition js_newline :: "json_style \<Rightarrow> nat \<Rightarrow> ustr" where
  "js_newline st level = (case js_indent st of None \<Rightarrow> [] | Some n \<Rightarrow> 10 # replicate (n * level) 32)"

text \<open>\<open>fl\<close> is the text of a float.\<close>

fun json_dumps :: "(ustr \<Rightarrow> ustr) \<Rightarrow> json_style \<Rightarrow> nat \<Rightarrow> json \<Rightarrow> ustr" where
  "json_dumps fl st level JNull = U ''null''"
| "json_dumps fl st level (JBool b) = (if b then U ''true'' else U ''false'')"
| "json_dumps fl st level (JInt n) = int_str n"
| "json_dumps fl st level (JFloat t) = fl t"
| "json_dumps fl st level (JStr s) = json_quote s"
| "json_dumps fl st level (JList vs) = (if vs = [] then [91, 93]
     else [91] @ js_newline st (Suc level) @ join_with (js_item st @ js_newline st (Suc level)) (map (json_dumps fl st (Suc level)) vs)
       @ js_newline st level @ [93])"
| "json_dumps fl st level (JDict d) = (if d = [] then [123, 125]
     else [123] @ js_newline st (Suc level) @ join_with (js_item st @ js_newline st (Suc level))
         (map (\<lambda>(k, v). json_quote k @ js_key st @ json_dumps fl st (Suc level) v) d)
       @ js_newline st level @ [125])"

text \<open>\<^verbatim>\<open>sort_keys=True\<close>: text is compared by code points.\<close>

fun json_sort :: "json \<Rightarrow> json" where
  "json_sort (JList vs) = JList (map json_sort vs)"
| "json_sort (JDict d) = JDict (sort_key fst (map (\<lambda>(k, v). (k, json_sort v)) d))"
| "json_sort j = j"

section \<open>Reading back\<close>

text \<open>A code point that UTF-8 can carry.\<close>

definition scalar_value :: "nat \<Rightarrow> bool" where
  "scalar_value c \<longleftrightarrow> c < 1114112 \<and> \<not> (55296 \<le> c \<and> c \<le> 57343)"

fun json_plain :: "json \<Rightarrow> bool" where
  "json_plain (JInt n) \<longleftrightarrow> length (dec_str (nat \<bar>n\<bar>)) \<le> 4300"
| "json_plain (JFloat t) \<longleftrightarrow> False"
| "json_plain (JStr s) \<longleftrightarrow> list_all scalar_value s"
| "json_plain (JList vs) \<longleftrightarrow> list_all json_plain vs"
| "json_plain (JDict d) \<longleftrightarrow> distinct (map fst d) \<and> list_all (\<lambda>(k, v). list_all scalar_value k \<and> json_plain v) d"
| "json_plain j \<longleftrightarrow> True"

fun json_depth :: "json \<Rightarrow> nat" where
  "json_depth (JList vs) = Suc (foldr (\<lambda>v n. max (json_depth v) n) vs 0)"
| "json_depth (JDict d) = Suc (foldr (\<lambda>(k, v) n. max (json_depth v) n) d 0)"
| "json_depth j = 0"

text \<open>Texts.\<close>

lemma decode_escape: "n < 65536 \<Longrightarrow> decode_uXXXX (map hex_char (nat_digits 16 4 n) @ r) = Some (n, r)"
proof -
  assume n: "n < 65536"
  have "those (map (\<lambda>d. hex_val (hex_char d)) (nat_digits 16 4 n)) = Some (map id (nat_digits 16 4 n))"
    using nat_digits_less [of 16 _ 4 n] by (intro those_map_Some) (auto intro: hex_val_char)
  moreover have "digits_nat 16 (nat_digits 16 4 n) = n" using n by (simp add: digits_nat_digits)
  ultimately show ?thesis by (simp add: decode_uXXXX_def o_def)
qed

lemma escape_u_shape: "escape_u n = 92 # 117 # map hex_char (nat_digits 16 4 n)"
  by (simp add: escape_u_def)

lemma scan_quoted_char:
  assumes "scalar_value c"
  shows "scanstring (json_quote_char c @ r) = map_option (\<lambda>(t, r2). (c # t, r2)) (scanstring r)"
proof (cases "plain_char c")
  case True
  then show ?thesis by (simp add: json_quote_char_def plain_char_def)
next
  case False
  show ?thesis
  proof (cases "find (\<lambda>e. backslash_char e = Some c) [34, 92, 110, 114, 116, 102, 98]")
    case (Some e)
    then have "e \<noteq> 117" "backslash_char e = Some c" by (auto simp: find_Some_iff split: if_splits)
    with False Some show ?thesis by (simp add: json_quote_char_def scan_escape_def)
  next
    case None
    show ?thesis
    proof (cases "c < 65536")
      case True
      have "\<not> (55296 \<le> c \<and> c \<le> 56319)" using assms by (auto simp: scalar_value_def)
      with True None False show ?thesis
        by (auto simp: json_quote_char_def escape_u_shape scan_escape_def decode_escape)
    next
      case big: False
      let ?h = "(c - 65536) div 1024" and ?l = "(c - 65536) mod 1024"
      have "?h < 1024" "?l < 1024" "?l \<le> 1023" "c = 65536 + ?h * 1024 + ?l" using assms big by (auto simp: scalar_value_def)
      with None False big show ?thesis
        by (simp add: json_quote_char_def escape_u_shape scan_escape_def decode_escape)
    qed
  qed
qed

lemma scan_quoted: "list_all scalar_value s \<Longrightarrow> scanstring (concat (map json_quote_char s) @ 34 # r) = Some (s, r)"
  by (induction s) (auto simp: scan_quoted_char)

text \<open>What may follow a number.\<close>

definition number_end :: "ustr \<Rightarrow> bool" where
  "number_end r \<longleftrightarrow> (case r of [] \<Rightarrow> True | c # _ \<Rightarrow> \<not> is_digit c \<and> c \<noteq> 46 \<and> c \<noteq> 101 \<and> c \<noteq> 69)"

lemma digits_then_end:
  assumes "list_all is_digit ds" and "number_end r"
  shows "takeWhile is_digit (ds @ r) = ds" "dropWhile is_digit (ds @ r) = r"
proof -
  have "takeWhile is_digit r = []" "dropWhile is_digit r = r" using assms(2) by (cases r; simp add: number_end_def)+
  then show "takeWhile is_digit (ds @ r) = ds" "dropWhile is_digit (ds @ r) = r"
    using assms(1) by (simp_all add: list_all_iff takeWhile_append2 dropWhile_append2)
qed

lemma end_no_fraction: "number_end r \<Longrightarrow> scan_fraction r = ([], r) \<and> scan_exponent r = ([], r)"
  by (auto simp: number_end_def scan_fraction_def scan_exponent_def split: list.splits prod.splits)

lemma scan_digits_text:
  assumes "number_end r"
  shows "scan_integer (dec_str n @ r) = Some (dec_str n, r)"
proof -
  have digits: "list_all is_digit (dec_str n)" using dec_str_chars [of n] by (simp add: list_all_iff is_digit_def)
  then obtain d ds where n: "dec_str n = d # ds" "is_digit d" by (cases "dec_str n") auto
  show ?thesis
  proof (cases "n = 0")
    case True
    then show ?thesis by (simp add: scan_integer_def dec_str.simps [of 0])
  next
    case False
    then have "d \<noteq> 48" using dec_str_hd [of n] n(1) by simp
    with n digits_then_end [OF digits assms] show ?thesis by (simp add: scan_integer_def scan_digits_def is_digit_def)
  qed
qed

lemma scan_integer_text: "number_end r \<Longrightarrow> scan_integer (int_str n @ r) = Some (int_str n, r)"
proof -
  assume r: "number_end r"
  obtain d ds where n: "dec_str (nat (- n)) = d # ds" by (cases "dec_str (nat (- n))") auto
  have "d \<noteq> 45" using dec_str_chars [of "nat (- n)"] n by auto
  with r n scan_digits_text [OF r, of "nat (- n)"] scan_digits_text [OF r, of "nat n"] show ?thesis
    by (auto simp: int_str_def scan_integer_def U_def split: list.splits if_splits prod.splits)
qed

lemma int_literal_text: "length (dec_str (nat \<bar>n\<bar>)) \<le> 4300 \<Longrightarrow> int_literal (int_str n) = Inr n"
proof -
  assume len: "length (dec_str (nat \<bar>n\<bar>)) \<le> 4300"
  obtain d ds where n: "dec_str (nat n) = d # ds" by (cases "dec_str (nat n)") auto
  have "d \<noteq> 45" using dec_str_chars [of "nat n"] n by auto
  with len n digits_dec_str [of "nat n"] digits_dec_str [of "nat (- n)"] show ?thesis
    by (auto simp: int_literal_def int_str_def Let_def U_def)
qed

lemma scan_scalar_int:
  assumes "length (dec_str (nat \<bar>n\<bar>)) \<le> 4300" and "number_end r"
  shows "scan_scalar (int_str n @ r) = Inr (JInt n, r)"
proof -
  obtain d ds where n: "dec_str (nat \<bar>n\<bar>) = d # ds" by (cases "dec_str (nat \<bar>n\<bar>)") auto
  have "48 \<le> d \<and> d \<le> 57" using dec_str_chars [of "nat \<bar>n\<bar>"] n by auto
  then have "find (\<lambda>(w, _). is_prefix w (int_str n @ r)) json_words = None" "\<not> is_prefix [34] (int_str n @ r)"
    using n by (cases "n < 0"; auto simp: int_str_def json_words_def U_def)+
  moreover have "scan_number (int_str n @ r) = Inr (JInt n, r)"
    using end_no_fraction [OF assms(2)] by (simp add: scan_number_def scan_integer_text [OF assms(2)] int_literal_text [OF assms(1)])
  ultimately show ?thesis by (simp add: scan_scalar_def)
qed

text \<open>The text of a value starts with no white space and no closing bracket.\<close>

definition value_start :: "ustr \<Rightarrow> bool" where
  "value_start t \<longleftrightarrow> (\<exists>c r. t = c # r \<and> \<not> json_space c \<and> c \<noteq> 93 \<and> c \<noteq> 125)"

lemma value_start_append: "value_start t \<Longrightarrow> value_start (t @ r)"
  by (auto simp: value_start_def)

lemma skip_to_value: "list_all json_space ws \<Longrightarrow> value_start t \<Longrightarrow> skip_space (ws @ t) = t"
  by (induction ws) (auto simp: value_start_def skip_space_def)

lemma skip_to_close: "list_all json_space ws \<Longrightarrow> \<not> json_space c \<Longrightarrow> skip_space (ws @ c # r) = c # r"
  by (induction ws) (auto simp: skip_space_def)

lemma value_start_dumps: "json_plain j \<Longrightarrow> value_start (json_dumps fl st l j)"
proof (cases j)
  case (JInt n)
  obtain d ds where n: "dec_str (nat \<bar>n\<bar>) = d # ds" by (cases "dec_str (nat \<bar>n\<bar>)") auto
  have "48 \<le> d \<and> d \<le> 57" using dec_str_chars [of "nat \<bar>n\<bar>"] n by auto
  then show ?thesis using n JInt by (cases "n < 0") (auto simp: value_start_def int_str_def json_space_def U_def)
qed (auto simp: value_start_def json_quote_def json_space_def U_def)

definition space_before :: "ustr \<Rightarrow> nat \<Rightarrow> bool" where
  "space_before t c \<longleftrightarrow> (\<exists>ws. t = c # ws \<and> list_all json_space ws)"

definition style_ok :: "json_style \<Rightarrow> bool" where
  "style_ok st \<longleftrightarrow> space_before (js_item st) 44 \<and> space_before (js_key st) 58"

lemma styles_ok: "style_ok js_default" "style_ok js_compact" "style_ok (js_indented n)"
  by (auto simp: style_ok_def space_before_def js_default_def js_compact_def js_indented_def json_space_def)

lemma newline_space: "list_all json_space (js_newline st l)"
  by (auto simp: js_newline_def json_space_def list_all_iff split: option.splits)

lemma number_end_space: "list_all json_space ws \<Longrightarrow> number_end (ws @ 93 # r) \<and> number_end (ws @ 125 # r)"
  by (cases ws) (auto simp: number_end_def json_space_def is_digit_def)

text \<open>The elements of an array.\<close>

lemma scan_elements:
  assumes "vs \<noteq> []" and "list_all json_space ws0" and "list_all json_space ws1" and "list_all json_space ws2" and "length vs \<le> n"
    and "\<forall>v \<in> set vs. value_start (f v) \<and> (\<forall>r. number_end r \<longrightarrow> p (f v @ r) = Inr (v, r))"
  shows "json_elements p n (ws0 @ join_with (44 # ws1) (map f vs) @ ws2 @ 93 # r) = Inr (vs, r)"
  using assms
proof (induction vs arbitrary: n ws0 rule: list_nonempty_induct)
  case (single v)
  then obtain m where m: "n = Suc m" by (cases n) auto
  have "skip_space (ws0 @ f v @ ws2 @ 93 # r) = f v @ ws2 @ 93 # r"
    using single by (intro skip_to_value) (auto intro: value_start_append)
  moreover have "skip_space (ws2 @ 93 # r) = 93 # r" using single by (intro skip_to_close) (simp_all, simp add: json_space_def)
  ultimately show ?case using single number_end_space [of ws2 r] by (simp add: m)
next
  case (cons v vs)
  then obtain m where m: "n = Suc m" by (cases n) auto
  obtain w vs' where vs: "vs = w # vs'" using cons.hyps by (cases vs) auto
  let ?rest = "ws1 @ join_with (44 # ws1) (map f vs) @ ws2 @ 93 # r"
  have shape: "ws0 @ join_with (44 # ws1) (map f (v # vs)) @ ws2 @ 93 # r = ws0 @ f v @ 44 # ?rest" by (simp add: vs)
  have "skip_space (ws0 @ f v @ 44 # ?rest) = f v @ 44 # ?rest"
    using cons.prems by (intro skip_to_value) (auto intro: value_start_append)
  moreover have "p (f v @ 44 # ?rest) = Inr (v, 44 # ?rest)" using cons.prems by (simp add: number_end_def is_digit_def)
  moreover have "json_elements p m ?rest = Inr (vs, r)" using cons by (intro cons.IH) (auto simp: m)
  moreover have "skip_space (44 # ?rest) = 44 # ?rest" by (simp add: json_space_def)
  ultimately show ?case by (simp only: shape m json_elements.simps bind_sum_simps prod.case list.case) simp
qed

text \<open>The members of an object.\<close>

lemma scan_members:
  assumes "d \<noteq> []" and "list_all json_space ws0" and "list_all json_space ws1" and "list_all json_space ws2" and "list_all json_space ws3"
    and "length d \<le> n" and "\<forall>(k, v) \<in> set d. list_all scalar_value k \<and> value_start (f v) \<and> (\<forall>r. number_end r \<longrightarrow> p (f v @ r) = Inr (v, r))"
  shows "json_members p n (ws0 @ join_with (44 # ws1) (map (\<lambda>(k, v). json_quote k @ 58 # ws3 @ f v) d) @ ws2 @ 125 # r) = Inr (d, r)"
  using assms
proof (induction d arbitrary: n ws0 rule: list_nonempty_induct)
  case (single kv)
  obtain k v where kv: "kv = (k, v)" by fastforce
  from single obtain m where m: "n = Suc m" by (cases n) auto
  let ?rest = "ws3 @ f v @ ws2 @ 125 # r"
  have "skip_space (ws0 @ json_quote k @ 58 # ?rest) = json_quote k @ 58 # ?rest"
    using single by (intro skip_to_value) (simp_all, auto simp: value_start_def json_quote_def json_space_def)
  moreover have "scanstring (drop 1 (json_quote k @ 58 # ?rest)) = Some (k, 58 # ?rest)"
    using single scan_quoted [of k "58 # ?rest"] by (simp add: kv json_quote_def)
  moreover have "skip_space ?rest = f v @ ws2 @ 125 # r"
    using single by (intro skip_to_value) (auto simp: kv intro: value_start_append)
  moreover have "skip_space (ws2 @ 125 # r) = 125 # r" using single by (intro skip_to_close) (simp_all, simp add: json_space_def)
  moreover have "p (f v @ ws2 @ 125 # r) = Inr (v, ws2 @ 125 # r)" using single number_end_space [of ws2 r] by (auto simp: kv)
  ultimately show ?case by (simp add: kv m json_quote_def json_space_def)
next
  case (cons kv d)
  obtain k v where kv: "kv = (k, v)" by fastforce
  from cons obtain m where m: "n = Suc m" by (cases n) auto
  obtain w d' where d: "d = w # d'" using cons.hyps by (cases d) auto
  let ?item = "\<lambda>(k, v). json_quote k @ 58 # ws3 @ f v"
  let ?more = "ws1 @ join_with (44 # ws1) (map ?item d) @ ws2 @ 125 # r"
  let ?rest = "ws3 @ f v @ 44 # ?more"
  have shape: "ws0 @ join_with (44 # ws1) (map ?item (kv # d)) @ ws2 @ 125 # r = ws0 @ json_quote k @ 58 # ?rest" by (simp add: d kv)
  have "skip_space (ws0 @ json_quote k @ 58 # ?rest) = json_quote k @ 58 # ?rest"
    using cons.prems by (intro skip_to_value) (simp_all, auto simp: value_start_def json_quote_def json_space_def)
  moreover have "scanstring (drop 1 (json_quote k @ 58 # ?rest)) = Some (k, 58 # ?rest)"
    using cons.prems scan_quoted [of k "58 # ?rest"] by (simp add: kv json_quote_def)
  moreover have "skip_space ?rest = f v @ 44 # ?more"
    using cons.prems by (intro skip_to_value) (auto simp: kv intro: value_start_append)
  moreover have "p (f v @ 44 # ?more) = Inr (v, 44 # ?more)" using cons.prems by (simp add: kv number_end_def is_digit_def)
  moreover have "json_members p m ?more = Inr (d, r)" using cons by (intro cons.IH) (auto simp: m)
  moreover have "skip_space (44 # ?more) = 44 # ?more" "skip_space (58 # ?rest) = 58 # ?rest" by (simp_all add: json_space_def)
  moreover have "is_prefix [34] (json_quote k @ 58 # ?rest)" by (simp add: json_quote_def)
  ultimately show ?case by (simp only: shape m json_members.simps bind_sum_simps prod.case list.case option.case) (simp add: kv)
qed

lemma fold_update_fresh: "distinct (map fst (acc @ ms)) \<Longrightarrow> fold (\<lambda>(k, v). AList.update k v) ms acc = acc @ ms"
proof (induction ms arbitrary: acc)
  case (Cons kv ms)
  obtain k v where kv: "kv = (k, v)" by fastforce
  have "AList.update k v acc = acc @ [(k, v)]" if "k \<notin> fst ` set acc" for acc :: "('a \<times> 'b) list"
    using that by (induction acc) auto
  with Cons.prems Cons.IH [of "acc @ [kv]"] show ?case by (simp add: kv)
qed simp

lemma dict_of_distinct: "distinct (map fst ms) \<Longrightarrow> dict_of ms = ms"
  using fold_update_fresh [of "[]" ms] by (simp add: dict_of_def)

lemma length_join: "(\<And>x. x \<in> set xs \<Longrightarrow> f x \<noteq> []) \<Longrightarrow> length xs \<le> length (join_with sep (map f xs))"
proof (induction xs)
  case (Cons x xs)
  then have "1 \<le> length (f x)" by (simp add: Suc_leI)
  with Cons show ?case by (cases xs) auto
qed simp

lemma depth_elements: "v \<in> set vs \<Longrightarrow> json_depth v \<le> foldr (\<lambda>v n. max (json_depth v) n) vs 0"
  by (induction vs) auto

lemma depth_members: "(k, v) \<in> set d \<Longrightarrow> json_depth v \<le> foldr (\<lambda>(k, v) n. max (json_depth v) n) d 0"
  by (induction d) auto

theorem scan_dumps:
  assumes "style_ok st"
  shows "json_plain j \<Longrightarrow> json_depth j \<le> n \<Longrightarrow> number_end r \<Longrightarrow> scan_once n (json_dumps fl st l j @ r) = Inr (j, r)"
proof (induction j arbitrary: n l r)
  case JNull
  show ?case by (cases n) (simp_all add: scan_scalar_def json_words_def U_def)
next
  case (JBool b)
  show ?case by (cases n; cases b) (simp_all add: scan_scalar_def json_words_def U_def)
next
  case (JInt i)
  obtain c t where t: "json_dumps fl st l (JInt i) = c # t" "\<not> json_space c" using value_start_dumps [OF JInt.prems(1)] by (auto simp: value_start_def)
  have "c \<noteq> 123 \<and> c \<noteq> 91"
  proof -
    obtain d ds where n: "dec_str (nat \<bar>i\<bar>) = d # ds" by (cases "dec_str (nat \<bar>i\<bar>)") auto
    have "48 \<le> d \<and> d \<le> 57" using dec_str_chars [of "nat \<bar>i\<bar>"] n by auto
    with t n show ?thesis by (cases "i < 0") (auto simp: int_str_def U_def)
  qed
  with t JInt scan_scalar_int [of i r] show ?case by (cases n) auto
next
  case (JFloat t)
  then show ?case by simp
next
  case (JStr s)
  then show ?case using scan_quoted [of s r] by (cases n) (simp_all add: scan_scalar_def json_quote_def)
next
  case (JList vs)
  from JList.prems(2) obtain m where n: "n = Suc m" by (cases n) auto
  show ?case
  proof (cases "vs = []")
    case False
    obtain ws where item: "js_item st = 44 # ws" "list_all json_space ws" using assms by (auto simp: style_ok_def space_before_def)
    let ?f = "json_dumps fl st (Suc l)" and ?ws = "ws @ js_newline st (Suc l)"
    let ?s = "js_newline st (Suc l) @ join_with (44 # ?ws) (map ?f vs) @ js_newline st l @ 93 # r"
    have vals: "\<forall>v \<in> set vs. value_start (?f v) \<and> (\<forall>r. number_end r \<longrightarrow> scan_once m (?f v @ r) = Inr (v, r))"
      using JList depth_elements by (fastforce simp: n list_all_iff intro: value_start_dumps)
    then have "\<And>v. v \<in> set vs \<Longrightarrow> ?f v \<noteq> []" by (auto simp: value_start_def)
    then have "length vs \<le> length ?s" using length_join [of vs ?f "44 # ?ws"] by simp
    then have "json_elements (scan_once m) (length ?s) ?s = Inr (vs, r)"
      using False vals item newline_space by (intro scan_elements) auto
    moreover have "\<not> is_prefix [93] (skip_space ?s)"
    proof -
      obtain v vs' where vs: "vs = v # vs'" using False by (cases vs) auto
      have "value_start (join_with (44 # ?ws) (map ?f vs) @ js_newline st l @ 93 # r)"
        using vals by (cases vs') (auto simp: vs intro!: value_start_append)
      from skip_to_value [OF newline_space this] this show ?thesis by (auto simp: value_start_def)
    qed
    ultimately have "json_array (scan_once m) ?s = Inr (JList vs, r)" by (simp add: json_array_def)
    with False show ?thesis by (simp add: n item)
  qed (simp add: n json_array_def json_space_def)
next
  case (JDict d)
  from JDict.prems(2) obtain m where n: "n = Suc m" by (cases n) auto
  show ?case
  proof (cases "d = []")
    case False
    obtain ws where item: "js_item st = 44 # ws" "list_all json_space ws" using assms by (auto simp: style_ok_def space_before_def)
    obtain ws3 where key: "js_key st = 58 # ws3" "list_all json_space ws3" using assms by (auto simp: style_ok_def space_before_def)
    let ?f = "json_dumps fl st (Suc l)" and ?ws = "ws @ js_newline st (Suc l)" and ?item = "\<lambda>(k, v). json_quote k @ 58 # ws3 @ json_dumps fl st (Suc l) v"
    let ?s = "js_newline st (Suc l) @ join_with (44 # ?ws) (map ?item d) @ js_newline st l @ 125 # r"
    have vals: "\<forall>(k, v) \<in> set d. list_all scalar_value k \<and> value_start (?f v) \<and> (\<forall>r. number_end r \<longrightarrow> scan_once m (?f v @ r) = Inr (v, r))"
    proof (clarify, intro conjI allI impI)
      fix k v assume kv: "(k, v) \<in> set d"
      then have v: "json_plain v" "list_all scalar_value k" "json_depth v \<le> m"
        using JDict.prems depth_members [OF kv] by (auto simp: n list_all_iff)
      then show "list_all scalar_value k" "value_start (?f v)" by (simp_all add: value_start_dumps)
      fix r assume "number_end r"
      with JDict.IH [OF kv, of v m r "Suc l"] v show "scan_once m (?f v @ r) = Inr (v, r)" by simp
    qed
    have "length d \<le> length ?s" using length_join [of d ?item "44 # ?ws"] by (simp add: json_quote_def split_beta)
    then have "json_members (scan_once m) (length ?s) ?s = Inr (d, r)"
      using False vals item key newline_space by (intro scan_members) auto
    moreover have "\<not> is_prefix [125] (skip_space ?s)"
    proof -
      obtain k v d' where d: "d = (k, v) # d'" using False by (cases d) auto
      have "value_start (join_with (44 # ?ws) (map ?item d) @ js_newline st l @ 125 # r)"
        by (cases d') (auto simp: d value_start_def json_quote_def json_space_def)
      from skip_to_value [OF newline_space this] this show ?thesis by (auto simp: value_start_def)
    qed
    moreover have "dict_of d = d" using JDict.prems(1) by (simp add: dict_of_distinct)
    ultimately have "json_object (scan_once m) ?s = Inr (JDict d, r)" by (simp add: json_object_def)
    with False show ?thesis by (simp add: n item key split_beta)
  qed (simp add: n json_object_def json_space_def)
qed

lemma json_decode_dumps:
  assumes "style_ok st" and "json_plain j" and "json_depth j \<le> n" and "list_all json_space ws"
  shows "json_decode n (json_dumps fl st l j @ ws) = Inr j"
proof -
  have "number_end ws" using assms(4) by (cases ws) (auto simp: number_end_def json_space_def is_digit_def)
  then have "scan_once n (json_dumps fl st l j @ ws) = Inr (j, ws)" using scan_dumps assms by blast
  moreover have "skip_space (json_dumps fl st l j @ ws) = json_dumps fl st l j @ ws"
    using skip_to_value [of "[]"] value_start_append [OF value_start_dumps [OF assms(2)]] by simp
  moreover have "skip_space ws = []" using assms(4) by (simp add: skip_space_def list_all_iff)
  ultimately show ?thesis by (simp add: json_decode_def)
qed

end
