(* ===== verification/Installer.thy ===== *)
theory Installer
  imports Files Json_Print
begin

text \<open>
  What the two installer programs share: the host they run on, \<^verbatim>\<open>base64.urlsafe_b64decode\<close> as \<^verbatim>\<open>binascii\<close> reads it
  (characters outside the alphabet are skipped, the first complete padding ends the text), the equality of JSON values
  as Python has it, and strict UTF-8.
\<close>

text \<open>
  The host of the installer: digests, the depth to which the interpreter nests JSON containers, the text of a float, the
  equality of two numbers one of which is a float, and the clock in seconds since 1970.
\<close>

record installer = host +
  in_sha256 :: "bytes \<Rightarrow> bytes"
  in_hmac_sha256 :: "bytes \<Rightarrow> bytes \<Rightarrow> bytes"
  in_json_depth :: nat
  in_float_text :: "ustr \<Rightarrow> ustr"
  in_number_eq :: "json \<Rightarrow> json \<Rightarrow> bool"
  in_clock :: nat

section \<open>Base64\<close>

definition std_index :: "nat \<Rightarrow> nat option" where
  "std_index c = (if c = 43 then Some 62 else if c = 47 then Some 63
     else if is_url_char c \<and> c \<noteq> 45 \<and> c \<noteq> 95 then Some (url_index c) else None)"

text \<open>The state of the loop: the position in a group of four, the padding seen, and the bits left over.\<close>

fun a2b_loop :: "nat \<Rightarrow> nat \<Rightarrow> nat \<Rightarrow> ustr \<Rightarrow> exn + bytes" where
  "a2b_loop quad pads left [] = (if quad = 0 then Inr [] else Inl ValueError)"
| "a2b_loop quad pads left (c # r) =
     (if c = 61 then
        if quad < 2 then a2b_loop quad pads left r
        else if 4 \<le> quad + pads + 1 then Inr [] else a2b_loop quad (pads + 1) left r
      else case std_index c of
        None \<Rightarrow> a2b_loop quad pads left r
      | Some v \<Rightarrow>
          if quad = 0 then a2b_loop 1 0 v r
          else if quad = 1 then bind_sum (a2b_loop 2 0 (v mod 16) r) (\<lambda>bs. Inr (word_of_nat (left * 4 + v div 16) # bs))
          else if quad = 2 then bind_sum (a2b_loop 3 0 (v mod 4) r) (\<lambda>bs. Inr (word_of_nat (left * 16 + v div 4) # bs))
          else bind_sum (a2b_loop 0 0 0 r) (\<lambda>bs. Inr (word_of_nat (left * 64 + v) # bs)))"

definition url_to_std :: "nat \<Rightarrow> nat" where
  "url_to_std c = (if c = 45 then 43 else if c = 95 then 47 else c)"

definition urlsafe_b64decode :: "ustr \<Rightarrow> exn + bytes" where
  "urlsafe_b64decode t = (if isascii t then a2b_loop 0 0 0 (map url_to_std t) else Inl ValueError)"

text \<open>\<^verbatim>\<open>text + "=" * (-len(text) % 4)\<close>.\<close>

definition b64_padded :: "ustr \<Rightarrow> ustr" where
  "b64_padded t = t @ replicate ((4 - length t mod 4) mod 4) 61"

section \<open>JSON values\<close>

fun json_number :: "json \<Rightarrow> int option" where
  "json_number (JBool b) = Some (of_bool b)"
| "json_number (JInt n) = Some n"
| "json_number _ = None"

fun is_float :: "json \<Rightarrow> bool" where
  "is_float (JFloat _) = True"
| "is_float _ = False"

text \<open>\<^verbatim>\<open>a == b\<close>: numbers by value, booleans among them, and dictionaries without regard to order.\<close>

fun json_eq :: "(json \<Rightarrow> json \<Rightarrow> bool) \<Rightarrow> json \<Rightarrow> json \<Rightarrow> bool" where
  "json_eq fe JNull b \<longleftrightarrow> b = JNull"
| "json_eq fe (JBool x) b \<longleftrightarrow> json_number b = Some (of_bool x) \<or> is_float b \<and> fe (JBool x) b"
| "json_eq fe (JInt n) b \<longleftrightarrow> json_number b = Some n \<or> is_float b \<and> fe (JInt n) b"
| "json_eq fe (JFloat t) b \<longleftrightarrow> (json_number b \<noteq> None \<or> is_float b) \<and> fe (JFloat t) b"
| "json_eq fe (JStr t) b \<longleftrightarrow> b = JStr t"
| "json_eq fe (JList vs) b \<longleftrightarrow> (case b of JList ws \<Rightarrow> list_all2 (json_eq fe) vs ws | _ \<Rightarrow> False)"
| "json_eq fe (JDict d) b \<longleftrightarrow> (case b of
     JDict e \<Rightarrow> length d = length e \<and> (\<forall>(k, v) \<in> set d. \<exists>(k', w) \<in> set e. k' = k \<and> json_eq fe v w)
   | _ \<Rightarrow> False)"

definition json_get :: "(ustr \<times> json) list \<Rightarrow> ustr \<Rightarrow> json" where
  "json_get d k = (case map_of d k of None \<Rightarrow> JNull | Some v \<Rightarrow> v)"

definition json_keys :: "(ustr \<times> json) list \<Rightarrow> ustr set" where
  "json_keys d = set (map fst d)"

section \<open>Text\<close>

text \<open>\<^verbatim>\<open>bytes.decode("utf-8")\<close>: surrogates are refused.\<close>

definition decode_utf8 :: "bytes \<Rightarrow> exn + ustr" where
  "decode_utf8 b = bind_sum (utf8_decode (map unat b)) (\<lambda>t. if list_all scalar_value t then Inr t else Inl UnicodeError)"

definition lstrip_char :: "nat \<Rightarrow> ustr \<Rightarrow> ustr" where
  "lstrip_char c t = dropWhile (\<lambda>x. x = c) t"

definition rstrip_char :: "nat \<Rightarrow> ustr \<Rightarrow> ustr" where
  "rstrip_char c t = rev (dropWhile (\<lambda>x. x = c) (rev t))"

text \<open>\<^verbatim>\<open>pat in text\<close>.\<close>

fun contains_sub :: "ustr \<Rightarrow> ustr \<Rightarrow> bool" where
  "contains_sub pat [] \<longleftrightarrow> pat = []"
| "contains_sub pat (c # t) \<longleftrightarrow> is_prefix pat (c # t) \<or> contains_sub pat t"

definition join_lines :: "ustr list \<Rightarrow> ustr" where
  "join_lines ls = join_with [10] ls"

section \<open>JSON documents on the wire\<close>

text \<open>What \<^verbatim>\<open>dumps\<close> writes is ASCII without NUL, so its bytes are read as UTF-8.\<close>

definition wire_char :: "nat \<Rightarrow> bool" where
  "wire_char c \<longleftrightarrow> c \<noteq> 0 \<and> c < 128"

lemma escape_wire: "list_all wire_char (escape_u n)"
proof -
  have "wire_char (hex_char x)" if "x \<in> set (nat_digits 16 4 n)" for x
    using nat_digits_less [of 16 x 4 n] that by (simp add: wire_char_def hex_char_def)
  then show ?thesis by (simp add: escape_u_def list_all_iff) (simp add: wire_char_def)
qed

lemma quote_char_wire: "list_all wire_char (json_quote_char c)"
proof -
  have "e \<in> set [34, 92, 110, 114, 116, 102, 98]" if "find P [34, 92, 110, 114, 116, 102, 98] = Some e" for P and e :: nat
    using that by (metis (no_types, lifting) find_Some_iff nth_mem)
  then show ?thesis
    using escape_wire by (auto simp: json_quote_char_def wire_char_def plain_char_def split: option.split)
qed

lemma quote_wire: "list_all wire_char (json_quote s)"
  using quote_char_wire by (auto simp: json_quote_def wire_char_def list_all_iff)

lemma join_wire: "list_all wire_char sep \<Longrightarrow> (\<And>x. x \<in> set xs \<Longrightarrow> list_all wire_char x) \<Longrightarrow> list_all wire_char (join_with sep xs)"
  by (induction sep xs rule: join_with.induct) auto

lemma int_wire: "list_all wire_char (int_str n)"
proof -
  have "list_all wire_char (dec_str k)" for k
    using dec_str_chars [of k] by (rule list.pred_mono_strong) (simp add: wire_char_def)
  then show ?thesis by (simp add: int_str_def U_def wire_char_def)
qed

definition style_wire :: "json_style \<Rightarrow> bool" where
  "style_wire st \<longleftrightarrow> list_all wire_char (js_item st) \<and> list_all wire_char (js_key st)"

lemma styles_wire: "style_wire js_default" "style_wire js_compact" "style_wire (js_indented n)"
  by (simp_all add: style_wire_def js_default_def js_compact_def js_indented_def wire_char_def)

lemma newline_wire: "list_all wire_char (js_newline st l)"
  by (auto simp: js_newline_def wire_char_def list_all_iff split: option.splits)

lemma bracket_wire: "wire_char 91" "wire_char 93" "wire_char 123" "wire_char 125"
  by (simp_all add: wire_char_def)

lemma dumps_wire: "style_wire st \<Longrightarrow> json_plain j \<Longrightarrow> list_all wire_char (json_dumps fl st l j)"
proof (induction fl st l j rule: json_dumps.induct)
  case (6 fl st l vs)
  have "list_all wire_char (json_dumps fl st (Suc l) v)" if "v \<in> set vs" for v
    using 6 that by (cases "vs = []") (auto simp: list_all_iff [of json_plain])
  then have "list_all wire_char (join_with (js_item st @ js_newline st (Suc l)) (map (json_dumps fl st (Suc l)) vs))"
    using 6 newline_wire by (intro join_wire) (auto simp: style_wire_def)
  then show ?case using newline_wire by (simp add: bracket_wire)
next
  case (7 fl st l d)
  have "list_all wire_char (json_dumps fl st (Suc l) v)" if "(k, v) \<in> set d" for k v
    using 7 that by (cases "d = []") (fastforce simp: list_all_iff)+
  then have "list_all wire_char (join_with (js_item st @ js_newline st (Suc l)) (map (\<lambda>(k, v). json_quote k @ js_key st @ json_dumps fl st (Suc l) v) d))"
    using 7 newline_wire quote_wire by (intro join_wire) (auto simp: style_wire_def)
  then show ?case using newline_wire by (simp add: bracket_wire)
qed (use int_wire quote_wire in \<open>auto simp: U_def wire_char_def\<close>)

lemma wire_ascii: "list_all wire_char t \<longleftrightarrow> isascii t \<and> 0 \<notin> set t"
  by (induction t) (auto simp: wire_char_def)

text \<open>A document that was written with \<^verbatim>\<open>dumps\<close>, a newline and \<^verbatim>\<open>encode\<close> is read back by \<^verbatim>\<open>loads\<close>.\<close>

lemma document_roundtrip:
  assumes "style_ok st" and "style_wire st" and "json_plain j" and "json_depth j \<le> n"
  shows "utf8_encode (json_dumps fl st 0 j @ [10]) = Inr (ascii_bytes (json_dumps fl st 0 j @ [10]))"
    and "json_loads_bytes n (ascii_bytes (json_dumps fl st 0 j @ [10])) = Inr j"
proof -
  have wire: "list_all wire_char (json_dumps fl st 0 j @ [10])" using dumps_wire [OF assms(2,3)] by (simp add: wire_char_def)
  then show "utf8_encode (json_dumps fl st 0 j @ [10]) = Inr (ascii_bytes (json_dumps fl st 0 j @ [10]))"
    by (auto simp: wire_ascii intro: utf8_encode_ascii)
  have "decode_json (map unat (ascii_bytes (json_dumps fl st 0 j @ [10]))) = Inr (json_dumps fl st 0 j @ [10])"
    using wire decode_json_ascii map_unat_ascii_bytes unfolding wire_ascii by metis
  then show "json_loads_bytes n (ascii_bytes (json_dumps fl st 0 j @ [10])) = Inr j"
    using json_decode_dumps [OF assms(1,3,4), of "[10]" fl 0] by (simp add: json_loads_bytes_def json_space_def)
qed

end
