(* ===== verification/Render_Config.thy ===== *)
theory Render_Config
  imports Installer
begin

text \<open>
  The configuration renderer of the installer, \<^verbatim>\<open>installer/render_config.py\<close>: it validates the material of the node,
  derives the page shown to strangers, renders the files of Xray, Hysteria2, Caddy and the control plane, and writes
  each of them atomically.
\<close>

section \<open>Constants\<close>

definition MAX_INPUT_BYTES :: nat where "MAX_INPUT_BYTES = 64 * 1024"
definition BIND_ALL_IPV4 :: ustr where "BIND_ALL_IPV4 = U ''0.0.0.0''"

definition KEY_PATTERN :: "ustr \<Rightarrow> bool" where
  "KEY_PATTERN t \<longleftrightarrow> 42 \<le> length t \<and> length t \<le> 44 \<and> list_all is_url_char t"

definition RENDER_SHORT_ID :: "ustr \<Rightarrow> bool" where
  "RENDER_SHORT_ID t \<longleftrightarrow> length t = 16 \<and> list_all is_lower_hex t"

definition XRAY_FIELDS :: "ustr list" where
  "XRAY_FIELDS = [U ''private_key'', U ''short_id'', U ''fallback_upload'', U ''fallback_download'']"

definition NODE_FIELDS :: "ustr list" where
  "NODE_FIELDS = [U ''xray_public_key'', U ''xray_short_id'']"

definition LEGACY_FIELDS :: "ustr list" where
  "LEGACY_FIELDS = [U ''target'', U ''server_name'', U ''xhttp_path'']"

definition HYSTERIA_FIELDS :: "ustr list" where
  "HYSTERIA_FIELDS = [U ''certificate_path'', U ''private_key_path'', U ''obfs_password'', U ''stats_secret'']"

definition LIMIT_FIELDS :: "ustr list" where
  "LIMIT_FIELDS = [U ''after_bytes'', U ''bytes_per_second'', U ''burst_bytes_per_second'']"

definition REALITY_TARGET :: ustr where "REALITY_TARGET = U ''gateway:8443''"
definition STUB_OPEN :: ustr where "STUB_OPEN = U ''respond <<STUB''"
definition STUB_CLOSE :: ustr where "STUB_CLOSE = U ''STUB 200''"

definition STUB_NAMES :: "ustr list \<times> ustr list" where
  "STUB_NAMES =
     (map U [''Quiet'', ''Northern'', ''Silver'', ''Open'', ''Bright'', ''Green'', ''Calm'', ''Little''],
      map U [''Studio'', ''Workshop'', ''Notes'', ''Garden'', ''Field'', ''Corner'', ''Atlas'', ''Bench''])"

definition STUB_MESSAGES :: "ustr list" where
  "STUB_MESSAGES = map U [''New content is coming soon.'', ''This site is being prepared.'',
     ''Something new is on the way.'', ''The page will be available soon.'']"

definition STUB_COLORS :: "(ustr \<times> ustr \<times> ustr) list" where
  "STUB_COLORS = map (\<lambda>(a, b, c). (U a, U b, U c))
     [(''#f6f7f9'', ''#1f2933'', ''#2b6cb0''), (''#fbfaf7'', ''#2d2a26'', ''#8a5a2b''),
      (''#f4f8f5'', ''#1e2b24'', ''#2f7d4f''), (''#f7f6fb'', ''#26233a'', ''#5b4bb7''),
      (''#ffffff'', ''#222222'', ''#b03a2e''), (''#f5f7fa'', ''#1b2430'', ''#0f766e'')]"

section \<open>Reading the material\<close>

definition read_regular :: "'h installer_scheme \<Rightarrow> path \<Rightarrow> nat \<Rightarrow> (fs, bytes) prog" where
  "read_regular h p maximum = catch
     (bindP (os_stat h False p) (\<lambda>status. case status of
        File d _ _ \<Rightarrow> if length d > maximum then raise RenderError else path_read_bytes h p
      | _ \<Rightarrow> raise RenderError))
     (\<lambda>e. raise (if e = OSError then RenderError else e))"

definition load_json :: "'h installer_scheme \<Rightarrow> path \<Rightarrow> (fs, (ustr \<times> json) list) prog" where
  "load_json h p = bindP (read_regular h p MAX_INPUT_BYTES) (\<lambda>raw.
     case json_loads_bytes (in_json_depth h) raw of
       Inl e \<Rightarrow> raise (if e = JSONDecodeError \<or> e = UnicodeError then RenderError else e)
     | Inr (JDict d) \<Rightarrow> ret d
     | Inr _ \<Rightarrow> raise RenderError)"

section \<open>Validation\<close>

record fallback_limits =
  fl_after :: int
  fl_rate :: int
  fl_burst :: int

record xray_values =
  xv_private_key :: ustr
  xv_public_key :: ustr
  xv_short_id :: ustr
  xv_upload :: fallback_limits
  xv_download :: fallback_limits

record hysteria_values =
  hv_certificate_path :: ustr
  hv_private_key_path :: ustr
  hv_obfs_password :: ustr
  hv_stats_secret :: ustr

definition render_string :: "json \<Rightarrow> exn + ustr" where
  "render_string v = (case v of JStr t \<Rightarrow> Inr t | _ \<Rightarrow> Inl RenderError)"

definition check_32_bytes :: "ustr \<Rightarrow> exn + ustr" where
  "check_32_bytes t = (case urlsafe_b64decode (b64_padded t) of
     Inl e \<Rightarrow> Inl (if is_ValueError e then RenderError else e)
   | Inr decoded \<Rightarrow> if length decoded \<noteq> 32 then Inl RenderError else Inr t)"

definition render_key :: "json \<Rightarrow> exn + ustr" where
  "render_key v = bind_sum (render_string v) (\<lambda>t. if \<not> KEY_PATTERN t then Inl RenderError else check_32_bytes t)"

definition encoded_secret :: "json \<Rightarrow> exn + ustr" where
  "encoded_secret v = bind_sum (render_string v) check_32_bytes"

fun json_int :: "json \<Rightarrow> int option" where
  "json_int (JInt n) = Some n"
| "json_int _ = None"

definition render_limits :: "json \<Rightarrow> exn + fallback_limits" where
  "render_limits v = (case v of
     JDict d \<Rightarrow>
       if json_keys d \<noteq> set LIMIT_FIELDS then Inl RenderError
       else (case those (map (\<lambda>k. json_int (json_get d k)) LIMIT_FIELDS) of
         Some [after, rate, burst] \<Rightarrow>
           if \<not> (1048576 \<le> after \<and> after \<le> 67108864) then Inl RenderError
           else if \<not> (131072 \<le> rate \<and> rate \<le> 8388608) then Inl RenderError
           else if \<not> (rate \<le> burst \<and> burst \<le> 33554432) then Inl RenderError
           else Inr \<lparr>fl_after = after, fl_rate = rate, fl_burst = burst\<rparr>
       | _ \<Rightarrow> Inl RenderError)
   | _ \<Rightarrow> Inl RenderError)"

definition require_fields :: "(ustr \<times> json) list \<Rightarrow> ustr list \<Rightarrow> exn + unit" where
  "require_fields d required = (let present = json_keys d in
     if \<not> set required \<subseteq> present \<or> \<not> present - set required \<subseteq> set LEGACY_FIELDS then Inl RenderError else Inr ())"

definition validated_xray :: "(ustr \<times> json) list \<Rightarrow> (ustr \<times> json) list \<Rightarrow> exn + xray_values" where
  "validated_xray xray_value node =
     bind_sum (render_string (json_get xray_value (U ''short_id''))) (\<lambda>short_id.
     if \<not> RENDER_SHORT_ID short_id then Inl RenderError
     else if json_get node (U ''xray_short_id'') \<noteq> JStr short_id then Inl RenderError
     else bind_sum (render_limits (json_get xray_value (U ''fallback_upload''))) (\<lambda>upload.
     bind_sum (render_limits (json_get xray_value (U ''fallback_download''))) (\<lambda>download.
     if upload = download then Inl RenderError
     else bind_sum (render_key (json_get xray_value (U ''private_key''))) (\<lambda>private_key.
     bind_sum (render_key (json_get node (U ''xray_public_key''))) (\<lambda>public_key.
     Inr \<lparr>xv_private_key = private_key, xv_public_key = public_key, xv_short_id = short_id,
          xv_upload = upload, xv_download = download\<rparr>)))))"

definition validated_hysteria :: "(ustr \<times> json) list \<Rightarrow> exn + hysteria_values" where
  "validated_hysteria d =
     bind_sum (render_string (json_get d (U ''certificate_path''))) (\<lambda>certificate.
     bind_sum (render_string (json_get d (U ''private_key_path''))) (\<lambda>private_key.
     bind_sum (encoded_secret (json_get d (U ''obfs_password''))) (\<lambda>obfs.
     bind_sum (encoded_secret (json_get d (U ''stats_secret''))) (\<lambda>stats.
     if certificate \<noteq> U ''/certs/fullchain.pem'' then Inl RenderError
     else if private_key \<noteq> U ''/certs/privkey.pem'' then Inl RenderError
     else Inr \<lparr>hv_certificate_path = certificate, hv_private_key_path = private_key,
               hv_obfs_password = obfs, hv_stats_secret = stats\<rparr>))))"

definition validated_values :: "(json \<Rightarrow> json \<Rightarrow> bool) \<Rightarrow> (ustr \<times> json) list \<Rightarrow> (ustr \<times> json) list \<Rightarrow> exn + xray_values \<times> hysteria_values" where
  "validated_values number_eq runtime node =
     (if json_keys runtime \<noteq> {U ''xray'', U ''hysteria''} then Inl RenderError
      else case (json_get runtime (U ''xray''), json_get runtime (U ''hysteria'')) of
        (JDict xray_value, JDict hysteria_value) \<Rightarrow>
          bind_sum (require_fields xray_value XRAY_FIELDS) (\<lambda>_.
          if json_keys hysteria_value \<noteq> set HYSTERIA_FIELDS then Inl RenderError
          else bind_sum (require_fields node NODE_FIELDS) (\<lambda>_.
          if list_ex (\<lambda>name. \<not> json_eq number_eq (json_get xray_value name) (json_get node name)) LEGACY_FIELDS
          then Inl RenderError
          else bind_sum (validated_xray xray_value node) (\<lambda>xray.
          bind_sum (validated_hysteria hysteria_value) (\<lambda>hysteria. Inr (xray, hysteria)))))
      | _ \<Rightarrow> Inl RenderError)"

section \<open>The page for strangers\<close>

text \<open>The wording and the colours that a seed selects.\<close>

definition stub_name :: "bytes \<Rightarrow> ustr" where
  "stub_name seed = fst STUB_NAMES ! (unat (seed ! 0) mod 8) @ U '' '' @ snd STUB_NAMES ! (unat (seed ! 1) mod 8)"

definition stub_body_style :: "ustr \<Rightarrow> ustr \<Rightarrow> ustr" where
  "stub_body_style background color =
     U ''margin:0;min-height:100vh;display:flex;align-items:center;''
     @ U ''justify-content:center;font-family:system-ui,-apple-system,''
     @ [39] @ U ''Segoe UI'' @ [39] @ U '',Roboto,sans-serif;background:'' @ background @ U '';color:'' @ color"

definition stub_lines :: "bytes \<Rightarrow> ustr list" where
  \<open>stub_lines seed =
     (let name = stub_name seed;
          message = STUB_MESSAGES ! (unat (seed ! 2) mod length STUB_MESSAGES);
          (background, color, accent) = STUB_COLORS ! (unat (seed ! 3) mod length STUB_COLORS)
      in [U ''<!doctype html>'',
          U ''<html lang="en">'',
          U ''<head>'',
          U ''<meta charset="utf-8">'',
          U ''<meta name="viewport" content="width=device-width, initial-scale=1">'',
          U ''<title>'' @ name @ U ''</title>'',
          U ''</head>'',
          U ''<body style="'' @ stub_body_style background color @ U ''">'',
          U ''<main style="max-width:32rem;padding:2rem;text-align:center">'',
          U ''<h1 style="margin:0 0 0.75rem;font-size:2rem;color:'' @ accent @ U ''">'' @ name @ U ''</h1>'',
          U ''<p style="margin:0;font-size:1.05rem;line-height:1.6">'' @ message @ U ''</p>'',
          U ''</main>'',
          U ''</body>'',
          U ''</html>'',
          []])\<close>

definition stub_page :: "'h installer_scheme \<Rightarrow> ustr \<Rightarrow> exn + ustr" where
  "stub_page h private_key = bind_sum (urlsafe_b64decode (b64_padded private_key)) (\<lambda>key.
     let seed = in_hmac_sha256 h key (ascii_bytes (U ''ezopenpn stub page v1'')) in Inr (join_lines (stub_lines seed)))"

section \<open>Rendering\<close>

text \<open>The numbers of the lines that read \<open>marker\<close> once stripped.\<close>

definition marker_lines :: "ustr \<Rightarrow> ustr list \<Rightarrow> nat list" where
  "marker_lines marker ls = filter (\<lambda>i. strip (ls ! i) = marker) [0..<length ls]"

definition gateway_config :: "ustr \<Rightarrow> ustr \<Rightarrow> exn + ustr" where
  "gateway_config template page =
     (if list_ex (\<lambda>c. c \<in> set page) (U ''{}'') \<or> contains_sub (U ''STUB'') page then Inl RenderError
      else let ls = split_on 10 template in
        case (marker_lines STUB_OPEN ls, marker_lines STUB_CLOSE ls) of
          ([opening], [closing]) \<Rightarrow>
            if closing \<le> opening then Inl RenderError
            else let marker = ls ! closing;
                     indent = take (length marker - length (lstrip_char 9 marker)) marker;
                     body = map (\<lambda>line. indent @ line) (split_on 10 (rstrip_char 10 page))
                 in Inr (join_lines (take (opening + 1) ls @ body @ drop closing ls))
        | _ \<Rightarrow> Inl RenderError)"

definition limit_document :: "fallback_limits \<Rightarrow> json" where
  "limit_document fl = JDict [(U ''afterBytes'', JInt (fl_after fl)), (U ''bytesPerSec'', JInt (fl_rate fl)),
     (U ''burstBytesPerSec'', JInt (fl_burst fl))]"

definition reality_settings :: "xray_values \<Rightarrow> json" where
  "reality_settings v = JDict [(U ''show'', JBool False), (U ''target'', JStr REALITY_TARGET), (U ''xver'', JInt 0),
     (U ''serverNames'', JList [JStr []]), (U ''privateKey'', JStr (xv_private_key v)),
     (U ''shortIds'', JList [JStr (xv_short_id v)]),
     (U ''limitFallbackUpload'', limit_document (xv_upload v)),
     (U ''limitFallbackDownload'', limit_document (xv_download v))]"

definition protected_entry :: "xray_values \<Rightarrow> json" where
  "protected_entry v = JDict [(U ''listen'', JStr BIND_ALL_IPV4), (U ''port'', JInt 8443), (U ''protocol'', JStr (U ''vless'')),
     (U ''tag'', JStr (U ''protected-entry'')),
     (U ''settings'', JDict [(U ''clients'', JList []), (U ''decryption'', JStr (U ''none''))]),
     (U ''streamSettings'', JDict [(U ''network'', JStr (U ''raw'')), (U ''security'', JStr (U ''reality'')),
        (U ''realitySettings'', reality_settings v)]),
     (U ''sniffing'', JDict [(U ''enabled'', JBool True),
        (U ''destOverride'', JList [JStr (U ''http''), JStr (U ''tls''), JStr (U ''quic'')]),
        (U ''routeOnly'', JBool True)])]"

definition api_entry :: json where
  "api_entry = JDict [(U ''listen'', JStr BIND_ALL_IPV4), (U ''port'', JInt 10085), (U ''protocol'', JStr (U ''dokodemo-door'')),
     (U ''tag'', JStr (U ''api-in'')), (U ''settings'', JDict [(U ''address'', JStr (U ''127.0.0.1''))])]"

definition xray_document :: "xray_values \<Rightarrow> json" where
  "xray_document v = JDict
     [(U ''log'', JDict [(U ''access'', JStr (U ''none'')), (U ''dnsLog'', JBool False), (U ''loglevel'', JStr (U ''warning''))]),
      (U ''api'', JDict [(U ''tag'', JStr (U ''api'')), (U ''services'', JList [JStr (U ''HandlerService'')])]),
      (U ''inbounds'', JList [protected_entry v, api_entry]),
      (U ''outbounds'', JList
         [JDict [(U ''protocol'', JStr (U ''freedom'')), (U ''tag'', JStr (U ''direct''))],
          JDict [(U ''protocol'', JStr (U ''blackhole'')), (U ''tag'', JStr (U ''block''))]]),
      (U ''routing'', JDict [(U ''domainStrategy'', JStr (U ''AsIs'')),
         (U ''rules'', JList [JDict [(U ''type'', JStr (U ''field'')), (U ''inboundTag'', JList [JStr (U ''api-in'')]),
            (U ''outboundTag'', JStr (U ''api''))]])])]"

definition xray_config :: "'h installer_scheme \<Rightarrow> xray_values \<Rightarrow> ustr" where
  "xray_config h v = json_dumps (in_float_text h) (js_indented 2) 0 (xray_document v) @ [10]"

definition hysteria_config :: "hysteria_values \<Rightarrow> ustr \<Rightarrow> ustr" where
  \<open>hysteria_config v masquerade = join_lines
     [U ''listen: "0.0.0.0:8443"'',
      [],
      U ''tls:'',
      U ''  cert: '' @ json_quote (hv_certificate_path v),
      U ''  key: '' @ json_quote (hv_private_key_path v),
      U ''  sniGuard: dns-san'',
      [],
      U ''obfs:'',
      U ''  type: salamander'',
      U ''  salamander:'',
      U ''    password: '' @ json_quote (hv_obfs_password v),
      [],
      U ''auth:'',
      U ''  type: http'',
      U ''  http:'',
      U ''    url: "http://control:8000/internal/hysteria/auth"'',
      U ''    insecure: false'',
      [],
      U ''trafficStats:'',
      U ''  listen: "0.0.0.0:9999"'',
      U ''  secret: '' @ json_quote (hv_stats_secret v),
      [],
      U ''speedTest: false'',
      U ''disableUDP: false'',
      U ''udpIdleTimeout: 60s'',
      [],
      U ''masquerade:'',
      U ''  type: string'',
      U ''  string:'',
      U ''    content: '' @ json_quote masquerade,
      U ''    headers:'',
      U ''      content-type: "text/html; charset=utf-8"'',
      U ''      cache-control: "no-store"'',
      U ''    statusCode: 200'',
      []]\<close>

definition control_config :: "ustr \<Rightarrow> xray_values \<Rightarrow> ustr" where
  \<open>control_config public_ip v = join_lines
     [U ''[app]'',
      U ''public_ip = '' @ json_quote public_ip,
      [],
      U ''[database]'',
      U ''path = "/var/lib/ezopenpn/ezopenpn.sqlite3"'',
      [],
      U ''[paths]'',
      U ''master_key_path = "/run/secrets/ezopenpn_master_key"'',
      U ''hysteria_api_path = "/run/secrets/ezopenpn_hysteria_api"'',
      U ''hysteria_obfs_path = "/run/secrets/ezopenpn_hysteria_obfs"'',
      U ''supervisor_socket = "/run/ezopenpn-xray/control.sock"'',
      [],
      U ''[proxy]'',
      U ''trusted_hosts = ["gateway"]'',
      [],
      U ''[xray]'',
      U ''grpc_target = "xray:10085"'',
      U ''inbound_tag = "protected-entry"'',
      U ''reality_public_key = '' @ json_quote (xv_public_key v),
      U ''reality_short_id = '' @ json_quote (xv_short_id v),
      [],
      U ''[hysteria]'',
      U ''stats_url = "http://hysteria:9999"'',
      [],
      U ''[session]'',
      U ''idle_seconds = 43200'',
      U ''absolute_seconds = 604800'',
      []]\<close>

section \<open>Writing\<close>

definition atomic_write :: "'h installer_scheme \<Rightarrow> path \<Rightarrow> bytes \<Rightarrow> mode \<Rightarrow> (fs, unit) prog" where
  "atomic_write h p content m =
     bindP (path_is_symlink h p) (\<lambda>link.
     bindP (if link then ret True else bindP (path_exists h p) (\<lambda>there. if there then bindP (path_is_file h p) (\<lambda>f. ret (\<not> f)) else ret False))
       (\<lambda>unsafe. if unsafe then raise RenderError else
     bindP (path_is_dir h (butlast p)) (\<lambda>d.
     bindP (if \<not> d then ret True else path_is_symlink h (butlast p)) (\<lambda>unsafe. if unsafe then raise RenderError else
     bindP (mkstemp h (U ''.'' @ last p @ U ''.'') (butlast p)) (\<lambda>(descriptor, temporary).
     finallyP
       (bindP (os_fchmod h descriptor m) (\<lambda>_.
        bindP (write_all h descriptor content) (\<lambda>_.
        bindP (os_fsync h descriptor) (\<lambda>_.
        bindP (os_replace h temporary p) (\<lambda>_.
        bindP (os_place h True (butlast p)) (\<lambda>directory. os_fsync h directory))))))
       (path_unlink h temporary True))))))"

definition render :: "'h installer_scheme \<Rightarrow> path \<Rightarrow> path \<Rightarrow> ustr \<Rightarrow> path \<Rightarrow> path \<Rightarrow> path \<Rightarrow> (fs, unit) prog" where
  "render h values_path node_path public_ip deploy_root etc_root runtime_root =
     bindP (lift_result (ip_address public_ip)) (\<lambda>address. case address of IPv6 _ _ \<Rightarrow> raise RenderError | IPv4 _ \<Rightarrow>
     bindP (load_json h values_path) (\<lambda>runtime.
     bindP (load_json h node_path) (\<lambda>node.
     bindP (lift_result (validated_values (in_number_eq h) runtime node)) (\<lambda>(xray, hysteria).
     bindP (lift_result (stub_page h (xv_private_key xray))) (\<lambda>masquerade.
     bindP (read_regular h (deploy_root @ [U ''caddy'', U ''Caddyfile'']) MAX_INPUT_BYTES) (\<lambda>raw.
     bindP (lift_result (catch_sum (decode_utf8 raw) (\<lambda>e. Inl (if e = UnicodeError then RenderError else e)))) (\<lambda>template.
     bindP (lift_result (bind_sum (gateway_config template masquerade) utf8_encode)) (\<lambda>caddyfile.
     bindP (read_regular h (deploy_root @ [U ''compose.yaml'']) (512 * 1024)) (\<lambda>compose.
     bindP (lift_result (utf8_encode (control_config (ip_compressed address) xray))) (\<lambda>control.
     bindP (atomic_write h (etc_root @ [U ''control.toml'']) control 416) (\<lambda>_.
     bindP (atomic_write h (etc_root @ [U ''Caddyfile'']) caddyfile 416) (\<lambda>_.
     bindP (atomic_write h (etc_root @ [U ''compose.yaml'']) compose 416) (\<lambda>_.
     bindP (lift_result (utf8_encode (xray_config h xray))) (\<lambda>xray_bytes.
     bindP (atomic_write h (runtime_root @ [U ''xray'', U ''config.json'']) xray_bytes 384) (\<lambda>_.
     bindP (lift_result (utf8_encode (hysteria_config hysteria masquerade))) (\<lambda>hysteria_bytes.
     atomic_write h (runtime_root @ [U ''hysteria'', U ''config.yaml'']) hysteria_bytes 384))))))))))))))))"

text \<open>\<^verbatim>\<open>main\<close> after the arguments are parsed.\<close>

definition render_main :: "'h installer_scheme \<Rightarrow> path \<Rightarrow> path \<Rightarrow> ustr \<Rightarrow> path \<Rightarrow> path \<Rightarrow> path \<Rightarrow> (fs, int) prog" where
  "render_main h values_path node_path public_ip deploy_root etc_root runtime_root = catch
     (bindP (render h values_path node_path public_ip deploy_root etc_root runtime_root) (\<lambda>_. ret 0))
     (\<lambda>e. if e = RenderError \<or> e = OSError \<or> is_ValueError e then ret 2 else raise e)"

end
