(* ===== verification/Files_Facts.thy ===== *)
theory Files_Facts
  imports Files
begin

text \<open>
  How programs over the file system are reasoned about. \<open>runs I m Q E\<close> is a triple with a postcondition for values and
  one for every other outcome; its rules are collected in \<open>runs_intros\<close>. \<open>resolve_below\<close> and \<open>resolve_real\<close> say where
  paths lead in a tree without links. \<open>fs_codec\<close> is what is relied on of the encoding of file names.
\<close>

named_theorems runs_intros \<open>rules of the triples\<close>

section \<open>Triples\<close>

definition runs :: "('s \<Rightarrow> bool) \<Rightarrow> ('s, 'a) prog \<Rightarrow> ('a \<Rightarrow> 's \<Rightarrow> bool) \<Rightarrow> ('s \<Rightarrow> bool) \<Rightarrow> bool" where
  "runs I m Q E \<longleftrightarrow> (\<forall>s r t. I s \<longrightarrow> m s = (r, t) \<longrightarrow> (case r of Ok a \<Rightarrow> Q a t | Raise e \<Rightarrow> E t | Stuck \<Rightarrow> E t))"

lemma runs_Ok: "runs I m Q E \<Longrightarrow> I s \<Longrightarrow> m s = (Ok a, t) \<Longrightarrow> Q a t"
  and runs_Raise: "runs I m Q E \<Longrightarrow> I s \<Longrightarrow> m s = (Raise e, t) \<Longrightarrow> E t"
  and runs_Stuck: "runs I m Q E \<Longrightarrow> I s \<Longrightarrow> m s = (Stuck, t) \<Longrightarrow> E t"
  unfolding runs_def by fastforce+

lemma runs_any: "runs I m Q E \<Longrightarrow> I s \<Longrightarrow> m s = (r, t) \<Longrightarrow> E t \<or> (\<exists>a. r = Ok a \<and> Q a t)"
  by (cases r) (blast dest: runs_Ok runs_Raise runs_Stuck)+

lemma runsI:
  assumes "\<And>s a t. I s \<Longrightarrow> m s = (Ok a, t) \<Longrightarrow> Q a t" and "\<And>s e t. I s \<Longrightarrow> m s = (Raise e, t) \<Longrightarrow> E t"
    and "\<And>s t. I s \<Longrightarrow> m s = (Stuck, t) \<Longrightarrow> E t"
  shows "runs I m Q E"
  using assms unfolding runs_def by (auto split: outcome.split)

lemma runs_weaken:
  assumes "runs I' m Q' E'" and "\<And>s. I s \<Longrightarrow> I' s" and "\<And>a s. Q' a s \<Longrightarrow> Q a s" and "\<And>s. E' s \<Longrightarrow> E s"
  shows "runs I m Q E"
  by (rule runsI) (blast intro: assms(2-4) runs_Ok [OF assms(1)] runs_Raise [OF assms(1)] runs_Stuck [OF assms(1)])+

lemma runs_post: "runs I m Q' E \<Longrightarrow> (\<And>a s. Q' a s \<Longrightarrow> Q a s) \<Longrightarrow> runs I m Q E"
  by (rule runs_weaken)

lemma runs_ret [runs_intros]: "(\<And>s. I s \<Longrightarrow> Q a s) \<Longrightarrow> runs I (ret a) Q E"
  and runs_raise [runs_intros]: "(\<And>s. I s \<Longrightarrow> E s) \<Longrightarrow> runs I (raise e) Q E"
  and runs_stuck [runs_intros]: "(\<And>s. I s \<Longrightarrow> E s) \<Longrightarrow> runs I stuck Q E"
  and runs_gets [runs_intros]: "(\<And>s. I s \<Longrightarrow> Q (f s) s) \<Longrightarrow> runs I (gets f) Q E"
  by (auto simp: runs_def prog_defs stuck_def)

lemma runs_modify [runs_intros]: "(\<And>s. I s \<Longrightarrow> Q () (g s)) \<Longrightarrow> runs I (modify g) Q E"
  by (auto simp: runs_def prog_defs)

lemma runs_lift [runs_intros]:
  "(\<And>a s. I s \<Longrightarrow> v = Inr a \<Longrightarrow> Q a s) \<Longrightarrow> (\<And>e s. I s \<Longrightarrow> v = Inl e \<Longrightarrow> E s) \<Longrightarrow> runs I (lift_result v) Q E"
  by (auto simp: runs_def lift_result_def split: sum.splits)

lemma runs_bind:
  assumes "runs I m Q E" and "\<And>a. runs (Q a) (f a) R E"
  shows "runs I (bindP m f) R E"
proof (rule runsI)
  fix s a t assume "I s" "bindP m f s = (Ok a, t)"
  then show "R a t" by (auto elim!: bindP_OkE intro: runs_Ok [OF assms(2)] runs_Ok [OF assms(1)])
next
  fix s e t assume "I s" "bindP m f s = (Raise e, t)"
  then show "E t" by (auto elim!: bindP_RaiseE intro: runs_Raise [OF assms(2)] runs_Raise [OF assms(1)] runs_Ok [OF assms(1)])
next
  fix s t assume "I s" "bindP m f s = (Stuck, t)"
  then show "E t"
    by (auto simp: bindP_def split: prod.splits outcome.splits intro: runs_Stuck [OF assms(2)] runs_Stuck [OF assms(1)] runs_Ok [OF assms(1)])
qed

lemma runs_then:
  assumes "runs I m Q E'" and "\<And>s. E' s \<Longrightarrow> E s" and "\<And>a. runs (Q a) (f a) R E"
  shows "runs I (bindP m f) R E"
  by (rule runs_bind [OF runs_weaken [OF assms(1)] assms(3)]) (auto intro: assms(2))

lemma runs_catch:
  assumes "runs I m Q E'" and "\<And>e. runs E' (h e) Q E" and "\<And>s. E' s \<Longrightarrow> E s"
  shows "runs I (catch m h) Q E"
proof (rule runsI)
  fix s a t assume "I s" "catch m h s = (Ok a, t)"
  then show "Q a t" by (auto elim!: catch_OkE intro: runs_Ok [OF assms(2)] runs_Raise [OF assms(1)] runs_Ok [OF assms(1)])
next
  fix s e t assume "I s" "catch m h s = (Raise e, t)"
  then show "E t" by (auto elim!: catch_RaiseE intro: runs_Raise [OF assms(2)] runs_Raise [OF assms(1)])
next
  fix s t assume "I s" "catch m h s = (Stuck, t)"
  then show "E t"
    by (auto simp: catch_def split: prod.splits outcome.splits
        intro: assms(3) runs_Stuck [OF assms(2)] runs_Stuck [OF assms(1)] runs_Raise [OF assms(1)])
qed

lemma runs_finally:
  assumes "runs I m Q E" and "\<And>a. runs (Q a) f (\<lambda>_. R a) E2" and "runs E f (\<lambda>_. E2) E2" and "\<And>s. E s \<Longrightarrow> E2 s"
  shows "runs I (finallyP m f) R E2"
  unfolding finallyP_def
proof (rule runs_bind)
  have "runs E (bindP f (\<lambda>_. raise e)) Q E2" for e :: exn
    by (rule runs_bind [OF assms(3)]) (rule runs_raise)
  then show "runs I (catch m (\<lambda>e. bindP f (\<lambda>_. raise e))) Q E2"
    by (rule runs_catch [OF assms(1)]) (rule assms(4))
  show "runs (Q a) (bindP f (\<lambda>_. ret a)) R E2" for a
    by (rule runs_bind [OF assms(2)]) (rule runs_ret)
qed

lemma runs_assume: "(P \<Longrightarrow> runs I m Q E) \<Longrightarrow> runs (\<lambda>t. I t \<and> P) m Q E"
  unfolding runs_def by blast

lemma runs_bind_lift:
  "(\<And>a. v = Inr a \<Longrightarrow> runs I (f a) R E) \<Longrightarrow> (\<And>s. I s \<Longrightarrow> E s) \<Longrightarrow> runs I (bindP (lift_result v) f) R E"
  by (cases v) (auto simp: runs_def bindP_def lift_result_def)

lemma runs_if [runs_intros]:
  "(b \<Longrightarrow> runs I m Q E) \<Longrightarrow> (\<not> b \<Longrightarrow> runs I n Q E) \<Longrightarrow> runs I (if b then m else n) Q E"
  by simp

lemma runs_option [runs_intros]:
  "(v = None \<Longrightarrow> runs I m Q E) \<Longrightarrow> (\<And>x. v = Some x \<Longrightarrow> runs I (f x) Q E) \<Longrightarrow> runs I (case v of None \<Rightarrow> m | Some x \<Rightarrow> f x) Q E"
  by (cases v) auto

lemma runs_sum [runs_intros]:
  "(\<And>x. v = Inl x \<Longrightarrow> runs I (f x) Q E) \<Longrightarrow> (\<And>y. v = Inr y \<Longrightarrow> runs I (g y) Q E) \<Longrightarrow> runs I (case v of Inl x \<Rightarrow> f x | Inr y \<Rightarrow> g y) Q E"
  by (cases v) auto

lemma runs_prod [runs_intros]: "(\<And>x y. p = (x, y) \<Longrightarrow> runs I (f x y) Q E) \<Longrightarrow> runs I (case p of (x, y) \<Rightarrow> f x y) Q E"
  by (cases p) auto

lemma runs_node [runs_intros]:
  "(\<And>d u m. nd = File d u m \<Longrightarrow> runs I (f d u m) Q E) \<Longrightarrow> (\<And>u m. nd = Dir u m \<Longrightarrow> runs I (g u m) Q E) \<Longrightarrow>
   (\<And>b t. nd = Link b t \<Longrightarrow> runs I (k b t) Q E) \<Longrightarrow> (nd = Special \<Longrightarrow> runs I n Q E) \<Longrightarrow>
   runs I (case nd of File d u m \<Rightarrow> f d u m | Dir u m \<Rightarrow> g u m | Link b t \<Rightarrow> k b t | Special \<Rightarrow> n) Q E"
  by (cases nd) auto

lemma runs_Let [runs_intros]: "(\<And>x. x = v \<Longrightarrow> runs I (f x) Q E) \<Longrightarrow> runs I (let x = v in f x) Q E"
  by simp

lemma runs_keeps: "keeps I m \<Longrightarrow> runs I m (\<lambda>_. I) I"
  by (rule runsI) (blast dest: keepsD_eq)+

lemma runs_pre: "(\<And>s0. P s0 \<Longrightarrow> runs (\<lambda>s. s = s0) m Q E) \<Longrightarrow> runs P m Q E"
  by (simp add: runs_def)

lemma runs_bind_gets: "(\<And>s0. I s0 \<Longrightarrow> runs (\<lambda>s. s = s0) (k (f s0)) Q E) \<Longrightarrow> runs I (bindP (gets f) k) Q E"
  by (simp add: runs_def bindP_def prog_simps)

lemma runs_at: "runs I m Q E \<Longrightarrow> I s0 \<Longrightarrow> runs (\<lambda>s. s = s0) m Q E"
  by (simp add: runs_def)

section \<open>Nodes\<close>

lemma fs_at_root [simp]: "fs_at s [] = Some (Dir root_owner 493)"
  by (simp add: fs_at_def)

lemma fs_at_put [simp]: "fs_at (fs_put q nd s) p = (if p = q \<and> p \<noteq> [] then Some nd else fs_at s p)"
  by (auto simp: fs_at_def fs_put_def update_conv')

lemma fs_at_remove [simp]: "fs_at (fs_remove q s) p = (if p = q \<and> p \<noteq> [] then None else fs_at s p)"
  by (auto simp: fs_at_def fs_remove_def delete_conv')

lemma fs_at_calls [simp]: "fs_at (fs_calls_update f s) = fs_at s"
  by (simp add: fs_at_def fun_eq_iff)

lemma fs_at_nodes: "fs_nodes s = fs_nodes t \<Longrightarrow> fs_at s = fs_at t"
  by (simp add: fs_at_def fun_eq_iff)

lemma is_prefix_iff: "is_prefix p q \<longleftrightarrow> (\<exists>r. q = p @ r)"
  unfolding is_prefix_def by (metis append_eq_conv_conj append_take_drop_id)

lemma map_of_move:
  assumes "\<forall>p \<in> fst ` set ns. f p = r \<longrightarrow> p = q"
  shows "map_of (map (\<lambda>(p, nd). (f p, nd)) ns) r = (if f q = r then map_of ns q else None)"
  using assms by (induction ns) (auto split: if_splits)

lemma map_of_filter_key: "map_of (filter (\<lambda>(p, nd). P p) ns) z = (if P z then map_of ns z else None)"
  by (induction ns) auto

lemma fs_at_move:
  assumes "q \<noteq> []" and "r \<noteq> []" and "\<not> is_prefix q r" and "\<not> is_prefix r q"
  shows "fs_at (fs_move q r s) p =
    (if is_prefix r p then fs_at s (q @ drop (length r) p) else if is_prefix q p then None else fs_at s p)"
proof (cases "p = []")
  case True
  with assms show ?thesis by (auto simp: fs_at_def is_prefix_def)
next
  case False
  let ?f = "\<lambda>p. if is_prefix q p then r @ drop (length q) p else p"
  let ?ns = "filter (\<lambda>(p, nd). \<not> is_prefix r p) (fs_nodes s)"
  have apart: "\<not> is_prefix r (q @ x)" "\<not> is_prefix q (r @ x)" for x
    using assms(3,4) by (auto simp: is_prefix_iff append_eq_append_conv2)
  have at: "fs_at (fs_move q r s) p = map_of (map (\<lambda>(p, nd). (?f p, nd)) ?ns) p"
    using False by (simp add: fs_at_def fs_move_def)
  consider x where "p = r @ x" | x where "p = q @ x" | "\<not> is_prefix r p" "\<not> is_prefix q p"
    by (auto simp: is_prefix_iff)
  then show ?thesis
  proof cases
    case 1
    have "\<forall>z \<in> fst ` set ?ns. ?f z = p \<longrightarrow> z = q @ x" using 1 by (auto simp: is_prefix_iff)
    then have "fs_at (fs_move q r s) p = (if ?f (q @ x) = p then map_of ?ns (q @ x) else None)"
      unfolding at by (rule map_of_move)
    moreover have "?f (q @ x) = p" using 1 by (simp add: is_prefix_iff)
    ultimately have "fs_at (fs_move q r s) p = map_of ?ns (q @ x)" by (simp only: refl if_True)
    then show ?thesis using 1 assms(1) apart by (simp add: map_of_filter_key fs_at_def [of s "q @ x"]) (simp add: is_prefix_iff)
  next
    case 2
    have "\<forall>z \<in> fst ` set ?ns. ?f z = p \<longrightarrow> z = p" using 2 apart by (auto simp: is_prefix_iff)
    then have "fs_at (fs_move q r s) p = (if ?f p = p then map_of ?ns p else None)"
      unfolding at by (rule map_of_move)
    moreover have "?f p \<noteq> p" using 2 apart(1) [of x] by (auto simp: is_prefix_iff)
    ultimately have "fs_at (fs_move q r s) p = None" by (simp only: if_False)
    then show ?thesis using 2 apart by (simp add: is_prefix_iff)
  next
    case 3
    have "\<forall>z \<in> fst ` set ?ns. ?f z = p \<longrightarrow> z = p" using 3 by (auto simp: is_prefix_iff)
    from map_of_move [OF this] show ?thesis
      using 3 False by (simp add: at map_of_filter_key) (simp add: fs_at_def)
  qed
qed

section \<open>Where paths lead\<close>

lemma resolve_cong: "(\<And>q. fs_at s q = fs_at t q) \<Longrightarrow> resolve s follow n at q = resolve t follow n at q"
  by (induction s follow n at q rule: resolve.induct) (auto split: option.splits node.splits)

text \<open>\<open>real_dir s d\<close>: \<open>d\<close> and everything above it are directories.\<close>

definition real_dir :: "fs \<Rightarrow> loc \<Rightarrow> bool" where
  "real_dir s d \<longleftrightarrow> DOT_DOT \<notin> set d \<and> (\<forall>k \<le> length d. is_dir (fs_at s (take k d)))"

lemma is_dir_iff: "is_dir nd \<longleftrightarrow> (\<exists>u m. nd = Some (Dir u m))"
  and is_link_iff: "is_link nd \<longleftrightarrow> (\<exists>b t. nd = Some (Link b t))"
  and is_file_iff: "is_file nd \<longleftrightarrow> (\<exists>d u m. nd = Some (File d u m))"
  subgoal by (cases nd rule: is_dir.cases) simp_all
  subgoal by (cases nd rule: is_link.cases) simp_all
  subgoal by (cases nd rule: is_file.cases) simp_all
  done

lemma resolve_dirs:
  assumes "DOT_DOT \<notin> set d" and "\<forall>k \<le> length d. is_dir (fs_at s (at @ take k d))"
  shows "resolve s follow n at (d @ rest) = resolve s follow n (at @ d) rest"
  using assms
proof (induction d arbitrary: at)
  case (Cons c d)
  have dir: "is_dir (fs_at s (at @ [c]))" using Cons.prems(2) by (metis One_nat_def Suc_leI length_Cons take0 take_Suc_Cons zero_less_Suc)
  have "\<forall>k \<le> length d. is_dir (fs_at s ((at @ [c]) @ take k d))"
    using Cons.prems(2) by (metis Suc_le_mono append.assoc append_Cons append_Nil length_Cons take_Suc_Cons)
  from Cons.IH [OF _ this] dir Cons.prems(1) show ?case by (auto simp: is_dir_iff)
qed simp

lemma resolve_real: "real_dir s d \<Longrightarrow> resolve s follow n [] (d @ rest) = resolve s follow n d rest"
  using resolve_dirs [of d s "[]" follow n rest] by (simp add: real_dir_def)

lemma resolve_real_dir: "real_dir s d \<Longrightarrow> resolve s follow n [] d = Inr d"
  using resolve_real [of s d follow n "[]"] by simp

text \<open>The last component is not followed, so a call that does not follow links stays in the directory.\<close>

lemma resolve_leaf: "real_dir s d \<Longrightarrow> c \<noteq> DOT_DOT \<Longrightarrow> resolve s False n [] (d @ [c]) = Inr (d @ [c])"
  by (simp add: resolve_real split: option.splits node.splits)

text \<open>Below a directory without links, a path leads where it says.\<close>

lemma resolve_below:
  assumes "\<forall>k \<le> length q. \<not> is_link (fs_at s (at @ take k q))" and "DOT_DOT \<notin> set q" and "resolve s follow n at q = Inr r"
  shows "r = at @ q"
  using assms
proof (induction q arbitrary: at)
  case (Cons c q)
  have "\<not> is_link (fs_at s (at @ [c]))" using Cons.prems(1) by (metis One_nat_def Suc_leI length_Cons take0 take_Suc_Cons zero_less_Suc)
  then show ?case
  proof (cases "is_dir (fs_at s (at @ [c]))")
    case True
    have "\<forall>k \<le> length q. \<not> is_link (fs_at s ((at @ [c]) @ take k q))"
      using Cons.prems(1) by (metis Suc_le_mono append.assoc append_Cons append_Nil length_Cons take_Suc_Cons)
    with Cons.IH [of "at @ [c]"] Cons.prems True show ?thesis by (auto simp: is_dir_iff)
  next
    case False
    with Cons.prems \<open>\<not> is_link (fs_at s (at @ [c]))\<close> show ?thesis
      by (auto simp: is_dir_iff is_link_iff split: option.splits node.splits if_splits)
  qed
qed simp

lemma real_dir_cong: "real_dir s d \<Longrightarrow> (\<And>k. k \<le> length d \<Longrightarrow> fs_at t (take k d) = fs_at s (take k d)) \<Longrightarrow> real_dir t d"
  by (simp add: real_dir_def)

section \<open>File names\<close>

text \<open>What is relied on of \<^verbatim>\<open>os.fsencode\<close> and \<^verbatim>\<open>os.fsdecode\<close>: the file system encoding extends ASCII, encodes character by
  character, and every name on the disk has a text that encodes to it.\<close>

definition fs_codec :: "'h host_scheme \<Rightarrow> bool" where
  "fs_codec h \<longleftrightarrow> (\<forall>t. isascii t \<longrightarrow> io_fsencode h t = Inr (ascii_bytes t))
     \<and> (\<forall>t u. io_fsencode h (t @ u) = bind_sum (io_fsencode h t) (\<lambda>x. bind_sum (io_fsencode h u) (\<lambda>y. Inr (x @ y))))
     \<and> (\<forall>t b. io_fsencode h t = Inr b \<longrightarrow> list_all (\<lambda>x. unat x < 128) b \<longrightarrow> isascii t)
     \<and> (\<forall>b. io_fsencode h (io_fsdecode h b) = Inr b)"

lemma codec_append:
  "fs_codec h \<Longrightarrow> io_fsencode h (t @ u) = Inr z \<longleftrightarrow> (\<exists>a b. io_fsencode h t = Inr a \<and> io_fsencode h u = Inr b \<and> z = a @ b)"
proof -
  assume "fs_codec h"
  then have "io_fsencode h (t @ u) = bind_sum (io_fsencode h t) (\<lambda>x. bind_sum (io_fsencode h u) (\<lambda>y. Inr (x @ y)))"
    unfolding fs_codec_def by blast
  then show ?thesis by (auto simp: bind_sum_eq_Inr)
qed

lemma codec_ascii: "fs_codec h \<Longrightarrow> isascii t \<Longrightarrow> io_fsencode h t = Inr (ascii_bytes t)"
  by (simp add: fs_codec_def)

lemma codec_dot: "fs_codec h \<Longrightarrow> io_fsencode h (U ''.'' @ t) = Inr z \<longleftrightarrow> (\<exists>b. io_fsencode h t = Inr b \<and> z = 46 # b)"
  using codec_append [of h "U ''.''" t z] codec_ascii [of h "U ''.''"] by (auto simp: U_def ascii_bytes_def)

lemma path_bytes_Nil [simp]: "path_bytes h [] = Inr []"
  by (simp add: path_bytes_def)

lemma path_bytes_Cons:
  "path_bytes h (c # p) = Inr q \<longleftrightarrow> (\<exists>b r. io_fsencode h c = Inr b \<and> 0 \<notin> set b \<and> path_bytes h p = Inr r \<and> q = b # r)"
proof -
  let ?enc = "\<lambda>p. foldr (\<lambda>c r. bind_sum (io_fsencode h c) (\<lambda>b. bind_sum r (\<lambda>bs. Inr (b # bs)))) p (Inr [])"
  have path_bytes: "path_bytes h p = Inr q \<longleftrightarrow> ?enc p = Inr q \<and> \<not> list_ex (\<lambda>b. 0 \<in> set b) q" for p q
    by (auto simp: path_bytes_def bind_sum_eq_Inr split: if_splits)
  have "?enc (c # p) = Inr q \<longleftrightarrow> (\<exists>b r. io_fsencode h c = Inr b \<and> ?enc p = Inr r \<and> q = b # r)"
    by (auto simp: bind_sum_eq_Inr)
  then show ?thesis unfolding path_bytes by auto
qed

lemma path_bytes_append: "path_bytes h (p @ p') = Inr q \<longleftrightarrow> (\<exists>a b. path_bytes h p = Inr a \<and> path_bytes h p' = Inr b \<and> q = a @ b)"
  by (induction p arbitrary: q) (auto simp: path_bytes_Cons)

lemma length_path_bytes: "path_bytes h p = Inr q \<Longrightarrow> length q = length p"
  by (induction p arbitrary: q) (auto simp: path_bytes_Cons)

lemma unat_ascii_bytes: "isascii s \<Longrightarrow> map unat (ascii_bytes s) = s"
  by (auto simp: ascii_bytes_def isascii_def list_all_iff unat_byte_of_nat intro!: map_idI)

lemma path_bytes_ascii:
  "fs_codec h \<Longrightarrow> list_all (\<lambda>c. isascii c \<and> 0 \<notin> set c) p \<Longrightarrow> path_bytes h p = Inr (map ascii_bytes p)"
proof (induction p)
  case (Cons c p)
  from Cons.prems(2) have "unat ` set (ascii_bytes c) = set c" using unat_ascii_bytes [of c] by (simp flip: set_map)
  moreover have "0 \<notin> set c" using Cons.prems(2) by simp
  ultimately have "0 \<notin> set (ascii_bytes c)" by force
  with Cons show ?case by (simp add: path_bytes_Cons fs_codec_def)
qed simp

section \<open>Operations\<close>

text \<open>What an operation leaves in place: only the count of calls advances while it reads.\<close>

lemma keeps_tick [keeps_intros]: "keeps (\<lambda>s. fs_nodes s = N) (os_tick h)"
  by (auto simp: os_tick_def keeps_def prog_simps bindP_def)

lemma keeps_fault [keeps_intros]: "keeps (\<lambda>s. fs_nodes s = N) (os_fault h)"
  unfolding os_fault_def by (intro keeps_intros)

lemma keeps_fsync [keeps_intros]: "keeps (\<lambda>s. fs_nodes s = N) (os_fsync h q)"
  unfolding os_fsync_def by (intro keeps_intros)

lemma keeps_locate [keeps_intros]: "keeps (\<lambda>s. fs_nodes s = N) (os_locate h follow p)"
  unfolding os_locate_def by (intro keeps_intros)

lemma keeps_place [keeps_intros]: "keeps (\<lambda>s. fs_nodes s = N) (os_place h follow p)"
  unfolding os_place_def by (intro keeps_intros)

lemma keeps_stat [keeps_intros]: "keeps (\<lambda>s. fs_nodes s = N) (os_stat h follow p)"
  unfolding os_stat_def by (intro keeps_intros)

lemma keeps_node [keeps_intros]:
  "(\<And>d u m. keeps I (f d u m)) \<Longrightarrow> (\<And>u m. keeps I (g u m)) \<Longrightarrow> (\<And>b t. keeps I (k b t)) \<Longrightarrow> keeps I n \<Longrightarrow>
   keeps I (case nd of File d u m \<Rightarrow> f d u m | Dir u m \<Rightarrow> g u m | Link b t \<Rightarrow> k b t | Special \<Rightarrow> n)"
  by (cases nd) auto

lemma keeps_errno [keeps_intros]:
  "keeps I a \<Longrightarrow> keeps I b \<Longrightarrow> keeps I c \<Longrightarrow> keeps I d \<Longrightarrow> keeps I f \<Longrightarrow>
   keeps I (case e of ENOENT \<Rightarrow> a | ENOTDIR \<Rightarrow> b | ELOOP \<Rightarrow> c | EEXIST \<Rightarrow> d | EIO \<Rightarrow> f)"
  by (cases e) auto

lemma keeps_probe [keeps_intros]: "keeps (\<lambda>s. fs_nodes s = N) (path_probe h follow test p)"
  unfolding path_probe_def by (intro keeps_intros)

lemma keeps_read_bytes [keeps_intros]: "keeps (\<lambda>s. fs_nodes s = N) (path_read_bytes h p)"
  unfolding path_read_bytes_def by (intro keeps_intros)

text \<open>An assertion on the nodes alone survives what reads.\<close>

definition node_pred :: "(fs \<Rightarrow> bool) \<Rightarrow> bool" where
  "node_pred I \<longleftrightarrow> (\<forall>s t. fs_at s = fs_at t \<longrightarrow> I s = I t)"

lemma node_predD: "node_pred I \<Longrightarrow> fs_at s = fs_at t \<Longrightarrow> I s = I t"
  unfolding node_pred_def by blast

lemma runs_reads:
  assumes "\<And>N. keeps (\<lambda>s. fs_nodes s = N) m" and "node_pred I" and "\<And>s. I s \<Longrightarrow> E s"
  shows "runs I m (\<lambda>_. I) E"
proof -
  have "I t" if "I s" "m s = (r, t)" for s r t
  proof -
    have "fs_nodes t = fs_nodes s" by (rule keepsD_eq [where I = "\<lambda>x. fs_nodes x = fs_nodes s", OF assms(1) that(2) refl])
    then show ?thesis using that(1) node_predD [OF assms(2) fs_at_nodes, of t s] by simp
  qed
  then show ?thesis using assms(3) by (intro runsI) blast+
qed

text \<open>A value that a reading operation delivers while the tree is as in \<open>s\<close>.\<close>

definition delivers :: "fs \<Rightarrow> (fs, 'a) prog \<Rightarrow> 'a \<Rightarrow> bool" where
  "delivers s m v \<longleftrightarrow> (\<exists>u u'. fs_at u = fs_at s \<and> m u = (Ok v, u'))"

lemma runs_delivers:
  assumes "\<And>N. keeps (\<lambda>s. fs_nodes s = N) m" and "node_pred I" and "\<And>t. I t \<Longrightarrow> fs_at t = fs_at s"
  shows "runs I m (\<lambda>v t. I t \<and> delivers s m v) I"
  using runs_reads [OF assms(1,2), of I] assms(3) unfolding runs_def delivers_def by (fastforce split: outcome.splits)

text \<open>Where a call finds its path.\<close>

lemma locate_run:
  "os_locate h follow p s = (case path_bytes h p of Inl e \<Rightarrow> (Raise e, s)
     | Inr b \<Rightarrow> (Ok (if io_fault h (fs_calls s) then Inl EIO else resolve s follow MAX_LINKS [] b), fs_calls_update Suc s))"
  by (auto simp: os_locate_def os_tick_def prog_simps bindP_def lift_result_def resolve_cong [of "fs_calls_update Suc s" s] split: sum.split)

lemma runs_locate:
  assumes "node_pred I" and "\<And>s. I s \<Longrightarrow> E s"
  shows "runs I (os_locate h follow p)
    (\<lambda>r s. I s \<and> (r = Inl EIO \<or> (\<exists>b. path_bytes h p = Inr b \<and> r = resolve s follow MAX_LINKS [] b))) E"
proof -
  have "I (fs_calls_update Suc s)" if "I s" for s using that assms(1) by (auto dest: node_predD [of _ s "fs_calls_update Suc s"])
  moreover have "resolve (fs_calls_update Suc s) = resolve s" for s by (intro ext resolve_cong) simp
  ultimately show ?thesis using assms(2) by (auto simp: runs_def locate_run split: sum.split outcome.split)
qed

lemma runs_place:
  assumes "node_pred I" and "\<And>s. I s \<Longrightarrow> E s"
  shows "runs I (os_place h follow p)
    (\<lambda>q s. I s \<and> (\<exists>b. path_bytes h p = Inr b \<and> resolve s follow MAX_LINKS [] b = Inr q)) E"
  unfolding os_place_def
  by (rule runs_bind [OF runs_locate [OF assms]]) (auto intro!: runs_intros assms(2))

lemma runs_tick: "node_pred I \<Longrightarrow> runs I (os_tick h) (\<lambda>_. I) E"
  and runs_fault: "node_pred I \<Longrightarrow> (\<And>s. I s \<Longrightarrow> E s) \<Longrightarrow> runs I (os_fault h) (\<lambda>_. I) E"
  subgoal using node_predD [of I "fs_calls_update Suc _"] by (auto simp: runs_def os_tick_def prog_simps bindP_def)
  subgoal by (rule runs_reads) (auto intro: keeps_intros)
  done

lemma runs_fsync: "node_pred I \<Longrightarrow> (\<And>s. I s \<Longrightarrow> E s) \<Longrightarrow> runs I (os_fsync h q) (\<lambda>_. I) E"
  by (rule runs_reads) (auto intro: keeps_intros)

text \<open>A new file or directory appears where its path leads, if nothing was there.\<close>

lemma open_new_run:
  "os_open_new h p m s = (case path_bytes h p of Inl e \<Rightarrow> (Raise e, s)
     | Inr b \<Rightarrow> if io_fault h (fs_calls s) then (Ok (Inl EIO), fs_calls_update Suc s)
         else case resolve s False MAX_LINKS [] b of Inl e \<Rightarrow> (Ok (Inl e), fs_calls_update Suc s)
           | Inr q \<Rightarrow> if fs_at s q \<noteq> None then (Ok (Inl EEXIST), fs_calls_update Suc s)
               else (Ok (Inr q), fs_put q (File [] (io_owner h) (m AND NOT (io_umask h))) (fs_calls_update Suc s)))"
  by (simp add: os_open_new_def bindP_def locate_run prog_simps split: sum.split)

lemma mkdir_run:
  "os_mkdir h p m s = (case path_bytes h p of Inl e \<Rightarrow> (Raise e, s)
     | Inr b \<Rightarrow> if io_fault h (fs_calls s) then (Ok (Inl EIO), fs_calls_update Suc s)
         else case resolve s False MAX_LINKS [] b of Inl e \<Rightarrow> (Ok (Inl e), fs_calls_update Suc s)
           | Inr q \<Rightarrow> if fs_at s q \<noteq> None then (Ok (Inl EEXIST), fs_calls_update Suc s)
               else (Ok (Inr ()), fs_put q (Dir (io_owner h) (m AND NOT (io_umask h))) (fs_calls_update Suc s)))"
  by (simp add: os_mkdir_def bindP_def locate_run prog_simps split: sum.split)

lemma write_run:
  "os_write h q view s = (if io_fault h (fs_calls s) then (Raise OSError, fs_calls_update Suc s)
     else let w = min (length view) (max 1 (io_written h (fs_calls s))) in (Ok w, append_data q (take w view) (fs_calls_update Suc s)))"
  by (simp add: os_write_def os_tick_def bindP_def prog_simps Let_def)

lemma unlink_run:
  "os_unlink h p s = (case path_bytes h p of Inl e \<Rightarrow> (Raise e, s)
     | Inr b \<Rightarrow> if io_fault h (fs_calls s) then (Ok (Inl EIO), fs_calls_update Suc s)
         else case resolve s False MAX_LINKS [] b of Inl e \<Rightarrow> (Ok (Inl e), fs_calls_update Suc s)
           | Inr q \<Rightarrow> if fs_at s q = None then (Ok (Inl ENOENT), fs_calls_update Suc s)
               else if is_dir (fs_at s q) then (Ok (Inl EIO), fs_calls_update Suc s)
               else (Ok (Inr ()), fs_remove q (fs_calls_update Suc s)))"
  by (simp add: os_unlink_def bindP_def locate_run prog_simps split: sum.split)

lemma node_pred_calls: "node_pred I \<Longrightarrow> I s \<Longrightarrow> I (fs_calls_update f s)"
  using node_predD [of I "fs_calls_update f s" s] by simp

lemma runs_open_new:
  assumes "node_pred I" and "\<And>s. I s \<Longrightarrow> E s"
  shows "runs I (os_open_new h p m) (\<lambda>r s. case r of Inl e \<Rightarrow> I s
    | Inr q \<Rightarrow> \<exists>s0 b. I s0 \<and> path_bytes h p = Inr b \<and> resolve s0 False MAX_LINKS [] b = Inr q \<and> fs_at s0 q = None
        \<and> s = fs_put q (File [] (io_owner h) (m AND NOT (io_umask h))) s0) E"
proof (rule runs_pre)
  fix s0 assume I: "I s0"
  have same: "I (fs_calls_update Suc s0)" "resolve (fs_calls_update Suc s0) = resolve s0"
    using I node_pred_calls [OF assms(1)] by (blast, intro ext resolve_cong) simp
  then show "runs (\<lambda>s. s = s0) (os_open_new h p m) (\<lambda>r s. case r of Inl e \<Rightarrow> I s
    | Inr q \<Rightarrow> \<exists>s0 b. I s0 \<and> path_bytes h p = Inr b \<and> resolve s0 False MAX_LINKS [] b = Inr q \<and> fs_at s0 q = None
        \<and> s = fs_put q (File [] (io_owner h) (m AND NOT (io_umask h))) s0) E"
    using I assms(2) by (auto simp: runs_def open_new_run split: sum.splits if_splits intro!: exI [of _ "fs_calls_update Suc s0"])
qed

text \<open>Writing appends all of the data, or fails after a part of it; the loop always ends.\<close>

lemma fs_at_append:
  "fs_at s q = Some (File d u m) \<Longrightarrow> q \<noteq> [] \<Longrightarrow> fs_at (append_data q x s) = (fs_at s)(q \<mapsto> File (d @ x) u m)"
  by (simp add: append_data_def fun_eq_iff)

definition written :: "loc \<Rightarrow> bytes \<Rightarrow> fs \<Rightarrow> unit outcome \<Rightarrow> fs \<Rightarrow> bool" where
  "written q x s r t \<longleftrightarrow> (\<forall>d u m. fs_at s q = Some (File d u m) \<longrightarrow>
     r = Ok () \<and> fs_at t = (fs_at s)(q \<mapsto> File (d @ x) u m)
     \<or> r = Raise OSError \<and> (\<exists>k. fs_at t = (fs_at s)(q \<mapsto> File (d @ take k x) u m)))"

lemma write_loop_run:
  assumes "q \<noteq> []" and "length x \<le> n" and "write_loop h q n x s = (r, t)"
  shows "written q x s r t"
  unfolding written_def
proof (intro allI impI)
  fix d u m assume here: "fs_at s q = Some (File d u m)"
  from assms(2,3) here
  show "r = Ok () \<and> fs_at t = (fs_at s)(q \<mapsto> File (d @ x) u m)
    \<or> r = Raise OSError \<and> (\<exists>k. fs_at t = (fs_at s)(q \<mapsto> File (d @ take k x) u m))"
  proof (induction n arbitrary: x d s)
    case 0
    then show ?case by (auto simp: prog_simps)
  next
    case (Suc n)
    show ?case
    proof (cases "x = [] \<or> io_fault h (fs_calls s)")
      case True
      then have "x = [] \<and> r = Ok () \<and> t = s \<or> r = Raise OSError \<and> t = fs_calls_update Suc s"
        using Suc.prems(2) by (cases "x = []") (auto simp: prog_simps bindP_def write_run)
      moreover have "(fs_at s)(q \<mapsto> File (d @ take 0 x) u m) = fs_at s" using Suc.prems(3) by (simp add: fun_upd_idem)
      ultimately show ?thesis using Suc.prems(3) by (metis append_Nil2 fs_at_calls fun_upd_idem)
    next
      case False
      define w where "w = min (length x) (max 1 (io_written h (fs_calls s)))"
      define s1 where "s1 = append_data q (take w x) (fs_calls_update Suc s)"
      have at: "fs_at s1 = (fs_at s)(q \<mapsto> File (d @ take w x) u m)"
        using fs_at_append [of "fs_calls_update Suc s" q d u m] Suc.prems(3) assms(1) by (simp add: s1_def)
      have "write_loop h q n (drop w x) s1 = (r, t)"
        using Suc.prems(2) False by (simp add: bindP_def write_run w_def s1_def Let_def)
      moreover have "0 < w" using False by (cases x) (auto simp: w_def)
      then have "length (drop w x) \<le> n" using Suc.prems(1) by simp
      ultimately have "r = Ok () \<and> fs_at t = (fs_at s1)(q \<mapsto> File ((d @ take w x) @ drop w x) u m)
        \<or> r = Raise OSError \<and> (\<exists>k. fs_at t = (fs_at s1)(q \<mapsto> File ((d @ take w x) @ take k (drop w x)) u m))"
        by (intro Suc.IH) (auto simp: at)
      then show ?thesis
      proof
        assume "r = Raise OSError \<and> (\<exists>k. fs_at t = (fs_at s1)(q \<mapsto> File ((d @ take w x) @ take k (drop w x)) u m))"
        then obtain k where "r = Raise OSError" "fs_at t = (fs_at s)(q \<mapsto> File (d @ take (w + k) x) u m)"
          by (auto simp: at take_add)
        then show ?thesis by blast
      qed (simp add: at)
    qed
  qed
qed

lemma write_all_run: "q \<noteq> [] \<Longrightarrow> write_all h q x s = (r, t) \<Longrightarrow> written q x s r t"
  unfolding write_all_def by (rule write_loop_run) auto

text \<open>Moving a file over a file or over nothing.\<close>

lemma place_run:
  "os_place h follow p s = (case path_bytes h p of Inl e \<Rightarrow> (Raise e, s)
     | Inr b \<Rightarrow> (if io_fault h (fs_calls s) then Raise OSError else case resolve s follow MAX_LINKS [] b of Inl e \<Rightarrow> Raise OSError | Inr q \<Rightarrow> Ok q,
         fs_calls_update Suc s))"
  by (simp add: os_place_def bindP_def locate_run prog_simps split: sum.split)

lemma resolve_calls [simp]: "resolve (fs_calls_update f s) = resolve s"
  by (intro ext resolve_cong) simp

definition fs_wf :: "fs \<Rightarrow> bool" where
  "fs_wf s \<longleftrightarrow> (\<forall>q nd. fs_at s q = Some nd \<longrightarrow> q \<noteq> [] \<longrightarrow> is_dir (fs_at s (butlast q)))"

lemma fs_wf_leaf: "fs_wf s \<Longrightarrow> \<not> is_dir (fs_at s q) \<Longrightarrow> fs_at s (q @ x # p) = None"
proof (induction p arbitrary: x rule: rev_induct)
  case Nil
  then show ?case by (cases "fs_at s (q @ [x])") (force simp: fs_wf_def butlast_append)+
next
  case (snoc y p)
  then have "\<not> is_dir (fs_at s (q @ x # p))" by simp
  with snoc.prems(1) show ?case
    by (cases "fs_at s (q @ x # p @ [y])") (force simp: fs_wf_def butlast_append)+
qed

lemma replace_file_run:
  assumes "path_bytes h old = Inr (d @ [a])" and "path_bytes h new = Inr (d @ [b])" and "real_dir s d"
    and "a \<noteq> DOT_DOT" and "b \<noteq> DOT_DOT" and "a \<noteq> b" and "fs_wf s" and "fs_at s (d @ [a]) = Some (File x u m)"
    and "os_replace h old new s = (r, t)"
  shows "r = Ok () \<and> \<not> is_dir (fs_at s (d @ [b])) \<and> fs_at t = (fs_at s)(d @ [b] \<mapsto> File x u m, d @ [a] := None) \<or> r = Raise OSError \<and> fs_at t = fs_at s"
proof -
  let ?q = "d @ [a]" and ?p = "d @ [b]"
  have res: "resolve s False MAX_LINKS [] ?q = Inr ?q" "resolve s False MAX_LINKS [] ?p = Inr ?p"
    using resolve_leaf assms(3-5) by auto
  have apart: "\<not> is_prefix ?q ?p" "\<not> is_prefix ?p ?q" using assms(6) by (auto simp: is_prefix_iff)
  have below: "fs_at s (?q @ y # p) = None" for y p using fs_wf_leaf [of s ?q y p] assms(7,8) by simp
  have "fs_at (fs_move ?q ?p v) = (fs_at s)(?p \<mapsto> File x u m, ?q := None)" if v: "fs_at v = fs_at s" "\<not> is_dir (fs_at s ?p)" for v
  proof
    fix z
    consider "z = ?p" | y w where "z = ?p @ y # w" | "\<not> is_prefix ?p z" by (metis append_Nil2 is_prefix_iff neq_Nil_conv)
    then show "fs_at (fs_move ?q ?p v) z = ((fs_at s)(?p \<mapsto> File x u m, ?q := None)) z"
    proof cases
      case 1
      then show ?thesis using fs_at_move [of ?q ?p v z] apart assms(8,6) v by (simp add: is_prefix_def)
    next
      case (2 y w)
      have "fs_at s (?p @ y # w) = None" using fs_wf_leaf [of s ?p y w] assms(7) v(2) by simp
      then show ?thesis using 2 fs_at_move [of ?q ?p v z] apart below [of y w] v assms(6) by (auto simp: is_prefix_def)
    next
      case 3
      have "is_prefix ?q z \<Longrightarrow> z \<noteq> ?q \<Longrightarrow> fs_at s z = None" using below by (metis append_Nil2 is_prefix_iff neq_Nil_conv)
      then show ?thesis using 3 fs_at_move [of ?q ?p v z] apart v assms(6) by (auto simp: is_prefix_iff)
    qed
  qed
  then show ?thesis
    using assms(6,9) by (auto simp: os_replace_def bindP_def place_run assms(1,2) res prog_simps assms(8) split: if_splits)
qed

text \<open>The tree stays well formed.\<close>

lemma wf_put:
  assumes "fs_wf s" and "is_dir (fs_at s (butlast q))" and "is_dir (fs_at s q) \<Longrightarrow> is_dir (Some nd)"
    and "fs_at t = (fs_at s)(q \<mapsto> nd)"
  shows "fs_wf t"
  using assms unfolding fs_wf_def by (metis fun_upd_other fun_upd_same)

lemma wf_remove: "fs_wf s \<Longrightarrow> \<not> is_dir (fs_at s q) \<Longrightarrow> fs_at t = (fs_at s)(q := None) \<Longrightarrow> fs_wf t"
  unfolding fs_wf_def by (metis fun_upd_other fun_upd_same option.distinct(1))

lemma wf_cong: "fs_at s = fs_at t \<Longrightarrow> fs_wf s = fs_wf t"
  by (simp add: fs_wf_def)

lemma runs_unlink:
  assumes "node_pred J" and "path_bytes h p = Inr q" and "q \<noteq> []" and "\<And>t. J t \<Longrightarrow> resolve t False MAX_LINKS [] q = Inr q"
    and "\<And>t t'. J t \<Longrightarrow> \<not> is_dir (fs_at t q) \<Longrightarrow> fs_at t' = (fs_at t)(q := None) \<Longrightarrow> J t'"
  shows "runs J (path_unlink h p missing_ok) (\<lambda>_. J) J"
proof -
  have "runs J (os_unlink h p) (\<lambda>_. J) J"
  proof (rule runs_pre)
    fix s assume J: "J s"
    let ?s1 = "fs_calls_update Suc s"
    have "fs_at (fs_remove q ?s1) = (fs_at s)(q := None)" using assms(3) by (simp add: fun_eq_iff)
    then have "\<not> is_dir (fs_at s q) \<Longrightarrow> J (fs_remove q ?s1)" using assms(5) [OF J] by blast
    moreover have "J ?s1" using J assms(1) by (rule node_pred_calls [rotated])
    ultimately show "runs (\<lambda>t. t = s) (os_unlink h p) (\<lambda>_. J) J"
      using assms(4) [OF J] by (auto simp: runs_def unlink_run assms(2) split: outcome.split)
  qed
  then show ?thesis unfolding path_unlink_def
    by (rule runs_bind) (auto intro!: runs_intros)
qed

text \<open>Every operation ends.\<close>

lemma returns_tick [returns_intros]: "returns (os_tick h)"
  unfolding os_tick_def by (intro returns_intros)

lemma returns_locate [returns_intros]: "returns (os_locate h follow p)"
  unfolding os_locate_def by (intro returns_intros)

lemma returns_place [returns_intros]: "returns (os_place h follow p)"
  unfolding os_place_def by (intro returns_intros)

lemma returns_node [returns_intros]:
  "(\<And>d u m. returns (f d u m)) \<Longrightarrow> (\<And>u m. returns (g u m)) \<Longrightarrow> (\<And>b t. returns (k b t)) \<Longrightarrow> returns n \<Longrightarrow>
   returns (case nd of File d u m \<Rightarrow> f d u m | Dir u m \<Rightarrow> g u m | Link b t \<Rightarrow> k b t | Special \<Rightarrow> n)"
  by (cases nd) auto

lemma returns_errno [returns_intros]:
  "returns a \<Longrightarrow> returns b \<Longrightarrow> returns c \<Longrightarrow> returns d \<Longrightarrow> returns f \<Longrightarrow>
   returns (case e of ENOENT \<Rightarrow> a | ENOTDIR \<Rightarrow> b | ELOOP \<Rightarrow> c | EEXIST \<Rightarrow> d | EIO \<Rightarrow> f)"
  by (cases e) auto

lemma returns_fault [returns_intros]: "returns (os_fault h)"
  and returns_fsync [returns_intros]: "returns (os_fsync h q)"
  unfolding os_fsync_def os_fault_def by (intro returns_intros)+

lemma returns_stat [returns_intros]: "returns (os_stat h follow p)"
  unfolding os_stat_def by (intro returns_intros)

lemma returns_open_new [returns_intros]: "returns (os_open_new h p m)"
  unfolding os_open_new_def by (intro returns_intros)

lemma returns_create [returns_intros]: "returns (os_create h p m)"
  unfolding os_create_def by (intro returns_intros)

lemma returns_mkdir [returns_intros]: "returns (os_mkdir h p m)"
  unfolding os_mkdir_def by (intro returns_intros)

lemma returns_probe [returns_intros]: "returns (path_probe h follow test p)"
  unfolding path_probe_def by (intro returns_intros)

lemma returns_path_mkdir [returns_intros]: "returns (path_mkdir h p m parents exist_ok)"
  by (induction h p m parents exist_ok rule: path_mkdir.induct) (subst path_mkdir.simps, intro returns_intros, simp_all)

lemma returns_write_loop: "length x \<le> n \<Longrightarrow> returns (write_loop h q n x)"
proof (induction n arbitrary: x)
  case 0
  then show ?case by (simp add: returns_intros)
next
  case (Suc n)
  show ?case
  proof (cases "x = []")
    case True
    then show ?thesis by (simp add: returns_intros)
  next
    case False
    have "fst (write_loop h q (Suc n) x s) \<noteq> Stuck" for s
    proof (cases "io_fault h (fs_calls s)")
      case True
      then show ?thesis using False by (simp add: bindP_def write_run)
    next
      case ok: False
      define w where "w = min (length x) (max 1 (io_written h (fs_calls s)))"
      have "0 < w" using False by (cases x) (auto simp: w_def)
      then have "returns (write_loop h q n (drop w x))" using Suc by simp
      then show ?thesis using ok False by (simp add: bindP_def write_run Let_def w_def returns_def)
    qed
    then show ?thesis by (simp add: returns_def)
  qed
qed

lemma returns_write_all [returns_intros]: "returns (write_all h q x)"
  unfolding write_all_def by (rule returns_write_loop) simp

lemma returns_replace [returns_intros]: "returns (os_replace h p q)"
  unfolding os_replace_def by (intro returns_intros)

lemma returns_unlink [returns_intros]: "returns (path_unlink h p b)"
  unfolding path_unlink_def os_unlink_def by (intro returns_intros)

lemma returns_fchmod [returns_intros]: "returns (os_fchmod h q m)"
  and returns_chmod [returns_intros]: "returns (os_chmod h p m)"
  unfolding os_fchmod_def os_chmod_def by (intro returns_intros)+

lemma returns_read_bytes [returns_intros]: "returns (path_read_bytes h p)"
  and returns_write_bytes [returns_intros]: "returns (path_write_bytes h p x)"
  unfolding path_read_bytes_def path_write_bytes_def by (intro returns_intros)+

lemma returns_mkstemp [returns_intros]: "returns (mkstemp h prefix dir)"
proof -
  have "returns (mkstemp_loop h n dir prefix)" for n
    by (induction n) (auto intro!: returns_intros)
  then show ?thesis by (simp add: mkstemp_def)
qed

lemma returns_finally [returns_intros]: "returns m \<Longrightarrow> returns f \<Longrightarrow> returns (finallyP m f)"
  unfolding finallyP_def by (intro returns_intros)

text \<open>A listed tree is well formed when every node has its directory.\<close>

lemma fs_wf_listed: "list_all (\<lambda>(q, nd). q = [] \<or> is_dir (fs_at s (butlast q))) (fs_nodes s) \<Longrightarrow> fs_wf s"
  by (auto simp: fs_wf_def fs_at_def list_all_iff dest!: map_of_SomeD)

end
