(* ===== verification/Replace_Facts.thy ===== *)
theory Replace_Facts
  imports Files_Facts
begin

text \<open>
  Replacing files whole. A file is prepared under a hidden name beside its target and moved over it: whatever call
  fails, the target is as it was or complete. \<open>held\<close> and \<open>replaced\<close> are the two stages, and \<open>partly\<close> is what a
  sequence of such replacements leaves.
\<close>

section \<open>What stays\<close>

text \<open>Only places of \<open>T\<close> differ, and no directory.\<close>

definition untouched :: "loc set \<Rightarrow> fs \<Rightarrow> fs \<Rightarrow> bool" where
  "untouched T s t \<longleftrightarrow> (\<forall>q. q \<notin> T \<or> is_dir (fs_at s q) \<longrightarrow> fs_at t q = fs_at s q)"

lemma real_dir_untouched: "real_dir s d \<Longrightarrow> untouched T s t \<Longrightarrow> real_dir t d"
  by (auto simp: real_dir_def untouched_def)

lemma untouched_trans: "untouched T s t \<Longrightarrow> untouched T' t u \<Longrightarrow> untouched (T \<union> T') s u"
  by (auto simp: untouched_def)

lemma untouched_mono: "untouched T s t \<Longrightarrow> T \<subseteq> T' \<Longrightarrow> untouched T' s t"
  by (auto simp: untouched_def)

lemma untouched_put: "untouched T s t \<Longrightarrow> q \<in> T \<Longrightarrow> \<not> is_dir (fs_at t q) \<Longrightarrow> fs_at t' = (fs_at t)(q := nd) \<Longrightarrow> untouched T s t'"
  by (auto simp: untouched_def)

abbreviation intact :: "loc set \<Rightarrow> fs \<Rightarrow> fs \<Rightarrow> bool" where
  "intact T s t \<equiv> untouched T s t \<and> fs_wf t"

lemma node_pred_intact: "node_pred (intact T s)"
  unfolding node_pred_def untouched_def using wf_cong by metis

lemma node_pred_conj: "node_pred I \<Longrightarrow> node_pred (\<lambda>t. I t \<and> fs_at t q = x)"
  and node_pred_disj: "node_pred I \<Longrightarrow> node_pred J \<Longrightarrow> node_pred (\<lambda>t. I t \<or> J t)"
  unfolding node_pred_def by metis+

lemma node_pred_same: "node_pred (\<lambda>t. fs_at t = fs_at s \<and> fs_wf t)"
  unfolding node_pred_def using wf_cong by metis

section \<open>Hidden names\<close>

text \<open>\<open>q\<close> is a hidden name in \<open>d\<close> that is made from the name of \<open>p\<close>.\<close>

definition beside :: "'h host_scheme \<Rightarrow> path \<Rightarrow> loc \<Rightarrow> loc \<Rightarrow> bool" where
  "beside h p d q \<longleftrightarrow> (\<exists>x r. q = d @ [x] \<and> io_fsencode h (U ''.'' @ last p @ U ''.'' @ r) = Inr x)"

lemma encoded_longer:
  assumes "fs_codec h" and "io_fsencode h name = Inr c" and "name \<noteq> []" and "io_fsencode h (U ''.'' @ name @ U ''.'' @ r) = Inr x"
  shows "length c + 2 \<le> length x" "c \<noteq> []" "x \<noteq> c" "x \<noteq> DOT_DOT"
proof -
  from assms(4) obtain y where y: "x = 46 # y" "io_fsencode h (name @ U ''.'' @ r) = Inr y"
    by (auto simp: codec_dot [OF assms(1)])
  then obtain z where "y = c @ z" "io_fsencode h (U ''.'' @ r) = Inr z"
    using assms(2) codec_append [OF assms(1), of name "U ''.'' @ r" y] by auto
  with y(1) show len: "length c + 2 \<le> length x" by (auto simp: codec_dot [OF assms(1)])
  have "isascii name" if "c = []" using assms(1,2) that by (auto simp: fs_codec_def)
  then have "c = [] \<Longrightarrow> c = ascii_bytes name" using assms(1,2) by (auto simp: fs_codec_def)
  with assms(3) show ne: "c \<noteq> []" by (auto simp: ascii_bytes_def)
  from len show "x \<noteq> c" by auto
  have "0 < length c" "length DOT_DOT = 2" using ne by (simp_all add: DOT_DOT_def)
  with len show "x \<noteq> DOT_DOT" by auto
qed

lemma path_bytes_last:
  assumes "path_bytes h p = Inr (d @ [c])"
  shows "p \<noteq> []" "path_bytes h (butlast p) = Inr d" "io_fsencode h (last p) = Inr c"
proof -
  show "p \<noteq> []" using assms by auto
  then show "path_bytes h (butlast p) = Inr d" "io_fsencode h (last p) = Inr c"
    using assms path_bytes_append [of h "butlast p" "[last p]"] by (auto simp: path_bytes_Cons)
qed

lemma besideE:
  assumes "beside h p d q" and "fs_codec h" and "path_bytes h p = Inr (d @ [c])" and "last p \<noteq> []"
  obtains x where "q = d @ [x]" "x \<noteq> c" "x \<noteq> DOT_DOT"
  using assms(1) encoded_longer(3,4) [OF assms(2) path_bytes_last(3) [OF assms(3)] assms(4)] unfolding beside_def by metis

lemma beside_hidden: "fs_codec h \<Longrightarrow> beside h p d (d' @ [c]) \<Longrightarrow> \<exists>x. c = 46 # x"
  by (auto simp: beside_def codec_dot)

section \<open>Stages\<close>

lemma fs_at_change: "q \<noteq> [] \<Longrightarrow> fs_at s q = Some nd \<Longrightarrow> fs_at (change_node q f s) = (fs_at s)(q \<mapsto> f nd)"
proof -
  assume q: "q \<noteq> []" "fs_at s q = Some nd"
  then have "change_node q f s = fs_put q (f nd) s" by (simp add: change_node_def fs_at_def)
  with q show ?thesis by (simp add: fun_eq_iff)
qed

text \<open>The prepared file, and the target once it has been moved there.\<close>

definition held :: "loc set \<Rightarrow> fs \<Rightarrow> loc \<Rightarrow> node \<Rightarrow> fs \<Rightarrow> bool" where
  "held T s q nd t \<longleftrightarrow> intact T s t \<and> fs_at t q = Some nd"

definition replaced :: "loc set \<Rightarrow> fs \<Rightarrow> loc \<Rightarrow> node \<Rightarrow> fs \<Rightarrow> bool" where
  "replaced T s p nd t \<longleftrightarrow> intact (T \<union> {p}) s t \<and> fs_at t p = Some nd"

lemma node_pred_held: "node_pred (held T s q nd)"
  unfolding held_def by (rule node_pred_conj [OF node_pred_intact])

lemma node_pred_replaced: "node_pred (replaced T s p nd)"
  unfolding replaced_def by (rule node_pred_conj [OF node_pred_intact])

lemma held_intact: "held T s q nd t \<Longrightarrow> intact T s t"
  by (simp add: held_def)

lemma held_update:
  assumes "held T s q nd t" and "q \<in> T" and "q \<noteq> []" and "\<not> is_dir (Some nd)" and "fs_at t' = (fs_at t)(q \<mapsto> nd')"
  shows "held T s q nd' t'"
proof -
  have "is_dir (fs_at t (butlast q))" "\<not> is_dir (fs_at t q)" using assms(1,3,4) by (auto simp: held_def fs_wf_def)
  then have "fs_wf t'" using assms(1) by (intro wf_put [OF _ _ _ assms(5)]) (auto simp: held_def)
  moreover have "untouched T s t'" using assms(1) \<open>\<not> is_dir (fs_at t q)\<close>
    by (intro untouched_put [OF _ assms(2) _ assms(5)]) (simp_all add: held_def)
  ultimately show ?thesis using assms(5) by (simp add: held_def)
qed

lemma held_new:
  assumes "intact T s t" and "q \<in> T" and "q \<noteq> []" and "fs_at t q = None" and "is_dir (fs_at t (butlast q))" and "fs_at t' = (fs_at t)(q \<mapsto> nd)"
  shows "held T s q nd t'"
  using assms wf_put [OF _ assms(5) _ assms(6)] untouched_put [OF _ assms(2) _ assms(6)] by (simp add: held_def)

lemma runs_change:
  assumes "q \<in> T" and "q \<noteq> []" and "\<not> is_dir (Some nd)"
  shows "runs (held T s q nd) (modify (change_node q f)) (\<lambda>_. held T s q (f nd)) E"
proof (rule runs_modify)
  fix t assume here: "held T s q nd t"
  then have "fs_at (change_node q f t) = (fs_at t)(q \<mapsto> f nd)" using assms(2) by (simp add: fs_at_change held_def)
  from held_update [OF here assms this] show "held T s q (f nd) (change_node q f t)" .
qed

lemma runs_fchmod:
  assumes "q \<in> T" and "q \<noteq> []"
  shows "runs (held T s q (File x u m0)) (os_fchmod h q m) (\<lambda>_. held T s q (File x u m)) (intact T s)"
  unfolding os_fchmod_def
proof (rule runs_bind [OF runs_fault [OF node_pred_held]])
  show "runs (held T s q (File x u m0)) (modify (change_node q (set_mode m))) (\<lambda>_. held T s q (File x u m)) (intact T s)"
    by (rule runs_post [OF runs_change [OF assms]]) (simp_all add: set_mode_def)
qed (rule held_intact)

lemma runs_write_held:
  assumes "q \<in> T" and "q \<noteq> []"
  shows "runs (held T s q (File x u m)) (write_all h q y) (\<lambda>_. held T s q (File (x @ y) u m)) (intact T s)"
proof (rule runs_pre)
  fix s1 assume here: "held T s q (File x u m) s1"
  have "r = Ok () \<and> held T s q (File (x @ y) u m) t \<or> r = Raise OSError \<and> (\<exists>k. held T s q (File (x @ take k y) u m) t)"
    if "write_all h q y s1 = (r, t)" for r t
  proof -
    have "fs_at s1 q = Some (File x u m)" using here by (simp add: held_def)
    with write_all_run [OF assms(2) that]
    consider "r = Ok ()" "fs_at t = (fs_at s1)(q \<mapsto> File (x @ y) u m)" | k where "r = Raise OSError" "fs_at t = (fs_at s1)(q \<mapsto> File (x @ take k y) u m)"
      unfolding written_def by blast
    then show ?thesis using held_update [OF here assms, simplified] by cases blast+
  qed
  then show "runs (\<lambda>t. t = s1) (write_all h q y) (\<lambda>_. held T s q (File (x @ y) u m)) (intact T s)"
    unfolding runs_def held_def by (fastforce split: outcome.split)
qed

text \<open>A file is created under a hidden name.\<close>

lemma runs_open_held:
  assumes codec: "fs_codec h" and name: "path_bytes h p = Inr (d @ [c])" "last p \<noteq> []" and dir: "real_dir s d"
    and temp: "\<And>q. path_bytes h tp = Inr q \<Longrightarrow> q \<in> T \<and> beside h p d q"
  shows "runs (intact T s) (os_open_new h tp m) (\<lambda>r t. case r of Inl e \<Rightarrow> intact T s t
    | Inr q \<Rightarrow> path_bytes h tp = Inr q \<and> held T s q (File [] (io_owner h) (m AND NOT (io_umask h))) t) (intact T s)"
proof (rule runs_post [OF runs_open_new [OF node_pred_intact]])
  let ?nd = "File [] (io_owner h) (m AND NOT (io_umask h))"
  fix r t assume r: "case r of Inl e \<Rightarrow> intact T s t
    | Inr q \<Rightarrow> \<exists>s0 b. intact T s s0 \<and> path_bytes h tp = Inr b \<and> resolve s0 False MAX_LINKS [] b = Inr q \<and> fs_at s0 q = None \<and> t = fs_put q ?nd s0"
  show "case r of Inl e \<Rightarrow> intact T s t | Inr q \<Rightarrow> path_bytes h tp = Inr q \<and> held T s q ?nd t"
  proof (cases r)
    case (Inr q)
    with r obtain s0 b where t: "intact T s s0" "path_bytes h tp = Inr b" "resolve s0 False MAX_LINKS [] b = Inr q" "fs_at s0 q = None" "t = fs_put q ?nd s0"
      by auto
    obtain x where x: "b = d @ [x]" "x \<noteq> DOT_DOT" using besideE [OF _ codec name, of b] temp [OF t(2)] by blast
    have real: "real_dir s0 d" using real_dir_untouched [OF dir] t(1) by blast
    then have q: "q = b" using t(3) x by (simp add: resolve_leaf)
    have "is_dir (fs_at s0 (butlast b))" using real x(1) by (auto simp: real_dir_def dest: spec [of _ "length d"])
    then have "held T s b ?nd t" using t(1,4,5) temp [OF t(2)] x(1) q by (intro held_new [of T s s0]) (simp_all add: fun_eq_iff)
    with q t(2) show ?thesis using Inr by simp
  qed (use r in simp)
qed assumption

text \<open>The hidden file at \<open>tp\<close> is moved over \<open>p\<close>.\<close>

lemma runs_replace_held:
  assumes codec: "fs_codec h" and name: "path_bytes h p = Inr (d @ [c])" "last p \<noteq> []" "c \<noteq> DOT_DOT" and dir: "real_dir s d"
    and temp: "q \<in> T" "beside h p d q" "path_bytes h tp = Inr q"
  shows "runs (held T s q (File y u m)) (os_replace h tp p) (\<lambda>_. replaced T s (d @ [c]) (File y u m)) (intact T s)"
proof (rule runs_pre)
  let ?nd = "File y u m"
  fix s1 assume here: "held T s q ?nd s1"
  obtain x where x: "q = d @ [x]" "x \<noteq> c" "x \<noteq> DOT_DOT" using temp(2) codec name(1,2) by (rule besideE)
  have real: "real_dir s1 d" using here real_dir_untouched [OF dir] by (auto simp: held_def)
  have step: "r = Ok () \<and> \<not> is_dir (fs_at s1 (d @ [c])) \<and> fs_at t = (fs_at s1)(d @ [c] \<mapsto> ?nd, q := None) \<or> r = Raise OSError \<and> fs_at t = fs_at s1"
    if "os_replace h tp p s1 = (r, t)" for r t
    using replace_file_run [OF temp(3) [unfolded x(1)] name(1) real x(3) name(3) x(2) _ _ that] here x(1) by (auto simp: held_def)
  have "replaced T s (d @ [c]) ?nd t"
    if t: "fs_at t = (fs_at s1)(d @ [c] \<mapsto> ?nd, q := None)" and free: "\<not> is_dir (fs_at s1 (d @ [c]))" for t
  proof -
    let ?s2 = "fs_put (d @ [c]) ?nd s1"
    have "is_dir (fs_at s1 d)" using real by (auto simp: real_dir_def dest: spec [of _ "length d"])
    moreover have at: "fs_at ?s2 = (fs_at s1)(d @ [c] \<mapsto> ?nd)" by (simp add: fun_eq_iff)
    moreover have "fs_wf s1" using here by (simp add: held_def)
    ultimately have "fs_wf ?s2" using free by (intro wf_put [OF _ _ _ at]) simp_all
    moreover have "\<not> is_dir (fs_at ?s2 q)" using here by (simp add: held_def)
    ultimately have "fs_wf t" by (rule wf_remove) (simp only: t at)
    moreover have "untouched (T \<union> {d @ [c]}) s s1" using here by (auto simp: held_def intro: untouched_mono)
    then have "untouched (T \<union> {d @ [c]}) s ?s2" using free by (intro untouched_put [OF _ _ _ at]) simp_all
    then have "untouched (T \<union> {d @ [c]}) s t"
      using temp(1) \<open>\<not> is_dir (fs_at ?s2 q)\<close> by (intro untouched_put [of _ s ?s2 q t None]) (simp_all only: t at Un_iff simp_thms)
    ultimately show ?thesis using t x by (simp add: replaced_def)
  qed
  moreover have "intact T s t" if "fs_at t = fs_at s1" for t
    using node_predD [OF node_pred_intact that, of T s] here by (simp add: held_def)
  ultimately show "runs (\<lambda>t. t = s1) (os_replace h tp p) (\<lambda>_. replaced T s (d @ [c]) ?nd) (intact T s)"
    using step by (intro runsI) blast+
qed

text \<open>The clean-up removes a hidden name, whatever happened before.\<close>

lemma runs_unlink_held:
  assumes codec: "fs_codec h" and name: "path_bytes h p = Inr (d @ [c])" "last p \<noteq> []" and dir: "real_dir s d"
    and temp: "q \<in> T" "beside h p d q" "path_bytes h tp = Inr q"
  shows "runs (\<lambda>t. intact T s t \<or> replaced T s (d @ [c]) nd t) (path_unlink h tp True)
      (\<lambda>_ t. intact T s t \<or> replaced T s (d @ [c]) nd t) (\<lambda>t. intact T s t \<or> replaced T s (d @ [c]) nd t)"
    "runs (replaced T s (d @ [c]) nd) (path_unlink h tp True) (\<lambda>_. replaced T s (d @ [c]) nd) (replaced T s (d @ [c]) nd)"
proof -
  obtain x where x: "q = d @ [x]" "x \<noteq> c" "x \<noteq> DOT_DOT" using temp(2) codec name by (rule besideE)
  have find_q: "resolve t False MAX_LINKS [] q = Inr q" if "untouched (T \<union> {d @ [c]}) s t" for t
    using resolve_leaf [OF real_dir_untouched [OF dir that] x(3)] x(1) by simp
  have gone: "replaced T s (d @ [c]) nd t'"
    if "replaced T s (d @ [c]) nd t" "\<not> is_dir (fs_at t q)" "fs_at t' = (fs_at t)(q := None)" for t t'
    using that wf_remove [OF _ that(2,3)] untouched_put [OF _ _ that(2,3)] temp(1) x by (simp add: replaced_def)
  have gone_base: "intact T s t'" if "intact T s t" "\<not> is_dir (fs_at t q)" "fs_at t' = (fs_at t)(q := None)" for t t'
    using that wf_remove [OF _ that(2,3)] untouched_put [OF _ temp(1) that(2,3)] by simp
  have q: "q \<noteq> []" using x(1) by simp
  have wider: "untouched T s t \<Longrightarrow> untouched (T \<union> {d @ [c]}) s t" for t
    by (auto intro: untouched_mono)
  show "runs (\<lambda>t. intact T s t \<or> replaced T s (d @ [c]) nd t) (path_unlink h tp True)
      (\<lambda>_ t. intact T s t \<or> replaced T s (d @ [c]) nd t) (\<lambda>t. intact T s t \<or> replaced T s (d @ [c]) nd t)"
  proof (rule runs_unlink [OF node_pred_disj [OF node_pred_intact node_pred_replaced] temp(3) q])
    fix t t' assume "intact T s t \<or> replaced T s (d @ [c]) nd t" "\<not> is_dir (fs_at t q)" "fs_at t' = (fs_at t)(q := None)"
    then show "intact T s t' \<or> replaced T s (d @ [c]) nd t'"
      using gone [of t t'] gone_base [of t t'] by argo
  qed (blast intro: find_q wider dest: replaced_def [THEN iffD1])
  show "runs (replaced T s (d @ [c]) nd) (path_unlink h tp True) (\<lambda>_. replaced T s (d @ [c]) nd) (replaced T s (d @ [c]) nd)"
    by (rule runs_unlink [OF node_pred_replaced temp(3) q]) (blast intro: find_q gone dest: replaced_def [THEN iffD1])+
qed

section \<open>Several files\<close>

text \<open>Every target is as it was or complete; those in \<open>fin\<close> are complete for sure.\<close>

definition partly :: "loc set \<Rightarrow> (loc \<times> node) list \<Rightarrow> fs \<Rightarrow> (loc \<times> node) set \<Rightarrow> fs \<Rightarrow> bool" where
  "partly T outs s fin t \<longleftrightarrow> intact (T \<union> fst ` set outs) s t
     \<and> (\<forall>(q, nd) \<in> set outs. fs_at t q = fs_at s q \<or> fs_at t q = Some nd) \<and> (\<forall>(q, nd) \<in> fin. fs_at t q = Some nd)"

lemma node_pred_partly: "node_pred (partly T outs s fin)"
  unfolding node_pred_def
proof (intro allI impI)
  fix t u assume "fs_at t = fs_at u"
  then show "partly T outs s fin t = partly T outs s fin u"
    using wf_cong [of t u] by (simp add: partly_def untouched_def)
qed

lemma partly_less: "partly T outs s fin t \<Longrightarrow> partly T outs s {} t"
  by (simp add: partly_def)

lemma partly_start: "fs_at t = fs_at s \<and> fs_wf t \<Longrightarrow> partly T outs s {} t"
  by (auto simp: partly_def untouched_def)

lemma partly_shape:
  assumes "partly T outs s fin t"
  shows "\<forall>(q, nd) \<in> set outs. fs_at t q = Some nd \<or> (q, nd) \<notin> fin \<and> fs_at t q = fs_at s q"
    and "\<forall>q. q \<notin> fst ` set outs \<longrightarrow> q \<notin> T \<longrightarrow> fs_at t q = fs_at s q"
  using assms unfolding partly_def untouched_def by (fast, blast)

lemma partly_intact:
  assumes now: "partly T outs s fin t" and t: "intact T' t u" and out: "fin \<subseteq> set outs" "T' \<subseteq> T" "T \<inter> fst ` set outs = {}"
  shows "partly T outs s fin u"
proof -
  have "fs_at u q = fs_at t q" if "(q, nd) \<in> set outs" for q nd
  proof -
    have "q \<notin> T'" using that out(2,3) by force
    then show ?thesis using t by (simp add: untouched_def)
  qed
  moreover have "untouched (T \<union> fst ` set outs) s u"
    using now t out(2) untouched_trans [of "T \<union> fst ` set outs" s t T' u] by (auto simp: partly_def intro: untouched_mono)
  ultimately show ?thesis using now t out(1) by (fastforce simp: partly_def)
qed

lemma partly_replaced:
  assumes now: "partly T outs s fin t" and t: "replaced T' t p nd u"
    and out: "(p, nd) \<in> set outs" "distinct (map fst outs)" "fin \<subseteq> set outs" "T' \<subseteq> T" "T \<inter> fst ` set outs = {}"
  shows "partly T outs s (insert (p, nd) fin) u"
proof -
  have here: "intact (T' \<union> {p}) t u" "fs_at u p = Some nd" using t by (simp_all add: replaced_def)
  have keep: "fs_at u q = (if q = p then Some nd else fs_at t q)" if "(q, nd') \<in> set outs" for q nd'
  proof -
    have "q \<notin> T'" using that out(4,5) by force
    then show ?thesis using here by (simp add: untouched_def)
  qed
  have unique: "nd' = nd" if "(p, nd') \<in> set outs" for nd' using that out(1,2) by (meson eq_key_imp_eq_value)
  have "untouched (T \<union> fst ` set outs) s u"
    using now here(1) out(1,4) untouched_trans [of "T \<union> fst ` set outs" s t "T' \<union> {p}" u] by (force simp: partly_def intro: untouched_mono)
  moreover have "fs_at u q = fs_at s q \<or> fs_at u q = Some nd'" if "(q, nd') \<in> set outs" for q nd'
    using keep [OF that] now that unique by (cases "q = p") (auto simp: partly_def)
  moreover have "fs_at u q = Some nd'" if "(q, nd') \<in> insert (p, nd) fin" for q nd'
  proof (cases "q = p")
    case True
    then show ?thesis using that out(3) here(2) unique by auto
  next
    case False
    then have "(q, nd') \<in> fin" "(q, nd') \<in> set outs" using that out(3) by auto
    then show ?thesis using keep [of q nd'] False now by (auto simp: partly_def)
  qed
  ultimately show ?thesis using here(1) by (auto simp: partly_def)
qed

text \<open>An operation that replaces one target, in a sequence of them.\<close>

lemma runs_partly:
  assumes step: "\<And>s1. partly T outs s fin s1 \<Longrightarrow>
      runs (\<lambda>t. fs_at t = fs_at s1 \<and> fs_wf t) m (\<lambda>_. replaced T' s1 p nd) (\<lambda>t. intact T' s1 t \<or> replaced T' s1 p nd t)"
    and out: "(p, nd) \<in> set outs" "distinct (map fst outs)" "fin \<subseteq> set outs" "T' \<subseteq> T" "T \<inter> fst ` set outs = {}"
  shows "runs (partly T outs s fin) m (\<lambda>_. partly T outs s (insert (p, nd) fin)) (partly T outs s fin)"
proof (rule runs_pre)
  fix s1 assume now: "partly T outs s fin s1"
  have fin: "partly T outs s (insert (p, nd) fin) t" if "replaced T' s1 p nd t" for t using partly_replaced [OF now that out] .
  have less: "partly T outs s fin t" if "partly T outs s (insert (p, nd) fin) t" for t using that by (simp add: partly_def)
  have failed: "partly T outs s fin t" if "intact T' s1 t \<or> replaced T' s1 p nd t" for t
    using that partly_intact [OF now _ out(3-5)] less [OF fin] by blast
  have "fs_wf s1" using now by (simp add: partly_def)
  then show "runs (\<lambda>t. t = s1) m (\<lambda>_. partly T outs s (insert (p, nd) fin)) (partly T outs s fin)"
    by (intro runs_weaken [OF step [OF now]] fin failed) simp
qed

end
