(* ===== verification/Render_Facts.thy ===== *)
theory Render_Facts
  imports Render_Config Replace_Facts
begin

text \<open>
  The renderer keeps its promises under every schedule of failures: \<open>atomic_write\<close> leaves its target either as it was
  or complete, and changes nothing else but temporary names of its own.
\<close>

section \<open>Atomic replacement\<close>

text \<open>The places that \<open>mkstemp\<close> may pick for the target \<open>p\<close> in the directory \<open>d\<close>.\<close>

definition temp_places :: "'h installer_scheme \<Rightarrow> path \<Rightarrow> loc \<Rightarrow> loc set" where
  "temp_places h p d = {d @ [x] | x n. io_fsencode h (U ''.'' @ last p @ U ''.'' @ io_random_name h n) = Inr x}"

lemma temp_beside: "q \<in> temp_places h p d \<Longrightarrow> beside h p d q \<and> q \<noteq> []"
  by (auto simp: temp_places_def beside_def)

lemma runs_mkstemp:
  assumes codec: "fs_codec h" and name: "path_bytes h p = Inr (d @ [c])" "last p \<noteq> []" and dir: "real_dir s d"
  shows "runs (intact (temp_places h p d) s) (mkstemp h (U ''.'' @ last p @ U ''.'') (butlast p))
    (\<lambda>(q, tp) t. q \<in> temp_places h p d \<and> path_bytes h tp = Inr q \<and> held (temp_places h p d) s q (File [] (io_owner h) (384 AND NOT (io_umask h))) t)
    (intact (temp_places h p d) s)"
    (is "runs ?I _ ?Q _")
proof -
  let ?T = "temp_places h p d"
  have loop: "runs ?I (mkstemp_loop h n (butlast p) (U ''.'' @ last p @ U ''.'')) ?Q ?I" for n
  proof (induction n)
    case 0
    show ?case by (simp add: runs_raise)
  next
    case (Suc n)
    have step: "runs ?I (bindP (os_open_new h tp 384) (\<lambda>r. case r of Inr q \<Rightarrow> ret (q, tp)
        | Inl e \<Rightarrow> if e = EEXIST then mkstemp_loop h n (butlast p) (U ''.'' @ last p @ U ''.'') else raise OSError)) ?Q ?I"
      if tp: "tp = butlast p @ [(U ''.'' @ last p @ U ''.'') @ io_random_name h k]" for tp k
    proof (rule runs_bind [OF runs_open_held [OF codec name dir]])
      show place: "q \<in> ?T \<and> beside h p d q" if "path_bytes h tp = Inr q" for q
        using that path_bytes_last(2) [OF name(1)] by (auto simp: tp path_bytes_append path_bytes_Cons temp_places_def beside_def)
      show "runs (\<lambda>t. case r of Inl e \<Rightarrow> ?I t
          | Inr q \<Rightarrow> path_bytes h tp = Inr q \<and> held ?T s q (File [] (io_owner h) (384 AND NOT (io_umask h))) t)
          (case r of Inr q \<Rightarrow> ret (q, tp)
           | Inl e \<Rightarrow> if e = EEXIST then mkstemp_loop h n (butlast p) (U ''.'' @ last p @ U ''.'') else raise OSError) ?Q ?I" for r
        using Suc place by (cases r) (auto intro!: runs_intros)
    qed
    show ?case
      unfolding mkstemp_loop.simps by (intro runs_bind_gets runs_at [OF step]) (simp, assumption)
  qed
  show ?thesis unfolding mkstemp_def by (rule loop)
qed

lemma runs_atomic_write:
  assumes codec: "fs_codec h" and name: "path_bytes h p = Inr (d @ [c])" "last p \<noteq> []" "c \<noteq> DOT_DOT" and dir: "real_dir s d"
  defines "T \<equiv> temp_places h p d" and "nd \<equiv> \<lambda>content m. File content (io_owner h) m"
  shows "runs (\<lambda>t. fs_at t = fs_at s \<and> fs_wf t) (atomic_write h p content m) (\<lambda>_. replaced T s (d @ [c]) (nd content m))
    (\<lambda>t. intact T s t \<or> replaced T s (d @ [c]) (nd content m) t)"
proof -
  let ?A = "intact T s" and ?F = "replaced T s (d @ [c]) (nd content m)"
  have reads: "runs ?A (path_probe h follow test p') (\<lambda>_. ?A) (\<lambda>t. ?A t \<or> ?F t)" for follow test p'
    by (rule runs_reads [OF keeps_probe node_pred_intact]) simp
  have inner: "runs (held T s q (nd [] m0))
      (bindP (os_fchmod h q m) (\<lambda>_. bindP (write_all h q content) (\<lambda>_. bindP (os_fsync h q) (\<lambda>_.
        bindP (os_replace h tp p) (\<lambda>_. bindP (os_place h True (butlast p)) (os_fsync h))))))
      (\<lambda>_. ?F) (\<lambda>t. ?A t \<or> ?F t)"
    if q: "q \<in> T" "path_bytes h tp = Inr q" for q tp m0
  proof -
    have beside: "beside h p d q" "q \<noteq> []" using q(1) temp_beside by (auto simp: T_def)
    show ?thesis
      unfolding nd_def
      apply (rule runs_then [OF runs_fchmod [OF q(1) beside(2)]], simp)
      apply (rule runs_then [OF runs_write_held [OF q(1) beside(2)]], simp, unfold append_Nil)
      apply (rule runs_then [OF runs_fsync [OF node_pred_held], where E' = ?A], erule held_intact, simp)
      apply (rule runs_then [OF runs_replace_held [OF codec name dir q(1) beside(1) q(2)]], simp)
      apply (rule runs_then [OF runs_reads [OF keeps_place node_pred_replaced], where E' = ?F, unfolded nd_def], assumption, simp)
      apply (rule runs_weaken [OF runs_fsync [OF node_pred_replaced], where E' = ?F, unfolded nd_def], assumption, assumption, assumption, simp)
      done
  qed
  have body: "runs (held T s q (nd [] m0))
      (finallyP (bindP (os_fchmod h q m) (\<lambda>_. bindP (write_all h q content) (\<lambda>_. bindP (os_fsync h q) (\<lambda>_.
        bindP (os_replace h tp p) (\<lambda>_. bindP (os_place h True (butlast p)) (os_fsync h)))))) (path_unlink h tp True))
      (\<lambda>_. ?F) (\<lambda>t. ?A t \<or> ?F t)"
    if q: "q \<in> T" "path_bytes h tp = Inr q" for q tp m0
  proof -
    have beside: "beside h p d q" using q(1) temp_beside by (auto simp: T_def)
    note clean = runs_unlink_held [OF codec name(1,2) dir q(1) beside q(2), of "nd content m"]
    show ?thesis by (rule runs_finally [OF inner [OF q]]) (auto intro: runs_weaken [OF clean(2)] clean(1))
  qed
  have there: "runs ?A (if b then ret True else bindP (path_exists h p) (\<lambda>there. if there then bindP (path_is_file h p) (\<lambda>f. ret (\<not> f)) else ret False))
      (\<lambda>_. ?A) (\<lambda>t. ?A t \<or> ?F t)"
    and parent: "runs ?A (if \<not> b then ret True else path_is_symlink h (butlast p)) (\<lambda>_. ?A) (\<lambda>t. ?A t \<or> ?F t)" for b
    by (intro runs_if runs_bind [OF reads] reads runs_ret; assumption)+
  have temporary: "runs ?A (bindP (mkstemp h (U ''.'' @ last p @ U ''.'') (butlast p)) (\<lambda>(descriptor, temporary).
      finallyP (bindP (os_fchmod h descriptor m) (\<lambda>_. bindP (write_all h descriptor content) (\<lambda>_. bindP (os_fsync h descriptor) (\<lambda>_.
        bindP (os_replace h temporary p) (\<lambda>_. bindP (os_place h True (butlast p)) (os_fsync h)))))) (path_unlink h temporary True)))
      (\<lambda>_. ?F) (\<lambda>t. ?A t \<or> ?F t)"
  proof (rule runs_then [OF runs_mkstemp [OF codec name(1,2) dir, folded T_def]])
    fix a :: "loc \<times> path"
    obtain q tp where a: "a = (q, tp)" by fastforce
    show "runs (case a of (q, tp) \<Rightarrow> \<lambda>t. q \<in> T \<and> path_bytes h tp = Inr q \<and> held T s q (File [] (io_owner h) (384 AND NOT (io_umask h))) t)
      (case a of (descriptor, temporary) \<Rightarrow>
        finallyP (bindP (os_fchmod h descriptor m) (\<lambda>_. bindP (write_all h descriptor content) (\<lambda>_. bindP (os_fsync h descriptor) (\<lambda>_.
          bindP (os_replace h temporary p) (\<lambda>_. bindP (os_place h True (butlast p)) (os_fsync h)))))) (path_unlink h temporary True))
      (\<lambda>_. ?F) (\<lambda>t. ?A t \<or> ?F t)"
      unfolding a prod.case
      by (rule runs_pre, rule runs_at [OF body]) (auto simp: nd_def)
  qed simp
  show ?thesis
    unfolding atomic_write_def
    apply (rule runs_weaken [where I' = ?A], rule runs_bind [OF reads], rule runs_bind [OF there], rule runs_if, rule runs_raise, simp)
        apply (rule runs_bind [OF reads], rule runs_bind [OF parent], rule runs_if, rule runs_raise, simp, rule temporary)
       apply (simp_all add: untouched_def)
    done
qed

section \<open>Validated material\<close>

definition limits_ok :: "fallback_limits \<Rightarrow> bool" where
  "limits_ok fl \<longleftrightarrow> 1048576 \<le> fl_after fl \<and> fl_after fl \<le> 67108864 \<and> 131072 \<le> fl_rate fl \<and> fl_rate fl \<le> 8388608
     \<and> fl_rate fl \<le> fl_burst fl \<and> fl_burst fl \<le> 33554432"

definition holds_32_bytes :: "ustr \<Rightarrow> bool" where
  "holds_32_bytes t \<longleftrightarrow> (case urlsafe_b64decode (b64_padded t) of Inl _ \<Rightarrow> False | Inr k \<Rightarrow> length k = 32)"

definition xray_ok :: "xray_values \<Rightarrow> bool" where
  "xray_ok v \<longleftrightarrow> KEY_PATTERN (xv_private_key v) \<and> holds_32_bytes (xv_private_key v)
     \<and> KEY_PATTERN (xv_public_key v) \<and> holds_32_bytes (xv_public_key v) \<and> RENDER_SHORT_ID (xv_short_id v)
     \<and> limits_ok (xv_upload v) \<and> limits_ok (xv_download v) \<and> xv_upload v \<noteq> xv_download v"

definition hysteria_ok :: "hysteria_values \<Rightarrow> bool" where
  "hysteria_ok v \<longleftrightarrow> hv_certificate_path v = U ''/certs/fullchain.pem'' \<and> hv_private_key_path v = U ''/certs/privkey.pem''
     \<and> holds_32_bytes (hv_obfs_password v) \<and> holds_32_bytes (hv_stats_secret v)"

text \<open>The documents that hold given values.\<close>

definition limit_material :: "fallback_limits \<Rightarrow> json" where
  "limit_material fl = JDict [(U ''after_bytes'', JInt (fl_after fl)), (U ''bytes_per_second'', JInt (fl_rate fl)),
     (U ''burst_bytes_per_second'', JInt (fl_burst fl))]"

definition runtime_material :: "xray_values \<Rightarrow> hysteria_values \<Rightarrow> (ustr \<times> json) list" where
  "runtime_material x y =
     [(U ''xray'', JDict [(U ''private_key'', JStr (xv_private_key x)), (U ''short_id'', JStr (xv_short_id x)),
        (U ''fallback_upload'', limit_material (xv_upload x)), (U ''fallback_download'', limit_material (xv_download x))]),
      (U ''hysteria'', JDict [(U ''certificate_path'', JStr (hv_certificate_path y)), (U ''private_key_path'', JStr (hv_private_key_path y)),
        (U ''obfs_password'', JStr (hv_obfs_password y)), (U ''stats_secret'', JStr (hv_stats_secret y))])]"

definition node_material :: "xray_values \<Rightarrow> (ustr \<times> json) list" where
  "node_material x = [(U ''xray_public_key'', JStr (xv_public_key x)), (U ''xray_short_id'', JStr (xv_short_id x))]"

lemma check_32_bytes_iff: "check_32_bytes t = Inr u \<longleftrightarrow> u = t \<and> holds_32_bytes t"
  by (auto simp: check_32_bytes_def holds_32_bytes_def split: sum.splits)

lemma render_key_iff: "render_key v = Inr u \<longleftrightarrow> v = JStr u \<and> KEY_PATTERN u \<and> holds_32_bytes u"
  by (cases v) (auto simp: render_key_def render_string_def check_32_bytes_iff)

lemma encoded_secret_iff: "encoded_secret v = Inr u \<longleftrightarrow> v = JStr u \<and> holds_32_bytes u"
  by (cases v) (auto simp: encoded_secret_def render_string_def check_32_bytes_iff)

lemma render_string_iff: "render_string v = Inr u \<longleftrightarrow> v = JStr u"
  by (cases v) (auto simp: render_string_def)

lemma render_limits_ok: "render_limits v = Inr fl \<Longrightarrow> limits_ok fl"
  by (auto simp: render_limits_def limits_ok_def split: json.splits if_splits option.splits list.splits)

lemma render_limits_material: "limits_ok fl \<Longrightarrow> render_limits (limit_material fl) = Inr fl"
  by (simp add: render_limits_def limit_material_def limits_ok_def json_keys_def json_get_def LIMIT_FIELDS_def U_def)

lemma validated_ok:
  assumes "validated_values number_eq runtime node = Inr (x, y)"
  shows "xray_ok x" "hysteria_ok y"
proof -
  obtain xd yd where "validated_xray xd node = Inr x" "validated_hysteria yd = Inr y"
    using assms by (auto simp: validated_values_def bind_sum_eq_Inr split: if_splits json.splits)
  then show "xray_ok x" "hysteria_ok y"
    by (auto simp: validated_xray_def validated_hysteria_def xray_ok_def hysteria_ok_def bind_sum_eq_Inr render_key_iff
        encoded_secret_iff render_string_iff split: if_splits dest: render_limits_ok)
qed

lemma validated_material:
  assumes "xray_ok x" and "hysteria_ok y"
  shows "validated_values number_eq (runtime_material x y) (node_material x) = Inr (x, y)"
proof -
  have "render_key (JStr (xv_private_key x)) = Inr (xv_private_key x)" "render_key (JStr (xv_public_key x)) = Inr (xv_public_key x)"
    "encoded_secret (JStr (hv_obfs_password y)) = Inr (hv_obfs_password y)" "encoded_secret (JStr (hv_stats_secret y)) = Inr (hv_stats_secret y)"
    using assms by (simp_all add: render_key_iff encoded_secret_iff xray_ok_def hysteria_ok_def)
  then show ?thesis
    using assms
    by (simp add: validated_values_def runtime_material_def node_material_def json_keys_def json_get_def require_fields_def validated_xray_def
        validated_hysteria_def XRAY_FIELDS_def NODE_FIELDS_def HYSTERIA_FIELDS_def LEGACY_FIELDS_def U_def Let_def
        render_limits_material render_string_def xray_ok_def hysteria_ok_def)
qed

section \<open>The Xray document\<close>

lemma key_plain: "KEY_PATTERN t \<Longrightarrow> list_all scalar_value t"
  unfolding KEY_PATTERN_def by (auto elim!: list.pred_mono_strong simp: is_url_char_def scalar_value_def)

lemma short_id_plain: "RENDER_SHORT_ID t \<Longrightarrow> list_all scalar_value t"
  unfolding RENDER_SHORT_ID_def by (auto elim!: list.pred_mono_strong simp: is_lower_hex_def scalar_value_def)

lemma limit_plain: "limits_ok fl \<Longrightarrow> json_plain (limit_document fl)"
proof -
  assume ok: "limits_ok fl"
  have "length (dec_str (nat \<bar>n\<bar>)) \<le> 4300" if "0 \<le> n" "n \<le> 67108864" for n :: int
  proof -
    have "nat \<bar>n\<bar> < 10 ^ 8" using that by auto
    from length_dec_str [OF this] show ?thesis by simp
  qed
  with ok show ?thesis by (simp add: limit_document_def limits_ok_def U_def scalar_value_def)
qed

lemma xray_document_plain: "xray_ok v \<Longrightarrow> json_plain (xray_document v)"
proof -
  assume ok: "xray_ok v"
  have zero: "dec_str 0 = [48]" "dec_str 8443 = U ''8443''" "dec_str 10085 = U ''10085''" by (simp_all add: dec_str.simps U_def)
  from ok have "json_plain (reality_settings v)"
    by (simp add: reality_settings_def xray_ok_def limit_plain key_plain short_id_plain REALITY_TARGET_def U_def scalar_value_def zero)
  then have "json_plain (protected_entry v)"
    by (simp add: protected_entry_def BIND_ALL_IPV4_def U_def scalar_value_def zero)
  moreover have "json_plain api_entry" by (simp add: api_entry_def BIND_ALL_IPV4_def U_def scalar_value_def zero)
  ultimately show ?thesis by (simp add: xray_document_def U_def scalar_value_def)
qed

lemma xray_document_depth: "json_depth (xray_document v) = 6"
  by (simp add: xray_document_def protected_entry_def api_entry_def reality_settings_def limit_document_def)

lemma xray_config_bytes:
  assumes "xray_ok v" and "6 \<le> n"
  shows "utf8_encode (xray_config h v) = Inr (ascii_bytes (xray_config h v))"
    and "json_loads_bytes n (ascii_bytes (xray_config h v)) = Inr (xray_document v)"
  using document_roundtrip [OF styles_ok(3) styles_wire(3) xray_document_plain [OF assms(1)], of n] assms(2) xray_document_depth [of v]
  by (auto simp: xray_config_def)

section \<open>Rendering all files\<close>

lemma temp_place_hidden: "fs_codec h \<Longrightarrow> d @ [c] \<in> temp_places h p d' \<Longrightarrow> \<exists>x. c = 46 # x"
  using temp_beside beside_hidden by metis

lemma runs_output:
  assumes codec: "fs_codec h" and name: "path_bytes h p = Inr (d @ [c])" "last p \<noteq> []" "c \<noteq> DOT_DOT" and dir: "real_dir s d"
    and out: "(d @ [c], File content (io_owner h) m) \<in> set outs" "distinct (map fst outs)" "fin \<subseteq> set outs" "temp_places h p d \<subseteq> T" "T \<inter> fst ` set outs = {}"
  shows "runs (partly T outs s fin) (atomic_write h p content m)
    (\<lambda>_. partly T outs s (insert (d @ [c], File content (io_owner h) m) fin)) (partly T outs s fin)"
  by (rule runs_partly [OF runs_atomic_write [OF codec name real_dir_untouched [OF dir]] out]) (auto simp: partly_def)

text \<open>The texts are ASCII.\<close>

lemma wire_literals: "list_all wire_char (U s)" if "list_all (\<lambda>c. of_char c \<noteq> (0 :: nat) \<and> of_char c < (128 :: nat)) s"
  using that by (auto simp: U_def list_all_iff wire_char_def)

lemma control_wire: "list_all wire_char (control_config ip v)"
  unfolding control_config_def join_lines_def
  by (rule join_wire) (auto simp: quote_wire wire_literals, simp_all add: wire_char_def)

lemma hysteria_wire_text: "list_all wire_char (hysteria_config v page)"
  unfolding hysteria_config_def join_lines_def
  by (rule join_wire) (auto simp: quote_wire wire_literals, simp_all add: wire_char_def)

lemma wire_encoded: "list_all wire_char t \<Longrightarrow> utf8_encode t = Inr (ascii_bytes t)"
  by (simp add: wire_ascii utf8_encode_ascii)

lemma keeps_read_regular [keeps_intros]: "keeps (\<lambda>s. fs_nodes s = N) (read_regular h p maximum)"
  unfolding read_regular_def by (intro keeps_intros)

lemma keeps_load_json [keeps_intros]: "keeps (\<lambda>s. fs_nodes s = N) (load_json h p)"
proof -
  have "keeps (\<lambda>s. fs_nodes s = N) (case v of JDict d \<Rightarrow> ret d | _ \<Rightarrow> raise RenderError)" for v :: json and N
    by (cases v) (auto intro: keeps_intros)
  then show ?thesis unfolding load_json_def by (intro keeps_intros)
qed

text \<open>The five files, at their places below the configuration and the two runtime directories.\<close>

definition render_targets :: "'h host_scheme \<Rightarrow> loc \<Rightarrow> loc \<Rightarrow> loc \<Rightarrow> bytes \<Rightarrow> bytes \<Rightarrow> bytes \<Rightarrow> bytes \<Rightarrow> bytes \<Rightarrow> (loc \<times> node) list" where
  "render_targets h etc xdir ydir control caddyfile compose xray hysteria =
     [(etc @ [ascii_bytes (U ''control.toml'')], File control (io_owner h) 416), (etc @ [ascii_bytes (U ''Caddyfile'')], File caddyfile (io_owner h) 416),
      (etc @ [ascii_bytes (U ''compose.yaml'')], File compose (io_owner h) 416), (xdir @ [ascii_bytes (U ''config.json'')], File xray (io_owner h) 384),
      (ydir @ [ascii_bytes (U ''config.yaml'')], File hysteria (io_owner h) 384)]"

definition render_temps :: "'h installer_scheme \<Rightarrow> path \<Rightarrow> path \<Rightarrow> loc \<Rightarrow> loc \<Rightarrow> loc \<Rightarrow> loc set" where
  "render_temps h etc_root runtime_root etc xdir ydir =
     temp_places h (etc_root @ [U ''control.toml'']) etc \<union> temp_places h (etc_root @ [U ''Caddyfile'']) etc
     \<union> temp_places h (etc_root @ [U ''compose.yaml'']) etc \<union> temp_places h (runtime_root @ [U ''xray'', U ''config.json'']) xdir
     \<union> temp_places h (runtime_root @ [U ''hysteria'', U ''config.yaml'']) ydir"

lemma render_targets_distinct: "distinct (map fst (render_targets h etc xdir ydir c1 c2 c3 c4 c5))"
  by (auto simp: render_targets_def ascii_bytes_def U_def)

lemma render_targets_visible:
  assumes "fs_codec h"
  shows "render_temps h etc_root runtime_root etc xdir ydir \<inter> fst ` set (render_targets h etc xdir ydir c1 c2 c3 c4 c5) = {}"
proof -
  have "d @ [c] \<notin> render_temps h etc_root runtime_root etc xdir ydir" if "\<nexists>x. c = 46 # x" for d c
    using that by (auto simp: render_temps_def dest!: temp_place_hidden [OF assms])
  then show ?thesis by (auto simp: render_targets_def ascii_bytes_def U_def)
qed

text \<open>What the material on the disk, the address and the templates determine.\<close>

definition prepared :: "'h installer_scheme \<Rightarrow> fs \<Rightarrow> path \<Rightarrow> path \<Rightarrow> ustr \<Rightarrow> path \<Rightarrow> xray_values \<Rightarrow> hysteria_values \<Rightarrow> ustr \<Rightarrow> ustr \<Rightarrow> bytes \<Rightarrow> bytes \<Rightarrow> bool" where
  "prepared h s values_path node_path public_ip deploy_root xray hysteria ip page caddyfile compose \<longleftrightarrow>
     (\<exists>n runtime node raw template. ip_address public_ip = Inr (IPv4 n) \<and> ip = ip_compressed (IPv4 n)
        \<and> delivers s (load_json h values_path) runtime \<and> delivers s (load_json h node_path) node
        \<and> validated_values (in_number_eq h) runtime node = Inr (xray, hysteria) \<and> stub_page h (xv_private_key xray) = Inr page
        \<and> delivers s (read_regular h (deploy_root @ [U ''caddy'', U ''Caddyfile'']) MAX_INPUT_BYTES) raw \<and> decode_utf8 raw = Inr template
        \<and> bind_sum (gateway_config template page) utf8_encode = Inr caddyfile
        \<and> delivers s (read_regular h (deploy_root @ [U ''compose.yaml'']) (512 * 1024)) compose)"

abbreviation targets_of :: "'h installer_scheme \<Rightarrow> loc \<Rightarrow> loc \<Rightarrow> loc \<Rightarrow> xray_values \<Rightarrow> hysteria_values \<Rightarrow> ustr \<Rightarrow> ustr \<Rightarrow> bytes \<Rightarrow> bytes \<Rightarrow> (loc \<times> node) list" where
  "targets_of h etc xdir ydir xray hysteria ip page caddyfile compose \<equiv>
     render_targets h etc xdir ydir (ascii_bytes (control_config ip xray)) caddyfile compose (ascii_bytes (xray_config h xray))
       (ascii_bytes (hysteria_config hysteria page))"

lemma ascii_names: "ascii_bytes (U t) \<noteq> DOT_DOT \<and> U t \<noteq> [] \<and> isascii (U t) \<and> 0 \<notin> set (U t)"
  if "t \<in> {''control.toml'', ''Caddyfile'', ''compose.yaml'', ''config.json'', ''config.yaml'', ''xray'', ''hysteria''}"
  using that by (auto simp: U_def ascii_bytes_def DOT_DOT_def)

lemma runs_write_phase:
  assumes codec: "fs_codec h" and ok: "xray_ok xray"
    and etc: "path_bytes h etc_root = Inr etc" "real_dir s etc"
    and xdir: "path_bytes h (runtime_root @ [U ''xray'']) = Inr xdir" "real_dir s xdir"
    and ydir: "path_bytes h (runtime_root @ [U ''hysteria'']) = Inr ydir" "real_dir s ydir"
    and T_def: "T = render_temps h etc_root runtime_root etc xdir ydir"
    and outs_def: "outs = targets_of h etc xdir ydir xray hysteria ip page caddyfile compose"
  shows "runs (\<lambda>t. fs_at t = fs_at s \<and> fs_wf t)
    (bindP (lift_result (utf8_encode (control_config ip xray))) (\<lambda>control.
     bindP (atomic_write h (etc_root @ [U ''control.toml'']) control 416) (\<lambda>_.
     bindP (atomic_write h (etc_root @ [U ''Caddyfile'']) caddyfile 416) (\<lambda>_.
     bindP (atomic_write h (etc_root @ [U ''compose.yaml'']) compose 416) (\<lambda>_.
     bindP (lift_result (utf8_encode (xray_config h xray))) (\<lambda>xray_bytes.
     bindP (atomic_write h (runtime_root @ [U ''xray'', U ''config.json'']) xray_bytes 384) (\<lambda>_.
     bindP (lift_result (utf8_encode (hysteria_config hysteria page))) (\<lambda>hysteria_bytes.
     atomic_write h (runtime_root @ [U ''hysteria'', U ''config.yaml'']) hysteria_bytes 384))))))))
    (\<lambda>_. partly T outs s (set outs)) (partly T outs s {})"
proof -
  let ?P = "partly T outs s"
  have name: "path_bytes h (p @ [U t]) = Inr (d @ [ascii_bytes (U t)])"
    if "path_bytes h p = Inr d" "t \<in> {''control.toml'', ''Caddyfile'', ''compose.yaml'', ''config.json'', ''config.yaml'', ''xray'', ''hysteria''}" for p d t
    using that(1) ascii_names [OF that(2)] path_bytes_ascii [OF codec, of "[U t]"] by (simp add: path_bytes_append)
  have less: "?P fin t \<Longrightarrow> ?P {} t" for fin t by (simp add: partly_def)
  have step: "runs (?P fin) (atomic_write h (p @ [U t]) content m) (\<lambda>_. ?P (insert (d @ [ascii_bytes (U t)], File content (io_owner h) m) fin)) (?P {})"
    if "path_bytes h p = Inr d" "real_dir s d" "t \<in> {''control.toml'', ''Caddyfile'', ''compose.yaml'', ''config.json'', ''config.yaml'', ''xray'', ''hysteria''}"
      "(d @ [ascii_bytes (U t)], File content (io_owner h) m) \<in> set outs" "fin \<subseteq> set outs" "temp_places h (p @ [U t]) d \<subseteq> T" for p d t content m fin
  proof -
    have last: "last (p @ [U t]) \<noteq> []" and dots: "ascii_bytes (U t) \<noteq> DOT_DOT" using ascii_names [OF that(3)] by auto
    have distinct: "distinct (map fst outs)" and visible: "T \<inter> fst ` set outs = {}"
      using render_targets_distinct render_targets_visible [OF codec] by (simp_all add: outs_def T_def)
    show ?thesis
      by (rule runs_weaken [OF runs_output [OF codec name [OF that(1,3)] last dots that(2,4) distinct that(5,6) visible]])
        (assumption | erule less)+
  qed
  have temps: "temp_places h (etc_root @ [U ''control.toml'']) etc \<subseteq> T" "temp_places h (etc_root @ [U ''Caddyfile'']) etc \<subseteq> T"
    "temp_places h (etc_root @ [U ''compose.yaml'']) etc \<subseteq> T" "temp_places h ((runtime_root @ [U ''xray'']) @ [U ''config.json'']) xdir \<subseteq> T"
    "temp_places h ((runtime_root @ [U ''hysteria'']) @ [U ''config.yaml'']) ydir \<subseteq> T"
    by (auto simp: T_def render_temps_def)
  have split: "runtime_root @ [U ''xray'', U ''config.json''] = (runtime_root @ [U ''xray'']) @ [U ''config.json'']"
    "runtime_root @ [U ''hysteria'', U ''config.yaml''] = (runtime_root @ [U ''hysteria'']) @ [U ''config.yaml'']" by simp_all
  have texts: "utf8_encode (control_config ip xray) = Inr (ascii_bytes (control_config ip xray))"
    "utf8_encode (hysteria_config hysteria page) = Inr (ascii_bytes (hysteria_config hysteria page))"
    "utf8_encode (xray_config h xray) = Inr (ascii_bytes (xray_config h xray))"
    using wire_encoded [OF control_wire] wire_encoded [OF hysteria_wire_text] xray_config_bytes(1) [OF ok order_refl] by auto
  have start: "?P {} t" if "fs_at t = fs_at s \<and> fs_wf t" for t using that by (auto simp: partly_def untouched_def)
  have ins: "(etc @ [ascii_bytes (U ''control.toml'')], File (ascii_bytes (control_config ip xray)) (io_owner h) 416) \<in> set outs"
    "(etc @ [ascii_bytes (U ''Caddyfile'')], File caddyfile (io_owner h) 416) \<in> set outs" "(etc @ [ascii_bytes (U ''compose.yaml'')], File compose (io_owner h) 416) \<in> set outs"
    "(xdir @ [ascii_bytes (U ''config.json'')], File (ascii_bytes (xray_config h xray)) (io_owner h) 384) \<in> set outs"
    "(ydir @ [ascii_bytes (U ''config.yaml'')], File (ascii_bytes (hysteria_config hysteria page)) (io_owner h) 384) \<in> set outs"
    by (simp_all add: outs_def render_targets_def)
  have "runs (?P {}) (bindP (atomic_write h (etc_root @ [U ''control.toml'']) (ascii_bytes (control_config ip xray)) 416) (\<lambda>_.
     bindP (atomic_write h (etc_root @ [U ''Caddyfile'']) caddyfile 416) (\<lambda>_.
     bindP (atomic_write h (etc_root @ [U ''compose.yaml'']) compose 416) (\<lambda>_.
     bindP (atomic_write h ((runtime_root @ [U ''xray'']) @ [U ''config.json'']) (ascii_bytes (xray_config h xray)) 384) (\<lambda>_.
     atomic_write h ((runtime_root @ [U ''hysteria'']) @ [U ''config.yaml'']) (ascii_bytes (hysteria_config hysteria page)) 384)))))
    (\<lambda>_. ?P (set outs)) (?P {})"
    apply (rule runs_bind [OF step [OF etc _ ins(1) _ temps(1)]], simp, simp)
    apply (rule runs_bind [OF step [OF etc _ ins(2) _ temps(2)]], simp, simp add: ins)
    apply (rule runs_bind [OF step [OF etc _ ins(3) _ temps(3)]], simp, simp add: ins)
    apply (rule runs_bind [OF step [OF xdir _ ins(4) _ temps(4)]], simp, simp add: ins)
    apply (rule runs_post [OF step [OF ydir _ ins(5) _ temps(5)]], simp, simp add: ins)
    apply (simp add: outs_def render_targets_def partly_def)
    done
  moreover have "bindP (lift_result (Inr a)) k = k a" for a :: bytes and k :: "bytes \<Rightarrow> (fs, unit) prog"
    by (simp add: fun_eq_iff bindP_def lift_result_def)
  ultimately show ?thesis
    unfolding texts split by (simp only:) (erule runs_weaken, auto intro: start)
qed

lemma runs_render:
  assumes codec: "fs_codec h"
    and etc: "path_bytes h etc_root = Inr etc" "real_dir s etc"
    and xdir: "path_bytes h (runtime_root @ [U ''xray'']) = Inr xdir" "real_dir s xdir"
    and ydir: "path_bytes h (runtime_root @ [U ''hysteria'']) = Inr ydir" "real_dir s ydir"
  defines "T \<equiv> render_temps h etc_root runtime_root etc xdir ydir"
  shows "runs (\<lambda>t. fs_at t = fs_at s \<and> fs_wf t) (render h values_path node_path public_ip deploy_root etc_root runtime_root)
    (\<lambda>_ t. \<exists>xray hysteria ip page caddyfile compose.
       prepared h s values_path node_path public_ip deploy_root xray hysteria ip page caddyfile compose
       \<and> (let outs = targets_of h etc xdir ydir xray hysteria ip page caddyfile compose in partly T outs s (set outs) t))
    (\<lambda>t. fs_at t = fs_at s \<or> (\<exists>xray hysteria ip page caddyfile compose.
       prepared h s values_path node_path public_ip deploy_root xray hysteria ip page caddyfile compose
       \<and> partly T (targets_of h etc xdir ydir xray hysteria ip page caddyfile compose) s {} t))"
    (is "runs ?I _ ?Q ?E")
proof -
  have weak: "?E t" if "?I t" for t using that by simp
  have reading: "runs ?I m (\<lambda>v t. ?I t \<and> delivers s m v) ?E" if "\<And>N. keeps (\<lambda>s. fs_nodes s = N) m" for m :: "(fs, 'b) prog"
    by (rule runs_weaken [OF runs_delivers [OF that node_pred_same]]) (use weak in auto)
  show ?thesis
    unfolding render_def
  proof (rule runs_bind_lift)
    fix address assume ip: "ip_address public_ip = Inr address"
    show "runs ?I (case address of IPv6 _ _ \<Rightarrow> raise RenderError | IPv4 _ \<Rightarrow>
      bindP (load_json h values_path) (\<lambda>runtime. bindP (load_json h node_path) (\<lambda>node.
      bindP (lift_result (validated_values (in_number_eq h) runtime node)) (\<lambda>(xray, hysteria).
      bindP (lift_result (stub_page h (xv_private_key xray))) (\<lambda>masquerade.
      bindP (read_regular h (deploy_root @ [U ''caddy'', U ''Caddyfile'']) MAX_INPUT_BYTES) (\<lambda>raw.
      bindP (lift_result (catch_sum (decode_utf8 raw) (\<lambda>e. Inl (if e = UnicodeError then RenderError else e)))) (\<lambda>template.
      bindP (lift_result (bind_sum (gateway_config template masquerade) utf8_encode)) (\<lambda>caddyfile.
      bindP (read_regular h (deploy_root @ [U ''compose.yaml'']) (512 * 1024)) (\<lambda>compose.
      bindP (lift_result (utf8_encode (control_config (ip_compressed address) xray))) (\<lambda>control.
      bindP (atomic_write h (etc_root @ [U ''control.toml'']) control 416) (\<lambda>_.
      bindP (atomic_write h (etc_root @ [U ''Caddyfile'']) caddyfile 416) (\<lambda>_.
      bindP (atomic_write h (etc_root @ [U ''compose.yaml'']) compose 416) (\<lambda>_.
      bindP (lift_result (utf8_encode (xray_config h xray))) (\<lambda>xray_bytes.
      bindP (atomic_write h (runtime_root @ [U ''xray'', U ''config.json'']) xray_bytes 384) (\<lambda>_.
      bindP (lift_result (utf8_encode (hysteria_config hysteria masquerade))) (\<lambda>hysteria_bytes.
      atomic_write h (runtime_root @ [U ''hysteria'', U ''config.yaml'']) hysteria_bytes 384)))))))))))))))) ?Q ?E"
    proof (cases address)
      case (IPv4 n)
      show ?thesis
        unfolding IPv4 ip_addr.case
        apply (rule runs_bind [OF reading [OF keeps_load_json]], rule runs_assume)
        apply (rule runs_bind [OF reading [OF keeps_load_json]], rule runs_assume)
        apply (rule runs_bind_lift [OF _ weak], rule runs_prod)
        apply (rule runs_bind_lift [OF _ weak])
        apply (rule runs_bind [OF reading [OF keeps_read_regular]], rule runs_assume)
        apply (rule runs_bind_lift [OF _ weak])
        apply (rule runs_bind_lift [OF _ weak])
        apply (rule runs_bind [OF reading [OF keeps_read_regular]], rule runs_assume)
        subgoal premises prems for runtime node xy xray hysteria page raw template caddyfile compose
        proof -
          have "decode_utf8 raw = Inr template" using prems(7) by (cases "decode_utf8 raw") auto
          with prems ip IPv4 have ready: "prepared h s values_path node_path public_ip deploy_root xray hysteria (ip_compressed (IPv4 n)) page caddyfile compose"
            unfolding prepared_def by blast
          have "xray_ok xray" using prems(3,4) validated_ok(1) by blast
          show ?thesis
            unfolding T_def Let_def
            by (rule runs_weaken [OF runs_write_phase [OF codec \<open>xray_ok xray\<close> etc xdir ydir refl refl]])
              (use ready in blast)+
        qed
        apply assumption+
        done
    next
      case (IPv6 a b)
      then show ?thesis by (simp add: runs_raise weak)
    qed
  qed (rule weak)
qed

lemma returns_atomic_write [returns_intros]: "returns (atomic_write h p content m)"
  unfolding atomic_write_def by (intro returns_intros)

lemma returns_read_regular [returns_intros]: "returns (read_regular h p maximum)"
  unfolding read_regular_def by (intro returns_intros)

lemma returns_load_json [returns_intros]: "returns (load_json h p)"
proof -
  have "returns (case v of JDict d \<Rightarrow> ret d | _ \<Rightarrow> raise RenderError)" for v :: json
    by (cases v) (auto intro: returns_intros)
  then show ?thesis unfolding load_json_def by (intro returns_intros)
qed

lemma returns_render: "returns (render h values_path node_path public_ip deploy_root etc_root runtime_root)"
proof -
  have address: "returns (case a of IPv6 _ _ \<Rightarrow> raise RenderError | IPv4 _ \<Rightarrow> m)" if "returns m" for a and m :: "(fs, unit) prog"
    using that by (cases a) (auto intro: returns_intros)
  show ?thesis unfolding render_def by (intro returns_intros address)
qed

end
