(* ===== verification/Archive.thy ===== *)
theory Archive
  imports Installer Datetime
begin

unbundle bit_operations_syntax

text \<open>
  The backup archives of the installer, \<^verbatim>\<open>installer/backup_archive.py\<close>: creating an archive from an installation, and
  validating and extracting one. Tar with gzip, SHA-256 and SQLite are parameters of the host: a tar file is the stream of members that
  \<^verbatim>\<open>tarfile\<close> delivers, a database the answers of three queries.
\<close>

section \<open>The host\<close>

text \<open>A member: its name, whether \<^verbatim>\<open>isfile()\<close> holds, its size field, the data that can be read, and the error met after the data.\<close>

record tar_member =
  tm_name :: ustr
  tm_isfile :: bool
  tm_size :: int
  tm_data :: bytes
  tm_error :: "exn option"

record tar_stream =
  ts_members :: "tar_member list"
  ts_error :: "exn option"

datatype sql_value = SqlText ustr | SqlOther

record sqlite_report =
  sr_quick :: "sql_value list list"
  sr_foreign :: bool
  sr_schema :: "sql_value list list"

text \<open>
  \<open>ah_sqlite\<close> is \<^verbatim>\<open>None\<close> for a file that raises \<^verbatim>\<open>DatabaseError\<close>. \<open>ah_targz\<close> is a complete archive with its time stamp, \<open>ah_partial\<close> what has
  reached the disk when an error stops the writer.
\<close>

record archive_host = installer +
  ah_sqlite :: "bytes \<Rightarrow> sqlite_report option"
  ah_targz :: "nat \<Rightarrow> (ustr \<times> bytes) list \<Rightarrow> bytes"
  ah_partial :: "(ustr \<times> bytes) list \<Rightarrow> bytes"
  ah_untar :: "bytes \<Rightarrow> exn + tar_stream"

section \<open>Constants\<close>

definition ARCHIVE_FORMAT_VERSION :: int where "ARCHIVE_FORMAT_VERSION = 1"
definition SUPPORTED_SCHEMA_VERSIONS :: "ustr list" where "SUPPORTED_SCHEMA_VERSIONS = [U ''0001_initial'']"
definition MAX_FILE_SIZE :: nat where "MAX_FILE_SIZE = 2 * 1024 * 1024 * 1024"
definition MAX_TOTAL_SIZE :: nat where "MAX_TOTAL_SIZE = 4 * 1024 * 1024 * 1024"
definition MAX_MEMBERS :: nat where "MAX_MEMBERS = 10000"
definition MAX_MANIFEST_SIZE :: nat where "MAX_MANIFEST_SIZE = 1024 * 1024"
definition CHUNK :: nat where "CHUNK = 1024 * 1024"

definition FIXED_SOURCES :: "(ustr \<times> ustr) list" where
  "FIXED_SOURCES = map (\<lambda>(a, b). (U a, U b))
     [(''database/ezopenpn.sqlite3'', ''snapshot''),
      (''configuration/control.toml'', ''etc/ezopenpn/control.toml''),
      (''configuration/Caddyfile'', ''etc/ezopenpn/Caddyfile''),
      (''configuration/compose.yaml'', ''etc/ezopenpn/compose.yaml''),
      (''configuration/stack.env'', ''etc/ezopenpn/stack.env''),
      (''state/install.json'', ''var/lib/ezopenpn/install.json''),
      (''secrets/master.key'', ''var/lib/ezopenpn/secrets/master.key''),
      (''secrets/hysteria-api.key'', ''var/lib/ezopenpn/secrets/hysteria-api.key''),
      (''secrets/hysteria-obfs.key'', ''var/lib/ezopenpn/secrets/hysteria-obfs.key''),
      (''runtime/xray/config.json'', ''var/lib/ezopenpn/runtime/xray/config.json''),
      (''runtime/hysteria/config.yaml'', ''var/lib/ezopenpn/runtime/hysteria/config.yaml'')]"

definition TREE_SOURCES :: "(ustr \<times> ustr) list" where
  "TREE_SOURCES = map (\<lambda>(a, b). (U a, U b))
     [(''runtime/material'', ''var/lib/ezopenpn/runtime/material''), (''caddy'', ''var/lib/ezopenpn/caddy'')]"

section \<open>Files\<close>

text \<open>The loop of \<^verbatim>\<open>_sha256_stream\<close>: the size of what it reads, in chunks.\<close>

fun hash_loop :: "nat \<Rightarrow> bytes list \<Rightarrow> exn + nat" where
  "hash_loop count [] = Inr count"
| "hash_loop count (c # cs) = (let count = count + length c in if count > MAX_FILE_SIZE then Inl ArchiveError else hash_loop count cs)"

definition sha256_stream :: "'h archive_host_scheme \<Rightarrow> bytes \<Rightarrow> exn + ustr \<times> nat" where
  "sha256_stream h data = bind_sum (hash_loop 0 (chunks CHUNK data)) (\<lambda>count. Inr (bytes_hex (in_sha256 h data), count))"

definition sha256_file :: "'h archive_host_scheme \<Rightarrow> path \<Rightarrow> (fs, ustr) prog" where
  "sha256_file h p = bindP (path_read_bytes h p) (\<lambda>data. bindP (lift_result (sha256_stream h data)) (\<lambda>(digest, _). ret digest))"

definition regular_status :: "'h archive_host_scheme \<Rightarrow> path \<Rightarrow> (fs, nat \<times> owner \<times> mode) prog" where
  "regular_status h p = bindP (os_stat h False p) (\<lambda>status. case status of
     File d u m \<Rightarrow> if length d > MAX_FILE_SIZE then raise ArchiveError else ret (length d, u, m)
   | _ \<Rightarrow> raise ArchiveError)"

text \<open>The copying loop: every read may fail, the read at the end of the file too.\<close>

fun copy_loop :: "'h archive_host_scheme \<Rightarrow> loc \<Rightarrow> nat \<Rightarrow> bytes list \<Rightarrow> (fs, nat) prog" where
  "copy_loop h q count [] = bindP (os_fault h) (\<lambda>_. ret count)"
| "copy_loop h q count (c # cs) = bindP (os_fault h) (\<lambda>_.
     let count = count + length c in if count > MAX_FILE_SIZE then raise ArchiveError
     else bindP (write_all h q c) (\<lambda>_. copy_loop h q count cs))"

definition safe_copy :: "'h archive_host_scheme \<Rightarrow> path \<Rightarrow> path \<Rightarrow> (fs, ustr \<times> nat) prog" where
  "safe_copy h source destination =
     bindP (regular_status h source) (\<lambda>_.
     bindP (path_mkdir h (butlast destination) 448 True True) (\<lambda>_.
     bindP (os_stat h False source) (\<lambda>opened. if is_link (Some opened) then raise OSError else
     bindP (os_create h destination 384) (\<lambda>descriptor. case opened of
       File data _ _ \<Rightarrow>
         bindP (copy_loop h descriptor 0 (chunks CHUNK data)) (\<lambda>count.
         bindP (os_fsync h descriptor) (\<lambda>_. ret (bytes_hex (in_sha256 h data), count)))
     | _ \<Rightarrow> raise ArchiveError))))"

text \<open>\<^verbatim>\<open>os.walk\<close> passes over a directory that cannot be listed.\<close>

definition entry_is_dir :: "fs \<Rightarrow> loc \<Rightarrow> bool" where
  "entry_is_dir s q = (if is_link (fs_at s q) then
       (case resolve s True MAX_LINKS [] q of Inl _ \<Rightarrow> False | Inr r \<Rightarrow> is_dir (fs_at s r))
     else is_dir (fs_at s q))"

definition walk_entries :: "'h archive_host_scheme \<Rightarrow> path \<Rightarrow> (fs, (ustr \<times> bool) list) prog" where
  "walk_entries h p = bindP (os_locate h True p) (\<lambda>r. case r of Inl _ \<Rightarrow> ret []
     | Inr q \<Rightarrow> gets (\<lambda>s. map (\<lambda>(name, _). (io_fsdecode h name, entry_is_dir s (q @ [name]))) (fs_children s q)))"

fun mapP :: "('a \<Rightarrow> ('s, 'b) prog) \<Rightarrow> 'a list \<Rightarrow> ('s, 'b list) prog" where
  "mapP f [] = ret []"
| "mapP f (x # xs) = bindP (f x) (\<lambda>y. bindP (mapP f xs) (\<lambda>ys. ret (y # ys)))"

fun walk_tree :: "'h archive_host_scheme \<Rightarrow> nat \<Rightarrow> path \<Rightarrow> path \<Rightarrow> (fs, (path \<times> path) list) prog" where
  "walk_tree h 0 source relative = stuck"
| "walk_tree h (Suc n) source relative =
     bindP (walk_entries h (source @ relative)) (\<lambda>entries.
     let directory_names = map fst (filter snd entries); file_names = map fst (filter (\<lambda>e. \<not> snd e) entries) in
     bindP (for_each (\<lambda>name. bindP (os_stat h False (source @ relative @ [name])) (\<lambda>status.
       if is_dir (Some status) then ret () else raise ArchiveError)) (sort directory_names)) (\<lambda>_.
     bindP (mapP (\<lambda>name. bindP (regular_status h (source @ relative @ [name])) (\<lambda>_.
       ret (relative @ [name], source @ relative @ [name]))) (sort file_names)) (\<lambda>found.
     bindP (mapP (\<lambda>name. walk_tree h n source (relative @ [name])) directory_names) (\<lambda>rest.
     ret (found @ concat rest)))))"

text \<open>No directory is deeper than the longest path of the tree.\<close>

definition tree_depth :: "fs \<Rightarrow> nat" where
  "tree_depth s = foldr (\<lambda>(q, _) n. max (length q) n) (fs_nodes s) 0"

definition tree_files :: "'h archive_host_scheme \<Rightarrow> path \<Rightarrow> (fs, (path \<times> path) list) prog" where
  "tree_files h source = bindP (os_stat h False source) (\<lambda>status.
     if \<not> is_dir (Some status) then raise ArchiveError
     else bindP (gets tree_depth) (\<lambda>n. walk_tree h (Suc n) source []))"

text \<open>The single text of a single row.\<close>

definition schema_marker :: "sql_value list list \<Rightarrow> ustr option" where
  "schema_marker rows = (case rows of [[SqlText schema]] \<Rightarrow> Some schema | _ \<Rightarrow> None)"

definition database_metadata :: "'h archive_host_scheme \<Rightarrow> path \<Rightarrow> (fs, ustr \<times> ustr) prog" where
  "database_metadata h p = bindP (regular_status h p) (\<lambda>_.
     bindP (catch (bindP (path_read_bytes h p) (\<lambda>data. case ah_sqlite h data of None \<Rightarrow> raise OtherError | Some r \<Rightarrow> ret r))
       (\<lambda>e. raise ArchiveError)) (\<lambda>r.
     if sr_quick r \<noteq> [[SqlText (U ''ok'')]] \<or> sr_foreign r then raise ArchiveError
     else case schema_marker (sr_schema r) of
       None \<Rightarrow> raise ArchiveError
     | Some schema \<Rightarrow> if schema \<notin> set SUPPORTED_SCHEMA_VERSIONS then raise ArchiveError else ret (U ''ok'', schema)))"

definition load_install_state :: "'h archive_host_scheme \<Rightarrow> path \<Rightarrow> (fs, ustr \<times> ustr) prog" where
  "load_install_state h p = bindP (regular_status h p) (\<lambda>_.
     bindP (catch
         (bindP (path_read_bytes h p) (\<lambda>raw. bindP (lift_result (decode_utf8 raw)) (\<lambda>content.
            lift_result (json_loads (in_json_depth h) (universal_newlines content)))))
         (\<lambda>e. raise (if e = OSError \<or> e = UnicodeError \<or> e = JSONDecodeError then ArchiveError else e))) (\<lambda>v.
     case v of
       JDict d \<Rightarrow> (case json_get d (U ''version'') of
           JStr version \<Rightarrow> if \<not> is_prefix (U ''v'') version then raise ArchiveError
             else (case json_get d (U ''public_ipv4'') of
               JStr ip \<Rightarrow> if ip = [] then raise ArchiveError else ret (version, ip)
             | _ \<Rightarrow> raise ArchiveError)
         | _ \<Rightarrow> raise ArchiveError)
     | _ \<Rightarrow> raise ArchiveError))"

definition manifest_bytes :: "'h archive_host_scheme \<Rightarrow> (ustr \<times> json) list \<Rightarrow> exn + bytes" where
  "manifest_bytes h d = utf8_encode (json_dumps (in_float_text h) js_compact 0 (json_sort (JDict d)) @ [10])"

section \<open>Creating an archive\<close>

definition file_record :: "ustr \<Rightarrow> ustr \<Rightarrow> nat \<Rightarrow> ustr \<times> json" where
  "file_record name digest count = (name, JDict [(U ''path'', JStr name), (U ''sha256'', JStr digest), (U ''size'', JInt (int count))])"

text \<open>A file that goes into the payload: its copy, its size and its record.\<close>

definition add_payload :: "'h archive_host_scheme \<Rightarrow> path \<Rightarrow> ustr \<Rightarrow> path \<Rightarrow> (fs, nat \<times> ustr \<times> json) prog" where
  "add_payload h payload archive_name source = bindP (safe_copy h source (joinpath payload archive_name)) (\<lambda>(digest, count).
     ret (count, file_record archive_name digest count))"

definition add_tree :: "'h archive_host_scheme \<Rightarrow> path \<Rightarrow> path \<Rightarrow> ustr \<times> ustr \<Rightarrow> (fs, (nat \<times> ustr \<times> json) list) prog" where
  "add_tree h root payload tree = (case tree of (archive_prefix, source_name) \<Rightarrow>
     bindP (path_mkdir h (joinpath payload archive_prefix) 448 True True) (\<lambda>_.
     bindP (tree_files h (joinpath root source_name)) (\<lambda>files.
     mapP (\<lambda>(relative, source). add_payload h payload (as_posix (path_parts archive_prefix @ relative)) source) files)))"

definition tar_add :: "'h archive_host_scheme \<Rightarrow> ustr \<times> path \<Rightarrow> (fs, ustr \<times> bytes) prog" where
  "tar_add h entry = (case entry of (name, p) \<Rightarrow>
     bindP (regular_status h p) (\<lambda>_. bindP (path_read_bytes h p) (\<lambda>data. ret (name, data))))"

text \<open>An error leaves what the writer had flushed.\<close>

fun tar_entries :: "'h archive_host_scheme \<Rightarrow> loc \<Rightarrow> (ustr \<times> bytes) list \<Rightarrow> (ustr \<times> path) list \<Rightarrow> (fs, (ustr \<times> bytes) list) prog" where
  "tar_entries h q acc [] = ret acc"
| "tar_entries h q acc (e # es) = bindP
     (catch (tar_add h e) (\<lambda>x. bindP (modify (append_data q (ah_partial h acc))) (\<lambda>_. raise x)))
     (\<lambda>m. tar_entries h q (acc @ [m]) es)"

definition checksum_path :: "path \<Rightarrow> path" where
  "checksum_path archive = butlast archive @ [last archive @ U ''.sha256'']"

definition checksum_line :: "ustr \<Rightarrow> path \<Rightarrow> ustr" where
  "checksum_line digest archive = digest @ U ''  '' @ last archive @ [10]"

definition write_checksum :: "'h archive_host_scheme \<Rightarrow> path \<Rightarrow> (fs, unit) prog" where
  "write_checksum h archive = bindP (os_create h (checksum_path archive) 384) (\<lambda>descriptor.
     bindP (sha256_file h archive) (\<lambda>digest.
     bindP (lift_result (utf8_encode (checksum_line digest archive))) (\<lambda>line.
     bindP (write_all h descriptor line) (\<lambda>_. os_fsync h descriptor))))"

text \<open>\<^verbatim>\<open>text.replace(pat, rep)\<close>.\<close>

function replace_sub :: "ustr \<Rightarrow> ustr \<Rightarrow> ustr \<Rightarrow> ustr" where
  "replace_sub pat rep t = (case t of [] \<Rightarrow> []
     | c # cs \<Rightarrow> if pat \<noteq> [] \<and> is_prefix pat t then rep @ replace_sub pat rep (drop (length pat) t)
                else c # replace_sub pat rep cs)"
  by pat_completeness auto
termination
  by (relation "measure (\<lambda>(pat, rep, t). length t)") auto

declare replace_sub.simps [simp del]

definition created_at_text :: "nat \<Rightarrow> ustr" where
  "created_at_text clock = replace_sub (U ''+00:00'') (U ''Z'') (isoformat_utc ((62135596800 + int clock) * 1000000))"

definition new_manifest :: "nat \<Rightarrow> (ustr \<times> json) list \<Rightarrow> ustr \<Rightarrow> ustr \<Rightarrow> ustr \<Rightarrow> ustr \<Rightarrow> (ustr \<times> json) list" where
  "new_manifest clock records quick_check schema_version version public_ipv4 =
     [(U ''application'', JStr (U ''EzOpenPN'')), (U ''created_at'', JStr (created_at_text clock)),
      (U ''files'', JList (map snd records)), (U ''format'', JInt ARCHIVE_FORMAT_VERSION), (U ''public_ipv4'', JStr public_ipv4),
      (U ''quick_check'', JStr quick_check), (U ''schema_version'', JStr schema_version), (U ''version'', JStr version)]"

definition owned_directory :: "'h archive_host_scheme \<Rightarrow> node \<Rightarrow> (mode \<Rightarrow> bool) \<Rightarrow> bool" where
  "owned_directory h nd safe = (case nd of Dir u m \<Rightarrow> fst u = fst (io_owner h) \<and> safe m | _ \<Rightarrow> False)"

text \<open>The payload of an archive, with the size and the record of every file.\<close>

definition collect_payload :: "'h archive_host_scheme \<Rightarrow> path \<Rightarrow> path \<Rightarrow> path \<Rightarrow> (fs, (nat \<times> ustr \<times> json) list) prog" where
  "collect_payload h root snapshot payload =
     bindP (path_mkdir h payload 448 False False) (\<lambda>_.
     bindP (mapP (\<lambda>(archive_name, source_name). add_payload h payload archive_name
         (if source_name = U ''snapshot'' then snapshot else joinpath root source_name)) FIXED_SOURCES) (\<lambda>fixed.
     bindP (mapP (add_tree h root payload) TREE_SOURCES) (\<lambda>trees. ret (fixed @ concat trees))))"

definition write_archive :: "'h archive_host_scheme \<Rightarrow> path \<Rightarrow> path \<Rightarrow> path \<Rightarrow> ustr list \<Rightarrow> (fs, unit) prog" where
  "write_archive h archive manifest_path payload names =
     bindP (os_create h archive 384) (\<lambda>descriptor.
     bindP (tar_entries h descriptor []
        ((U ''manifest.json'', manifest_path) # map (\<lambda>name. (U ''payload/'' @ name, joinpath payload name)) names)) (\<lambda>members.
     bindP (write_all h descriptor (ah_targz h (in_clock h) members)) (\<lambda>_.
     bindP (os_fsync h descriptor) (\<lambda>_.
     bindP (os_chmod h archive 384) (\<lambda>_.
     catch (write_checksum h archive) (\<lambda>e. bindP (path_unlink h archive True) (\<lambda>_. raise e)))))))"

definition create_archive :: "'h archive_host_scheme \<Rightarrow> path \<Rightarrow> path \<Rightarrow> path \<Rightarrow> path \<Rightarrow> (fs, unit) prog" where
  "create_archive h root snapshot staging archive =
     bindP (os_stat h False staging) (\<lambda>stage_status.
     bindP (os_stat h False (butlast archive)) (\<lambda>parent_status.
     if \<not> owned_directory h stage_status (\<lambda>m. m = 448) then raise ArchiveError
     else if \<not> owned_directory h parent_status (\<lambda>m. m AND 18 = 0) then raise ArchiveError
     else let payload = staging @ [U ''payload''] in
     bindP (collect_payload h root snapshot payload) (\<lambda>entries.
     if sum_list (map fst entries) > MAX_TOTAL_SIZE \<or> length entries > MAX_MEMBERS - 1 then raise ArchiveError
     else let records = sort_key fst (map snd entries) in
     bindP (database_metadata h (joinpath payload (U ''database/ezopenpn.sqlite3''))) (\<lambda>(quick_check, schema_version).
     bindP (load_install_state h (joinpath payload (U ''state/install.json''))) (\<lambda>(version, public_ipv4).
     bindP (lift_result (manifest_bytes h (new_manifest (in_clock h) records quick_check schema_version version public_ipv4))) (\<lambda>raw.
     bindP (path_write_bytes h (staging @ [U ''manifest.json'']) raw) (\<lambda>_.
     bindP (os_chmod h (staging @ [U ''manifest.json'']) 384) (\<lambda>_.
     write_archive h archive (staging @ [U ''manifest.json'']) payload (map fst records)))))))))"

section \<open>Validating an archive\<close>

definition validate_archive_file :: "'h archive_host_scheme \<Rightarrow> path \<Rightarrow> int \<Rightarrow> (fs, unit) prog" where
  "validate_archive_file h archive expected_owner =
     bindP (regular_status h archive) (\<lambda>(_, owner, m).
     if fst owner \<noteq> expected_owner \<or> m \<noteq> 384 then raise ArchiveError else
     bindP (regular_status h (checksum_path archive)) (\<lambda>(count, owner, m).
     if fst owner \<noteq> expected_owner \<or> m \<noteq> 384 \<or> count > 1024 then raise ArchiveError else
     bindP (catch (bindP (path_read_bytes h (checksum_path archive)) (\<lambda>raw. lift_result (decode_ascii raw)))
       (\<lambda>e. raise (if e = OSError \<or> e = UnicodeError then ArchiveError else e))) (\<lambda>v.
     bindP (sha256_file h archive) (\<lambda>digest.
     if universal_newlines v \<noteq> checksum_line digest archive then raise ArchiveError else ret ()))))"

definition validated_member_name :: "ustr \<Rightarrow> exn + path" where
  "validated_member_name name =
     (if name = [] \<or> length name > 512 \<or> 92 \<in> set name \<or> is_prefix [47] name then Inl ArchiveError
      else let parts = path_parts name in
        if list_ex (\<lambda>part. part \<in> {[], U ''.'', U ''..''}) parts then Inl ArchiveError else Inr parts)"

definition MANIFEST_FIELDS :: "ustr list" where
  "MANIFEST_FIELDS = map U [''application'', ''created_at'', ''files'', ''format'', ''public_ipv4'', ''quick_check'', ''schema_version'', ''version'']"

fun is_text :: "json \<Rightarrow> bool" where
  "is_text (JStr _) = True"
| "is_text _ = False"

fun is_list :: "json \<Rightarrow> bool" where
  "is_list (JList _) = True"
| "is_list _ = False"

text \<open>A list or a dictionary cannot be looked up in a \<^verbatim>\<open>frozenset\<close>.\<close>

fun hashable :: "json \<Rightarrow> bool" where
  "hashable (JList _) = False"
| "hashable (JDict _) = False"
| "hashable _ = True"

definition parse_manifest :: "'h archive_host_scheme \<Rightarrow> bytes \<Rightarrow> exn + (ustr \<times> json) list" where
  "parse_manifest h raw = (if length raw > MAX_MANIFEST_SIZE then Inl ArchiveError
     else case json_loads_bytes (in_json_depth h) raw of
       Inl e \<Rightarrow> Inl (if e = UnicodeError \<or> e = JSONDecodeError then ArchiveError else e)
     | Inr (JDict d) \<Rightarrow>
         if json_keys d \<noteq> set MANIFEST_FIELDS then Inl ArchiveError
         else if json_get d (U ''application'') \<noteq> JStr (U ''EzOpenPN'') then Inl ArchiveError
         else if \<not> json_eq (in_number_eq h) (json_get d (U ''format'')) (JInt ARCHIVE_FORMAT_VERSION) then Inl ArchiveError
         else if json_get d (U ''quick_check'') \<noteq> JStr (U ''ok'') then Inl ArchiveError
         else if \<not> hashable (json_get d (U ''schema_version'')) then Inl TypeError
         else if json_get d (U ''schema_version'') \<notin> set (map JStr SUPPORTED_SCHEMA_VERSIONS) then Inl ArchiveError
         else if \<not> is_text (json_get d (U ''version'')) \<or> \<not> is_text (json_get d (U ''public_ipv4''))
           \<or> \<not> is_text (json_get d (U ''created_at'')) \<or> \<not> is_list (json_get d (U ''files'')) then Inl ArchiveError
         else Inr d
     | Inr _ \<Rightarrow> Inl ArchiveError)"

definition allowed_payload_path :: "path \<Rightarrow> bool" where
  "allowed_payload_path p = (let v = as_posix p in
     v \<in> set (map fst FIXED_SOURCES) \<or> list_ex (\<lambda>(prefix, _). is_prefix (prefix @ U ''/'') v) TREE_SOURCES)"

text \<open>The records in the order of the manifest: path, digest and size.\<close>

type_synonym payload_record = "ustr \<times> ustr \<times> int"

definition read_record :: "payload_record list \<Rightarrow> json \<Rightarrow> exn + payload_record" where
  "read_record records raw = (case raw of
     JDict d \<Rightarrow>
       if json_keys d \<noteq> {U ''path'', U ''sha256'', U ''size''} then Inl ArchiveError
       else (case (json_get d (U ''path''), json_get d (U ''sha256''), json_get d (U ''size'')) of
         (JStr name, JStr digest, JInt count) \<Rightarrow>
           if length digest \<noteq> 64 \<or> \<not> list_all is_lower_hex digest \<or> count < 0 \<or> count > int MAX_FILE_SIZE then Inl ArchiveError
           else bind_sum (validated_member_name name) (\<lambda>p.
             if \<not> allowed_payload_path p \<or> name \<in> fst ` set records then Inl ArchiveError else Inr (name, digest, count))
       | _ \<Rightarrow> Inl ArchiveError)
   | _ \<Rightarrow> Inl ArchiveError)"

fun read_records :: "payload_record list \<Rightarrow> json list \<Rightarrow> exn + payload_record list" where
  "read_records records [] = Inr records"
| "read_records records (raw # rest) = bind_sum (read_record records raw) (\<lambda>r. read_records (records @ [r]) rest)"

definition manifest_records :: "(ustr \<times> json) list \<Rightarrow> exn + payload_record list" where
  "manifest_records manifest = (case json_get manifest (U ''files'') of
     JList raw_records \<Rightarrow>
       if length raw_records > MAX_MEMBERS - 1 then Inl ArchiveError
       else bind_sum (read_records [] raw_records) (\<lambda>records.
         if map fst records \<noteq> sort (map fst records) then Inl ArchiveError
         else if \<not> set (map fst FIXED_SOURCES) \<subseteq> fst ` set records then Inl ArchiveError
         else Inr records)
   | _ \<Rightarrow> Inl ArchiveError)"

section \<open>Extraction\<close>

text \<open>The loop of \<^verbatim>\<open>_safe_extract_member\<close>. A read that would run past the data meets the error of the stream.\<close>

fun extract_loop :: "'h archive_host_scheme \<Rightarrow> loc \<Rightarrow> exn option \<Rightarrow> int \<Rightarrow> nat \<Rightarrow> bytes list \<Rightarrow> (fs, nat) prog" where
  "extract_loop h q err expected_size count [] = (case err of None \<Rightarrow> ret count | Some e \<Rightarrow> raise e)"
| "extract_loop h q err expected_size count (c # cs) =
     (case if length c < CHUNK then err else None of Some e \<Rightarrow> raise e
      | None \<Rightarrow>
         let count = count + length c in
         if int count > expected_size \<or> count > MAX_FILE_SIZE then raise ArchiveError
         else bindP (write_all h q c) (\<lambda>_. extract_loop h q err expected_size count cs))"

definition safe_extract_member :: "'h archive_host_scheme \<Rightarrow> tar_member \<Rightarrow> path \<Rightarrow> ustr \<Rightarrow> int \<Rightarrow> (fs, unit) prog" where
  "safe_extract_member h source destination expected_digest expected_size =
     bindP (path_mkdir h (butlast destination) 448 True True) (\<lambda>_.
     bindP (os_create h destination 384) (\<lambda>descriptor.
     bindP (extract_loop h descriptor (tm_error source) expected_size 0 (chunks CHUNK (tm_data source))) (\<lambda>count.
     bindP (os_fsync h descriptor) (\<lambda>_.
     if int count \<noteq> expected_size \<or> bytes_hex (in_sha256 h (tm_data source)) \<noteq> expected_digest then raise ArchiveError else ret ()))))"

text \<open>The loop over the members of the tar file: the names seen, how many, and their sizes.\<close>

fun scan_archive :: "ustr list \<Rightarrow> nat \<Rightarrow> int \<Rightarrow> tar_member list \<Rightarrow> exn + ustr list" where
  "scan_archive names n total_size [] = Inr names"
| "scan_archive names n total_size (m # ms) =
     (if n \<ge> MAX_MEMBERS then Inl ArchiveError
      else bind_sum (validated_member_name (tm_name m)) (\<lambda>_.
        if tm_name m \<in> set names \<or> \<not> tm_isfile m then Inl ArchiveError
        else if tm_size m < 0 \<or> tm_size m > int MAX_FILE_SIZE then Inl ArchiveError
        else if total_size + tm_size m > int MAX_TOTAL_SIZE then Inl ArchiveError
        else scan_archive (names @ [tm_name m]) (n + 1) (total_size + tm_size m) ms))"

definition archive_names :: "tar_stream \<Rightarrow> exn + ustr list" where
  "archive_names ts = bind_sum (scan_archive [] 0 0 (ts_members ts)) (\<lambda>names.
     case ts_error ts of Some e \<Rightarrow> Inl e | None \<Rightarrow> if ts_members ts = [] then Inl ArchiveError else Inr names)"

text \<open>\<^verbatim>\<open>TarFile.getmember\<close>: the last member of the name, without trailing slashes.\<close>

definition getmember :: "tar_stream \<Rightarrow> ustr \<Rightarrow> exn + tar_member" where
  "getmember ts name = (case find (\<lambda>m. tm_name m = rstrip_char 47 name) (rev (ts_members ts)) of
     None \<Rightarrow> Inl KeyError | Some m \<Rightarrow> Inr m)"

definition read_stream :: "tar_member \<Rightarrow> nat \<Rightarrow> exn + bytes" where
  "read_stream m n = (if n \<le> length (tm_data m) then Inr (take n (tm_data m))
     else case tm_error m of Some e \<Rightarrow> Inl e | None \<Rightarrow> Inr (tm_data m))"

text \<open>The manifest of a tar file and the records in it, once the members agree with them.\<close>

definition archive_records :: "'h archive_host_scheme \<Rightarrow> tar_stream \<Rightarrow> exn + (ustr \<times> json) list \<times> payload_record list" where
  "archive_records h ts = bind_sum (archive_names ts) (\<lambda>names.
     bind_sum (catch_sum (getmember ts (U ''manifest.json'')) (\<lambda>e. Inl (if e = KeyError then ArchiveError else e))) (\<lambda>m.
     bind_sum (bind_sum (read_stream m (MAX_MANIFEST_SIZE + 1)) (parse_manifest h)) (\<lambda>manifest.
     bind_sum (manifest_records manifest) (\<lambda>records.
     if set names \<noteq> insert (U ''manifest.json'') ((\<lambda>(name, _). U ''payload/'' @ name) ` set records) then Inl ArchiveError
     else Inr (manifest, records)))))"

definition extract_record :: "'h archive_host_scheme \<Rightarrow> tar_stream \<Rightarrow> path \<Rightarrow> payload_record \<Rightarrow> (fs, unit) prog" where
  "extract_record h ts staging record = (case record of (name, digest, count) \<Rightarrow>
     bindP (lift_result (getmember ts (U ''payload/'' @ name))) (\<lambda>m.
     if \<not> tm_isfile m then raise ArchiveError
     else safe_extract_member h m (joinpath (staging @ [U ''payload'']) name) digest count))"

definition directory_entries :: "'h archive_host_scheme \<Rightarrow> path \<Rightarrow> (fs, bytes list) prog" where
  "directory_entries h p = bindP (os_place h True p) (\<lambda>q. gets (\<lambda>s. map fst (fs_children s q)))"

definition validate_and_extract :: "'h archive_host_scheme \<Rightarrow> path \<Rightarrow> path \<Rightarrow> path \<Rightarrow> int \<Rightarrow> (fs, (ustr \<times> json) list) prog" where
  "validate_and_extract h archive staging current_state expected_owner =
     bindP (validate_archive_file h archive expected_owner) (\<lambda>_.
     bindP (os_stat h False staging) (\<lambda>stage_status. if \<not> is_dir (Some stage_status) then raise ArchiveError else
     bindP (directory_entries h staging) (\<lambda>inner. if inner \<noteq> [] then raise ArchiveError else
     bindP (path_read_bytes h archive) (\<lambda>raw.
     bindP (lift_result (ah_untar h raw)) (\<lambda>ts.
     bindP (lift_result (archive_records h ts)) (\<lambda>(manifest, records).
     bindP (for_each (extract_record h ts staging) records) (\<lambda>_.
     bindP (for_each (\<lambda>(archive_prefix, _). path_mkdir h (joinpath (staging @ [U ''payload'']) archive_prefix) 448 True True) TREE_SOURCES) (\<lambda>_.
     bindP (lift_result (manifest_bytes h manifest)) (\<lambda>out.
     bindP (path_write_bytes h (staging @ [U ''manifest.json'']) out) (\<lambda>_.
     bindP (os_chmod h (staging @ [U ''manifest.json'']) 384) (\<lambda>_.
     bindP (database_metadata h (joinpath (staging @ [U ''payload'']) (U ''database/ezopenpn.sqlite3''))) (\<lambda>(quick, schema).
     if JStr quick \<noteq> json_get manifest (U ''quick_check'') \<or> JStr schema \<noteq> json_get manifest (U ''schema_version'') then raise ArchiveError else
     bindP (load_install_state h (joinpath (staging @ [U ''payload'']) (U ''state/install.json''))) (\<lambda>(archive_version, archive_ip).
     bindP (load_install_state h current_state) (\<lambda>(current_version, current_ip).
     if JStr archive_version \<noteq> json_get manifest (U ''version'') \<or> JStr archive_ip \<noteq> json_get manifest (U ''public_ipv4'')
       \<or> archive_version \<noteq> current_version \<or> archive_ip \<noteq> current_ip then raise ArchiveError
     else ret manifest))))))))))))))"

end
