(* ===== verification/Restore.thy ===== *)
theory Restore
  imports Archive
begin

unbundle bit_operations_syntax

text \<open>
  Applying an extracted backup, \<^verbatim>\<open>installer/backup_archive.py\<close> from \<^verbatim>\<open>_apply_owner\<close> on: installing the single files, swapping the
  two trees, cleaning up, and the commands of \<^verbatim>\<open>main\<close>. The recursion of \<^verbatim>\<open>os.walk\<close> and \<^verbatim>\<open>shutil.rmtree\<close> has the depth of the tree
  as fuel.
\<close>

section \<open>More system calls\<close>

record restore_host = archive_host +
  rh_pid :: nat
  rh_urandom :: "nat \<Rightarrow> bytes"

definition set_owner :: "owner \<Rightarrow> node \<Rightarrow> node" where
  "set_owner u nd = (case nd of File d _ m \<Rightarrow> File d u m | Dir _ m \<Rightarrow> Dir u m | other \<Rightarrow> other)"

definition os_chown :: "'h host_scheme \<Rightarrow> path \<Rightarrow> owner \<Rightarrow> (fs, unit) prog" where
  "os_chown h p u = bindP (os_place h False p) (\<lambda>q. bindP (gets (\<lambda>s. fs_at s q)) (\<lambda>nd.
     if nd = None then raise OSError else modify (change_node q (set_owner u))))"

text \<open>Removing an entry of an open directory.\<close>

definition os_unlink_at :: "'h host_scheme \<Rightarrow> loc \<Rightarrow> (fs, unit) prog" where
  "os_unlink_at h q = bindP (os_fault h) (\<lambda>_. bindP (gets (\<lambda>s. fs_at s q)) (\<lambda>nd.
     if nd = None \<or> is_dir nd then raise OSError else modify (fs_remove q)))"

definition os_rmdir_at :: "'h host_scheme \<Rightarrow> loc \<Rightarrow> (fs, unit) prog" where
  "os_rmdir_at h q = bindP (os_fault h) (\<lambda>_. bindP (gets (\<lambda>s. (fs_at s q, fs_children s q))) (\<lambda>(nd, inner).
     if \<not> is_dir nd \<or> inner \<noteq> [] then raise OSError else modify (fs_remove q)))"

text \<open>\<^verbatim>\<open>shutil.rmtree\<close>: the entries are removed through the descriptor of their directory, so no link is followed.\<close>

fun remove_tree :: "'h host_scheme \<Rightarrow> nat \<Rightarrow> loc \<Rightarrow> (fs, unit) prog" where
  "remove_tree h 0 q = stuck"
| "remove_tree h (Suc n) q =
     bindP (os_fault h) (\<lambda>_. bindP (gets (\<lambda>s. fs_children s q)) (\<lambda>entries.
     bindP (for_each (\<lambda>(name, nd). if is_dir (Some nd) then remove_tree h n (q @ [name])
       else os_unlink_at h (q @ [name])) entries) (\<lambda>_.
     os_rmdir_at h q)))"

definition rmtree :: "'h host_scheme \<Rightarrow> path \<Rightarrow> (fs, unit) prog" where
  "rmtree h p = bindP (os_place h False p) (\<lambda>q. bindP (gets (\<lambda>s. (fs_at s q, tree_depth s))) (\<lambda>(nd, n).
     if \<not> is_dir nd then raise OSError else remove_tree h (Suc n) q))"

primrec mkdtemp_loop :: "'h host_scheme \<Rightarrow> nat \<Rightarrow> path \<Rightarrow> ustr \<Rightarrow> (fs, path) prog" where
  "mkdtemp_loop h 0 dir prefix = raise OSError"
| "mkdtemp_loop h (Suc n) dir prefix = bindP (gets (\<lambda>s. dir @ [prefix @ io_random_name h (fs_calls s)])) (\<lambda>p.
     bindP (os_mkdir h p 448) (\<lambda>r. case r of
         Inr _ \<Rightarrow> ret p
       | Inl e \<Rightarrow> if e = EEXIST then mkdtemp_loop h n dir prefix else raise OSError))"

definition mkdtemp :: "'h host_scheme \<Rightarrow> ustr \<Rightarrow> path \<Rightarrow> (fs, path) prog" where
  "mkdtemp h prefix dir = mkdtemp_loop h TMP_MAX dir prefix"

section \<open>Installing files\<close>

definition apply_owner :: "'h host_scheme \<Rightarrow> path \<Rightarrow> owner \<Rightarrow> (fs, unit) prog" where
  "apply_owner h p u = (if fst (io_owner h) = 0 then os_chown h p u else ret ())"

text \<open>A name beside the destination: \<^verbatim>\<open>.<name>.<tag>-<pid>-<random>\<close>.\<close>

definition side_path :: "'h restore_host_scheme \<Rightarrow> ustr \<Rightarrow> path \<Rightarrow> nat \<Rightarrow> path" where
  "side_path h tag destination n = butlast destination
     @ [U ''.'' @ last destination @ U ''.'' @ tag @ U ''-'' @ dec_str (rh_pid h) @ U ''-'' @ bytes_hex (rh_urandom h n)]"

definition install_file :: "'h restore_host_scheme \<Rightarrow> path \<Rightarrow> path \<Rightarrow> mode \<Rightarrow> owner \<Rightarrow> (fs, unit) prog" where
  "install_file h source destination m u =
     bindP (regular_status h source) (\<lambda>_.
     bindP (path_mkdir h (butlast destination) 511 True True) (\<lambda>_.
     bindP (gets (\<lambda>s. side_path h (U ''restore'') destination (fs_calls s))) (\<lambda>temporary.
     finallyP
       (bindP (safe_copy h source temporary) (\<lambda>_.
        bindP (os_chmod h temporary m) (\<lambda>_.
        bindP (apply_owner h temporary u) (\<lambda>_.
        os_replace h temporary destination))))
       (path_unlink h temporary True))))"

section \<open>Swapping a tree\<close>

text \<open>The loop over \<^verbatim>\<open>os.walk(temporary)\<close>; a link to a directory is listed with the directories and not entered.\<close>

definition own_node :: "'h host_scheme \<Rightarrow> path \<Rightarrow> mode \<Rightarrow> owner \<Rightarrow> (fs, unit) prog" where
  "own_node h p m u = bindP (os_chmod h p m) (\<lambda>_. apply_owner h p u)"

text \<open>What \<^verbatim>\<open>os.walk\<close> finds in a directory: nothing at all when the directory cannot be listed.\<close>

definition scan_dir :: "'h host_scheme \<Rightarrow> path \<Rightarrow> (fs, (ustr \<times> bool) list option) prog" where
  "scan_dir h p = bindP (os_locate h True p) (\<lambda>r. case r of Inl _ \<Rightarrow> ret None
     | Inr q \<Rightarrow> gets (\<lambda>s. if is_dir (fs_at s q)
         then Some (map (\<lambda>(name, _). (io_fsdecode h name, entry_is_dir s (q @ [name]))) (fs_children s q)) else None))"

definition own_listed :: "'h host_scheme \<Rightarrow> path \<Rightarrow> (ustr \<times> bool) list \<Rightarrow> owner \<Rightarrow> (fs, unit) prog" where
  "own_listed h current entries u =
     bindP (own_node h current 448 u) (\<lambda>_.
     bindP (for_each (\<lambda>name. own_node h (current @ [name]) 384 u) (map fst (filter (\<lambda>e. \<not> snd e) entries))) (\<lambda>_.
     for_each (\<lambda>name. own_node h (current @ [name]) 448 u) (map fst (filter snd entries))))"

fun own_tree :: "'h host_scheme \<Rightarrow> nat \<Rightarrow> path \<Rightarrow> owner \<Rightarrow> (fs, unit) prog" where
  "own_tree h 0 current u = stuck"
| "own_tree h (Suc n) current u =
     bindP (scan_dir h current) (\<lambda>listing. case listing of None \<Rightarrow> ret () | Some entries \<Rightarrow>
     bindP (own_listed h current entries u) (\<lambda>_.
     for_each (\<lambda>name. bindP (catch (path_is_symlink h (current @ [name])) (\<lambda>_. ret False)) (\<lambda>link.
       if link then ret () else own_tree h n (current @ [name]) u)) (map fst (filter snd entries))))"

text \<open>\<open>moved_old\<close> is true from the first \<^verbatim>\<open>os.replace\<close> on: the handler is around what follows it.\<close>

definition put_back :: "'h host_scheme \<Rightarrow> path \<Rightarrow> path \<Rightarrow> (fs, unit) prog" where
  "put_back h old destination = bindP (path_exists h destination) (\<lambda>there. if there then ret () else
     bindP (path_exists h old) (\<lambda>kept. if kept then os_replace h old destination else ret ()))"

definition swap_tree :: "'h host_scheme \<Rightarrow> path \<Rightarrow> path \<Rightarrow> path \<Rightarrow> (fs, unit) prog" where
  "swap_tree h temporary old destination =
     bindP (path_exists h destination) (\<lambda>there. if \<not> there then os_replace h temporary destination else
     bindP (path_is_symlink h destination) (\<lambda>link.
     bindP (if link then ret False else path_is_dir h destination) (\<lambda>safe. if \<not> safe then raise ArchiveError else
     bindP (os_replace h destination old) (\<lambda>_.
     catch (bindP (os_replace h temporary destination) (\<lambda>_. rmtree h old))
       (\<lambda>e. bindP (put_back h old destination) (\<lambda>_. raise e))))))"

definition remove_if_there :: "'h host_scheme \<Rightarrow> path \<Rightarrow> (fs, unit) prog" where
  "remove_if_there h p = bindP (path_exists h p) (\<lambda>there. if there then rmtree h p else ret ())"

text \<open>The copy of the tree, with the owner and the modes it is to have.\<close>

definition fill_tree :: "'h archive_host_scheme \<Rightarrow> path \<Rightarrow> path \<Rightarrow> owner \<Rightarrow> (fs, unit) prog" where
  "fill_tree h source temporary u =
     bindP (tree_files h source) (\<lambda>files.
     bindP (for_each (\<lambda>(relative, item). bindP (safe_copy h item (joinpath temporary (as_posix relative))) (\<lambda>_. ret ())) files) (\<lambda>_.
     bindP (gets tree_depth) (\<lambda>n. own_tree h (Suc n) temporary u)))"

definition copy_tree :: "'h restore_host_scheme \<Rightarrow> path \<Rightarrow> path \<Rightarrow> owner \<Rightarrow> (fs, unit) prog" where
  "copy_tree h source destination u =
     bindP (os_stat h False source) (\<lambda>status. if \<not> is_dir (Some status) then raise ArchiveError else
     bindP (path_mkdir h (butlast destination) 511 True True) (\<lambda>_.
     bindP (mkdtemp h (U ''.'' @ last destination @ U ''.restore-'') (butlast destination)) (\<lambda>temporary.
     bindP (gets (\<lambda>s. side_path h (U ''previous'') destination (fs_calls s))) (\<lambda>old.
     finallyP
       (bindP (fill_tree h source temporary u) (\<lambda>_. swap_tree h temporary old destination))
       (bindP (remove_if_there h temporary) (\<lambda>_. remove_if_there h old))))))"

section \<open>Applying a payload\<close>

definition fixed_destinations :: "(ustr \<times> ustr \<times> mode \<times> owner) list" where
  "fixed_destinations = map (\<lambda>(source, destination, m, u). (U source, U destination, m, u))
     [(''database/ezopenpn.sqlite3'', ''var/lib/ezopenpn/control/ezopenpn.sqlite3'', 384, (10001, 10001)),
      (''configuration/control.toml'', ''etc/ezopenpn/control.toml'', 416, (0, 10001)),
      (''configuration/Caddyfile'', ''etc/ezopenpn/Caddyfile'', 416, (0, 11003)),
      (''configuration/compose.yaml'', ''etc/ezopenpn/compose.yaml'', 416, (0, 0)),
      (''configuration/stack.env'', ''etc/ezopenpn/stack.env'', 416, (0, 0)),
      (''secrets/master.key'', ''var/lib/ezopenpn/secrets/master.key'', 384, (10001, 10001)),
      (''secrets/hysteria-api.key'', ''var/lib/ezopenpn/secrets/hysteria-api.key'', 384, (10001, 10001)),
      (''secrets/hysteria-obfs.key'', ''var/lib/ezopenpn/secrets/hysteria-obfs.key'', 384, (10001, 10001)),
      (''runtime/xray/config.json'', ''var/lib/ezopenpn/runtime/xray/config.json'', 384, (10002, 11001)),
      (''runtime/hysteria/config.yaml'', ''var/lib/ezopenpn/runtime/hysteria/config.yaml'', 384, (10003, 11003))]"

definition verify_staged :: "'h archive_host_scheme \<Rightarrow> path \<Rightarrow> payload_record \<Rightarrow> (fs, unit) prog" where
  "verify_staged h payload record = (case record of (name, digest, count) \<Rightarrow>
     bindP (regular_status h (joinpath payload name)) (\<lambda>(n, _, _).
     if int n \<noteq> count then raise ArchiveError
     else bindP (sha256_file h (joinpath payload name)) (\<lambda>found. if found \<noteq> digest then raise ArchiveError else ret ())))"

definition drop_journals :: "'h host_scheme \<Rightarrow> path \<Rightarrow> (fs, unit) prog" where
  "drop_journals h root = (let directory = joinpath root (U ''var/lib/ezopenpn/control'') in
     bindP (path_unlink h (directory @ [U ''ezopenpn.sqlite3-wal'']) True) (\<lambda>_.
     path_unlink h (directory @ [U ''ezopenpn.sqlite3-shm'']) True))"

text \<open>The parts of \<^verbatim>\<open>apply_payload\<close>: the manifest and the staged files are checked again, then the single files are installed, then the trees.\<close>

definition check_staged :: "'h archive_host_scheme \<Rightarrow> path \<Rightarrow> (fs, unit) prog" where
  "check_staged h staging =
     bindP (path_read_bytes h (staging @ [U ''manifest.json''])) (\<lambda>raw.
     bindP (lift_result (parse_manifest h raw)) (\<lambda>manifest.
     bindP (lift_result (manifest_records manifest)) (\<lambda>records.
     for_each (verify_staged h (staging @ [U ''payload''])) records)))"

definition install_fixed :: "'h restore_host_scheme \<Rightarrow> path \<Rightarrow> path \<Rightarrow> (fs, unit) prog" where
  "install_fixed h root payload = for_each (\<lambda>(source_name, destination_name, m, u).
     install_file h (joinpath payload source_name) (joinpath root destination_name) m u) fixed_destinations"

definition install_trees :: "'h restore_host_scheme \<Rightarrow> path \<Rightarrow> path \<Rightarrow> (fs, unit) prog" where
  "install_trees h root payload =
     bindP (copy_tree h (joinpath payload (U ''runtime/material'')) (joinpath root (U ''var/lib/ezopenpn/runtime/material'')) (0, 0)) (\<lambda>_.
     copy_tree h (joinpath payload (U ''caddy'')) (joinpath root (U ''var/lib/ezopenpn/caddy'')) (10004, 11003))"

definition apply_payload :: "'h restore_host_scheme \<Rightarrow> path \<Rightarrow> path \<Rightarrow> (fs, unit) prog" where
  "apply_payload h root staging = (let payload = staging @ [U ''payload''] in
     bindP (check_staged h staging) (\<lambda>_.
     bindP (drop_journals h root) (\<lambda>_.
     bindP (install_fixed h root payload) (\<lambda>_. install_trees h root payload))))"

definition cleanup_staging :: "'h host_scheme \<Rightarrow> path \<Rightarrow> path \<Rightarrow> (fs, unit) prog" where
  "cleanup_staging h p parent =
     (if p = [] \<or> butlast p \<noteq> parent \<or> \<not> is_prefix (U ''.stage.'') (last p) then raise ArchiveError
      else bindP (os_stat h False p) (\<lambda>status. if \<not> is_dir (Some status) then raise ArchiveError else rmtree h p))"

section \<open>The commands\<close>

datatype archive_command = CreateArchive path path path path | ValidateArchive path path path int
  | ApplyPayload path path | CleanupStaging path path

text \<open>The exit status and what is printed on the standard output.\<close>

definition archive_main :: "'h restore_host_scheme \<Rightarrow> archive_command \<Rightarrow> (fs, int \<times> bytes) prog" where
  "archive_main h command = catch
     (case command of
        CreateArchive root snapshot staging archive \<Rightarrow> bindP (create_archive h root snapshot staging archive) (\<lambda>_. ret (0, []))
      | ValidateArchive archive staging current_state expected_owner \<Rightarrow>
          bindP (validate_and_extract h archive staging current_state expected_owner) (\<lambda>manifest.
          bindP (lift_result (manifest_bytes h manifest)) (\<lambda>out. ret (0, out)))
      | ApplyPayload root staging \<Rightarrow> bindP (apply_payload h root staging) (\<lambda>_. ret (0, []))
      | CleanupStaging p parent \<Rightarrow> bindP (cleanup_staging h p parent) (\<lambda>_. ret (0, [])))
     (\<lambda>e. if e \<in> {ArchiveError, OSError, TarError, JSONDecodeError} then ret (1, []) else raise e)"

end
