(* ===== verification/Archive_Facts.thy ===== *)
theory Archive_Facts
  imports Archive Files_Facts
begin

text \<open>
  Extraction is confined. \<open>confined\<close> is the invariant of an extraction into the directory \<open>D\<close>: only places of a given set
  differ from the start, none of them is a link, and the files in \<open>F\<close> are as listed. Every operation on a path whose parts
  stay within the set keeps it, under every schedule of failures.
\<close>

section \<open>Confinement\<close>

definition confined :: "loc set \<Rightarrow> fs \<Rightarrow> (loc \<times> node) set \<Rightarrow> fs \<Rightarrow> bool" where
  "confined A s F t \<longleftrightarrow> (\<forall>q. q \<notin> A \<longrightarrow> fs_at t q = fs_at s q) \<and> (\<forall>q \<in> A. \<not> is_link (fs_at t q)) \<and> (\<forall>(q, nd) \<in> F. fs_at t q = Some nd)"

lemma node_pred_confined: "node_pred (confined A s F)"
  unfolding node_pred_def by (simp add: confined_def)

lemma confined_less: "confined A s F t \<Longrightarrow> F' \<subseteq> F \<Longrightarrow> confined A s F' t"
  by (auto simp: confined_def)

lemma confined_put:
  assumes "confined A s F t" and "q \<in> A" and "q \<notin> fst ` F" and "\<not> is_link (Some nd)" and "fs_at t' = (fs_at t)(q \<mapsto> nd)"
  shows "confined A s (insert (q, nd) F) t'"
  using assms by (force simp: confined_def)

text \<open>The parts below \<open>D\<close> that an operation may use: their places are in \<open>A\<close>.\<close>

definition within :: "'h host_scheme \<Rightarrow> loc \<Rightarrow> loc set \<Rightarrow> path \<Rightarrow> bool" where
  "within h D A xs \<longleftrightarrow> (\<forall>q x. is_prefix q xs \<longrightarrow> q \<noteq> [] \<longrightarrow> path_bytes h q = Inr x \<longrightarrow> D @ x \<in> A \<and> DOT_DOT \<notin> set x)"

definition below :: "loc \<Rightarrow> loc set \<Rightarrow> bool" where
  "below D A \<longleftrightarrow> (\<forall>q \<in> A. length D < length q)"

lemma is_prefix_refl: "is_prefix p p"
  by (simp add: is_prefix_def)

lemma real_dir_is_dir: "real_dir s d \<Longrightarrow> is_dir (fs_at s d)"
  by (auto simp: real_dir_def dest: spec [of _ "length d"])

lemma within_place: "within h D A xs \<Longrightarrow> xs \<noteq> [] \<Longrightarrow> path_bytes h xs = Inr x \<Longrightarrow> D @ x \<in> A \<and> DOT_DOT \<notin> set x"
  unfolding within_def using is_prefix_refl by blast

lemma within_prefix: "within h D A xs \<Longrightarrow> is_prefix ys xs \<Longrightarrow> within h D A ys"
  unfolding within_def is_prefix_iff by (metis append.assoc)

lemma within_butlast: "within h D A xs \<Longrightarrow> within h D A (butlast xs)"
  by (erule within_prefix) (metis append_butlast_last_id append_Nil2 butlast.simps(1) is_prefix_iff)

lemma path_bytes_take: "path_bytes h xs = Inr x \<Longrightarrow> path_bytes h (take k xs) = Inr (take k x)"
proof (induction xs arbitrary: x k)
  case (Cons c xs)
  then show ?case by (cases k) (auto simp: path_bytes_Cons)
qed simp

lemma confined_dir:
  assumes "confined A s F t" and "below D A" and "real_dir s D"
  shows "real_dir t D"
proof (rule real_dir_cong [OF assms(3)])
  fix k assume "k \<le> length D"
  have "length (take k D) \<le> length D" by simp
  with assms(2) have "take k D \<notin> A" unfolding below_def by (meson leD)
  with assms(1) show "fs_at t (take k D) = fs_at s (take k D)" by (simp add: confined_def)
qed

lemma confined_resolve:
  assumes "confined A s F t" and "below D A" and "real_dir s D" and "within h D A xs" and "path_bytes h xs = Inr x"
    and "resolve t follow n [] (D @ x) = Inr r"
  shows "r = D @ x"
proof -
  have dir: "real_dir t D" using assms(1-3) by (rule confined_dir)
  have "\<not> is_link (fs_at t (D @ take k x))" for k
  proof (cases "take k x = []")
    case True
    have "is_dir (fs_at t D)" using dir by (rule real_dir_is_dir)
    then show ?thesis using True by (auto simp: is_dir_iff)
  next
    case False
    have "path_bytes h (take k xs) = Inr (take k x)" using assms(5) by (rule path_bytes_take)
    moreover have "is_prefix (take k xs) xs" by (metis append_take_drop_id is_prefix_iff)
    moreover have "take k xs \<noteq> []" using False assms(5) length_path_bytes by fastforce
    ultimately have "D @ take k x \<in> A" using assms(4) by (auto simp: within_def)
    then show ?thesis using assms(1) by (simp add: confined_def)
  qed
  moreover have "DOT_DOT \<notin> set x"
    using within_place [OF assms(4) _ assms(5)] assms(5) by (cases "xs = []") auto
  ultimately show ?thesis
    using assms(6) resolve_below [of x t D follow n r] resolve_real [OF dir, of follow n x] by simp
qed

text \<open>The extraction directory.\<close>

definition stage_at :: "'h host_scheme \<Rightarrow> path \<Rightarrow> loc \<Rightarrow> loc set \<Rightarrow> fs \<Rightarrow> bool" where
  "stage_at h staging D A s \<longleftrightarrow> path_bytes h staging = Inr D \<and> real_dir s D \<and> below D A"

lemma stage_path: "stage_at h staging D A s \<Longrightarrow> path_bytes h (staging @ xs) = Inr b \<longleftrightarrow> (\<exists>x. path_bytes h xs = Inr x \<and> b = D @ x)"
  by (auto simp: stage_at_def path_bytes_append)

text \<open>A call on a path within the set finds the place that the path names.\<close>

lemma stage_resolve:
  assumes "stage_at h staging D A s" and "within h D A xs" and "confined A s F t" and "path_bytes h (staging @ xs) = Inr b"
    and "resolve t follow n [] b = Inr r"
  shows "r = b \<and> (xs \<noteq> [] \<longrightarrow> b \<in> A)"
proof -
  obtain x where x: "path_bytes h xs = Inr x" "b = D @ x" using assms(1,4) by (auto simp: stage_path)
  have "r = b" using confined_resolve [OF assms(3) _ _ assms(2) x(1)] assms(1,5) x(2) by (auto simp: stage_at_def)
  then show ?thesis using within_place [OF assms(2) _ x(1)] x(2) by simp
qed

lemma runs_mkdir_within:
  assumes "stage_at h staging D A s" and "within h D A xs"
  shows "runs (confined A s F) (os_mkdir h (staging @ xs) m) (\<lambda>_. confined A s F) (confined A s F)"
proof (rule runs_pre)
  fix t assume t: "confined A s F t"
  let ?t = "fs_calls_update Suc t"
  have same: "confined A s F ?t" using node_pred_calls [OF node_pred_confined t] .
  have new: "confined A s F (fs_put q (Dir (io_owner h) m') ?t)"
    if "path_bytes h (staging @ xs) = Inr b" "resolve t False MAX_LINKS [] b = Inr q" "fs_at t q = None" for q b m'
  proof -
    have q: "q = b" "xs \<noteq> [] \<longrightarrow> q \<in> A" using stage_resolve [OF assms t that(1,2)] by auto
    have "xs \<noteq> []"
    proof
      assume "xs = []"
      then have "q = D" using that(1) q(1) assms(1) by (simp add: stage_at_def)
      moreover have "is_dir (fs_at t D)" using real_dir_is_dir [OF confined_dir [OF t, of D]] assms(1) by (simp add: stage_at_def)
      ultimately show False using that(3) by simp
    qed
    with q have "q \<in> A" by simp
    moreover have "q \<notin> fst ` F" using t that(3) by (auto simp: confined_def)
    moreover have "q \<noteq> []" using \<open>q \<in> A\<close> assms(1) by (auto simp: stage_at_def below_def)
    ultimately have "confined A s (insert (q, Dir (io_owner h) m') F) (fs_put q (Dir (io_owner h) m') ?t)"
      by (intro confined_put [OF same]) (simp_all add: fun_eq_iff)
    then show ?thesis by (rule confined_less) blast
  qed
  show "runs (\<lambda>u. u = t) (os_mkdir h (staging @ xs) m) (\<lambda>_. confined A s F) (confined A s F)"
    using t same new by (auto simp: runs_def mkdir_run split: sum.splits if_splits outcome.splits)
qed

lemma runs_path_mkdir_within:
  assumes stage: "stage_at h staging D A s" and "within h D A xs"
  shows "runs (confined A s F) (path_mkdir h (staging @ xs) m parents exist_ok) (\<lambda>_. confined A s F) (confined A s F)"
proof -
  have probe: "runs (confined A s F) (path_probe h follow test p) (\<lambda>_. confined A s F) (confined A s F)" for follow test p
    by (rule runs_reads [OF keeps_probe node_pred_confined])
  have once: "runs (confined A s F) (path_mkdir h (staging @ ys) m False exist_ok) (\<lambda>_. confined A s F) (confined A s F)"
    if "within h D A ys" for ys m exist_ok
    by (subst path_mkdir.simps, rule runs_bind [OF runs_mkdir_within [OF stage that]])
      (intro runs_intros runs_bind [OF probe]; simp; fail)
  have "runs (confined A s F) (path_mkdir h (staging @ xs) m True exist_ok) (\<lambda>_. confined A s F) (confined A s F)" for m exist_ok
    using assms(2)
  proof (induction xs arbitrary: m exist_ok rule: rev_induct)
    case Nil
    have top: "runs (confined A s F) (os_mkdir h staging m) (\<lambda>r t. confined A s F t \<and> r \<noteq> Inl ENOENT) (confined A s F)"
    proof (rule runs_pre)
      fix t assume t: "confined A s F t"
      have "is_dir (fs_at t D)" "resolve t False MAX_LINKS [] D = Inr D"
        using confined_dir [OF t, of D] stage real_dir_is_dir resolve_real_dir by (auto simp: stage_at_def)
      then show "runs (\<lambda>u. u = t) (os_mkdir h staging m) (\<lambda>r t. confined A s F t \<and> r \<noteq> Inl ENOENT) (confined A s F)"
        using stage node_pred_calls [OF node_pred_confined t, of Suc] by (auto simp: runs_def mkdir_run stage_at_def)
    qed
    show ?case
      unfolding append_Nil2
      by (subst path_mkdir.simps, rule runs_bind [OF top], rule runs_pre)
        (auto intro!: runs_intros runs_bind [OF runs_at [OF probe]])
  next
    case (snoc c xs)
    have up: "within h D A xs" using within_butlast [OF snoc.prems] by simp
    show ?case
      by (subst path_mkdir.simps, rule runs_bind [OF runs_mkdir_within [OF stage snoc.prems]])
        (auto intro!: runs_intros runs_bind [OF probe] runs_bind [OF snoc.IH [OF up]] once [OF snoc.prems, unfolded append_assoc] simp: butlast_append)
  qed
  then show ?thesis using once [OF assms(2)] by (cases parents) auto
qed

text \<open>Writing to a place of the set.\<close>

lemma keeps_write_within:
  assumes "q \<in> A" and "q \<noteq> []" and "q \<notin> fst ` F"
  shows "keeps (confined A s F) (write_all h q x)"
proof -
  have append: "confined A s F (append_data q y t)" if t: "confined A s F t" for t y
  proof (cases "fs_at t q")
    case (Some nd)
    show ?thesis
    proof (cases nd)
      case (File d u m)
      have "confined A s (insert (q, File (d @ y) u m) F) (append_data q y t)"
        using Some File assms by (intro confined_put [OF t]) (simp_all add: append_data_def fun_eq_iff)
      then show ?thesis by (rule confined_less) blast
    qed (use t Some in \<open>simp_all add: append_data_def\<close>)
  qed (use t in \<open>simp add: append_data_def\<close>)
  have "keeps (confined A s F) (write_loop h q n x)" for n
  proof (induction n arbitrary: x)
    case (Suc n)
    have "keeps (confined A s F) (os_write h q x)"
      using append node_pred_calls [OF node_pred_confined] by (intro keepsI) (simp add: write_run Let_def)
    then show ?case using Suc by (auto intro!: keeps_intros)
  qed (auto intro!: keeps_intros)
  then show ?thesis by (simp add: write_all_def)
qed

section \<open>Extracting a member\<close>

lemma concat_chunks: "0 < k \<Longrightarrow> concat (chunks k xs) = xs"
  by (induction k xs rule: chunks.induct) (subst chunks.simps, auto)

lemma CHUNK_pos: "0 < CHUNK"
  by (simp add: CHUNK_def)

lemma runs_create_within:
  assumes "stage_at h staging D A s" and "within h D A xs" and "xs \<noteq> []"
  shows "runs (confined A s F) (os_create h (staging @ xs) m)
    (\<lambda>q t. (\<exists>x. path_bytes h xs = Inr x \<and> q = D @ x) \<and> q \<in> A \<and> q \<notin> fst ` F
       \<and> confined A s (insert (q, File [] (io_owner h) (m AND NOT (io_umask h))) F) t) (confined A s F)"
  unfolding os_create_def
proof (rule runs_bind [OF runs_open_new [OF node_pred_confined]])
  fix r
  show "runs (\<lambda>t. case r of Inl e \<Rightarrow> confined A s F t
      | Inr q \<Rightarrow> \<exists>s0 b. confined A s F s0 \<and> path_bytes h (staging @ xs) = Inr b \<and> resolve s0 False MAX_LINKS [] b = Inr q \<and> fs_at s0 q = None
          \<and> t = fs_put q (File [] (io_owner h) (m AND NOT (io_umask h))) s0)
    (case r of Inl e \<Rightarrow> raise OSError | Inr q \<Rightarrow> ret q)
    (\<lambda>q t. (\<exists>x. path_bytes h xs = Inr x \<and> q = D @ x) \<and> q \<in> A \<and> q \<notin> fst ` F
       \<and> confined A s (insert (q, File [] (io_owner h) (m AND NOT (io_umask h))) F) t) (confined A s F)"
  proof (cases r)
    case (Inr q)
    have "(\<exists>x. path_bytes h xs = Inr x \<and> q = D @ x) \<and> q \<in> A \<and> q \<notin> fst ` F
        \<and> confined A s (insert (q, File [] (io_owner h) (m AND NOT (io_umask h))) F) (fs_put q (File [] (io_owner h) (m AND NOT (io_umask h))) s0)"
      if "confined A s F s0" "path_bytes h (staging @ xs) = Inr b" "resolve s0 False MAX_LINKS [] b = Inr q" "fs_at s0 q = None" for s0 b
    proof -
      have q: "q = b" "q \<in> A" using stage_resolve [OF assms(1,2) that(1-3)] assms(3) by auto
      have free: "q \<notin> fst ` F" using that(1,4) by (auto simp: confined_def)
      have "q \<noteq> []" using q(2) assms(1) by (auto simp: stage_at_def below_def)
      then have "confined A s (insert (q, File [] (io_owner h) (m AND NOT (io_umask h))) F) (fs_put q (File [] (io_owner h) (m AND NOT (io_umask h))) s0)"
        using q(2) free by (intro confined_put [OF that(1)]) (simp_all add: fun_eq_iff)
      with q free that(2) show ?thesis using stage_path [OF assms(1), of xs b] by auto
    qed
    then show ?thesis using Inr by (auto simp: runs_def prog_simps)
  qed (auto intro: runs_intros)
qed

lemma runs_write_tracked:
  assumes "q \<in> A" and "q \<noteq> []" and "q \<notin> fst ` F"
  shows "runs (confined A s (insert (q, File d u m) F)) (write_all h q x) (\<lambda>_. confined A s (insert (q, File (d @ x) u m) F)) (confined A s F)"
proof (rule runs_pre)
  fix t assume t: "confined A s (insert (q, File d u m) F) t"
  then have here: "fs_at t q = Some (File d u m)" and less: "confined A s F t" by (auto simp: confined_def)
  have track: "confined A s (insert (q, File y u m) F) t'" if "fs_at t' = (fs_at t)(q \<mapsto> File y u m)" for t' y
    using assms that by (intro confined_put [OF less]) simp_all
  have step: "r = Ok () \<and> confined A s (insert (q, File (d @ x) u m) F) t' \<or> r = Raise OSError \<and> confined A s F t'"
    if run: "write_all h q x t = (r, t')" for r t'
  proof -
    consider "r = Ok ()" "fs_at t' = (fs_at t)(q \<mapsto> File (d @ x) u m)" | k where "r = Raise OSError" "fs_at t' = (fs_at t)(q \<mapsto> File (d @ take k x) u m)"
      using write_all_run [OF assms(2) run] here unfolding written_def by blast
    then show ?thesis using track confined_less [OF track] by cases blast+
  qed
  show "runs (\<lambda>u. u = t) (write_all h q x) (\<lambda>_. confined A s (insert (q, File (d @ x) u m) F)) (confined A s F)"
    using step by (intro runsI) blast+
qed

lemma runs_extract_loop:
  assumes "q \<in> A" and "q \<noteq> []" and "q \<notin> fst ` F"
  shows "runs (confined A s (insert (q, File d u m) F)) (extract_loop h q err expected n cs)
    (\<lambda>k t. confined A s (insert (q, File (d @ concat cs) u m) F) t \<and> k = n + length (concat cs)) (confined A s F)"
proof (induction cs arbitrary: d n)
  case Nil
  show ?case by (auto intro!: runs_intros intro: confined_less simp: split: option.split)
next
  case (Cons c cs)
  have "confined A s (insert (q, File d u m) F) t \<Longrightarrow> confined A s F t" for t by (erule confined_less) blast
  moreover have "runs (confined A s (insert (q, File d u m) F)) (bindP (write_all h q c) (\<lambda>_. extract_loop h q err expected (n + length c) cs))
    (\<lambda>k t. confined A s (insert (q, File (d @ concat (c # cs)) u m) F) t \<and> k = n + length (concat (c # cs))) (confined A s F)"
    by (rule runs_bind [OF runs_write_tracked [OF assms]]) (use Cons [of "d @ c" "n + length c"] in \<open>simp add: add.assoc\<close>)
  ultimately show ?case by (auto intro!: runs_intros simp: Let_def split: option.split)
qed

lemma runs_extract_member:
  assumes "stage_at h staging D A s" and "within h D A xs" and "xs \<noteq> []"
  shows "runs (confined A s F) (safe_extract_member h src (staging @ xs) digest expected)
    (\<lambda>_ t. \<exists>x m. path_bytes h xs = Inr x \<and> D @ x \<notin> fst ` F \<and> confined A s (insert (D @ x, File (tm_data src) (io_owner h) m) F) t
       \<and> int (length (tm_data src)) = expected \<and> bytes_hex (in_sha256 h (tm_data src)) = digest) (confined A s F)"
    (is "runs _ _ ?Q _")
proof -
  have up: "within h D A (butlast xs)" using assms(2) by (rule within_butlast)
  have "runs (\<lambda>t. (\<exists>x. path_bytes h xs = Inr x \<and> q = D @ x) \<and> q \<in> A \<and> q \<notin> fst ` F
        \<and> confined A s (insert (q, File [] (io_owner h) m) F) t)
      (bindP (extract_loop h q (tm_error src) expected 0 (chunks CHUNK (tm_data src))) (\<lambda>count.
       bindP (os_fsync h q) (\<lambda>_.
       if int count \<noteq> expected \<or> bytes_hex (in_sha256 h (tm_data src)) \<noteq> digest then raise ArchiveError else ret ()))) ?Q (confined A s F)" for q m
  proof (rule runs_pre)
    fix t assume t: "(\<exists>x. path_bytes h xs = Inr x \<and> q = D @ x) \<and> q \<in> A \<and> q \<notin> fst ` F \<and> confined A s (insert (q, File [] (io_owner h) m) F) t"
    then have q: "q \<in> A" "q \<noteq> []" "q \<notin> fst ` F" using assms(1) by (auto simp: stage_at_def below_def)
    let ?J = "\<lambda>k t. confined A s (insert (q, File (tm_data src) (io_owner h) m) F) t \<and> k = length (tm_data src)"
    have data: "[] @ concat (chunks CHUNK (tm_data src)) = tm_data src" by (simp add: concat_chunks CHUNK_pos)
    have less: "?J k t \<Longrightarrow> confined A s F t" for k t by (auto intro: confined_less)
    have "node_pred (?J k)" for k unfolding node_pred_def by (simp add: confined_def)
    then have sync: "runs (?J k) (os_fsync h q) (\<lambda>_. ?J k) (confined A s F)" for k by (rule runs_fsync) (erule less)
    have "runs (confined A s (insert (q, File [] (io_owner h) m) F))
      (extract_loop h q (tm_error src) expected 0 (chunks CHUNK (tm_data src))) ?J (confined A s F)"
      using runs_extract_loop [OF q, of s "[]" "io_owner h" m h "tm_error src" expected 0 "chunks CHUNK (tm_data src)"] unfolding data by (simp add: concat_chunks CHUNK_pos)
    then have "runs (confined A s (insert (q, File [] (io_owner h) m) F))
      (bindP (extract_loop h q (tm_error src) expected 0 (chunks CHUNK (tm_data src))) (\<lambda>count.
       bindP (os_fsync h q) (\<lambda>_.
       if int count \<noteq> expected \<or> bytes_hex (in_sha256 h (tm_data src)) \<noteq> digest then raise ArchiveError else ret ()))) ?Q (confined A s F)"
      by (rule runs_bind, intro runs_bind [OF sync]) (use t in \<open>auto intro!: runs_intros intro: less\<close>)
    then show "runs (\<lambda>u. u = t)
      (bindP (extract_loop h q (tm_error src) expected 0 (chunks CHUNK (tm_data src))) (\<lambda>count.
       bindP (os_fsync h q) (\<lambda>_.
       if int count \<noteq> expected \<or> bytes_hex (in_sha256 h (tm_data src)) \<noteq> digest then raise ArchiveError else ret ()))) ?Q (confined A s F)"
      by (rule runs_at) (use t in blast)
  qed
  moreover have "butlast (staging @ xs) = staging @ butlast xs" using assms(3) by (simp add: butlast_append)
  ultimately show ?thesis
    unfolding safe_extract_member_def
    by (auto intro!: runs_bind [OF runs_path_mkdir_within [OF assms(1) up]] runs_bind [OF runs_create_within [OF assms]])
qed

section \<open>Names\<close>

lemma member_name_parts:
  assumes "validated_member_name name = Inr p"
  shows "p = path_parts name" "U ''..'' \<notin> set p" "joinpath d name = d @ p"
  using assms by (auto simp: validated_member_name_def joinpath_def Let_def list_ex_iff split: if_splits)

text \<open>What the records of an accepted manifest are.\<close>

definition record_ok :: "payload_record \<Rightarrow> bool" where
  "record_ok r \<longleftrightarrow> (case r of (name, digest, count) \<Rightarrow> validated_member_name name = Inr (path_parts name) \<and> allowed_payload_path (path_parts name)
     \<and> length digest = 64 \<and> list_all is_lower_hex digest \<and> 0 \<le> count \<and> count \<le> int MAX_FILE_SIZE)"

lemma read_record_ok: "read_record rs raw = Inr r \<Longrightarrow> record_ok r \<and> fst r \<notin> fst ` set rs"
  by (auto simp: read_record_def record_ok_def bind_sum_eq_Inr image_iff dest: member_name_parts(1) split: json.splits if_splits)

lemma read_records_ok: "read_records rs raws = Inr out \<Longrightarrow> list_all record_ok rs \<Longrightarrow> distinct (map fst rs) \<Longrightarrow>
    list_all record_ok out \<and> distinct (map fst out)"
proof (induction rs raws rule: read_records.induct)
  case (2 rs raw rest)
  then obtain r where "read_record rs raw = Inr r" "read_records (rs @ [r]) rest = Inr out" by (auto simp: bind_sum_eq_Inr)
  with 2 read_record_ok [of rs raw r] show ?case by auto
qed simp

lemma manifest_records_ok:
  assumes "manifest_records manifest = Inr records"
  shows "list_all record_ok records" "distinct (map fst records)" "sorted (map fst records)" "set (map fst FIXED_SOURCES) \<subseteq> fst ` set records"
    "length records \<le> MAX_MEMBERS - 1"
proof -
  obtain raws where raws: "json_get manifest (U ''files'') = JList raws" "length raws \<le> MAX_MEMBERS - 1" "read_records [] raws = Inr records"
    "map fst records = sort (map fst records)" "set (map fst FIXED_SOURCES) \<subseteq> fst ` set records"
    using assms by (auto simp: manifest_records_def bind_sum_eq_Inr split: json.splits if_splits)
  have "length out = length rs + length raws" if "read_records rs raws = Inr out" for rs raws out
    using that by (induction rs raws rule: read_records.induct) (auto simp: bind_sum_eq_Inr)
  with raws(2,3) show "length records \<le> MAX_MEMBERS - 1" by fastforce
  show "list_all record_ok records" "distinct (map fst records)" using read_records_ok [OF raws(3)] by auto
  show "sorted (map fst records)" by (subst raws(4)) simp
  show "set (map fst FIXED_SOURCES) \<subseteq> fst ` set records" by (rule raws(5))
qed

text \<open>The places that an extraction into \<open>D\<close> may touch.\<close>

definition payload_parts :: "path \<Rightarrow> bool" where
  "payload_parts p \<longleftrightarrow> U ''..'' \<notin> set p \<and> (allowed_payload_path p \<or> p \<in> path_parts ` fst ` set TREE_SOURCES)"

definition archive_places :: "'h host_scheme \<Rightarrow> loc \<Rightarrow> loc set" where
  "archive_places h D = insert (D @ [ascii_bytes (U ''manifest.json'')])
     {D @ x | x p q. payload_parts p \<and> is_prefix q (U ''payload'' # p) \<and> q \<noteq> [] \<and> path_bytes h q = Inr x}"

lemma below_places: "below D (archive_places h D)"
  by (auto simp: below_def archive_places_def dest!: length_path_bytes)

lemma codec_dots: "fs_codec h \<Longrightarrow> io_fsencode h c = Inr DOT_DOT \<Longrightarrow> c = U ''..''"
proof -
  assume codec: "fs_codec h" and c: "io_fsencode h c = Inr DOT_DOT"
  have "list_all (\<lambda>x. unat x < 128) DOT_DOT" by (simp add: DOT_DOT_def)
  then have ascii: "isascii c" using codec c unfolding fs_codec_def by blast
  then have "ascii_bytes c = DOT_DOT" using codec_ascii [OF codec] c by simp
  also have "DOT_DOT = ascii_bytes (U ''..'')" by (simp add: DOT_DOT_def ascii_bytes_def U_def)
  finally show ?thesis using ascii_bytes_inject [OF ascii, of "U ''..''"] by (simp add: U_def)
qed

lemma path_bytes_dots: "fs_codec h \<Longrightarrow> path_bytes h q = Inr x \<Longrightarrow> DOT_DOT \<in> set x \<Longrightarrow> U ''..'' \<in> set q"
  by (induction q arbitrary: x) (auto simp: path_bytes_Cons dest: codec_dots)

lemma within_payload: "fs_codec h \<Longrightarrow> payload_parts p \<Longrightarrow> within h D (archive_places h D) (U ''payload'' # p)"
  unfolding within_def
proof (intro allI impI)
  fix q x assume "fs_codec h" and q: "payload_parts p" "is_prefix q (U ''payload'' # p)" "q \<noteq> []" "path_bytes h q = Inr x"
  obtain r where "U ''payload'' # p = q @ r" using q(2) by (auto simp: is_prefix_iff)
  then have "set q \<subseteq> set (U ''payload'' # p)" by (metis Un_upper1 set_append)
  moreover have "U ''..'' \<notin> set (U ''payload'' # p)" using q(1) by (simp add: payload_parts_def) (simp add: U_def)
  ultimately have "DOT_DOT \<notin> set x" using path_bytes_dots [OF \<open>fs_codec h\<close> q(4)] by blast
  with q show "D @ x \<in> archive_places h D \<and> DOT_DOT \<notin> set x" by (auto simp: archive_places_def)
qed

lemma within_manifest: "fs_codec h \<Longrightarrow> within h D (archive_places h D) [U ''manifest.json'']"
proof -
  assume codec: "fs_codec h"
  have "path_bytes h [U ''manifest.json''] = Inr [ascii_bytes (U ''manifest.json'')]"
    using path_bytes_ascii [OF codec, of "[U ''manifest.json'']"] by (simp add: U_def)
  then show ?thesis by (auto simp: within_def archive_places_def is_prefix_iff Cons_eq_append_conv DOT_DOT_def ascii_bytes_def U_def)
qed

lemma record_parts: "record_ok (name, digest, count) \<Longrightarrow> payload_parts (path_parts name)"
  by (auto simp: record_ok_def payload_parts_def dest: member_name_parts(2))

lemma tree_parts: "tree \<in> set TREE_SOURCES \<Longrightarrow> payload_parts (path_parts (fst tree)) \<and> joinpath d (fst tree) = d @ path_parts (fst tree)"
  by (auto simp: TREE_SOURCES_def payload_parts_def joinpath_def is_prefix_def path_parts_def U_def break_at_def)

section \<open>Extraction\<close>

text \<open>The verified files of the payload.\<close>

definition extracted :: "'h archive_host_scheme \<Rightarrow> loc \<Rightarrow> payload_record list \<Rightarrow> (loc \<times> node) set \<Rightarrow> bool" where
  "extracted h D rs F \<longleftrightarrow> (\<forall>q \<in> fst ` F. length D + 1 < length q)
     \<and> (\<forall>(name, digest, count) \<in> set rs. \<exists>x data m. path_bytes h (U ''payload'' # path_parts name) = Inr x
          \<and> (D @ x, File data (io_owner h) m) \<in> F \<and> int (length data) = count \<and> bytes_hex (in_sha256 h data) = digest)"

lemma allowed_not_empty: "allowed_payload_path p \<Longrightarrow> p \<noteq> []"
  by (auto simp: allowed_payload_path_def as_posix_def FIXED_SOURCES_def TREE_SOURCES_def is_prefix_def U_def)

lemma runs_extract_record:
  assumes stage: "stage_at h staging D (archive_places h D) s" and codec: "fs_codec h" and ok: "record_ok r"
  shows "runs (\<lambda>t. \<exists>F. confined (archive_places h D) s F t \<and> extracted h D rs F) (extract_record h ts staging r)
    (\<lambda>_ t. \<exists>F. confined (archive_places h D) s F t \<and> extracted h D (rs @ [r]) F) (confined (archive_places h D) s {})"
proof -
  obtain name digest count where r: "r = (name, digest, count)" using prod_cases3 by blast
  let ?xs = "U ''payload'' # path_parts name" and ?A = "archive_places h D"
  have name: "validated_member_name name = Inr (path_parts name)" "allowed_payload_path (path_parts name)" using ok by (simp_all add: r record_ok_def)
  have dest: "joinpath (staging @ [U ''payload'']) name = staging @ ?xs" using member_name_parts(3) [OF name(1)] by simp
  have inside: "within h D ?A ?xs" using within_payload [OF codec record_parts] ok by (simp add: r)
  have step: "runs (confined ?A s F) (safe_extract_member h m (staging @ ?xs) digest count)
      (\<lambda>_ t. \<exists>F. confined ?A s F t \<and> extracted h D (rs @ [r]) F) (confined ?A s {})" if F: "extracted h D rs F" for F m
  proof (rule runs_weaken [OF runs_extract_member [OF stage inside]])
    fix a t assume "\<exists>x k. path_bytes h ?xs = Inr x \<and> D @ x \<notin> fst ` F \<and> confined ?A s (insert (D @ x, File (tm_data m) (io_owner h) k) F) t
      \<and> int (length (tm_data m)) = count \<and> bytes_hex (in_sha256 h (tm_data m)) = digest"
    then obtain x k where x: "path_bytes h ?xs = Inr x" "confined ?A s (insert (D @ x, File (tm_data m) (io_owner h) k) F) t"
      "int (length (tm_data m)) = count" "bytes_hex (in_sha256 h (tm_data m)) = digest" by blast
    have "length x = Suc (length (path_parts name))" using length_path_bytes [OF x(1)] by simp
    then have long: "length D + 1 < length (D @ x)" using allowed_not_empty [OF name(2)] by (cases "path_parts name") auto
    have "extracted h D (rs @ [r]) (insert (D @ x, File (tm_data m) (io_owner h) k) F)"
      using F x(1,3,4) long unfolding extracted_def r by (fastforce simp: case_prod_beta)
    with x(2) show "\<exists>F. confined ?A s F t \<and> extracted h D (rs @ [r]) F" by blast
  qed (auto intro: confined_less)
  show ?thesis
    unfolding extract_record_def r prod.case dest
  proof (rule runs_pre)
    fix s0 assume "\<exists>F. confined ?A s F s0 \<and> extracted h D rs F"
    then obtain F where F: "confined ?A s F s0" "extracted h D rs F" by blast
    have "runs (confined ?A s F) (bindP (lift_result (getmember ts (U ''payload/'' @ name))) (\<lambda>m.
        if \<not> tm_isfile m then raise ArchiveError else safe_extract_member h m (staging @ ?xs) digest count))
      (\<lambda>_ t. \<exists>F. confined ?A s F t \<and> extracted h D (rs @ [(name, digest, count)]) F) (confined ?A s {})"
      by (rule runs_bind_lift) (auto intro!: runs_intros step [OF F(2), unfolded r] intro: confined_less)
    then show "runs (\<lambda>u. u = s0) (bindP (lift_result (getmember ts (U ''payload/'' @ name))) (\<lambda>m.
        if \<not> tm_isfile m then raise ArchiveError else safe_extract_member h m (staging @ ?xs) digest count))
      (\<lambda>_ t. \<exists>F. confined ?A s F t \<and> extracted h D (rs @ [(name, digest, count)]) F) (confined ?A s {})"
      using F(1) by (rule runs_at)
  qed
qed

lemma runs_for_each:
  assumes "\<And>x rs. x \<in> set xs \<Longrightarrow> runs (P rs) (f x) (\<lambda>_. P (rs @ [x])) E" and "\<And>rs s. P rs s \<Longrightarrow> E s"
  shows "runs (P rs) (for_each f xs) (\<lambda>_. P (rs @ xs)) E"
  using assms(1)
proof (induction xs arbitrary: rs)
  case (Cons x xs)
  show ?case unfolding for_each.simps
    by (rule runs_bind [OF Cons.prems(1)]) (use Cons.IH [of "rs @ [x]"] Cons.prems in auto)
qed (auto intro: runs_intros)

lemma runs_extract_all:
  assumes stage: "stage_at h staging D (archive_places h D) s" and codec: "fs_codec h" and ok: "list_all record_ok records"
  shows "runs (confined (archive_places h D) s {}) (for_each (extract_record h ts staging) records)
    (\<lambda>_ t. \<exists>F. confined (archive_places h D) s F t \<and> extracted h D records F) (confined (archive_places h D) s {})"
proof -
  have "runs (\<lambda>t. \<exists>F. confined (archive_places h D) s F t \<and> extracted h D [] F) (for_each (extract_record h ts staging) records)
    (\<lambda>_ t. \<exists>F. confined (archive_places h D) s F t \<and> extracted h D ([] @ records) F) (confined (archive_places h D) s {})"
    using ok by (intro runs_for_each [where P = "\<lambda>rs t. \<exists>F. confined (archive_places h D) s F t \<and> extracted h D rs F"] runs_extract_record [OF stage codec])
      (auto simp: list_all_iff intro: confined_less)
  then show ?thesis by (rule runs_weaken) (auto simp: extracted_def intro: exI [of _ "{}"])
qed

text \<open>The directories of the trees, and the manifest.\<close>

definition payload_ready :: "'h archive_host_scheme \<Rightarrow> loc \<Rightarrow> fs \<Rightarrow> payload_record list \<Rightarrow> fs \<Rightarrow> bool" where
  "payload_ready h D s records t \<longleftrightarrow> (\<exists>F. confined (archive_places h D) s F t \<and> extracted h D records F)"

lemma runs_exF:
  assumes "\<And>F. extracted h D records F \<Longrightarrow> runs (confined A s F) m (\<lambda>_. confined A s F) (confined A s F)" and "A = archive_places h D"
  shows "runs (payload_ready h D s records) m (\<lambda>_. payload_ready h D s records) (payload_ready h D s records)"
proof (rule runs_pre)
  fix t assume "payload_ready h D s records t"
  then obtain F where F: "confined A s F t" "extracted h D records F" by (auto simp: payload_ready_def assms(2))
  show "runs (\<lambda>u. u = t) m (\<lambda>_. payload_ready h D s records) (payload_ready h D s records)"
    by (rule runs_weaken [OF assms(1) [OF F(2)]]) (use F in \<open>auto simp: payload_ready_def assms(2)\<close>)
qed

lemma runs_tree_dirs:
  assumes stage: "stage_at h staging D (archive_places h D) s" and codec: "fs_codec h"
  shows "runs (payload_ready h D s records)
    (for_each (\<lambda>(archive_prefix, _). path_mkdir h (joinpath (staging @ [U ''payload'']) archive_prefix) 448 True True) TREE_SOURCES)
    (\<lambda>_. payload_ready h D s records) (payload_ready h D s records)"
proof (rule runs_for_each [where P = "\<lambda>_. payload_ready h D s records", unfolded append_Nil])
  fix tree :: "ustr \<times> ustr" and rs :: "(ustr \<times> ustr) list" assume "tree \<in> set TREE_SOURCES"
  then have p: "payload_parts (path_parts (fst tree))" "joinpath (staging @ [U ''payload'']) (fst tree) = staging @ (U ''payload'' # path_parts (fst tree))"
    using tree_parts [of tree] by auto
  have "runs (payload_ready h D s records) (path_mkdir h (staging @ (U ''payload'' # path_parts (fst tree))) 448 True True)
    (\<lambda>_. payload_ready h D s records) (payload_ready h D s records)"
    by (rule runs_exF [OF runs_path_mkdir_within [OF stage within_payload [OF codec p(1)]] refl])
  then show "runs (payload_ready h D s records) (case tree of (archive_prefix, _) \<Rightarrow> path_mkdir h (joinpath (staging @ [U ''payload'']) archive_prefix) 448 True True)
    (\<lambda>_. payload_ready h D s records) (payload_ready h D s records)"
    using p(2) by (cases tree) simp
qed

lemma manifest_place:
  assumes "stage_at h staging D (archive_places h D) s" and "fs_codec h"
  shows "path_bytes h (staging @ [U ''manifest.json'']) = Inr (D @ [ascii_bytes (U ''manifest.json'')])"
    and "D @ [ascii_bytes (U ''manifest.json'')] \<in> archive_places h D"
proof -
  have "path_bytes h [U ''manifest.json''] = Inr [ascii_bytes (U ''manifest.json'')]"
    using path_bytes_ascii [OF assms(2), of "[U ''manifest.json'']"] by (simp add: U_def)
  with assms(1) show "path_bytes h (staging @ [U ''manifest.json'']) = Inr (D @ [ascii_bytes (U ''manifest.json'')])"
    by (simp add: stage_at_def path_bytes_append)
qed (simp add: archive_places_def)

lemma runs_manifest:
  assumes stage: "stage_at h staging D (archive_places h D) s" and codec: "fs_codec h"
  shows "runs (payload_ready h D s records) (path_write_bytes h (staging @ [U ''manifest.json'']) out) (\<lambda>_. payload_ready h D s records) (payload_ready h D s records)"
    and "runs (payload_ready h D s records) (os_chmod h (staging @ [U ''manifest.json'']) m) (\<lambda>_. payload_ready h D s records) (payload_ready h D s records)"
proof -
  let ?A = "archive_places h D" and ?q = "D @ [ascii_bytes (U ''manifest.json'')]"
  have placed: "runs (confined ?A s F) (os_place h True (staging @ [U ''manifest.json''])) (\<lambda>q t. confined ?A s F t \<and> q = ?q) (confined ?A s F)" for F
  proof (rule runs_post [OF runs_place [OF node_pred_confined]])
    fix q t assume "confined ?A s F t \<and> (\<exists>b. path_bytes h (staging @ [U ''manifest.json'']) = Inr b \<and> resolve t True MAX_LINKS [] b = Inr q)"
    then show "confined ?A s F t \<and> q = ?q"
      using stage_resolve [OF stage within_manifest [OF codec], of F t _ True MAX_LINKS q] manifest_place(1) [OF assms] by auto
  qed
  have free: "?q \<notin> fst ` F" if "extracted h D records F" for F
  proof
    assume "?q \<in> fst ` F"
    with that have "length D + 1 < length ?q" unfolding extracted_def by blast
    then show False by simp
  qed
  have change: "confined ?A s F t'" if "extracted h D records F" "confined ?A s F t" "fs_at t' = (fs_at t)(?q \<mapsto> nd)" "\<not> is_link (Some nd)" for F t t' nd
  proof -
    from confined_put [OF that(2) manifest_place(2) [OF assms] free [OF that(1)] that(4,3)] show ?thesis by (rule confined_less) blast
  qed
  have fill: "runs (confined ?A s F) (write_all h ?q out) (\<lambda>_. confined ?A s F) (confined ?A s F)" if "extracted h D records F" for F
    using free [OF that] manifest_place(2) [OF assms] by (intro runs_keeps keeps_write_within) simp_all
  show "runs (payload_ready h D s records) (path_write_bytes h (staging @ [U ''manifest.json'']) out) (\<lambda>_. payload_ready h D s records) (payload_ready h D s records)"
  proof (rule runs_exF [OF _ refl])
    fix F assume F: "extracted h D records F"
    have put: "runs (confined ?A s F) (bindP (modify (fs_put ?q (File [] u k))) (\<lambda>_. write_all h ?q out)) (\<lambda>_. confined ?A s F) (confined ?A s F)" for u k
      by (rule runs_bind [OF runs_modify fill [OF F]]) (rule change [OF F, where nd = "File [] u k"], assumption, simp_all add: fun_eq_iff)
    show "runs (confined ?A s F) (path_write_bytes h (staging @ [U ''manifest.json'']) out) (\<lambda>_. confined ?A s F) (confined ?A s F)"
      unfolding path_write_bytes_def
    proof (rule runs_bind [OF placed], rule runs_assume)
      fix q assume q: "q = ?q"
      show "runs (confined ?A s F) (bindP (gets (\<lambda>s. fs_at s q)) (\<lambda>nd. case nd of
           None \<Rightarrow> bindP (modify (fs_put q (File [] (io_owner h) (438 AND NOT (io_umask h))))) (\<lambda>_. write_all h q out)
         | Some (File _ u m) \<Rightarrow> bindP (modify (fs_put q (File [] u m))) (\<lambda>_. write_all h q out)
         | Some _ \<Rightarrow> raise OSError)) (\<lambda>_. confined ?A s F) (confined ?A s F)"
        unfolding q by (rule runs_bind_gets) (auto intro!: runs_intros runs_at [OF put] split: option.split node.split)
    qed
  qed
  show "runs (payload_ready h D s records) (os_chmod h (staging @ [U ''manifest.json'']) m) (\<lambda>_. payload_ready h D s records) (payload_ready h D s records)"
  proof (rule runs_exF [OF _ refl])
    fix F assume F: "extracted h D records F"
    have mode: "confined ?A s F (change_node ?q (set_mode m) t)" if t: "confined ?A s F t" for t
    proof (cases "map_of (fs_nodes t) ?q")
      case None
      then show ?thesis using t by (simp add: change_node_def)
    next
      case (Some nd)
      then have "fs_at t ?q = Some nd" by (simp add: fs_at_def)
      then have "\<not> is_link (Some (set_mode m nd))"
        using t manifest_place(2) [OF assms] by (cases nd) (auto simp: confined_def set_mode_def)
      moreover have "fs_at (change_node ?q (set_mode m) t) = (fs_at t)(?q \<mapsto> set_mode m nd)"
        using Some by (simp add: change_node_def fun_eq_iff)
      ultimately show ?thesis using change [OF F t] by blast
    qed
    show "runs (confined ?A s F) (os_chmod h (staging @ [U ''manifest.json'']) m) (\<lambda>_. confined ?A s F) (confined ?A s F)"
      unfolding os_chmod_def
      by (rule runs_bind [OF placed], rule runs_assume, rule runs_bind_gets) (auto intro!: runs_intros mode)
  qed
qed

section \<open>The whole validation\<close>

lemma keeps_regular_status [keeps_intros]: "keeps (\<lambda>s. fs_nodes s = N) (regular_status h p)"
  unfolding regular_status_def by (intro keeps_intros)

lemma keeps_sha256_file [keeps_intros]: "keeps (\<lambda>s. fs_nodes s = N) (sha256_file h p)"
  unfolding sha256_file_def by (intro keeps_intros)

lemma keeps_validate_file [keeps_intros]: "keeps (\<lambda>s. fs_nodes s = N) (validate_archive_file h archive owner)"
  unfolding validate_archive_file_def by (intro keeps_intros)

lemma keeps_entries [keeps_intros]: "keeps (\<lambda>s. fs_nodes s = N) (directory_entries h p)"
  unfolding directory_entries_def by (intro keeps_intros)

lemma keeps_json_case [keeps_intros]:
  "(\<And>x. keeps I (f1 x)) \<Longrightarrow> (\<And>x. keeps I (f2 x)) \<Longrightarrow> (\<And>x. keeps I (f3 x)) \<Longrightarrow> (\<And>x. keeps I (f4 x)) \<Longrightarrow> (\<And>x. keeps I (f5 x)) \<Longrightarrow>
   (\<And>x. keeps I (f6 x)) \<Longrightarrow> keeps I n \<Longrightarrow>
   keeps I (case v of JNull \<Rightarrow> n | JBool b \<Rightarrow> f1 b | JInt i \<Rightarrow> f2 i | JFloat t \<Rightarrow> f3 t | JStr t \<Rightarrow> f4 t | JList vs \<Rightarrow> f5 vs | JDict d \<Rightarrow> f6 d)"
  by (cases v) auto

lemma keeps_install_state [keeps_intros]: "keeps (\<lambda>s. fs_nodes s = N) (load_install_state h p)"
  unfolding load_install_state_def by (intro keeps_intros)

lemma keeps_database [keeps_intros]: "keeps (\<lambda>s. fs_nodes s = N) (database_metadata h p)"
  unfolding database_metadata_def by (intro keeps_intros)

lemma children_None: "fs_children s q = [] \<Longrightarrow> fs_at s (q @ [c]) = None"
  by (force simp: fs_children_def fs_at_def filter_empty_conv map_of_eq_None_iff)

lemma empty_stage:
  assumes "fs_wf s" and "path_bytes h staging = Inr D" and "real_dir s D" and "delivers s (directory_entries h staging) []"
  shows "fs_at s (D @ c # p) = None"
proof -
  obtain u u' where u: "fs_at u = fs_at s" "directory_entries h staging u = (Ok [], u')" using assms(4) by (auto simp: delivers_def)
  have "resolve u True MAX_LINKS [] D = Inr D" using resolve_real_dir [OF assms(3)] resolve_cong [of u s] u(1) by simp
  then have "fs_children (fs_calls_update Suc u) D = []"
    using u(2) assms(2) by (auto simp: directory_entries_def bindP_def place_run prog_simps split: if_splits)
  from children_None [OF this, of c] have "fs_at s (D @ [c]) = None" using u(1) by simp
  then show ?thesis using fs_wf_leaf [OF assms(1), of "D @ [c]"] by (cases p) auto
qed

lemma empty_stage_confined:
  assumes "fs_wf s" and "path_bytes h staging = Inr D" and "real_dir s D" and "delivers s (directory_entries h staging) []" and "fs_at t = fs_at s"
  shows "confined (archive_places h D) s {} t"
proof -
  have "fs_at s q = None" if "q \<in> archive_places h D" for q
  proof -
    have "length D < length q" using below_places [of D h] that by (auto simp: below_def)
    moreover from that obtain x where "q = D @ x" by (auto simp: archive_places_def)
    ultimately obtain c p where "q = D @ c # p" by (cases x) auto
    then show ?thesis using empty_stage [OF assms(1-4)] by simp
  qed
  then show ?thesis using assms(5) by (simp add: confined_def)
qed

definition contained :: "loc set \<Rightarrow> fs \<Rightarrow> fs \<Rightarrow> bool" where
  "contained A s t \<longleftrightarrow> (\<forall>q. q \<notin> A \<longrightarrow> fs_at t q = fs_at s q)"

text \<open>What an accepted archive has proved about the extracted tree \<open>t\<close>.\<close>

definition accepted :: "'h archive_host_scheme \<Rightarrow> path \<Rightarrow> path \<Rightarrow> path \<Rightarrow> loc \<Rightarrow> fs \<Rightarrow> int \<Rightarrow> (ustr \<times> json) list \<Rightarrow> fs \<Rightarrow> bool" where
  "accepted h archive staging current_state D s owner manifest t \<longleftrightarrow>
     (\<exists>raw ts records schema version ip.
        delivers s (validate_archive_file h archive owner) () \<and> delivers s (path_read_bytes h archive) raw
        \<and> ah_untar h raw = Inr ts \<and> archive_records h ts = Inr (manifest, records) \<and> payload_ready h D s records t
        \<and> delivers t (database_metadata h (joinpath (staging @ [U ''payload'']) (U ''database/ezopenpn.sqlite3''))) (U ''ok'', schema)
        \<and> json_get manifest (U ''schema_version'') = JStr schema
        \<and> delivers t (load_install_state h (joinpath (staging @ [U ''payload'']) (U ''state/install.json''))) (version, ip)
        \<and> delivers t (load_install_state h current_state) (version, ip)
        \<and> json_get manifest (U ''version'') = JStr version \<and> json_get manifest (U ''public_ipv4'') = JStr ip)"

lemma node_pred_eq: "node_pred (\<lambda>t. fs_at t = fs_at s)"
  by (simp add: node_pred_def)

lemma payload_ready_contained: "payload_ready h D s records t \<Longrightarrow> contained (archive_places h D) s t"
  by (auto simp: payload_ready_def confined_def contained_def)

lemma archive_records_ok: "archive_records h ts = Inr (manifest, records) \<Longrightarrow> manifest_records manifest = Inr records"
  by (auto simp: archive_records_def bind_sum_eq_Inr split: if_splits)

lemma delivers_cong: "fs_at s = fs_at t \<Longrightarrow> delivers s m v = delivers t m v"
  by (simp add: delivers_def)

lemma database_ok: "delivers t (database_metadata h p) (quick, schema) \<Longrightarrow> quick = U ''ok''"
  unfolding delivers_def database_metadata_def
  by (auto elim!: bindP_OkE simp: prog_simps split: if_splits option.splits)

text \<open>The last checks only read.\<close>

lemma runs_final_checks:
  assumes ready: "payload_ready h D s records t1"
    and read: "delivers s (validate_archive_file h archive owner) ()" "delivers s (path_read_bytes h archive) raw" "ah_untar h raw = Inr ts"
      "archive_records h ts = Inr (manifest, records)"
  shows "runs (\<lambda>t. t = t1)
    (bindP (database_metadata h (joinpath (staging @ [U ''payload'']) (U ''database/ezopenpn.sqlite3''))) (\<lambda>(quick, schema).
     if JStr quick \<noteq> json_get manifest (U ''quick_check'') \<or> JStr schema \<noteq> json_get manifest (U ''schema_version'') then raise ArchiveError else
     bindP (load_install_state h (joinpath (staging @ [U ''payload'']) (U ''state/install.json''))) (\<lambda>(archive_version, archive_ip).
     bindP (load_install_state h current_state) (\<lambda>(current_version, current_ip).
     if JStr archive_version \<noteq> json_get manifest (U ''version'') \<or> JStr archive_ip \<noteq> json_get manifest (U ''public_ipv4'')
       \<or> archive_version \<noteq> current_version \<or> archive_ip \<noteq> current_ip then raise ArchiveError
     else ret manifest))))
    (accepted h archive staging current_state D s owner) (contained (archive_places h D) s)"
proof (rule runs_at [where I = "\<lambda>t. fs_at t = fs_at t1"])
  let ?I = "\<lambda>t. fs_at t = fs_at t1" and ?E = "contained (archive_places h D) s"
  have weak: "?E t" if "?I t" for t using payload_ready_contained [OF ready] that by (simp add: contained_def)
  have reading: "runs ?I m (\<lambda>v t. ?I t \<and> delivers t1 m v) ?E" if "\<And>N. keeps (\<lambda>s. fs_nodes s = N) m" for m :: "(fs, 'b) prog"
    by (rule runs_weaken [OF runs_delivers [OF that node_pred_eq]]) (use weak in auto)
  show "runs ?I (bindP (database_metadata h (joinpath (staging @ [U ''payload'']) (U ''database/ezopenpn.sqlite3''))) (\<lambda>(quick, schema).
     if JStr quick \<noteq> json_get manifest (U ''quick_check'') \<or> JStr schema \<noteq> json_get manifest (U ''schema_version'') then raise ArchiveError else
     bindP (load_install_state h (joinpath (staging @ [U ''payload'']) (U ''state/install.json''))) (\<lambda>(archive_version, archive_ip).
     bindP (load_install_state h current_state) (\<lambda>(current_version, current_ip).
     if JStr archive_version \<noteq> json_get manifest (U ''version'') \<or> JStr archive_ip \<noteq> json_get manifest (U ''public_ipv4'')
       \<or> archive_version \<noteq> current_version \<or> archive_ip \<noteq> current_ip then raise ArchiveError
     else ret manifest))))
    (accepted h archive staging current_state D s owner) ?E"
    apply (rule runs_bind [OF reading [OF keeps_database]], rule runs_assume, rule runs_prod, rule runs_if, rule runs_raise, erule weak)
    apply (rule runs_bind [OF reading [OF keeps_install_state]], rule runs_assume, rule runs_prod)
    apply (rule runs_bind [OF reading [OF keeps_install_state]], rule runs_assume, rule runs_prod)
    apply (rule runs_if, rule runs_raise, erule weak, rule runs_ret)
    subgoal premises prems for a quick schema b v ip c w ip2 t
    proof -
      have t: "payload_ready h D s records t" using ready prems(9) by (simp add: payload_ready_def confined_def)
      have facts: "json_get manifest (U ''schema_version'') = JStr schema" "json_get manifest (U ''version'') = JStr v"
        "json_get manifest (U ''public_ipv4'') = JStr ip" "w = v" "ip2 = ip"
        using prems(3,8) by auto
      have reads: "delivers t (database_metadata h (joinpath (staging @ [U ''payload'']) (U ''database/ezopenpn.sqlite3''))) (U ''ok'', schema)"
        "delivers t (load_install_state h (joinpath (staging @ [U ''payload'']) (U ''state/install.json''))) (v, ip)"
        "delivers t (load_install_state h current_state) (v, ip)"
        using prems(1,2,4-7) facts(4,5) database_ok [of t1 h _ quick schema] by (auto simp: delivers_cong [OF prems(9)])
      show ?thesis unfolding accepted_def using read t reads facts(1-3) by blast
    qed
    done
qed simp

lemma runs_validate:
  assumes codec: "fs_codec h" and wf: "fs_wf s" and stage: "path_bytes h staging = Inr D" "real_dir s D"
  shows "runs (\<lambda>t. fs_at t = fs_at s) (validate_and_extract h archive staging current_state owner)
    (accepted h archive staging current_state D s owner) (contained (archive_places h D) s)"
proof -
  let ?I = "\<lambda>t. fs_at t = fs_at s" and ?E = "contained (archive_places h D) s" and ?A = "archive_places h D"
  have at: "stage_at h staging D ?A s" using stage below_places by (simp add: stage_at_def)
  have weak: "?E t" if "?I t" for t using that by (simp add: contained_def)
  have reading: "runs ?I m (\<lambda>v t. ?I t \<and> delivers s m v) ?E" if "\<And>N. keeps (\<lambda>s. fs_nodes s = N) m" for m :: "(fs, 'b) prog"
    by (rule runs_weaken [OF runs_delivers [OF that node_pred_eq]]) (use weak in auto)
  have readings: "runs ?I (validate_archive_file h archive owner) (\<lambda>v t. ?I t \<and> delivers s (validate_archive_file h archive owner) v) ?E"
    "runs ?I (os_stat h False staging) (\<lambda>v t. ?I t \<and> delivers s (os_stat h False staging) v) ?E"
    "runs ?I (directory_entries h staging) (\<lambda>v t. ?I t \<and> delivers s (directory_entries h staging) v) ?E"
    "runs ?I (path_read_bytes h archive) (\<lambda>v t. ?I t \<and> delivers s (path_read_bytes h archive) v) ?E"
    by (rule reading; rule keeps_intros)+
  show ?thesis
    unfolding validate_and_extract_def
    apply (rule runs_bind [OF readings(1)], rule runs_assume)
    apply (rule runs_bind [OF readings(2)], rule runs_assume, rule runs_if, rule runs_raise, erule weak)
    apply (rule runs_bind [OF readings(3)], rule runs_assume, rule runs_if, rule runs_raise, erule weak)
    apply (rule runs_bind [OF readings(4)], rule runs_assume)
    apply (rule runs_bind_lift [OF _ weak])
     apply (rule runs_bind_lift [OF _ weak], rule runs_prod)
    subgoal premises prems for u stage_status inner raw ts mr manifest records
    proof -
      have empty: "delivers s (directory_entries h staging) []" using prems(4,5) by simp
      have checked: "delivers s (validate_archive_file h archive owner) ()" using prems(1) by simp
      have records: "archive_records h ts = Inr (manifest, records)" using prems(8,9) by simp
      then have ok: "list_all record_ok records" using manifest_records_ok(1) archive_records_ok by blast
      have start: "confined ?A s {} t" if "?I t" for t using empty_stage_confined [OF wf stage empty that] .
      have less: "payload_ready h D s records t \<Longrightarrow> ?E t" for t by (rule payload_ready_contained)
      have final: "runs (payload_ready h D s records)
        (bindP (database_metadata h (joinpath (staging @ [U ''payload'']) (U ''database/ezopenpn.sqlite3''))) (\<lambda>(quick, schema).
         if JStr quick \<noteq> json_get manifest (U ''quick_check'') \<or> JStr schema \<noteq> json_get manifest (U ''schema_version'') then raise ArchiveError else
         bindP (load_install_state h (joinpath (staging @ [U ''payload'']) (U ''state/install.json''))) (\<lambda>(archive_version, archive_ip).
         bindP (load_install_state h current_state) (\<lambda>(current_version, current_ip).
         if JStr archive_version \<noteq> json_get manifest (U ''version'') \<or> JStr archive_ip \<noteq> json_get manifest (U ''public_ipv4'')
           \<or> archive_version \<noteq> current_version \<or> archive_ip \<noteq> current_ip then raise ArchiveError
         else ret manifest)))) (accepted h archive staging current_state D s owner) ?E"
        by (rule runs_pre, rule runs_final_checks [OF _ checked prems(6,7) records])
      show ?thesis
        apply (rule runs_then [OF runs_weaken [OF runs_extract_all [OF at codec ok], where I = ?I and Q = "\<lambda>_. payload_ready h D s records" and E = ?E]])
             apply (erule start)
            apply (simp add: payload_ready_def)
           apply (simp add: confined_def contained_def)
          apply assumption
        apply (rule runs_then [OF runs_tree_dirs [OF at codec]], erule less)
        apply (rule runs_bind_lift [OF _ less])
         apply (rule runs_then [OF runs_manifest(1) [OF at codec]], erule less)
         apply (rule runs_then [OF runs_manifest(2) [OF at codec]], erule less)
         apply (rule final)
        apply assumption
        done
    qed
    apply assumption+
    done
qed

section \<open>Termination\<close>

lemma returns_json_case [returns_intros]:
  "(\<And>x. returns (f1 x)) \<Longrightarrow> (\<And>x. returns (f2 x)) \<Longrightarrow> (\<And>x. returns (f3 x)) \<Longrightarrow> (\<And>x. returns (f4 x)) \<Longrightarrow> (\<And>x. returns (f5 x)) \<Longrightarrow>
   (\<And>x. returns (f6 x)) \<Longrightarrow> returns n \<Longrightarrow>
   returns (case v of JNull \<Rightarrow> n | JBool b \<Rightarrow> f1 b | JInt i \<Rightarrow> f2 i | JFloat t \<Rightarrow> f3 t | JStr t \<Rightarrow> f4 t | JList vs \<Rightarrow> f5 vs | JDict d \<Rightarrow> f6 d)"
  by (cases v) auto

lemma returns_regular_status [returns_intros]: "returns (regular_status h p)"
  unfolding regular_status_def by (intro returns_intros)

lemma returns_sha256_file [returns_intros]: "returns (sha256_file h p)"
  unfolding sha256_file_def by (intro returns_intros)

lemma returns_validate_file [returns_intros]: "returns (validate_archive_file h archive owner)"
  unfolding validate_archive_file_def by (intro returns_intros)

lemma returns_install_state [returns_intros]: "returns (load_install_state h p)"
  unfolding load_install_state_def by (intro returns_intros)

lemma returns_database [returns_intros]: "returns (database_metadata h p)"
  unfolding database_metadata_def by (intro returns_intros)

lemma returns_entries [returns_intros]: "returns (directory_entries h p)"
  unfolding directory_entries_def by (intro returns_intros)

lemma returns_extract_loop [returns_intros]: "returns (extract_loop h q err expected n cs)"
  by (induction cs arbitrary: n) (auto intro!: returns_intros simp: Let_def split: option.split)

lemma returns_extract_record [returns_intros]: "returns (extract_record h ts staging r)"
  unfolding extract_record_def safe_extract_member_def by (intro returns_intros)

lemma returns_validate: "returns (validate_and_extract h archive staging current_state owner)"
  unfolding validate_and_extract_def by (intro returns_intros)

end
