(* ===== verification/Restore_Facts.thy ===== *)
theory Restore_Facts
  imports Restore Archive_Facts Replace_Facts
begin

text \<open>
  What applying a payload does to the tree. The single files are replaced whole, with the staged data; the two trees are
  swapped within a region of their own, the tree and hidden names beside it. The staged tree is plain: it has no links, and
  its names are proper.
\<close>

section \<open>The staged tree\<close>

definition proper_name :: "bytes \<Rightarrow> bool" where
  "proper_name b \<longleftrightarrow> b \<noteq> [] \<and> b \<noteq> [46] \<and> b \<noteq> DOT_DOT \<and> 47 \<notin> set b"

definition plain_tree :: "fs \<Rightarrow> loc \<Rightarrow> bool" where
  "plain_tree s D \<longleftrightarrow> real_dir s D \<and> (\<forall>x nd. fs_at s (D @ x) = Some nd \<longrightarrow> \<not> is_link (Some nd) \<and> list_all proper_name x)"

text \<open>A region is apart from a directory when no place of it is above or below.\<close>

definition apart :: "loc \<Rightarrow> loc set \<Rightarrow> bool" where
  "apart D Z \<longleftrightarrow> (\<forall>q \<in> Z. \<not> is_prefix D q \<and> \<not> is_prefix q D)"

lemma apart_same:
  assumes "apart D Z" and "\<And>q. q \<notin> Z \<Longrightarrow> fs_at t q = fs_at s q"
  shows "fs_at t (D @ x) = fs_at s (D @ x)" "fs_at t (take k D) = fs_at s (take k D)"
  using assms unfolding apart_def is_prefix_iff by (metis, metis append_take_drop_id)

lemma plain_apart: "plain_tree s D \<Longrightarrow> apart D Z \<Longrightarrow> (\<And>q. q \<notin> Z \<Longrightarrow> fs_at t q = fs_at s q) \<Longrightarrow> plain_tree t D"
  using apart_same [of D Z t s] unfolding plain_tree_def real_dir_def by metis

lemma resolve_plain:
  assumes "plain_tree t D" and "DOT_DOT \<notin> set x" and "resolve t follow n [] (D @ x) = Inr r"
  shows "r = D @ x"
proof -
  have real: "real_dir t D" using assms(1) by (simp add: plain_tree_def)
  have "\<not> is_link (fs_at t (D @ take k x))" for k
    using assms(1) by (cases "fs_at t (D @ take k x)") (auto simp: plain_tree_def)
  then show ?thesis using resolve_below [of x t D follow n r] resolve_real [OF real, of follow n x] assms(2,3) by simp
qed

text \<open>A path that shows the file with the given data whenever it leads to something.\<close>

definition shows_file :: "'h host_scheme \<Rightarrow> (fs \<Rightarrow> bool) \<Rightarrow> path \<Rightarrow> bytes \<Rightarrow> bool" where
  "shows_file h I p data \<longleftrightarrow> (\<forall>t b q nd. I t \<longrightarrow> path_bytes h p = Inr b \<longrightarrow> resolve t False MAX_LINKS [] b = Inr q \<longrightarrow> fs_at t q = Some nd
     \<longrightarrow> (\<exists>u m. nd = File data u m))"

lemma runs_stat:
  assumes "node_pred I" and "\<And>s. I s \<Longrightarrow> E s"
  shows "runs I (os_stat h follow p) (\<lambda>nd s. I s \<and> (\<exists>b q. path_bytes h p = Inr b \<and> resolve s follow MAX_LINKS [] b = Inr q \<and> fs_at s q = Some nd)) E"
  unfolding os_stat_def
  by (rule runs_bind [OF runs_place [OF assms]]) (auto intro!: runs_intros runs_bind_gets assms(2))

lemma runs_stat_shown:
  assumes "node_pred I" and "shows_file h I p data"
  shows "runs I (os_stat h False p) (\<lambda>nd s. I s \<and> (\<exists>u m. nd = File data u m)) I"
  by (rule runs_post [OF runs_stat [OF assms(1)]]) (use assms(2) in \<open>auto simp: shows_file_def\<close>)

section \<open>Directories that are there\<close>

lemma runs_mkdir_there:
  assumes "node_pred I" and "\<And>t. I t \<Longrightarrow> real_dir t d" and "path_bytes h p = Inr d"
  shows "runs I (path_mkdir h p m parents True) (\<lambda>_. I) I"
proof -
  have top: "runs I (os_mkdir h p m) (\<lambda>r t. I t \<and> r \<noteq> Inl ENOENT) I"
  proof (rule runs_pre)
    fix t assume t: "I t"
    have "is_dir (fs_at t d)" "resolve t False MAX_LINKS [] d = Inr d"
      using assms(2) [OF t] real_dir_is_dir resolve_real_dir by auto
    then show "runs (\<lambda>u. u = t) (os_mkdir h p m) (\<lambda>r t. I t \<and> r \<noteq> Inl ENOENT) I"
      using node_pred_calls [OF assms(1) t, of Suc] by (auto simp: runs_def mkdir_run assms(3))
  qed
  show ?thesis
    by (subst path_mkdir.simps, rule runs_bind [OF top], rule runs_pre)
      (auto intro!: runs_intros runs_bind [OF runs_at [OF runs_reads [OF keeps_probe assms(1)]]])
qed

lemma resolve_leaf_file:
  "real_dir s d \<Longrightarrow> c \<noteq> DOT_DOT \<Longrightarrow> \<not> is_link (fs_at s (d @ [c])) \<Longrightarrow> resolve s follow n [] (d @ [c]) = Inr (d @ [c])"
  by (auto simp: resolve_real split: option.splits node.splits)

section \<open>Installing a file\<close>

lemma runs_regular_status: "node_pred I \<Longrightarrow> (\<And>s. I s \<Longrightarrow> E s) \<Longrightarrow> runs I (regular_status h p) (\<lambda>_. I) E"
  by (rule runs_reads) (auto intro: keeps_intros)

lemma runs_copy_loop:
  assumes "q \<in> T" and "q \<noteq> []"
  shows "runs (held T s q (File x u m)) (copy_loop h q n cs) (\<lambda>_. held T s q (File (x @ concat cs) u m)) (intact T s)"
proof (induction cs arbitrary: x n)
  case Nil
  show ?case unfolding copy_loop.simps
    by (rule runs_bind [OF runs_fault [OF node_pred_held held_intact]]) (auto intro: runs_intros)
next
  case (Cons c cs)
  show ?case unfolding copy_loop.simps Let_def
    apply (rule runs_bind [OF runs_fault [OF node_pred_held held_intact]], assumption)
    apply (rule runs_if, rule runs_raise, erule held_intact)
    apply (rule runs_bind [OF runs_write_held [OF assms]])
    using Cons [of "x @ c"] by simp
qed

lemma runs_safe_copy:
  assumes codec: "fs_codec h" and name: "path_bytes h p = Inr (d @ [c])" "last p \<noteq> []" and dir: "real_dir s d"
    and temp: "\<And>q. path_bytes h tp = Inr q \<Longrightarrow> q \<in> T \<and> beside h p d q" "butlast tp = butlast p"
    and source: "shows_file h (intact T s) src data"
  shows "runs (intact T s) (safe_copy h src tp)
    (\<lambda>_ t. \<exists>q m. path_bytes h tp = Inr q \<and> held T s q (File data (io_owner h) m) t) (intact T s)"
proof -
  let ?I = "intact T s" and ?m = "384 AND NOT (io_umask h)"
  have new: "runs ?I (os_create h tp 384) (\<lambda>q t. path_bytes h tp = Inr q \<and> held T s q (File [] (io_owner h) ?m) t) ?I"
    unfolding os_create_def
    by (rule runs_bind [OF runs_open_held [OF codec name dir temp(1)]], assumption) (auto intro!: runs_intros)
  have mkdir: "runs ?I (path_mkdir h (butlast tp) 448 True True) (\<lambda>_. ?I) ?I"
    unfolding temp(2) by (rule runs_mkdir_there [OF node_pred_intact _ path_bytes_last(2) [OF name(1)]]) (blast intro: real_dir_untouched [OF dir])
  have copy: "runs (\<lambda>t. path_bytes h tp = Inr q \<and> held T s q (File [] (io_owner h) ?m) t)
      (bindP (copy_loop h q 0 (chunks CHUNK data)) (\<lambda>count. bindP (os_fsync h q) (\<lambda>_. ret (bytes_hex (in_sha256 h data), count))))
      (\<lambda>_ t. \<exists>q m. path_bytes h tp = Inr q \<and> held T s q (File data (io_owner h) m) t) ?I" for q
  proof (rule runs_pre)
    fix s1 assume s1: "path_bytes h tp = Inr q \<and> held T s q (File [] (io_owner h) ?m) s1"
    then have q: "q \<in> T" "q \<noteq> []" using temp(1) by (auto simp: beside_def)
    have all: "[] @ concat (chunks CHUNK data) = data" by (simp add: concat_chunks CHUNK_pos)
    show "runs (\<lambda>t. t = s1) (bindP (copy_loop h q 0 (chunks CHUNK data)) (\<lambda>count. bindP (os_fsync h q) (\<lambda>_. ret (bytes_hex (in_sha256 h data), count))))
      (\<lambda>_ t. \<exists>q m. path_bytes h tp = Inr q \<and> held T s q (File data (io_owner h) m) t) ?I"
      by (rule runs_bind [OF runs_at [OF runs_copy_loop [OF q, of s "[]", unfolded all]]], use s1 in blast)
        (use s1 all in \<open>auto intro!: runs_bind [OF runs_fsync [OF node_pred_held held_intact]] runs_ret\<close>)
  qed
  show ?thesis unfolding safe_copy_def
    apply (rule runs_bind [OF runs_regular_status [OF node_pred_intact]], assumption)
    apply (rule runs_bind [OF mkdir])
    apply (rule runs_bind [OF runs_stat_shown [OF node_pred_intact source]], rule runs_assume)
    apply (rule runs_if, rule runs_raise, assumption)
    apply (rule runs_bind [OF new])
    using copy by auto
qed

lemma runs_own_held:
  assumes real: "\<And>t. intact T s t \<Longrightarrow> real_dir t d" and q: "q \<in> T" "q = d @ [x]" "x \<noteq> DOT_DOT" "path_bytes h tp = Inr q"
  shows "runs (held T s q (File y u m0)) (os_chmod h tp m) (\<lambda>_. held T s q (File y u m)) (intact T s)"
    and "runs (held T s q (File y u m)) (apply_owner h tp u') (\<lambda>_. held T s q (File y (if fst (io_owner h) = 0 then u' else u) m)) (intact T s)"
proof -
  have place: "runs (held T s q (File y u m)) (os_place h follow tp) (\<lambda>r t. held T s q (File y u m) t \<and> r = q) (intact T s)" for follow u m
    by (rule runs_post [OF runs_place [OF node_pred_held held_intact]], assumption)
      (use q resolve_leaf_file [OF real, of _ x] in \<open>force simp: held_def\<close>)
  have change: "runs (held T s q (File y u m)) (bindP (gets (\<lambda>s. fs_at s q)) (\<lambda>nd. if nd = None then raise OSError else modify (change_node q f)))
      (\<lambda>_. held T s q (f (File y u m))) (intact T s)" for f u m
    by (rule runs_bind_gets, rule runs_if, simp add: held_def, rule runs_at [OF runs_change]) (use q in auto)
  show "runs (held T s q (File y u m0)) (os_chmod h tp m) (\<lambda>_. held T s q (File y u m)) (intact T s)"
    unfolding os_chmod_def
    by (rule runs_bind [OF place], rule runs_assume) (use change [of u m0 "set_mode m"] in \<open>simp add: set_mode_def\<close>)
  have "runs (held T s q (File y u m)) (os_chown h tp u') (\<lambda>_. held T s q (File y u' m)) (intact T s)"
    unfolding os_chown_def
    by (rule runs_bind [OF place], rule runs_assume) (use change [of u m "set_owner u'"] in \<open>simp add: set_owner_def\<close>)
  then show "runs (held T s q (File y u m)) (apply_owner h tp u') (\<lambda>_. held T s q (File y (if fst (io_owner h) = 0 then u' else u) m)) (intact T s)"
    unfolding apply_owner_def by (auto intro: runs_intros)
qed

text \<open>The file that an installation leaves, and the hidden places it may use.\<close>

definition installed :: "'h host_scheme \<Rightarrow> bytes \<Rightarrow> mode \<Rightarrow> owner \<Rightarrow> node" where
  "installed h data m u = File data (if fst (io_owner h) = 0 then u else io_owner h) m"

definition side_places :: "'h host_scheme \<Rightarrow> path \<Rightarrow> loc \<Rightarrow> loc set" where
  "side_places h p d = {q. beside h p d q}"

lemma side_path_beside:
  assumes "path_bytes h p = Inr (d @ [c])" and "path_bytes h (side_path h tag p n) = Inr q"
  shows "q \<in> side_places h p d \<and> beside h p d q"
  using assms(2) path_bytes_last(2) [OF assms(1)]
  by (auto simp: side_path_def side_places_def beside_def path_bytes_append path_bytes_Cons)

lemma runs_install_file:
  assumes codec: "fs_codec h" and name: "path_bytes h p = Inr (d @ [c])" "last p \<noteq> []" "c \<noteq> DOT_DOT" and dir: "real_dir s d"
    and source: "shows_file h (intact (side_places h p d) s) src data"
  defines "T \<equiv> side_places h p d"
  shows "runs (\<lambda>t. fs_at t = fs_at s \<and> fs_wf t) (install_file h src p m u) (\<lambda>_. replaced T s (d @ [c]) (installed h data m u))
    (\<lambda>t. intact T s t \<or> replaced T s (d @ [c]) (installed h data m u) t)"
proof -
  let ?A = "intact T s" and ?nd = "installed h data m u"
  let ?F = "replaced T s (d @ [c]) ?nd"
  let ?body = "\<lambda>tp. bindP (safe_copy h src tp) (\<lambda>_. bindP (os_chmod h tp m) (\<lambda>_. bindP (apply_owner h tp u) (\<lambda>_. os_replace h tp p)))"
  have real: "real_dir t d" if "?A t" for t using real_dir_untouched [OF dir] that by blast
  have inner: "runs ?A (finallyP (?body tp) (path_unlink h tp True)) (\<lambda>_. ?F) (\<lambda>t. ?A t \<or> ?F t)" if tp: "tp = side_path h (U ''restore'') p n" for tp n
  proof (cases "path_bytes h tp")
    case (Inl e)
    have copy: "runs ?A (safe_copy h src tp) (\<lambda>_ _. False) ?A"
      by (rule runs_weaken [OF runs_safe_copy [OF codec name(1,2) dir _ _ source [folded T_def], of tp]]) (use Inl in \<open>auto simp: tp side_path_def\<close>)
    have clean: "runs ?A (path_unlink h tp True) (\<lambda>_. ?A) ?A"
      by (rule runsI) (simp_all add: path_unlink_def bindP_def unlink_run Inl)
    have "runs ?A (?body tp) (\<lambda>_ _. False) ?A"
      by (rule runs_bind [OF copy]) (simp add: runs_def)
    then show ?thesis
      by (rule runs_finally [where E = ?A]) (auto simp: runs_def [of "\<lambda>_. False"] intro: runs_weaken [OF clean])
  next
    case (Inr q)
    then have q: "q \<in> T" "beside h p d q" using side_path_beside [OF name(1)] by (auto simp: tp T_def)
    obtain x where x: "q = d @ [x]" "x \<noteq> DOT_DOT" using besideE [OF q(2) codec name(1,2)] by blast
    note clean = runs_unlink_held [OF codec name(1,2) dir q Inr, of ?nd]
    have copy: "runs ?A (safe_copy h src tp) (\<lambda>_ t. \<exists>m. held T s q (File data (io_owner h) m) t) (\<lambda>t. ?A t \<or> ?F t)"
      by (rule runs_weaken [OF runs_safe_copy [OF codec name(1,2) dir _ _ source [folded T_def], of tp]]) (use Inr q tp in \<open>auto simp: side_path_def\<close>)
    have "runs ?A (?body tp) (\<lambda>_. ?F) (\<lambda>t. ?A t \<or> ?F t)"
    proof (rule runs_bind [OF copy], rule runs_pre)
      fix a s1 assume "\<exists>m. held T s q (File data (io_owner h) m) s1"
      then obtain m0 where s1: "held T s q (File data (io_owner h) m0) s1" by blast
      note own = runs_own_held [OF real q(1) x Inr]
      have "runs (held T s q (File data (io_owner h) m0)) (bindP (os_chmod h tp m) (\<lambda>_. bindP (apply_owner h tp u) (\<lambda>_. os_replace h tp p))) (\<lambda>_. ?F) ?A"
        unfolding installed_def
        by (rule runs_bind [OF own(1)], assumption, rule runs_bind [OF own(2)], assumption, rule runs_replace_held [OF codec name dir q Inr])
      from runs_at [OF this s1] show "runs (\<lambda>t. t = s1) (bindP (os_chmod h tp m) (\<lambda>_. bindP (apply_owner h tp u) (\<lambda>_. os_replace h tp p))) (\<lambda>_. ?F) (\<lambda>t. ?A t \<or> ?F t)"
        by (rule runs_weaken) auto
    qed
    then show ?thesis by (rule runs_finally) (auto intro: runs_weaken [OF clean(2)] clean(1))
  qed
  have mkdir: "runs ?A (path_mkdir h (butlast p) 511 True True) (\<lambda>_. ?A) ?A"
    using runs_mkdir_there [OF node_pred_intact real path_bytes_last(2) [OF name(1)]] by blast
  show ?thesis unfolding install_file_def
    apply (rule runs_weaken [where I' = ?A and E' = "\<lambda>t. ?A t \<or> ?F t"])
       apply (rule runs_then [OF runs_regular_status [OF node_pred_intact]], assumption, simp)
       apply (rule runs_then [OF mkdir], simp)
       apply (rule runs_bind_gets, rule runs_at [OF inner], rule refl, assumption)
      apply (simp_all add: untouched_def)
    done
qed

end
