(* ===== verification/Swap_Facts.thy ===== *)
theory Swap_Facts
  imports Restore_Facts
begin

text \<open>
  Swapping a tree stays in its region: the tree and the hidden names beside it, with everything below them. The copy is
  prepared in a fresh directory without links, so no path into it leads out of it.
\<close>

section \<open>The region of a tree\<close>

definition tree_region :: "'h host_scheme \<Rightarrow> path \<Rightarrow> loc \<Rightarrow> bytes \<Rightarrow> loc set" where
  "tree_region h p P c = {q. \<exists>r \<in> insert (P @ [c]) (side_places h p P). is_prefix r q}"

definition swap_at :: "'h host_scheme \<Rightarrow> path \<Rightarrow> loc \<Rightarrow> bytes \<Rightarrow> fs \<Rightarrow> bool" where
  "swap_at h p P c s \<longleftrightarrow> fs_codec h \<and> path_bytes h p = Inr (P @ [c]) \<and> last p \<noteq> [] \<and> c \<noteq> DOT_DOT \<and> real_dir s P"

definition outside :: "loc set \<Rightarrow> fs \<Rightarrow> fs \<Rightarrow> bool" where
  "outside R s t \<longleftrightarrow> (\<forall>q. q \<notin> R \<longrightarrow> fs_at t q = fs_at s q) \<and> fs_wf t"

lemma node_pred_outside: "node_pred (outside R s)"
  unfolding node_pred_def outside_def using wf_cong by metis

lemma is_prefix_trans: "is_prefix r q \<Longrightarrow> is_prefix r (q @ x)"
  by (auto simp: is_prefix_iff)

lemma region_below: "q \<in> tree_region h p P c \<Longrightarrow> q @ x \<in> tree_region h p P c"
  by (auto simp: tree_region_def intro: is_prefix_trans)

lemma region_root: "q = P @ [c] \<or> beside h p P q \<Longrightarrow> q \<in> tree_region h p P c"
  by (auto simp: tree_region_def side_places_def intro: is_prefix_refl)

lemma region_deep: "q \<in> tree_region h p P c \<Longrightarrow> length P < length q"
  by (auto simp: tree_region_def side_places_def beside_def is_prefix_iff)

lemma outside_real: "swap_at h p P c s \<Longrightarrow> outside (tree_region h p P c) s t \<Longrightarrow> real_dir t P"
  unfolding swap_at_def outside_def by (metis real_dir_cong region_deep length_take min.cobounded1 not_less)

text \<open>A root of the region is a name in \<open>P\<close> and not the parent directory.\<close>

lemma root_name:
  assumes "swap_at h p P c s" and "q = P @ [c] \<or> beside h p P q"
  obtains x where "q = P @ [x]" "x \<noteq> DOT_DOT"
  using assms besideE unfolding swap_at_def by metis

lemma resolve_root:
  assumes "swap_at h p P c s" and "outside (tree_region h p P c) s t" and "q = P @ [c] \<or> beside h p P q"
  shows "resolve t False MAX_LINKS [] q = Inr q"
  using root_name [OF assms(1,3)] resolve_leaf [OF outside_real [OF assms(1,2)]] by metis

lemma outside_put:
  assumes "outside R s t" and "q \<in> R" and "is_dir (fs_at t (butlast q))" and "is_dir (fs_at t q) \<Longrightarrow> is_dir (Some nd)" and "fs_at t' = (fs_at t)(q \<mapsto> nd)"
  shows "outside R s t'"
  using assms wf_put [OF _ assms(3-5)] by (auto simp: outside_def)

lemma outside_remove:
  assumes "outside R s t" and "q \<in> R" and "\<not> is_dir (fs_at t q) \<or> fs_children t q = []" and "fs_at t' = (fs_at t)(q := None)"
  shows "outside R s t'"
proof -
  have "fs_wf t'" if empty: "fs_children t q = []"
    unfolding fs_wf_def
  proof (intro allI impI)
    fix z nd assume z: "fs_at t' z = Some nd" "z \<noteq> []"
    then have here: "fs_at t z = Some nd" "z \<noteq> q" using assms(4) by (auto split: if_splits)
    then have "butlast z \<noteq> q" using children_None [OF empty, of "last z"] z(2) by (metis append_butlast_last_id option.distinct(1))
    then show "is_dir (fs_at t' (butlast z))" using assms(1,4) here z(2) by (auto simp: outside_def fs_wf_def)
  qed
  then show ?thesis using assms wf_remove [OF _ _ assms(4)] by (auto simp: outside_def)
qed

section \<open>Moving\<close>

lemma wf_move:
  assumes wf: "fs_wf s" and ne: "q \<noteq> []" "r \<noteq> []" and apart: "\<not> is_prefix q r" "\<not> is_prefix r q" and dir: "is_dir (fs_at s (butlast r))"
  shows "fs_wf (fs_move q r s)"
  unfolding fs_wf_def
proof (intro allI impI)
  fix z nd assume z: "fs_at (fs_move q r s) z = Some nd" "z \<noteq> []"
  note move = fs_at_move [OF ne apart, of s]
  have up: "is_prefix x z" if "is_prefix x (butlast z)" for x
    using that z(2) by (metis append_butlast_last_id is_prefix_trans)
  show "is_dir (fs_at (fs_move q r s) (butlast z))"
  proof (cases "is_prefix r z")
    case True
    then obtain y where y: "z = r @ y" by (auto simp: is_prefix_iff)
    have here: "fs_at s (q @ y) = Some nd" using z(1) True by (simp add: move y)
    show ?thesis
    proof (cases "y = []")
      case True
      have "\<not> is_prefix r (butlast r)" using ne(2) by (metis append_butlast_last_id append_eq_append_conv2 append_self_conv is_prefix_iff last_snoc not_Cons_self2 self_append_conv2 append_is_Nil_conv)
      moreover have "\<not> is_prefix q (butlast r)" using apart(1) ne(2) by (metis append_butlast_last_id is_prefix_trans)
      ultimately show ?thesis using True dir by (simp add: move y)
    next
      case False
      then have "is_dir (fs_at s (q @ butlast y))" using wf here by (auto simp: fs_wf_def butlast_append dest: spec [of _ "q @ y"])
      then show ?thesis using False by (simp add: move y butlast_append is_prefix_def)
    qed
  next
    case False
    then have "fs_at s z = Some nd" "\<not> is_prefix q z" using z(1) by (auto simp: move split: if_splits)
    moreover have "\<not> is_prefix r (butlast z)" "\<not> is_prefix q (butlast z)" using up False calculation(2) by blast+
    ultimately show ?thesis using wf z(2) by (simp add: move fs_wf_def)
  qed
qed

lemma keeps_runs: "runs I m (\<lambda>_. I) I \<Longrightarrow> keeps I m"
  using runs_any [of I m "\<lambda>_. I" I] by (intro keepsI) (metis prod.collapse)

lemma runs_place_root:
  assumes at: "swap_at h p P c s" and root: "\<And>q. path_bytes h a = Inr q \<Longrightarrow> q = P @ [c] \<or> beside h p P q"
  shows "runs (outside (tree_region h p P c) s) (os_place h False a)
    (\<lambda>q t. outside (tree_region h p P c) s t \<and> (path_bytes h a = Inr q \<and> (q = P @ [c] \<or> beside h p P q))) (outside (tree_region h p P c) s)"
proof (rule runs_post [OF runs_place [OF node_pred_outside]])
  fix q t assume t: "outside (tree_region h p P c) s t \<and> (\<exists>b. path_bytes h a = Inr b \<and> resolve t False MAX_LINKS [] b = Inr q)"
  then obtain b where b: "path_bytes h a = Inr b" "resolve t False MAX_LINKS [] b = Inr q" by blast
  with resolve_root [OF at _ root [OF b(1)], of t] t root [OF b(1)]
  show "outside (tree_region h p P c) s t \<and> (path_bytes h a = Inr q \<and> (q = P @ [c] \<or> beside h p P q))" by auto
qed assumption

lemma outside_move:
  assumes at: "swap_at h p P c s" and t: "outside (tree_region h p P c) s t"
    and roots: "q = P @ [c] \<or> beside h p P q" "r = P @ [c] \<or> beside h p P r" and neq: "q \<noteq> r"
  shows "outside (tree_region h p P c) s (fs_move q r t)"
proof -
  obtain x where x: "q = P @ [x]" using root_name [OF at roots(1)] by blast
  obtain y where y: "r = P @ [y]" using root_name [OF at roots(2)] by blast
  have apart: "\<not> is_prefix q r" "\<not> is_prefix r q" using neq by (auto simp: x y is_prefix_iff)
  have "is_dir (fs_at t (butlast r))" using real_dir_is_dir [OF outside_real [OF at t]] by (simp add: y)
  then have "fs_wf (fs_move q r t)" using t apart by (intro wf_move) (simp_all add: outside_def x y)
  moreover have "fs_at (fs_move q r t) z = fs_at t z" if "z \<notin> tree_region h p P c" for z
  proof -
    have "\<not> is_prefix r z" "\<not> is_prefix q z" using that roots by (auto simp: tree_region_def side_places_def)
    then show ?thesis using fs_at_move [OF _ _ apart, of t z] by (simp add: x y)
  qed
  ultimately show ?thesis using t by (simp add: outside_def)
qed

lemma keeps_replace_root:
  assumes at: "swap_at h p P c s" and roots: "\<And>q. path_bytes h a = Inr q \<Longrightarrow> q = P @ [c] \<or> beside h p P q" "\<And>q. path_bytes h b = Inr q \<Longrightarrow> q = P @ [c] \<or> beside h p P q"
  shows "keeps (outside (tree_region h p P c) s) (os_replace h a b)"
proof (rule keeps_runs)
  let ?I = "outside (tree_region h p P c) s"
  have act: "runs ?I (bindP (gets (\<lambda>s. (fs_at s q, fs_at s r, fs_children s r))) (\<lambda>(source, target, inner).
       if source = None then raise OSError
       else if q = r then ret ()
       else if is_dir source \<and> (is_prefix q r \<or> target \<noteq> None \<and> \<not> is_dir target \<or> inner \<noteq> []) then raise OSError
       else if \<not> is_dir source \<and> is_dir target then raise OSError
       else modify (fs_move q r))) (\<lambda>_. ?I) ?I"
    if "q = P @ [c] \<or> beside h p P q" "r = P @ [c] \<or> beside h p P r" for q r
    by (rule runs_bind [OF runs_gets [where Q = "\<lambda>_. ?I"]], assumption) (auto intro!: runs_intros outside_move [OF at _ that])
  show "runs ?I (os_replace h a b) (\<lambda>_. ?I) ?I"
    unfolding os_replace_def
    apply (rule runs_bind [OF runs_place_root [OF at roots(1)]], assumption, rule runs_assume)
    apply (rule runs_bind [OF runs_place_root [OF at roots(2)]], assumption, rule runs_assume)
    apply (rule act, simp_all)
    done
qed

section \<open>Removing\<close>

lemma keeps_unlink_at: "q \<in> R \<Longrightarrow> q \<noteq> [] \<Longrightarrow> keeps (outside R s) (os_unlink_at h q)"
  unfolding os_unlink_at_def
  by (intro keeps_runs runs_bind [OF runs_fault [OF node_pred_outside]] runs_bind_gets)
    (auto intro!: runs_intros elim: outside_remove simp: fun_eq_iff)

lemma keeps_rmdir_at: "q \<in> R \<Longrightarrow> q \<noteq> [] \<Longrightarrow> keeps (outside R s) (os_rmdir_at h q)"
  unfolding os_rmdir_at_def
  by (intro keeps_runs runs_bind [OF runs_fault [OF node_pred_outside]] runs_bind_gets)
    (auto intro!: runs_intros elim: outside_remove simp: fun_eq_iff)

lemma keeps_remove_tree: "q \<in> tree_region h' p P c \<Longrightarrow> keeps (outside (tree_region h' p P c) s) (remove_tree h n q)"
proof (induction n arbitrary: q)
  case (Suc n)
  have ne: "q \<noteq> []" using region_deep [OF Suc.prems] by auto
  have fault: "keeps (outside (tree_region h' p P c) s) (os_fault h)" by (rule keeps_runs [OF runs_fault [OF node_pred_outside]])
  show ?case unfolding remove_tree.simps
    using Suc.IH [OF region_below [OF Suc.prems]] keeps_unlink_at [OF region_below [OF Suc.prems]] keeps_rmdir_at [OF Suc.prems ne] fault
    by (auto intro!: keeps_intros)
qed (auto intro: keeps_intros)

lemma keeps_rmtree:
  assumes at: "swap_at h p P c s" and root: "\<And>q. path_bytes h a = Inr q \<Longrightarrow> q = P @ [c] \<or> beside h p P q"
  shows "keeps (outside (tree_region h p P c) s) (rmtree h a)"
proof (rule keeps_runs)
  let ?I = "outside (tree_region h p P c) s"
  show "runs ?I (rmtree h a) (\<lambda>_. ?I) ?I"
    unfolding rmtree_def
    apply (rule runs_bind [OF runs_place_root [OF at root]], assumption, rule runs_assume)
    apply (rule runs_bind [OF runs_gets [where Q = "\<lambda>_. ?I"]], assumption)
    apply (rule runs_prod, rule runs_if, rule runs_raise, assumption, rule runs_keeps, rule keeps_remove_tree, rule region_root, blast)
    done
qed

section \<open>The fresh directory\<close>

text \<open>The copy is prepared at \<open>a\<close>: a directory without links in it.\<close>

definition fresh :: "loc set \<Rightarrow> fs \<Rightarrow> loc \<Rightarrow> fs \<Rightarrow> bool" where
  "fresh R s a t \<longleftrightarrow> outside R s t \<and> is_dir (fs_at t a) \<and> (\<forall>x nd. fs_at t (a @ x) = Some nd \<longrightarrow> \<not> is_link (Some nd) \<and> DOT_DOT \<notin> set x)"

lemma node_pred_fresh: "node_pred (fresh R s a)"
  unfolding node_pred_def
proof (intro allI impI)
  fix t u assume "fs_at t = fs_at u"
  then show "fresh R s a t = fresh R s a u" using node_predD [OF node_pred_outside, of t u R s] by (simp add: fresh_def)
qed

lemma fresh_outside: "fresh R s a t \<Longrightarrow> outside R s t"
  by (simp add: fresh_def)

text \<open>Texts of paths that do not climb.\<close>

definition stays :: "'h host_scheme \<Rightarrow> path \<Rightarrow> bool" where
  "stays h xs \<longleftrightarrow> list_all (\<lambda>c. io_fsencode h c \<noteq> Inr DOT_DOT) xs"

lemma stays_bytes: "stays h xs \<Longrightarrow> path_bytes h xs = Inr x \<Longrightarrow> DOT_DOT \<notin> set x"
  by (induction xs arbitrary: x) (auto simp: stays_def path_bytes_Cons)

lemma stays_take: "stays h xs \<Longrightarrow> stays h (take k xs)"
  unfolding stays_def list_all_iff using set_take_subset [of k xs] by blast

definition fresh_at :: "'h host_scheme \<Rightarrow> path \<Rightarrow> loc \<Rightarrow> bytes \<Rightarrow> fs \<Rightarrow> path \<Rightarrow> loc \<Rightarrow> bool" where
  "fresh_at h p P c s tp a \<longleftrightarrow> swap_at h p P c s \<and> beside h p P a \<and> path_bytes h tp = Inr a"

lemma fresh_name:
  assumes "fresh_at h p P c s tp a"
  obtains y where "a = P @ [y]" "y \<noteq> DOT_DOT"
  using assms root_name [of h p P c s a] unfolding fresh_at_def by blast

lemma fresh_region: "fresh_at h p P c s tp a \<Longrightarrow> a @ x \<in> tree_region h p P c"
  unfolding fresh_at_def by (blast intro: region_below region_root)

lemma real_dir_snoc: "real_dir t P \<Longrightarrow> y \<noteq> DOT_DOT \<Longrightarrow> is_dir (fs_at t (P @ [y])) \<Longrightarrow> real_dir t (P @ [y])"
  by (auto simp: real_dir_def le_Suc_eq)

lemma real_dir_take: "real_dir t P \<Longrightarrow> real_dir t (take k P)"
  using set_take_subset [of k P] by (auto simp: real_dir_def)

lemma fresh_real: "fresh_at h p P c s tp a \<Longrightarrow> fresh (tree_region h p P c) s a t \<Longrightarrow> real_dir t a"
  by (metis fresh_name fresh_at_def fresh_def outside_real real_dir_snoc)

lemma resolve_fresh:
  assumes at: "fresh_at h p P c s tp a" and t: "fresh (tree_region h p P c) s a t" and xs: "stays h xs" "path_bytes h (tp @ xs) = Inr b"
    and r: "resolve t follow n [] b = Inr r"
  obtains x where "path_bytes h xs = Inr x" "b = a @ x" "r = a @ x" "DOT_DOT \<notin> set x"
proof -
  obtain x where x: "path_bytes h xs = Inr x" "b = a @ x" using at xs(2) by (auto simp: fresh_at_def path_bytes_append)
  have dots: "DOT_DOT \<notin> set x" using stays_bytes [OF xs(1) x(1)] .
  have "\<not> is_link (fs_at t (a @ take k x))" for k using t by (cases "fs_at t (a @ take k x)") (auto simp: fresh_def)
  then have "r = a @ x" using resolve_below [of x t a follow n r] resolve_real [OF fresh_real [OF at t], of follow n x] r dots by (simp add: x(2))
  with x dots that show thesis by blast
qed

text \<open>A path that leads somewhere leads into a directory.\<close>

lemma resolve_parent:
  "fs_wf s \<Longrightarrow> is_dir (fs_at s at) \<Longrightarrow> resolve s follow n at q = Inr r \<Longrightarrow> is_dir (fs_at s (butlast r))"
proof (induction s follow n at q rule: resolve.induct)
  case (1 s follow n at)
  then show ?case by (cases "at = []") (auto simp: is_dir_iff fs_wf_def)
next
  case (2 s follow n at c rest)
  have "is_dir (fs_at s (butlast at))" using 2(4,5) by (cases "at = []") (auto simp: is_dir_iff fs_wf_def)
  with 2 show ?case by (auto split: if_splits option.splits node.splits)
qed

lemma fresh_put:
  assumes at: "fresh_at h p P c s tp a" and t: "fresh (tree_region h p P c) s a t"
    and nd: "DOT_DOT \<notin> set x" "\<not> is_link (Some nd)" "is_dir (fs_at t (butlast (a @ x)))" "is_dir (fs_at t (a @ x)) \<Longrightarrow> is_dir (Some nd)"
    and t': "fs_at t' = (fs_at t)(a @ x \<mapsto> nd)"
  shows "fresh (tree_region h p P c) s a t'"
proof -
  have "outside (tree_region h p P c) s t'"
    by (rule outside_put [OF fresh_outside [OF t] fresh_region [OF at] nd(3,4) t'])
  moreover have "is_dir (fs_at t' a)" using t nd(4) by (auto simp: t' fresh_def)
  ultimately show ?thesis using t nd(1,2) by (auto simp: fresh_def t')
qed

lemma keeps_mkdir_if:
  assumes "node_pred I" and "\<And>t b q nd. I t \<Longrightarrow> path_bytes h z = Inr b \<Longrightarrow> resolve t False MAX_LINKS [] b = Inr q \<Longrightarrow> fs_at t q = None \<Longrightarrow> I (fs_put q (Dir u m') t)"
    and "u = io_owner h" "m' = m AND NOT (io_umask h)"
  shows "keeps I (os_mkdir h z m)"
proof (rule keepsI)
  fix t assume t: "I t"
  have "I (fs_calls_update Suc t)" using node_pred_calls [OF assms(1) t] .
  with t assms(2) [of "fs_calls_update Suc t"] show "I (snd (os_mkdir h z m t))"
    by (auto simp: mkdir_run assms(3,4) split: sum.split)
qed

lemma keeps_mkdir_fresh:
  assumes at: "fresh_at h p P c s tp a" and xs: "stays h xs"
  shows "keeps (fresh (tree_region h p P c) s a) (os_mkdir h (take k (tp @ xs)) m)"
proof (rule keeps_mkdir_if [OF node_pred_fresh _ refl refl])
  let ?F = "fresh (tree_region h p P c) s a"
  fix t b q assume t: "?F t" and b: "path_bytes h (take k (tp @ xs)) = Inr b" "resolve t False MAX_LINKS [] b = Inr q" "fs_at t q = None"
  have tp: "path_bytes h tp = Inr a" "length tp = length a" using at length_path_bytes by (fastforce simp: fresh_at_def)+
  show "?F (fs_put q (Dir (io_owner h) (m AND NOT (io_umask h))) t)"
  proof (cases "k \<le> length tp")
    case True
    then have "b = take k a" using b(1) path_bytes_take [OF tp(1), of k] by simp
    moreover have "real_dir t (take k a)" by (rule real_dir_take [OF fresh_real [OF at t]])
    ultimately show ?thesis using b(2,3) resolve_real_dir real_dir_is_dir by fastforce
  next
    case False
    then have b': "path_bytes h (tp @ take (k - length tp) xs) = Inr b" using b(1) by simp
    obtain x where x: "b = a @ x" "q = a @ x" "DOT_DOT \<notin> set x" using resolve_fresh [OF at t stays_take [OF xs] b' b(2)] by blast
    have "is_dir (fs_at t (butlast q))" using resolve_parent [OF _ _ b(2)] t by (simp add: fresh_def outside_def)
    moreover have "q \<noteq> []" using x(2) at by (auto elim: fresh_name)
    ultimately show ?thesis using x b(3) by (intro fresh_put [OF at t x(3)]) (auto simp: fun_eq_iff)
  qed
qed

lemma keeps_path_mkdir:
  assumes "node_pred I" and "\<And>k m. keeps I (os_mkdir h (take k p) m)"
  shows "keeps I (path_mkdir h p m parents exist_ok)"
  using assms(2)
proof (induction h p m parents exist_ok rule: path_mkdir.induct)
  case (1 h p m parents exist_ok)
  have probe: "keeps I (path_probe h follow test p)" for follow test p by (rule keeps_runs [OF runs_reads [OF keeps_probe assms(1)]])
  have "keeps I (os_mkdir h p m)" using 1(3) [of "length p" m] by simp
  moreover have "keeps I (os_mkdir h (take k (butlast p)) m)" for k m
    using 1(3) [of "min k (length p - 1)" m] by (simp add: butlast_conv_take)
  ultimately show ?case using 1(1,2) 1(3) probe
    by (subst path_mkdir.simps) (auto intro!: keeps_intros split: sum.splits)
qed

section \<open>Copying into the fresh directory\<close>

lemma runs_mkdtemp:
  assumes at: "swap_at h p P c s"
  defines "R \<equiv> tree_region h p P c"
  shows "runs (outside R s) (mkdtemp h (U ''.'' @ last p @ U ''.restore-'') (butlast p))
    (\<lambda>tp t. \<exists>a. fresh_at h p P c s tp a \<and> fresh R s a t) (outside R s)"
proof -
  have p: "path_bytes h p = Inr (P @ [c])" using at by (simp add: swap_at_def)
  have new: "\<exists>a. fresh_at h p P c s tp a \<and> fresh R s a (fs_put q (Dir u m) t)"
    if tp: "tp = butlast p @ [(U ''.'' @ last p @ U ''.restore-'') @ io_random_name h k]"
      and t: "outside R s t" "path_bytes h tp = Inr b" "resolve t False MAX_LINKS [] b = Inr q" "fs_at t q = None" for tp k t b q u m
  proof -
    have "(U ''.'' @ last p @ U ''.restore-'') @ io_random_name h k = U ''.'' @ last p @ U ''.'' @ U ''restore-'' @ io_random_name h k"
      by (simp add: U_def)
    then have b: "beside h p P b" using t(2) path_bytes_last(2) [OF p] by (auto simp: tp path_bytes_append path_bytes_Cons beside_def)
    then have q: "q = b" using resolve_root [OF at t(1) [unfolded R_def]] t(3) by simp
    obtain y where y: "b = P @ [y]" using root_name [OF at] b by blast
    have "is_dir (fs_at t P)" using real_dir_is_dir [OF outside_real [OF at]] t(1) by (simp add: R_def)
    then have "outside R s (fs_put q (Dir u m) t)"
      by (intro outside_put [OF t(1), of q "Dir u m"]) (use region_root [of b P c h p] b in \<open>simp_all add: R_def q y fun_eq_iff\<close>)
    moreover have "fs_at t (b @ x) = None" if "x \<noteq> []" for x
      using fs_wf_leaf [of t b "hd x" "tl x"] t(1,4) that by (simp add: outside_def q)
    then have "fs_at (fs_put q (Dir u m) t) (b @ x) = Some nd \<longrightarrow> \<not> is_link (Some nd) \<and> DOT_DOT \<notin> set x" for x nd
      by (cases "x = []") (auto simp: q y)
    ultimately have "fresh R s b (fs_put q (Dir u m) t)" by (simp add: fresh_def q y)
    with b t(2) at show ?thesis by (auto simp: fresh_at_def)
  qed
  have loop: "runs (outside R s) (mkdtemp_loop h n (butlast p) (U ''.'' @ last p @ U ''.restore-''))
    (\<lambda>tp t. \<exists>a. fresh_at h p P c s tp a \<and> fresh R s a t) (outside R s)" for n
  proof (induction n)
    case 0
    show ?case by (simp add: runs_raise)
  next
    case (Suc n)
    have step: "runs (outside R s) (bindP (os_mkdir h tp 448) (\<lambda>r. case r of Inr _ \<Rightarrow> ret tp
        | Inl e \<Rightarrow> if e = EEXIST then mkdtemp_loop h n (butlast p) (U ''.'' @ last p @ U ''.restore-'') else raise OSError))
      (\<lambda>tp t. \<exists>a. fresh_at h p P c s tp a \<and> fresh R s a t) (outside R s)"
      if tp: "tp = butlast p @ [(U ''.'' @ last p @ U ''.restore-'') @ io_random_name h k]" for tp k
    proof (rule runs_bind)
      show "runs (outside R s) (os_mkdir h tp 448) (\<lambda>r t. case r of Inl e \<Rightarrow> outside R s t | Inr _ \<Rightarrow> \<exists>a. fresh_at h p P c s tp a \<and> fresh R s a t) (outside R s)"
      proof (rule runs_pre)
        fix t assume t: "outside R s t"
        then have "outside R s (fs_calls_update Suc t)" by (rule node_pred_calls [OF node_pred_outside])
        then show "runs (\<lambda>u. u = t) (os_mkdir h tp 448) (\<lambda>r t. case r of Inl e \<Rightarrow> outside R s t | Inr _ \<Rightarrow> \<exists>a. fresh_at h p P c s tp a \<and> fresh R s a t) (outside R s)"
          using new [OF tp, of "fs_calls_update Suc t"] t by (auto simp: runs_def mkdir_run split: sum.splits if_splits)
      qed
      show "runs (\<lambda>t. case r of Inl e \<Rightarrow> outside R s t | Inr _ \<Rightarrow> \<exists>a. fresh_at h p P c s tp a \<and> fresh R s a t)
        (case r of Inr _ \<Rightarrow> ret tp | Inl e \<Rightarrow> if e = EEXIST then mkdtemp_loop h n (butlast p) (U ''.'' @ last p @ U ''.restore-'') else raise OSError)
        (\<lambda>tp t. \<exists>a. fresh_at h p P c s tp a \<and> fresh R s a t) (outside R s)" for r
        using Suc by (cases r) (auto intro!: runs_intros)
    qed
    show ?case
      unfolding mkdtemp_loop.simps by (intro runs_bind_gets runs_at [OF step]) (simp, assumption)
  qed
  show ?thesis unfolding mkdtemp_def by (rule loop)
qed

lemma runs_create_fresh:
  assumes at: "fresh_at h p P c s tp a" and xs: "stays h xs"
  shows "runs (fresh (tree_region h p P c) s a) (os_create h (tp @ xs) m)
    (\<lambda>q t. fresh (tree_region h p P c) s a t \<and> (\<exists>x. q = a @ x \<and> DOT_DOT \<notin> set x)) (fresh (tree_region h p P c) s a)"
  unfolding os_create_def
proof (rule runs_bind [OF runs_open_new [OF node_pred_fresh]], assumption)
  let ?F = "fresh (tree_region h p P c) s a" and ?nd = "File [] (io_owner h) (m AND NOT (io_umask h))"
  fix r
  have "?F t \<and> (\<exists>x. q = a @ x \<and> DOT_DOT \<notin> set x)"
    if q: "?F s0" "path_bytes h (tp @ xs) = Inr b" "resolve s0 False MAX_LINKS [] b = Inr q" "fs_at s0 q = None" "t = fs_put q ?nd s0" for s0 b q t
  proof -
    obtain x where "path_bytes h xs = Inr x" "b = a @ x" and x: "q = a @ x" "DOT_DOT \<notin> set x" by (rule resolve_fresh [OF at q(1) xs q(2,3)])
    have "is_dir (fs_at s0 (butlast q))" using resolve_parent [OF _ _ q(3)] q(1) by (simp add: fresh_def outside_def)
    moreover have "q \<noteq> []" using x(1) at by (auto elim: fresh_name)
    moreover have "fs_at t = (fs_at s0)(q \<mapsto> ?nd)" using q(5) calculation(2) by (simp add: fun_eq_iff)
    ultimately have "?F t" unfolding x(1) by (intro fresh_put [OF at q(1) x(2), of ?nd]) (use q(4) x(1) in simp_all)
    with x show ?thesis by blast
  qed
  note new = this
  show "runs (\<lambda>t. case r of Inl e \<Rightarrow> ?F t
      | Inr q \<Rightarrow> \<exists>s0 b. ?F s0 \<and> path_bytes h (tp @ xs) = Inr b \<and> resolve s0 False MAX_LINKS [] b = Inr q \<and> fs_at s0 q = None \<and> t = fs_put q ?nd s0)
    (case r of Inl e \<Rightarrow> raise OSError | Inr q \<Rightarrow> ret q) (\<lambda>q t. ?F t \<and> (\<exists>x. q = a @ x \<and> DOT_DOT \<notin> set x)) ?F"
  proof (cases r)
    case (Inr q)
    show ?thesis unfolding Inr sum.case by (rule runs_ret) (elim exE conjE, rule new)
  qed (simp add: runs_raise)
qed

lemma keeps_write_fresh:
  assumes at: "fresh_at h p P c s tp a" and q: "q = a @ x" "DOT_DOT \<notin> set x"
  shows "keeps (fresh (tree_region h p P c) s a) (write_all h' q y)"
proof -
  let ?F = "fresh (tree_region h p P c) s a"
  have append: "?F (append_data q z t)" if t: "?F t" for t z
  proof (cases "fs_at t q")
    case (Some nd)
    show ?thesis
    proof (cases nd)
      case (File d u m)
      have ne: "q \<noteq> []" using q(1) at by (auto elim: fresh_name)
      then have "is_dir (fs_at t (butlast q))" using t Some by (auto simp: fresh_def outside_def fs_wf_def)
      then show ?thesis using Some File ne q
        by (intro fresh_put [OF at t q(2), of "File (d @ z) u m"]) (auto simp: append_data_def fun_eq_iff)
    qed (use t Some in \<open>simp_all add: append_data_def\<close>)
  qed (use t in \<open>simp add: append_data_def\<close>)
  have "keeps ?F (write_loop h' q n y)" for n
  proof (induction n arbitrary: y)
    case (Suc n)
    have "keeps ?F (os_write h' q y)"
      using append node_pred_calls [OF node_pred_fresh] by (intro keepsI) (simp add: write_run Let_def)
    then show ?case using Suc by (auto intro!: keeps_intros)
  qed (auto intro!: keeps_intros)
  then show ?thesis by (simp add: write_all_def)
qed

lemma keeps_reads_fresh: "(\<And>N. keeps (\<lambda>s. fs_nodes s = N) m) \<Longrightarrow> keeps (fresh R s a) m"
  by (rule keeps_runs [OF runs_reads [OF _ node_pred_fresh]])

lemma keeps_copy_fresh:
  assumes at: "fresh_at h p P c s tp a" and xs: "stays h xs" "xs \<noteq> []"
  shows "keeps (fresh (tree_region h p P c) s a) (safe_copy h src (tp @ xs))"
proof (rule keeps_runs)
  let ?F = "fresh (tree_region h p P c) s a"
  have mkdir: "keeps ?F (path_mkdir h (butlast (tp @ xs)) 448 True True)"
  proof -
    have "butlast (tp @ xs) = tp @ take (length xs - 1) xs" using xs(2) by (simp add: butlast_append butlast_conv_take [of xs])
    then show ?thesis using keeps_path_mkdir [OF node_pred_fresh keeps_mkdir_fresh [OF at stays_take [OF xs(1)]]] by metis
  qed
  have fault: "keeps ?F (os_fault h)" "keeps ?F (os_fsync h q)" for q by (auto intro: keeps_reads_fresh keeps_intros)
  have loop: "keeps ?F (copy_loop h q n cs)" if "q = a @ x" "DOT_DOT \<notin> set x" for q x n cs
    using fault keeps_write_fresh [OF at that] by (induction cs arbitrary: n) (auto intro!: keeps_intros simp: Let_def)
  have rest: "runs (\<lambda>t. ?F t \<and> (\<exists>x. q = a @ x \<and> DOT_DOT \<notin> set x)) (case opened of
       File data _ _ \<Rightarrow> bindP (copy_loop h q 0 (chunks CHUNK data)) (\<lambda>count. bindP (os_fsync h q) (\<lambda>_. ret (bytes_hex (in_sha256 h data), count)))
     | _ \<Rightarrow> raise ArchiveError) (\<lambda>_. ?F) ?F" for q opened
    using loop fault by (intro runs_assume) (auto intro!: runs_keeps keeps_intros split: node.splits)
  show "runs ?F (safe_copy h src (tp @ xs)) (\<lambda>_. ?F) ?F"
    unfolding safe_copy_def
    apply (rule runs_bind [OF runs_keeps [OF keeps_reads_fresh [OF keeps_regular_status]]])
    apply (rule runs_bind [OF runs_keeps [OF mkdir]])
    apply (rule runs_bind [OF runs_keeps [OF keeps_reads_fresh [OF keeps_stat]]])
    apply (rule runs_if, rule runs_raise, assumption)
    apply (rule runs_bind [OF runs_create_fresh [OF at xs(1)] rest])
    done
qed

section \<open>Owners and modes\<close>

lemma keeps_change_fresh:
  assumes at: "fresh_at h p P c s tp a" and q: "q = a @ x" "DOT_DOT \<notin> set x"
    and f: "\<And>nd. is_dir (Some (f nd)) = is_dir (Some nd)" "\<And>nd. is_link (Some (f nd)) = is_link (Some nd)"
  shows "keeps (fresh (tree_region h p P c) s a) (modify (change_node q f))"
proof (rule keeps_runs, rule runs_modify)
  let ?F = "fresh (tree_region h p P c) s a"
  fix t assume t: "?F t"
  have ne: "q \<noteq> []" using q(1) at by (auto elim: fresh_name)
  show "?F (change_node q f t)"
  proof (cases "fs_at t q")
    case None
    then show ?thesis using t ne by (simp add: change_node_def fs_at_def)
  next
    case (Some nd)
    then have "is_dir (fs_at t (butlast q))" "\<not> is_link (Some nd)" using t ne q(1) by (auto simp: fresh_def outside_def fs_wf_def)
    moreover have "fs_at (change_node q f t) = (fs_at t)(q \<mapsto> f nd)" using fs_at_change [OF ne Some] .
    ultimately show ?thesis using Some f unfolding q(1) by (intro fresh_put [OF at t q(2)]) simp_all
  qed
qed

lemma runs_place_fresh:
  assumes at: "fresh_at h p P c s tp a" and xs: "stays h xs"
  shows "runs (fresh (tree_region h p P c) s a) (os_place h follow (tp @ xs))
    (\<lambda>q t. fresh (tree_region h p P c) s a t \<and> (\<exists>x. q = a @ x \<and> DOT_DOT \<notin> set x)) (fresh (tree_region h p P c) s a)"
proof (rule runs_post [OF runs_place [OF node_pred_fresh]], assumption)
  fix q t assume t: "fresh (tree_region h p P c) s a t \<and> (\<exists>b. path_bytes h (tp @ xs) = Inr b \<and> resolve t follow MAX_LINKS [] b = Inr q)"
  then obtain b where b: "path_bytes h (tp @ xs) = Inr b" "resolve t follow MAX_LINKS [] b = Inr q" by blast
  obtain x where "path_bytes h xs = Inr x" "b = a @ x" "q = a @ x" "DOT_DOT \<notin> set x" using at conjunct1 [OF t] xs b by (rule resolve_fresh)
  with t show "fresh (tree_region h p P c) s a t \<and> (\<exists>x. q = a @ x \<and> DOT_DOT \<notin> set x)" by blast
qed

lemma keeps_own_node:
  assumes at: "fresh_at h p P c s tp a" and xs: "stays h xs"
  shows "keeps (fresh (tree_region h p P c) s a) (own_node h (tp @ xs) m u)"
proof -
  let ?F = "fresh (tree_region h p P c) s a"
  have change: "runs (\<lambda>t. ?F t \<and> (\<exists>x. q = a @ x \<and> DOT_DOT \<notin> set x))
      (bindP (gets (\<lambda>s. fs_at s q)) (\<lambda>nd. if nd = None then raise OSError else modify (change_node q f))) (\<lambda>_. ?F) ?F"
    if "\<And>nd. is_dir (Some (f nd)) = is_dir (Some nd)" "\<And>nd. is_link (Some (f nd)) = is_link (Some nd)" for q f
    using keeps_change_fresh [OF at _ _ that] by (intro runs_assume) (auto intro!: runs_keeps keeps_intros)
  have kind: "is_dir (Some (set_mode k nd)) = is_dir (Some nd)" "is_link (Some (set_mode k nd)) = is_link (Some nd)"
    "is_dir (Some (set_owner w nd)) = is_dir (Some nd)" "is_link (Some (set_owner w nd)) = is_link (Some nd)" for nd k and w :: owner
    by (cases nd; simp add: set_mode_def set_owner_def)+
  have "runs ?F (os_chmod h (tp @ xs) m) (\<lambda>_. ?F) ?F" "runs ?F (os_chown h (tp @ xs) u) (\<lambda>_. ?F) ?F"
    unfolding os_chmod_def os_chown_def by (rule runs_bind [OF runs_place_fresh [OF at xs] change], rule kind, rule kind)+
  from this [THEN keeps_runs] show ?thesis unfolding own_node_def apply_owner_def by (auto intro!: keeps_intros)
qed

lemma children_at: "(name, nd) \<in> set (fs_children t q) \<Longrightarrow> \<exists>nd'. fs_at t (q @ [name]) = Some nd'"
proof -
  assume "(name, nd) \<in> set (fs_children t q)"
  then obtain z where "(z, nd) \<in> set (fs_nodes t)" "z \<noteq> []" "butlast z = q" "last z = name" by (auto simp: fs_children_def)
  then have "z = q @ [name]" "map_of (fs_nodes t) z \<noteq> None" by (auto simp: map_of_eq_None_iff intro: image_eqI [of z fst "(z, nd)"])
  then show ?thesis by (auto simp: fs_at_def)
qed

text \<open>Something is at the given depth below \<open>a\<close>.\<close>

definition used :: "fs \<Rightarrow> loc \<Rightarrow> nat \<Rightarrow> bool" where
  "used t a n \<longleftrightarrow> (\<exists>z nd. length z = n \<and> fs_at t (a @ z) = Some nd)"

lemma runs_scan_fresh:
  assumes at: "fresh_at h p P c s tp a" and xs: "stays h xs"
  shows "runs (fresh (tree_region h p P c) s a) (scan_dir h (tp @ xs))
    (\<lambda>l t. fresh (tree_region h p P c) s a t \<and> (\<forall>entries. l = Some entries \<longrightarrow> (\<forall>(name, d) \<in> set entries. stays h (xs @ [name]) \<and> used t a (Suc (length xs))))) (fresh (tree_region h p P c) s a)"
  unfolding scan_dir_def
proof (rule runs_bind [OF runs_locate [OF node_pred_fresh]], assumption)
  let ?F = "fresh (tree_region h p P c) s a"
  fix r
  have codec: "io_fsencode h (io_fsdecode h n) = Inr n" for n using at by (simp add: fresh_at_def swap_at_def fs_codec_def)
  have names: "stays h (xs @ [io_fsdecode h n]) \<and> used t a (Suc (length xs))" if t: "?F t" "path_bytes h (tp @ xs) = Inr b" "resolve t True MAX_LINKS [] b = Inr q" "(n, nd) \<in> set (fs_children t q)" for t b q n nd
  proof -
    obtain x where x: "path_bytes h xs = Inr x" "b = a @ x" and q: "q = a @ x" "DOT_DOT \<notin> set x" using at t(1) xs t(2,3) by (rule resolve_fresh)
    obtain nd' where here: "fs_at t (a @ (x @ [n])) = Some nd'" using children_at [OF t(4)] by (auto simp: q(1))
    then have "DOT_DOT \<notin> set (x @ [n])" using t(1) unfolding fresh_def by blast
    moreover have "used t a (Suc (length xs))" using here length_path_bytes [OF x(1)] unfolding used_def by (intro exI [of _ "x @ [n]"]) auto
    ultimately show ?thesis using xs by (auto simp: stays_def codec)
  qed
  show "runs (\<lambda>t. ?F t \<and> (r = Inl EIO \<or> (\<exists>b. path_bytes h (tp @ xs) = Inr b \<and> r = resolve t True MAX_LINKS [] b)))
    (case r of Inl _ \<Rightarrow> ret None | Inr q \<Rightarrow> gets (\<lambda>s. if is_dir (fs_at s q)
         then Some (map (\<lambda>(name, _). (io_fsdecode h name, entry_is_dir s (q @ [name]))) (fs_children s q)) else None))
    (\<lambda>l t. ?F t \<and> (\<forall>entries. l = Some entries \<longrightarrow> (\<forall>(name, d) \<in> set entries. stays h (xs @ [name]) \<and> used t a (Suc (length xs))))) ?F"
  proof (cases r)
    case (Inr q)
    show ?thesis unfolding Inr sum.case by (rule runs_gets) (auto dest: names [OF _ _ sym])
  qed (auto intro!: runs_intros)
qed

lemma keeps_each: "(\<And>x. x \<in> set xs \<Longrightarrow> keeps I (f x)) \<Longrightarrow> keeps I (for_each f xs)"
  by (induction xs) (auto intro!: keeps_intros)

lemma keeps_own_listed:
  assumes "fresh_at h p P c s tp a" and "stays h xs" and "\<forall>(name, d) \<in> set entries. stays h (xs @ [name])"
  shows "keeps (fresh (tree_region h p P c) s a) (own_listed h (tp @ xs) entries u)"
proof -
  have "keeps (fresh (tree_region h p P c) s a) (own_node h (tp @ xs @ [name]) m u)" if "name \<in> set (map fst (filter Q entries))" for name m Q
    by (rule keeps_own_node [OF assms(1)]) (use that assms(3) in auto)
  then show ?thesis unfolding own_listed_def append_assoc by (intro keeps_bindP keeps_each keeps_own_node [OF assms(1,2)])
qed

lemma keeps_own_tree:
  assumes at: "fresh_at h p P c s tp a" and xs: "stays h xs"
  shows "keeps (fresh (tree_region h p P c) s a) (own_tree h n (tp @ xs) u)"
  using xs
proof (induction n arbitrary: xs)
  case 0
  show ?case by (auto intro: keeps_intros)
next
  case (Suc n)
  let ?F = "fresh (tree_region h p P c) s a"
  have scanned: "?F t \<and> (\<forall>entries. l = Some entries \<longrightarrow> (\<forall>(name, d) \<in> set entries. stays h (xs @ [name])))"
    if "?F t \<and> (\<forall>entries. l = Some entries \<longrightarrow> (\<forall>(name, d) \<in> set entries. stays h (xs @ [name]) \<and> used t a (Suc (length xs))))"
    for l :: "(ustr \<times> bool) list option" and t using that by fast
  show ?case unfolding own_tree.simps append_assoc
  proof (intro keeps_runs runs_bind [OF runs_post [OF runs_scan_fresh [OF at Suc.prems]]], erule scanned, rule runs_assume, rule runs_option)
    fix listing :: "(ustr \<times> bool) list option" and entries
    assume "\<forall>entries. listing = Some entries \<longrightarrow> (\<forall>(name, d) \<in> set entries. stays h (xs @ [name]))" "listing = Some entries"
    then have good: "\<forall>(name, d) \<in> set entries. stays h (xs @ [name])" by blast
    have "keeps ?F (own_tree h n (tp @ xs @ [name]) u)" if "name \<in> set (map fst (filter snd entries))" for name
      by (rule Suc.IH) (use that good in auto)
    then show "runs ?F (bindP (own_listed h (tp @ xs) entries u) (\<lambda>_.
       for_each (\<lambda>name. bindP (catch (path_is_symlink h (tp @ xs @ [name])) (\<lambda>_. ret False)) (\<lambda>link.
         if link then ret () else own_tree h n (tp @ xs @ [name]) u)) (map fst (filter snd entries)))) (\<lambda>_. ?F) ?F"
      by (intro runs_keeps keeps_bindP keeps_each keeps_catch keeps_if keeps_ret keeps_own_listed [OF at Suc.prems good] keeps_reads_fresh [OF keeps_probe])
  qed (auto intro: runs_intros)
qed

section \<open>The files of a plain tree\<close>

definition good_text :: "'h host_scheme \<Rightarrow> ustr \<Rightarrow> bool" where
  "good_text h c \<longleftrightarrow> c \<noteq> [] \<and> c \<noteq> [46] \<and> io_fsencode h c \<noteq> Inr DOT_DOT \<and> 47 \<notin> set c"

lemma decoded_good:
  assumes "fs_codec h" and "proper_name b"
  shows "good_text h (io_fsdecode h b)"
proof -
  let ?c = "io_fsdecode h b"
  have enc: "io_fsencode h ?c = Inr b" using assms(1) by (simp add: fs_codec_def)
  have ascii: "?c = t \<Longrightarrow> isascii t \<Longrightarrow> b = ascii_bytes t" for t using enc codec_ascii [OF assms(1), of t] by simp
  have "47 \<notin> set ?c"
  proof
    assume "47 \<in> set ?c"
    then obtain u v where "?c = u @ [47] @ v" by (auto dest: split_list)
    then obtain x y where "b = x @ ascii_bytes [47] @ y"
      using enc codec_append [OF assms(1), of u "[47] @ v" b] codec_append [OF assms(1), of "[47]" v] codec_ascii [OF assms(1), of "[47]"] by (auto simp: isascii_def)
    then show False using assms(2) by (simp add: proper_name_def ascii_bytes_def)
  qed
  moreover have "?c \<noteq> []" "?c \<noteq> [46]" using ascii [of "[]"] ascii [of "[46]"] assms(2) by (auto simp: proper_name_def ascii_bytes_def isascii_def)
  ultimately show ?thesis using enc assms(2) by (simp add: good_text_def proper_name_def)
qed

lemma joinpath_good:
  assumes "xs \<noteq> []" and "list_all (good_text h) xs"
  shows "joinpath p (as_posix xs) = p @ xs"
proof -
  have split: "split_on 47 (join_with [47] xs) = xs" using assms by (intro split_on_join) (auto simp: list_all_iff good_text_def)
  obtain c cs ys where xs: "xs = (c # cs) # ys" using assms by (cases xs) (auto simp: good_text_def neq_Nil_conv)
  then have "c \<noteq> 47" using assms(2) by (simp add: good_text_def)
  then have "\<not> is_prefix [47] (join_with [47] xs)" by (cases ys) (simp_all add: xs is_prefix_def)
  moreover have "filter (\<lambda>c. c \<noteq> [] \<and> c \<noteq> [46]) xs = xs" using assms(2) by (auto simp: filter_id_conv list_all_iff good_text_def)
  ultimately show ?thesis using assms(1) by (simp add: joinpath_def as_posix_def path_parts_def split)
qed

lemma good_stays: "list_all (good_text h) xs \<Longrightarrow> stays h xs"
  by (auto simp: stays_def list_all_iff good_text_def)

lemma runs_mapP:
  assumes "\<And>x. x \<in> set xs \<Longrightarrow> runs I (f x) (\<lambda>y t. I t \<and> Q y) E"
  shows "runs I (mapP f xs) (\<lambda>ys t. I t \<and> list_all Q ys) E"
  using assms
proof (induction xs)
  case (Cons x xs)
  have "runs I (mapP f xs) (\<lambda>ys t. I t \<and> list_all Q ys) E" using Cons by simp
  then show ?case unfolding mapP.simps using Cons.prems
    by (intro runs_bind [OF Cons.prems] runs_assume runs_bind [of I "mapP f xs"]) (auto intro: runs_intros)
qed (auto intro: runs_intros)

lemma runs_entries_plain:
  assumes codec: "fs_codec h" and D: "path_bytes h staging = Inr D" and I: "node_pred I" "\<And>t. I t \<Longrightarrow> plain_tree t D" and xs: "stays h xs"
  shows "runs I (walk_entries h (staging @ xs)) (\<lambda>es t. I t \<and> (\<forall>(name, d) \<in> set es. good_text h name \<and> used t D (Suc (length xs)))) I"
  unfolding walk_entries_def
proof (rule runs_bind [OF runs_locate [OF I(1)]], assumption)
  fix r
  have names: "good_text h (io_fsdecode h n) \<and> used t D (Suc (length xs))" if t: "I t" "path_bytes h (staging @ xs) = Inr b" "resolve t True MAX_LINKS [] b = Inr q" "(n, nd) \<in> set (fs_children t q)" for t b q n nd
  proof -
    obtain x where x: "path_bytes h xs = Inr x" "b = D @ x" using t(2) D by (auto simp: path_bytes_append)
    have "q = D @ x" using resolve_plain [OF I(2) [OF t(1)] stays_bytes [OF xs x(1)]] t(3) by (simp add: x(2))
    then obtain nd' where here: "fs_at t (D @ (x @ [n])) = Some nd'" using children_at [OF t(4)] by auto
    then have "list_all proper_name (x @ [n])" using I(2) [OF t(1)] unfolding plain_tree_def by blast
    moreover have "used t D (Suc (length xs))" using here length_path_bytes [OF x(1)] unfolding used_def by (intro exI [of _ "x @ [n]"]) auto
    ultimately show ?thesis using decoded_good [OF codec] by simp
  qed
  show "runs (\<lambda>t. I t \<and> (r = Inl EIO \<or> (\<exists>b. path_bytes h (staging @ xs) = Inr b \<and> r = resolve t True MAX_LINKS [] b)))
    (case r of Inl _ \<Rightarrow> ret [] | Inr q \<Rightarrow> gets (\<lambda>s. map (\<lambda>(name, _). (io_fsdecode h name, entry_is_dir s (q @ [name]))) (fs_children s q)))
    (\<lambda>es t. I t \<and> (\<forall>(name, d) \<in> set es. good_text h name \<and> used t D (Suc (length xs)))) I"
  proof (cases r)
    case (Inr q)
    show ?thesis unfolding Inr sum.case by (rule runs_gets) (auto dest: names [OF _ _ sym])
  qed (auto intro!: runs_intros)
qed

lemma runs_walk_plain:
  assumes codec: "fs_codec h" and D: "path_bytes h staging = Inr D" and I: "node_pred I" "\<And>t. I t \<Longrightarrow> plain_tree t D" and xs: "stays h xs"
    and rel: "list_all (good_text h) rel"
  shows "runs I (walk_tree h n (staging @ xs) rel) (\<lambda>found t. I t \<and> list_all (\<lambda>(r, item). r \<noteq> [] \<and> list_all (good_text h) r) found) I"
  using rel
proof (induction n arbitrary: rel)
  case 0
  show ?case by (simp add: runs_stuck)
next
  case (Suc n)
  have reads: "runs I m (\<lambda>_. I) I" if "\<And>N. keeps (\<lambda>s. fs_nodes s = N) m" for m :: "(fs, 'c) prog" by (rule runs_reads [OF that I(1)])
  have stays: "stays h (xs @ rel)" using xs good_stays [OF Suc.prems] by (simp add: stays_def)
  have listed: "I t \<and> (\<forall>(name, d) \<in> set es. good_text h name)" if "I t \<and> (\<forall>(name, d) \<in> set es. good_text h name \<and> used t D (Suc (length (xs @ rel))))"
    for es :: "(ustr \<times> bool) list" and t using that by fast
  show ?case
    unfolding walk_tree.simps Let_def append_assoc
  proof (rule runs_bind [OF runs_post [OF runs_entries_plain [OF codec D I stays]]], assumption, erule listed, rule runs_assume)
    fix entries :: "(ustr \<times> bool) list" assume good: "\<forall>(name, d) \<in> set entries. good_text h name"
    let ?dirs = "map fst (filter snd entries)" and ?files = "map fst (filter (\<lambda>e. \<not> snd e) entries)"
    have g: "good_text h name" if "name \<in> set ?dirs \<or> name \<in> set ?files" for name using good that by auto
    have check: "runs I (for_each (\<lambda>name. bindP (os_stat h False (staging @ xs @ rel @ [name])) (\<lambda>status.
        if is_dir (Some status) then ret () else raise ArchiveError)) (sort ?dirs)) (\<lambda>_. I) I"
      by (intro reads keeps_intros)
    have found: "runs I (mapP (\<lambda>name. bindP (regular_status h (staging @ xs @ rel @ [name])) (\<lambda>_. ret (rel @ [name], staging @ xs @ rel @ [name]))) (sort ?files))
        (\<lambda>found t. I t \<and> list_all (\<lambda>(r, item). r \<noteq> [] \<and> list_all (good_text h) r) found) I"
      using Suc.prems g by (intro runs_mapP runs_bind [OF reads [OF keeps_regular_status]] runs_ret) auto
    have rest: "runs I (mapP (\<lambda>name. walk_tree h n (staging @ xs) (rel @ [name])) ?dirs)
        (\<lambda>fs t. I t \<and> list_all (list_all (\<lambda>(r, item). r \<noteq> [] \<and> list_all (good_text h) r)) fs) I"
      using Suc.prems g by (intro runs_mapP Suc.IH) auto
    show "runs I (bindP (for_each (\<lambda>name. bindP (os_stat h False (staging @ xs @ rel @ [name])) (\<lambda>status.
        if is_dir (Some status) then ret () else raise ArchiveError)) (sort ?dirs)) (\<lambda>_.
       bindP (mapP (\<lambda>name. bindP (regular_status h (staging @ xs @ rel @ [name])) (\<lambda>_. ret (rel @ [name], staging @ xs @ rel @ [name]))) (sort ?files)) (\<lambda>found.
       bindP (mapP (\<lambda>name. walk_tree h n (staging @ xs) (rel @ [name])) ?dirs) (\<lambda>rest. ret (found @ concat rest)))))
      (\<lambda>found t. I t \<and> list_all (\<lambda>(r, item). r \<noteq> [] \<and> list_all (good_text h) r) found) I"
      by (rule runs_bind [OF check], rule runs_bind [OF found], rule runs_assume, rule runs_bind [OF rest], rule runs_assume, rule runs_ret)
        (force simp: list_all_iff)
  qed
qed

lemma runs_files_plain:
  assumes "fs_codec h" and "path_bytes h staging = Inr D" and "node_pred I" and "\<And>t. I t \<Longrightarrow> plain_tree t D" and "stays h xs"
  shows "runs I (tree_files h (staging @ xs)) (\<lambda>found t. I t \<and> list_all (\<lambda>(r, item). r \<noteq> [] \<and> list_all (good_text h) r) found) I"
  unfolding tree_files_def
  apply (rule runs_bind [OF runs_reads [OF keeps_stat assms(3)]], assumption)
  apply (rule runs_if, rule runs_raise, assumption)
  apply (rule runs_bind [OF runs_gets [where Q = "\<lambda>_. I"]], assumption)
  apply (rule runs_walk_plain [OF assms], simp_all)
  done

section \<open>Swapping\<close>

lemma keeps_reads_outside: "(\<And>N. keeps (\<lambda>s. fs_nodes s = N) m) \<Longrightarrow> keeps (outside R s) m"
  by (rule keeps_runs [OF runs_reads [OF _ node_pred_outside]])

lemma keeps_swap:
  assumes at: "swap_at h p P c s" and roots: "\<And>q. path_bytes h tp = Inr q \<Longrightarrow> beside h p P q" "\<And>q. path_bytes h old = Inr q \<Longrightarrow> beside h p P q"
  shows "keeps (outside (tree_region h p P c) s) (swap_tree h tp old p)"
    and "keeps (outside (tree_region h p P c) s) (bindP (remove_if_there h tp) (\<lambda>_. remove_if_there h old))"
proof -
  have p: "path_bytes h p = Inr (P @ [c])" using at by (simp add: swap_at_def)
  have replace: "keeps (outside (tree_region h p P c) s) (os_replace h a b)" if "a \<in> {tp, old, p}" "b \<in> {tp, old, p}" for a b
    using that roots p by (intro keeps_replace_root [OF at]) auto
  have rmtree: "keeps (outside (tree_region h p P c) s) (rmtree h a)" if "a \<in> {tp, old}" for a
    using that roots by (intro keeps_rmtree [OF at]) auto
  have probe: "keeps (outside (tree_region h p P c) s) (path_probe h follow test z)" for follow test z by (rule keeps_reads_outside [OF keeps_probe])
  show "keeps (outside (tree_region h p P c) s) (swap_tree h tp old p)"
    unfolding swap_tree_def put_back_def by (intro keeps_intros replace rmtree probe; simp)
  show "keeps (outside (tree_region h p P c) s) (bindP (remove_if_there h tp) (\<lambda>_. remove_if_there h old))"
    unfolding remove_if_there_def by (intro keeps_intros rmtree probe; simp)
qed

lemma keeps_copies:
  assumes "fresh_at h p P c s tp a" and "list_all (\<lambda>(r, item). r \<noteq> [] \<and> list_all (good_text h) r) files"
  shows "keeps (fresh (tree_region h p P c) s a)
    (for_each (\<lambda>(relative, item). bindP (safe_copy h item (joinpath tp (as_posix relative))) (\<lambda>_. ret ())) files)"
  using assms(2)
proof (induction files)
  case (Cons f files)
  obtain r item where f: "f = (r, item)" by fastforce
  have "keeps (fresh (tree_region h p P c) s a) (safe_copy h item (tp @ r))"
    using Cons.prems by (intro keeps_copy_fresh [OF assms(1)] good_stays) (auto simp: f)
  moreover have "joinpath tp (as_posix r) = tp @ r" using Cons.prems by (intro joinpath_good) (auto simp: f)
  ultimately show ?case using Cons by (auto simp: f intro!: keeps_intros)
qed (auto intro: keeps_intros)

text \<open>The tree to copy is read from a staging directory that the region does not meet.\<close>

definition staged :: "'h host_scheme \<Rightarrow> path \<Rightarrow> loc \<Rightarrow> loc set \<Rightarrow> fs \<Rightarrow> bool" where
  "staged h staging D R s \<longleftrightarrow> path_bytes h staging = Inr D \<and> plain_tree s D \<and> apart D R"

lemma staged_plain: "staged h staging D R s \<Longrightarrow> outside R s t \<Longrightarrow> plain_tree t D"
  unfolding staged_def outside_def by (blast intro: plain_apart)

lemma runs_fill_tree:
  assumes at: "fresh_at h p P c s tp a" and D: "staged h staging D (tree_region h p P c) s" and xs: "stays h xs"
  shows "runs (fresh (tree_region h p P c) s a) (fill_tree h (staging @ xs) tp u) (\<lambda>_. fresh (tree_region h p P c) s a) (fresh (tree_region h p P c) s a)"
proof -
  let ?F = "fresh (tree_region h p P c) s a"
  have codec: "fs_codec h" using at by (simp add: fresh_at_def swap_at_def)
  have files: "runs ?F (tree_files h (staging @ xs)) (\<lambda>files t. ?F t \<and> list_all (\<lambda>(r, item). r \<noteq> [] \<and> list_all (good_text h) r) files) ?F"
    by (rule runs_files_plain [OF codec _ node_pred_fresh staged_plain [OF D fresh_outside] xs]) (use D in \<open>simp_all add: staged_def\<close>)
  have own: "keeps ?F (own_tree h n tp u)" for n using keeps_own_tree [OF at, of "[]"] by (simp add: stays_def)
  show ?thesis unfolding fill_tree_def
    by (rule runs_bind [OF files], rule runs_assume, rule runs_bind [OF runs_keeps [OF keeps_copies [OF at]]], assumption,
        rule runs_bind [OF runs_gets [where Q = "\<lambda>_. ?F" and E = ?F]], assumption, rule runs_keeps [OF own])
qed

lemma runs_fill_and_swap:
  assumes at: "fresh_at h p P c s tp a" and D: "staged h staging D (tree_region h p P c) s" and xs: "stays h xs"
    and old: "\<And>q. path_bytes h old = Inr q \<Longrightarrow> beside h p P q"
  shows "runs (fresh (tree_region h p P c) s a) (bindP (fill_tree h (staging @ xs) tp u) (\<lambda>_. swap_tree h tp old p))
    (\<lambda>_. outside (tree_region h p P c) s) (outside (tree_region h p P c) s)"
proof -
  have tp: "beside h p P q" if "path_bytes h tp = Inr q" for q using that at by (auto simp: fresh_at_def)
  have swap_at: "swap_at h p P c s" using at by (simp add: fresh_at_def)
  show ?thesis
    by (rule runs_then [OF runs_fill_tree [OF at D xs]], erule fresh_outside,
        rule runs_weaken [OF runs_keeps [OF keeps_swap(1) [OF swap_at tp old]]], assumption, assumption, erule fresh_outside, assumption, assumption)
qed

lemma keeps_copy_tree:
  assumes at: "swap_at h p P c s" and D: "staged h staging D (tree_region h p P c) s" and xs: "stays h xs"
  shows "keeps (outside (tree_region h p P c) s) (copy_tree h (staging @ xs) p u)"
proof (rule keeps_runs)
  let ?R = "tree_region h p P c"
  let ?I = "outside ?R s"
  let ?body = "\<lambda>tp old. finallyP (bindP (fill_tree h (staging @ xs) tp u) (\<lambda>_. swap_tree h tp old p)) (bindP (remove_if_there h tp) (\<lambda>_. remove_if_there h old))"
  have p: "path_bytes h p = Inr (P @ [c])" using at by (simp_all add: swap_at_def)
  have mkdir: "runs ?I (path_mkdir h (butlast p) 511 True True) (\<lambda>_. ?I) ?I"
    using runs_mkdir_there [OF node_pred_outside outside_real [OF at] path_bytes_last(2) [OF p]] .
  have body: "runs (\<lambda>t. \<exists>a. fresh_at h p P c s tp a \<and> fresh ?R s a t)
      (bindP (gets (\<lambda>s. side_path h (U ''previous'') p (fs_calls s))) (?body tp)) (\<lambda>_. ?I) ?I" for tp
  proof (rule runs_pre)
    fix s0 assume "\<exists>a. fresh_at h p P c s tp a \<and> fresh ?R s a s0"
    then obtain a where a: "fresh_at h p P c s tp a" "fresh ?R s a s0" by blast
    have tp: "beside h p P q" if "path_bytes h tp = Inr q" for q using that a(1) by (auto simp: fresh_at_def)
    have "runs (fresh ?R s a) (?body tp old) (\<lambda>_. ?I) ?I" if old: "old = side_path h (U ''previous'') p n" for old n
    proof -
      have b: "beside h p P q" if "path_bytes h old = Inr q" for q using that side_path_beside [OF p] old by blast
      have clean: "runs ?I (bindP (remove_if_there h tp) (\<lambda>_. remove_if_there h old)) (\<lambda>_. ?I) ?I"
        by (rule runs_keeps [OF keeps_swap(2) [OF at tp b]])
      show ?thesis by (rule runs_finally [OF runs_fill_and_swap [OF a(1) D xs b] clean clean])
    qed
    then show "runs (\<lambda>t. t = s0) (bindP (gets (\<lambda>s. side_path h (U ''previous'') p (fs_calls s))) (?body tp)) (\<lambda>_. ?I) ?I"
      using a(2) by (intro runs_bind_gets) (auto intro: runs_at)
  qed
  show "runs ?I (copy_tree h (staging @ xs) p u) (\<lambda>_. ?I) ?I"
    unfolding copy_tree_def
    apply (rule runs_bind [OF runs_keeps [OF keeps_reads_outside [OF keeps_stat]]])
    apply (rule runs_if, rule runs_raise, assumption)
    apply (rule runs_bind [OF mkdir], rule runs_bind [OF runs_mkdtemp [OF at] body])
    done
qed

end
