(* ===== verification/Restore_Ends.thy ===== *)
theory Restore_Ends
  imports Swap_Facts
begin

text \<open>
  Applying a payload ends. The recursion of \<^verbatim>\<open>os.walk\<close> and \<^verbatim>\<open>shutil.rmtree\<close> has the depth of the tree as fuel; \<open>ends I m\<close> says that
  \<open>m\<close> does not run out of it from a state with \<open>I\<close>.
\<close>

section \<open>Programs that end\<close>

definition ends :: "('s \<Rightarrow> bool) \<Rightarrow> ('s, 'a) prog \<Rightarrow> bool" where
  "ends I m \<longleftrightarrow> (\<forall>s. I s \<longrightarrow> fst (m s) \<noteq> Stuck)"

lemma ends_returns: "returns m \<Longrightarrow> ends I m"
  by (simp add: ends_def returns_def)

lemma ends_pre: "ends J m \<Longrightarrow> (\<And>s. I s \<Longrightarrow> J s) \<Longrightarrow> ends I m"
  by (simp add: ends_def)

lemma ends_at: "(\<And>s0. I s0 \<Longrightarrow> ends (\<lambda>s. s = s0) m) \<Longrightarrow> ends I m"
  by (simp add: ends_def)

lemma ends_bind: "ends I m \<Longrightarrow> runs I m Q E \<Longrightarrow> (\<And>a. ends (Q a) (f a)) \<Longrightarrow> ends I (bindP m f)"
  unfolding ends_def bindP_def by (fastforce dest: runs_Ok split: prod.splits outcome.splits)

lemma ends_keeps: "ends I m \<Longrightarrow> keeps I m \<Longrightarrow> (\<And>a. ends I (f a)) \<Longrightarrow> ends I (bindP m f)"
  by (rule ends_bind [OF _ runs_keeps])

lemma ends_gets: "(\<And>s0. I s0 \<Longrightarrow> ends (\<lambda>s. s = s0) (k (f s0))) \<Longrightarrow> ends I (bindP (gets f) k)"
  by (simp add: ends_def bindP_def prog_simps)

lemma ends_catch: "ends I m \<Longrightarrow> runs I m Q E \<Longrightarrow> (\<And>e. ends E (k e)) \<Longrightarrow> ends I (catch m k)"
  unfolding ends_def catch_def by (fastforce dest: runs_Raise split: prod.splits outcome.splits)

lemma ends_finally:
  assumes "ends I m" and "runs I m Q E" and "\<And>a. ends (Q a) f" and "ends E f"
  shows "ends I (finallyP m f)"
proof -
  have raising: "ends E (bindP f (\<lambda>_. raise e))" for e :: exn
    by (rule ends_bind [OF assms(4), where Q = "\<lambda>_ _. True" and E = "\<lambda>_. True"]) (auto simp: runs_def intro: ends_returns returns_intros split: outcome.split)
  have handled: "runs I (catch m (\<lambda>e. bindP f (\<lambda>_. raise e))) Q (\<lambda>_. True)"
    by (rule runsI, auto elim!: catch_OkE bindP_OkE dest: runs_Ok [OF assms(2)] simp: prog_simps)
  show ?thesis unfolding finallyP_def
  proof (rule ends_bind [OF ends_catch [OF assms(1,2) raising] handled])
    show "ends (Q a) (bindP f (\<lambda>_. ret a))" for a
      by (rule ends_bind [OF assms(3), where Q = "\<lambda>_ _. True" and E = "\<lambda>_. True"]) (auto simp: runs_def intro: ends_returns returns_intros split: outcome.split)
  qed
qed

lemma ends_if: "(b \<Longrightarrow> ends I m) \<Longrightarrow> (\<not> b \<Longrightarrow> ends I n) \<Longrightarrow> ends I (if b then m else n)"
  by simp

lemma ends_for_each: "(\<And>x. x \<in> set xs \<Longrightarrow> ends I (f x) \<and> keeps I (f x)) \<Longrightarrow> ends I (for_each f xs)"
  by (induction xs) (auto intro: ends_keeps ends_returns returns_intros)

lemma ends_mapP: "(\<And>x. x \<in> set xs \<Longrightarrow> ends I (f x) \<and> keeps I (f x)) \<Longrightarrow> ends I (mapP f xs)"
proof (induction xs)
  case (Cons x xs)
  then have "ends I (bindP (mapP f xs) (\<lambda>ys. ret (y # ys)))" for y
    by (intro ends_bind [where Q = "\<lambda>_ _. True" and E = "\<lambda>_. True"]) (auto simp: runs_def intro: ends_returns returns_intros split: outcome.split)
  then show ?case using Cons.prems by (auto intro: ends_keeps)
qed (auto intro: ends_returns returns_intros)

section \<open>Depth\<close>

definition depth :: "nat \<Rightarrow> fs \<Rightarrow> bool" where
  "depth b s \<longleftrightarrow> (\<forall>q \<in> dom (map_of (fs_nodes s)). length q < b)"

lemma depth_tree: "tree_depth s < b \<Longrightarrow> depth b s"
proof -
  have "length q \<le> foldr (\<lambda>(q, _) n. max (length q) n) ns 0" if "(q, nd) \<in> set ns" for q nd and ns :: "(loc \<times> node) list"
    using that by (induction ns) (auto simp: le_max_iff_disj)
  then show "tree_depth s < b \<Longrightarrow> depth b s" unfolding depth_def tree_depth_def by (fastforce dest: map_of_SomeD)
qed

lemma depth_nodes: "fs_nodes t = fs_nodes s \<Longrightarrow> depth b t = depth b s"
  by (simp add: depth_def)

lemma used_depth: "used t a n \<Longrightarrow> depth b t \<Longrightarrow> a \<noteq> [] \<Longrightarrow> length a + n < b"
  by (force simp: used_def depth_def fs_at_def)

lemma keeps_reads_depth: "(\<And>N. keeps (\<lambda>s. fs_nodes s = N) m) \<Longrightarrow> keeps (depth b) m"
  by (rule keepsI) (metis (mono_tags, lifting) depth_nodes keepsD)

lemma keeps_depth_remove: "keeps (depth b) (modify (fs_remove q))"
  by (rule keepsI) (auto simp: depth_def prog_simps fs_remove_def delete_conv')

lemma keeps_depth_change: "keeps (depth b) (modify (change_node q f))"
proof (rule keepsI)
  fix s assume "depth b s"
  then show "depth b (snd (modify (change_node q f) s))"
    by (auto simp: depth_def prog_simps change_node_def fs_put_def update_conv' split: option.split)
qed

section \<open>Removing a tree\<close>

lemma keeps_depth_remove_tree: "keeps (depth b) (remove_tree h n q)"
proof (induction n arbitrary: q)
  case (Suc n)
  have fault: "keeps (depth b) (os_fault h)" by (auto intro: keeps_reads_depth keeps_intros)
  then show ?case using Suc keeps_depth_remove
    unfolding remove_tree.simps os_unlink_at_def os_rmdir_at_def by (auto intro!: keeps_intros)
qed (auto intro: keeps_intros)

lemma child_depth: "(name, nd) \<in> set (fs_children s q) \<Longrightarrow> depth b s \<Longrightarrow> Suc (length q) < b"
proof -
  assume child: "(name, nd) \<in> set (fs_children s q)" and d: "depth b s"
  from child obtain z where "(z, nd) \<in> set (fs_nodes s)" "z \<noteq> []" "butlast z = q" by (auto simp: fs_children_def)
  then have "z \<in> dom (map_of (fs_nodes s))" "length z = Suc (length q)" by (auto simp: dom_map_of_conv_image_fst intro: image_eqI [of z fst "(z, nd)"])
  with d show "Suc (length q) < b" unfolding depth_def by metis
qed

lemma ends_remove_tree: "0 < n \<Longrightarrow> ends (depth (n + length q)) (remove_tree h n q)"
proof (induction n arbitrary: q)
  case (Suc n)
  let ?I = "depth (Suc n + length q)"
  have fault: "keeps ?I (os_fault h)" by (auto intro: keeps_reads_depth keeps_intros)
  have unlink: "ends ?I (os_unlink_at h z)" "keeps ?I (os_unlink_at h z)" "ends ?I (os_rmdir_at h z)" for z
    using fault keeps_depth_remove unfolding os_unlink_at_def os_rmdir_at_def
    by (auto intro!: ends_returns returns_intros keeps_intros)
  have entry: "ends ?I (if is_dir (Some nd) then remove_tree h n (q @ [name]) else os_unlink_at h (q @ [name]))
      \<and> keeps ?I (if is_dir (Some nd) then remove_tree h n (q @ [name]) else os_unlink_at h (q @ [name]))"
    if "0 < n" for name nd
    using Suc.IH [OF that, of "q @ [name]"] unlink keeps_depth_remove_tree by auto
  have "ends ?I (for_each (\<lambda>(name, nd). if is_dir (Some nd) then remove_tree h n (q @ [name]) else os_unlink_at h (q @ [name])) entries)"
    if "entries \<noteq> [] \<Longrightarrow> 0 < n" for entries
  proof (rule ends_for_each)
    fix x assume "x \<in> set entries"
    then have "0 < n" using that by force
    obtain name nd where x: "x = (name, nd)" by fastforce
    show "ends ?I (case x of (name, nd) \<Rightarrow> if is_dir (Some nd) then remove_tree h n (q @ [name]) else os_unlink_at h (q @ [name]))
        \<and> keeps ?I (case x of (name, nd) \<Rightarrow> if is_dir (Some nd) then remove_tree h n (q @ [name]) else os_unlink_at h (q @ [name]))"
      unfolding x prod.case by (rule entry [OF \<open>0 < n\<close>])
  qed
  moreover have "keeps ?I (for_each (\<lambda>(name, nd). if is_dir (Some nd) then remove_tree h n (q @ [name]) else os_unlink_at h (q @ [name])) entries)" for entries
    using unlink(2) keeps_depth_remove_tree by (intro keeps_intros) auto
  ultimately have rest: "ends ?I (bindP (for_each (\<lambda>(name, nd). if is_dir (Some nd) then remove_tree h n (q @ [name]) else os_unlink_at h (q @ [name])) entries) (\<lambda>_. os_rmdir_at h q))"
    if "entries \<noteq> [] \<Longrightarrow> 0 < n" for entries
    using that unlink by (intro ends_keeps) auto
  have listed: "fs_children s q \<noteq> [] \<Longrightarrow> 0 < n" if "?I s" for s
    using child_depth [of _ _ s q, OF _ that] by (cases "fs_children s q") fastforce+
  show ?case unfolding remove_tree.simps
    by (rule ends_keeps [OF ends_returns [OF returns_fault] fault], rule ends_gets, rule ends_pre [OF rest [OF listed]]) auto
qed simp

lemma ends_rmtree: "ends I (rmtree h p)"
  unfolding rmtree_def
proof (rule ends_bind [OF ends_returns [OF returns_place], where Q = "\<lambda>_ _. True" and E = "\<lambda>_. True"], simp add: runs_def split: outcome.split, rule ends_gets)
  fix q s0
  have "ends (\<lambda>s. s = s0) (remove_tree h (Suc (tree_depth s0)) q)"
    by (rule ends_pre [OF ends_remove_tree]) (auto intro: depth_tree)
  then show "ends (\<lambda>s. s = s0) (case (fs_at s0 q, tree_depth s0) of (nd, n) \<Rightarrow> if \<not> is_dir nd then raise OSError else remove_tree h (Suc n) q)"
    by (auto intro: ends_returns returns_intros)
qed

section \<open>Walking a tree\<close>

text \<open>An invariant of the nodes together with a bound on the depth survives what reads.\<close>

lemma keeps_reads_both:
  assumes "node_pred I" and "\<And>N. keeps (\<lambda>s. fs_nodes s = N) m"
  shows "keeps (\<lambda>t. I t \<and> depth b t) m"
proof (rule keepsI)
  fix s assume s: "I s \<and> depth b s"
  have nodes: "fs_nodes (snd (m s)) = fs_nodes s" using keepsD [OF assms(2), of s "fs_nodes s"] by simp
  then show "I (snd (m s)) \<and> depth b (snd (m s))"
    using s node_predD [OF assms(1) fs_at_nodes [OF nodes]] depth_nodes [OF nodes] by blast
qed

lemma runs_and_depth:
  assumes "runs I m Q E" and "keeps (\<lambda>t. I t \<and> depth b t) m"
  shows "runs (\<lambda>t. I t \<and> depth b t) m (\<lambda>a t. Q a t \<and> depth b t) E"
  by (rule runsI) (use assms in \<open>auto dest: runs_Ok runs_Raise runs_Stuck keepsD_eq\<close>)

lemma keeps_mapP [keeps_intros]: "(\<And>x. keeps I (f x)) \<Longrightarrow> keeps I (mapP f xs)"
  by (induction xs) (auto intro!: keeps_intros)

lemma keeps_walk_entries [keeps_intros]: "keeps (\<lambda>s. fs_nodes s = N) (walk_entries h p)"
  unfolding walk_entries_def by (intro keeps_intros)

lemma keeps_walk_tree [keeps_intros]: "keeps (\<lambda>s. fs_nodes s = N) (walk_tree h n p rel)"
  by (induction n arbitrary: rel) (auto intro!: keeps_intros simp: Let_def)

lemma ends_walk:
  assumes codec: "fs_codec h" and D: "path_bytes h staging = Inr D" "D \<noteq> []" and I: "node_pred I" "\<And>t. I t \<Longrightarrow> plain_tree t D" and xs: "stays h xs"
    and rel: "list_all (good_text h) rel" and n: "0 < n"
  shows "ends (\<lambda>t. I t \<and> depth (n + length D + length xs + length rel) t) (walk_tree h n (staging @ xs) rel)"
  using rel n
proof (induction n arbitrary: rel)
  case (Suc n)
  let ?b = "Suc n + length D + length xs + length rel"
  let ?J = "\<lambda>t. I t \<and> depth ?b t"
  have reads: "keeps ?J m" if "\<And>N. keeps (\<lambda>s. fs_nodes s = N) m" for m :: "(fs, 'c) prog" by (rule keeps_reads_both [OF I(1) that])
  have stays: "stays h (xs @ rel)" using xs good_stays [OF Suc.prems(1)] by (simp add: stays_def)
  have listed: "runs ?J (walk_entries h (staging @ xs @ rel)) (\<lambda>es t. ?J t \<and> (\<forall>(name, d) \<in> set es. good_text h name \<and> 0 < n)) I"
  proof (rule runs_post [OF runs_and_depth [OF runs_entries_plain [OF codec D(1) I stays] reads [OF keeps_walk_entries]], unfolded append_assoc], assumption)
    fix es :: "(ustr \<times> bool) list" and t
    assume t: "(I t \<and> (\<forall>(name, d) \<in> set es. good_text h name \<and> used t D (Suc (length (xs @ rel))))) \<and> depth ?b t"
    have "0 < n" if "used t D (Suc (length (xs @ rel)))" using used_depth [OF that _ D(2)] t by fastforce
    with t show "?J t \<and> (\<forall>(name, d) \<in> set es. good_text h name \<and> 0 < n)" by fast
  qed
  show ?case
    unfolding walk_tree.simps Let_def append_assoc
  proof (rule ends_bind [OF ends_returns listed])
    show "returns (walk_entries h (staging @ xs @ rel))" unfolding walk_entries_def by (intro returns_intros)
    fix entries :: "(ustr \<times> bool) list"
    let ?dirs = "map fst (filter snd entries)" and ?files = "map fst (filter (\<lambda>e. \<not> snd e) entries)"
    show "ends (\<lambda>t. ?J t \<and> (\<forall>(name, d) \<in> set entries. good_text h name \<and> 0 < n))
      (bindP (for_each (\<lambda>name. bindP (os_stat h False (staging @ xs @ rel @ [name])) (\<lambda>status.
        if is_dir (Some status) then ret () else raise ArchiveError)) (sort ?dirs)) (\<lambda>_.
       bindP (mapP (\<lambda>name. bindP (regular_status h (staging @ xs @ rel @ [name])) (\<lambda>_. ret (rel @ [name], staging @ xs @ rel @ [name]))) (sort ?files)) (\<lambda>found.
       bindP (mapP (\<lambda>name. walk_tree h n (staging @ xs) (rel @ [name])) ?dirs) (\<lambda>rest. ret (found @ concat rest)))))"
    proof (rule ends_at)
      fix s0 assume s0: "?J s0 \<and> (\<forall>(name, d) \<in> set entries. good_text h name \<and> 0 < n)"
      have deeper: "ends ?J (walk_tree h n (staging @ xs) (rel @ [name]))" if "name \<in> set ?dirs" for name
        using Suc.IH [of "rel @ [name]"] Suc.prems(1) s0 that by auto
      have check: "ends ?J (for_each (\<lambda>name. bindP (os_stat h False (staging @ xs @ rel @ [name])) (\<lambda>status.
          if is_dir (Some status) then ret () else raise ArchiveError)) (sort ?dirs))"
        by (intro ends_returns returns_intros)
      have files: "ends ?J (mapP (\<lambda>name. bindP (regular_status h (staging @ xs @ rel @ [name])) (\<lambda>_. ret (rel @ [name], staging @ xs @ rel @ [name]))) (sort ?files))"
        by (intro ends_mapP conjI ends_returns returns_intros reads keeps_intros)
      show "ends (\<lambda>s. s = s0) (bindP (for_each (\<lambda>name. bindP (os_stat h False (staging @ xs @ rel @ [name])) (\<lambda>status.
          if is_dir (Some status) then ret () else raise ArchiveError)) (sort ?dirs)) (\<lambda>_.
         bindP (mapP (\<lambda>name. bindP (regular_status h (staging @ xs @ rel @ [name])) (\<lambda>_. ret (rel @ [name], staging @ xs @ rel @ [name]))) (sort ?files)) (\<lambda>found.
         bindP (mapP (\<lambda>name. walk_tree h n (staging @ xs) (rel @ [name])) ?dirs) (\<lambda>rest. ret (found @ concat rest)))))"
        by (rule ends_pre [where J = ?J], intro ends_keeps check files ends_mapP conjI deeper reads keeps_intros ends_returns returns_intros)
          (use s0 in simp_all)
    qed
  qed
qed simp

lemma ends_tree_files:
  assumes "fs_codec h" and "path_bytes h staging = Inr D" "D \<noteq> []" and "node_pred I" and "\<And>t. I t \<Longrightarrow> plain_tree t D" and "stays h xs"
  shows "ends I (tree_files h (staging @ xs))"
  unfolding tree_files_def
proof (rule ends_bind [OF ends_returns [OF returns_stat] runs_reads [OF keeps_stat assms(4)]], assumption)
  fix status
  have "ends (\<lambda>s. s = s0) (walk_tree h (Suc (tree_depth s0)) (staging @ xs) [])" if "I s0" for s0
    using ends_walk [OF assms, of "[]" "Suc (tree_depth s0)"] by (rule ends_pre) (use that in \<open>auto intro: depth_tree\<close>)
  then show "ends I (if \<not> is_dir (Some status) then raise ArchiveError else bindP (gets tree_depth) (\<lambda>n. walk_tree h (Suc n) (staging @ xs) []))"
    by (auto intro!: ends_gets intro: ends_returns returns_intros)
qed

section \<open>Swapping a tree\<close>

lemma keeps_both: "keeps I m \<Longrightarrow> keeps J m \<Longrightarrow> keeps (\<lambda>t. I t \<and> J t) m"
  by (simp add: keeps_def)

lemma keeps_depth_own: "keeps (depth b) (own_node h p m u)"
  unfolding own_node_def apply_owner_def os_chmod_def os_chown_def
  by (intro keeps_intros keeps_depth_change keeps_reads_depth [OF keeps_place])

lemma keeps_depth_listed: "keeps (depth b) (own_listed h p entries u)"
  unfolding own_listed_def by (intro keeps_intros keeps_depth_own)

lemma keeps_depth_own_tree: "keeps (depth b) (own_tree h n p u)"
proof (induction n arbitrary: p)
  case (Suc n)
  have scan: "keeps (depth b) (scan_dir h z)" for z unfolding scan_dir_def by (rule keeps_reads_depth) (intro keeps_intros)
  show ?case using Suc unfolding own_tree.simps
    by (intro keeps_intros scan keeps_depth_listed keeps_reads_depth [OF keeps_probe])
qed (auto intro: keeps_intros)

lemma returns_own_listed [returns_intros]: "returns (own_listed h p entries u)"
  unfolding own_listed_def own_node_def apply_owner_def os_chown_def by (intro returns_intros)

text \<open>What is listed in a fresh directory stays in it, and there is fuel left when something is listed.\<close>

lemma runs_scan_depth:
  assumes at: "fresh_at h p P c s tp a" and xs: "stays h xs"
  shows "runs (\<lambda>t. fresh (tree_region h p P c) s a t \<and> depth (Suc n + length a + length xs) t) (scan_dir h (tp @ xs))
      (\<lambda>l t. (fresh (tree_region h p P c) s a t \<and> depth (Suc n + length a + length xs) t)
        \<and> (\<forall>entries. l = Some entries \<longrightarrow> (\<forall>(name, d) \<in> set entries. stays h (xs @ [name]) \<and> 0 < n)))
      (fresh (tree_region h p P c) s a)"
proof -
  let ?F = "fresh (tree_region h p P c) s a" and ?b = "Suc n + length a + length xs"
  have a: "a \<noteq> []" using at by (auto elim: fresh_name)
  have scan: "keeps (\<lambda>s. fs_nodes s = N) (scan_dir h z)" for N z unfolding scan_dir_def by (intro keeps_intros)
  show ?thesis
  proof (rule runs_post [OF runs_and_depth [OF runs_scan_fresh [OF at xs] keeps_reads_both [OF node_pred_fresh scan]]])
    fix l :: "(ustr \<times> bool) list option" and t
    assume t: "(?F t \<and> (\<forall>entries. l = Some entries \<longrightarrow> (\<forall>(name, d) \<in> set entries. stays h (xs @ [name]) \<and> used t a (Suc (length xs))))) \<and> depth ?b t"
    have "0 < n" if "used t a (Suc (length xs))" using used_depth [OF that _ a] t by fastforce
    with t show "(?F t \<and> depth ?b t) \<and> (\<forall>entries. l = Some entries \<longrightarrow> (\<forall>(name, d) \<in> set entries. stays h (xs @ [name]) \<and> 0 < n))" by fast
  qed
qed

lemma ends_own_tree:
  assumes at: "fresh_at h p P c s tp a" and xs: "stays h xs" and n: "0 < n"
  shows "ends (\<lambda>t. fresh (tree_region h p P c) s a t \<and> depth (n + length a + length xs) t) (own_tree h n (tp @ xs) u)"
  using xs n
proof (induction n arbitrary: xs)
  case (Suc n)
  let ?J = "\<lambda>t. fresh (tree_region h p P c) s a t \<and> depth (Suc n + length a + length xs) t"
  let ?step = "\<lambda>name. bindP (catch (path_is_symlink h (tp @ xs @ [name])) (\<lambda>_. ret False)) (\<lambda>link.
    if link then ret () else own_tree h n (tp @ xs @ [name]) u)"
  have link: "keeps ?J (catch (path_is_symlink h (tp @ xs @ [name])) (\<lambda>_. ret False))" for name
    by (intro keeps_reads_both [OF node_pred_fresh] keeps_intros)
  have step: "ends ?J (?step name) \<and> keeps ?J (?step name)" if "stays h (xs @ [name])" "0 < n" for name
  proof
    show "ends ?J (?step name)" using Suc.IH [OF that]
      by (intro ends_keeps [OF ends_returns link]) (auto intro: ends_returns returns_intros simp: add.assoc)
    show "keeps ?J (?step name)"
      by (intro keeps_bindP [OF link] keeps_if keeps_ret keeps_both keeps_own_tree [OF at that(1)] keeps_depth_own_tree)
  qed
  have rest: "ends ?J (bindP (own_listed h (tp @ xs) entries u) (\<lambda>_. for_each ?step (map fst (filter snd entries))))"
    if good: "\<forall>(name, d) \<in> set entries. stays h (xs @ [name]) \<and> 0 < n" for entries
  proof (rule ends_keeps [OF ends_returns [OF returns_own_listed]])
    show "keeps ?J (own_listed h (tp @ xs) entries u)"
      by (intro keeps_both keeps_own_listed [OF at Suc.prems(1)] keeps_depth_listed) (use good in auto)
    show "ends ?J (for_each ?step (map fst (filter snd entries)))" by (rule ends_for_each, rule step) (use good in auto)
  qed
  show ?case unfolding own_tree.simps append_assoc
  proof (rule ends_bind [OF ends_returns runs_scan_depth [OF at Suc.prems(1)]])
    show "returns (scan_dir h (tp @ xs))" unfolding scan_dir_def by (intro returns_intros)
    fix l :: "(ustr \<times> bool) list option"
    show "ends (\<lambda>t. ?J t \<and> (\<forall>entries. l = Some entries \<longrightarrow> (\<forall>(name, d) \<in> set entries. stays h (xs @ [name]) \<and> 0 < n)))
      (case l of None \<Rightarrow> ret () | Some entries \<Rightarrow> bindP (own_listed h (tp @ xs) entries u) (\<lambda>_. for_each ?step (map fst (filter snd entries))))"
      by (cases l, auto intro: ends_returns returns_intros, rule ends_at, rule ends_pre [OF rest], auto)
  qed
qed simp

lemma ends_assume: "(C \<Longrightarrow> ends I m) \<Longrightarrow> ends (\<lambda>t. I t \<and> C) m"
  by (auto simp: ends_def)

lemma returns_ends: "ends (\<lambda>_. True) m \<Longrightarrow> returns m"
  by (simp add: ends_def returns_def)

lemma returns_rmtree [returns_intros]: "returns (rmtree h p)"
  by (rule returns_ends [OF ends_rmtree])

lemma returns_mkdtemp [returns_intros]: "returns (mkdtemp h prefix dir)"
proof -
  have "returns (mkdtemp_loop h n dir prefix)" for n by (induction n) (auto intro!: returns_intros split: sum.split)
  then show ?thesis by (simp add: mkdtemp_def)
qed

lemma returns_copy_loop [returns_intros]: "returns (copy_loop h q n cs)"
  by (induction cs arbitrary: n) (auto intro!: returns_intros simp: Let_def)

lemma returns_safe_copy [returns_intros]: "returns (safe_copy h source destination)"
  unfolding safe_copy_def by (intro returns_intros)

lemma returns_swap [returns_intros]: "returns (swap_tree h temporary old destination)" "returns (remove_if_there h p)"
  unfolding swap_tree_def put_back_def remove_if_there_def by (intro returns_intros)+

lemma ends_fill_tree:
  assumes at: "fresh_at h p P c s tp a" and D: "staged h staging D (tree_region h p P c) s" "D \<noteq> []" and xs: "stays h xs"
  shows "ends (fresh (tree_region h p P c) s a) (fill_tree h (staging @ xs) tp u)"
proof -
  let ?F = "fresh (tree_region h p P c) s a"
  have codec: "fs_codec h" using at by (simp add: fresh_at_def swap_at_def)
  have staging: "path_bytes h staging = Inr D" using D by (simp add: staged_def)
  note plain = staged_plain [OF D(1) fresh_outside]
  have own: "ends (\<lambda>s. s = s0) (own_tree h (Suc (tree_depth s0)) tp u)" if "?F s0" for s0
    by (rule ends_pre [OF ends_own_tree [OF at, of "[]", unfolded append_Nil2]]) (simp_all add: stays_def that depth_tree)
  show ?thesis unfolding fill_tree_def
    by (rule ends_bind [OF ends_tree_files [OF codec staging D(2) node_pred_fresh plain xs] runs_files_plain [OF codec staging node_pred_fresh plain xs]],
        assumption, assumption, rule ends_assume, rule ends_keeps [OF ends_returns keeps_copies [OF at]], intro returns_intros, assumption,
        rule ends_gets, rule own)
qed

lemma ends_copy_tree:
  assumes at: "swap_at h p P c s" and D: "staged h staging D (tree_region h p P c) s" "D \<noteq> []" and xs: "stays h xs"
  shows "ends (outside (tree_region h p P c) s) (copy_tree h (staging @ xs) p u)"
proof -
  let ?R = "tree_region h p P c"
  let ?I = "outside ?R s"
  have p: "path_bytes h p = Inr (P @ [c])" using at by (simp add: swap_at_def)
  have mkdir: "runs ?I (path_mkdir h (butlast p) 511 True True) (\<lambda>_. ?I) ?I"
    using runs_mkdir_there [OF node_pred_outside outside_real [OF at] path_bytes_last(2) [OF p]] .
  have body: "ends (\<lambda>t. \<exists>a. fresh_at h p P c s tp a \<and> fresh ?R s a t)
    (bindP (gets (\<lambda>s. side_path h (U ''previous'') p (fs_calls s))) (\<lambda>old.
     finallyP (bindP (fill_tree h (staging @ xs) tp u) (\<lambda>_. swap_tree h tp old p)) (bindP (remove_if_there h tp) (\<lambda>_. remove_if_there h old))))" for tp
  proof (rule ends_gets)
    fix s0 assume "\<exists>a. fresh_at h p P c s tp a \<and> fresh ?R s a s0"
    then obtain a where a: "fresh_at h p P c s tp a" "fresh ?R s a s0" by blast
    let ?old = "side_path h (U ''previous'') p (fs_calls s0)"
    have b: "beside h p P q" if "path_bytes h ?old = Inr q" for q using that side_path_beside [OF p] by blast
    have "ends (fresh ?R s a) (bindP (fill_tree h (staging @ xs) tp u) (\<lambda>_. swap_tree h tp ?old p))"
      by (rule ends_bind [OF ends_fill_tree [OF a(1) D xs] runs_fill_tree [OF a(1) D(1) xs]]) (intro ends_returns returns_intros)
    then have "ends (fresh ?R s a) (finallyP (bindP (fill_tree h (staging @ xs) tp u) (\<lambda>_. swap_tree h tp ?old p)) (bindP (remove_if_there h tp) (\<lambda>_. remove_if_there h ?old)))"
      by (rule ends_finally [OF _ runs_fill_and_swap [OF a(1) D(1) xs b]]) (assumption | intro ends_returns returns_intros)+
    then show "ends (\<lambda>s. s = s0) (finallyP (bindP (fill_tree h (staging @ xs) tp u) (\<lambda>_. swap_tree h tp ?old p)) (bindP (remove_if_there h tp) (\<lambda>_. remove_if_there h ?old)))"
      by (rule ends_pre) (simp add: a(2))
  qed
  show ?thesis unfolding copy_tree_def
    apply (rule ends_keeps [OF ends_returns [OF returns_stat] keeps_reads_outside [OF keeps_stat]])
    apply (rule ends_if, intro ends_returns returns_intros)
    apply (rule ends_bind [OF ends_returns [OF returns_path_mkdir] mkdir], rule ends_bind [OF ends_returns [OF returns_mkdtemp] runs_mkdtemp [OF at] body])
    done
qed

end
