(* ===== verification/Apply_Facts.thy ===== *)
theory Apply_Facts
  imports Restore_Ends
begin

text \<open>
  Applying a payload as a whole: the staged files are those of the manifest, every single destination is untouched or
  complete, and only the places of the restore change.
\<close>

section \<open>Texts of places\<close>

text \<open>Places with literal names.\<close>

definition place :: "string list \<Rightarrow> loc" where
  "place p = map (\<lambda>c. ascii_bytes (U c)) p"

lemma literal_inj: "ascii_bytes (U a) = ascii_bytes (U b) \<longleftrightarrow> a = b"
proof -
  have back_text: "map (\<lambda>x. char_of (unat x)) (ascii_bytes (U c)) = c" for c :: string
    by (simp add: ascii_bytes_def U_def o_def unat_byte_of_nat)
  show ?thesis using back_text [of a] back_text [of b] by metis
qed

lemma place_inj: "place p = place q \<longleftrightarrow> p = q"
  unfolding place_def using literal_inj by (simp add: inj_map_eq_map inj_def)

lemma place_append: "place (p @ q) = place p @ place q"
  by (simp add: place_def)

text \<open>A relative ASCII text without dot-dot, and the place it names.\<close>

definition at_text :: "ustr \<Rightarrow> loc" where
  "at_text t = map ascii_bytes (path_parts t)"

definition plain_text :: "ustr \<Rightarrow> bool" where
  "plain_text t \<longleftrightarrow> \<not> is_prefix [47] t \<and> path_parts t \<noteq> [] \<and> list_all (\<lambda>c. isascii c \<and> 0 \<notin> set c \<and> c \<noteq> U ''..'') (path_parts t)"

lemma plain_text_path:
  assumes "fs_codec h" and "path_bytes h root = Inr A" and "plain_text t"
  shows "joinpath root t = root @ path_parts t" "path_bytes h (path_parts t) = Inr (at_text t)" "path_bytes h (joinpath root t) = Inr (A @ at_text t)"
    "at_text t \<noteq> []" "DOT_DOT \<notin> set (at_text t)" "last (joinpath root t) \<noteq> []" "stays h (path_parts t)"
proof -
  have ascii: "list_all (\<lambda>c. isascii c \<and> 0 \<notin> set c) (path_parts t)" using assms(3) by (simp add: plain_text_def list_all_iff)
  show join: "joinpath root t = root @ path_parts t" using assms(3) by (simp add: joinpath_def plain_text_def)
  show parts: "path_bytes h (path_parts t) = Inr (at_text t)" using path_bytes_ascii [OF assms(1) ascii] by (simp add: at_text_def)
  then show "path_bytes h (joinpath root t) = Inr (A @ at_text t)" using assms(2) by (simp add: join path_bytes_append)
  show "at_text t \<noteq> []" using assms(3) by (simp add: plain_text_def at_text_def)
  show "DOT_DOT \<notin> set (at_text t)" using path_bytes_dots [OF assms(1) parts] assms(3) by (auto simp: plain_text_def list_all_iff)
  have ne: "path_parts t \<noteq> []" using assms(3) by (simp add: plain_text_def)
  have "last (path_parts t) \<in> set (path_parts t)" using ne by simp
  then show "last (joinpath root t) \<noteq> []" using ne by (auto simp: join path_parts_def)
  show "stays h (path_parts t)" using assms(3) codec_dots [OF assms(1)] by (auto simp: stays_def plain_text_def list_all_iff)
qed

section \<open>The staged files\<close>

text \<open>The record of a manifest describes the staged file.\<close>

definition verified :: "'h installer_scheme \<Rightarrow> loc \<Rightarrow> fs \<Rightarrow> payload_record \<Rightarrow> bool" where
  "verified h D s r \<longleftrightarrow> (case r of (name, digest, count) \<Rightarrow>
     \<exists>x data u m. path_bytes h (U ''payload'' # path_parts name) = Inr x \<and> fs_at s (D @ x) = Some (File data u m)
       \<and> int (length data) = count \<and> bytes_hex (in_sha256 h data) = digest)"

lemma plain_cong: "plain_tree s D \<Longrightarrow> fs_at t = fs_at s \<Longrightarrow> plain_tree t D"
  by (simp add: plain_tree_def real_dir_def)

text \<open>What is found at a path into the staged tree.\<close>

lemma runs_stat_plain:
  assumes D: "path_bytes h staging = Inr D" and I: "node_pred I" "\<And>t. I t \<Longrightarrow> plain_tree t D" and xs: "stays h xs"
  shows "runs I (os_stat h follow (staging @ xs)) (\<lambda>nd t. I t \<and> (\<exists>x. path_bytes h xs = Inr x \<and> fs_at t (D @ x) = Some nd)) I"
proof (rule runs_post [OF runs_stat [OF I(1)]], assumption)
  fix nd t
  assume t: "I t \<and> (\<exists>b q. path_bytes h (staging @ xs) = Inr b \<and> resolve t follow MAX_LINKS [] b = Inr q \<and> fs_at t q = Some nd)"
  then obtain b q where b: "path_bytes h (staging @ xs) = Inr b" "resolve t follow MAX_LINKS [] b = Inr q" "fs_at t q = Some nd" by blast
  from b(1) obtain x where x: "path_bytes h xs = Inr x" "b = D @ x" using D by (auto simp: path_bytes_append)
  have "q = D @ x" using resolve_plain [OF I(2) stays_bytes [OF xs x(1)]] t b(2) x(2) by blast
  with t b(3) x(1) show "I t \<and> (\<exists>x. path_bytes h xs = Inr x \<and> fs_at t (D @ x) = Some nd)" by blast
qed

lemma runs_read_plain:
  assumes D: "path_bytes h staging = Inr D" and I: "node_pred I" "\<And>t. I t \<Longrightarrow> plain_tree t D" and xs: "stays h xs"
  shows "runs I (path_read_bytes h (staging @ xs)) (\<lambda>d t. I t \<and> (\<exists>x u m. path_bytes h xs = Inr x \<and> fs_at t (D @ x) = Some (File d u m))) I"
  unfolding path_read_bytes_def
proof (rule runs_bind [OF runs_stat_plain [OF assms]], assumption)
  fix nd
  let ?J = "\<lambda>t. I t \<and> (\<exists>x. path_bytes h xs = Inr x \<and> fs_at t (D @ x) = Some nd)"
  have "node_pred ?J" using I(1) unfolding node_pred_def by metis
  then have "runs ?J (os_fault h) (\<lambda>_. ?J) I" by (rule runs_fault) blast
  then show "runs ?J (case nd of File d _ _ \<Rightarrow> bindP (os_fault h) (\<lambda>_. ret d) | _ \<Rightarrow> raise OSError)
      (\<lambda>d t. I t \<and> (\<exists>x u m. path_bytes h xs = Inr x \<and> fs_at t (D @ x) = Some (File d u m))) I"
    by (cases nd) (auto intro!: runs_intros elim: runs_bind)
qed

lemma runs_verify:
  assumes codec: "fs_codec h" and D: "path_bytes h staging = Inr D" "plain_tree s D" and ok: "record_ok r"
  shows "runs (\<lambda>t. fs_at t = fs_at s) (verify_staged h (staging @ [U ''payload'']) r) (\<lambda>_ t. fs_at t = fs_at s \<and> verified h D s r) (\<lambda>t. fs_at t = fs_at s)"
proof -
  obtain name digest count where r: "r = (name, digest, count)" by (cases r) auto
  let ?xs = "U ''payload'' # path_parts name" and ?I = "\<lambda>t. fs_at t = fs_at s"
  have member: "validated_member_name name = Inr (path_parts name)" using ok by (simp add: r record_ok_def)
  have join: "joinpath (staging @ [U ''payload'']) name = staging @ ?xs" using member_name_parts(3) [OF member] by simp
  have "U ''..'' \<notin> set ?xs" using member_name_parts(2) [OF member] by (simp add: U_def)
  then have xs: "stays h ?xs" using codec_dots [OF codec] by (auto simp: stays_def list_all_iff)
  note stat = runs_stat_plain [OF D(1) node_pred_eq plain_cong [OF D(2)] xs]
  have status: "runs ?I (regular_status h (staging @ ?xs))
      (\<lambda>z t. ?I t \<and> (\<exists>x d u m. path_bytes h ?xs = Inr x \<and> fs_at s (D @ x) = Some (File d u m) \<and> fst z = length d)) ?I"
    unfolding regular_status_def by (rule runs_bind [OF stat], assumption) (auto intro!: runs_intros split: node.split)
  have hash: "runs ?I (sha256_file h (staging @ ?xs))
      (\<lambda>v t. ?I t \<and> (\<exists>x d u m. path_bytes h ?xs = Inr x \<and> fs_at s (D @ x) = Some (File d u m) \<and> v = bytes_hex (in_sha256 h d))) ?I"
    unfolding sha256_file_def sha256_stream_def
    by (rule runs_bind [OF runs_read_plain [OF D(1) node_pred_eq plain_cong [OF D(2)] xs]], assumption, rule runs_bind_lift)
      (auto intro!: runs_intros simp: bind_sum_eq_Inr)
  show ?thesis unfolding verify_staged_def r prod.case join
  proof (rule runs_bind [OF status])
    fix z :: "nat \<times> owner \<times> mode"
    obtain n u m where z: "z = (n, u, m)" by (cases z) auto
    show "runs (\<lambda>t. ?I t \<and> (\<exists>x d u m. path_bytes h ?xs = Inr x \<and> fs_at s (D @ x) = Some (File d u m) \<and> fst z = length d))
      (case z of (n, _, _) \<Rightarrow> if int n \<noteq> count then raise ArchiveError
         else bindP (sha256_file h (staging @ ?xs)) (\<lambda>found. if found \<noteq> digest then raise ArchiveError else ret ()))
      (\<lambda>_ t. ?I t \<and> verified h D s (name, digest, count)) ?I"
      unfolding z prod.case fst_conv
      by (rule runs_assume, rule runs_if, rule runs_raise, assumption, rule runs_bind [OF hash], rule runs_if)
        (auto intro!: runs_intros simp: verified_def)
  qed
qed

text \<open>The manifest in the staging directory, with records that describe the staged files.\<close>

definition staged_manifest :: "'h archive_host_scheme \<Rightarrow> loc \<Rightarrow> fs \<Rightarrow> payload_record list \<Rightarrow> bool" where
  "staged_manifest h D s records \<longleftrightarrow> (\<exists>raw u m manifest. fs_at s (D @ at_text (U ''manifest.json'')) = Some (File raw u m)
     \<and> parse_manifest h raw = Inr manifest \<and> manifest_records manifest = Inr records \<and> list_all (verified h D s) records)"

lemma manifest_text: "plain_text (U ''manifest.json'')" "path_parts (U ''manifest.json'') = [U ''manifest.json'']"
  by (simp_all add: plain_text_def path_parts_def U_def is_prefix_def isascii_def break_at_def)

lemma runs_check:
  assumes codec: "fs_codec h" and D: "path_bytes h staging = Inr D" "plain_tree s D"
  shows "runs (\<lambda>t. fs_at t = fs_at s) (check_staged h staging) (\<lambda>_ t. fs_at t = fs_at s \<and> (\<exists>records. staged_manifest h D s records)) (\<lambda>t. fs_at t = fs_at s)"
proof -
  let ?I = "\<lambda>t. fs_at t = fs_at s" and ?xs = "[U ''manifest.json'']"
  note name = plain_text_path [OF codec D(1) manifest_text(1), unfolded manifest_text(2)]
  have verify: "runs (\<lambda>t. ?I t \<and> list_all (verified h D s) rs) (for_each (verify_staged h (staging @ [U ''payload''])) records)
      (\<lambda>_ t. ?I t \<and> list_all (verified h D s) (rs @ records)) ?I" if "list_all record_ok records" for records rs
  proof (rule runs_for_each)
    fix r rs assume r: "r \<in> set records"
    show "runs (\<lambda>t. ?I t \<and> list_all (verified h D s) rs) (verify_staged h (staging @ [U ''payload'']) r)
      (\<lambda>_ t. ?I t \<and> list_all (verified h D s) (rs @ [r])) ?I"
      by (rule runs_assume, rule runs_post [OF runs_verify [OF codec D]]) (use that r in \<open>auto simp: list_all_iff\<close>)
  qed blast
  show ?thesis unfolding check_staged_def
  proof (rule runs_bind [OF runs_read_plain [OF D(1) node_pred_eq plain_cong [OF D(2)] name(7)]], assumption, rule runs_pre)
    fix raw t0 assume t0: "?I t0 \<and> (\<exists>x u m. path_bytes h ?xs = Inr x \<and> fs_at t0 (D @ x) = Some (File raw u m))"
    then obtain u m where raw: "fs_at s (D @ at_text (U ''manifest.json'')) = Some (File raw u m)" using name(2) by auto
    show "runs (\<lambda>t. t = t0) (bindP (lift_result (parse_manifest h raw)) (\<lambda>manifest. bindP (lift_result (manifest_records manifest)) (\<lambda>records.
        for_each (verify_staged h (staging @ [U ''payload''])) records))) (\<lambda>_ t. ?I t \<and> (\<exists>records. staged_manifest h D s records)) ?I"
    proof (intro runs_bind_lift)
      fix manifest records assume m: "parse_manifest h raw = Inr manifest" "manifest_records manifest = Inr records"
      show "runs (\<lambda>t. t = t0) (for_each (verify_staged h (staging @ [U ''payload''])) records) (\<lambda>_ t. ?I t \<and> (\<exists>records. staged_manifest h D s records)) ?I"
        by (rule runs_weaken [OF verify [OF manifest_records_ok(1) [OF m(2)], of "[]"]]) (use t0 m raw in \<open>auto simp: staged_manifest_def\<close>)
    qed (use t0 in auto)
  qed
qed

section \<open>The places of a restore\<close>

definition payload_at :: "loc \<Rightarrow> ustr \<Rightarrow> loc" where
  "payload_at D name = D @ ascii_bytes (U ''payload'') # at_text name"

definition data_of :: "node option \<Rightarrow> bytes" where
  "data_of nd = (case nd of Some (File d _ _) \<Rightarrow> d | _ \<Rightarrow> [])"

text \<open>The single files with the nodes they are to have.\<close>

definition restore_targets :: "'h host_scheme \<Rightarrow> loc \<Rightarrow> loc \<Rightarrow> fs \<Rightarrow> (loc \<times> node) list" where
  "restore_targets h A D s = map (\<lambda>(source, destination, m, u). (A @ at_text destination, installed h (data_of (fs_at s (payload_at D source))) m u)) fixed_destinations"

text \<open>The hidden names beside them, and the journals of the database.\<close>

definition restore_temps :: "'h host_scheme \<Rightarrow> path \<Rightarrow> loc \<Rightarrow> loc set" where
  "restore_temps h root A = (\<Union>(_, destination, _) \<in> set fixed_destinations. side_places h (joinpath root destination) (A @ butlast (at_text destination)))
     \<union> (\<lambda>t. A @ at_text (U t)) ` {''var/lib/ezopenpn/control/ezopenpn.sqlite3-wal'', ''var/lib/ezopenpn/control/ezopenpn.sqlite3-shm''}"

definition text_region :: "'h host_scheme \<Rightarrow> path \<Rightarrow> loc \<Rightarrow> ustr \<Rightarrow> loc set" where
  "text_region h root A t = tree_region h (joinpath root t) (A @ butlast (at_text t)) (last (at_text t))"

definition restore_places :: "'h host_scheme \<Rightarrow> path \<Rightarrow> loc \<Rightarrow> loc set" where
  "restore_places h root A = restore_temps h root A \<union> (\<lambda>(_, destination, _). A @ at_text destination) ` set fixed_destinations
     \<union> text_region h root A (U ''var/lib/ezopenpn/runtime/material'') \<union> text_region h root A (U ''var/lib/ezopenpn/caddy'')"

text \<open>The directories the restore writes in, and where the destinations are.\<close>

definition restore_dirs :: "string list list" where
  "restore_dirs = [[''etc'', ''ezopenpn''], [''var'', ''lib'', ''ezopenpn''], [''var'', ''lib'', ''ezopenpn'', ''control''], [''var'', ''lib'', ''ezopenpn'', ''secrets''],
     [''var'', ''lib'', ''ezopenpn'', ''runtime''], [''var'', ''lib'', ''ezopenpn'', ''runtime'', ''xray''], [''var'', ''lib'', ''ezopenpn'', ''runtime'', ''hysteria'']]"

definition fixed_names :: "string list list" where
  "fixed_names = [[''var'', ''lib'', ''ezopenpn'', ''control'', ''ezopenpn.sqlite3''],
      [''etc'', ''ezopenpn'', ''control.toml''], [''etc'', ''ezopenpn'', ''Caddyfile''], [''etc'', ''ezopenpn'', ''compose.yaml''], [''etc'', ''ezopenpn'', ''stack.env''],
      [''var'', ''lib'', ''ezopenpn'', ''secrets'', ''master.key''], [''var'', ''lib'', ''ezopenpn'', ''secrets'', ''hysteria-api.key''],
      [''var'', ''lib'', ''ezopenpn'', ''secrets'', ''hysteria-obfs.key''],
      [''var'', ''lib'', ''ezopenpn'', ''runtime'', ''xray'', ''config.json''], [''var'', ''lib'', ''ezopenpn'', ''runtime'', ''hysteria'', ''config.yaml'']]"

lemma fixed_places: "map (\<lambda>(_, destination, _). at_text destination) fixed_destinations = map place fixed_names"
proof -
  have "map (\<lambda>(_, destination, _). path_parts destination) fixed_destinations = map (map U) fixed_names"
    by (simp add: fixed_destinations_def fixed_names_def path_parts_def U_def break_at_def)
  then have "map (map ascii_bytes) (map (\<lambda>(_, destination, _). path_parts destination) fixed_destinations) = map (map ascii_bytes) (map (map U) fixed_names)"
    by (rule arg_cong)
  then show ?thesis by (simp add: at_text_def place_def [abs_def] case_prod_beta' o_def)
qed

lemma fixed_texts: "list_all (\<lambda>(source, destination, _). plain_text source \<and> plain_text destination \<and> source \<in> set (map fst FIXED_SOURCES)) fixed_destinations"
  by (simp add: fixed_destinations_def FIXED_SOURCES_def plain_text_def path_parts_def U_def isascii_def is_prefix_def)

lemma fixed_name:
  assumes "(source, destination, m, u) \<in> set fixed_destinations"
  obtains d where "d \<in> set fixed_names" "at_text destination = place d"
proof -
  have "at_text destination \<in> set (map (\<lambda>(_, destination, _). at_text destination) fixed_destinations)"
    using assms by (auto intro: rev_image_eqI)
  then show thesis using that by (auto simp: fixed_places)
qed

text \<open>The trees and the journals.\<close>

lemma tree_places:
  "plain_text (U ''var/lib/ezopenpn/runtime/material'')" "at_text (U ''var/lib/ezopenpn/runtime/material'') = place [''var'', ''lib'', ''ezopenpn'', ''runtime'', ''material'']"
  "plain_text (U ''var/lib/ezopenpn/caddy'')" "at_text (U ''var/lib/ezopenpn/caddy'') = place [''var'', ''lib'', ''ezopenpn'', ''caddy'']"
  "plain_text (U ''runtime/material'')" "plain_text (U ''caddy'')" "plain_text (U ''var/lib/ezopenpn/control'')"
  "at_text (U ''var/lib/ezopenpn/control'') = place [''var'', ''lib'', ''ezopenpn'', ''control'']"
  by (simp_all add: at_text_def place_def plain_text_def path_parts_def U_def isascii_def is_prefix_def)

lemma journal_places:
  "at_text (U ''var/lib/ezopenpn/control/ezopenpn.sqlite3-wal'') = place [''var'', ''lib'', ''ezopenpn'', ''control'', ''ezopenpn.sqlite3-wal'']"
  "at_text (U ''var/lib/ezopenpn/control/ezopenpn.sqlite3-shm'') = place [''var'', ''lib'', ''ezopenpn'', ''control'', ''ezopenpn.sqlite3-shm'']"
  by (simp_all add: at_text_def place_def path_parts_def U_def)

lemma name_facts:
  "list_all (\<lambda>d. d \<noteq> [] \<and> butlast d \<in> set restore_dirs \<and> hd (last d) \<noteq> CHR ''.'') fixed_names" "distinct fixed_names"
  by (simp_all add: fixed_names_def restore_dirs_def)

lemma literal_dot: "ascii_bytes (U n) = 46 # x \<Longrightarrow> n \<noteq> [] \<and> hd n = CHR ''.''"
proof -
  assume n: "ascii_bytes (U n) = 46 # x"
  then obtain c cs where c: "n = c # cs" by (cases n) (auto simp: ascii_bytes_def U_def)
  have "ascii_bytes (U [c]) = ascii_bytes (U ''.'')" using n by (simp add: c ascii_bytes_def U_def)
  then show ?thesis using literal_inj [of "[c]" "''.''"] by (simp add: c)
qed

lemma hidden_literal: "fs_codec h \<Longrightarrow> beside h p d (d' @ [ascii_bytes (U n)]) \<Longrightarrow> hd n = CHR ''.''"
  using beside_hidden literal_dot by blast

lemma place_butlast: "d \<noteq> [] \<Longrightarrow> place d = place (butlast d) @ [ascii_bytes (U (last d))]"
  using place_append [of "butlast d" "[last d]"] by (simp add: place_def)

text \<open>A place is clear of a tree when it does not go through the tree or a hidden name beside it.\<close>

definition clear_of :: "string list \<Rightarrow> string list \<Rightarrow> bool" where
  "clear_of tree d \<longleftrightarrow> (take (length tree - 1) d = butlast tree \<longrightarrow>
     (case drop (length tree - 1) d of [] \<Rightarrow> True | y # _ \<Rightarrow> y \<noteq> last tree \<and> hd y \<noteq> CHR ''.''))"

lemma place_clear:
  assumes codec: "fs_codec h" and tree: "tree \<noteq> []" "clear_of tree d"
  shows "A @ place d \<notin> tree_region h p (A @ place (butlast tree)) (ascii_bytes (U (last tree)))"
proof
  assume "A @ place d \<in> tree_region h p (A @ place (butlast tree)) (ascii_bytes (U (last tree)))"
  then obtain x rest where d: "place d = place (butlast tree) @ x # rest"
    and x: "x = ascii_bytes (U (last tree)) \<or> beside h p (A @ place (butlast tree)) ((A @ place (butlast tree)) @ [x])"
    by (auto simp: tree_region_def side_places_def is_prefix_iff beside_def) blast
  have len: "length tree - 1 = length (butlast tree)" by simp
  have "length (place (butlast tree)) = length (butlast tree)" by (simp add: place_def)
  then have "place (take (length (butlast tree)) d) = place (butlast tree)" and rest: "place (drop (length (butlast tree)) d) = x # rest"
    using d by (simp_all add: place_def flip: take_map drop_map)
  then have top: "take (length (butlast tree)) d = butlast tree" by (simp only: place_inj)
  from rest obtain y ys where y: "drop (length (butlast tree)) d = y # ys" "ascii_bytes (U y) = x"
    by (cases "drop (length (butlast tree)) d") (auto simp: place_def)
  then have "y \<noteq> last tree" "hd y \<noteq> CHR ''.''" using tree(2) top by (simp_all add: clear_of_def)
  with x y(2) show False using hidden_literal [OF codec] literal_inj by blast
qed

abbreviation material_tree :: "string list" where
  "material_tree \<equiv> [''var'', ''lib'', ''ezopenpn'', ''runtime'', ''material'']"

abbreviation caddy_tree :: "string list" where
  "caddy_tree \<equiv> [''var'', ''lib'', ''ezopenpn'', ''caddy'']"

abbreviation journals :: "string list list" where
  "journals \<equiv> map (\<lambda>n. [''var'', ''lib'', ''ezopenpn'', ''control'', n]) [''ezopenpn.sqlite3-wal'', ''ezopenpn.sqlite3-shm'']"

text \<open>A place whose name is not hidden and that is clear of the trees and the journals.\<close>

lemma place_free:
  assumes codec: "fs_codec h" and d: "d \<noteq> []" "hd (last d) \<noteq> CHR ''.''" "d \<notin> set journals" "clear_of material_tree d" "clear_of caddy_tree d"
  shows "A @ place d \<notin> restore_temps h root A" "A @ place d \<notin> text_region h root A (U ''var/lib/ezopenpn/runtime/material'')"
    "A @ place d \<notin> text_region h root A (U ''var/lib/ezopenpn/caddy'')"
proof -
  have "A @ place d \<notin> side_places h p d'" for p d'
    using hidden_literal [OF codec, of p d' "A @ place (butlast d)" "last d"] d(2) place_butlast [OF d(1)] by (auto simp: side_places_def)
  then show "A @ place d \<notin> restore_temps h root A" using d(3) by (auto simp: restore_temps_def journal_places place_inj)
  from place_clear [OF codec _ d(4)] place_clear [OF codec _ d(5)]
  show "A @ place d \<notin> text_region h root A (U ''var/lib/ezopenpn/runtime/material'')" "A @ place d \<notin> text_region h root A (U ''var/lib/ezopenpn/caddy'')"
    by (simp_all add: text_region_def tree_places place_def)
qed

lemma place_elsewhere:
  assumes "fs_codec h" and "d \<noteq> []" "hd (last d) \<noteq> CHR ''.''" "d \<notin> set journals" "clear_of material_tree d" "clear_of caddy_tree d" "d \<notin> set fixed_names"
  shows "A @ place d \<notin> restore_places h root A"
proof -
  have "A @ place d \<noteq> A @ at_text destination" if "(source, destination, m, u) \<in> set fixed_destinations" for source destination m u
    using fixed_name [OF that] assms(7) by (metis place_inj same_append_eq)
  with place_free [OF assms(1-6), of A root] show ?thesis by (fastforce simp: restore_places_def)
qed

lemma target_apart:
  assumes codec: "fs_codec h" and q: "(q, nd) \<in> set (restore_targets h A D s)"
  shows "q \<notin> restore_temps h root A" "q \<notin> text_region h root A (U ''var/lib/ezopenpn/runtime/material'')" "q \<notin> text_region h root A (U ''var/lib/ezopenpn/caddy'')"
proof -
  obtain d where d: "d \<in> set fixed_names" "q = A @ place d"
    using q fixed_name by (auto simp: restore_targets_def) metis
  have "list_all (\<lambda>d. d \<noteq> [] \<and> hd (last d) \<noteq> CHR ''.'' \<and> d \<notin> set journals \<and> clear_of material_tree d \<and> clear_of caddy_tree d) fixed_names"
    by (simp add: fixed_names_def clear_of_def)
  then show "q \<notin> restore_temps h root A" "q \<notin> text_region h root A (U ''var/lib/ezopenpn/runtime/material'')" "q \<notin> text_region h root A (U ''var/lib/ezopenpn/caddy'')"
    using d place_free [OF codec, of d A root] by (simp_all add: list_all_iff)
qed

lemma targets_distinct: "distinct (map fst (restore_targets h A D s))"
proof -
  have "map fst (restore_targets h A D s) = map (\<lambda>d. A @ place d) fixed_names"
    using arg_cong [OF fixed_places, of "map (append A)"] by (simp add: restore_targets_def case_prod_beta' o_def)
  then show ?thesis using name_facts(2) by (simp add: distinct_map inj_on_def place_inj)
qed

text \<open>All places of a restore are in the configuration and the state directory.\<close>

lemma places_top:
  assumes "q \<in> restore_places h root A"
  shows "\<exists>n rest. n \<in> {''etc'', ''var''} \<and> q = A @ ascii_bytes (U n) # rest"
proof -
  have dest: "\<exists>n d. n \<in> {''etc'', ''var''} \<and> at_text destination = place (n # d) \<and> d \<noteq> []"
    if e: "(source, destination, m, u) \<in> set fixed_destinations" for source destination m u
  proof -
    obtain d where "d \<in> set fixed_names" "at_text destination = place d" using fixed_name [OF e] .
    then show ?thesis by (auto simp: fixed_names_def)
  qed
  consider source destination m u where "(source, destination, m, u) \<in> set fixed_destinations"
      "q = A @ at_text destination \<or> q \<in> side_places h (joinpath root destination) (A @ butlast (at_text destination))"
    | x rest where "q = A @ place (''var'' # x) @ rest"
    using assms by (fastforce simp: restore_places_def restore_temps_def text_region_def tree_region_def side_places_def beside_def tree_places journal_places is_prefix_iff place_def)
  then show ?thesis
  proof cases
    case (1 source destination m u)
    then show ?thesis using dest [OF 1(1)] by (fastforce simp: side_places_def beside_def place_def)
  qed (auto simp: place_def)
qed

section \<open>Installing the single files\<close>

text \<open>What a restore needs: the directories it writes in, and a plain staged tree apart from its places.\<close>

definition restore_at :: "'h host_scheme \<Rightarrow> path \<Rightarrow> loc \<Rightarrow> path \<Rightarrow> loc \<Rightarrow> fs \<Rightarrow> bool" where
  "restore_at h root A staging D s \<longleftrightarrow> fs_codec h \<and> fs_wf s \<and> path_bytes h root = Inr A \<and> list_all (\<lambda>d. real_dir s (A @ place d)) restore_dirs
     \<and> path_bytes h staging = Inr D \<and> plain_tree s D \<and> apart D (restore_places h root A)"

text \<open>The files so far: \<open>fin\<close> are complete, the others are untouched or complete.\<close>

abbreviation files_done :: "'h host_scheme \<Rightarrow> path \<Rightarrow> loc \<Rightarrow> loc \<Rightarrow> fs \<Rightarrow> (loc \<times> node) set \<Rightarrow> fs \<Rightarrow> bool" where
  "files_done h root A D s \<equiv> partly (restore_temps h root A) (restore_targets h A D s) s"

lemma targets_apart: "fs_codec h \<Longrightarrow> restore_temps h root A \<inter> fst ` set (restore_targets h A D s) = {}"
  using target_apart(1) by fastforce

lemma done_real: "restore_at h root A staging D s \<Longrightarrow> files_done h root A D s fin t \<Longrightarrow> d \<in> set restore_dirs \<Longrightarrow> real_dir t (A @ place d)"
  unfolding restore_at_def partly_def by (metis list_all_iff real_dir_untouched)

lemma done_outside:
  assumes "files_done h root A D s fin t" and "q \<notin> restore_places h root A"
  shows "fs_at t q = fs_at s q"
proof -
  have "q \<notin> fst ` set (restore_targets h A D s)" using assms(2) by (force simp: restore_places_def restore_targets_def)
  then show ?thesis using partly_shape(2) [OF assms(1)] assms(2) by (simp add: restore_places_def)
qed

lemma done_plain: "restore_at h root A staging D s \<Longrightarrow> files_done h root A D s fin t \<Longrightarrow> plain_tree t D"
  using plain_apart done_outside unfolding restore_at_def by blast

lemma runs_journals:
  assumes at: "restore_at h root A staging D s"
  shows "runs (files_done h root A D s {}) (drop_journals h root) (\<lambda>_. files_done h root A D s {}) (files_done h root A D s {})"
proof -
  let ?J = "files_done h root A D s {}" and ?d = "[''var'', ''lib'', ''ezopenpn'', ''control'']"
  have codec: "fs_codec h" and root: "path_bytes h root = Inr A" using at by (simp_all add: restore_at_def)
  have dir: "path_bytes h (joinpath root (U ''var/lib/ezopenpn/control'')) = Inr (A @ place ?d)"
    using plain_text_path(3) [OF codec root tree_places(7)] by (simp add: tree_places)
  have drop: "runs ?J (path_unlink h (joinpath root (U ''var/lib/ezopenpn/control'') @ [U n]) True) (\<lambda>_. ?J) ?J"
    if n: "n \<in> {''ezopenpn.sqlite3-wal'', ''ezopenpn.sqlite3-shm''}" for n
  proof (rule runs_unlink [OF node_pred_partly])
    let ?q = "A @ place (?d @ [n])"
    have q: "?q \<in> restore_temps h root A" using n by (auto simp: restore_temps_def journal_places)
    have name: "ascii_bytes (U n) \<noteq> DOT_DOT" "path_bytes h [U n] = Inr [ascii_bytes (U n)]"
      using n path_bytes_ascii [OF codec, of "[U n]"] by (auto simp: ascii_bytes_def U_def DOT_DOT_def isascii_def)
    show "path_bytes h (joinpath root (U ''var/lib/ezopenpn/control'') @ [U n]) = Inr ?q"
      using dir name(2) by (simp add: path_bytes_append place_def)
    show "?q \<noteq> []" by (simp add: place_def)
    have "?q = (A @ place ?d) @ [ascii_bytes (U n)]" by (simp add: place_def)
    then show "resolve t False MAX_LINKS [] ?q = Inr ?q" if "?J t" for t
      using resolve_leaf [OF done_real [OF at that, of ?d] name(1)] by (simp add: restore_dirs_def)
    show "?J t'" if "?J t" "\<not> is_dir (fs_at t ?q)" "fs_at t' = (fs_at t)(?q := None)" for t t'
    proof (rule partly_intact [OF that(1), of "{?q}"])
      show "intact {?q} t t'" using that wf_remove [OF _ that(2,3)] untouched_put [OF _ _ that(2,3), of "{?q}" t] by (simp add: partly_def untouched_def)
    qed (use q targets_apart [OF codec] in auto)
  qed
  show ?thesis unfolding drop_journals_def Let_def by (rule runs_bind [OF drop drop]) auto
qed

abbreviation target_of :: "'h host_scheme \<Rightarrow> loc \<Rightarrow> loc \<Rightarrow> fs \<Rightarrow> ustr \<times> ustr \<times> mode \<times> owner \<Rightarrow> loc \<times> node" where
  "target_of h A D s \<equiv> \<lambda>(source, destination, m, u). (A @ at_text destination, installed h (data_of (fs_at s (payload_at D source))) m u)"

lemma staged_source:
  assumes at: "restore_at h root A staging D s" and records: "staged_manifest h D s records" and e: "(source, destination, m, u) \<in> set fixed_destinations"
  shows "\<exists>digest count u' m'. (source, digest, count) \<in> set records
    \<and> fs_at s (payload_at D source) = Some (File (data_of (fs_at s (payload_at D source))) u' m')
    \<and> int (length (data_of (fs_at s (payload_at D source)))) = count \<and> bytes_hex (in_sha256 h (data_of (fs_at s (payload_at D source)))) = digest"
proof -
  have codec: "fs_codec h" and root: "path_bytes h root = Inr A" using at by (simp_all add: restore_at_def)
  have source: "plain_text source" "source \<in> set (map fst FIXED_SOURCES)" using fixed_texts e by (auto simp: list_all_iff)
  obtain manifest where m: "manifest_records manifest = Inr records" "list_all (verified h D s) records" using records by (auto simp: staged_manifest_def)
  obtain digest count where r: "(source, digest, count) \<in> set records" using manifest_records_ok(4) [OF m(1)] source(2) by force
  have "path_bytes h [U ''payload''] = Inr [ascii_bytes (U ''payload'')]"
    using path_bytes_ascii [OF codec, of "[U ''payload'']"] by (simp add: U_def isascii_def)
  then have "path_bytes h (U ''payload'' # path_parts source) = Inr (ascii_bytes (U ''payload'') # at_text source)"
    using plain_text_path(2) [OF codec root source(1)] path_bytes_append [of h "[U ''payload'']" "path_parts source"] by simp
  then obtain data u' m' where "fs_at s (payload_at D source) = Some (File data u' m')" "int (length data) = count" "bytes_hex (in_sha256 h data) = digest"
    using r m(2) by (fastforce simp: list_all_iff verified_def payload_at_def)
  with r show ?thesis by (auto simp: data_of_def)
qed

lemma source_shown:
  assumes at: "restore_at h root A staging D s" and records: "staged_manifest h D s records" and e: "(source, destination, m, u) \<in> set fixed_destinations"
    and I: "\<And>t q. I t \<Longrightarrow> q \<notin> restore_places h root A \<Longrightarrow> fs_at t q = fs_at s q"
  shows "shows_file h I (joinpath (staging @ [U ''payload'']) source) (data_of (fs_at s (payload_at D source)))"
  unfolding shows_file_def
proof (intro allI impI)
  fix t b q nd assume t: "I t" "path_bytes h (joinpath (staging @ [U ''payload'']) source) = Inr b" "resolve t False MAX_LINKS [] b = Inr q" "fs_at t q = Some nd"
  have codec: "fs_codec h" and D: "path_bytes h staging = Inr D" "plain_tree s D" "apart D (restore_places h root A)" using at by (simp_all add: restore_at_def)
  have source: "plain_text source" using fixed_texts e by (auto simp: list_all_iff)
  have "path_bytes h (staging @ [U ''payload'']) = Inr (D @ [ascii_bytes (U ''payload'')])"
    using D(1) path_bytes_ascii [OF codec, of "[U ''payload'']"] by (simp add: path_bytes_append U_def isascii_def)
  note name = plain_text_path [OF codec this source]
  have b: "b = payload_at D source" using name(3) t(2) by (simp add: payload_at_def)
  have "DOT_DOT \<notin> set (ascii_bytes (U ''payload'') # at_text source)" using name(5) by (simp add: ascii_bytes_def U_def DOT_DOT_def)
  then have "q = payload_at D source" using resolve_plain [OF plain_apart [OF D(2,3) I [OF t(1)]]] t(3) by (simp add: b payload_at_def)
  then have "fs_at s (payload_at D source) = Some nd" using t(4) apart_same(1) [OF D(3) I [OF t(1)]] by (simp add: payload_at_def)
  then show "\<exists>u m. nd = File (data_of (fs_at s (payload_at D source))) u m" using staged_source [OF at records e] by auto
qed

lemma runs_install_step:
  assumes at: "restore_at h root A staging D s" and records: "staged_manifest h D s records" and e: "(source, destination, m, u) \<in> set fixed_destinations"
    and fin: "fin \<subseteq> set (restore_targets h A D s)"
  shows "runs (files_done h root A D s fin) (install_file h (joinpath (staging @ [U ''payload'']) source) (joinpath root destination) m u)
    (\<lambda>_. files_done h root A D s (insert (target_of h A D s (source, destination, m, u)) fin)) (files_done h root A D s fin)"
proof -
  have codec: "fs_codec h" and root: "path_bytes h root = Inr A" using at by (simp_all add: restore_at_def)
  have "plain_text destination" using fixed_texts e by (auto simp: list_all_iff)
  note name = plain_text_path [OF codec root this]
  obtain d where d: "d \<in> set fixed_names" "at_text destination = place d" using fixed_name [OF e] .
  have dir: "butlast d \<in> set restore_dirs" "d \<noteq> []" using name_facts(1) d(1) by (auto simp: list_all_iff)
  have split: "A @ at_text destination = (A @ place (butlast d)) @ [ascii_bytes (U (last d))]" using place_butlast [OF dir(2)] by (simp add: d(2))
  have last: "ascii_bytes (U (last d)) \<noteq> DOT_DOT" using name(5) place_butlast [OF dir(2)] by (auto simp: d(2))
  let ?T = "side_places h (joinpath root destination) (A @ place (butlast d))"
  have T: "?T \<subseteq> restore_temps h root A" using e d(2) by (fastforce simp: restore_temps_def place_def map_butlast)
  note path = name(3) [unfolded split] name(6) last
  show ?thesis unfolding prod.case
  proof (rule runs_partly [where T' = ?T])
    fix s1 assume s1: "files_done h root A D s fin s1"
    have away: "fs_at t q = fs_at s q" if "intact ?T s1 t" "q \<notin> restore_places h root A" for t q
    proof -
      have "q \<notin> ?T" using that(2) T by (auto simp: restore_places_def)
      then have "fs_at t q = fs_at s1 q" using that(1) by (simp add: untouched_def)
      then show ?thesis using done_outside [OF s1 that(2)] by simp
    qed
    show "runs (\<lambda>t. fs_at t = fs_at s1 \<and> fs_wf t) (install_file h (joinpath (staging @ [U ''payload'']) source) (joinpath root destination) m u)
      (\<lambda>_. replaced ?T s1 (A @ at_text destination) (installed h (data_of (fs_at s (payload_at D source))) m u))
      (\<lambda>t. intact ?T s1 t \<or> replaced ?T s1 (A @ at_text destination) (installed h (data_of (fs_at s (payload_at D source))) m u) t)"
      unfolding split by (rule runs_install_file [OF codec path done_real [OF at s1 dir(1)] source_shown [OF at records e away]])
  next
    show "(A @ at_text destination, installed h (data_of (fs_at s (payload_at D source))) m u) \<in> set (restore_targets h A D s)"
      using e by (force simp: restore_targets_def)
  qed (rule targets_distinct fin T targets_apart [OF codec])+
qed

lemma runs_install_fixed:
  assumes at: "restore_at h root A staging D s" and records: "staged_manifest h D s records"
  shows "runs (files_done h root A D s {}) (install_fixed h root (staging @ [U ''payload'']))
    (\<lambda>_. files_done h root A D s (set (restore_targets h A D s))) (files_done h root A D s {})"
proof -
  let ?P = "\<lambda>es t. files_done h root A D s (set (map (target_of h A D s) es) \<inter> set (restore_targets h A D s)) t"
  have "runs (?P []) (install_fixed h root (staging @ [U ''payload''])) (\<lambda>_. ?P ([] @ fixed_destinations)) (files_done h root A D s {})"
    unfolding install_fixed_def
  proof (rule runs_for_each [where P = ?P and rs = "[]"])
    fix e and es :: "(ustr \<times> ustr \<times> mode \<times> owner) list" assume e: "e \<in> set fixed_destinations"
    obtain source destination m u where q: "e = (source, destination, m, u)" by (cases e) auto
    have mem: "target_of h A D s e \<in> set (restore_targets h A D s)" using e by (force simp: restore_targets_def)
    show "runs (?P es) (case e of (source_name, destination_name, m, u) \<Rightarrow> install_file h (joinpath (staging @ [U ''payload'']) source_name) (joinpath root destination_name) m u)
      (\<lambda>_. ?P (es @ [e])) (files_done h root A D s {})"
      unfolding q prod.case
      by (rule runs_weaken [OF runs_install_step [OF at records e [unfolded q], of "set (map (target_of h A D s) es) \<inter> set (restore_targets h A D s)"]])
        (use mem in \<open>auto simp: q partly_def\<close>)
  qed (simp add: partly_def)
  then show ?thesis by (simp add: restore_targets_def)
qed

section \<open>Swapping the trees\<close>

lemma outside_refl: "fs_wf s \<Longrightarrow> outside R s s"
  and outside_trans: "outside R s t \<Longrightarrow> outside R' t u \<Longrightarrow> outside (R \<union> R') s u"
  and outside_mono: "outside R s t \<Longrightarrow> R \<subseteq> R' \<Longrightarrow> outside R' s t"
  by (auto simp: outside_def)

lemma copy_tree_at:
  assumes codec: "fs_codec h" and root: "path_bytes h root = Inr A" and dest: "plain_text t" "real_dir v (A @ butlast (at_text t))"
    and D: "path_bytes h staging = Inr D" "plain_tree v D" "apart D (text_region h root A t)" and source: "plain_text source"
  shows "keeps (outside (text_region h root A t) v) (copy_tree h (joinpath (staging @ [U ''payload'']) source) (joinpath root t) u)"
    "ends (outside (text_region h root A t) v) (copy_tree h (joinpath (staging @ [U ''payload'']) source) (joinpath root t) u)"
proof -
  note name = plain_text_path [OF codec root dest(1)]
  have last: "last (at_text t) \<noteq> DOT_DOT" using name(4,5) by (metis last_in_set)
  have at: "swap_at h (joinpath root t) (A @ butlast (at_text t)) (last (at_text t)) v"
    using codec name(3,4,6) dest(2) last by (simp add: swap_at_def)
  have staged: "staged h staging D (tree_region h (joinpath root t) (A @ butlast (at_text t)) (last (at_text t))) v"
    using D by (simp add: staged_def text_region_def)
  have "(A @ butlast (at_text t)) @ [last (at_text t)] \<in> text_region h root A t" unfolding text_region_def by (rule region_root) simp
  then have ne: "D \<noteq> []" using D(3) by (auto simp: apart_def is_prefix_iff)
  have path: "joinpath (staging @ [U ''payload'']) source = staging @ (U ''payload'' # path_parts source)"
    using source by (simp add: joinpath_def plain_text_def)
  have stays: "stays h (U ''payload'' # path_parts source)"
    using plain_text_path(7) [OF codec root source] codec_dots [OF codec, of "U ''payload''"] by (auto simp: stays_def U_def)
  show "keeps (outside (text_region h root A t) v) (copy_tree h (joinpath (staging @ [U ''payload'']) source) (joinpath root t) u)"
    unfolding path text_region_def by (rule keeps_copy_tree [OF at staged stays])
  show "ends (outside (text_region h root A t) v) (copy_tree h (joinpath (staging @ [U ''payload'']) source) (joinpath root t) u)"
    unfolding path text_region_def by (rule ends_copy_tree [OF at staged ne stays])
qed

abbreviation material_region :: "'h host_scheme \<Rightarrow> path \<Rightarrow> loc \<Rightarrow> loc set" where
  "material_region h root A \<equiv> text_region h root A (U ''var/lib/ezopenpn/runtime/material'')"

abbreviation caddy_region :: "'h host_scheme \<Rightarrow> path \<Rightarrow> loc \<Rightarrow> loc set" where
  "caddy_region h root A \<equiv> text_region h root A (U ''var/lib/ezopenpn/caddy'')"

definition trees_done :: "'h host_scheme \<Rightarrow> path \<Rightarrow> loc \<Rightarrow> loc \<Rightarrow> fs \<Rightarrow> (loc \<times> node) set \<Rightarrow> fs \<Rightarrow> bool" where
  "trees_done h root A D s fin t \<longleftrightarrow> (\<exists>v. files_done h root A D s fin v \<and> outside (material_region h root A \<union> caddy_region h root A) v t)"

text \<open>What the second tree needs is still there after the first.\<close>

lemma trees_keep:
  assumes at: "restore_at h root A staging D s" and v: "files_done h root A D s fin v" and t: "outside (material_region h root A) v t"
  shows "real_dir t (A @ place [''var'', ''lib'', ''ezopenpn''])" "plain_tree t D" "fs_wf t"
proof -
  have D: "apart D (restore_places h root A)" using at by (simp add: restore_at_def)
  have "take k (A @ place [''var'', ''lib'', ''ezopenpn'']) \<notin> material_region h root A" for k
    using region_deep [of _ h "joinpath root (U ''var/lib/ezopenpn/runtime/material'')" "A @ place [''var'', ''lib'', ''ezopenpn'', ''runtime'']"]
    by (fastforce simp: text_region_def tree_places place_def)
  moreover have "real_dir v (A @ place [''var'', ''lib'', ''ezopenpn''])" by (rule done_real [OF at v]) (simp add: restore_dirs_def)
  ultimately show "real_dir t (A @ place [''var'', ''lib'', ''ezopenpn''])" using t unfolding outside_def by (metis real_dir_cong)
  have "apart D (material_region h root A)" using D by (auto simp: apart_def restore_places_def)
  then show "plain_tree t D" using plain_apart [OF done_plain [OF at v]] t unfolding outside_def by blast
  show "fs_wf t" using t by (simp add: outside_def)
qed

lemma apply_trees:
  assumes at: "restore_at h root A staging D s"
  shows "runs (files_done h root A D s fin) (install_trees h root (staging @ [U ''payload''])) (\<lambda>_. trees_done h root A D s fin) (trees_done h root A D s fin)" "ends (files_done h root A D s fin) (install_trees h root (staging @ [U ''payload'']))"
proof -
  let ?M = "material_region h root A" and ?C = "caddy_region h root A"
  let ?first = "copy_tree h (joinpath (staging @ [U ''payload'']) (U ''runtime/material'')) (joinpath root (U ''var/lib/ezopenpn/runtime/material'')) (0, 0)"
  let ?second = "copy_tree h (joinpath (staging @ [U ''payload'']) (U ''caddy'')) (joinpath root (U ''var/lib/ezopenpn/caddy'')) (10004, 11003)"
  have base: "fs_codec h" "path_bytes h root = Inr A" "path_bytes h staging = Inr D" "apart D ?M" "apart D ?C"
    using at by (auto simp: restore_at_def apart_def restore_places_def)
  have first: "keeps (outside ?M v) ?first" "ends (outside ?M v) ?first" if v: "files_done h root A D s fin v" for v
  proof -
    have "real_dir v (A @ butlast (at_text (U ''var/lib/ezopenpn/runtime/material'')))"
      using done_real [OF at v, of "[''var'', ''lib'', ''ezopenpn'', ''runtime'']"] by (simp add: restore_dirs_def tree_places place_def)
    note copy_tree_at [OF base(1,2) tree_places(1) this base(3) done_plain [OF at v] base(4) tree_places(5)]
    then show "keeps (outside ?M v) ?first" "ends (outside ?M v) ?first" by blast+
  qed
  have second: "keeps (outside ?C t) ?second" "ends (outside ?C t) ?second" if v: "files_done h root A D s fin v" "outside ?M v t" for v t
  proof -
    have "real_dir t (A @ butlast (at_text (U ''var/lib/ezopenpn/caddy'')))" using trees_keep(1) [OF at v] by (simp add: tree_places place_def)
    note copy_tree_at [OF base(1,2) tree_places(3) this base(3) trees_keep(2) [OF at v] base(5) tree_places(6)]
    then show "keeps (outside ?C t) ?second" "ends (outside ?C t) ?second" by blast+
  qed
  have wf: "fs_wf v" if "files_done h root A D s fin v" for v using that by (simp add: partly_def)
  have middle: "runs (\<lambda>t. t = v) ?first (\<lambda>_. outside ?M v) (trees_done h root A D s fin)" if v: "files_done h root A D s fin v" for v
    by (rule runs_weaken [OF runs_keeps [OF first(1) [OF v]]]) (use v wf [OF v] in \<open>auto simp: trees_done_def intro: outside_refl outside_mono\<close>)
  have after: "runs (outside ?M v) ?second (\<lambda>_. trees_done h root A D s fin) (trees_done h root A D s fin)" if v: "files_done h root A D s fin v" for v
  proof (rule runs_pre)
    fix t assume t: "outside ?M v t"
    have "trees_done h root A D s fin t'" if "outside ?C t t'" for t' unfolding trees_done_def using v outside_trans [OF t that] by blast
    then show "runs (\<lambda>u. u = t) ?second (\<lambda>_. trees_done h root A D s fin) (trees_done h root A D s fin)"
      by (intro runs_weaken [OF runs_keeps [OF second(1) [OF v t]]]) (simp_all add: outside_refl [OF trees_keep(3) [OF at v t]])
  qed
  show "runs (files_done h root A D s fin) (install_trees h root (staging @ [U ''payload''])) (\<lambda>_. trees_done h root A D s fin) (trees_done h root A D s fin)"
    unfolding install_trees_def by (rule runs_pre, rule runs_bind [OF middle after])
  show "ends (files_done h root A D s fin) (install_trees h root (staging @ [U ''payload'']))"
    unfolding install_trees_def
  proof (rule ends_at)
    fix v assume v: "files_done h root A D s fin v"
    have "ends (outside ?M v) ?second"
    proof (rule ends_at)
      fix t assume t: "outside ?M v t"
      show "ends (\<lambda>s. s = t) ?second" by (rule ends_pre [OF second(2) [OF v t]]) (simp add: outside_refl [OF trees_keep(3) [OF at v t]])
    qed
    moreover have "ends (\<lambda>s. s = v) ?first" by (rule ends_pre [OF first(2) [OF v]]) (use wf [OF v] in \<open>simp add: outside_refl\<close>)
    ultimately show "ends (\<lambda>s. s = v) (bindP ?first (\<lambda>_. ?second))" by (intro ends_bind [OF _ middle [OF v]])
  qed
qed

section \<open>The whole operation\<close>

lemma returns_apply_parts [returns_intros]:
  "returns (verify_staged h payload r)" "returns (check_staged h staging)" "returns (drop_journals h root)" "returns (install_file h src p m u)"
  "returns (install_fixed h root payload)"
proof -
  show verify: "returns (verify_staged h payload r)" for payload r by (cases r) (auto simp: verify_staged_def intro!: returns_intros)
  show "returns (check_staged h staging)" unfolding check_staged_def by (intro returns_intros verify)
  show "returns (drop_journals h root)" unfolding drop_journals_def by (intro returns_intros)
  show install: "returns (install_file h src p m u)" for src p m u
    unfolding install_file_def apply_owner_def os_chown_def by (intro returns_intros)
  show "returns (install_fixed h root payload)" unfolding install_fixed_def by (intro returns_intros install)
qed

lemma apply_parts:
  assumes at: "restore_at h root A staging D s"
  shows "runs (\<lambda>t. t = s) (apply_payload h root staging)
      (\<lambda>_ t. (\<exists>records. staged_manifest h D s records) \<and> trees_done h root A D s (set (restore_targets h A D s)) t)
      (\<lambda>t. fs_at t = fs_at s \<or> (\<exists>records. staged_manifest h D s records) \<and> trees_done h root A D s {} t)"
    and "ends (\<lambda>t. t = s) (apply_payload h root staging)"
proof -
  let ?I = "\<lambda>t. fs_at t = fs_at s" and ?ok = "\<exists>records. staged_manifest h D s records" and ?F = "files_done h root A D s"
  let ?all = "set (restore_targets h A D s)"
  have base: "fs_codec h" "path_bytes h staging = Inr D" "plain_tree s D" "fs_wf s" using at by (simp_all add: restore_at_def)
  have start: "?F {} t" if "?I t" for t using partly_start that wf_cong [OF that] base(4) by blast
  have trees: "trees_done h root A D s {} t" if "?F fin t \<or> trees_done h root A D s fin t" for fin t
    using that outside_refl partly_less unfolding trees_done_def partly_def by blast
  note check = runs_check [OF base(1-3)]
  have rest: "runs ?I (bindP (drop_journals h root) (\<lambda>_. bindP (install_fixed h root (staging @ [U ''payload''])) (\<lambda>_. install_trees h root (staging @ [U ''payload'']))))
      (\<lambda>_. trees_done h root A D s ?all) (trees_done h root A D s {})"
    and rest_ends: "ends ?I (bindP (drop_journals h root) (\<lambda>_. bindP (install_fixed h root (staging @ [U ''payload''])) (\<lambda>_. install_trees h root (staging @ [U ''payload'']))))" if ok: ?ok
  proof -
    obtain records where records: "staged_manifest h D s records" using ok by blast
    note files = runs_install_fixed [OF at records]
    show "runs ?I (bindP (drop_journals h root) (\<lambda>_. bindP (install_fixed h root (staging @ [U ''payload''])) (\<lambda>_. install_trees h root (staging @ [U ''payload'']))))
        (\<lambda>_. trees_done h root A D s ?all) (trees_done h root A D s {})"
      by (rule runs_then [OF runs_weaken [OF runs_journals [OF at] start]], assumption, assumption, assumption, erule trees [OF disjI1],
          rule runs_then [OF files], erule trees [OF disjI1], rule runs_weaken [OF apply_trees(1) [OF at]], assumption, assumption, erule trees [OF disjI2])
    show "ends ?I (bindP (drop_journals h root) (\<lambda>_. bindP (install_fixed h root (staging @ [U ''payload''])) (\<lambda>_. install_trees h root (staging @ [U ''payload'']))))"
      by (rule ends_pre [OF _ start], rule ends_bind [OF ends_returns [OF returns_apply_parts(3)] runs_journals [OF at]],
          rule ends_bind [OF ends_returns [OF returns_apply_parts(5)] files], rule apply_trees(2) [OF at])
  qed
  show "runs (\<lambda>t. t = s) (apply_payload h root staging) (\<lambda>_ t. ?ok \<and> trees_done h root A D s ?all t)
      (\<lambda>t. ?I t \<or> ?ok \<and> trees_done h root A D s {} t)"
    unfolding apply_payload_def Let_def
    by (rule runs_then [OF runs_weaken [OF check]], simp, assumption, assumption, simp, rule runs_assume, rule runs_weaken [OF rest]) auto
  show "ends (\<lambda>t. t = s) (apply_payload h root staging)"
    unfolding apply_payload_def Let_def
    by (rule ends_pre [where J = ?I], rule ends_bind [OF ends_returns [OF returns_apply_parts(2)] check], rule ends_assume, rule rest_ends) auto
qed

text \<open>What \<open>trees_done\<close> leaves of the single files and of everything else.\<close>

lemma trees_done_shape:
  assumes codec: "fs_codec h" and t: "trees_done h root A D s fin t" and fin: "fin \<subseteq> set (restore_targets h A D s)"
  shows "\<forall>(q, nd) \<in> set (restore_targets h A D s). fs_at t q = Some nd \<or> (q, nd) \<notin> fin \<and> fs_at t q = fs_at s q"
    and "\<forall>q. q \<notin> restore_places h root A \<longrightarrow> fs_at t q = fs_at s q"
proof -
  obtain v where v: "files_done h root A D s fin v" "outside (material_region h root A \<union> caddy_region h root A) v t" using t by (auto simp: trees_done_def)
  have same: "fs_at t q = fs_at v q" if "(q, nd) \<in> set (restore_targets h A D s)" for q nd
    using v(2) target_apart(2,3) [OF codec that] by (simp add: outside_def)
  with partly_shape(1) [OF v(1)] show "\<forall>(q, nd) \<in> set (restore_targets h A D s). fs_at t q = Some nd \<or> (q, nd) \<notin> fin \<and> fs_at t q = fs_at s q" by fastforce
  show "\<forall>q. q \<notin> restore_places h root A \<longrightarrow> fs_at t q = fs_at s q"
    using v(2) done_outside [OF v(1)] by (simp add: outside_def restore_places_def)
qed

lemma restored_files:
  assumes at: "restore_at h root A staging D s" and records: "staged_manifest h D s records"
    and t: "trees_done h root A D s (if broken then {} else set (restore_targets h A D s)) t"
  shows "\<forall>(source, destination, m, u) \<in> set fixed_destinations. \<exists>digest count data u' m'. (source, digest, count) \<in> set records
      \<and> fs_at s (payload_at D source) = Some (File data u' m') \<and> int (length data) = count \<and> bytes_hex (in_sha256 h data) = digest
      \<and> (fs_at t (A @ at_text destination) = Some (installed h data m u)
         \<or> broken \<and> fs_at t (A @ at_text destination) = fs_at s (A @ at_text destination))"
proof clarify
  fix source destination m u1 u2 assume e: "(source, destination, m, u1, u2) \<in> set fixed_destinations"
  let ?data = "data_of (fs_at s (payload_at D source))"
  have codec: "fs_codec h" using at by (simp add: restore_at_def)
  have "target_of h A D s (source, destination, m, u1, u2) \<in> set (restore_targets h A D s)" using e by (force simp: restore_targets_def)
  then have "fs_at t (A @ at_text destination) = Some (installed h ?data m (u1, u2)) \<or> broken \<and> fs_at t (A @ at_text destination) = fs_at s (A @ at_text destination)"
    using trees_done_shape(1) [OF codec t] by (cases broken) fastforce+
  then show "\<exists>digest count data u' m'. (source, digest, count) \<in> set records
      \<and> fs_at s (payload_at D source) = Some (File data u' m') \<and> int (length data) = count \<and> bytes_hex (in_sha256 h data) = digest
      \<and> (fs_at t (A @ at_text destination) = Some (installed h data m (u1, u2)) \<or> broken \<and> fs_at t (A @ at_text destination) = fs_at s (A @ at_text destination))"
    using staged_source [OF at records e] by blast
qed

text \<open>The state in which the operation leaves the tree.\<close>

lemma apply_outcome:
  assumes at: "restore_at h root A staging D s" and run: "apply_payload h root staging s = (r, t)"
  shows "r \<noteq> Stuck" "r \<noteq> Ok () \<and> fs_at t = fs_at s
    \<or> (\<exists>records. staged_manifest h D s records \<and> trees_done h root A D s (if r \<noteq> Ok () then {} else set (restore_targets h A D s)) t)"
proof -
  show ends: "r \<noteq> Stuck" using apply_parts(2) [OF at] run by (auto simp: ends_def)
  show "r \<noteq> Ok () \<and> fs_at t = fs_at s
    \<or> (\<exists>records. staged_manifest h D s records \<and> trees_done h root A D s (if r \<noteq> Ok () then {} else set (restore_targets h A D s)) t)"
    using runs_Ok [OF apply_parts(1) [OF at] refl, of "()" t] runs_Raise [OF apply_parts(1) [OF at] refl, of _ t] run ends by (cases r) auto
qed

end
