(* ===== verification/Installer_Properties.thy ===== *)
theory Installer_Properties
  imports Render_Facts Apply_Facts
begin

text \<open>
  What the installer promises: well-typed material, files that are replaced whole, and on one concrete host the
  hypotheses of these theorems.
\<close>

section \<open>A concrete host\<close>

text \<open>A host whose file names are Latin-1; no call fails, and every write takes seven bytes.\<close>

definition sample_host :: installer where
  "sample_host = \<lparr>io_fault = \<lambda>_. False, io_written = \<lambda>_. 7,
     io_fsencode = \<lambda>t. if list_all (\<lambda>c. c < 256) t then Inr (map word_of_nat t) else Inl UnicodeError,
     io_fsdecode = map unat, io_random_name = \<lambda>n. dec_str n, io_umask = 18, io_owner = root_owner,
     in_sha256 = \<lambda>x. take 32 (x @ replicate 32 0), in_hmac_sha256 = \<lambda>k x. take 32 (k @ x @ replicate 32 0), in_json_depth = 100,
     in_float_text = id, in_number_eq = \<lambda>a b. a = b, in_clock = 1700000000\<rparr>"

lemma sample_codec: "fs_codec sample_host"
proof -
  have ascii: "list_all (\<lambda>c. c < 256) t" if "isascii t" for t
    using that unfolding isascii_def by (rule list.pred_mono_strong) simp
  have low: "isascii t" if "list_all (\<lambda>c. c < 256) t" "list_all (\<lambda>x. unat (word_of_nat x :: byte) < 128) t" for t
    using that by (induction t) (auto simp: unat_byte_of_nat)
  show ?thesis
    by (auto simp: fs_codec_def sample_host_def ascii ascii_bytes_def low list.pred_map o_def unat_byte_less list.pred_True split: if_splits)
qed

section \<open>Material\<close>

text \<open>
  C37. The material that the renderer accepts is well typed, and well-typed material is accepted. Whatever JSON the two
  material files hold, the values that validation returns have keys of 42 to 44 URL-safe characters that decode to
  32 bytes, a short identifier of 16 lower-case hexadecimal digits, fallback limits within their ranges with a burst not below
  the rate, different limits for the two directions, the two fixed certificate paths, and secrets that decode to 32
  bytes. Conversely, the documents that hold such values validate to exactly these values.
\<close>

theorem material_typed:
  "(validated_values number_eq runtime node = Inr (x, y) \<longrightarrow> xray_ok x \<and> hysteria_ok y)
   \<and> (xray_ok x \<and> hysteria_ok y \<longrightarrow> validated_values number_eq (runtime_material x y) (node_material x) = Inr (x, y))"
  using validated_ok validated_material by blast

definition sample_key :: ustr where "sample_key = url_token (replicate 32 9)"
definition sample_limits :: "int \<Rightarrow> fallback_limits" where "sample_limits n = \<lparr>fl_after = 1048576 + n, fl_rate = 131072, fl_burst = 262144\<rparr>"

definition sample_xray :: xray_values where
  "sample_xray = \<lparr>xv_private_key = sample_key, xv_public_key = sample_key, xv_short_id = U ''0123456789abcdef'',
     xv_upload = sample_limits 0, xv_download = sample_limits 1\<rparr>"

definition sample_hysteria :: hysteria_values where
  "sample_hysteria = \<lparr>hv_certificate_path = U ''/certs/fullchain.pem'', hv_private_key_path = U ''/certs/privkey.pem'',
     hv_obfs_password = sample_key, hv_stats_secret = sample_key\<rparr>"

lemma sample_key_text: "sample_key = U ''CQkJCQkJCQkJCQkJCQkJCQkJCQkJCQkJCQkJCQkJCQk''"
  by code_simp

lemma sample_key_ok: "KEY_PATTERN sample_key" "holds_32_bytes sample_key"
  by (simp_all add: sample_key_text KEY_PATTERN_def holds_32_bytes_def urlsafe_b64decode_def b64_padded_def U_def isascii_def is_url_char_def
      url_to_std_def std_index_def url_index_def)

theorem material_typed_witness:
  "validated_values (\<lambda>a b. a = b) (runtime_material sample_xray sample_hysteria) (node_material sample_xray) = Inr (sample_xray, sample_hysteria)"
  using material_typed [of "\<lambda>a b. a = b" "runtime_material sample_xray sample_hysteria" "node_material sample_xray" sample_xray sample_hysteria] sample_key_ok
  by (simp add: xray_ok_def hysteria_ok_def sample_xray_def sample_hysteria_def sample_limits_def limits_ok_def RENDER_SHORT_ID_def U_def is_lower_hex_def)

section \<open>Configuration files\<close>

text \<open>
  C38. The renderer replaces files whole. Let it run on any host, with any schedule of failing system calls, in a
  well-formed tree where the configuration directory and the two runtime directories are directories that are reached without
  links. It always ends, and one of two things happens. Either it fails and no node of the tree is changed; or the
  material and the templates on the disk determined five files, every one of which is afterwards either untouched or
  complete, with the rendered content, the intended mode and the owner of the process, and nothing else in the tree is
  different except temporary names of the renderer. After success all five are complete. The rendered Xray configuration is a JSON text that
  reads back as the intended document, for well-typed values.
\<close>

theorem render_replaces_whole:
  assumes "fs_codec h" and "fs_wf s"
    and "path_bytes h etc_root = Inr etc" and "real_dir s etc"
    and "path_bytes h (runtime_root @ [U ''xray'']) = Inr xdir" and "real_dir s xdir"
    and "path_bytes h (runtime_root @ [U ''hysteria'']) = Inr ydir" and "real_dir s ydir"
    and run: "render h values_path node_path public_ip deploy_root etc_root runtime_root s = (r, t)"
  shows "r \<noteq> Stuck \<and>
    (r \<noteq> Ok () \<and> fs_at t = fs_at s
     \<or> (\<exists>xray hysteria ip page caddyfile compose.
          prepared h s values_path node_path public_ip deploy_root xray hysteria ip page caddyfile compose
          \<and> xray_ok xray \<and> hysteria_ok hysteria
          \<and> json_loads_bytes 6 (ascii_bytes (xray_config h xray)) = Inr (xray_document xray)
          \<and> (let targets = targets_of h etc xdir ydir xray hysteria ip page caddyfile compose in
              (\<forall>(q, nd) \<in> set targets. fs_at t q = Some nd \<or> r \<noteq> Ok () \<and> fs_at t q = fs_at s q)
              \<and> (\<forall>q. q \<notin> fst ` set targets \<longrightarrow> q \<notin> render_temps h etc_root runtime_root etc xdir ydir \<longrightarrow> fs_at t q = fs_at s q))))"
proof -
  have valid: "xray_ok xray \<and> hysteria_ok hysteria \<and> json_loads_bytes 6 (ascii_bytes (xray_config h xray)) = Inr (xray_document xray)"
    if "prepared h s values_path node_path public_ip deploy_root xray hysteria ip page caddyfile compose" for xray hysteria ip page caddyfile compose
    using that validated_ok xray_config_bytes(2) [of xray 6 h] unfolding prepared_def by blast
  have "r \<noteq> Stuck" using returns_render run by (metis returnsD)
  then show ?thesis
  proof (cases r)
    case (Ok u)
    from runs_Ok [OF runs_render [OF assms(1,3-8)] _ run [unfolded Ok]] assms(2)
    obtain xray hysteria ip page caddyfile compose where ready: "prepared h s values_path node_path public_ip deploy_root xray hysteria ip page caddyfile compose"
      and out: "partly (render_temps h etc_root runtime_root etc xdir ydir) (targets_of h etc xdir ydir xray hysteria ip page caddyfile compose) s
        (set (targets_of h etc xdir ydir xray hysteria ip page caddyfile compose)) t"
      unfolding Let_def by blast
    from partly_shape [OF out] have
      "(\<forall>(q, nd) \<in> set (targets_of h etc xdir ydir xray hysteria ip page caddyfile compose). fs_at t q = Some nd)
       \<and> (\<forall>q. q \<notin> fst ` set (targets_of h etc xdir ydir xray hysteria ip page caddyfile compose) \<longrightarrow>
             q \<notin> render_temps h etc_root runtime_root etc xdir ydir \<longrightarrow> fs_at t q = fs_at s q)" by blast
    with ready valid [OF ready] show ?thesis unfolding Ok Let_def by blast
  next
    case (Raise e)
    from runs_Raise [OF runs_render [OF assms(1,3-8)] _ run [unfolded Raise]] assms(2)
    consider "fs_at t = fs_at s" | xray hysteria ip page caddyfile compose where
        "prepared h s values_path node_path public_ip deploy_root xray hysteria ip page caddyfile compose"
        "partly (render_temps h etc_root runtime_root etc xdir ydir) (targets_of h etc xdir ydir xray hysteria ip page caddyfile compose) s {} t"
      by blast
    then show ?thesis
    proof cases
      case (2 xray hysteria ip page caddyfile compose)
      from partly_shape [OF 2(2)] have
        "(\<forall>(q, nd) \<in> set (targets_of h etc xdir ydir xray hysteria ip page caddyfile compose). fs_at t q = Some nd \<or> fs_at t q = fs_at s q)
         \<and> (\<forall>q. q \<notin> fst ` set (targets_of h etc xdir ydir xray hysteria ip page caddyfile compose) \<longrightarrow>
               q \<notin> render_temps h etc_root runtime_root etc xdir ydir \<longrightarrow> fs_at t q = fs_at s q)" by blast
      with 2(1) valid [OF 2(1)] show ?thesis unfolding Raise Let_def by blast
    qed (simp add: Raise)
  qed simp
qed

text \<open>A tree with the material, the templates, the three directories and a file that is none of the renderer's business.\<close>

definition sample_tree :: fs where
  "sample_tree = \<lparr>fs_nodes =
     [(place [''etc''], Dir root_owner 493), (place [''etc'', ''passwd''], File [1] root_owner 420),
      (place [''runtime''], Dir root_owner 448), (place [''runtime'', ''xray''], Dir root_owner 448), (place [''runtime'', ''hysteria''], Dir root_owner 448),
      (place [''deploy''], Dir root_owner 493), (place [''deploy'', ''caddy''], Dir root_owner 493),
      (place [''deploy'', ''caddy'', ''Caddyfile''], File (ascii_bytes (join_lines [STUB_OPEN, STUB_CLOSE])) root_owner 420),
      (place [''deploy'', ''compose.yaml''], File [] root_owner 420),
      (place [''values.json''], File (ascii_bytes (json_dumps id js_default 0 (JDict (runtime_material sample_xray sample_hysteria)))) root_owner 384),
      (place [''node.json''], File (ascii_bytes (json_dumps id js_default 0 (JDict (node_material sample_xray)))) root_owner 384)],
     fs_calls = 0\<rparr>"

lemmas place_simps = place_def ascii_bytes_def U_def

lemma sample_tree_wf: "fs_wf sample_tree"
  by (rule fs_wf_listed) (simp add: sample_tree_def fs_at_def place_simps)

lemma sample_dirs: "real_dir sample_tree (place [''etc''])" "real_dir sample_tree (place [''runtime'', ''xray''])"
  "real_dir sample_tree (place [''runtime'', ''hysteria''])"
  by (auto simp: real_dir_def sample_tree_def fs_at_def place_simps DOT_DOT_def le_Suc_eq numeral_2_eq_2)

lemma sample_paths: "path_bytes sample_host (map U p) = Inr (place p)"
  if "list_all (\<lambda>c. list_all (\<lambda>x. of_char x \<noteq> (0 :: nat) \<and> of_char x < (128 :: nat)) c) p"
proof -
  have "list_all (\<lambda>c. isascii c \<and> 0 \<notin> set c) (map U p)"
    using that by (fastforce simp: list_all_iff isascii_def U_def)
  from path_bytes_ascii [OF sample_codec this] show ?thesis by (simp add: place_def o_def)
qed

abbreviation sample_render :: "unit outcome \<times> fs" where
  "sample_render \<equiv> render sample_host [U ''values.json''] [U ''node.json''] (U ''203.0.113.7'') [U ''deploy''] [U ''etc''] [U ''runtime''] sample_tree"

theorem render_replaces_whole_witness:
  "fst sample_render \<noteq> Stuck \<and> fs_at (snd sample_render) (place [''etc'', ''passwd'']) = Some (File [1] root_owner 420)"
proof -
  let ?q = "place [''etc'', ''passwd'']" and ?T = "render_temps sample_host [U ''etc''] [U ''runtime''] (place [''etc'']) (place [''runtime'', ''xray'']) (place [''runtime'', ''hysteria''])"
  have old: "fs_at sample_tree ?q = Some (File [1] root_owner 420)" by (simp add: sample_tree_def fs_at_def place_simps)
  have here: "?q \<notin> fst ` set (targets_of sample_host (place [''etc'']) (place [''runtime'', ''xray'']) (place [''runtime'', ''hysteria'']) x y ip page caddyfile compose)"
    for x y ip page caddyfile compose by (simp add: render_targets_def place_simps)
  have "?q = place [''etc''] @ [ascii_bytes (U ''passwd'')]" by (simp add: place_def)
  moreover have "place [''etc''] @ [ascii_bytes (U ''passwd'')] \<notin> ?T"
    by (auto simp: render_temps_def dest!: temp_place_hidden [OF sample_codec]) (simp_all add: place_simps)
  ultimately have "?q \<notin> ?T" by simp
  with here show ?thesis
    using render_replaces_whole [OF sample_codec sample_tree_wf _ sample_dirs(1) _ sample_dirs(2) _ sample_dirs(3),
        of "[U ''etc'']" "[U ''runtime'']" "[U ''values.json'']" "[U ''node.json'']" "U ''203.0.113.7''" "[U ''deploy'']" "fst sample_render" "snd sample_render"]
      sample_paths [of "[''etc'']"] sample_paths [of "[''runtime'', ''xray'']"] sample_paths [of "[''runtime'', ''hysteria'']"] old
    by (auto simp: Let_def)
qed

section \<open>Backup archives\<close>


text \<open>The same host with an archive that claims a member outside of the staging directory.\<close>

definition sample_archive_host :: archive_host where
  "sample_archive_host = installer.extend sample_host
     \<lparr>ah_sqlite = \<lambda>_. None, ah_targz = \<lambda>_ _. [], ah_partial = \<lambda>_. [],
      ah_untar = \<lambda>_. Inr \<lparr>ts_members = [\<lparr>tm_name = U ''../etc/passwd'', tm_isfile = True, tm_size = 1, tm_data = [2], tm_error = None\<rparr>], ts_error = None\<rparr>\<rparr>"

lemma sample_archive_codec: "fs_codec sample_archive_host"
  using sample_codec by (simp add: fs_codec_def sample_archive_host_def installer.defs sample_host_def)




text \<open>
  C40. A restore installs exactly what the manifest describes, file by file and whole. Let the payload that has been extracted
  into a staging directory be applied, on any host and with any schedule of failing system calls, in a well-formed tree
  where the directories of the installation are reached without links, and where the staged tree has proper names and no
  links and does not overlap the places of the restore. The operation always ends, and one of two things happens. Either it fails and no node
  of the tree is changed; or the manifest in the staging directory is accepted, and for each of the ten single
  destinations it has a record that gives the size and the SHA-256 digest of the staged file, and the destination is afterwards either
  untouched or complete, with this data, the fixed mode and, for root, the fixed owner. After success all ten are
  complete. Nothing else in the tree is different except hidden names beside the destinations, the two journals of the
  database, and the two trees with hidden names beside them.
\<close>

theorem restore_installs:
  assumes "fs_codec h" and "fs_wf s" and "path_bytes h root = Inr A" and "list_all (\<lambda>d. real_dir s (A @ place d)) restore_dirs"
    and "path_bytes h staging = Inr D" and "plain_tree s D" and "apart D (restore_places h root A)"
    and run: "apply_payload h root staging s = (r, t)"
  shows "r \<noteq> Stuck \<and>
    (r \<noteq> Ok () \<and> fs_at t = fs_at s
     \<or> (\<exists>records. staged_manifest h D s records
          \<and> (\<forall>(source, destination, m, u) \<in> set fixed_destinations. \<exists>digest count data u' m'. (source, digest, count) \<in> set records
              \<and> fs_at s (payload_at D source) = Some (File data u' m') \<and> int (length data) = count \<and> bytes_hex (in_sha256 h data) = digest
              \<and> (fs_at t (A @ at_text destination) = Some (installed h data m u)
                 \<or> r \<noteq> Ok () \<and> fs_at t (A @ at_text destination) = fs_at s (A @ at_text destination)))
          \<and> (\<forall>q. q \<notin> restore_places h root A \<longrightarrow> fs_at t q = fs_at s q)))"
proof -
  have at: "restore_at h root A staging D s" using assms by (simp add: restore_at_def)
  from apply_outcome(2) [OF at run] show ?thesis
  proof (elim disjE exE conjE)
    fix records assume m: "staged_manifest h D s records" "trees_done h root A D s (if r \<noteq> Ok () then {} else set (restore_targets h A D s)) t"
    have "\<forall>q. q \<notin> restore_places h root A \<longrightarrow> fs_at t q = fs_at s q" by (rule trees_done_shape(2) [OF assms(1) m(2)]) simp
    with m(1) restored_files [OF at m] apply_outcome(1) [OF at run] show ?thesis by blast
  qed (simp add: apply_outcome(1) [OF at run])
qed

text \<open>A host for the restore, and a tree with the directories of an installation and a staging directory.\<close>

definition sample_restore_host :: restore_host where
  "sample_restore_host = archive_host.extend sample_archive_host \<lparr>rh_pid = 42, rh_urandom = \<lambda>_. [1, 2, 3, 4]\<rparr>"

lemma sample_restore_codec: "fs_codec sample_restore_host"
  using sample_archive_codec by (simp add: fs_codec_def sample_restore_host_def archive_host.defs sample_archive_host_def installer.defs sample_host_def)

definition installed_tree :: fs where
  "installed_tree = \<lparr>fs_nodes = map (\<lambda>d. (place d, Dir root_owner 448))
       ([[''etc''], [''var''], [''var'', ''lib''], [''stage''], [''stage'', ''payload'']] @ restore_dirs)
     @ [(place [''etc'', ''passwd''], File [1] root_owner 420), (place [''stage'', ''manifest.json''], File (ascii_bytes (U ''{}'')) root_owner 384)],
     fs_calls = 0\<rparr>"

abbreviation sample_apply :: "unit outcome \<times> fs" where
  "sample_apply \<equiv> apply_payload sample_restore_host [] [U ''stage''] installed_tree"

lemma installed_tree_wf: "fs_wf installed_tree"
  by (rule fs_wf_listed) (simp add: installed_tree_def restore_dirs_def fs_at_def place_simps)

lemma wf_real_dir: "fs_wf s \<Longrightarrow> is_dir (fs_at s d) \<Longrightarrow> DOT_DOT \<notin> set d \<Longrightarrow> real_dir s d"
proof (induction d rule: rev_induct)
  case (snoc c d)
  then have "is_dir (fs_at s d)" by (auto simp: fs_wf_def is_dir_iff)
  with snoc show ?case by (intro real_dir_snoc) auto
qed (simp add: real_dir_def)

lemma installed_tree_dirs: "list_all (\<lambda>d. real_dir installed_tree (place d)) restore_dirs" "real_dir installed_tree (place [''stage''])"
proof -
  have "list_all (\<lambda>d. is_dir (fs_at installed_tree (place d)) \<and> DOT_DOT \<notin> set (place d)) ([''stage''] # restore_dirs)"
    by (simp add: installed_tree_def restore_dirs_def fs_at_def place_simps DOT_DOT_def)
  then show "list_all (\<lambda>d. real_dir installed_tree (place d)) restore_dirs" "real_dir installed_tree (place [''stage''])"
    by (auto simp: list_all_iff intro: wf_real_dir [OF installed_tree_wf])
qed

lemma installed_tree_plain: "plain_tree installed_tree (place [''stage''])"
proof -
  have "\<not> is_link (Some nd) \<and> list_all proper_name x" if "fs_at installed_tree (place [''stage''] @ x) = Some nd" for x nd
  proof -
    have "(place [''stage''] @ x, nd) \<in> set (fs_nodes installed_tree)" using that by (auto simp: fs_at_def place_def dest: map_of_SomeD)
    then show ?thesis by (auto simp: installed_tree_def restore_dirs_def place_simps proper_name_def DOT_DOT_def)
  qed
  with installed_tree_dirs(2) show ?thesis by (simp add: plain_tree_def)
qed

theorem restore_installs_witness:
  "fst sample_apply \<noteq> Stuck \<and> fs_at (snd sample_apply) (place [''etc'', ''passwd'']) = Some (File [1] root_owner 420)"
proof -
  have apart: "apart (place [''stage'']) (restore_places sample_restore_host [] [])"
    unfolding apart_def using places_top [of _ sample_restore_host "[]" "[]"] by (fastforce simp: is_prefix_iff place_def literal_inj Cons_eq_append_conv)
  have staging: "path_bytes sample_restore_host [U ''stage''] = Inr (place [''stage''])"
    using path_bytes_ascii [OF sample_restore_codec, of "[U ''stage'']"] by (simp add: place_def) (simp add: U_def)
  have old: "fs_at installed_tree (place [''etc'', ''passwd'']) = Some (File [1] root_owner 420)"
    by (simp add: installed_tree_def restore_dirs_def fs_at_def place_simps)
  have "[] @ place [''etc'', ''passwd''] \<notin> restore_places sample_restore_host [] []"
    by (rule place_elsewhere [OF sample_restore_codec]) (simp_all add: clear_of_def fixed_names_def)
  then show ?thesis
    using restore_installs [OF sample_restore_codec installed_tree_wf _ _ staging installed_tree_plain apart, of "fst sample_apply" "snd sample_apply"]
      installed_tree_dirs(1) old by auto
qed

end
