(* ===== verification/Config.thy ===== *)
theory Config
  imports Files Installer
begin

text \<open>
  The configuration of the panel, \<^verbatim>\<open>control/src/ezopenpn/config.py\<close>: the settings with their validators, the file they are read
  from, and the secret files. \<^verbatim>\<open>tomllib\<close> and the conversions of \<^verbatim>\<open>pydantic\<close> are fields of the host; a conversion that fails
  is \<open>None\<close>, and all failures of a model are one \<^verbatim>\<open>ValidationError\<close>, which is a \<^verbatim>\<open>ValueError\<close>.
\<close>

section \<open>The settings\<close>

datatype toml = TomlString ustr | TomlInt int | TomlFloat ustr | TomlBool bool | TomlTime ustr
  | TomlArray "toml list" | TomlTable "(ustr \<times> toml) list"

type_synonym toml_table = "(ustr \<times> toml) list"

record config_host = host +
  cf_toml :: "ustr \<Rightarrow> exn + toml_table"
  pd_str :: "toml \<Rightarrow> ustr option"
  pd_int :: "toml \<Rightarrow> int option"
  pd_ip :: "toml \<Rightarrow> ipv4 option"
  pd_path :: "toml \<Rightarrow> ustr option"
  pd_str_set :: "toml \<Rightarrow> ustr list option"
  pd_url :: "toml \<Rightarrow> ustr option"

record app_settings =
  ap_public_ip :: ipv4

record database_settings =
  db_path :: ustr

record path_settings =
  ps_master_key_path :: ustr
  ps_hysteria_api_path :: ustr
  ps_hysteria_obfs_path :: ustr
  ps_supervisor_socket :: ustr

record proxy_trust_settings =
  pt_trusted_hosts :: "ustr list"

record xray_settings =
  xs_grpc_target :: ustr
  xs_inbound_tag :: ustr
  xs_reality_public_key :: ustr
  xs_reality_short_id :: ustr

record hysteria_settings =
  hs_stats_url :: ustr

record session_settings =
  ss_idle_seconds :: int
  ss_absolute_seconds :: int

record settings =
  st_app :: app_settings
  st_database :: database_settings
  st_paths :: path_settings
  st_proxy :: proxy_trust_settings
  st_xray :: xray_settings
  st_hysteria :: hysteria_settings
  st_session :: session_settings

section \<open>Validation\<close>

text \<open>A field that is absent has its default; a model accepts a table and no further keys.\<close>

definition model_field :: "(toml \<Rightarrow> 'a option) \<Rightarrow> 'a option \<Rightarrow> ustr \<Rightarrow> toml_table \<Rightarrow> 'a option" where
  "model_field convert missing name t = (case map_of t name of None \<Rightarrow> missing | Some v \<Rightarrow> convert v)"

definition only_fields :: "ustr list \<Rightarrow> toml_table \<Rightarrow> bool" where
  "only_fields names t \<longleftrightarrow> list_all (\<lambda>(k, _). k \<in> set names) t"

definition sub_model :: "(toml_table \<Rightarrow> 'a option) \<Rightarrow> toml \<Rightarrow> 'a option" where
  "sub_model validate v = (case v of TomlTable t \<Rightarrow> validate t | _ \<Rightarrow> None)"

definition is_absolute :: "ustr \<Rightarrow> bool" where
  "is_absolute p = is_prefix [47] p"

definition require_absolute_path :: "'h config_host_scheme \<Rightarrow> toml \<Rightarrow> ustr option" where
  "require_absolute_path h v = Option.bind (pd_path h v) (\<lambda>p. if \<not> is_absolute p then None else Some p)"

definition require_named_hosts :: "'h config_host_scheme \<Rightarrow> toml \<Rightarrow> ustr list option" where
  "require_named_hosts h v = Option.bind (pd_str_set h v) (\<lambda>hosts. let normalized = remdups (map strip hosts) in
     if normalized = [] \<or> [] \<in> set normalized then None else Some normalized)"

definition require_nonempty_value :: "'h config_host_scheme \<Rightarrow> toml \<Rightarrow> ustr option" where
  "require_nonempty_value h v = Option.bind (pd_str h v) (\<lambda>t. let normalized = strip t in
     if normalized = [] then None else Some normalized)"

text \<open>\<^verbatim>\<open>[0-9a-f]{2,16}\<close>\<close>

definition require_short_id :: "'h config_host_scheme \<Rightarrow> toml \<Rightarrow> ustr option" where
  "require_short_id h v = Option.bind (pd_str h v) (\<lambda>t.
     if \<not> (2 \<le> length t \<and> length t \<le> 16 \<and> list_all is_lower_hex t) then None else Some t)"

definition app_model :: "'h config_host_scheme \<Rightarrow> toml_table \<Rightarrow> app_settings option" where
  "app_model h t = (if \<not> only_fields [U ''public_ip''] t then None
     else map_option app_settings.make (model_field (pd_ip h) None (U ''public_ip'') t))"

definition database_model :: "'h config_host_scheme \<Rightarrow> toml_table \<Rightarrow> database_settings option" where
  "database_model h t = (if \<not> only_fields [U ''path''] t then None
     else map_option database_settings.make (model_field (require_absolute_path h) None (U ''path'') t))"

definition path_model :: "'h config_host_scheme \<Rightarrow> toml_table \<Rightarrow> path_settings option" where
  "path_model h t =
     (if \<not> only_fields [U ''master_key_path'', U ''hysteria_api_path'', U ''hysteria_obfs_path'', U ''supervisor_socket''] t then None else
      Option.bind (model_field (require_absolute_path h) (Some (U ''/run/secrets/ezopenpn_master_key'')) (U ''master_key_path'') t) (\<lambda>master.
      Option.bind (model_field (require_absolute_path h) (Some (U ''/run/secrets/ezopenpn_hysteria_api'')) (U ''hysteria_api_path'') t) (\<lambda>api.
      Option.bind (model_field (require_absolute_path h) (Some (U ''/run/secrets/ezopenpn_hysteria_obfs'')) (U ''hysteria_obfs_path'') t) (\<lambda>obfs.
      Option.bind (model_field (require_absolute_path h) (Some (U ''/run/ezopenpn-xray/control.sock'')) (U ''supervisor_socket'') t) (\<lambda>socket.
      Some (path_settings.make master api obfs socket))))))"

definition proxy_model :: "'h config_host_scheme \<Rightarrow> toml_table \<Rightarrow> proxy_trust_settings option" where
  "proxy_model h t = (if \<not> only_fields [U ''trusted_hosts''] t then None
     else map_option proxy_trust_settings.make (model_field (require_named_hosts h) (Some [U ''gateway'']) (U ''trusted_hosts'') t))"

definition xray_model :: "'h config_host_scheme \<Rightarrow> toml_table \<Rightarrow> xray_settings option" where
  "xray_model h t =
     (if \<not> only_fields [U ''grpc_target'', U ''inbound_tag'', U ''reality_public_key'', U ''reality_short_id''] t then None else
      Option.bind (model_field (require_nonempty_value h) (Some (U ''xray:10085'')) (U ''grpc_target'') t) (\<lambda>target.
      Option.bind (model_field (require_nonempty_value h) (Some (U ''protected-entry'')) (U ''inbound_tag'') t) (\<lambda>tag.
      Option.bind (model_field (require_nonempty_value h) None (U ''reality_public_key'') t) (\<lambda>key.
      Option.bind (model_field (require_short_id h) None (U ''reality_short_id'') t) (\<lambda>short_id.
      Some (xray_settings.make target tag key short_id))))))"

definition hysteria_model :: "'h config_host_scheme \<Rightarrow> toml_table \<Rightarrow> hysteria_settings option" where
  "hysteria_model h t = (if \<not> only_fields [U ''stats_url''] t then None
     else map_option hysteria_settings.make (model_field (pd_url h) (pd_url h (TomlString (U ''http://hysteria:9999''))) (U ''stats_url'') t))"

definition validate_deadlines :: "session_settings \<Rightarrow> session_settings option" where
  "validate_deadlines s = (if ss_idle_seconds s \<le> 0 \<or> ss_absolute_seconds s \<le> 0 then None
     else if ss_idle_seconds s > ss_absolute_seconds s then None else Some s)"

definition session_model :: "'h config_host_scheme \<Rightarrow> toml_table \<Rightarrow> session_settings option" where
  "session_model h t = (if \<not> only_fields [U ''idle_seconds'', U ''absolute_seconds''] t then None else
     Option.bind (model_field (pd_int h) (Some (12 * 60 * 60)) (U ''idle_seconds'') t) (\<lambda>idle.
     Option.bind (model_field (pd_int h) (Some (7 * 24 * 60 * 60)) (U ''absolute_seconds'') t) (\<lambda>absolute.
     validate_deadlines (session_settings.make idle absolute))))"

definition settings_model :: "'h config_host_scheme \<Rightarrow> toml_table \<Rightarrow> settings option" where
  "settings_model h t =
     (if \<not> only_fields [U ''app'', U ''database'', U ''paths'', U ''proxy'', U ''xray'', U ''hysteria'', U ''session''] t then None else
      Option.bind (model_field (sub_model (app_model h)) None (U ''app'') t) (\<lambda>app.
      Option.bind (model_field (sub_model (database_model h)) None (U ''database'') t) (\<lambda>database.
      Option.bind (model_field (sub_model (path_model h)) (path_model h []) (U ''paths'') t) (\<lambda>paths.
      Option.bind (model_field (sub_model (proxy_model h)) (proxy_model h []) (U ''proxy'') t) (\<lambda>proxy.
      Option.bind (model_field (sub_model (xray_model h)) None (U ''xray'') t) (\<lambda>xray.
      Option.bind (model_field (sub_model (hysteria_model h)) (hysteria_model h []) (U ''hysteria'') t) (\<lambda>hysteria.
      Option.bind (model_field (sub_model (session_model h)) (session_model h []) (U ''session'') t) (\<lambda>session.
      Some (settings.make app database paths proxy xray hysteria session)))))))))"

section \<open>Loading\<close>

definition LEGACY_XRAY_KEYS :: "ustr list" where
  "LEGACY_XRAY_KEYS = [U ''reality_server_name'', U ''xhttp_path'']"

definition normalize_settings :: "toml_table \<Rightarrow> exn + toml_table" where
  "normalize_settings loaded = (case map_of loaded (U ''app'') of
     Some (TomlTable app) \<Rightarrow> (case (case map_of loaded (U ''database'') of None \<Rightarrow> TomlTable [] | Some v \<Rightarrow> v) of
         TomlTable database \<Rightarrow>
           bind_sum (case map_of app (U ''database_path'') of None \<Rightarrow> Inr database
             | Some legacy_database_path \<Rightarrow> if map_of database (U ''path'') \<noteq> None then Inl ValueError
                 else Inr (AList.update (U ''path'') legacy_database_path database)) (\<lambda>database.
           let normalized = AList.update (U ''database'') (TomlTable database)
                 (AList.update (U ''app'') (TomlTable (AList.delete (U ''database_path'') app)) loaded) in
           Inr (case map_of loaded (U ''xray'') of
               Some (TomlTable xray) \<Rightarrow> AList.update (U ''xray'') (TomlTable (filter (\<lambda>(k, _). k \<notin> set LEGACY_XRAY_KEYS) xray)) normalized
             | _ \<Rightarrow> normalized))
       | _ \<Rightarrow> Inl ValueError)
   | _ \<Rightarrow> Inl ValueError)"

definition settings_of_text :: "'h config_host_scheme \<Rightarrow> ustr \<Rightarrow> exn + settings" where
  "settings_of_text h content = bind_sum (cf_toml h content) (\<lambda>loaded.
     bind_sum (normalize_settings loaded) (\<lambda>normalized.
     case settings_model h normalized of None \<Rightarrow> Inl ValueError | Some s \<Rightarrow> Inr s))"

definition settings_load :: "'h config_host_scheme \<Rightarrow> path \<Rightarrow> (fs, settings) prog" where
  "settings_load h config_path = bindP (path_read_bytes h config_path) (\<lambda>raw.
     bindP (lift_result (decode_utf8 raw)) (\<lambda>content. lift_result (settings_of_text h content)))"

section \<open>Secret files\<close>

definition SECRET_SIZE :: nat where "SECRET_SIZE = 32"

text \<open>\<^verbatim>\<open>os.fdopen\<close> refuses a directory, after the handlers.\<close>

definition read_secret :: "'h host_scheme \<Rightarrow> path \<Rightarrow> (fs, bytes) prog" where
  "read_secret h p =
     bindP (catch (os_stat h False p) (\<lambda>e. raise (if e = OSError then ValueError else e))) (\<lambda>path_status.
     if is_link (Some path_status) then raise ValueError else
     bindP (catch (bindP (os_stat h False p) (\<lambda>opened. if is_link (Some opened) then raise OSError else ret opened))
       (\<lambda>e. raise (if e = OSError then ValueError else e))) (\<lambda>opened.
     if is_dir (Some opened) then raise OSError else
     bindP (os_fault h) (\<lambda>_. case opened of
         File d _ m \<Rightarrow> if m \<noteq> 384 then raise ValueError else
           bindP (os_fault h) (\<lambda>_. let v = take (SECRET_SIZE + 1) d in
           if length v \<noteq> SECRET_SIZE then raise ValueError else ret v)
       | _ \<Rightarrow> raise ValueError)))"

record secret_files =
  sf_master_key :: bytes
  sf_hysteria_api_secret :: bytes
  sf_hysteria_obfs_secret :: bytes

definition secret_files_load :: "'h host_scheme \<Rightarrow> path \<Rightarrow> path \<Rightarrow> path \<Rightarrow> (fs, secret_files) prog" where
  "secret_files_load h master_key_path hysteria_api_path hysteria_obfs_path =
     bindP (read_secret h master_key_path) (\<lambda>master_key.
     bindP (read_secret h hysteria_api_path) (\<lambda>api.
     bindP (read_secret h hysteria_obfs_path) (\<lambda>obfs. ret (secret_files.make master_key api obfs))))"

definition secret_files_repr :: "secret_files \<Rightarrow> ustr" where
  "secret_files_repr s = U ''SecretFiles(master_key=<redacted>, '' @ U ''hysteria_api_secret=<redacted>, '' @ U ''hysteria_obfs_secret=<redacted>)''"

end
