(* ===== verification/Backup.thy ===== *)
theory Backup
  imports Archive Config
begin

text \<open>
  The online backup of the database, \<^verbatim>\<open>control/src/ezopenpn/backup.py\<close>. SQLite is a field of the host: what it answers about a database file,
  and what its backup leaves in the target. It may change the files beside a database that it opens, the
  rollback journal, the write-ahead log and the shared-memory file.
\<close>

section \<open>SQLite\<close>

text \<open>For each suffix: nothing changes, or the file beside the database is gone, or it is there with this data and mode.\<close>

type_synonym companions = "ustr \<Rightarrow> (bytes \<times> mode) option option"

definition SIDE_SUFFIXES :: "ustr list" where
  "SIDE_SUFFIXES = [U ''-journal'', U ''-wal'', U ''-shm'']"

definition side_of :: "loc \<Rightarrow> ustr \<Rightarrow> loc" where
  "side_of q suffix = butlast q @ [last q @ ascii_bytes suffix]"

definition touch_side :: "'h host_scheme \<Rightarrow> loc \<Rightarrow> companions \<Rightarrow> ustr \<Rightarrow> (fs, unit) prog" where
  "touch_side h q effects suffix = (case effects suffix of None \<Rightarrow> ret () | Some r \<Rightarrow>
     bindP (gets (\<lambda>s. fs_at s (side_of q suffix))) (\<lambda>nd. if is_dir nd then ret ()
       else modify (case r of None \<Rightarrow> fs_remove (side_of q suffix) | Some (d, m) \<Rightarrow> fs_put (side_of q suffix) (File d (io_owner h) m))))"

text \<open>
  The answers to \<^verbatim>\<open>PRAGMA quick_check\<close> (the text of each row), to the query of the schema and to \<^verbatim>\<open>PRAGMA foreign_key_check\<close> (whether there is
  a row), and what a backup of one database into another leaves.
\<close>

record sqlite_view =
  qv_quick :: "exn + ustr list"
  qv_schema :: "exn + sql_value list list"
  qv_foreign :: "exn + bool"
  qv_side :: companions

record sqlite_copy =
  cp_data :: bytes
  cp_target_side :: companions
  cp_source_side :: companions
  cp_error :: "exn option"

record backup_host = installer +
  bk_view :: "path \<Rightarrow> fs \<Rightarrow> sqlite_view"
  bk_copy :: "path \<Rightarrow> path \<Rightarrow> fs \<Rightarrow> sqlite_copy"

text \<open>SQLite finds the file itself, and reports what it cannot open as its own error.\<close>

definition sqlite_place :: "'h host_scheme \<Rightarrow> path \<Rightarrow> (fs, loc) prog" where
  "sqlite_place h p = catch (os_place h True p) (\<lambda>_. raise SqliteError)"

definition sqlite_read :: "'h backup_host_scheme \<Rightarrow> path \<Rightarrow> (fs, sqlite_view) prog" where
  "sqlite_read h p = bindP (sqlite_place h p) (\<lambda>q. bindP (gets (bk_view h p)) (\<lambda>v.
     bindP (for_each (touch_side h q (qv_side v)) SIDE_SUFFIXES) (\<lambda>_. ret v)))"

definition set_data :: "bytes \<Rightarrow> node \<Rightarrow> node" where
  "set_data d nd = (case nd of File _ u m \<Rightarrow> File d u m | other \<Rightarrow> other)"

definition sqlite_backup :: "'h backup_host_scheme \<Rightarrow> path \<Rightarrow> path \<Rightarrow> (fs, unit) prog" where
  "sqlite_backup h source target = bindP (sqlite_place h source) (\<lambda>q. bindP (sqlite_place h target) (\<lambda>r.
     bindP (gets (bk_copy h source target)) (\<lambda>c.
     bindP (modify (change_node r (set_data (cp_data c)))) (\<lambda>_.
     bindP (for_each (touch_side h q (cp_source_side c)) SIDE_SUFFIXES) (\<lambda>_.
     bindP (for_each (touch_side h r (cp_target_side c)) SIDE_SUFFIXES) (\<lambda>_.
     case cp_error c of None \<Rightarrow> ret () | Some e \<Rightarrow> raise e))))))"

section \<open>Verification\<close>

definition BACKUP_SCHEMA_VERSIONS :: "ustr list" where
  "BACKUP_SCHEMA_VERSIONS = [U ''0001_initial'']"

record database_verification =
  dv_database_path :: path
  dv_ok :: bool
  dv_quick_check :: ustr
  dv_schema_version :: "ustr option"
  dv_sha256 :: ustr

record database_backup =
  bu_database_path :: path
  bu_quick_check :: ustr
  bu_schema_version :: ustr
  bu_sha256 :: ustr

definition file_sha256 :: "'h installer_scheme \<Rightarrow> path \<Rightarrow> (fs, ustr) prog" where
  "file_sha256 h p = bindP (path_read_bytes h p) (\<lambda>d. ret (bytes_hex (in_sha256 h d)))"

definition schema_version :: "sql_value list list \<Rightarrow> ustr option" where
  "schema_version rows = (case rows of [[SqlText v]] \<Rightarrow> Some v | _ \<Rightarrow> None)"

text \<open>\<open>Inl\<close> is an exception that \<^verbatim>\<open>verify_database\<close> handles.\<close>

definition expected :: "('s, 'a) prog \<Rightarrow> ('s, exn + 'a) prog" where
  "expected m = catch (bindP m (\<lambda>a. ret (Inr a))) (\<lambda>e. if e = OSError \<or> e = SqliteError \<or> is_ValueError e then ret (Inl e) else raise e)"

text \<open>The queries in their order, with what is known when one of them fails.\<close>

definition read_view :: "path \<Rightarrow> ustr \<Rightarrow> sqlite_view \<Rightarrow> (fs, database_verification) prog" where
  "read_view p digest v =
     bindP (expected (lift_result (qv_quick v))) (\<lambda>r. case r of
       Inl _ \<Rightarrow> ret (database_verification.make p False (U ''unavailable'') None digest)
     | Inr quick_rows \<Rightarrow> let quick_check = join_with (U ''; '') quick_rows in
     bindP (expected (lift_result (qv_schema v))) (\<lambda>r. case r of
       Inl _ \<Rightarrow> ret (database_verification.make p False quick_check None digest)
     | Inr rows \<Rightarrow>
     bindP (expected (lift_result (qv_foreign v))) (\<lambda>r. case r of
       Inl _ \<Rightarrow> ret (database_verification.make p False quick_check (schema_version rows) digest)
     | Inr foreign_key_errors \<Rightarrow> ret (database_verification.make p
         (quick_rows = [U ''ok''] \<and> \<not> foreign_key_errors \<and> (\<exists>v \<in> set BACKUP_SCHEMA_VERSIONS. schema_version rows = Some v))
         quick_check (schema_version rows) digest))))"

definition verify_database :: "'h backup_host_scheme \<Rightarrow> path \<Rightarrow> (fs, database_verification) prog" where
  "verify_database h p =
     bindP (expected (bindP (os_stat h False p) (\<lambda>status. case status of
         File _ _ _ \<Rightarrow> file_sha256 h p | _ \<Rightarrow> raise ValueError))) (\<lambda>r. case r of
       Inl _ \<Rightarrow> ret (database_verification.make p False (U ''unavailable'') None [])
     | Inr digest \<Rightarrow>
     bindP (expected (sqlite_read h p)) (\<lambda>r. case r of
       Inl _ \<Rightarrow> ret (database_verification.make p False (U ''unavailable'') None digest)
     | Inr v \<Rightarrow> read_view p digest v))"

section \<open>The backup\<close>

text \<open>The engine is given by the path of its database; \<^verbatim>\<open>create_engine_for\<close> makes SQLite engines only.\<close>

definition create_engine_for :: "ustr \<Rightarrow> exn + ustr" where
  "create_engine_for p = (if \<not> is_absolute p then Inl ValueError else Inr p)"

definition engine_database_path :: "'h host_scheme \<Rightarrow> ustr \<Rightarrow> (fs, path) prog" where
  "engine_database_path h engine = (if \<not> is_absolute engine then raise ValueError else
     bindP (os_stat h False (path_parts engine)) (\<lambda>status. case status of
         File _ _ _ \<Rightarrow> ret (path_parts engine) | _ \<Rightarrow> raise ValueError))"

definition reserve_output :: "'h host_scheme \<Rightarrow> path \<Rightarrow> (fs, unit) prog" where
  "reserve_output h p = bindP (os_stat h False (butlast p)) (\<lambda>parent_status.
     if \<not> is_dir (Some parent_status) then raise ValueError else bindP (os_create h p 384) (\<lambda>_. ret ()))"

definition create_online_backup :: "'h backup_host_scheme \<Rightarrow> ustr \<Rightarrow> path \<Rightarrow> (fs, database_backup) prog" where
  "create_online_backup h engine target =
     bindP (engine_database_path h engine) (\<lambda>source_path.
     bindP (reserve_output h target) (\<lambda>_.
     catch
       (bindP (sqlite_backup h source_path target) (\<lambda>_.
        bindP (os_chmod h target 384) (\<lambda>_.
        bindP (verify_database h target) (\<lambda>verification.
        case (dv_ok verification, dv_schema_version verification) of
          (True, Some schema) \<Rightarrow> ret (database_backup.make (dv_database_path verification) (dv_quick_check verification) schema (dv_sha256 verification))
        | _ \<Rightarrow> raise ValueError))))
       (\<lambda>e. bindP (path_unlink h target True) (\<lambda>_. raise e))))"

end
