(* ===== verification/App.thy ===== *)
theory App
  imports Config Backup Web
begin

text \<open>
  The panel as it is started, \<^verbatim>\<open>create_runtime_app\<close> of \<^verbatim>\<open>control/src/ezopenpn/web/app.py\<close>: the settings and the secret files become
  the services that the handlers of \<open>Web\<close> use. The environment, \<^verbatim>\<open>httpx.URL\<close>, the dummy hash and the QR encoder are parameters.
\<close>

definition DEFAULT_CONFIG_PATH :: ustr where "DEFAULT_CONFIG_PATH = U ''/etc/ezopenpn/control.toml''"

text \<open>\<^verbatim>\<open>timedelta(seconds=n)\<close>, in microseconds; more than 999999999 days overflow.\<close>

definition timedelta_seconds :: "int \<Rightarrow> exn + int" where
  "timedelta_seconds n = (if \<bar>n\<bar> \<ge> 86400 * 10 ^ 9 then Inl OtherError else Inr (n * 10 ^ 6))"

definition link_config :: "settings \<Rightarrow> secret_files \<Rightarrow> exn + transport_link_config" where
  "link_config st secrets = check_transport_link_config
     \<lparr>tc_host = ap_public_ip (st_app st), tc_reality_public_key = xs_reality_public_key (st_xray st),
      tc_reality_short_id = xs_reality_short_id (st_xray st),
      tc_hysteria_obfs_password = encode_url_secret (sf_hysteria_obfs_secret secrets), tc_public_port = 443, tc_panel_port = 9443\<rparr>"

text \<open>The services, in the order of the constructor calls.\<close>

definition runtime_services :: "'w platform \<Rightarrow> (ustr \<Rightarrow> url_parts) \<Rightarrow> ustr \<Rightarrow> (ustr \<Rightarrow> ustr option) \<Rightarrow> settings \<Rightarrow> secret_files \<Rightarrow> exn + web_services" where
  "runtime_services P url dummy segno st secrets =
     bind_sum (create_engine_for (db_path (st_database st))) (\<lambda>_.
     bind_sum (secret_cipher P (sf_master_key secrets)) (\<lambda>c.
     bind_sum (link_config st secrets) (\<lambda>links.
     bind_sum (grpc_xray_client (xs_grpc_target (st_xray st)) (xs_inbound_tag (st_xray st))) (\<lambda>tag.
     bind_sum (supervisor_client (ps_supervisor_socket (st_paths st))) (\<lambda>_.
     bind_sum (timedelta_seconds (ss_idle_seconds (st_session st))) (\<lambda>idle.
     bind_sum (timedelta_seconds (ss_absolute_seconds (st_session st))) (\<lambda>absolute.
     bind_sum (make_session_service P (sf_master_key secrets) idle absolute) (\<lambda>sessions.
     bind_sum (make_throttle_service P (sf_master_key secrets)) (\<lambda>throttle.
     bind_sum (make_preauth_service P (sf_master_key secrets) (5 * 60 * 10 ^ 6)) (\<lambda>preauth.
     bind_sum (hysteria_client (url (hs_stats_url (st_hysteria st))) (encode_url_secret (sf_hysteria_api_secret secrets))) (\<lambda>_.
     Inr \<lparr>ws_dummy_hash = dummy, ws_sessions = sessions, ws_throttle = throttle, ws_preauth = preauth,
       ws_runtime = \<lparr>co_cipher = c, co_links = links, co_tag = tag, co_has_reconciler = True, co_has_health = True\<rparr>,
       ws_segno = segno, ws_expose_observed_client = False, ws_trusted_proxy_hosts = pt_trusted_hosts (st_proxy st)\<rparr>)))))))))))"

definition create_runtime_app :: "'h config_host_scheme \<Rightarrow> 'w platform \<Rightarrow> (ustr \<rightharpoonup> ustr) \<Rightarrow> (ustr \<Rightarrow> url_parts) \<Rightarrow> ustr \<Rightarrow> (ustr \<Rightarrow> ustr option) \<Rightarrow> (fs, web_services) prog" where
  "create_runtime_app h P environ url dummy segno = (let config_path = (case environ (U ''EZOPENPN_CONFIG_PATH'') of None \<Rightarrow> DEFAULT_CONFIG_PATH | Some v \<Rightarrow> v) in
     bindP (settings_load h (path_parts config_path)) (\<lambda>st.
     bindP (secret_files_load h (path_parts (ps_master_key_path (st_paths st))) (path_parts (ps_hysteria_api_path (st_paths st)))
       (path_parts (ps_hysteria_obfs_path (st_paths st)))) (\<lambda>secrets.
     lift_result (runtime_services P url dummy segno st secrets))))"

end
