(* ===== verification/Config_Facts.thy ===== *)
theory Config_Facts
  imports App Render_Facts
begin

text \<open>
  Facts on the settings: what validation guarantees, that the file of the renderer is a TOML document of a simple form and which
  settings it gives, and what is read from the secret files.
\<close>

section \<open>Validated settings\<close>

definition settings_ok :: "settings \<Rightarrow> bool" where
  "settings_ok s \<longleftrightarrow> is_absolute (db_path (st_database s)) \<and> is_absolute (ps_master_key_path (st_paths s))
     \<and> is_absolute (ps_hysteria_api_path (st_paths s)) \<and> is_absolute (ps_hysteria_obfs_path (st_paths s))
     \<and> is_absolute (ps_supervisor_socket (st_paths s))
     \<and> pt_trusted_hosts (st_proxy s) \<noteq> [] \<and> list_all (\<lambda>host. host \<noteq> [] \<and> strip host = host) (pt_trusted_hosts (st_proxy s))
     \<and> list_all (\<lambda>t. t \<noteq> [] \<and> strip t = t) [xs_grpc_target (st_xray s), xs_inbound_tag (st_xray s), xs_reality_public_key (st_xray s)]
     \<and> 2 \<le> length (xs_reality_short_id (st_xray s)) \<and> length (xs_reality_short_id (st_xray s)) \<le> 16
     \<and> list_all is_lower_hex (xs_reality_short_id (st_xray s))
     \<and> 0 < ss_idle_seconds (st_session s) \<and> ss_idle_seconds (st_session s) \<le> ss_absolute_seconds (st_session s)"

lemma model_field_Some: "model_field convert missing name t = Some v \<Longrightarrow> (\<And>w. convert w = Some v \<Longrightarrow> P v) \<Longrightarrow> (missing = Some v \<Longrightarrow> P v) \<Longrightarrow> P v"
  by (auto simp: model_field_def split: option.splits)

lemma absolute_field:
  assumes "model_field (require_absolute_path h) missing name t = Some p" and "\<And>p. missing = Some p \<Longrightarrow> is_absolute p"
  shows "is_absolute p"
  using assms(1) by (rule model_field_Some) (auto simp: require_absolute_path_def assms(2) split: Option.bind_splits if_splits)

lemma nonempty_field:
  assumes "model_field (require_nonempty_value h) missing name t = Some v" and "\<And>v. missing = Some v \<Longrightarrow> v \<noteq> [] \<and> strip v = v"
  shows "v \<noteq> [] \<and> strip v = v"
  using assms(1) by (rule model_field_Some) (auto simp: require_nonempty_value_def Let_def strip_idem assms(2) split: Option.bind_splits if_splits)

lemma path_model_ok:
  assumes "path_model h t = Some p"
  shows "is_absolute (ps_master_key_path p) \<and> is_absolute (ps_hysteria_api_path p) \<and> is_absolute (ps_hysteria_obfs_path p) \<and> is_absolute (ps_supervisor_socket p)"
proof -
  have "is_absolute p" if "model_field (require_absolute_path h) (Some (U (CHR ''/'' # r))) name t = Some p" for r name p
    by (rule absolute_field [OF that]) (simp add: is_absolute_def is_prefix_def U_def)
  with assms show ?thesis by (auto simp: path_model_def path_settings.defs bind_eq_Some_conv split: if_splits)
qed

lemma database_model_ok: "database_model h t = Some d \<Longrightarrow> is_absolute (db_path d)"
  by (auto simp: database_model_def database_settings.defs intro: absolute_field split: if_splits)

lemma proxy_model_ok: "proxy_model h t = Some p \<Longrightarrow> pt_trusted_hosts p \<noteq> [] \<and> list_all (\<lambda>host. host \<noteq> [] \<and> strip host = host) (pt_trusted_hosts p)"
  by (auto simp: proxy_model_def proxy_trust_settings.defs model_field_def require_named_hosts_def Let_def list_all_iff strip_idem bind_eq_Some_conv
      split: if_splits option.splits) (simp_all add: text_simps)

lemma short_id_field:
  "model_field (require_short_id h) None name t = Some v \<Longrightarrow> 2 \<le> length v \<and> length v \<le> 16 \<and> list_all is_lower_hex v"
  by (auto simp: model_field_def require_short_id_def bind_eq_Some_conv split: option.splits if_splits)

lemma xray_model_ok:
  assumes "xray_model h t = Some x"
  shows "list_all (\<lambda>t. t \<noteq> [] \<and> strip t = t) [xs_grpc_target x, xs_inbound_tag x, xs_reality_public_key x]
    \<and> 2 \<le> length (xs_reality_short_id x) \<and> length (xs_reality_short_id x) \<le> 16 \<and> list_all is_lower_hex (xs_reality_short_id x)"
proof -
  obtain target tag key short_id where x: "x = xray_settings.make target tag key short_id"
    and fields: "model_field (require_nonempty_value h) (Some (U ''xray:10085'')) (U ''grpc_target'') t = Some target"
      "model_field (require_nonempty_value h) (Some (U ''protected-entry'')) (U ''inbound_tag'') t = Some tag"
      "model_field (require_nonempty_value h) None (U ''reality_public_key'') t = Some key"
      "model_field (require_short_id h) None (U ''reality_short_id'') t = Some short_id"
    using assms unfolding xray_model_def by (auto simp only: bind_eq_Some_conv option.inject split: if_splits)
  have "target \<noteq> [] \<and> strip target = target" by (rule nonempty_field [OF fields(1)]) (auto simp: text_simps)
  moreover have "tag \<noteq> [] \<and> strip tag = tag" by (rule nonempty_field [OF fields(2)]) (auto simp: text_simps)
  moreover have "key \<noteq> [] \<and> strip key = key" by (rule nonempty_field [OF fields(3)]) simp
  ultimately show ?thesis using short_id_field [OF fields(4)] by (simp add: x xray_settings.defs)
qed

lemma session_model_ok: "session_model h t = Some s \<Longrightarrow> 0 < ss_idle_seconds s \<and> ss_idle_seconds s \<le> ss_absolute_seconds s"
  by (auto simp: session_model_def validate_deadlines_def session_settings.defs bind_eq_Some_conv split: if_splits)

lemma sub_field: "model_field (sub_model validate) missing name t = Some v \<Longrightarrow> missing = None \<or> missing = validate [] \<Longrightarrow> \<exists>u. validate u = Some v"
  by (auto simp: model_field_def sub_model_def split: option.splits toml.splits)

lemma settings_model_ok:
  assumes "settings_model h t = Some s"
  shows "settings_ok s"
proof -
  obtain app database paths proxy xray hysteria session where s: "s = settings.make app database paths proxy xray hysteria session"
    and fields: "model_field (sub_model (database_model h)) None (U ''database'') t = Some database"
      "model_field (sub_model (path_model h)) (path_model h []) (U ''paths'') t = Some paths"
      "model_field (sub_model (proxy_model h)) (proxy_model h []) (U ''proxy'') t = Some proxy"
      "model_field (sub_model (xray_model h)) None (U ''xray'') t = Some xray"
      "model_field (sub_model (session_model h)) (session_model h []) (U ''session'') t = Some session"
    using assms unfolding settings_model_def by (auto simp only: bind_eq_Some_conv option.inject split: if_splits)
  from fields [THEN sub_field] obtain d p q x e where "database_model h d = Some database" "path_model h p = Some paths" "proxy_model h q = Some proxy"
      "xray_model h x = Some xray" "session_model h e = Some session" by blast
  from this(1) [THEN database_model_ok] this(2) [THEN path_model_ok] this(3) [THEN proxy_model_ok] this(4) [THEN xray_model_ok] this(5) [THEN session_model_ok]
  show ?thesis by (simp add: s settings.defs settings_ok_def)
qed

lemma settings_of_text_ok: "settings_of_text h content = Inr s \<Longrightarrow> settings_ok s"
  by (auto simp: settings_of_text_def bind_sum_def intro: settings_model_ok split: sum.splits option.splits)

section \<open>Simple TOML documents\<close>

text \<open>Tables of strings, integers and arrays of strings, one key in a line, with a blank line after each table. \<open>toml_reads\<close> is what is
  relied on of \<^verbatim>\<open>tomllib\<close>: such a document is read as it is meant.\<close>

type_synonym toml_document = "(ustr \<times> toml_table) list"

definition plain_string :: "toml \<Rightarrow> bool" where
  "plain_string v \<longleftrightarrow> (case v of TomlString t \<Rightarrow> list_all plain_char t | _ \<Rightarrow> False)"

definition simple_value :: "toml \<Rightarrow> bool" where
  "simple_value v \<longleftrightarrow> (case v of TomlInt n \<Rightarrow> \<bar>n\<bar> < 2 ^ 63 | TomlArray vs \<Rightarrow> list_all plain_string vs | _ \<Rightarrow> plain_string v)"

definition bare_key :: "ustr \<Rightarrow> bool" where
  "bare_key k \<longleftrightarrow> k \<noteq> [] \<and> list_all is_url_char k"

definition simple_doc :: "toml_document \<Rightarrow> bool" where
  "simple_doc doc \<longleftrightarrow> distinct (map fst doc)
     \<and> list_all (\<lambda>(name, t). bare_key name \<and> distinct (map fst t) \<and> list_all (\<lambda>(k, v). bare_key k \<and> simple_value v) t) doc"

fun toml_json :: "toml \<Rightarrow> json" where
  "toml_json (TomlString t) = JStr t"
| "toml_json (TomlInt n) = JInt n"
| "toml_json (TomlArray vs) = JList (map toml_json vs)"
| "toml_json v = JNull"

definition section_lines :: "ustr \<times> toml_table \<Rightarrow> ustr list" where
  "section_lines = (\<lambda>(name, t). (U ''['' @ name @ U '']'') # map (\<lambda>(k, v). k @ U '' = '' @ json_dumps id js_default 0 (toml_json v)) t @ [[]])"

definition print_toml :: "toml_document \<Rightarrow> ustr" where
  "print_toml doc = join_lines (concat (map section_lines doc))"

definition toml_reads :: "(ustr \<Rightarrow> exn + toml_table) \<Rightarrow> bool" where
  "toml_reads f \<longleftrightarrow> (\<forall>doc. simple_doc doc \<longrightarrow> f (print_toml doc) = Inr (map (map_prod id TomlTable) doc))"

text \<open>A reader of these documents, from the last line to the first.\<close>

fun json_toml :: "json \<Rightarrow> toml option" where
  "json_toml (JStr t) = Some (TomlString t)"
| "json_toml (JInt n) = Some (TomlInt n)"
| "json_toml (JList vs) = map_option TomlArray (those (map json_toml vs))"
| "json_toml j = None"

definition read_line :: "ustr \<Rightarrow> (toml_table \<times> toml_table) option \<Rightarrow> (toml_table \<times> toml_table) option" where
  "read_line line r = Option.bind r (\<lambda>(entries, tables).
     if line = [] then Some (entries, tables)
     else if hd line = 91 then Some ([], (butlast (tl line), TomlTable entries) # tables)
     else case json_decode 2 (drop 3 (dropWhile (\<lambda>c. c \<noteq> 32) line)) of
         Inr j \<Rightarrow> map_option (\<lambda>v. ((takeWhile (\<lambda>c. c \<noteq> 32) line, v) # entries, tables)) (json_toml j)
       | Inl _ \<Rightarrow> None)"

definition read_toml :: "ustr \<Rightarrow> exn + toml_table" where
  "read_toml content = (case foldr read_line (split_on 10 content) (Some ([], [])) of Some ([], tables) \<Rightarrow> Inr tables | _ \<Rightarrow> Inl ValueError)"

lemma plain_string_cases: "plain_string v \<Longrightarrow> (\<And>t. v = TomlString t \<Longrightarrow> list_all plain_char t \<Longrightarrow> P) \<Longrightarrow> P"
  by (auto simp: plain_string_def split: toml.splits)

lemma simple_value_cases:
  assumes "simple_value v"
  obtains t where "v = TomlString t" "list_all plain_char t" | n where "v = TomlInt n" "\<bar>n\<bar> < 2 ^ 63"
    | ts where "v = TomlArray (map TomlString ts)" "\<forall>t \<in> set ts. list_all plain_char t"
proof (cases v)
  case (TomlArray vs)
  with assms have "\<forall>v \<in> set vs. \<exists>t. v = TomlString t \<and> list_all plain_char t"
    by (auto simp: simple_value_def list_all_iff elim!: plain_string_cases)
  then obtain f where "\<And>v. v \<in> set vs \<Longrightarrow> v = TomlString (f v) \<and> list_all plain_char (f v)" by metis
  then have "map TomlString (map f vs) = vs" "\<forall>t \<in> set (map f vs). list_all plain_char t" by (simp_all add: map_idI)
  with TomlArray that(3) [of "map f vs"] show ?thesis by simp
qed (use assms that in \<open>auto simp: simple_value_def plain_string_def\<close>)

lemma plain_scalars: "list_all plain_char t \<Longrightarrow> list_all scalar_value t"
  by (erule list.pred_mono_strong) (simp add: plain_char_def scalar_value_def)

lemma int_digits: "\<bar>n\<bar> < 2 ^ 63 \<Longrightarrow> length (dec_str (nat \<bar>n\<bar>)) \<le> 4300"
  using length_dec_str [of "nat \<bar>n\<bar>" 19] by (simp add: nat_less_iff)

lemma decode_value:
  assumes "simple_value v"
  shows "json_decode 2 (json_dumps id js_default 0 (toml_json v)) = Inr (toml_json v)" and "json_toml (toml_json v) = Some v"
proof -
  have "json_plain (toml_json v) \<and> json_depth (toml_json v) \<le> 2 \<and> json_toml (toml_json v) = Some v"
    using assms
  proof (cases rule: simple_value_cases)
    case (3 ts)
    have "foldr (\<lambda>v n. max (json_depth v) n) (map JStr ts) 0 = 0" by (induction ts) auto
    moreover have "those (map json_toml (map JStr ts)) = Some (map TomlString ts)" by (induction ts) auto
    ultimately show ?thesis using 3 plain_scalars by (auto simp: list.pred_map o_def list_all_iff)
  qed (auto simp: plain_scalars int_digits)
  then show "json_decode 2 (json_dumps id js_default 0 (toml_json v)) = Inr (toml_json v)" "json_toml (toml_json v) = Some v"
    using json_decode_dumps [OF styles_ok(1), of "toml_json v" 2 "[]" id 0] by simp_all
qed

lemma quote_one_line: "list_all plain_char t \<Longrightarrow> 10 \<notin> set (json_quote t)"
  by (auto simp: json_quote_plain plain_char_def list_all_iff)

lemma join_chars: "list_all P sep \<Longrightarrow> (\<And>x. x \<in> set xs \<Longrightarrow> list_all P x) \<Longrightarrow> list_all P (join_with sep xs)"
  by (induction sep xs rule: join_with.induct) auto

lemma value_one_line:
  assumes "simple_value v"
  shows "10 \<notin> set (json_dumps id js_default 0 (toml_json v))"
  using assms
proof (cases rule: simple_value_cases)
  case (2 n)
  have "10 \<notin> set (dec_str k)" for k using dec_str_chars [of k] by (auto simp: list_all_iff)
  with 2(1) show ?thesis by (simp add: int_str_def U_def)
next
  case (3 ts)
  have "list_all (\<lambda>c. c \<noteq> 10) (join_with [44, 32] (map json_quote ts))"
    using 3(2) quote_one_line by (intro join_chars) (auto simp: list_all_iff)
  then have "10 \<notin> set (join_with [44, 32] (map json_quote ts))" by (auto simp: list_all_iff)
  with 3(1) show ?thesis by (simp add: js_default_def js_newline_def o_def)
qed (simp add: quote_one_line)

lemma bare_keyD: "bare_key k \<Longrightarrow> k \<noteq> [] \<and> hd k \<noteq> 91 \<and> 10 \<notin> set k \<and> 32 \<notin> set k"
  by (cases k) (auto simp: bare_key_def is_url_char_def list_all_iff)

lemma read_entry:
  assumes "bare_key k" and "simple_value v"
  shows "read_line (k @ U '' = '' @ json_dumps id js_default 0 (toml_json v)) (Some (entries, tables)) = Some ((k, v) # entries, tables)"
proof -
  from bare_keyD [OF assms(1)] have k: "k \<noteq> []" "hd k \<noteq> 91" "\<forall>c \<in> set k. c \<noteq> 32" by auto
  from k(3) have "takeWhile (\<lambda>c. c \<noteq> 32) (k @ U '' = '' @ r) = k" "dropWhile (\<lambda>c. c \<noteq> 32) (k @ U '' = '' @ r) = U '' = '' @ r" for r
    by (simp_all add: takeWhile_append2 dropWhile_append2 U_def)
  with k(1,2) decode_value [OF assms(2)] show ?thesis by (simp add: read_line_def U_def)
qed

lemma read_section:
  assumes "list_all (\<lambda>(k, v). bare_key k \<and> simple_value v) t"
  shows "foldr read_line (section_lines (name, t)) (Some ([], tables)) = Some ([], (name, TomlTable t) # tables)"
proof -
  have "foldr read_line (map (\<lambda>(k, v). k @ U '' = '' @ json_dumps id js_default 0 (toml_json v)) t) (Some ([], tables)) = Some (t, tables)"
    using assms by (induction t) (auto simp: read_entry)
  then show ?thesis by (simp add: section_lines_def read_line_def) (simp add: U_def)
qed

lemma section_one_line:
  assumes "bare_key name" and "list_all (\<lambda>(k, v). bare_key k \<and> simple_value v) t" and "line \<in> set (section_lines (name, t))"
  shows "10 \<notin> set line"
  using assms bare_keyD value_one_line by (fastforce simp: section_lines_def list_all_iff U_def)

lemma read_toml_reads: "toml_reads read_toml"
  unfolding toml_reads_def
proof (intro allI impI)
  fix doc assume doc: "simple_doc doc"
  have all: "foldr read_line (concat (map section_lines doc)) (Some ([], [])) = Some ([], map (map_prod id TomlTable) doc)"
    using doc unfolding simple_doc_def by (induction doc) (auto simp: read_section)
  have lines: "10 \<notin> set line" if "line \<in> set (concat (map section_lines doc))" for line
    using that doc section_one_line by (fastforce simp: simple_doc_def list_all_iff)
  show "read_toml (print_toml doc) = Inr (map (map_prod id TomlTable) doc)"
  proof (cases doc)
    case (Cons x xs)
    then have "concat (map section_lines doc) \<noteq> []" by (cases x) (simp add: section_lines_def)
    with lines have "split_on 10 (print_toml doc) = concat (map section_lines doc)"
      unfolding print_toml_def join_lines_def by (intro split_on_join) auto
    with all show ?thesis by (simp add: read_toml_def)
  qed (simp add: print_toml_def join_lines_def read_toml_def read_line_def)
qed

section \<open>The file of the renderer\<close>

definition control_document :: "ustr \<Rightarrow> xray_values \<Rightarrow> toml_document" where
  "control_document ip x =
     [(U ''app'', [(U ''public_ip'', TomlString ip)]),
      (U ''database'', [(U ''path'', TomlString (U ''/var/lib/ezopenpn/ezopenpn.sqlite3''))]),
      (U ''paths'', [(U ''master_key_path'', TomlString (U ''/run/secrets/ezopenpn_master_key'')),
         (U ''hysteria_api_path'', TomlString (U ''/run/secrets/ezopenpn_hysteria_api'')),
         (U ''hysteria_obfs_path'', TomlString (U ''/run/secrets/ezopenpn_hysteria_obfs'')),
         (U ''supervisor_socket'', TomlString (U ''/run/ezopenpn-xray/control.sock''))]),
      (U ''proxy'', [(U ''trusted_hosts'', TomlArray [TomlString (U ''gateway'')])]),
      (U ''xray'', [(U ''grpc_target'', TomlString (U ''xray:10085'')), (U ''inbound_tag'', TomlString (U ''protected-entry'')),
         (U ''reality_public_key'', TomlString (xv_public_key x)), (U ''reality_short_id'', TomlString (xv_short_id x))]),
      (U ''hysteria'', [(U ''stats_url'', TomlString (U ''http://hysteria:9999''))]),
      (U ''session'', [(U ''idle_seconds'', TomlInt 43200), (U ''absolute_seconds'', TomlInt 604800)])]"

lemma quote_literal: "json_quote (U s) = U (CHR 0x22 # s @ [CHR 0x22])" if "list_all (\<lambda>c. plain_char (of_char c)) s"
proof -
  from that have "list_all plain_char (U s)" by (simp add: U_def list.pred_map o_def)
  then show ?thesis by (simp add: json_quote_plain) (simp add: U_def)
qed

lemma session_digits: "int_str 43200 = U ''43200''" "int_str 604800 = U ''604800''"
  by (simp_all add: int_str_def dec_str.simps U_def)

lemma control_config_toml: "control_config ip x = print_toml (control_document ip x)"
  unfolding control_config_def print_toml_def control_document_def section_lines_def
  by (simp add: quote_literal plain_char_def js_default_def js_newline_def session_digits) (simp add: U_def)

lemma plain_url: "list_all is_url_char t \<Longrightarrow> list_all plain_char t"
  by (erule list.pred_mono_strong) (auto simp: is_url_char_def plain_char_def)

lemma plain_hex: "list_all is_lower_hex t \<Longrightarrow> list_all plain_char t"
  by (erule list.pred_mono_strong) (auto simp: is_lower_hex_def plain_char_def)

lemma xray_okD:
  assumes "xray_ok x"
  shows "xv_public_key x \<noteq> []" "list_all is_url_char (xv_public_key x)" "length (xv_short_id x) = 16" "list_all is_lower_hex (xv_short_id x)"
  using assms by (auto simp: xray_ok_def KEY_PATTERN_def RENDER_SHORT_ID_def)

lemma ipv4_plain: "list_all plain_char (ip_compressed (IPv4 n))"
proof -
  have "list_all plain_char (dec_str k)" for k
    using dec_str_chars [of k] by (rule list.pred_mono_strong) (simp add: plain_char_def)
  then have "list_all plain_char (join_with (U ''.'') (map dec_str ks))" for ks
    by (intro join_chars) (auto simp: U_def, simp add: plain_char_def)
  then show ?thesis by simp
qed

lemma control_document_simple:
  assumes "xray_ok x" and "list_all plain_char ip"
  shows "simple_doc (control_document ip x)"
  unfolding simple_doc_def control_document_def
  using assms(2) plain_url [OF xray_okD(2) [OF assms(1)]] plain_hex [OF xray_okD(4) [OF assms(1)]]
  by (simp add: simple_value_def plain_string_def) (simp add: U_def bare_key_def is_url_char_def plain_char_def)

text \<open>What is relied on of \<^verbatim>\<open>pydantic\<close>: strings, integers, normalised absolute paths, IPv4 addresses and arrays of strings are taken as they are, and
  the text of a URL without a path gets a slash.\<close>

definition pydantic_ok :: "'h config_host_scheme \<Rightarrow> bool" where
  "pydantic_ok h \<longleftrightarrow> (\<forall>t. pd_str h (TomlString t) = Some t) \<and> (\<forall>n. pd_int h (TomlInt n) = Some n)
     \<and> (\<forall>t n. parse_ipv4 t = Some n \<longrightarrow> pd_ip h (TomlString t) = Some (word_of_nat n))
     \<and> (\<forall>t. is_absolute t \<and> list_all (\<lambda>c. c \<noteq> [] \<and> c \<noteq> [46]) (tl (split_on 47 t)) \<longrightarrow> pd_path h (TomlString t) = Some t)
     \<and> (\<forall>ts. \<exists>us. pd_str_set h (TomlArray (map TomlString ts)) = Some us \<and> set us = set ts)
     \<and> pd_url h (TomlString (U ''http://hysteria:9999'')) = Some (U ''http://hysteria:9999/'')"

definition control_settings :: "nat \<Rightarrow> xray_values \<Rightarrow> settings" where
  "control_settings n x = settings.make (app_settings.make (word_of_nat n)) (database_settings.make (U ''/var/lib/ezopenpn/ezopenpn.sqlite3''))
     (path_settings.make (U ''/run/secrets/ezopenpn_master_key'') (U ''/run/secrets/ezopenpn_hysteria_api'') (U ''/run/secrets/ezopenpn_hysteria_obfs'')
       (U ''/run/ezopenpn-xray/control.sock'')) (proxy_trust_settings.make [U ''gateway''])
     (xray_settings.make (U ''xray:10085'') (U ''protected-entry'') (xv_public_key x) (xv_short_id x))
     (hysteria_settings.make (U ''http://hysteria:9999/'')) (session_settings.make 43200 604800)"

lemma U_eq_iff: "U s = U t \<longleftrightarrow> s = t" and U_Nil_iff: "U s = [] \<longleftrightarrow> s = []" "[] = U s \<longleftrightarrow> s = []"
  unfolding U_def by (auto dest: injD [OF inj_mapI [OF inj_of_char]])

lemma singleton_list: "distinct xs \<Longrightarrow> set xs = {a} \<Longrightarrow> xs = [a]"
  by (cases xs; cases "tl xs") auto

lemma rendered_models:
  assumes h: "pydantic_ok h" and x: "xray_ok x" and n: "n < 2 ^ 32"
  shows "app_model h [(U ''public_ip'', TomlString (ip_compressed (IPv4 n)))] = Some (app_settings.make (word_of_nat n))"
    and "database_model h [(U ''path'', TomlString (U ''/var/lib/ezopenpn/ezopenpn.sqlite3''))] = Some (database_settings.make (U ''/var/lib/ezopenpn/ezopenpn.sqlite3''))"
    and "path_model h [(U ''master_key_path'', TomlString (U ''/run/secrets/ezopenpn_master_key'')),
         (U ''hysteria_api_path'', TomlString (U ''/run/secrets/ezopenpn_hysteria_api'')),
         (U ''hysteria_obfs_path'', TomlString (U ''/run/secrets/ezopenpn_hysteria_obfs'')),
         (U ''supervisor_socket'', TomlString (U ''/run/ezopenpn-xray/control.sock''))]
       = Some (path_settings.make (U ''/run/secrets/ezopenpn_master_key'') (U ''/run/secrets/ezopenpn_hysteria_api'') (U ''/run/secrets/ezopenpn_hysteria_obfs'')
       (U ''/run/ezopenpn-xray/control.sock''))"
    and "proxy_model h [(U ''trusted_hosts'', TomlArray [TomlString (U ''gateway'')])] = Some (proxy_trust_settings.make [U ''gateway''])"
    and "xray_model h [(U ''grpc_target'', TomlString (U ''xray:10085'')), (U ''inbound_tag'', TomlString (U ''protected-entry'')),
         (U ''reality_public_key'', TomlString (xv_public_key x)), (U ''reality_short_id'', TomlString (xv_short_id x))]
       = Some (xray_settings.make (U ''xray:10085'') (U ''protected-entry'') (xv_public_key x) (xv_short_id x))"
    and "hysteria_model h [(U ''stats_url'', TomlString (U ''http://hysteria:9999''))] = Some (hysteria_settings.make (U ''http://hysteria:9999/''))"
    and "session_model h [(U ''idle_seconds'', TomlInt 43200), (U ''absolute_seconds'', TomlInt 604800)] = Some (session_settings.make 43200 604800)"
proof -
  from h parse_ipv4_compressed [OF n] have "pd_ip h (TomlString (ip_compressed (IPv4 n))) = Some (word_of_nat n)" by (simp add: pydantic_ok_def del: ip_compressed.simps)
  then show "app_model h [(U ''public_ip'', TomlString (ip_compressed (IPv4 n)))] = Some (app_settings.make (word_of_nat n))"
    by (simp add: app_model_def only_fields_def model_field_def del: ip_compressed.simps)
next
  have path: "require_absolute_path h (TomlString (U t)) = Some (U t)" if "is_absolute (U t)" "list_all (\<lambda>c. c \<noteq> [] \<and> c \<noteq> [46]) (tl (split_on 47 (U t)))" for t
    using that h by (simp add: require_absolute_path_def pydantic_ok_def)
  show "database_model h [(U ''path'', TomlString (U ''/var/lib/ezopenpn/ezopenpn.sqlite3''))] = Some (database_settings.make (U ''/var/lib/ezopenpn/ezopenpn.sqlite3''))"
    by (simp add: database_model_def only_fields_def model_field_def) (subst path, simp_all add: U_def is_absolute_def is_prefix_def)
  show "path_model h [(U ''master_key_path'', TomlString (U ''/run/secrets/ezopenpn_master_key'')),
         (U ''hysteria_api_path'', TomlString (U ''/run/secrets/ezopenpn_hysteria_api'')),
         (U ''hysteria_obfs_path'', TomlString (U ''/run/secrets/ezopenpn_hysteria_obfs'')),
         (U ''supervisor_socket'', TomlString (U ''/run/ezopenpn-xray/control.sock''))]
       = Some (path_settings.make (U ''/run/secrets/ezopenpn_master_key'') (U ''/run/secrets/ezopenpn_hysteria_api'') (U ''/run/secrets/ezopenpn_hysteria_obfs'')
       (U ''/run/ezopenpn-xray/control.sock''))"
    using path [of "''/run/secrets/ezopenpn_master_key''"] path [of "''/run/secrets/ezopenpn_hysteria_api''"] path [of "''/run/secrets/ezopenpn_hysteria_obfs''"]
      path [of "''/run/ezopenpn-xray/control.sock''"]
    by (simp add: path_model_def only_fields_def model_field_def U_eq_iff) (simp add: U_def is_absolute_def is_prefix_def)
next
  obtain us where us: "pd_str_set h (TomlArray (map TomlString [U ''gateway''])) = Some us" "set us = set [U ''gateway'']" using h unfolding pydantic_ok_def by blast
  have "strip (U ''gateway'') = U ''gateway''" by (simp add: text_simps)
  then have hosts: "strip ` set us = {U ''gateway''}" by (simp add: us(2))
  then have "us \<noteq> []" by force
  moreover have "[] \<notin> strip ` set us" unfolding hosts by (simp add: U_Nil_iff)
  moreover have "remdups (map strip us) = [U ''gateway'']" by (rule singleton_list) (simp_all add: hosts)
  ultimately show "proxy_model h [(U ''trusted_hosts'', TomlArray [TomlString (U ''gateway'')])] = Some (proxy_trust_settings.make [U ''gateway''])"
    by (simp add: proxy_model_def only_fields_def model_field_def require_named_hosts_def Let_def us(1) [simplified])
next
  have key: "strip (xv_public_key x) = xv_public_key x"
    by (rule strip_plain) (use xray_okD(2) [OF x] in \<open>auto simp: list_all_iff is_url_char_def isspace_def\<close>)
  have names: "strip (U ''xray:10085'') = U ''xray:10085''" "strip (U ''protected-entry'') = U ''protected-entry''" by (simp_all add: text_simps)
  show "xray_model h [(U ''grpc_target'', TomlString (U ''xray:10085'')), (U ''inbound_tag'', TomlString (U ''protected-entry'')),
         (U ''reality_public_key'', TomlString (xv_public_key x)), (U ''reality_short_id'', TomlString (xv_short_id x))]
       = Some (xray_settings.make (U ''xray:10085'') (U ''protected-entry'') (xv_public_key x) (xv_short_id x))"
    using h key names xray_okD [OF x]
    by (simp add: pydantic_ok_def xray_model_def only_fields_def model_field_def require_nonempty_value_def require_short_id_def Let_def U_eq_iff U_Nil_iff)
next
  show "hysteria_model h [(U ''stats_url'', TomlString (U ''http://hysteria:9999''))] = Some (hysteria_settings.make (U ''http://hysteria:9999/''))"
    "session_model h [(U ''idle_seconds'', TomlInt 43200), (U ''absolute_seconds'', TomlInt 604800)] = Some (session_settings.make 43200 604800)"
    using h by (simp_all add: pydantic_ok_def hysteria_model_def session_model_def only_fields_def model_field_def validate_deadlines_def session_settings.defs U_eq_iff)
qed

lemma control_normalized:
  "normalize_settings (map (map_prod id TomlTable) (control_document ip x)) = Inr (map (map_prod id TomlTable) (control_document ip x))"
  unfolding control_document_def normalize_settings_def by (simp add: LEGACY_XRAY_KEYS_def U_eq_iff)

lemma rendered_settings:
  assumes "toml_reads (cf_toml h)" and "pydantic_ok h" and "xray_ok x" and "n < 2 ^ 32"
  shows "settings_of_text h (control_config (ip_compressed (IPv4 n)) x) = Inr (control_settings n x)"
proof -
  let ?doc = "control_document (ip_compressed (IPv4 n)) x"
  have "cf_toml h (control_config (ip_compressed (IPv4 n)) x) = Inr (map (map_prod id TomlTable) ?doc)"
    using assms(1) control_document_simple [OF assms(3) ipv4_plain] unfolding control_config_toml toml_reads_def by blast
  moreover have "settings_model h (map (map_prod id TomlTable) ?doc) = Some (control_settings n x)"
    using rendered_models [OF assms(2-4)] unfolding settings_model_def control_document_def control_settings_def
    by (simp add: only_fields_def model_field_def sub_model_def U_eq_iff del: ip_compressed.simps)
  ultimately show ?thesis by (simp add: settings_of_text_def control_normalized del: ip_compressed.simps)
qed

end
