(* ===== verification/App_Facts.thy ===== *)
theory App_Facts
  imports Config_Facts
begin

text \<open>
  Facts on the start of the panel: what is read from the disk when it succeeds, and that it succeeds on what the renderer leaves.
\<close>

section \<open>Reading\<close>

definition readable :: "'h host_scheme \<Rightarrow> path \<Rightarrow> bytes \<Rightarrow> fs \<Rightarrow> bool" where
  "readable h p d s \<longleftrightarrow> (\<exists>b q u m. path_bytes h p = Inr b \<and> resolve s True MAX_LINKS [] b = Inr q \<and> fs_at s q = Some (File d u m))"

text \<open>A secret: a regular file, not a link, of mode 0600 and 32 bytes.\<close>

definition secret_file :: "'h host_scheme \<Rightarrow> path \<Rightarrow> bytes \<Rightarrow> fs \<Rightarrow> bool" where
  "secret_file h p v s \<longleftrightarrow> length v = 32 \<and> (\<exists>b q u. path_bytes h p = Inr b \<and> resolve s False MAX_LINKS [] b = Inr q \<and> fs_at s q = Some (File v u 384))"

lemma readable_nodes: "fs_nodes t = fs_nodes s \<Longrightarrow> readable h p d t = readable h p d s"
  and secret_nodes: "fs_nodes t = fs_nodes s \<Longrightarrow> secret_file h p v t = secret_file h p v s"
  using fs_at_nodes [of t s] resolve_cong [of t s] by (simp_all add: readable_def secret_file_def)

lemmas prog_runs = bindP_def catch_def gets_def modify_def ret_def raise_def lift_result_def

lemma os_stat_run: "os_stat h follow p s = (case path_bytes h p of Inl e \<Rightarrow> (Raise e, s)
    | Inr b \<Rightarrow> (if io_fault h (fs_calls s) then Raise OSError else case resolve s follow MAX_LINKS [] b of Inl _ \<Rightarrow> Raise OSError
        | Inr q \<Rightarrow> (case fs_at s q of None \<Rightarrow> Raise OSError | Some nd \<Rightarrow> Ok nd), fs_calls_update Suc s))"
  by (simp add: os_stat_def os_place_def os_locate_def os_tick_def prog_runs split: sum.split option.split)

lemma os_fault_run: "os_fault h s = (if io_fault h (fs_calls s) then Raise OSError else Ok (), fs_calls_update Suc s)"
  by (simp add: os_fault_def os_tick_def prog_runs)

lemmas read_runs = os_stat_run os_fault_run prog_runs

lemma path_read_Ok: "path_read_bytes h p s = (Ok d, t) \<Longrightarrow> readable h p d s"
  by (auto simp: path_read_bytes_def read_runs readable_def split: sum.splits if_splits option.splits node.splits)

lemma path_read_yields:
  assumes "\<And>n. \<not> io_fault h n" and "readable h p d s"
  shows "\<exists>t. path_read_bytes h p s = (Ok d, t) \<and> fs_nodes t = fs_nodes s"
  using assms by (auto simp: path_read_bytes_def read_runs readable_def)

lemma read_secret_Ok: "read_secret h p s = (Ok v, t) \<Longrightarrow> secret_file h p v s"
  by (auto simp: read_secret_def read_runs secret_file_def SECRET_SIZE_def Let_def split: sum.splits if_splits option.splits node.splits)

lemma read_secret_yields:
  assumes "\<And>n. \<not> io_fault h n" and "secret_file h p v s"
  shows "\<exists>t. read_secret h p s = (Ok v, t) \<and> fs_nodes t = fs_nodes s"
  using assms by (auto simp: read_secret_def read_runs secret_file_def SECRET_SIZE_def Let_def)

lemma keeps_read_secret [keeps_intros]: "keeps (\<lambda>s. fs_nodes s = N) (read_secret h p)"
  unfolding read_secret_def Let_def by (intro keeps_intros)

lemma returns_read_secret [returns_intros]: "returns (read_secret h p)"
  unfolding read_secret_def Let_def by (intro returns_intros)

text \<open>Reading leaves the tree as it is, so a composition of readings is described by the tree at its start.\<close>

definition reads :: "fs \<Rightarrow> (fs, 'a) prog \<Rightarrow> 'a \<Rightarrow> bool" where
  "reads s m v \<longleftrightarrow> (\<exists>t u. fs_nodes t = fs_nodes s \<and> m t = (Ok v, u))"

definition yields :: "fs \<Rightarrow> (fs, 'a) prog \<Rightarrow> 'a \<Rightarrow> bool" where
  "yields s m v \<longleftrightarrow> (\<forall>t. fs_nodes t = fs_nodes s \<longrightarrow> (\<exists>u. m t = (Ok v, u) \<and> fs_nodes u = fs_nodes s))"

lemma bindP_reads:
  assumes "reads s (bindP m f) v" and "\<And>N. keeps (\<lambda>s. fs_nodes s = N) m"
  obtains a where "reads s m a" "reads s (f a) v"
proof -
  obtain t u where t: "fs_nodes t = fs_nodes s" "bindP m f t = (Ok v, u)" using assms(1) by (auto simp: reads_def)
  then obtain a w where a: "m t = (Ok a, w)" "f a w = (Ok v, u)" by (auto simp: bindP_def split: prod.splits outcome.splits)
  from keepsD_eq [where I = "\<lambda>x. fs_nodes x = fs_nodes s", OF assms(2) a(1) t(1)] have "fs_nodes w = fs_nodes s" .
  with t(1) a that show ?thesis unfolding reads_def by blast
qed

lemma yields_bind: "yields s m a \<Longrightarrow> yields s (f a) v \<Longrightarrow> yields s (bindP m f) v"
  by (fastforce simp: yields_def bindP_def)

lemma yields_lift: "r = Inr a \<Longrightarrow> yields s (lift_result r) a"
  by (simp add: yields_def lift_result_def)

lemma reads_lift: "reads s (lift_result r) a \<Longrightarrow> r = Inr a"
  by (cases r) (auto simp: reads_def lift_result_def)

lemma yields_ret: "yields s (ret a) a"
  by (simp add: yields_def ret_def)

lemma reads_ret: "reads s (ret a) b \<Longrightarrow> b = a"
  by (auto simp: reads_def ret_def)

lemma reads_path: "reads s (path_read_bytes h p) d \<Longrightarrow> readable h p d s"
  and reads_secret: "reads s (read_secret h p) v \<Longrightarrow> secret_file h p v s"
  unfolding reads_def using path_read_Ok readable_nodes read_secret_Ok secret_nodes by fast+

lemma yields_path: "(\<And>n. \<not> io_fault h n) \<Longrightarrow> readable h p d s \<Longrightarrow> yields s (path_read_bytes h p) d"
  and yields_secret: "(\<And>n. \<not> io_fault h n) \<Longrightarrow> secret_file h p v s \<Longrightarrow> yields s (read_secret h p) v"
  unfolding yields_def using path_read_yields readable_nodes read_secret_yields secret_nodes by metis+

section \<open>Starting\<close>

abbreviation secret_paths :: "settings \<Rightarrow> path \<times> path \<times> path" where
  "secret_paths st \<equiv> (path_parts (ps_master_key_path (st_paths st)), path_parts (ps_hysteria_api_path (st_paths st)), path_parts (ps_hysteria_obfs_path (st_paths st)))"

definition secrets_at :: "'h host_scheme \<Rightarrow> settings \<Rightarrow> secret_files \<Rightarrow> fs \<Rightarrow> bool" where
  "secrets_at h st f s \<longleftrightarrow> (case secret_paths st of (master, api, obfs) \<Rightarrow>
     secret_file h master (sf_master_key f) s \<and> secret_file h api (sf_hysteria_api_secret f) s \<and> secret_file h obfs (sf_hysteria_obfs_secret f) s)"

definition settings_at :: "'h config_host_scheme \<Rightarrow> path \<Rightarrow> settings \<Rightarrow> fs \<Rightarrow> bool" where
  "settings_at h p st s \<longleftrightarrow> (\<exists>raw content. readable h p raw s \<and> decode_utf8 raw = Inr content \<and> settings_of_text h content = Inr st)"

abbreviation config_path_of :: "(ustr \<rightharpoonup> ustr) \<Rightarrow> path" where
  "config_path_of environ \<equiv> path_parts (case environ (U ''EZOPENPN_CONFIG_PATH'') of None \<Rightarrow> DEFAULT_CONFIG_PATH | Some v \<Rightarrow> v)"

lemma keeps_settings_load [keeps_intros]: "keeps (\<lambda>s. fs_nodes s = N) (settings_load h p)"
  and keeps_secret_files_load [keeps_intros]: "keeps (\<lambda>s. fs_nodes s = N) (secret_files_load h p q r)"
  unfolding settings_load_def secret_files_load_def by (intro keeps_intros)+

lemma returns_settings_load [returns_intros]: "returns (settings_load h p)"
  and returns_secret_files_load [returns_intros]: "returns (secret_files_load h p q r)"
  unfolding settings_load_def secret_files_load_def by (intro returns_intros)+

lemma returns_app: "returns (create_runtime_app h P environ url dummy segno)"
  and keeps_app: "keeps (\<lambda>s. fs_nodes s = N) (create_runtime_app h P environ url dummy segno)"
  unfolding create_runtime_app_def Let_def by (intro returns_intros keeps_intros)+

lemma reads_settings:
  assumes "reads s (settings_load h p) st"
  shows "settings_at h p st s"
  using assms unfolding settings_load_def
  by (elim bindP_reads) (auto simp: settings_at_def intro: keeps_intros dest!: reads_path reads_lift)

lemma reads_secrets:
  assumes "reads s (secret_files_load h p q r) f"
  shows "secret_file h p (sf_master_key f) s \<and> secret_file h q (sf_hysteria_api_secret f) s \<and> secret_file h r (sf_hysteria_obfs_secret f) s"
  using assms unfolding secret_files_load_def
  by (elim bindP_reads) (auto simp: secret_files.defs intro: keeps_intros dest!: reads_secret reads_ret)

lemma reads_app:
  assumes "reads s (create_runtime_app h P environ url dummy segno) ws"
  obtains st f where "settings_at h (config_path_of environ) st s" "secrets_at h st f s" "runtime_services P url dummy segno st f = Inr ws"
  using assms unfolding create_runtime_app_def Let_def
  by (elim bindP_reads) (auto simp: secrets_at_def intro: keeps_intros dest!: reads_settings reads_secrets reads_lift)

lemma yields_app:
  assumes quiet: "\<And>n. \<not> io_fault h n" and st: "settings_at h (config_path_of environ) st s" and f: "secrets_at h st f s"
    and run: "runtime_services P url dummy segno st f = Inr ws"
  shows "yields s (create_runtime_app h P environ url dummy segno) ws"
proof -
  obtain raw content where raw: "readable h (config_path_of environ) raw s" "decode_utf8 raw = Inr content" "settings_of_text h content = Inr st"
    using st unfolding settings_at_def by blast
  have settings: "yields s (settings_load h (config_path_of environ)) st"
    unfolding settings_load_def by (intro yields_bind [OF yields_path [OF quiet raw(1)]] yields_bind [OF yields_lift [OF raw(2)]] yields_lift [OF raw(3)])
  from f have files: "secret_file h (path_parts (ps_master_key_path (st_paths st))) (sf_master_key f) s"
      "secret_file h (path_parts (ps_hysteria_api_path (st_paths st))) (sf_hysteria_api_secret f) s"
      "secret_file h (path_parts (ps_hysteria_obfs_path (st_paths st))) (sf_hysteria_obfs_secret f) s" by (simp_all add: secrets_at_def)
  have made: "secret_files.make (sf_master_key f) (sf_hysteria_api_secret f) (sf_hysteria_obfs_secret f) = f" by (simp add: secret_files.defs)
  have secrets: "yields s (secret_files_load h (path_parts (ps_master_key_path (st_paths st))) (path_parts (ps_hysteria_api_path (st_paths st)))
      (path_parts (ps_hysteria_obfs_path (st_paths st)))) f"
    unfolding secret_files_load_def
    by (intro yields_bind [OF yields_secret [OF quiet files(1)]] yields_bind [OF yields_secret [OF quiet files(2)]] yields_bind [OF yields_secret [OF quiet files(3)]])
      (simp only: made yields_ret)
  show ?thesis unfolding create_runtime_app_def Let_def by (intro yields_bind [OF settings] yields_bind [OF secrets] yields_lift [OF run])
qed

section \<open>The services\<close>

lemma bind_sum_Inr: "bind_sum r f = Inr b \<longleftrightarrow> (\<exists>a. r = Inr a \<and> f a = Inr b)"
  by (cases r) auto

lemma link_config_Inr:
  assumes "link_config st f = Inr links"
  shows "links = \<lparr>tc_host = ap_public_ip (st_app st), tc_reality_public_key = xs_reality_public_key (st_xray st), tc_reality_short_id = xs_reality_short_id (st_xray st),
      tc_hysteria_obfs_password = url_token (sf_hysteria_obfs_secret f), tc_public_port = 443, tc_panel_port = 9443\<rparr>" and "config_ok links"
  using assms by (auto simp: link_config_def check_transport_link_config_def encode_url_secret_def config_ok_def split: if_splits)

definition serves :: "'w platform \<Rightarrow> settings \<Rightarrow> secret_files \<Rightarrow> web_services \<Rightarrow> bool" where
  "serves P st f ws \<longleftrightarrow> secret_cipher P (sf_master_key f) = Inr (co_cipher (ws_runtime ws)) \<and> link_config st f = Inr (co_links (ws_runtime ws))
     \<and> co_tag (ws_runtime ws) = xs_inbound_tag (st_xray st)
     \<and> make_session_service P (sf_master_key f) (ss_idle_seconds (st_session st) * 10 ^ 6) (ss_absolute_seconds (st_session st) * 10 ^ 6) = Inr (ws_sessions ws)
     \<and> make_throttle_service P (sf_master_key f) = Inr (ws_throttle ws) \<and> make_preauth_service P (sf_master_key f) (5 * 60 * 10 ^ 6) = Inr (ws_preauth ws)
     \<and> ws_trusted_proxy_hosts ws = pt_trusted_hosts (st_proxy st) \<and> \<not> ws_expose_observed_client ws"

lemma services_serve: "runtime_services P url dummy segno st f = Inr ws \<Longrightarrow> serves P st f ws"
  by (auto simp: runtime_services_def serves_def bind_sum_Inr timedelta_seconds_def grpc_xray_client_def split: if_splits)

lemma session_service_durations:
  "make_session_service P key idle absolute = Inr sv \<Longrightarrow> sv_idle_duration sv = idle \<and> sv_absolute_duration sv = absolute \<and> 0 < idle \<and> idle \<le> absolute"
  by (auto simp: make_session_service_def bind_sum_Inr split: if_splits)

lemma serves_safe:
  assumes "serves P st f ws" and "settings_ok st"
  shows "config_ok (co_links (ws_runtime ws))" "0 < sv_idle_duration (ws_sessions ws)" "sv_idle_duration (ws_sessions ws) \<le> sv_absolute_duration (ws_sessions ws)"
    "ws_trusted_proxy_hosts ws \<noteq> []" "[] \<notin> set (ws_trusted_proxy_hosts ws)"
  using assms link_config_Inr(2) by (auto simp: serves_def settings_ok_def list_all_iff dest!: session_service_durations)

text \<open>What is relied on of \<^verbatim>\<open>httpx.URL\<close> for the address of the statistics.\<close>

definition stats_url_ok :: "url_parts \<Rightarrow> bool" where
  "stats_url_ok u \<longleftrightarrow> url_scheme u = U ''http'' \<and> url_userinfo u = [] \<and> url_path u = U ''/'' \<and> url_query u = [] \<and> url_fragment u = []"

lemma url_text_plain: "list_all is_url_char t \<Longrightarrow> isascii t \<and> \<not> list_ex isspace t \<and> 10 \<notin> set t \<and> 13 \<notin> set t"
  by (auto simp: isascii_def list_all_iff list_ex_iff is_url_char_def isspace_def)

lemma rendered_services:
  assumes x: "xray_ok x" and n: "n < 2 ^ 32" and url: "stats_url_ok (url (U ''http://hysteria:9999/''))"
    and f: "length (sf_master_key f) = 32" "length (sf_hysteria_api_secret f) = 32" "length (sf_hysteria_obfs_secret f) = 32"
  shows "\<exists>ws. runtime_services P url dummy segno (control_settings n x) f = Inr ws"
proof -
  have tokens: "length (url_token (sf_hysteria_api_secret f)) = 43" "length (url_token (sf_hysteria_obfs_secret f)) = 43" using f by (simp_all add: length_url_token)
  then have "url_token (sf_hysteria_obfs_secret f) \<noteq> []" by auto
  then have "\<exists>links. link_config (control_settings n x) f = Inr links"
    using xray_okD [OF x] url_text_plain url_token_chars
    by (simp add: link_config_def control_settings_def settings.defs xray_settings.defs check_transport_link_config_def opaque_value_def short_id_pattern_def encode_url_secret_def)
  then obtain links where "link_config (control_settings n x) f = Inr links" ..
  moreover have "hysteria_client (url (U ''http://hysteria:9999/'')) (encode_url_secret (sf_hysteria_api_secret f)) = Inr (url_token (sf_hysteria_api_secret f))"
    using url tokens(1) url_text_plain [OF url_token_chars] by (simp add: stats_url_ok_def hysteria_client_def encode_url_secret_def)
  moreover have "strip (U ''xray:10085'') \<noteq> []" "strip (U ''protected-entry'') \<noteq> []" by (simp_all add: text_simps)
  ultimately show ?thesis using f(1)
    by (simp add: runtime_services_def control_settings_def settings.defs database_settings.defs path_settings.defs xray_settings.defs hysteria_settings.defs
        session_settings.defs create_engine_for_def supervisor_client_def secret_cipher_def require_key_def secret_sizes grpc_xray_client_def timedelta_seconds_def
        make_session_service_def derive_key_def make_throttle_service_def derive_throttle_key_def make_preauth_service_def derive_preauth_key_def)
      (simp add: U_def is_absolute_def is_prefix_def)
qed

lemma control_text_decodes: "decode_utf8 (ascii_bytes (control_config ip x)) = Inr (control_config ip x)"
proof -
  have ascii: "isascii (control_config ip x)" using control_wire [of ip x] by (simp add: wire_ascii)
  then have "map unat (ascii_bytes (control_config ip x)) = control_config ip x"
    by (auto simp: ascii_bytes_def isascii_def list_all_iff unat_byte_of_nat intro!: map_idI)
  moreover have "list_all scalar_value (control_config ip x)"
    using ascii unfolding isascii_def by (rule list.pred_mono_strong) (simp add: scalar_value_def)
  ultimately show ?thesis by (simp add: decode_utf8_def utf8_decode_ascii [OF ascii])
qed

end
