(* ===== verification/Cli.thy ===== *)
theory Cli
  imports Admin Backup
begin

text \<open>
  The command line of the panel, \<^verbatim>\<open>control/src/ezopenpn/cli.py\<close>, after the arguments are parsed. Its state is the file system, the store
  and the two output streams. The migration of Alembic is a parameter.
\<close>

section \<open>State\<close>

record 'w cli_state =
  cl_files :: fs
  cl_sys :: "'w sys"
  cl_out :: "ustr list"
  cl_err :: "ustr list"

definition on_files :: "(fs, 'a) prog \<Rightarrow> ('w cli_state, 'a) prog" where
  "on_files m s = (case m (cl_files s) of (r, t) \<Rightarrow> (r, s\<lparr>cl_files := t\<rparr>))"

definition on_sys :: "('w, 'a) op \<Rightarrow> ('w cli_state, 'a) prog" where
  "on_sys m s = (case m (cl_sys s) of (r, t) \<Rightarrow> (r, s\<lparr>cl_sys := t\<rparr>))"

definition print_out :: "ustr \<Rightarrow> ('w cli_state, unit) prog" where
  "print_out line = modify (\<lambda>s. s\<lparr>cl_out := cl_out s @ [line]\<rparr>)"

definition print_err :: "ustr \<Rightarrow> ('w cli_state, unit) prog" where
  "print_err line = modify (\<lambda>s. s\<lparr>cl_err := cl_err s @ [line]\<rparr>)"

text \<open>The standard input: whether it is a terminal, and what reading at most so many characters gives.\<close>

record cli_input =
  ci_isatty :: bool
  ci_read :: "nat \<Rightarrow> exn + ustr"

datatype cli_command = InitAdmin ustr | ResetPassword | MigrateDatabase | BackupDatabase path | VerifyDatabase path

section \<open>Texts and statuses\<close>

definition EXIT_OK :: int where "EXIT_OK = 0"
definition EXIT_INVALID_INPUT :: int where "EXIT_INVALID_INPUT = 2"
definition EXIT_DATABASE_UNAVAILABLE :: int where "EXIT_DATABASE_UNAVAILABLE = 3"
definition EXIT_STATE_CONFLICT :: int where "EXIT_STATE_CONFLICT = 4"
definition EXIT_MIGRATION_FAILED :: int where "EXIT_MIGRATION_FAILED = 5"
definition EXIT_BACKUP_FAILED :: int where "EXIT_BACKUP_FAILED = 6"
definition MAX_PASSWORD_LENGTH :: nat where "MAX_PASSWORD_LENGTH = 1024"

lemmas exit_codes = EXIT_OK_def EXIT_INVALID_INPUT_def EXIT_DATABASE_UNAVAILABLE_def EXIT_STATE_CONFLICT_def EXIT_MIGRATION_FAILED_def EXIT_BACKUP_FAILED_def

definition SETTINGS_UNREADABLE :: ustr where "SETTINGS_UNREADABLE =
  [1053, 1072, 1089, 1090, 1088, 1086, 1081, 1082, 1080, 32, 1085, 1077, 32, 1091, 1076, 1072, 1083, 1086, 1089,
   1100, 32, 1087, 1088, 1086, 1095, 1080, 1090, 1072, 1090, 1100, 46]"
definition STORE_UNAVAILABLE :: ustr where "STORE_UNAVAILABLE =
  [1061, 1088, 1072, 1085, 1080, 1083, 1080, 1097, 1077, 32, 1085, 1077, 1076, 1086, 1089, 1090, 1091, 1087,
   1085, 1086, 46]"
definition MIGRATION_NOT_DONE :: ustr where "MIGRATION_NOT_DONE =
  [1054, 1073, 1085, 1086, 1074, 1083, 1077, 1085, 1080, 1077, 32, 1093, 1088, 1072, 1085, 1080, 1083, 1080,
   1097, 1072, 32, 1085, 1077, 32, 1074, 1099, 1087, 1086, 1083, 1085, 1077, 1085, 1086, 46]"
definition COPY_REJECTED :: ustr where "COPY_REJECTED =
  [1056, 1077, 1079, 1077, 1088, 1074, 1085, 1072, 1103, 32, 1082, 1086, 1087, 1080, 1103, 32, 1093, 1088, 1072,
   1085, 1080, 1083, 1080, 1097, 1072, 32, 1085, 1077, 32, 1087, 1088, 1086, 1096, 1083, 1072, 32, 1087, 1088,
   1086, 1074, 1077, 1088, 1082, 1091, 46]"
definition COPY_NOT_CREATED :: ustr where "COPY_NOT_CREATED =
  [1056, 1077, 1079, 1077, 1088, 1074, 1085, 1091, 1102, 32, 1082, 1086, 1087, 1080, 1102, 32, 1093, 1088, 1072,
   1085, 1080, 1083, 1080, 1097, 1072, 32, 1089, 1086, 1079, 1076, 1072, 1090, 1100, 32, 1085, 1077, 32, 1091,
   1076, 1072, 1083, 1086, 1089, 1100, 46]"
definition STORE_READY :: ustr where "STORE_READY =
  [1061, 1088, 1072, 1085, 1080, 1083, 1080, 1097, 1077, 32, 1075, 1086, 1090, 1086, 1074, 1086, 46]"
definition PASSWORD_ONE_LINE :: ustr where "PASSWORD_ONE_LINE =
  [1055, 1072, 1088, 1086, 1083, 1100, 32, 1085, 1091, 1078, 1085, 1086, 32, 1087, 1077, 1088, 1077, 1076, 1072,
   1090, 1100, 32, 1086, 1076, 1085, 1086, 1081, 32, 1089, 1090, 1088, 1086, 1082, 1086, 1081, 32, 1095, 1077,
   1088, 1077, 1079, 32, 115, 116, 100, 105, 110, 46]"
definition ADMIN_CREATED :: ustr where "ADMIN_CREATED =
  [1040, 1076, 1084, 1080, 1085, 1080, 1089, 1090, 1088, 1072, 1090, 1086, 1088, 32, 1089, 1086, 1079, 1076,
   1072, 1085, 46]"
definition PASSWORD_UPDATED :: ustr where "PASSWORD_UPDATED =
  [1055, 1072, 1088, 1086, 1083, 1100, 32, 1086, 1073, 1085, 1086, 1074, 1083, 1105, 1085, 46, 32, 1042, 1089,
   1077, 32, 1089, 1077, 1072, 1085, 1089, 1099, 32, 1079, 1072, 1074, 1077, 1088, 1096, 1077, 1085, 1099, 46]"
definition CHECK_INPUT :: ustr where "CHECK_INPUT =
  [1055, 1088, 1086, 1074, 1077, 1088, 1100, 1090, 1077, 32, 1074, 1074, 1077, 1076, 1105, 1085, 1085, 1099,
   1077, 32, 1076, 1072, 1085, 1085, 1099, 1077, 46]"
definition WRONG_STATE :: ustr where "WRONG_STATE =
  [1050, 1086, 1084, 1072, 1085, 1076, 1072, 32, 1085, 1077, 32, 1087, 1086, 1076, 1093, 1086, 1076, 1080, 1090,
   32, 1076, 1083, 1103, 32, 1090, 1077, 1082, 1091, 1097, 1077, 1075, 1086, 32, 1089, 1086, 1089, 1090, 1086,
   1103, 1085, 1080, 1103, 46]"
definition UNKNOWN_COMMAND :: ustr where "UNKNOWN_COMMAND =
  [1053, 1077, 1080, 1079, 1074, 1077, 1089, 1090, 1085, 1072, 1103, 32, 1082, 1086, 1084, 1072, 1085, 1076, 1072, 46]"

section \<open>The parts\<close>

definition read_password :: "cli_input \<Rightarrow> exn + ustr" where
  "read_password stream = (if ci_isatty stream then Inl PasswordInputError else
     bind_sum (ci_read stream (MAX_PASSWORD_LENGTH + 2)) (\<lambda>payload.
     if length payload > MAX_PASSWORD_LENGTH + 1 then Inl PasswordInputError
     else if payload = [] \<or> last payload \<noteq> 10 \<or> count_list payload 10 \<noteq> 1 \<or> 13 \<in> set payload then Inl PasswordInputError
     else Inr (butlast payload)))"

definition load_settings :: "'h config_host_scheme \<Rightarrow> path \<Rightarrow> ('w cli_state, settings option) prog" where
  "load_settings h config_path = catch (bindP (on_files (settings_load h config_path)) (\<lambda>s. ret (Some s)))
     (\<lambda>e. if e = OSError \<or> is_ValueError e then bindP (print_err SETTINGS_UNREADABLE) (\<lambda>_. ret None) else raise e)"

definition run_migration :: "(ustr \<Rightarrow> ('w, unit) op) \<Rightarrow> ustr \<Rightarrow> ('w cli_state, int) prog" where
  "run_migration upgrade_database database_path = catch (bindP (on_sys (upgrade_database database_path)) (\<lambda>_. ret EXIT_OK))
     (\<lambda>e. if e = OperationalError then bindP (print_err STORE_UNAVAILABLE) (\<lambda>_. ret EXIT_DATABASE_UNAVAILABLE)
        else if e = CommandError \<or> is_SQLAlchemyError e \<or> e = OSError \<or> is_ValueError e
          then bindP (print_err MIGRATION_NOT_DONE) (\<lambda>_. ret EXIT_MIGRATION_FAILED)
        else raise e)"

text \<open>\<^verbatim>\<open>json.dumps(..., sort_keys=True)\<close> of the three fields of a report.\<close>

definition report_line :: "ustr \<Rightarrow> ustr \<Rightarrow> ustr \<Rightarrow> ustr" where
  "report_line quick_check schema sha256 = json_dumps id js_default 0
     (JDict [(U ''quick_check'', JStr quick_check), (U ''schema_version'', JStr schema), (U ''sha256'', JStr sha256)])"

definition verify_command :: "'k backup_host_scheme \<Rightarrow> path \<Rightarrow> ('w cli_state, int) prog" where
  "verify_command k p = bindP (on_files (verify_database k p)) (\<lambda>verification.
     case (dv_ok verification, dv_schema_version verification) of
       (True, Some schema) \<Rightarrow> bindP (print_out (report_line (dv_quick_check verification) schema (dv_sha256 verification))) (\<lambda>_. ret EXIT_OK)
     | _ \<Rightarrow> bindP (print_err COPY_REJECTED) (\<lambda>_. ret EXIT_STATE_CONFLICT))"

definition backup_command :: "'k backup_host_scheme \<Rightarrow> ustr \<Rightarrow> path \<Rightarrow> ('w cli_state, int) prog" where
  "backup_command k database_path target =
     bindP (lift_result (create_engine_for database_path)) (\<lambda>engine.
     bindP (catch (bindP (on_files (create_online_backup k engine target)) (\<lambda>b. ret (Some b)))
       (\<lambda>e. if e = OSError \<or> is_SQLAlchemyError e \<or> is_ValueError e then bindP (print_err COPY_NOT_CREATED) (\<lambda>_. ret None) else raise e)) (\<lambda>r.
     case r of None \<Rightarrow> ret EXIT_BACKUP_FAILED
     | Some b \<Rightarrow> bindP (print_out (report_line (bu_quick_check b) (bu_schema_version b) (bu_sha256 b))) (\<lambda>_. ret EXIT_OK)))"

definition admin_command :: "'w platform \<Rightarrow> ustr \<Rightarrow> cli_command \<Rightarrow> ('w cli_state, int) prog" where
  "admin_command P password command = catch
     (case command of
        InitAdmin login \<Rightarrow> bindP (on_sys (create_initial P login password)) (\<lambda>_. bindP (print_out ADMIN_CREATED) (\<lambda>_. ret EXIT_OK))
      | ResetPassword \<Rightarrow> bindP (on_sys (reset_password P password None)) (\<lambda>_. bindP (print_out PASSWORD_UPDATED) (\<lambda>_. ret EXIT_OK))
      | _ \<Rightarrow> bindP (print_err UNKNOWN_COMMAND) (\<lambda>_. ret EXIT_INVALID_INPUT))
     (\<lambda>e. if e = InvalidAdminInput then bindP (print_err CHECK_INPUT) (\<lambda>_. ret EXIT_INVALID_INPUT)
        else if e = AdminAlreadyExists \<or> e = AdminNotInitialized then bindP (print_err WRONG_STATE) (\<lambda>_. ret EXIT_STATE_CONFLICT)
        else if e = OperationalError then bindP (print_err STORE_UNAVAILABLE) (\<lambda>_. ret EXIT_DATABASE_UNAVAILABLE)
        else raise e)"

section \<open>The command\<close>

definition control_main :: "'h config_host_scheme \<Rightarrow> 'k backup_host_scheme \<Rightarrow> 'w platform \<Rightarrow> (ustr \<Rightarrow> ('w, unit) op) \<Rightarrow> cli_input
    \<Rightarrow> path \<Rightarrow> cli_command \<Rightarrow> ('w cli_state, int) prog" where
  "control_main h k P upgrade_database input_stream config_path command =
     bindP (load_settings h config_path) (\<lambda>loaded. case loaded of None \<Rightarrow> ret EXIT_INVALID_INPUT | Some settings \<Rightarrow>
     (case command of
        VerifyDatabase p \<Rightarrow> verify_command k p
      | BackupDatabase target \<Rightarrow> backup_command k (db_path (st_database settings)) target
      | _ \<Rightarrow>
        bindP (run_migration upgrade_database (db_path (st_database settings))) (\<lambda>migration_status.
        if migration_status \<noteq> EXIT_OK then ret migration_status
        else if command = MigrateDatabase then bindP (print_out STORE_READY) (\<lambda>_. ret EXIT_OK)
        else case read_password input_stream of
          Inl e \<Rightarrow> if e = PasswordInputError then bindP (print_err PASSWORD_ONE_LINE) (\<lambda>_. ret EXIT_INVALID_INPUT) else raise e
        | Inr password \<Rightarrow> bindP (lift_result (create_engine_for (db_path (st_database settings)))) (\<lambda>_. admin_command P password command))))"

end
