(* ===== verification/Backup_Facts.thy ===== *)
theory Backup_Facts
  imports Backup Restore_Ends
begin

text \<open>
  The online backup never overwrites: it works in a new file, and leaves it only when it has been verified. \<open>held\<close> is the
  stage in which the new file is there; SQLite may change the files beside the two databases meanwhile.
\<close>

lemma runs_catch_returns:
  assumes "runs I m Q E'" and "returns m" and "\<And>e. runs E' (k e) Q E"
  shows "runs I (catch m k) Q E"
proof (rule runsI)
  fix s a t assume "I s" "catch m k s = (Ok a, t)"
  then show "Q a t" by (auto elim!: catch_OkE dest: runs_Ok [OF assms(1)] runs_Raise [OF assms(1)] runs_Ok [OF assms(3)])
next
  fix s e t assume "I s" "catch m k s = (Raise e, t)"
  then show "E t" by (auto simp: catch_def split: prod.splits outcome.splits dest: runs_Raise [OF assms(1)] runs_Raise [OF assms(3)])
next
  fix s t assume "I s" "catch m k s = (Stuck, t)"
  then show "E t" using returnsD [OF assms(2)]
    by (auto simp: catch_def split: prod.splits outcome.splits dest: runs_Raise [OF assms(1)] runs_Stuck [OF assms(3)])
qed

section \<open>The places of a backup\<close>

definition sides :: "loc \<Rightarrow> loc set" where
  "sides q = side_of q ` set SIDE_SUFFIXES"

definition backup_at :: "'h host_scheme \<Rightarrow> ustr \<Rightarrow> path \<Rightarrow> loc \<Rightarrow> loc \<Rightarrow> fs \<Rightarrow> bool" where
  "backup_at h engine target src out s \<longleftrightarrow> fs_wf s \<and> path_bytes h (path_parts engine) = Inr src \<and> path_bytes h target = Inr out
     \<and> src \<noteq> [] \<and> out \<noteq> [] \<and> last src \<noteq> DOT_DOT \<and> last out \<noteq> DOT_DOT \<and> real_dir s (butlast src) \<and> real_dir s (butlast out)
     \<and> insert src (sides src) \<inter> insert out (sides out) = {}"

definition backup_places :: "loc \<Rightarrow> loc \<Rightarrow> loc set" where
  "backup_places src out = insert out (sides out) \<union> sides src"

lemma side_not_self: "q \<noteq> [] \<Longrightarrow> q \<notin> sides q"
proof
  assume q: "q \<noteq> []" "q \<in> sides q"
  then obtain suffix where "suffix \<in> set SIDE_SUFFIXES" "q = butlast q @ [last q @ ascii_bytes suffix]" by (auto simp: sides_def side_of_def)
  then have "last q = last q @ ascii_bytes suffix" by (metis last_snoc)
  then show False using \<open>suffix \<in> set SIDE_SUFFIXES\<close> by (auto simp: SIDE_SUFFIXES_def ascii_bytes_def U_def)
qed

lemma side_butlast: "z \<in> sides q \<Longrightarrow> butlast z = butlast q \<and> z \<noteq> []"
  by (auto simp: sides_def side_of_def)

section \<open>SQLite at work\<close>

lemma runs_touch:
  assumes z: "side_of q suffix \<in> T" "side_of q suffix \<noteq> out" and dir: "\<And>t. intact T s t \<Longrightarrow> is_dir (fs_at t (butlast q))"
  shows "runs (held T s out nd) (touch_side h q effects suffix) (\<lambda>_. held T s out nd) E"
proof (cases "effects suffix")
  case (Some r)
  let ?z = "side_of q suffix"
  have ne: "?z \<noteq> []" "butlast ?z = butlast q" by (simp_all add: side_of_def)
  have keep: "held T s out nd t'" if t: "held T s out nd t" "\<not> is_dir (fs_at t ?z)" and t': "fs_at t' = (fs_at t)(?z := w)" and w: "\<And>x. w = Some x \<Longrightarrow> \<not> is_dir w" for t t' w
  proof -
    have "fs_wf t'"
    proof (cases w)
      case None
      then show ?thesis using wf_remove [of t ?z t'] t t' by (simp add: held_def)
    next
      case (Some x)
      then show ?thesis using wf_put [of t ?z x t'] t t' dir [of t] by (simp add: held_def ne)
    qed
    moreover have "untouched T s t'" using untouched_put [of T s t ?z t' w] z(1) t t' by (simp add: held_def)
    ultimately show ?thesis using t(1) t' z(2) by (simp add: held_def)
  qed
  have change: "held T s out nd ((case r of None \<Rightarrow> fs_remove ?z | Some (d, m) \<Rightarrow> fs_put ?z (File d (io_owner h) m)) t)"
    if "held T s out nd t" "\<not> is_dir (fs_at t ?z)" for t
  proof (cases r)
    case None
    then show ?thesis using ne by (intro keep [OF that, of _ None]) (auto simp: fun_eq_iff)
  next
    case (Some dm)
    then show ?thesis using ne by (intro keep [OF that, of _ "Some (File (fst dm) (io_owner h) (snd dm))"]) (auto simp: fun_eq_iff split: prod.split)
  qed
  show ?thesis unfolding touch_side_def Some option.case
    by (rule runs_bind_gets, rule runs_if) (auto intro!: runs_intros change)
qed (simp add: touch_side_def runs_ret)

lemma runs_touch_all:
  assumes "sides q \<subseteq> T" and "out \<notin> sides q" and "\<And>t. intact T s t \<Longrightarrow> is_dir (fs_at t (butlast q))"
  shows "runs (held T s out nd) (for_each (touch_side h q effects) SIDE_SUFFIXES) (\<lambda>_. held T s out nd) E"
proof -
  have "runs (held T s out nd) (for_each (touch_side h q effects) xs) (\<lambda>_. held T s out nd) E" if "set xs \<subseteq> set SIDE_SUFFIXES" for xs
    using that
  proof (induction xs)
    case (Cons x xs)
    have "runs (held T s out nd) (touch_side h q effects x) (\<lambda>_. held T s out nd) E"
      by (rule runs_touch) (use Cons.prems assms in \<open>auto simp: sides_def\<close>)
    then show ?case using Cons by (auto intro: runs_bind)
  qed (simp add: runs_ret)
  then show ?thesis by simp
qed

section \<open>The new file\<close>

lemma backup_facts:
  assumes "backup_at h engine target src out s"
  shows "out \<in> backup_places src out" "sides out \<subseteq> backup_places src out" "sides src \<subseteq> backup_places src out" "out \<notin> sides out" "out \<notin> sides src"
    "src \<notin> backup_places src out" "out \<noteq> []"
    "intact (backup_places src out) s t \<Longrightarrow> real_dir t (butlast out) \<and> real_dir t (butlast src)"
  using assms side_not_self unfolding backup_at_def backup_places_def by (auto intro: real_dir_untouched)

lemma held_resolve:
  assumes at: "backup_at h engine target src out s" and t: "held (backup_places src out) s out (File d u m) t"
  shows "resolve t follow n [] out = Inr out"
proof -
  have "real_dir t (butlast out)" using backup_facts(8) [OF at] t by (simp add: held_def)
  then show ?thesis using resolve_leaf_file [of t "butlast out" "last out" follow n] at t by (simp add: held_def backup_at_def)
qed

lemma source_resolve:
  assumes at: "backup_at h engine target src out s" and src: "fs_at s src = Some (File d u m)" and t: "intact (backup_places src out) s t"
  shows "resolve t follow n [] src = Inr src"
proof -
  have "real_dir t (butlast src)" using backup_facts(8) [OF at t] by blast
  moreover have "fs_at t src = fs_at s src" using backup_facts(6) [OF at] t by (simp add: untouched_def)
  ultimately show ?thesis using resolve_leaf_file [of t "butlast src" "last src" follow n] at src by (simp add: backup_at_def)
qed

lemma runs_sqlite_place:
  assumes "node_pred I" and "path_bytes h p = Inr q" and "\<And>t. I t \<Longrightarrow> resolve t True MAX_LINKS [] q = Inr q"
  shows "runs I (sqlite_place h p) (\<lambda>r t. I t \<and> r = q) I"
  unfolding sqlite_place_def
  by (rule runs_catch [OF runs_post [OF runs_place [OF assms(1)]]]) (use assms(2,3) in \<open>auto intro: runs_raise\<close>)

lemma runs_expected:
  assumes "runs I m Q E"
  shows "runs I (expected m) (\<lambda>r t. case r of Inl _ \<Rightarrow> E t | Inr a \<Rightarrow> Q a t) E"
  unfolding expected_def by (rule runs_catch [OF runs_bind [OF assms]]) (auto intro!: runs_intros)

definition new_file :: "loc \<Rightarrow> loc \<Rightarrow> fs \<Rightarrow> fs \<Rightarrow> bool" where
  "new_file src out s t \<longleftrightarrow> (\<exists>d u m. held (backup_places src out) s out (File d u m) t)"

lemma new_fileI: "held (backup_places src out) s out (File d u m) t \<Longrightarrow> new_file src out s t"
  unfolding new_file_def by blast

lemma runs_sqlite_backup:
  assumes at: "backup_at h engine target src out s" and src: "fs_at s src = Some (File d u m)"
  shows "runs (new_file src out s) (sqlite_backup h (path_parts engine) target) (\<lambda>_. new_file src out s) (new_file src out s)"
proof (rule runs_pre)
  let ?T = "backup_places src out"
  fix s1 assume "new_file src out s s1"
  then obtain d0 u0 m0 where s1: "held ?T s out (File d0 u0 m0) s1" by (auto simp: new_file_def)
  have paths: "path_bytes h (path_parts engine) = Inr src" "path_bytes h target = Inr out" using at by (simp_all add: backup_at_def)
  have find_src: "resolve t True MAX_LINKS [] src = Inr src" if "held ?T s out nd t" for nd t
    using source_resolve [OF at src] held_intact [OF that] by blast
  have up: "is_dir (fs_at t (butlast out))" "is_dir (fs_at t (butlast src))" if "intact ?T s t" for t
    using backup_facts(8) [OF at that] real_dir_is_dir by blast+
  have weak: "new_file src out s t" if "held ?T s out (File x u0 m0) t" for x t using that unfolding new_file_def by blast
  have sides: "runs (held ?T s out (File x u0 m0)) (bindP (for_each (touch_side h src (cp_source_side c)) SIDE_SUFFIXES) (\<lambda>_.
      bindP (for_each (touch_side h out (cp_target_side c)) SIDE_SUFFIXES) (\<lambda>_. case cp_error c of None \<Rightarrow> ret () | Some e \<Rightarrow> raise e)))
      (\<lambda>_. new_file src out s) (new_file src out s)" for x c
    by (rule runs_bind [OF runs_touch_all [OF backup_facts(3) [OF at] backup_facts(5) [OF at] up(2)]], assumption,
        rule runs_bind [OF runs_touch_all [OF backup_facts(2) [OF at] backup_facts(4) [OF at] up(1)]], assumption)
      (auto intro!: runs_intros weak split: option.split)
  have change: "runs (held ?T s out (File d0 u0 m0)) (modify (change_node out (set_data x))) (\<lambda>_. held ?T s out (File x u0 m0)) (new_file src out s)" for x
    by (rule runs_post [OF runs_change [OF backup_facts(1,7) [OF at]]]) (simp_all add: set_data_def)
  have "runs (held ?T s out (File d0 u0 m0)) (sqlite_backup h (path_parts engine) target) (\<lambda>_. new_file src out s) (new_file src out s)"
    unfolding sqlite_backup_def
    apply (rule runs_then [OF runs_sqlite_place [OF node_pred_held paths(1) find_src]], assumption, erule weak, rule runs_assume)
    apply (rule runs_then [OF runs_sqlite_place [OF node_pred_held paths(2) held_resolve [OF at]]], assumption, erule weak, rule runs_assume)
    apply (rule runs_bind_gets, simp, rule runs_at [OF runs_bind [OF change sides]], assumption)
    done
  from runs_at [OF this s1]
  show "runs (\<lambda>t. t = s1) (sqlite_backup h (path_parts engine) target) (\<lambda>_. new_file src out s) (new_file src out s)" .
qed

text \<open>What a verification that is \<open>ok\<close> says of the data.\<close>

definition verified_data :: "'h installer_scheme \<Rightarrow> path \<Rightarrow> bytes \<Rightarrow> database_verification \<Rightarrow> bool" where
  "verified_data h p data v \<longleftrightarrow> dv_database_path v = p \<and> (dv_ok v \<longrightarrow> dv_sha256 v = bytes_hex (in_sha256 h data) \<and> dv_quick_check v = U ''ok''
     \<and> (\<exists>w \<in> set BACKUP_SCHEMA_VERSIONS. dv_schema_version v = Some w))"

lemma runs_read_view:
  assumes "\<And>t. I t \<Longrightarrow> E t"
  shows "runs I (read_view p (bytes_hex (in_sha256 h data)) w) (\<lambda>v t. I t \<and> verified_data h p data v) E"
proof (rule runs_pre)
  fix t assume t: "I t"
  have lift: "expected (lift_result r) s = (case r of Inr a \<Rightarrow> (Ok (Inr a), s)
      | Inl e \<Rightarrow> if e = OSError \<or> e = SqliteError \<or> is_ValueError e then (Ok (Inl e), s) else (Raise e, s))" for r :: "exn + 'd" and s :: fs
    by (cases r) (auto simp: expected_def prog_defs)
  show "runs (\<lambda>u. u = t) (read_view p (bytes_hex (in_sha256 h data)) w) (\<lambda>v t. I t \<and> verified_data h p data v) E"
    using t assms [OF t] unfolding runs_def read_view_def Let_def
    by (auto simp: bindP_def lift ret_def verified_data_def database_verification.defs split: sum.splits if_splits outcome.splits)
qed

lemma runs_verify_database:
  assumes at: "backup_at h engine target src out s"
  shows "runs (held (backup_places src out) s out (File d u m)) (verify_database h target)
    (\<lambda>v t. held (backup_places src out) s out (File d u m) t \<and> verified_data h target d v) (held (backup_places src out) s out (File d u m))"
proof -
  let ?I = "held (backup_places src out) s out (File d u m)"
  have target: "path_bytes h target = Inr out" using at by (simp add: backup_at_def)
  have stat: "runs ?I (os_stat h follow target) (\<lambda>nd t. ?I t \<and> nd = File d u m) ?I" for follow
  proof (rule runs_post [OF runs_stat [OF node_pred_held]])
    fix nd t assume t: "?I t \<and> (\<exists>b q. path_bytes h target = Inr b \<and> resolve t follow MAX_LINKS [] b = Inr q \<and> fs_at t q = Some nd)"
    then have "resolve t follow MAX_LINKS [] out = Inr out" using held_resolve [OF at] by blast
    with t target show "?I t \<and> nd = File d u m" by (auto simp: held_def)
  qed
  have data: "runs ?I (path_read_bytes h target) (\<lambda>x t. ?I t \<and> x = d) ?I"
    unfolding path_read_bytes_def
    by (rule runs_bind [OF stat], rule runs_assume) (auto intro!: runs_intros runs_bind [OF runs_fault [OF node_pred_held]])
  have digest: "runs ?I (file_sha256 h target) (\<lambda>v t. ?I t \<and> v = bytes_hex (in_sha256 h d)) ?I"
    unfolding file_sha256_def by (rule runs_bind [OF data]) (auto intro: runs_intros)
  have up: "is_dir (fs_at t (butlast out))" if "intact (backup_places src out) s t" for t
    using backup_facts(8) [OF at that] real_dir_is_dir by blast
  have touch: "runs ?I (bindP (for_each (touch_side h out w) SIDE_SUFFIXES) (\<lambda>_. ret v)) (\<lambda>_. ?I) ?I" for w and v :: sqlite_view
    by (rule runs_bind [OF runs_touch_all [OF backup_facts(2) [OF at] backup_facts(4) [OF at] up]]) (auto intro: runs_intros)
  have view: "runs ?I (sqlite_read h target) (\<lambda>_. ?I) ?I"
    unfolding sqlite_read_def
    by (rule runs_bind [OF runs_sqlite_place [OF node_pred_held target held_resolve [OF at]]], assumption, rule runs_assume,
        rule runs_bind_gets, simp, rule runs_at [OF touch])
  have first: "runs ?I (bindP (os_stat h False target) (\<lambda>status. case status of File _ _ _ \<Rightarrow> file_sha256 h target | _ \<Rightarrow> raise ValueError))
      (\<lambda>v t. ?I t \<and> v = bytes_hex (in_sha256 h d)) ?I"
    by (rule runs_bind [OF stat], rule runs_assume) (simp add: digest)
  show ?thesis unfolding verify_database_def
  proof (rule runs_bind [OF runs_expected [OF first]], rule runs_pre)
    fix r t assume t: "case r of Inl _ \<Rightarrow> ?I t | Inr v \<Rightarrow> ?I t \<and> v = bytes_hex (in_sha256 h d)"
    have bad: "verified_data h target d (database_verification.make target False q w x)" for q w x by (simp add: verified_data_def database_verification.defs)
    have rest: "runs ?I (bindP (expected (sqlite_read h target)) (\<lambda>r. case r of
         Inl _ \<Rightarrow> ret (database_verification.make target False (U ''unavailable'') None (bytes_hex (in_sha256 h d)))
       | Inr v \<Rightarrow> read_view target (bytes_hex (in_sha256 h d)) v)) (\<lambda>v t. ?I t \<and> verified_data h target d v) ?I"
      by (rule runs_bind [OF runs_expected [OF view]]) (auto intro!: runs_intros runs_read_view simp: bad split: sum.split)
    show "runs (\<lambda>u. u = t) (case r of Inl _ \<Rightarrow> ret (database_verification.make target False (U ''unavailable'') None [])
      | Inr digest \<Rightarrow> bindP (expected (sqlite_read h target)) (\<lambda>r. case r of
         Inl _ \<Rightarrow> ret (database_verification.make target False (U ''unavailable'') None digest)
       | Inr v \<Rightarrow> read_view target digest v)) (\<lambda>v t. ?I t \<and> verified_data h target d v) ?I"
      using t by (cases r) (auto intro!: runs_intros runs_at [OF rest] simp: bad)
  qed
qed

section \<open>The whole backup\<close>

lemma returns_backup [returns_intros]:
  "returns (for_each (touch_side h q effects) xs)" "returns (sqlite_place h p)" "returns (sqlite_read h p)" "returns (sqlite_backup h p p')" "returns (verify_database h p)"
proof -
  show touch: "returns (for_each (touch_side h q effects) xs)" for q effects xs unfolding touch_side_def by (intro returns_intros)
  show place: "returns (sqlite_place h p)" for p unfolding sqlite_place_def by (intro returns_intros)
  show read: "returns (sqlite_read h p)" for p unfolding sqlite_read_def by (intro returns_intros touch place)
  show "returns (sqlite_backup h p p')" unfolding sqlite_backup_def by (intro returns_intros touch place)
  have view: "returns (read_view p digest v)" for p digest v unfolding read_view_def expected_def Let_def by (intro returns_intros)
  show "returns (verify_database h p)" unfolding verify_database_def expected_def file_sha256_def
    by (intro returns_intros read view)
qed

lemma runs_engine_path:
  assumes at: "backup_at h engine target src out s"
  shows "runs (\<lambda>t. t = s) (engine_database_path h engine)
    (\<lambda>p t. (fs_at t = fs_at s \<and> fs_wf t) \<and> p = path_parts engine \<and> (\<exists>d u m. fs_at s src = Some (File d u m))) (\<lambda>t. fs_at t = fs_at s)"
proof -
  have src: "path_bytes h (path_parts engine) = Inr src" "src \<noteq> []" "last src \<noteq> DOT_DOT" "real_dir s (butlast src)" "fs_wf s" using at by (simp_all add: backup_at_def)
  have find: "resolve t False MAX_LINKS [] src = Inr src" if "fs_at t = fs_at s" for t
    using resolve_leaf [OF src(4,3), of MAX_LINKS] src(2) resolve_cong [of t s] that by simp
  have stat: "runs (\<lambda>t. t = s) (os_stat h False (path_parts engine)) (\<lambda>nd t. (fs_at t = fs_at s \<and> fs_wf t) \<and> fs_at s src = Some nd) (\<lambda>t. fs_at t = fs_at s)"
    by (rule runs_weaken [OF runs_stat [OF node_pred_same [of s]]]) (use src find in auto)
  show ?thesis unfolding engine_database_path_def
    by (rule runs_if, rule runs_raise, simp, rule runs_bind [OF stat], rule runs_assume) (auto intro!: runs_intros split: node.split)
qed

lemma runs_reserve:
  assumes at: "backup_at h engine target src out s"
  shows "runs (\<lambda>t. fs_at t = fs_at s \<and> fs_wf t) (reserve_output h target) (\<lambda>_ t. new_file src out s t \<and> fs_at s out = None) (\<lambda>t. fs_at t = fs_at s)"
proof -
  let ?I = "\<lambda>t. fs_at t = fs_at s \<and> fs_wf t"
  have out: "path_bytes h target = Inr out" "out \<noteq> []" "last out \<noteq> DOT_DOT" "real_dir s (butlast out)" using at by (simp_all add: backup_at_def)
  have new: "runs ?I (os_create h target 384) (\<lambda>_ t. new_file src out s t \<and> fs_at s out = None) (\<lambda>t. fs_at t = fs_at s)"
    unfolding os_create_def
  proof (rule runs_bind [OF runs_open_new [OF node_pred_same]], simp, rule runs_pre)
    let ?nd = "File [] (io_owner h) (384 AND NOT (io_umask h))"
    fix r t assume r: "case r of Inl e \<Rightarrow> ?I t
      | Inr q \<Rightarrow> \<exists>s0 b. ?I s0 \<and> path_bytes h target = Inr b \<and> resolve s0 False MAX_LINKS [] b = Inr q \<and> fs_at s0 q = None \<and> t = fs_put q ?nd s0"
    have "new_file src out s t \<and> fs_at s out = None" if ok: "r = Inr q" for q
    proof -
      obtain s0 where s0: "?I s0" "resolve s0 False MAX_LINKS [] out = Inr q" "fs_at s0 q = None" "t = fs_put q ?nd s0" using r ok out(1) by auto
      have real: "real_dir s0 (butlast out)" using out(4) s0(1) by (simp add: real_dir_def)
      have q: "q = out" using resolve_leaf [OF real out(3), of MAX_LINKS] s0(2) out(2) by simp
      have "held (backup_places src out) s out ?nd t"
        by (rule held_new [of _ s s0]) (use s0 q out(2) backup_facts(1) [OF at] real_dir_is_dir [OF real] in \<open>auto simp: untouched_def fun_eq_iff\<close>)
      then show ?thesis using s0(1,3) q by (simp add: new_fileI)
    qed
    then show "runs (\<lambda>u. u = t) (case r of Inl e \<Rightarrow> raise OSError | Inr q \<Rightarrow> ret q) (\<lambda>_ t. new_file src out s t \<and> fs_at s out = None) (\<lambda>t. fs_at t = fs_at s)"
      using r by (cases r) (auto intro!: runs_intros)
  qed
  show ?thesis unfolding reserve_output_def
    by (rule runs_bind [OF runs_reads [OF keeps_stat node_pred_same]], simp, rule runs_if, rule runs_raise, simp, rule runs_bind [OF new]) (auto intro: runs_intros)
qed

text \<open>The clean-up removes the new file unless the system call itself fails.\<close>

lemma runs_drop_new:
  assumes at: "backup_at h engine target src out s" and out: "fs_at s out = None"
  shows "runs (new_file src out s) (path_unlink h target True)
    (\<lambda>_ t. intact (backup_places src out) s t \<and> fs_at t out = fs_at s out)
    (\<lambda>t. intact (backup_places src out) s t \<and> (fs_at t out = fs_at s out \<or> (\<exists>n. io_fault h n)))"
proof (rule runs_pre)
  let ?T = "backup_places src out"
  fix s1 assume "new_file src out s s1"
  then obtain d u m where s1: "held ?T s out (File d u m) s1" by (auto simp: new_file_def)
  let ?s2 = "fs_remove out (fs_calls_update Suc s1)"
  have ne: "out \<noteq> []" "path_bytes h target = Inr out" using at by (simp_all add: backup_at_def)
  have gone: "fs_at ?s2 = (fs_at s1)(out := None)" using ne(1) by (simp add: fun_eq_iff)
  have here: "\<not> is_dir (fs_at s1 out)" "fs_at s1 out \<noteq> None" using s1 by (simp_all add: held_def)
  have "fs_wf ?s2" using wf_remove [OF _ here(1) gone] s1 by (simp add: held_def)
  moreover have "untouched ?T s ?s2" using untouched_put [OF _ backup_facts(1) [OF at] here(1) gone] s1 by (simp add: held_def)
  ultimately have done_ok: "intact ?T s ?s2 \<and> fs_at ?s2 out = fs_at s out" using out gone by simp
  have kept: "intact ?T s (fs_calls_update Suc s1)" using node_pred_calls [OF node_pred_intact] held_intact [OF s1] by blast
  have "resolve s1 False MAX_LINKS [] out = Inr out" using held_resolve [OF at s1] .
  then have unlink: "os_unlink h target s1 = (if io_fault h (fs_calls s1) then (Ok (Inl EIO), fs_calls_update Suc s1) else (Ok (Inr ()), ?s2))"
    using here ne(2) by (auto simp: unlink_run)
  show "runs (\<lambda>t. t = s1) (path_unlink h target True) (\<lambda>_ t. intact ?T s t \<and> fs_at t out = fs_at s out)
    (\<lambda>t. intact ?T s t \<and> (fs_at t out = fs_at s out \<or> (\<exists>n. io_fault h n)))"
    using done_ok kept by (auto simp: runs_def path_unlink_def bindP_def unlink ret_def raise_def split: if_splits outcome.splits)
qed

text \<open>What a finished backup is.\<close>

definition backed_up :: "'h installer_scheme \<Rightarrow> path \<Rightarrow> loc \<Rightarrow> database_backup \<Rightarrow> fs \<Rightarrow> bool" where
  "backed_up h target out b t \<longleftrightarrow> (\<exists>data u. fs_at t out = Some (File data u 384) \<and> bu_sha256 b = bytes_hex (in_sha256 h data)
     \<and> bu_quick_check b = U ''ok'' \<and> bu_schema_version b \<in> set BACKUP_SCHEMA_VERSIONS \<and> bu_database_path b = target)"

lemma runs_chmod_new:
  assumes at: "backup_at h engine target src out s"
  shows "runs (new_file src out s) (os_chmod h target 384) (\<lambda>_ t. \<exists>d u. held (backup_places src out) s out (File d u 384) t) (new_file src out s)"
proof (rule runs_pre)
  let ?T = "backup_places src out"
  fix s1 assume "new_file src out s s1"
  then obtain d u m where s1: "held ?T s out (File d u m) s1" by (auto simp: new_file_def)
  have out: "path_bytes h target = Inr out" "last out \<noteq> DOT_DOT" "out = butlast out @ [last out]" using at by (simp_all add: backup_at_def)
  have real: "real_dir t (butlast out)" if "intact ?T s t" for t using backup_facts(8) [OF at that] by blast
  have place: "runs (held ?T s out (File d u m)) (os_place h True target) (\<lambda>r t. held ?T s out (File d u m) t \<and> r = out) (new_file src out s)"
  proof (rule runs_post [OF runs_place [OF node_pred_held]])
    show "new_file src out s t" if "held ?T s out (File d u m) t" for t using that by (rule new_fileI)
    fix r t assume t: "held ?T s out (File d u m) t \<and> (\<exists>b. path_bytes h target = Inr b \<and> resolve t True MAX_LINKS [] b = Inr r)"
    then have "resolve t True MAX_LINKS [] out = Inr out" using held_resolve [OF at] by blast
    with t out(1) show "held ?T s out (File d u m) t \<and> r = out" by auto
  qed
  have "runs (held ?T s out (File d u m)) (os_chmod h target 384) (\<lambda>_ t. \<exists>d u. held ?T s out (File d u 384) t) (new_file src out s)"
    unfolding os_chmod_def
  proof (rule runs_bind [OF place], rule runs_assume, rule runs_bind_gets)
    fix r s2 assume r: "r = out" and s2: "held ?T s out (File d u m) s2"
    have "runs (held ?T s out (File d u m)) (modify (change_node out (set_mode 384))) (\<lambda>_ t. \<exists>d u. held ?T s out (File d u 384) t) (new_file src out s)"
    proof (rule runs_post [OF runs_change [OF backup_facts(1,7) [OF at]]])
      fix t assume "held ?T s out (set_mode 384 (File d u m)) t"
      then have "held ?T s out (File d u 384) t" by (simp add: set_mode_def)
      then show "\<exists>d u. held ?T s out (File d u 384) t" by blast
    qed simp
    from runs_at [OF this s2] s2 r
    show "runs (\<lambda>t. t = s2) (if fs_at s2 r = None then raise OSError else modify (change_node r (set_mode 384))) (\<lambda>_ t. \<exists>d u. held ?T s out (File d u 384) t) (new_file src out s)"
      by (simp add: held_def)
  qed
  from runs_at [OF this s1] show "runs (\<lambda>t. t = s1) (os_chmod h target 384) (\<lambda>_ t. \<exists>d u. held ?T s out (File d u 384) t) (new_file src out s)" .
qed

lemma runs_backup:
  assumes at: "backup_at h engine target src out s"
  shows "runs (\<lambda>t. t = s) (create_online_backup h engine target)
    (\<lambda>b t. intact (backup_places src out) s t \<and> fs_at s out = None \<and> backed_up h target out b t)
    (\<lambda>t. intact (backup_places src out) s t \<and> (fs_at t out = fs_at s out \<or> fs_at s out = None \<and> (\<exists>n. io_fault h n)))"
proof -
  let ?T = "backup_places src out"
  let ?Q = "\<lambda>b t. intact ?T s t \<and> fs_at s out = None \<and> backed_up h target out b t"
  let ?E = "\<lambda>t. intact ?T s t \<and> (fs_at t out = fs_at s out \<or> fs_at s out = None \<and> (\<exists>n. io_fault h n))"
  let ?result = "\<lambda>v. case (dv_ok v, dv_schema_version v) of
      (True, Some schema) \<Rightarrow> ret (database_backup.make (dv_database_path v) (dv_quick_check v) schema (dv_sha256 v)) | _ \<Rightarrow> raise ValueError"
  have same: "?E t" if "fs_at t = fs_at s" for t using that at wf_cong [OF that] by (auto simp: backup_at_def untouched_def)
  have checked: "runs (\<lambda>t. \<exists>d u. held ?T s out (File d u 384) t) (bindP (verify_database h target) ?result) ?Q (new_file src out s)" if out: "fs_at s out = None"
  proof (rule runs_pre)
    fix s1 assume "\<exists>d u. held ?T s out (File d u 384) s1"
    then obtain d u where s1: "held ?T s out (File d u 384) s1" by blast
    have "runs (held ?T s out (File d u 384)) (bindP (verify_database h target) ?result) ?Q (new_file src out s)"
    proof (rule runs_then [OF runs_verify_database [OF at]], erule new_fileI, rule runs_assume)
      fix v assume v: "verified_data h target d v"
      have "?Q (database_backup.make (dv_database_path v) (dv_quick_check v) schema (dv_sha256 v)) t"
        if "dv_ok v" "dv_schema_version v = Some schema" "held ?T s out (File d u 384) t" for schema t
        using v that out unfolding verified_data_def backed_up_def held_def by (force simp: database_backup.defs)
      then show "runs (held ?T s out (File d u 384)) (?result v) ?Q (new_file src out s)"
        by (cases "dv_ok v"; cases "dv_schema_version v") (auto intro!: runs_intros intro: new_fileI)
    qed
    from runs_at [OF this s1] show "runs (\<lambda>t. t = s1) (bindP (verify_database h target) ?result) ?Q (new_file src out s)" .
  qed
  have attempt: "runs (new_file src out s) (catch (bindP (sqlite_backup h (path_parts engine) target) (\<lambda>_.
      bindP (os_chmod h target 384) (\<lambda>_. bindP (verify_database h target) ?result))) (\<lambda>e. bindP (path_unlink h target True) (\<lambda>_. raise e))) ?Q ?E"
    if src: "fs_at s src = Some (File d u m)" and out: "fs_at s out = None" for d u m
  proof (rule runs_catch_returns [OF runs_bind [OF runs_sqlite_backup [OF at src] runs_bind [OF runs_chmod_new [OF at] checked [OF out]]]])
    show "returns (bindP (sqlite_backup h (path_parts engine) target) (\<lambda>_. bindP (os_chmod h target 384) (\<lambda>_. bindP (verify_database h target) ?result)))"
      by (intro returns_intros) (auto intro!: returns_intros split: bool.split option.split)
    show "runs (new_file src out s) (bindP (path_unlink h target True) (\<lambda>_. raise e)) ?Q ?E" for e
      by (rule runs_then [OF runs_drop_new [OF at out]]) (use out in \<open>auto intro!: runs_intros\<close>)
  qed
  show ?thesis unfolding create_online_backup_def
  proof (rule runs_then [OF runs_engine_path [OF at]], erule same, rule runs_assume)
    fix p assume p: "p = path_parts engine \<and> (\<exists>d u m. fs_at s src = Some (File d u m))"
    then obtain d u m where src: "fs_at s src = Some (File d u m)" by blast
    show "runs (\<lambda>t. fs_at t = fs_at s \<and> fs_wf t) (bindP (reserve_output h target) (\<lambda>_.
       catch (bindP (sqlite_backup h p target) (\<lambda>_. bindP (os_chmod h target 384) (\<lambda>_. bindP (verify_database h target) ?result)))
         (\<lambda>e. bindP (path_unlink h target True) (\<lambda>_. raise e)))) ?Q ?E"
      unfolding conjunct1 [OF p] by (rule runs_then [OF runs_reserve [OF at]], erule same, rule runs_assume, rule attempt [OF src])
  qed
qed

lemma returns_online_backup: "returns (create_online_backup h engine target)"
  unfolding create_online_backup_def engine_database_path_def reserve_output_def
  by (intro returns_intros) (auto intro!: returns_intros split: bool.split option.split)

end
