(* ===== verification/Cli_Facts.thy ===== *)
theory Cli_Facts
  imports Cli Backup_Facts
begin

text \<open>
  What the commands of the panel do to the store, what they print, and how they end. \<open>stage\<close> collects this for one step: the nodes of the file system
  stay, and the lines that are printed are listed.
\<close>

section \<open>One step\<close>

definition stage :: "'w cli_state \<Rightarrow> 'w cli_state \<Rightarrow> ustr list \<Rightarrow> ustr list \<Rightarrow> bool" where
  "stage s t outs errs \<longleftrightarrow> fs_at (cl_files t) = fs_at (cl_files s) \<and> cl_out t = cl_out s @ outs \<and> cl_err t = cl_err s @ errs"

lemma stage_trans: "stage s t outs errs \<Longrightarrow> stage t u outs' errs' \<Longrightarrow> stage s u (outs @ outs') (errs @ errs')"
  by (simp add: stage_def)

lemma stage_nil [simp]: "stage s s [] []"
  by (simp add: stage_def)

lemma on_sys_run: "on_sys m s = (r, t) \<longleftrightarrow> (\<exists>u. m (cl_sys s) = (r, u) \<and> t = s\<lparr>cl_sys := u\<rparr>)"
  and on_files_run: "on_files f s = (r, t) \<longleftrightarrow> (\<exists>u. f (cl_files s) = (r, u) \<and> t = s\<lparr>cl_files := u\<rparr>)"
  by (auto simp: on_sys_def on_files_def split: prod.splits)

lemma print_run: "print_out x s = (Ok (), s\<lparr>cl_out := cl_out s @ [x]\<rparr>)" "print_err x s = (Ok (), s\<lparr>cl_err := cl_err s @ [x]\<rparr>)"
  by (simp_all add: print_out_def print_err_def prog_simps)

lemmas cli_runs = bindP_def catch_def print_run ret_def raise_def

section \<open>The stages\<close>

lemma load_settings_run:
  assumes "load_settings h p s = (r, t)"
  shows "r \<noteq> Stuck" "cl_sys t = cl_sys s" "stage s t [] (if r = Ok None then [SETTINGS_UNREADABLE] else [])"
proof -
  obtain x u where u: "settings_load h p (cl_files s) = (x, u)" by fastforce
  have "returns (settings_load h p)" unfolding settings_load_def by (intro returns_intros)
  then have ends: "x \<noteq> Stuck" using u by (metis returnsD)
  have "keeps (\<lambda>s. fs_nodes s = N) (settings_load h p)" for N unfolding settings_load_def by (intro keeps_intros)
  then have "fs_nodes u = fs_nodes (cl_files s)" by (metis (mono_tags, lifting) keepsD_eq u)
  then have "fs_at u = fs_at (cl_files s)" by (rule fs_at_nodes)
  then show "r \<noteq> Stuck" "cl_sys t = cl_sys s" "stage s t [] (if r = Ok None then [SETTINGS_UNREADABLE] else [])"
    using assms ends by (cases x; auto simp: load_settings_def cli_runs on_files_def u stage_def split: if_splits)+
qed

text \<open>Alembic ends, and changes nothing in a store that has the schema of the last revision.\<close>

definition migration_idle :: "(ustr \<Rightarrow> ('w, unit) op) \<Rightarrow> bool" where
  "migration_idle upgrade_database \<longleftrightarrow> (\<forall>p s r t. upgrade_database p s = (r, t) \<longrightarrow> r \<noteq> Stuck \<and> (schema_ok (sys_db s) \<longrightarrow> sys_db t = sys_db s))"

definition cli_reports :: "cli_command \<Rightarrow> (int \<times> ustr list \<times> ustr list) list" where
  "cli_reports command = [(2, [], [SETTINGS_UNREADABLE]), (3, [], [STORE_UNAVAILABLE]), (5, [], [MIGRATION_NOT_DONE]), (2, [], [PASSWORD_ONE_LINE]),
     (2, [], [CHECK_INPUT]), (4, [], [WRONG_STATE]), (0, [case command of InitAdmin _ \<Rightarrow> ADMIN_CREATED | MigrateDatabase \<Rightarrow> STORE_READY | _ \<Rightarrow> PASSWORD_UPDATED], [])]"

lemma migration_run:
  assumes "migration_idle upgrade_database" and "run_migration upgrade_database p s = (r, t)" and "schema_ok (sys_db (cl_sys s))"
  shows "r \<noteq> Stuck" "sys_db (cl_sys t) = sys_db (cl_sys s)" "stage s t [] (if r = Ok 3 then [STORE_UNAVAILABLE] else if r = Ok 5 then [MIGRATION_NOT_DONE] else [])"
    "r \<in> {Ok 0, Ok 3, Ok 5} \<or> (\<exists>e. r = Raise e)"
proof -
  obtain x u where u: "upgrade_database p (cl_sys s) = (x, u)" by fastforce
  have idle: "x \<noteq> Stuck" "sys_db u = sys_db (cl_sys s)" using assms(1,3) u unfolding migration_idle_def by blast+
  show "r \<noteq> Stuck" "sys_db (cl_sys t) = sys_db (cl_sys s)" "stage s t [] (if r = Ok 3 then [STORE_UNAVAILABLE] else if r = Ok 5 then [MIGRATION_NOT_DONE] else [])"
    "r \<in> {Ok 0, Ok 3, Ok 5} \<or> (\<exists>e. r = Raise e)"
    using assms(2) idle by (cases x; auto simp: run_migration_def cli_runs on_sys_def u exit_codes stage_def split: if_splits)+
qed

section \<open>The administrator\<close>

lemma reset_now_refines:
  "implements P schema_ok (reset_password P pw None) (\<lambda>db. \<Union>now. case utc_instant now of Inl e \<Rightarrow> {(Raise e, db)} | Inr ts \<Rightarrow> reset_spec P pw ts db)"
proof -
  have now: "reset_password P pw None = bindP (world_call (clock_now P)) (\<lambda>t. reset_password P pw (Some (Aware t 0)))"
    by (rule ext) (simp add: reset_password_def now_utc_def bindP_def split: prod.split outcome.split)
  show ?thesis unfolding now
    by (rule implements_world_then [OF world_call_shape], rule implements_mono [OF reset_password_refines]) blast
qed

text \<open>What a successful command has done to the store.\<close>

definition admin_set :: "'w platform \<Rightarrow> cli_command \<Rightarrow> ustr \<Rightarrow> database \<Rightarrow> database \<Rightarrow> bool" where
  "admin_set P command pw db db' \<longleftrightarrow> (case command of
     InitAdmin login \<Rightarrow> admins db = [] \<and> (\<exists>n i hash ts. normalize_login P login = Inr n \<and> validate_new_password P pw (Some n) = Inr ()
       \<and> hash \<in> hashes P pw \<and> db' = admins_update (\<lambda>_. [new_admin_row i n hash ts]) db)
   | _ \<Rightarrow> (\<exists>a as hash ts. admins db = a # as \<and> validate_new_password P pw (Some (ad_login a)) = Inr () \<and> hash \<in> hashes P pw
       \<and> db' = revoke_sessions_of (ad_id a) ts (with_admin a (apply_reset hash ts) db)))"

lemma create_initial_run:
  assumes "schema_ok (sys_db s)" and "create_initial P login pw s = (r, t)"
  shows "r \<noteq> Stuck" "(\<exists>a. r = Ok a) \<Longrightarrow> admin_set P (InitAdmin login) pw (sys_db s) (sys_db t)" "\<nexists>a. r = Ok a \<Longrightarrow> sys_db t = sys_db s"
proof -
  have fresh: "admins (sys_db s) = [] \<and> db' = admins_update (\<lambda>_. [new_admin_row i n h ts]) (sys_db s)"
    if "insert_admin (new_admin_row i n h ts) (sys_db s) = Inr db'" for i n h ts db'
  proof -
    have "admins (sys_db s) = []" using insert_admin_taken [OF assms(1), of "new_admin_row i n h ts"] that by (auto simp: new_admin_row_def)
    with that show ?thesis by (auto simp: insert_admin_def split: if_splits)
  qed
  from implementsD(2) [OF create_initial_refines assms]
  show "r \<noteq> Stuck" "(\<exists>a. r = Ok a) \<Longrightarrow> admin_set P (InitAdmin login) pw (sys_db s) (sys_db t)" "\<nexists>a. r = Ok a \<Longrightarrow> sys_db t = sys_db s"
    by (auto simp: created_admin_spec_def admin_set_def dest!: fresh split: sum.splits)
qed

lemma reset_password_run:
  assumes "schema_ok (sys_db s)" and "reset_password P pw None s = (r, t)"
  shows "r \<noteq> Stuck" "r = Ok () \<Longrightarrow> admin_set P ResetPassword pw (sys_db s) (sys_db t)" "r \<noteq> Ok () \<Longrightarrow> sys_db t = sys_db s"
proof -
  obtain now where "(r, sys_db t) \<in> (case utc_instant now of Inl e \<Rightarrow> {(Raise e, sys_db s)} | Inr ts \<Rightarrow> reset_spec P pw ts (sys_db s))
      \<or> r = Raise OperationalError \<and> sys_db t = sys_db s"
    using implementsD(2) [OF reset_now_refines assms] by blast
  then show "r \<noteq> Stuck" "r = Ok () \<Longrightarrow> admin_set P ResetPassword pw (sys_db s) (sys_db t)" "r \<noteq> Ok () \<Longrightarrow> sys_db t = sys_db s"
    by (cases "utc_instant now"; cases "admins (sys_db s)"; cases "validate_new_password P pw (Some (ad_login (hd (admins (sys_db s)))))";
        auto simp: reset_spec_def admin_set_def)+
qed

text \<open>The handlers of \<^verbatim>\<open>main\<close>.\<close>

lemma admin_command_run:
  assumes schema: "schema_ok (sys_db (cl_sys s))" and command: "\<exists>login. command = InitAdmin login \<or> command = ResetPassword"
    and run: "admin_command P pw command s = (r, t)"
  shows "r \<noteq> Stuck" "r = Ok status \<Longrightarrow> (\<exists>outs errs. stage s t outs errs \<and> (status, outs, errs) \<in> set (cli_reports command))"
    "\<nexists>status. r = Ok status \<Longrightarrow> stage s t [] []"
    "if r = Ok 0 then admin_set P command pw (sys_db (cl_sys s)) (sys_db (cl_sys t)) else sys_db (cl_sys t) = sys_db (cl_sys s)"
proof -
  let ?goal = "r \<noteq> Stuck \<and> (\<forall>status. r = Ok status \<longrightarrow> (\<exists>outs errs. stage s t outs errs \<and> (status, outs, errs) \<in> set (cli_reports command)))
    \<and> ((\<nexists>status. r = Ok status) \<longrightarrow> stage s t [] [])
    \<and> (if r = Ok 0 then admin_set P command pw (sys_db (cl_sys s)) (sys_db (cl_sys t)) else sys_db (cl_sys t) = sys_db (cl_sys s))"
  have ?goal
  proof (cases "command = ResetPassword")
    case True
    obtain x u where u: "reset_password P pw None (cl_sys s) = (x, u)" by fastforce
    note facts = reset_password_run [OF schema u]
    from run facts show ?thesis
      by (cases x) (auto simp: True admin_command_def cli_runs on_sys_def u exit_codes stage_def cli_reports_def split: if_splits)
  next
    case False
    then obtain login where login: "command = InitAdmin login" using command by blast
    obtain x u where u: "create_initial P login pw (cl_sys s) = (x, u)" by fastforce
    note facts = create_initial_run [OF schema u]
    from run facts show ?thesis
      by (cases x) (auto simp: login admin_command_def cli_runs on_sys_def u exit_codes stage_def cli_reports_def split: if_splits)
  qed
  then show "r \<noteq> Stuck" "r = Ok status \<Longrightarrow> (\<exists>outs errs. stage s t outs errs \<and> (status, outs, errs) \<in> set (cli_reports command))"
    "\<nexists>status. r = Ok status \<Longrightarrow> stage s t [] []"
    "if r = Ok 0 then admin_set P command pw (sys_db (cl_sys s)) (sys_db (cl_sys t)) else sys_db (cl_sys t) = sys_db (cl_sys s)" by blast+
qed

section \<open>The whole command\<close>

text \<open>How an administrator command ends: with a status and its lines, or with an exception and no line.\<close>

definition reported :: "cli_command \<Rightarrow> 'w cli_state \<Rightarrow> int outcome \<Rightarrow> 'w cli_state \<Rightarrow> bool" where
  "reported command s r t \<longleftrightarrow> r \<noteq> Stuck \<and> (\<exists>outs errs. stage s t outs errs
     \<and> (case r of Ok status \<Rightarrow> (status, outs, errs) \<in> set (cli_reports command) | _ \<Rightarrow> outs = [] \<and> errs = []))"

lemma reported_Ok: "stage s t outs errs \<Longrightarrow> (status, outs, errs) \<in> set (cli_reports command) \<Longrightarrow> reported command s (Ok status) t"
  and reported_Raise: "stage s t [] [] \<Longrightarrow> reported command s (Raise e) t"
  by (auto simp: reported_def)

lemma reported_after: "stage s t [] [] \<Longrightarrow> reported command t r u \<Longrightarrow> reported command s r u"
  unfolding reported_def using stage_trans [of s t "[]" "[]"] by fastforce

lemma password_stage:
  assumes schema: "schema_ok (sys_db (cl_sys s))" and command: "\<exists>login. command = InitAdmin login \<or> command = ResetPassword"
    and run: "(case read_password input_stream of
        Inl e \<Rightarrow> if e = PasswordInputError then bindP (print_err PASSWORD_ONE_LINE) (\<lambda>_. ret EXIT_INVALID_INPUT) else raise e
      | Inr password \<Rightarrow> bindP (lift_result (create_engine_for p)) (\<lambda>_. admin_command P password command)) s = (r, t)"
  shows "reported command s r t" "if r = Ok 0 then \<exists>pw. read_password input_stream = Inr pw \<and> admin_set P command pw (sys_db (cl_sys s)) (sys_db (cl_sys t))
    else sys_db (cl_sys t) = sys_db (cl_sys s)"
proof -
  let ?goal = "reported command s r t \<and> (if r = Ok 0 then \<exists>pw. read_password input_stream = Inr pw \<and> admin_set P command pw (sys_db (cl_sys s)) (sys_db (cl_sys t))
    else sys_db (cl_sys t) = sys_db (cl_sys s))"
  consider e where "read_password input_stream = Inl e" | pw e where "read_password input_stream = Inr pw" "create_engine_for p = Inl e"
    | pw q where "read_password input_stream = Inr pw" "create_engine_for p = Inr q" by (cases "read_password input_stream"; cases "create_engine_for p") auto
  then have ?goal
  proof cases
    case (1 e)
    then show ?thesis using run
      by (auto simp: cli_runs exit_codes cli_reports_def stage_def intro!: reported_Ok [of _ _ "[]" "[PASSWORD_ONE_LINE]"] reported_Raise split: if_splits)
  next
    case (2 pw e)
    then show ?thesis using run by (auto simp: cli_runs prog_simps intro: reported_Raise)
  next
    case (3 pw q)
    then have "admin_command P pw command s = (r, t)" using run by (simp add: prog_simps)
    note facts = admin_command_run [OF schema command this]
    have "reported command s r t" using facts(1-3) by (cases r) (auto intro: reported_Ok reported_Raise)
    with facts(4) 3(1) show ?thesis by simp
  qed
  then show "reported command s r t" "if r = Ok 0 then \<exists>pw. read_password input_stream = Inr pw \<and> admin_set P command pw (sys_db (cl_sys s)) (sys_db (cl_sys t))
    else sys_db (cl_sys t) = sys_db (cl_sys s)" by blast+
qed

lemma control_main_run:
  assumes idle: "migration_idle upgrade_database" and schema: "schema_ok (sys_db (cl_sys s))"
    and command: "\<exists>login. command = InitAdmin login \<or> command = ResetPassword"
    and run: "control_main h k P upgrade_database input_stream config_path command s = (r, t)"
  shows "reported command s r t" "if r = Ok 0 then \<exists>pw. read_password input_stream = Inr pw \<and> admin_set P command pw (sys_db (cl_sys s)) (sys_db (cl_sys t))
    else sys_db (cl_sys t) = sys_db (cl_sys s)"
proof -
  let ?set = "\<lambda>db db'. if r = Ok 0 then \<exists>pw. read_password input_stream = Inr pw \<and> admin_set P command pw db db' else db' = db"
  obtain l s1 where l: "load_settings h config_path s = (l, s1)" by fastforce
  note load = load_settings_run [OF l]
  have "reported command s r t \<and> ?set (sys_db (cl_sys s)) (sys_db (cl_sys t))"
  proof (cases l)
    case (Ok loaded)
    show ?thesis
    proof (cases loaded)
      case None
      then have "r = Ok 2" "t = s1" using run by (simp_all add: control_main_def bindP_def l Ok exit_codes ret_def)
      then show ?thesis using load by (auto simp: Ok None cli_reports_def intro!: reported_Ok)
    next
      case (Some settings)
      let ?path = "db_path (st_database settings)"
      have start: "stage s s1 [] []" "cl_sys s1 = cl_sys s" using load by (simp_all add: Ok Some)
      obtain x s2 where x: "run_migration upgrade_database ?path s1 = (x, s2)" by fastforce
      note migrated = migration_run [OF idle x]
      have same: "sys_db (cl_sys s2) = sys_db (cl_sys s)" using migrated(2) schema start(2) by simp
      have rest: "(case x of Ok status \<Rightarrow> (if status \<noteq> EXIT_OK then ret status else case read_password input_stream of
          Inl e \<Rightarrow> if e = PasswordInputError then bindP (print_err PASSWORD_ONE_LINE) (\<lambda>_. ret EXIT_INVALID_INPUT) else raise e
        | Inr password \<Rightarrow> bindP (lift_result (create_engine_for ?path)) (\<lambda>_. admin_command P password command)) s2
        | Raise e \<Rightarrow> (Raise e, s2) | Stuck \<Rightarrow> (Stuck, s2)) = (r, t)"
        using run command by (auto simp: control_main_def bindP_def l Ok Some x split: outcome.splits)
      have "reported command s1 r t \<and> ?set (sys_db (cl_sys s2)) (sys_db (cl_sys t))"
      proof (cases "x = Ok 0")
        case True
        have s2: "stage s1 s2 [] []" "schema_ok (sys_db (cl_sys s2))" using migrated(3) True schema same start(2) by simp_all
        have "(case read_password input_stream of
            Inl e \<Rightarrow> if e = PasswordInputError then bindP (print_err PASSWORD_ONE_LINE) (\<lambda>_. ret EXIT_INVALID_INPUT) else raise e
          | Inr password \<Rightarrow> bindP (lift_result (create_engine_for ?path)) (\<lambda>_. admin_command P password command)) s2 = (r, t)"
          using rest by (simp add: True exit_codes)
        from password_stage [OF s2(2) command this] show ?thesis using reported_after [OF s2(1)] by blast
      next
        case False
        have "(\<exists>e. x = Raise e) \<or> x = Ok 3 \<or> x = Ok 5" using migrated(4) schema start(2) False by auto
        then show ?thesis using rest migrated(3) schema start(2)
          by (auto simp: exit_codes ret_def cli_reports_def reported_def)
      qed
      with start same reported_after show ?thesis by auto
    qed
  next
    case (Raise e)
    then have "r = Raise e" "t = s1" using run by (simp_all add: control_main_def bindP_def l)
    then show ?thesis using load by (auto simp: Raise intro: reported_Raise)
  qed (use load in simp)
  then show "reported command s r t" "?set (sys_db (cl_sys s)) (sys_db (cl_sys t))" by blast+
qed

end
