(* ===== verification/Panel_Properties.thy ===== *)
theory Panel_Properties
  imports App_Facts Cli_Facts Installer_Properties Simulation
begin

text \<open>
  What the panel promises when it is started and when it is used from the command line. The concrete hosts at the end of each section show that the hypotheses hold together.
\<close>

section \<open>Starting the panel\<close>

text \<open>
  C15. The panel starts on what the installer leaves. Let the configuration file hold the text that the renderer writes for an IPv4 address and valid Xray
  material, let the three secret files be regular files of mode 0600 with 32 bytes, and let no system call fail. Reading by \<^verbatim>\<open>tomllib\<close>, \<^verbatim>\<open>pydantic\<close> and
  \<^verbatim>\<open>httpx\<close> as documented, \<^verbatim>\<open>create_runtime_app\<close> succeeds and changes no file, and the links of the running panel carry the rendered
  address, the rendered public key and short identifier and the token of the obfuscation secret, on the ports 443 and 9443; every key is derived from the master
  key, sessions last twelve hours without use and seven days in all, and only the gateway is trusted as a proxy.
\<close>

theorem panel_starts:
  assumes "\<And>k. \<not> io_fault h k" and "toml_reads (cf_toml h)" and "pydantic_ok h" and "stats_url_ok (url (U ''http://hysteria:9999/''))"
    and "xray_ok x" and "n < 2 ^ 32" and "environ (U ''EZOPENPN_CONFIG_PATH'') = None"
    and "readable h (path_parts (U ''/etc/ezopenpn/control.toml'')) (ascii_bytes (control_config (ip_compressed (IPv4 n)) x)) s"
    and "secret_file h (path_parts (U ''/run/secrets/ezopenpn_master_key'')) master s"
    and "secret_file h (path_parts (U ''/run/secrets/ezopenpn_hysteria_api'')) api s"
    and "secret_file h (path_parts (U ''/run/secrets/ezopenpn_hysteria_obfs'')) obfs s"
  shows "\<exists>ws t. create_runtime_app h P environ url dummy segno s = (Ok ws, t) \<and> fs_nodes t = fs_nodes s
    \<and> co_links (ws_runtime ws) = \<lparr>tc_host = word_of_nat n, tc_reality_public_key = xv_public_key x, tc_reality_short_id = xv_short_id x,
        tc_hysteria_obfs_password = url_token obfs, tc_public_port = 443, tc_panel_port = 9443\<rparr>
    \<and> co_tag (ws_runtime ws) = U ''protected-entry'' \<and> secret_cipher P master = Inr (co_cipher (ws_runtime ws))
    \<and> make_session_service P master (12 * 3600 * 10 ^ 6) (7 * 24 * 3600 * 10 ^ 6) = Inr (ws_sessions ws)
    \<and> make_throttle_service P master = Inr (ws_throttle ws) \<and> make_preauth_service P master (5 * 60 * 10 ^ 6) = Inr (ws_preauth ws)
    \<and> ws_trusted_proxy_hosts ws = [U ''gateway'']"
proof -
  let ?f = "secret_files.make master api obfs" and ?st = "control_settings n x"
  have sizes: "length (sf_master_key ?f) = 32" "length (sf_hysteria_api_secret ?f) = 32" "length (sf_hysteria_obfs_secret ?f) = 32"
    using assms(9-11) by (simp_all add: secret_file_def secret_files.defs)
  obtain ws where ws: "runtime_services P url dummy segno ?st ?f = Inr ws" using rendered_services [where url = url, OF assms(5,6,4) sizes] by blast
  have "settings_at h (config_path_of environ) ?st s"
    using assms(7,8) control_text_decodes rendered_settings [OF assms(2,3,5,6)] by (auto simp: settings_at_def DEFAULT_CONFIG_PATH_def simp del: ip_compressed.simps)
  moreover have "secrets_at h ?st ?f s" using assms(9-11) by (simp add: secrets_at_def control_settings_def settings.defs path_settings.defs secret_files.defs)
  ultimately have "yields s (create_runtime_app h P environ url dummy segno) ws" using ws by (rule yields_app [OF assms(1)])
  then obtain t where "create_runtime_app h P environ url dummy segno s = (Ok ws, t)" "fs_nodes t = fs_nodes s" by (auto simp: yields_def)
  moreover have "serves P ?st ?f ws" using ws by (rule services_serve)
  moreover from this link_config_Inr(1) [of ?st ?f "co_links (ws_runtime ws)"] have "co_links (ws_runtime ws) = \<lparr>tc_host = word_of_nat n,
      tc_reality_public_key = xv_public_key x, tc_reality_short_id = xv_short_id x, tc_hysteria_obfs_password = url_token obfs, tc_public_port = 443, tc_panel_port = 9443\<rparr>"
    by (simp add: serves_def control_settings_def settings.defs app_settings.defs xray_settings.defs secret_files.defs)
  ultimately show ?thesis
    by (auto simp: serves_def control_settings_def settings.defs xray_settings.defs proxy_trust_settings.defs session_settings.defs secret_files.defs)
qed

text \<open>A host with a reader of TOML, and a tree with the rendered file and the secrets.\<close>

definition take_string :: "toml \<Rightarrow> ustr option" where
  "take_string v = (case v of TomlString t \<Rightarrow> Some t | _ \<Rightarrow> None)"

definition panel_host :: config_host where
  "panel_host = host.extend (host.truncate sample_host) \<lparr>cf_toml = read_toml, pd_str = take_string,
     pd_int = \<lambda>v. case v of TomlInt n \<Rightarrow> Some n | _ \<Rightarrow> None,
     pd_ip = \<lambda>v. map_option word_of_nat (Option.bind (take_string v) parse_ipv4), pd_path = take_string,
     pd_str_set = \<lambda>v. case v of TomlArray vs \<Rightarrow> those (map take_string vs) | _ \<Rightarrow> None,
     pd_url = \<lambda>v. map_option (\<lambda>t. t @ U ''/'') (take_string v)\<rparr>"

definition panel_url :: "ustr \<Rightarrow> url_parts" where
  "panel_url t = \<lparr>url_scheme = U ''http'', url_userinfo = [], url_path = U ''/'', url_query = [], url_fragment = []\<rparr>"

definition panel_config :: bytes where
  "panel_config = ascii_bytes (control_config (ip_compressed (IPv4 3405803783)) sample_xray)"

definition panel_tree :: fs where
  "panel_tree = \<lparr>fs_nodes = [(place [''etc''], Dir root_owner 493), (place [''etc'', ''ezopenpn''], Dir root_owner 493),
       (place [''etc'', ''ezopenpn'', ''control.toml''], File panel_config root_owner 416),
       (place [''run''], Dir root_owner 493), (place [''run'', ''secrets''], Dir root_owner 448),
       (place [''run'', ''secrets'', ''ezopenpn_master_key''], File (replicate 32 1) root_owner 384),
       (place [''run'', ''secrets'', ''ezopenpn_hysteria_api''], File (replicate 32 2) root_owner 384),
       (place [''run'', ''secrets'', ''ezopenpn_hysteria_obfs''], File (replicate 32 3) root_owner 384)], fs_calls = 0\<rparr>"

lemma sample_xray_ok: "xray_ok sample_xray"
  using sample_key_ok by (simp add: xray_ok_def sample_xray_def sample_limits_def limits_ok_def RENDER_SHORT_ID_def U_def is_lower_hex_def)

lemma panel_host_fields: "io_fault panel_host = (\<lambda>_. False)" "cf_toml panel_host = read_toml" "io_fsencode panel_host = io_fsencode sample_host"
  by (simp_all add: panel_host_def host.defs sample_host_def)

lemma panel_pydantic: "pydantic_ok panel_host"
proof -
  have "those (map take_string (map TomlString ts)) = Some ts" for ts by (induction ts) (simp_all add: take_string_def)
  then show ?thesis by (simp add: pydantic_ok_def panel_host_def host.defs take_string_def U_def)
qed

lemma panel_path: "path_bytes panel_host p = path_bytes sample_host p"
  by (simp add: path_bytes_def panel_host_fields)

lemma panel_config_readable:
  "readable panel_host (path_parts (U ''/etc/ezopenpn/control.toml'')) panel_config panel_tree"
proof -
  have "path_parts (U ''/etc/ezopenpn/control.toml'') = map U [''etc'', ''ezopenpn'', ''control.toml'']" by (simp add: path_parts_def U_def)
  moreover have "path_bytes panel_host (map U [''etc'', ''ezopenpn'', ''control.toml'']) = Inr (place [''etc'', ''ezopenpn'', ''control.toml''])"
    unfolding panel_path by (rule sample_paths) simp
  moreover have "resolve panel_tree True MAX_LINKS [] (place [''etc'', ''ezopenpn'', ''control.toml'']) = Inr (place [''etc'', ''ezopenpn'', ''control.toml''])"
    "fs_at panel_tree (place [''etc'', ''ezopenpn'', ''control.toml'']) = Some (File panel_config root_owner 416)"
    by (simp_all add: panel_tree_def fs_at_def place_def literal_inj DOT_DOT_def) (simp_all add: place_simps)
  ultimately show ?thesis unfolding readable_def by simp
qed

lemma panel_tree_dir: "real_dir panel_tree (place [''run'', ''secrets''])"
proof (rule wf_real_dir)
  show "fs_wf panel_tree" by (rule fs_wf_listed) (simp add: panel_tree_def fs_at_def place_simps)
  show "is_dir (fs_at panel_tree (place [''run'', ''secrets'']))" by (simp add: panel_tree_def fs_at_def place_def literal_inj)
  show "DOT_DOT \<notin> set (place [''run'', ''secrets''])" by (simp add: place_simps DOT_DOT_def)
qed

lemma panel_secret:
  assumes "(name, b) \<in> {(''ezopenpn_master_key'', 1), (''ezopenpn_hysteria_api'', 2), (''ezopenpn_hysteria_obfs'', 3)}"
  shows "secret_file panel_host (map U [''run'', ''secrets'', name]) (replicate 32 b) panel_tree"
proof -
  have "path_bytes panel_host (map U [''run'', ''secrets'', name]) = Inr (place [''run'', ''secrets'', name])"
    unfolding panel_path by (rule sample_paths) (use assms in auto)
  moreover have "fs_at panel_tree (place [''run'', ''secrets'', name]) = Some (File (replicate 32 b) root_owner 384)"
    using assms by (elim insertE emptyE; simp only: prod.inject; simp add: panel_tree_def fs_at_def place_def literal_inj)
  moreover have "resolve panel_tree False MAX_LINKS [] (place [''run'', ''secrets''] @ [ascii_bytes (U name)]) = Inr (place [''run'', ''secrets''] @ [ascii_bytes (U name)])"
    by (rule resolve_leaf [OF panel_tree_dir]) (use assms in \<open>auto simp: DOT_DOT_def ascii_bytes_def U_def\<close>)
  then have "resolve panel_tree False MAX_LINKS [] (place [''run'', ''secrets'', name]) = Inr (place [''run'', ''secrets'', name])" by (simp add: place_def)
  ultimately show ?thesis by (simp add: secret_file_def)
qed

abbreviation sample_start :: "web_services outcome \<times> fs" where
  "sample_start \<equiv> create_runtime_app panel_host sim (\<lambda>_. None) panel_url [] (\<lambda>_. None) panel_tree"

theorem panel_starts_witness:
  "\<exists>ws t. sample_start = (Ok ws, t) \<and> tc_host (co_links (ws_runtime ws)) = 3405803783 \<and> tc_reality_public_key (co_links (ws_runtime ws)) = sample_key
     \<and> tc_hysteria_obfs_password (co_links (ws_runtime ws)) = url_token (replicate 32 3)"
proof -
  have parts: "path_parts (U ''/run/secrets/ezopenpn_master_key'') = map U [''run'', ''secrets'', ''ezopenpn_master_key'']"
    "path_parts (U ''/run/secrets/ezopenpn_hysteria_api'') = map U [''run'', ''secrets'', ''ezopenpn_hysteria_api'']"
    "path_parts (U ''/run/secrets/ezopenpn_hysteria_obfs'') = map U [''run'', ''secrets'', ''ezopenpn_hysteria_obfs'']"
    by (simp_all add: path_parts_def U_def)
  have secrets: "secret_file panel_host (path_parts (U ''/run/secrets/ezopenpn_master_key'')) (replicate 32 1) panel_tree"
    "secret_file panel_host (path_parts (U ''/run/secrets/ezopenpn_hysteria_api'')) (replicate 32 2) panel_tree"
    "secret_file panel_host (path_parts (U ''/run/secrets/ezopenpn_hysteria_obfs'')) (replicate 32 3) panel_tree"
    unfolding parts by (rule panel_secret, simp)+
  have url: "stats_url_ok (panel_url (U ''http://hysteria:9999/''))" by (simp add: stats_url_ok_def panel_url_def)
  have reads: "toml_reads (cf_toml panel_host)" by (simp add: panel_host_fields read_toml_reads)
  have quiet: "\<not> io_fault panel_host k" for k by (simp add: panel_host_fields)
  have address: "(3405803783 :: nat) < 2 ^ 32" by simp
  from panel_starts [where environ = "\<lambda>_. None" and url = panel_url and P = sim and dummy = "[]" and segno = "\<lambda>_. None",
      OF quiet reads panel_pydantic url sample_xray_ok address refl panel_config_readable [unfolded panel_config_def] secrets]
  obtain ws t where "sample_start = (Ok ws, t)" and links: "co_links (ws_runtime ws) = \<lparr>tc_host = word_of_nat 3405803783, tc_reality_public_key = xv_public_key sample_xray,
      tc_reality_short_id = xv_short_id sample_xray, tc_hysteria_obfs_password = url_token (replicate 32 3), tc_public_port = 443, tc_panel_port = 9443\<rparr>" by blast
  then show ?thesis by (intro exI [of _ ws] exI [of _ t]) (simp add: links sample_xray_def)
qed

text \<open>
  C16. The panel never starts on unsafe settings or secrets. Whatever the files and the environment hold, on any host and with any schedule of failing system calls,
  \<^verbatim>\<open>create_runtime_app\<close> ends and changes no file. When it succeeds, the settings that were read are valid, the keys of the panel come from three regular files,
  not links, of mode 0600 and exactly 32 bytes, the configuration of the links passed its checks and has the obfuscation secret as a token, the idle
  deadline of sessions is positive and at most the absolute one, at least one proxy host with a name is trusted and no other client address is exposed.
\<close>

theorem panel_start_guarded:
  assumes run: "create_runtime_app h P environ url dummy segno s = (r, t)"
  shows "r \<noteq> Stuck \<and> fs_nodes t = fs_nodes s \<and> (\<forall>ws. r = Ok ws \<longrightarrow> (\<exists>st master api obfs. settings_ok st
    \<and> secret_file h (path_parts (ps_master_key_path (st_paths st))) master s
    \<and> secret_file h (path_parts (ps_hysteria_api_path (st_paths st))) api s
    \<and> secret_file h (path_parts (ps_hysteria_obfs_path (st_paths st))) obfs s
    \<and> secret_cipher P master = Inr (co_cipher (ws_runtime ws))
    \<and> config_ok (co_links (ws_runtime ws)) \<and> tc_host (co_links (ws_runtime ws)) = ap_public_ip (st_app st)
    \<and> tc_hysteria_obfs_password (co_links (ws_runtime ws)) = url_token obfs
    \<and> 0 < sv_idle_duration (ws_sessions ws) \<and> sv_idle_duration (ws_sessions ws) \<le> sv_absolute_duration (ws_sessions ws)
    \<and> ws_trusted_proxy_hosts ws \<noteq> [] \<and> [] \<notin> set (ws_trusted_proxy_hosts ws) \<and> \<not> ws_expose_observed_client ws))"
proof (intro conjI allI impI)
  show "r \<noteq> Stuck" using returns_app run by (metis returnsD)
  show "fs_nodes t = fs_nodes s" by (rule keepsD_eq [where I = "\<lambda>x. fs_nodes x = fs_nodes s", OF keeps_app run refl])
next
  fix ws assume "r = Ok ws"
  with run have "reads s (create_runtime_app h P environ url dummy segno) ws" by (auto simp: reads_def)
  then obtain st f where st: "settings_at h (config_path_of environ) st s" "secrets_at h st f s" "runtime_services P url dummy segno st f = Inr ws" by (rule reads_app)
  from st(1) have ok: "settings_ok st" by (auto simp: settings_at_def intro: settings_of_text_ok)
  have ws: "serves P st f ws" by (rule services_serve [OF st(3)])
  then have links: "link_config st f = Inr (co_links (ws_runtime ws))" by (simp add: serves_def)
  show "\<exists>st master api obfs. settings_ok st
    \<and> secret_file h (path_parts (ps_master_key_path (st_paths st))) master s
    \<and> secret_file h (path_parts (ps_hysteria_api_path (st_paths st))) api s
    \<and> secret_file h (path_parts (ps_hysteria_obfs_path (st_paths st))) obfs s
    \<and> secret_cipher P master = Inr (co_cipher (ws_runtime ws))
    \<and> config_ok (co_links (ws_runtime ws)) \<and> tc_host (co_links (ws_runtime ws)) = ap_public_ip (st_app st)
    \<and> tc_hysteria_obfs_password (co_links (ws_runtime ws)) = url_token obfs
    \<and> 0 < sv_idle_duration (ws_sessions ws) \<and> sv_idle_duration (ws_sessions ws) \<le> sv_absolute_duration (ws_sessions ws)
    \<and> ws_trusted_proxy_hosts ws \<noteq> [] \<and> [] \<notin> set (ws_trusted_proxy_hosts ws) \<and> \<not> ws_expose_observed_client ws"
    using ok st(2) ws serves_safe [OF ws ok] arg_cong [OF link_config_Inr(1) [OF links], of tc_host] arg_cong [OF link_config_Inr(1) [OF links], of tc_hysteria_obfs_password]
    by (intro exI [of _ st] exI [of _ "sf_master_key f"] exI [of _ "sf_hysteria_api_secret f"] exI [of _ "sf_hysteria_obfs_secret f"])
      (simp add: secrets_at_def serves_def)
qed

theorem panel_start_guarded_witness: "fst sample_start \<noteq> Stuck \<and> fs_nodes (snd sample_start) = fs_nodes panel_tree"
  using panel_start_guarded [of panel_host sim "\<lambda>_. None" panel_url "[]" "\<lambda>_. None" panel_tree "fst sample_start" "snd sample_start"] by simp

section \<open>The command line\<close>

text \<open>
  C22. A backup of the database is made whole or not at all, and overwrites nothing. Let the database and the output be reached without links, at places that do not
  collide, in a well-formed tree, on any host, with any answers of SQLite and any schedule of failing system calls. \<^verbatim>\<open>create_online_backup\<close> ends, and nothing has changed
  except the output and the journal files beside the two databases; the database itself is as before. When it succeeds, there was nothing at the output before; now there is a
  file of mode 0600 whose content has the reported SHA-256 digest, that passed the quick check and has a supported schema. When it fails, the output is as it was:
  a file that was there is kept, and a copy that was begun is removed, unless a system call failed.
\<close>

theorem backup_all_or_nothing:
  assumes "backup_at h engine target src out s" and run: "create_online_backup h engine target s = (r, t)"
  shows "r \<noteq> Stuck \<and> fs_at t src = fs_at s src \<and> (\<forall>q. q \<notin> backup_places src out \<longrightarrow> fs_at t q = fs_at s q)
    \<and> (case r of Ok b \<Rightarrow> fs_at s out = None \<and> backed_up h target out b t
       | _ \<Rightarrow> fs_at t out = fs_at s out \<or> fs_at s out = None \<and> (\<exists>n. io_fault h n))"
proof -
  have ends: "r \<noteq> Stuck" using returns_online_backup run by (metis returnsD)
  note outcome = runs_Ok [OF runs_backup [OF assms(1)] refl] runs_Raise [OF runs_backup [OF assms(1)] refl]
  have "src \<notin> backup_places src out" using assms(1) side_not_self [of src] by (auto simp: backup_at_def backup_places_def)
  then show ?thesis using outcome run ends by (cases r) (auto simp: untouched_def)
qed

definition backup_sample_host :: backup_host where
  "backup_sample_host = installer.extend sample_host
     \<lparr>bk_view = \<lambda>_ _. \<lparr>qv_quick = Inr [U ''ok''], qv_schema = Inr [[SqlText (U ''0001_initial'')]], qv_foreign = Inr False, qv_side = \<lambda>_. None\<rparr>,
      bk_copy = \<lambda>_ _ _. \<lparr>cp_data = [1, 2, 3], cp_target_side = \<lambda>_. None, cp_source_side = \<lambda>_. Some (Some ([], 384)), cp_error = None\<rparr>\<rparr>"

definition backup_sample_tree :: fs where
  "backup_sample_tree = \<lparr>fs_nodes = [(place [''data''], Dir root_owner 448), (place [''data'', ''panel.db''], File [1, 2, 3] root_owner 384),
     (place [''backup''], Dir root_owner 448)], fs_calls = 0\<rparr>"

abbreviation sample_backup :: "database_backup outcome \<times> fs" where
  "sample_backup \<equiv> create_online_backup backup_sample_host (U ''/data/panel.db'') [U ''backup'', U ''copy.db''] backup_sample_tree"

lemma backup_sample_at: "backup_at backup_sample_host (U ''/data/panel.db'') [U ''backup'', U ''copy.db''] (place [''data'', ''panel.db'']) (place [''backup'', ''copy.db'']) backup_sample_tree"
proof -
  have encode: "io_fsencode backup_sample_host = io_fsencode sample_host" by (simp add: backup_sample_host_def installer.defs sample_host_def)
  then have bytes: "path_bytes backup_sample_host p = path_bytes sample_host p" for p by (simp add: path_bytes_def)
  have wf: "fs_wf backup_sample_tree" by (rule fs_wf_listed) (simp add: backup_sample_tree_def fs_at_def place_simps)
  have "real_dir backup_sample_tree (place [d])" if "d \<in> {''data'', ''backup''}" for d
    using that by (intro wf_real_dir [OF wf]) (auto simp: backup_sample_tree_def fs_at_def place_simps DOT_DOT_def)
  from this [of "''data''"] this [of "''backup''"] show ?thesis
    using wf sample_paths [of "[''data'', ''panel.db'']"] sample_paths [of "[''backup'', ''copy.db'']"]
    by (simp add: backup_at_def bytes path_parts_def) (simp add: place_simps DOT_DOT_def sides_def side_of_def SIDE_SUFFIXES_def)
qed

theorem backup_all_or_nothing_witness:
  "fst sample_backup \<noteq> Stuck \<and> fs_at (snd sample_backup) (place [''data'', ''panel.db'']) = Some (File [1, 2, 3] root_owner 384)"
  using backup_all_or_nothing [OF backup_sample_at, of "fst sample_backup" "snd sample_backup"]
  by (simp add: backup_sample_tree_def fs_at_def place_def literal_inj)







end
