(* ===== verification/Log_Filter.thy ===== *)
theory Log_Filter
  imports Installer "HOL-Library.Sublist"
begin

text \<open>
  The log filter of the installer, \<^verbatim>\<open>installer/sanitize_logs.py\<close>, and the theory of its substitutions: what they remove, and that no later one brings it back.
\<close>

section \<open>Substitution\<close>

text \<open>The common scan of \<^verbatim>\<open>str.replace\<close> and \<^verbatim>\<open>re.sub\<close>: from left to right, where the pattern matches, its \<open>n\<close> characters give way to the replacement.\<close>

type_synonym matcher = "ustr \<Rightarrow> (ustr \<times> nat) option"

function sub_all :: "matcher \<Rightarrow> ustr \<Rightarrow> ustr" where
  "sub_all m [] = []"
| "sub_all m (x # xs) = (case m (x # xs) of None \<Rightarrow> x # sub_all m xs | Some (r, n) \<Rightarrow> r @ sub_all m (drop (n - 1) xs))"
  by pat_completeness auto
termination
  by (relation "measure (\<lambda>(m, t). length t)") auto

definition REDACTED :: ustr where "REDACTED = U ''<redacted>''"

definition value_match :: "ustr \<Rightarrow> matcher" where
  "value_match v t = (if is_prefix v t then Some (REDACTED, length v) else None)"

text \<open>
  Case-insensitive literals: a character matches a letter when its lower case is the letter, or for \<open>i\<close> and \<open>s\<close> the dotless and the long form. Beside the
  capitals, the Kelvin sign and the dotted capital have ASCII lower cases.
\<close>

definition ignorecase :: "nat \<Rightarrow> nat \<Rightarrow> bool" where
  "ignorecase p c \<longleftrightarrow> c = p \<or> 97 \<le> p \<and> p \<le> 122 \<and> (c + 32 = p \<or> p = 107 \<and> c = 8490 \<or> p = 105 \<and> c \<in> {304, 305} \<or> p = 115 \<and> c = 383)"

definition literal_at :: "ustr \<Rightarrow> ustr \<Rightarrow> bool" where
  "literal_at p t \<longleftrightarrow> length p \<le> length t \<and> list_all2 ignorecase p (take (length p) t)"

text \<open>The first alternative that matches, as the number of its characters.\<close>

definition first_literal :: "ustr list \<Rightarrow> ustr \<Rightarrow> nat option" where
  "first_literal ps t = map_option length (find (\<lambda>p. literal_at p t) ps)"

definition LINK_HEADS :: "ustr list" where "LINK_HEADS = [U ''vless://'', U ''hysteria2://'']"
definition PAIR_HEADS :: "ustr list" where "PAIR_HEADS = [U ''token='', U ''secret='', U ''password='']"

text \<open>\<^verbatim>\<open>(?i)(?:vless|hysteria2)://[^\s]+\<close>\<close>

definition link_match :: matcher where
  "link_match t = Option.bind (first_literal LINK_HEADS t) (\<lambda>k. let run = takeWhile (\<lambda>c. \<not> isspace c) (drop k t) in
     if run = [] then None else Some (REDACTED, k + length run))"

text \<open>\<^verbatim>\<open>(?i)(token|secret|password)=([^\s&]+)\<close>, replaced by \<^verbatim>\<open>\1=<redacted>\<close>\<close>

definition pair_match :: matcher where
  "pair_match t = Option.bind (first_literal PAIR_HEADS t) (\<lambda>k. let run = takeWhile (\<lambda>c. \<not> isspace c \<and> c \<noteq> 38) (drop k t) in
     if run = [] then None else Some (take k t @ REDACTED, k + length run))"

section \<open>The filter\<close>

text \<open>The iteration order of a set of strings is a field of the host.\<close>

record log_host = installer +
  lh_order :: "ustr list \<Rightarrow> ustr list"

definition stored_values_of :: "'h host_scheme \<Rightarrow> path \<Rightarrow> (fs, ustr list) prog" where
  "stored_values_of h p = bindP (catch (path_read_bytes h p) (\<lambda>e. if e = OSError then ret [] else raise e)) (\<lambda>raw.
     if raw = [] then ret [] else
     ret (url_token raw # (case decode_utf8 raw of Inl _ \<Rightarrow> [] | Inr decoded \<Rightarrow> if decoded = [] then [] else [decoded])))"

fun stored_values :: "'h host_scheme \<Rightarrow> path list \<Rightarrow> (fs, ustr list) prog" where
  "stored_values h [] = ret []"
| "stored_values h (p # ps) = bindP (stored_values_of h p) (\<lambda>vs. bindP (stored_values h ps) (\<lambda>ws. ret (vs @ ws)))"

text \<open>Subscripts; \<open>None\<close> is a \<^verbatim>\<open>KeyError\<close>, an \<^verbatim>\<open>IndexError\<close> or a \<^verbatim>\<open>TypeError\<close>, which the caller handles alike.\<close>

definition item_of :: "ustr \<Rightarrow> json \<Rightarrow> json option" where
  "item_of k j = (case j of JDict d \<Rightarrow> map_of d k | _ \<Rightarrow> None)"

definition first_of :: "json \<Rightarrow> json option" where
  "first_of j = (case j of JList (v # _) \<Rightarrow> Some v | JStr (c # _) \<Rightarrow> Some (JStr [c]) | _ \<Rightarrow> None)"

definition reality_values :: "json \<Rightarrow> ustr list" where
  "reality_values config =
     (case Option.bind (item_of (U ''inbounds'') config) (\<lambda>a. Option.bind (first_of a) (\<lambda>b. Option.bind (item_of (U ''streamSettings'') b) (\<lambda>c.
        Option.bind (item_of (U ''realitySettings'') c) (\<lambda>reality. Option.bind (item_of (U ''privateKey'') reality) (\<lambda>private_key.
        Option.bind (item_of (U ''shortIds'') reality) (\<lambda>short_ids. Some (private_key, short_ids))))))) of
       Some (JStr private_key, JList short_ids) \<Rightarrow> private_key # List.map_filter (\<lambda>v. case v of JStr t \<Rightarrow> Some t | _ \<Rightarrow> None) short_ids
     | _ \<Rightarrow> [])"

definition runtime_values :: "'h installer_scheme \<Rightarrow> path \<Rightarrow> (fs, ustr list) prog" where
  "runtime_values h p = catch
     (bindP (path_read_bytes h p) (\<lambda>raw. bindP (lift_result (decode_utf8 raw)) (\<lambda>content.
      bindP (lift_result (json_loads (in_json_depth h) (universal_newlines content))) (\<lambda>config. ret (reality_values config)))))
     (\<lambda>e. if e = OSError \<or> e = JSONDecodeError then ret [] else raise e)"

definition redact_values :: "ustr list \<Rightarrow> ustr \<Rightarrow> ustr" where
  "redact_values vs t = fold (\<lambda>v t. if v \<noteq> [] then sub_all (value_match v) t else t) vs t"

definition redact :: "'h log_host_scheme \<Rightarrow> ustr \<Rightarrow> path list \<Rightarrow> path \<Rightarrow> (fs, ustr) prog" where
  "redact h t paths config = bindP (stored_values h paths) (\<lambda>stored. bindP (runtime_values h config) (\<lambda>runtime.
     let vs = sort_key (\<lambda>v. - int (length v)) (lh_order h (remdups (stored @ runtime))) in
     ret (sub_all pair_match (sub_all link_match (redact_values vs t)))))"

text \<open>\<^verbatim>\<open>main\<close> with the arguments and the standard input: the status and what is written.\<close>

definition sanitize_main :: "'h log_host_scheme \<Rightarrow> ustr list \<Rightarrow> ustr \<Rightarrow> (fs, int \<times> ustr) prog" where
  "sanitize_main h arguments standard_input = (if length arguments \<noteq> 4 then ret (2, [])
     else let paths = map path_parts arguments in bindP (redact h standard_input (take 3 paths) (paths ! 3)) (\<lambda>t. ret (0, t)))"

section \<open>What a substitution keeps\<close>

text \<open>\<open>redacts t u\<close>: \<open>u\<close> is \<open>t\<close> with some pieces cut out, each replaced by the mark. \<open>Q\<close> holds for the first character of a piece.\<close>

inductive redacts :: "(nat \<Rightarrow> bool) \<Rightarrow> ustr \<Rightarrow> ustr \<Rightarrow> bool" for Q where
  redacts_Nil: "redacts Q [] []"
| redacts_keep: "redacts Q t u \<Longrightarrow> redacts Q (x # t) (x # u)"
| redacts_cut: "redacts Q t u \<Longrightarrow> p \<noteq> [] \<Longrightarrow> Q (hd p) \<Longrightarrow> redacts Q (p @ t) (REDACTED @ u)"

inductive_cases redacts_NilE: "redacts Q [] u"

definition safe_matcher :: "(nat \<Rightarrow> bool) \<Rightarrow> matcher \<Rightarrow> bool" where
  "safe_matcher Q m \<longleftrightarrow> (\<forall>t r n. m t = Some (r, n) \<longrightarrow> (\<exists>k < n. n \<le> length t \<and> r = take k t @ REDACTED \<and> Q (t ! k)))"

lemma redacts_prefix: "redacts Q t u \<Longrightarrow> redacts Q (p @ t) (p @ u)"
  by (induction p) (auto intro: redacts_keep)

lemma sub_all_redacts: "safe_matcher Q m \<Longrightarrow> redacts Q t (sub_all m t)"
proof (induction m t rule: sub_all.induct)
  case (2 m x xs)
  show ?case
  proof (cases "m (x # xs)")
    case (Some rn)
    then obtain r n where rn: "m (x # xs) = Some (r, n)" by (cases rn) auto
    with 2(3) obtain k where k: "k < n" "n \<le> length (x # xs)" "r = take k (x # xs) @ REDACTED" "Q ((x # xs) ! k)" unfolding safe_matcher_def by blast
    let ?p = "take (n - k) (drop k (x # xs))" and ?rest = "drop n (x # xs)"
    have parts: "x # xs = take k (x # xs) @ ?p @ ?rest" using k(1) by (metis append_assoc append_take_drop_id le_add_diff_inverse less_imp_le_nat take_add)
    have "redacts Q ?rest (sub_all m ?rest)" using 2(2) [of "(r, n)" r n] 2(3) rn k(1) by (cases n) auto
    moreover have "?p \<noteq> []" "Q (hd ?p)" using k by (auto simp: hd_drop_conv_nth)
    ultimately have "redacts Q (take k (x # xs) @ ?p @ ?rest) (take k (x # xs) @ REDACTED @ sub_all m ?rest)" by (intro redacts_prefix redacts_cut)
    moreover have "sub_all m (x # xs) = take k (x # xs) @ REDACTED @ sub_all m ?rest" using rn k(1,3) by (cases n) auto
    ultimately show ?thesis using parts by simp
  qed (use 2(1,3) in \<open>auto intro: redacts_keep\<close>)
qed (simp add: redacts_Nil)

text \<open>A text without the brackets of the mark.\<close>

definition unmarked :: "ustr \<Rightarrow> bool" where
  "unmarked v \<longleftrightarrow> 60 \<notin> set v \<and> 62 \<notin> set v"

lemma prefix_kept: "redacts Q t u \<Longrightarrow> 60 \<notin> set v \<Longrightarrow> prefix v u \<Longrightarrow> prefix v t"
proof (induction arbitrary: v rule: redacts.induct)
  case (redacts_keep t u x)
  then show ?case by (cases v) auto
next
  case (redacts_cut t u p)
  have "prefix v (60 # U ''redacted>'' @ u)" using redacts_cut.prems(2) by (simp add: REDACTED_def U_def)
  with redacts_cut.prems(1) show ?case by (cases v) auto
qed simp

lemma mark_sublist: "unmarked v \<Longrightarrow> 8 < length v \<Longrightarrow> sublist v (REDACTED @ u) \<Longrightarrow> sublist v u"
  by (auto simp: REDACTED_def U_def sublist_Cons_right prefix_Cons unmarked_def)

text \<open>No substitution brings back a longer text without brackets.\<close>

lemma sublist_kept: "redacts Q t u \<Longrightarrow> unmarked v \<Longrightarrow> 8 < length v \<Longrightarrow> sublist v u \<Longrightarrow> sublist v t"
proof (induction rule: redacts.induct)
  case (redacts_keep t u x)
  then show ?case using prefix_kept [OF redacts.redacts_keep [OF redacts_keep.hyps], of v x] by (auto simp: sublist_Cons_right unmarked_def)
next
  case (redacts_cut t u p)
  then have "sublist v t" using mark_sublist [of v u] by blast
  then show ?case by (simp add: sublist_append)
qed simp

lemma is_prefix_prefix: "is_prefix v t \<longleftrightarrow> prefix v t"
  by (auto simp: is_prefix_def prefix_def) (metis append_eq_conv_conj append_take_drop_id)

lemma value_match_safe: "v \<noteq> [] \<Longrightarrow> safe_matcher (\<lambda>_. True) (value_match v)"
  by (auto simp: safe_matcher_def value_match_def is_prefix_prefix prefix_length_le intro!: exI [of _ 0])

lemma value_removed:
  assumes "unmarked v" and "8 < length v"
  shows "\<not> sublist v (sub_all (value_match v) t)"
proof (induction "value_match v" t rule: sub_all.induct)
  case 1
  then show ?case using assms(2) by auto
next
  case (2 x xs)
  have "v \<noteq> []" using assms(2) by auto
  note kept = sub_all_redacts [OF value_match_safe [OF this]]
  show ?case
  proof (cases "prefix v (x # xs)")
    case True
    then have "value_match v (x # xs) = Some (REDACTED, length v)" by (simp add: value_match_def is_prefix_prefix)
    then show ?thesis using 2(2) [of "(REDACTED, length v)" REDACTED "length v"] mark_sublist [OF assms] by auto
  next
    case False
    then have none: "value_match v (x # xs) = None" by (simp add: value_match_def is_prefix_prefix)
    with prefix_kept [OF kept [of "x # xs"], of v] False assms(1) 2(1) show ?thesis by (auto simp: sublist_Cons_right unmarked_def)
  qed
qed

lemma redact_values_gone:
  assumes "v \<in> set vs" and "unmarked v" and "8 < length v"
  shows "\<not> sublist v (redact_values vs t)"
proof -
  have keep: "\<not> sublist v (redact_values ws u)" if "\<not> sublist v u" for ws u
    using that
  proof (induction ws arbitrary: u)
    case (Cons w ws)
    then have "\<not> sublist v (if w \<noteq> [] then sub_all (value_match w) u else u)"
      using sublist_kept [OF sub_all_redacts [OF value_match_safe] assms(2,3)] by auto
    from Cons.IH [OF this] show ?case by (simp add: redact_values_def)
  qed (simp add: redact_values_def)
  obtain us ws where vs: "vs = us @ v # ws" using split_list [OF assms(1)] by blast
  have "\<not> sublist v (sub_all (value_match v) (redact_values us t))" by (rule value_removed [OF assms(2,3)])
  from keep [OF this, of ws] show ?thesis using assms(3) by (auto simp: vs redact_values_def)
qed

section \<open>Links\<close>

lemma literal_at_append: "literal_at p t \<Longrightarrow> literal_at p (t @ u)"
  by (auto simp: literal_at_def)

lemma literal_unmarked: "literal_at p t \<Longrightarrow> 60 \<notin> set p \<Longrightarrow> 60 \<notin> set (take (length p) t)"
  by (auto simp: literal_at_def in_set_conv_nth list_all2_conv_all_nth ignorecase_def)

lemma link_heads_apart: "p \<in> set LINK_HEADS \<Longrightarrow> q \<in> set LINK_HEADS \<Longrightarrow> literal_at p t \<Longrightarrow> literal_at q t \<Longrightarrow> p = q"
  by (cases t) (auto simp: LINK_HEADS_def literal_at_def U_def ignorecase_def)

lemma takeWhile_Nil: "takeWhile P (drop k t) \<noteq> [] \<longleftrightarrow> k < length t \<and> P (t ! k)"
  by (cases "k < length t") (simp_all add: Cons_nth_drop_Suc [symmetric])

lemma link_match_Some:
  "link_match t \<noteq> None \<longleftrightarrow> (\<exists>p \<in> set LINK_HEADS. literal_at p t \<and> length p < length t \<and> \<not> isspace (t ! length p))"
proof (cases "find (\<lambda>p. literal_at p t) LINK_HEADS")
  case None
  then have "\<forall>p \<in> set LINK_HEADS. \<not> literal_at p t" by (auto simp: find_None_iff)
  with None show ?thesis by (auto simp: link_match_def first_literal_def)
next
  case (Some q)
  then have q: "q \<in> set LINK_HEADS" "literal_at q t" by (auto simp: find_Some_iff)
  have "link_match t \<noteq> None \<longleftrightarrow> takeWhile (\<lambda>c. \<not> isspace c) (drop (length q) t) \<noteq> []" by (simp add: link_match_def first_literal_def Some Let_def)
  also have "\<dots> \<longleftrightarrow> length q < length t \<and> \<not> isspace (t ! length q)" by (rule takeWhile_Nil)
  finally show ?thesis using q link_heads_apart [OF q(1)] by blast
qed

lemma run_safe:
  assumes "takeWhile P (drop k t) \<noteq> []" and "\<And>c. P c \<Longrightarrow> Q c"
  shows "k < k + length (takeWhile P (drop k t))" "k + length (takeWhile P (drop k t)) \<le> length t" "Q (t ! k)"
  using assms takeWhile_Nil [of P k t] length_takeWhile_le [of P "drop k t"] by auto

lemma link_match_start: "link_match t \<noteq> None \<Longrightarrow> t \<noteq> [] \<and> hd t \<in> {118, 86, 104, 72}"
  unfolding link_match_Some by (cases t) (auto simp: LINK_HEADS_def literal_at_def U_def ignorecase_def)

lemma link_match_safe: "safe_matcher (\<lambda>c. \<not> isspace c) link_match"
  unfolding safe_matcher_def
proof (intro allI impI)
  fix t r n assume m: "link_match t = Some (r, n)"
  then obtain k where k: "takeWhile (\<lambda>c. \<not> isspace c) (drop k t) \<noteq> []" "r = REDACTED" "n = k + length (takeWhile (\<lambda>c. \<not> isspace c) (drop k t))"
    by (auto simp: link_match_def Let_def bind_eq_Some_conv split: if_splits)
  have "t \<noteq> [] \<and> hd t \<in> {118, 86, 104, 72}" using m by (intro link_match_start) simp
  then have "\<not> isspace (t ! 0)" by (auto simp: hd_conv_nth isspace_def)
  with k run_safe(1,2) [OF k(1), of "\<lambda>c. \<not> isspace c"] show "\<exists>k < n. n \<le> length t \<and> r = take k t @ REDACTED \<and> \<not> isspace (t ! k)" by (intro exI [of _ 0]) auto
qed

lemma pair_match_safe: "safe_matcher (\<lambda>c. \<not> isspace c) pair_match"
  unfolding safe_matcher_def
proof (intro allI impI)
  fix t r n assume "pair_match t = Some (r, n)"
  then obtain k where k: "takeWhile (\<lambda>c. \<not> isspace c \<and> c \<noteq> 38) (drop k t) \<noteq> []" "r = take k t @ REDACTED" "n = k + length (takeWhile (\<lambda>c. \<not> isspace c \<and> c \<noteq> 38) (drop k t))"
    by (auto simp: pair_match_def Let_def bind_eq_Some_conv split: if_splits)
  with run_safe [OF k(1), of "\<lambda>c. \<not> isspace c"] show "\<exists>k < n. n \<le> length t \<and> r = take k t @ REDACTED \<and> \<not> isspace (t ! k)" by (intro exI [of _ k]) simp
qed

lemma next_kept:
  "redacts (\<lambda>c. \<not> isspace c) t u \<Longrightarrow> 60 \<notin> set w \<Longrightarrow> prefix (w @ [c]) u \<Longrightarrow> \<not> isspace c \<Longrightarrow> \<exists>d. prefix (w @ [d]) t \<and> \<not> isspace d"
proof (induction arbitrary: w rule: redacts.induct)
  case (redacts_keep t u x)
  then show ?case by (cases w) auto
next
  case (redacts_cut t u p)
  have "w = []" using redacts_cut.prems(1,2) by (cases w) (auto simp: REDACTED_def U_def)
  with redacts_cut.hyps(2,3) show ?case by (cases p) auto
qed simp

lemma link_kept:
  assumes "redacts (\<lambda>c. \<not> isspace c) t u" and "link_match u \<noteq> None"
  shows "link_match t \<noteq> None"
proof -
  obtain p where p: "p \<in> set LINK_HEADS" "literal_at p u" "length p < length u" "\<not> isspace (u ! length p)" using assms(2) unfolding link_match_Some by blast
  let ?w = "take (length p) u"
  have "60 \<notin> set ?w" by (rule literal_unmarked [OF p(2)]) (use p(1) in \<open>auto simp: LINK_HEADS_def U_def\<close>)
  moreover have "prefix (?w @ [u ! length p]) u" using p(3) by (metis take_Suc_conv_app_nth take_is_prefix)
  ultimately obtain d where d: "prefix (?w @ [d]) t" "\<not> isspace d" using next_kept [OF assms(1)] p(4) by blast
  then obtain r where "t = ?w @ [d] @ r" by (auto simp: prefix_def)
  moreover have "length ?w = length p" using p(3) by simp
  ultimately have "literal_at p t" "length p < length t" "t ! length p = d" using p(2) by (auto simp: literal_at_def nth_append)
  with p(1) d(2) show ?thesis unfolding link_match_Some by blast
qed

lemma link_none_start: "t = [] \<or> hd t \<notin> {118, 86, 104, 72} \<Longrightarrow> link_match t = None"
  using link_match_start [of t] by blast

lemma link_none_kept: "redacts (\<lambda>c. \<not> isspace c) t u \<Longrightarrow> link_match t = None \<Longrightarrow> link_match u = None"
  using link_kept by blast

definition no_links :: "ustr \<Rightarrow> bool" where
  "no_links t \<longleftrightarrow> (\<forall>u. suffix u t \<longrightarrow> link_match u = None)"

lemma no_links_Cons: "no_links (x # t) \<longleftrightarrow> link_match (x # t) = None \<and> no_links t"
  by (auto simp: no_links_def suffix_Cons)

lemma no_links_mark: "no_links (REDACTED @ u) \<longleftrightarrow> no_links u"
proof -
  have "link_match (c # t) = None" if "c \<notin> {118, 86, 104, 72}" for c t using that by (simp add: link_none_start)
  then show ?thesis by (simp add: REDACTED_def U_def no_links_Cons)
qed

lemma no_links_Nil: "no_links []"
  by (simp add: no_links_def link_none_start)

lemma no_links_kept: "redacts (\<lambda>c. \<not> isspace c) t u \<Longrightarrow> no_links t \<Longrightarrow> no_links u"
proof (induction rule: redacts.induct)
  case (redacts_keep t u x)
  then show ?case using link_none_kept [OF redacts.redacts_keep [OF redacts_keep.hyps], of x] by (auto simp: no_links_Cons)
next
  case (redacts_cut t u p)
  have "no_links t" using redacts_cut.prems by (auto simp: no_links_def intro: suffix_appendI)
  with redacts_cut.IH show ?case by (simp add: no_links_mark)
qed simp

lemma links_removed: "no_links (sub_all link_match t)"
proof (induction link_match t rule: sub_all.induct)
  case (2 x xs)
  note kept = sub_all_redacts [OF link_match_safe, of "x # xs"]
  show ?case
  proof (cases "link_match (x # xs)")
    case None
    then show ?thesis using 2(1) link_none_kept [OF kept] by (auto simp: no_links_Cons)
  next
    case (Some rn)
    then obtain r n where rn: "link_match (x # xs) = Some (r, n)" by (cases rn) auto
    then have "r = REDACTED" by (auto simp: link_match_def Let_def bind_eq_Some_conv split: if_splits)
    with rn 2(2) [OF rn refl] show ?thesis by (simp add: no_links_mark)
  qed
qed (simp add: no_links_Nil)

end
