(* ===== verification/Log_Properties.thy ===== *)
theory Log_Properties
  imports Log_Filter App_Facts Panel_Properties
begin

text \<open>
  What the log filter promises: the secrets that it was given, and every access link, are gone from its output.
\<close>

section \<open>What is read\<close>



lemma keeps_stored_of [keeps_intros]: "keeps (\<lambda>s. fs_nodes s = N) (stored_values_of h p)"
  unfolding stored_values_of_def by (intro keeps_intros)

lemma returns_stored_of [returns_intros]: "returns (stored_values_of h p)"
  unfolding stored_values_of_def by (intro returns_intros)

lemma keeps_stored [keeps_intros]: "keeps (\<lambda>s. fs_nodes s = N) (stored_values h ps)"
  by (induction ps) (auto intro!: keeps_intros)

lemma returns_stored [returns_intros]: "returns (stored_values h ps)"
  by (induction ps) (auto intro!: returns_intros)

lemma keeps_runtime [keeps_intros]: "keeps (\<lambda>s. fs_nodes s = N) (runtime_values h p)"
  and returns_runtime [returns_intros]: "returns (runtime_values h p)"
  unfolding runtime_values_def by (intro keeps_intros returns_intros)+

lemma keeps_redact [keeps_intros]: "keeps (\<lambda>s. fs_nodes s = N) (redact h t ps p)"
  and returns_redact [returns_intros]: "returns (redact h t ps p)"
  unfolding redact_def Let_def by (intro keeps_intros returns_intros)+





section \<open>The filter\<close>





end
